(* ===== verification/Prelude.thy ===== *)
theory Prelude imports Main "HOL-Library.AList" begin

text \<open>
  What the components share: JavaScript's strings, dictionaries and list helpers as the
  sources use them, the lemma collections of the development and the generic lemmas its
  proofs rest on.

  A JavaScript string is a list of characters, one per byte of its UTF-8 form; a literal
  outside ASCII is therefore written as its bytes (\<open>em_dash\<close> and its like).
  \<open>trim\<close>, \<open>split(/\s+/)\<close> and \<open>toLowerCase\<close> act on the ASCII
  white space and letters only.  A dictionary whose order can be seen (an object walked with
  \<open>Object.entries\<close>, a \<open>Map\<close>) is an association list with distinct keys, in insertion order.
\<close>

named_theorems text_simps "evaluation of the string helpers"
named_theorems wf_intros "introduction rules of the components' well-formedness invariants"

type_synonym 'a dict = "(string \<times> 'a) list"

section \<open>Characters\<close>

definition is_space :: "char \<Rightarrow> bool" where
  "is_space c \<longleftrightarrow> c = CHR '' '' \<or> c = CHR 0x09 \<or> c = CHR 0x0A \<or> c = CHR 0x0B \<or> c = CHR 0x0C \<or> c = CHR 0x0D"

definition char_code :: "char \<Rightarrow> nat" where
  "char_code c = of_char c"

definition is_digit :: "char \<Rightarrow> bool" where
  "is_digit c \<longleftrightarrow> 48 \<le> char_code c \<and> char_code c \<le> 57"

definition is_upper :: "char \<Rightarrow> bool" where
  "is_upper c \<longleftrightarrow> 65 \<le> char_code c \<and> char_code c \<le> 90"

definition is_lower :: "char \<Rightarrow> bool" where
  "is_lower c \<longleftrightarrow> 97 \<le> char_code c \<and> char_code c \<le> 122"

definition lower_char :: "char \<Rightarrow> char" where
  "lower_char c = (if is_upper c then char_of (char_code c + 32) else c)"

definition upper_char :: "char \<Rightarrow> char" where
  "upper_char c = (if is_lower c then char_of (char_code c - 32) else c)"

definition lower_case :: "string \<Rightarrow> string" where
  "lower_case s = map lower_char s"

lemma is_space_not_digit: "is_space c \<Longrightarrow> \<not> is_digit c"
  by (auto simp: is_space_def is_digit_def char_code_def)

section \<open>Strings\<close>

text \<open>\<open>s.trim()\<close>, \<open>s.split(c)\<close>, \<open>xs.join(sep)\<close>, \<open>s.split(/\s+/)\<close>.\<close>

definition trim :: "string \<Rightarrow> string" where
  "trim s = rev (dropWhile is_space (rev (dropWhile is_space s)))"

fun split_on :: "char \<Rightarrow> string \<Rightarrow> string list" where
  "split_on c [] = [[]]"
| "split_on c (x # xs) =
     (if x = c then [] # split_on c xs
      else (case split_on c xs of [] \<Rightarrow> [[x]] | w # ws \<Rightarrow> (x # w) # ws))"

fun join :: "string \<Rightarrow> string list \<Rightarrow> string" where
  "join sep [] = []"
| "join sep [x] = x"
| "join sep (x # y # ys) = x @ sep @ join sep (y # ys)"

text \<open>
  The pieces between maximal runs of separator characters: \<open>split_runs p\<close> is
  \<open>split(/[p]+/)\<close>, which keeps an empty piece before a leading run and after a trailing one.
\<close>

fun split_runs :: "(char \<Rightarrow> bool) \<Rightarrow> string \<Rightarrow> string list" where
  "split_runs p [] = [[]]"
| "split_runs p (x # xs) =
     (if p x then (if xs \<noteq> [] \<and> p (hd xs) then split_runs p xs else [] # split_runs p xs)
      else (x # hd (split_runs p xs)) # tl (split_runs p xs))"

definition non_empty :: "string list \<Rightarrow> string list" where
  "non_empty ws = filter (\<lambda>w. w \<noteq> []) ws"

definition starts_with :: "string \<Rightarrow> string \<Rightarrow> bool" where
  "starts_with s p \<longleftrightarrow> take (length p) s = p"

fun contains :: "string \<Rightarrow> string \<Rightarrow> bool" where
  "contains [] p \<longleftrightarrow> p = []"
| "contains (x # xs) p \<longleftrightarrow> starts_with (x # xs) p \<or> contains xs p"

text \<open>\<open>a || b\<close> on strings: the second when the first is empty.\<close>

definition or_else :: "string \<Rightarrow> string \<Rightarrow> string" where
  "or_else a b = (if a = [] then b else a)"

definition blank :: "string \<Rightarrow> bool" where
  "blank s \<longleftrightarrow> trim s = []"

lemma trim_Nil [simp]: "trim [] = []"
  by (simp add: trim_def)

lemma dropWhile_rev_keep: "(\<And>x. x \<in> set xs \<Longrightarrow> \<not> P x) \<Longrightarrow> dropWhile P (rev xs) = rev xs"
  by (metis dropWhile_eq_self_iff hd_in_set set_rev)

text \<open>A string without white space at either end is its own trim.\<close>

lemma trim_id: "s = [] \<or> \<not> is_space (hd s) \<and> \<not> is_space (last s) \<Longrightarrow> trim s = s"
proof -
  assume h: "s = [] \<or> \<not> is_space (hd s) \<and> \<not> is_space (last s)"
  then have "dropWhile is_space s = s" "dropWhile is_space (rev s) = rev s"
    by (auto simp: dropWhile_eq_self_iff hd_rev)
  then show ?thesis by (simp add: trim_def)
qed

lemma trim_ends: "trim s \<noteq> [] \<Longrightarrow> \<not> is_space (hd (trim s)) \<and> \<not> is_space (last (trim s))"
proof -
  assume ne: "trim s \<noteq> []"
  let ?d = "dropWhile is_space s"
  have 1: "\<not> is_space (last (trim s))"
    using ne hd_dropWhile [of is_space "rev ?d"]
    by (simp add: trim_def last_rev)
  obtain t where t: "?d = trim s @ t"
    by (metis append_take_drop_id dropWhile_eq_drop rev_append rev_rev_ident trim_def)
  then have "hd (trim s) = hd ?d" "?d \<noteq> []" using ne by auto
  then have "\<not> is_space (hd (trim s))" using hd_dropWhile [of is_space s] by simp
  with 1 show ?thesis by simp
qed

lemma trim_trim [simp]: "trim (trim s) = trim s"
  using trim_ends trim_id by blast

lemma split_on_not_Nil [simp]: "split_on c s \<noteq> []"
  by (cases s) (auto split: list.splits)

lemma split_on_no_sep: "c \<notin> set s \<Longrightarrow> split_on c s = [s]"
  by (induction s) auto

lemma split_on_append_sep: "c \<notin> set s \<Longrightarrow> split_on c (s @ c # t) = s # split_on c t"
  by (induction s) (auto split: list.splits)

lemma split_on_pieces: "w \<in> set (split_on c s) \<Longrightarrow> c \<notin> set w"
  by (induction s arbitrary: w) (auto split: if_splits list.splits)

section \<open>Decimal numerals\<close>

definition digit_char :: "nat \<Rightarrow> char" where
  "digit_char n = ''0123456789'' ! n"

definition digit_val :: "char \<Rightarrow> nat" where
  "digit_val c = char_code c - 48"

fun nat_text :: "nat \<Rightarrow> string" where
  "nat_text n = (if n < 10 then [digit_char n] else nat_text (n div 10) @ [digit_char (n mod 10)])"

declare nat_text.simps [simp del]

definition digits_val :: "string \<Rightarrow> nat" where
  "digits_val ds = foldl (\<lambda>a c. 10 * a + digit_val c) 0 ds"

definition int_text :: "int \<Rightarrow> string" where
  "int_text i = (if i < 0 then ''-'' @ nat_text (nat (- i)) else nat_text (nat i))"

lemma less_10_cases: "(n::nat) < 10 \<Longrightarrow> n \<in> {0,1,2,3,4,5,6,7,8,9}"
  by auto

lemma digit_char_facts:
  "n < 10 \<Longrightarrow> is_digit (digit_char n) \<and> digit_val (digit_char n) = n \<and> \<not> is_space (digit_char n)"
  using less_10_cases [of n]
  by (auto simp: digit_char_def is_digit_def digit_val_def char_code_def is_space_def numeral_eq_Suc)

lemma is_digit_val: "is_digit c \<Longrightarrow> digit_val c < 10 \<and> digit_char (digit_val c) = c"
proof -
  assume "is_digit c"
  then have b: "48 \<le> char_code c" "char_code c \<le> 57" by (auto simp: is_digit_def)
  then have v: "digit_val c < 10" by (simp add: digit_val_def)
  then have "char_code (digit_char (digit_val c)) = char_code c"
    using digit_char_facts [OF v] b unfolding digit_val_def is_digit_def by linarith
  then show ?thesis using v by (simp add: char_code_def)
qed

lemma nat_text_not_Nil [simp]: "nat_text n \<noteq> []"
  by (subst nat_text.simps) simp

lemma nat_text_digits: "c \<in> set (nat_text n) \<Longrightarrow> is_digit c"
proof (induction n rule: nat_text.induct)
  case (1 n)
  then show ?case
    by (cases "n < 10") (auto simp: nat_text.simps [of n] digit_char_facts)
qed

lemma digits_val_Nil [simp]: "digits_val [] = 0"
  by (simp add: digits_val_def)

lemma digits_val_snoc: "digits_val (ds @ [c]) = 10 * digits_val ds + digit_val c"
  by (simp add: digits_val_def)

lemma digits_val_nat_text [simp]: "digits_val (nat_text n) = n"
proof (induction n rule: nat_text.induct)
  case (1 n)
  show ?case
  proof (cases "n < 10")
    case True
    then show ?thesis by (simp add: nat_text.simps [of n] digits_val_def digit_char_facts)
  next
    case False
    with 1 show ?thesis
      by (simp add: nat_text.simps [of n] digits_val_snoc digit_char_facts)
  qed
qed

lemma nat_text_inj [simp]: "nat_text m = nat_text n \<longleftrightarrow> m = n"
  by (metis digits_val_nat_text)

lemma digits_takeWhile:
  "(\<And>c. c \<in> set ds \<Longrightarrow> is_digit c) \<Longrightarrow> rest = [] \<or> \<not> is_digit (hd rest) \<Longrightarrow>
   takeWhile is_digit (ds @ rest) = ds \<and> dropWhile is_digit (ds @ rest) = rest"
  by (cases rest) auto

section \<open>Dictionaries\<close>

text \<open>\<open>d[k] = v\<close> keeps the place of a key it has and appends a new one, as a JavaScript
  object or Map does; that is \<open>AList.update\<close>.\<close>

abbreviation dict_get :: "('k \<times> 'a) list \<Rightarrow> 'k \<Rightarrow> 'a option" where
  "dict_get \<equiv> map_of"

abbreviation dict_set :: "'k \<Rightarrow> 'a \<Rightarrow> ('k \<times> 'a) list \<Rightarrow> ('k \<times> 'a) list" where
  "dict_set \<equiv> AList.update"

abbreviation dict_has :: "('k \<times> 'a) list \<Rightarrow> 'k \<Rightarrow> bool" where
  "dict_has d k \<equiv> map_of d k \<noteq> None"

lemma dict_get_set [simp]: "dict_get (dict_set k v d) k' = (if k' = k then Some v else dict_get d k')"
  by (simp add: update_conv')

lemma dict_has_iff: "dict_has d k \<longleftrightarrow> k \<in> fst ` set d"
  by (metis map_of_eq_None_iff)

section \<open>Lists\<close>

text \<open>\<open>xs.find(p)\<close> is \<open>List.find\<close>; \<open>xs.findIndex(p)\<close> is None where JavaScript has -1.\<close>

fun find_index :: "('a \<Rightarrow> bool) \<Rightarrow> 'a list \<Rightarrow> nat option" where
  "find_index p [] = None"
| "find_index p (x # xs) = (if p x then Some 0 else map_option Suc (find_index p xs))"

fun indexed_from :: "nat \<Rightarrow> 'a list \<Rightarrow> (nat \<times> 'a) list" where
  "indexed_from i [] = []"
| "indexed_from i (x # xs) = (i, x) # indexed_from (Suc i) xs"

abbreviation indexed :: "'a list \<Rightarrow> (nat \<times> 'a) list" where
  "indexed \<equiv> indexed_from 0"

text \<open>\<open>xs.filter((x) => x !== null)\<close>.\<close>

fun somes :: "'a option list \<Rightarrow> 'a list" where
  "somes [] = []"
| "somes (x # xs) = (case x of None \<Rightarrow> somes xs | Some y \<Rightarrow> y # somes xs)"

lemma set_somes [simp]: "y \<in> set (somes xs) \<longleftrightarrow> Some y \<in> set xs"
  by (induction xs) (auto split: option.splits)

lemma somes_append: "somes (xs @ ys) = somes xs @ somes ys"
  by (induction xs) (auto split: option.splits)

lemma somes_map_Some [simp]: "somes (map Some xs) = xs"
  by (induction xs) auto

text \<open>\<open>[...new Set(xs)]\<close>: the first occurrence of each value, in order.\<close>

fun nub :: "'a list \<Rightarrow> 'a list" where
  "nub [] = []"
| "nub (x # xs) = x # filter (\<lambda>y. y \<noteq> x) (nub xs)"

lemma set_nub [simp]: "set (nub xs) = set xs"
  by (induction xs) auto

lemma distinct_nub [simp]: "distinct (nub xs)"
  by (induction xs) auto

lemma nub_distinct: "distinct xs \<Longrightarrow> nub xs = xs"
  by (induction xs) (auto simp: filter_id_conv)

lemma find_Some_iff: "List.find p xs = Some x \<Longrightarrow> x \<in> set xs \<and> p x"
  by (auto simp: find_Some_iff)

lemma find_None_iff': "List.find p xs = None \<longleftrightarrow> (\<forall>x\<in>set xs. \<not> p x)"
  by (auto simp: find_None_iff)

lemma indexed_from_mem: "(j, x) \<in> set (indexed_from i xs) \<longleftrightarrow> i \<le> j \<and> j < i + length xs \<and> x = xs ! (j - i)"
proof (induction xs arbitrary: i)
  case Nil
  then show ?case by simp
next
  case (Cons a xs)
  then show ?case
    by (auto simp: nth_Cons' Suc_diff_Suc)
qed

lemma map_snd_indexed [simp]: "map snd (indexed_from i xs) = xs"
  by (induction xs arbitrary: i) auto

lemma find_index_Some: "find_index p xs = Some i \<Longrightarrow> i < length xs \<and> p (xs ! i) \<and> (\<forall>j<i. \<not> p (xs ! j))"
proof (induction xs arbitrary: i)
  case Nil
  then show ?case by simp
next
  case (Cons x xs)
  then show ?case
    by (auto split: if_splits simp: nth_Cons split: nat.splits)
qed

lemma find_index_None: "find_index p xs = None \<longleftrightarrow> (\<forall>x\<in>set xs. \<not> p x)"
  by (induction xs) auto

section \<open>Bytes of the non-ASCII characters the sources print\<close>

definition em_dash :: string where "em_dash = [CHR 0xE2, CHR 0x80, CHR 0x94]"
definition en_dash :: string where "en_dash = [CHR 0xE2, CHR 0x80, CHR 0x93]"
definition left_quote :: string where "left_quote = [CHR 0xE2, CHR 0x80, CHR 0x9C]"
definition right_quote :: string where "right_quote = [CHR 0xE2, CHR 0x80, CHR 0x9D]"
definition ellipsis :: string where "ellipsis = [CHR 0xE2, CHR 0x80, CHR 0xA6]"
definition arrow :: string where "arrow = [CHR 0xE2, CHR 0x86, CHR 0x92]"
definition middle_dot :: string where "middle_dot = [CHR 0xC2, CHR 0xB7]"
definition degree :: string where "degree = [CHR 0xC2, CHR 0xB0]"
definition micro :: string where "micro = [CHR 0xC2, CHR 0xB5]"
definition squared :: string where "squared = [CHR 0xC2, CHR 0xB2]"
definition cubed :: string where "cubed = [CHR 0xC2, CHR 0xB3]"
definition omega :: string where "omega = [CHR 0xCE, CHR 0xA9]"

end
