(* ===== verification/Access.thy ===== *)
theory Access
  imports Prelude
begin

text \<open>
  What each workspace role may do (packages/shared/src/permissions.ts): the ranks, the role each action
  needs, and the roles a member may give to someone else. The roles are a linear order, the ranks'.
\<close>

datatype role = Owner | Admin | Viewer

datatype action =
    Devices_write | Templates_write | Zones_write | Rules_write | Commands_send | Members_manage
  | Members_grantOwner | Keys_manage | Workspace_rename | Workspace_alerts | Workspace_setup | Dashboards_write

fun RANK :: "role \<Rightarrow> nat" where
  "RANK Viewer = 0"
| "RANK Admin = 1"
| "RANK Owner = 2"

instantiation role :: linorder
begin

definition less_eq_role :: "role \<Rightarrow> role \<Rightarrow> bool" where "less_eq_role a b \<longleftrightarrow> RANK a \<le> RANK b"
definition less_role :: "role \<Rightarrow> role \<Rightarrow> bool" where "less_role a b \<longleftrightarrow> RANK a < RANK b"

lemma RANK_inject: "RANK a = RANK b \<Longrightarrow> a = b"
  by (cases a; cases b) simp_all

instance
  by standard (auto simp: less_eq_role_def less_role_def intro: RANK_inject)

end

fun MIN_ROLE :: "action \<Rightarrow> role" where
  "MIN_ROLE Devices_write = Admin"
| "MIN_ROLE Templates_write = Admin"
| "MIN_ROLE Zones_write = Admin"
| "MIN_ROLE Rules_write = Admin"
| "MIN_ROLE Commands_send = Admin"
| "MIN_ROLE Members_manage = Admin"
| "MIN_ROLE Members_grantOwner = Owner"
| "MIN_ROLE Keys_manage = Admin"
| "MIN_ROLE Workspace_rename = Owner"
| "MIN_ROLE Workspace_alerts = Admin"
| "MIN_ROLE Workspace_setup = Admin"
| "MIN_ROLE Dashboards_write = Viewer"

definition toRole :: "string option \<Rightarrow> role option" where
  "toRole r =
     (if r = Some ''owner'' then Some Owner else if r = Some ''admin'' then Some Admin
      else if r = Some ''viewer'' then Some Viewer else None)"

definition can :: "string option \<Rightarrow> action \<Rightarrow> bool" where
  "can r action = (case toRole r of None \<Rightarrow> False | Some x \<Rightarrow> RANK (MIN_ROLE action) \<le> RANK x)"

definition assignableRoles :: "string option \<Rightarrow> role list" where
  "assignableRoles actor =
     (case toRole actor of None \<Rightarrow> [] | Some r \<Rightarrow> filter (\<lambda>x. RANK x \<le> RANK r) [Viewer, Admin, Owner])"

fun ROLE_LABEL :: "role \<Rightarrow> string" where
  "ROLE_LABEL Owner = ''Owner''"
| "ROLE_LABEL Admin = ''Admin''"
| "ROLE_LABEL Viewer = ''Viewer''"

definition role_text :: "role \<Rightarrow> string" where
  "role_text r = (case r of Owner \<Rightarrow> ''owner'' | Admin \<Rightarrow> ''admin'' | Viewer \<Rightarrow> ''viewer'')"

lemma toRole_text [simp]: "toRole (Some (role_text r)) = Some r"
  by (cases r) (simp_all add: toRole_def role_text_def)

lemma toRole_Some: "toRole x = Some r \<longleftrightarrow> x = Some (role_text r)"
  by (cases r) (auto simp: toRole_def role_text_def split: if_splits)

lemma can_iff: "can x a \<longleftrightarrow> (\<exists>r\<ge>MIN_ROLE a. x = Some (role_text r))"
  by (auto simp: can_def toRole_Some [symmetric] less_eq_role_def split: option.splits)

text \<open>
  Nobody can give a role that would let its holder do what they cannot do themselves; an unknown or
  missing role can do nothing and give none; every known role may give itself; and a role is given only
  through the actions \<open>can\<close> knows (giving Owner needs the action that only owners have).
\<close>

theorem no_escalation:
  "(x \<in> set (assignableRoles actor) \<longrightarrow>
      (\<forall>a. can (Some (role_text x)) a \<longrightarrow> can actor a) \<and> (x = Owner \<longrightarrow> can actor Members_grantOwner)) \<and>
   (toRole actor = None \<longrightarrow> \<not> can actor a \<and> assignableRoles actor = []) \<and>
   (toRole actor = Some r \<longrightarrow> r \<in> set (assignableRoles actor)) \<and> distinct (assignableRoles actor)"
proof (cases "toRole actor")
  case None
  then show ?thesis by (simp add: assignableRoles_def can_def)
next
  case (Some r')
  have up: "can actor a" if "RANK x \<le> RANK r'" "can (Some (role_text x)) a" for a
    using that Some by (auto simp: can_def)
  show ?thesis using Some up by (cases r') (auto simp: assignableRoles_def can_def)
qed

lemma no_escalation_witness:
  "Viewer \<in> set (assignableRoles (Some ''admin'')) \<and> can (Some ''admin'') Dashboards_write \<and>
   Admin \<in> set (assignableRoles (Some ''admin'')) \<and> \<not> can (Some ''guest'') Rules_write"
proof -
  have a: "toRole (Some ''admin'') = Some Admin" "toRole (Some ''guest'') = None" by (simp_all add: toRole_def)
  have v: "Viewer \<in> set (assignableRoles (Some ''admin''))" "can (Some (role_text Viewer)) Dashboards_write"
    by (simp_all add: assignableRoles_def can_def a)
  show ?thesis
    using v no_escalation [of Viewer "Some ''admin''" Rules_write Admin] no_escalation [of Viewer "Some ''guest''" Rules_write Admin] a
    by simp
qed

end
