(* ===== verification/Js_Number.thy ===== *)
theory Js_Number imports Complex_Main Prelude begin

text \<open>
  JavaScript's numbers as the sources use them: NaN, the two infinities and the finite
  values, which are kept as exact rationals (rounding to 53 bits is not modelled, so
  \<open>0.1\<close> is one tenth).  Comparisons with NaN are false.  \<open>number_text\<close> is
  \<open>String(n)\<close> in positional notation with at most \<open>max_places\<close> digits after the point,
  and \<open>to_number\<close> is \<open>Number(s)\<close> with its white space, sign, point, exponent,
  Infinity and 0x/0o/0b forms.  \<open>to_number_text\<close> is the round trip between them.
\<close>

datatype jsnum = NaN | PosInf | NegInf | Fin rat

definition is_finite :: "jsnum \<Rightarrow> bool" where
  "is_finite n = (case n of Fin q \<Rightarrow> True | _ \<Rightarrow> False)"

definition is_integer :: "jsnum \<Rightarrow> bool" where
  "is_integer n = (case n of Fin q \<Rightarrow> of_int \<lfloor>q\<rfloor> = q | _ \<Rightarrow> False)"

fun js_lt :: "jsnum \<Rightarrow> jsnum \<Rightarrow> bool" where
  "js_lt NaN b = False"
| "js_lt a NaN = False"
| "js_lt (Fin p) (Fin q) = (p < q)"
| "js_lt NegInf b = (b \<noteq> NegInf)"
| "js_lt a PosInf = (a \<noteq> PosInf)"
| "js_lt a b = False"

definition js_eq :: "jsnum \<Rightarrow> jsnum \<Rightarrow> bool" where
  "js_eq a b \<longleftrightarrow> a \<noteq> NaN \<and> a = b"

definition js_le :: "jsnum \<Rightarrow> jsnum \<Rightarrow> bool" where
  "js_le a b \<longleftrightarrow> js_lt a b \<or> js_eq a b"

abbreviation js_gt :: "jsnum \<Rightarrow> jsnum \<Rightarrow> bool" where "js_gt a b \<equiv> js_lt b a"
abbreviation js_ge :: "jsnum \<Rightarrow> jsnum \<Rightarrow> bool" where "js_ge a b \<equiv> js_le b a"

lemma js_lt_irrefl [simp]: "\<not> js_lt a a"
  by (cases a) auto

lemma js_lt_trans: "js_lt a b \<Longrightarrow> js_lt b c \<Longrightarrow> js_lt a c"
  by (cases a; cases b; cases c) auto

lemma js_le_Fin [simp]: "js_le (Fin p) (Fin q) \<longleftrightarrow> p \<le> q"
  by (auto simp: js_le_def js_eq_def)

lemma js_le_NaN [simp]: "\<not> js_le a NaN" "\<not> js_le NaN a"
  by (cases a; simp add: js_le_def js_eq_def)+

text \<open>Without NaN the order is total; with it, every comparison is false.\<close>

lemma js_not_lt: "a \<noteq> NaN \<Longrightarrow> b \<noteq> NaN \<Longrightarrow> \<not> js_lt a b \<longleftrightarrow> js_le b a"
  by (cases a; cases b) (auto simp: js_le_def js_eq_def)

section \<open>String(n)\<close>

definition max_places :: nat where "max_places = 17"

fun frac_digits :: "nat \<Rightarrow> rat \<Rightarrow> string" where
  "frac_digits 0 r = []"
| "frac_digits (Suc k) r =
     (if r = 0 then []
      else digit_char (nat \<lfloor>10 * r\<rfloor>) # frac_digits k (10 * r - of_int \<lfloor>10 * r\<rfloor>))"

definition abs_text :: "rat \<Rightarrow> string" where
  "abs_text q =
     (let i = \<lfloor>q\<rfloor>; f = q - of_int i
      in nat_text (nat i) @ (if f = 0 then [] else CHR ''.'' # frac_digits max_places f))"

definition rat_text :: "rat \<Rightarrow> string" where
  "rat_text q = (if q < 0 then CHR ''-'' # abs_text (- q) else abs_text q)"

definition number_text :: "jsnum \<Rightarrow> string" where
  "number_text n = (case n of NaN \<Rightarrow> ''NaN'' | PosInf \<Rightarrow> ''Infinity'' | NegInf \<Rightarrow> ''-Infinity'' | Fin q \<Rightarrow> rat_text q)"

section \<open>Number(s)\<close>

text \<open>The value of the digits after a point, and of a literal in a power-of-two base.\<close>

definition frac_val :: "string \<Rightarrow> rat" where
  "frac_val ds = of_nat (digits_val ds) / 10 ^ length ds"

definition exp_part :: "string \<Rightarrow> int option" where
  "exp_part s =
     (case s of [] \<Rightarrow> Some 0
      | e # t \<Rightarrow>
          if e = CHR ''e'' \<or> e = CHR ''E'' then
            (let neg = (t \<noteq> [] \<and> hd t = CHR ''-'');
                 ds = (if t \<noteq> [] \<and> (hd t = CHR ''-'' \<or> hd t = CHR ''+'') then tl t else t)
             in if ds \<noteq> [] \<and> list_all is_digit ds
                then Some (if neg then - int (digits_val ds) else int (digits_val ds)) else None)
          else None)"

definition scale :: "rat \<Rightarrow> int \<Rightarrow> rat" where
  "scale q e = (if 0 \<le> e then q * 10 ^ nat e else q / 10 ^ nat (- e))"

definition unsigned_decimal :: "string \<Rightarrow> rat option" where
  "unsigned_decimal s =
     (let ip = takeWhile is_digit s; r = dropWhile is_digit s;
          pt = (r \<noteq> [] \<and> hd r = CHR ''.'');
          fp = (if pt then takeWhile is_digit (tl r) else []);
          r2 = (if pt then dropWhile is_digit (tl r) else r)
      in if ip = [] \<and> fp = [] then None
         else map_option (scale (of_nat (digits_val ip) + frac_val fp)) (exp_part r2))"

definition hex_val :: "char \<Rightarrow> nat option" where
  "hex_val c = (let n = char_code (lower_char c) in
     if is_digit c then Some (digit_val c) else if 97 \<le> n \<and> n \<le> 102 then Some (n - 87) else None)"

fun based_val :: "nat \<Rightarrow> nat \<Rightarrow> string \<Rightarrow> nat option" where
  "based_val b a [] = Some a"
| "based_val b a (c # cs) =
     (case hex_val c of None \<Rightarrow> None | Some d \<Rightarrow> if d < b then based_val b (b * a + d) cs else None)"

definition radix_literal :: "string \<Rightarrow> jsnum option" where
  "radix_literal s =
     (let p = take 2 (lower_case s); ds = drop 2 s;
          b = (if p = ''0x'' then 16 else if p = ''0o'' then 8 else if p = ''0b'' then 2 else 0) in
      if b = 0 then None
      else Some (if ds = [] then NaN else case based_val b 0 ds of None \<Rightarrow> NaN | Some n \<Rightarrow> Fin (of_nat n)))"

definition signed_literal :: "string \<Rightarrow> jsnum" where
  "signed_literal s =
     (let neg = (s \<noteq> [] \<and> hd s = CHR ''-'');
          t = (if s \<noteq> [] \<and> (hd s = CHR ''-'' \<or> hd s = CHR ''+'') then tl s else s)
      in if t = ''Infinity'' then (if neg then NegInf else PosInf)
         else case unsigned_decimal t of None \<Rightarrow> NaN | Some q \<Rightarrow> Fin (if neg then - q else q))"

definition to_number :: "string \<Rightarrow> jsnum" where
  "to_number s =
     (let t = trim s in
      if t = [] then Fin 0
      else case radix_literal t of Some n \<Rightarrow> n | None \<Rightarrow> signed_literal t)"

section \<open>The round trip\<close>

text \<open>A value with at most \<open>max_places\<close> decimal places prints exactly.\<close>

definition short_decimal :: "rat \<Rightarrow> bool" where
  "short_decimal q \<longleftrightarrow> of_int \<lfloor>q * 10 ^ max_places\<rfloor> = q * 10 ^ max_places"

lemma floor_bounds_10:
  assumes "0 \<le> (r::rat)" "r < 1"
  shows "0 \<le> \<lfloor>10 * r\<rfloor>" "\<lfloor>10 * r\<rfloor> < 10" "0 \<le> 10 * r - of_int \<lfloor>10 * r\<rfloor>" "10 * r - of_int \<lfloor>10 * r\<rfloor> < 1"
  using assms by (auto simp: floor_less_iff algebra_simps, linarith+)

lemma frac_digits_digits: "0 \<le> r \<Longrightarrow> r < 1 \<Longrightarrow> c \<in> set (frac_digits k r) \<Longrightarrow> is_digit c"
proof (induction k arbitrary: r)
  case 0
  then show ?case by simp
next
  case (Suc k)
  note b = floor_bounds_10 [OF Suc.prems(1,2)]
  have "nat \<lfloor>10 * r\<rfloor> < 10" using b(1,2) by linarith
  then show ?case using Suc.prems Suc.IH [OF b(3,4)]
    by (auto simp: digit_char_facts split: if_splits)
qed

lemma digits_val_Cons: "digits_val (c # ds) = digit_val c * 10 ^ length ds + digits_val ds"
proof (induction ds rule: rev_induct)
  case Nil
  then show ?case by (simp add: digits_val_def)
next
  case (snoc x xs)
  then show ?case
    using digits_val_snoc [of "c # xs" x] by (simp add: digits_val_snoc algebra_simps)
qed

lemma frac_val_Cons: "frac_val (c # ds) = (of_nat (digit_val c) + frac_val ds) / 10"
  by (simp add: frac_val_def digits_val_Cons field_simps)

lemma frac_val_digits:
  "0 \<le> r \<Longrightarrow> r < 1 \<Longrightarrow> of_int \<lfloor>r * 10 ^ k\<rfloor> = r * 10 ^ k \<Longrightarrow> frac_val (frac_digits k r) = r"
proof (induction k arbitrary: r)
  case 0
  then have "of_int \<lfloor>r\<rfloor> = r" "\<lfloor>r\<rfloor> = 0" by (auto simp: floor_eq_iff)
  then have "r = 0" by simp
  then show ?case by (simp add: frac_val_def digits_val_def)
next
  case (Suc k)
  note b = floor_bounds_10 [OF Suc.prems(1,2)]
  let ?r = "10 * r - of_int \<lfloor>10 * r\<rfloor>"
  obtain z :: int where z: "r * 10 ^ Suc k = of_int z" using Suc.prems(3) by metis
  have "?r * 10 ^ k = of_int (z - \<lfloor>10 * r\<rfloor> * 10 ^ k)"
    using z by (simp add: algebra_simps)
  then have "of_int \<lfloor>?r * 10 ^ k\<rfloor> = ?r * 10 ^ k" by (metis floor_of_int)
  then have ih: "frac_val (frac_digits k ?r) = ?r" by (rule Suc.IH [OF b(3,4)])
  have d: "nat \<lfloor>10 * r\<rfloor> < 10" using b(1,2) by linarith
  show ?case
  proof (cases "r = 0")
    case True
    then show ?thesis by (simp add: frac_val_def digits_val_def)
  next
    case False
    then show ?thesis using ih b(1)
      by (simp add: frac_val_Cons digit_char_facts [OF d])
  qed
qed

lemma unsigned_decimal_abs:
  assumes "0 \<le> q" "short_decimal q"
  shows "unsigned_decimal (abs_text q) = Some q"
proof -
  define i where "i = \<lfloor>q\<rfloor>"
  define f where "f = q - of_int i"
  have i: "0 \<le> i" using assms(1) by (simp add: i_def)
  have f: "0 \<le> f" "f < 1" by (auto simp: f_def i_def, linarith)
  obtain z :: int where z: "q * 10 ^ max_places = of_int z"
    using assms(2) unfolding short_decimal_def by metis
  have "f * 10 ^ max_places = of_int (z - i * 10 ^ max_places)"
    using z by (simp add: f_def algebra_simps)
  then have fv: "frac_val (frac_digits max_places f) = f"
    by (intro frac_val_digits f) (metis floor_of_int)
  have ds: "\<And>c. c \<in> set (frac_digits max_places f) \<Longrightarrow> is_digit c"
    using frac_digits_digits [OF f] by blast
  have q: "of_nat (nat i) + f = q" using i by (simp add: f_def)
  show ?thesis
  proof (cases "f = 0")
    case True
    then have a: "abs_text q = nat_text (nat i)" by (simp add: abs_text_def i_def f_def)
    have t: "takeWhile is_digit (nat_text (nat i)) = nat_text (nat i)"
      "dropWhile is_digit (nat_text (nat i)) = []"
      using digits_takeWhile [of "nat_text (nat i)" "[]"] nat_text_digits by auto
    show ?thesis using q True
      by (simp add: unsigned_decimal_def a t exp_part_def scale_def frac_val_def)
  next
    case False
    have a: "abs_text q = nat_text (nat i) @ CHR ''.'' # frac_digits max_places f"
      using False by (simp add: abs_text_def i_def f_def Let_def)
    have nd: "\<not> is_digit CHR ''.''" by (simp add: is_digit_def char_code_def)
    have 1: "takeWhile is_digit (abs_text q) = nat_text (nat i)"
      "dropWhile is_digit (abs_text q) = CHR ''.'' # frac_digits max_places f"
      using digits_takeWhile [of "nat_text (nat i)" "CHR ''.'' # frac_digits max_places f"] nd
      by (simp_all add: a nat_text_digits)
    have 2: "takeWhile is_digit (frac_digits max_places f) = frac_digits max_places f"
      "dropWhile is_digit (frac_digits max_places f) = []"
      using digits_takeWhile [of "frac_digits max_places f" "[]"] ds by auto
    show ?thesis using fv q
      by (simp add: unsigned_decimal_def exp_part_def scale_def Let_def 1 2)
  qed
qed

lemma abs_text_hd: "0 \<le> q \<Longrightarrow> abs_text q \<noteq> [] \<and> is_digit (hd (abs_text q))"
  using nat_text_digits [of "hd (nat_text (nat \<lfloor>q\<rfloor>))" "nat \<lfloor>q\<rfloor>"]
  by (auto simp: abs_text_def Let_def hd_append)

lemma abs_text_chars:
  assumes "0 \<le> q" "c \<in> set (abs_text q)"
  shows "is_digit c \<or> c = CHR ''.''"
proof -
  have f: "0 \<le> q - of_int \<lfloor>q\<rfloor>" "q - of_int \<lfloor>q\<rfloor> < 1" by linarith+
  show ?thesis using assms(2) nat_text_digits [of c] frac_digits_digits [OF f, of c max_places]
    by (auto simp: abs_text_def Let_def split: if_splits)
qed

lemma rat_text_chars: "c \<in> set (rat_text q) \<Longrightarrow> is_digit c \<or> c = CHR ''.'' \<or> c = CHR ''-''"
  using abs_text_chars [of q c] abs_text_chars [of "- q" c]
  by (auto simp: rat_text_def split: if_splits)

lemma rat_text_no_space: "c \<in> set (rat_text q) \<Longrightarrow> \<not> is_space c \<and> c \<noteq> CHR '',''"
  using rat_text_chars [of c q] is_space_not_digit [of c]
  by (auto simp: is_space_def is_digit_def char_code_def)

lemma rat_text_not_Nil [simp]: "rat_text q \<noteq> []"
  using abs_text_hd [of q] abs_text_hd [of "- q"] by (auto simp: rat_text_def)

lemma trim_rat_text [simp]: "trim (rat_text q) = rat_text q"
  by (rule trim_id) (meson hd_in_set last_in_set rat_text_no_space)

lemma radix_rat_text: "radix_literal (rat_text q) = None"
proof -
  have 1: "\<not> is_upper c" if "is_digit c \<or> c = CHR ''.'' \<or> c = CHR ''-''" for c
    using that by (auto simp: is_upper_def is_digit_def char_code_def)
  have "take 2 (lower_case (rat_text q)) = take 2 (rat_text q)"
    using 1 rat_text_chars by (auto simp: lower_case_def lower_char_def map_idI)
  moreover have "x \<noteq> CHR ''x'' \<and> x \<noteq> CHR ''o'' \<and> x \<noteq> CHR ''b''" if "x \<in> set (rat_text q)" for x
    using rat_text_chars [OF that] by (auto simp: is_digit_def char_code_def)
  then have "take 2 (rat_text q) \<notin> {''0x'', ''0o'', ''0b''}"
    by (metis in_set_takeD insertE list.set_intros(1) list.set_intros(2) singletonD)
  ultimately show ?thesis by (simp add: radix_literal_def)
qed

lemma signed_literal_rat_text:
  assumes "short_decimal q"
  shows "signed_literal (rat_text q) = Fin q"
proof -
  have "short_decimal (- q)"
    using assms unfolding short_decimal_def
    by (metis floor_of_int mult_minus_left of_int_minus)
  then have n: "q < 0 \<Longrightarrow> unsigned_decimal (abs_text (- q)) = Some (- q)"
    by (intro unsigned_decimal_abs) auto
  have p: "0 \<le> q \<Longrightarrow> unsigned_decimal (abs_text q) = Some q"
    using assms by (intro unsigned_decimal_abs)
  have hd: "0 \<le> r \<Longrightarrow> hd (abs_text r) \<noteq> CHR ''-'' \<and> hd (abs_text r) \<noteq> CHR ''+'' \<and> hd (abs_text r) \<noteq> CHR ''I''" for r
    using abs_text_hd [of r] by (auto simp: is_digit_def char_code_def)
  have ni: "0 \<le> r \<Longrightarrow> abs_text r \<noteq> ''Infinity''" for r using hd [of r] by fastforce
  show ?thesis
    using n p hd [of q] ni [of q] ni [of "- q"]
    by (cases "q < 0") (auto simp: signed_literal_def rat_text_def Let_def)
qed

lemma to_number_text [simp]: "short_decimal q \<Longrightarrow> to_number (rat_text q) = Fin q"
  by (simp add: to_number_def radix_rat_text signed_literal_rat_text)

lemma short_decimal_of_int [simp]: "short_decimal (of_int i)"
  unfolding short_decimal_def by (metis floor_of_int of_int_mult of_int_numeral of_int_power)

lemma short_decimal_numeral [simp]: "short_decimal 0" "short_decimal 1" "short_decimal (numeral k)"
  using short_decimal_of_int [of 0] short_decimal_of_int [of 1] short_decimal_of_int [of "numeral k"] by simp_all

end
