(* ===== verification/Json.thy ===== *)
theory Json imports Js_Number begin

text \<open>
  JSON as the sources use it: the value type, \<open>JSON.stringify(v)\<close> and
  \<open>JSON.stringify(v, null, 2)\<close> (\<open>stringify gap\<close>), \<open>JSON.parse\<close>
  (\<open>json_parse\<close>, None where it throws) and \<open>String(v)\<close>.  The round trip
  \<open>json_parse_stringify\<close> holds for every gap made of white space; the interface
  \<open>json_codec\<close> states it as a law for the components that print on one side and
  parse on the other, and is interpreted on both printers.
\<close>

datatype json = JNull | JBool bool | JNum jsnum | JStr string | JArr "json list" | JObj "(string \<times> json) list"

section \<open>Reading fields of an unknown value\<close>

text \<open>\<open>o.k\<close> on a record: None when the key is absent (\<open>undefined\<close>).\<close>

fun field :: "json \<Rightarrow> string \<Rightarrow> json option" where
  "field (JObj kvs) k = dict_get kvs k"
| "field _ k = None"

definition as_str :: "json option \<Rightarrow> string option" where
  "as_str v = (case v of Some (JStr s) \<Rightarrow> Some s | _ \<Rightarrow> None)"

definition as_arr :: "json option \<Rightarrow> json list option" where
  "as_arr v = (case v of Some (JArr xs) \<Rightarrow> Some xs | _ \<Rightarrow> None)"

text \<open>JavaScript's truth of a value, and \<open>String(v)\<close> (\<open>undefined\<close> is None).\<close>

fun truthy :: "json option \<Rightarrow> bool" where
  "truthy None = False"
| "truthy (Some JNull) = False"
| "truthy (Some (JBool b)) = b"
| "truthy (Some (JNum n)) = (n \<noteq> NaN \<and> n \<noteq> Fin 0)"
| "truthy (Some (JStr s)) = (s \<noteq> [])"
| "truthy (Some _) = True"

fun json_string :: "json \<Rightarrow> string" and array_pieces :: "json list \<Rightarrow> string list" where
  "json_string JNull = ''null''"
| "json_string (JBool b) = (if b then ''true'' else ''false'')"
| "json_string (JNum n) = number_text n"
| "json_string (JStr s) = s"
| "json_string (JArr xs) = join '','' (array_pieces xs)"
| "json_string (JObj kvs) = ''[object Object]''"
| "array_pieces [] = []"
| "array_pieces (x # xs) = (if x = JNull then [] else json_string x) # array_pieces xs"

definition js_string :: "json option \<Rightarrow> string" where
  "js_string v = (case v of None \<Rightarrow> ''undefined'' | Some j \<Rightarrow> json_string j)"

section \<open>JSON.stringify\<close>

definition hex_digit :: "nat \<Rightarrow> char" where
  "hex_digit n = ''0123456789abcdef'' ! n"

definition esc_char :: "char \<Rightarrow> string" where
  "esc_char c =
     (if c = CHR 0x22 then [CHR 0x5C, CHR 0x22]
      else if c = CHR 0x5C then [CHR 0x5C, CHR 0x5C]
      else if c = CHR 0x08 then [CHR 0x5C, CHR ''b'']
      else if c = CHR 0x0C then [CHR 0x5C, CHR ''f'']
      else if c = CHR 0x0A then [CHR 0x5C, CHR ''n'']
      else if c = CHR 0x0D then [CHR 0x5C, CHR ''r'']
      else if c = CHR 0x09 then [CHR 0x5C, CHR ''t'']
      else if char_code c < 32 then
        [CHR 0x5C, CHR ''u'', CHR ''0'', CHR ''0'', hex_digit (char_code c div 16), hex_digit (char_code c mod 16)]
      else [c])"

definition quoted :: "string \<Rightarrow> string" where
  "quoted s = CHR 0x22 # concat (map esc_char s) @ [CHR 0x22]"

definition json_number :: "jsnum \<Rightarrow> string" where
  "json_number n = (case n of Fin q \<Rightarrow> rat_text q | _ \<Rightarrow> ''null'')"

text \<open>The line break before an item at depth \<open>n\<close>: nothing without a gap.\<close>

definition break :: "string \<Rightarrow> nat \<Rightarrow> string" where
  "break gap n = (if gap = [] then [] else CHR 0x0A # concat (replicate n gap))"

fun render :: "string \<Rightarrow> nat \<Rightarrow> json \<Rightarrow> string"
and render_items :: "string \<Rightarrow> nat \<Rightarrow> json list \<Rightarrow> string"
and render_members :: "string \<Rightarrow> nat \<Rightarrow> (string \<times> json) list \<Rightarrow> string" where
  "render g n JNull = ''null''"
| "render g n (JBool b) = (if b then ''true'' else ''false'')"
| "render g n (JNum x) = json_number x"
| "render g n (JStr s) = quoted s"
| "render g n (JArr []) = ''[]''"
| "render g n (JArr (x # xs)) = CHR ''['' # render_items g (Suc n) (x # xs) @ break g n @ '']''"
| "render g n (JObj []) = [CHR 0x7B, CHR 0x7D]"
| "render g n (JObj (m # ms)) = CHR 0x7B # render_members g (Suc n) (m # ms) @ break g n @ [CHR 0x7D]"
| "render_items g n [] = []"
| "render_items g n [x] = break g n @ render g n x"
| "render_items g n (x # y # ys) = break g n @ render g n x @ CHR '','' # render_items g n (y # ys)"
| "render_members g n [] = []"
| "render_members g n [(k, v)] = break g n @ quoted k @ CHR '':'' # (if g = [] then [] else '' '') @ render g n v"
| "render_members g n ((k, v) # m # ms) =
     break g n @ quoted k @ CHR '':'' # (if g = [] then [] else '' '') @ render g n v @ CHR '','' # render_members g n (m # ms)"

definition stringify :: "string \<Rightarrow> json \<Rightarrow> string" where
  "stringify gap v = render gap 0 v"

section \<open>JSON.parse\<close>

definition json_ws :: "char \<Rightarrow> bool" where
  "json_ws c \<longleftrightarrow> c = CHR '' '' \<or> c = CHR 0x09 \<or> c = CHR 0x0A \<or> c = CHR 0x0D"

abbreviation skip :: "string \<Rightarrow> string" where "skip \<equiv> dropWhile json_ws"

definition utf8 :: "nat \<Rightarrow> string" where
  "utf8 n =
     (if n < 128 then [char_of n]
      else if n < 2048 then [char_of (192 + n div 64), char_of (128 + n mod 64)]
      else [char_of (224 + n div 4096), char_of (128 + n div 64 mod 64), char_of (128 + n mod 64)])"

definition unescape :: "char \<Rightarrow> char option" where
  "unescape e =
     (if e = CHR 0x22 \<or> e = CHR 0x5C \<or> e = CHR ''/'' then Some e
      else if e = CHR ''b'' then Some CHR 0x08
      else if e = CHR ''f'' then Some CHR 0x0C
      else if e = CHR ''n'' then Some CHR 0x0A
      else if e = CHR ''r'' then Some CHR 0x0D
      else if e = CHR ''t'' then Some CHR 0x09
      else None)"

definition prepend :: "string \<Rightarrow> (string \<times> string) option \<Rightarrow> (string \<times> string) option" where
  "prepend p r = map_option (\<lambda>(s, rest). (p @ s, rest)) r"

fun parse_chars :: "nat \<Rightarrow> string \<Rightarrow> (string \<times> string) option" where
  "parse_chars 0 s = None"
| "parse_chars (Suc f) [] = None"
| "parse_chars (Suc f) (c # s) =
     (if c = CHR 0x22 then Some ([], s)
      else if c = CHR 0x5C then
        (case s of [] \<Rightarrow> None
         | e # r \<Rightarrow>
             if e = CHR ''u'' then
               (if length r < 4 then None
                else case based_val 16 0 (take 4 r) of None \<Rightarrow> None | Some n \<Rightarrow> prepend (utf8 n) (parse_chars f (drop 4 r)))
             else (case unescape e of None \<Rightarrow> None | Some x \<Rightarrow> prepend [x] (parse_chars f r)))
      else if char_code c < 32 then None
      else prepend [c] (parse_chars f s))"

text \<open>A JSON number: optional minus, no leading zero, digits on both sides of the point.\<close>

definition number_char :: "char \<Rightarrow> bool" where
  "number_char c \<longleftrightarrow> is_digit c \<or> c = CHR ''-'' \<or> c = CHR ''+'' \<or> c = CHR ''.'' \<or> c = CHR ''e'' \<or> c = CHR ''E''"

definition number_shape :: "string \<Rightarrow> bool" where
  "number_shape s =
     (let t = (if s \<noteq> [] \<and> hd s = CHR ''-'' then tl s else s);
          ip = takeWhile is_digit t; r = dropWhile is_digit t
      in ip \<noteq> [] \<and> (hd ip = CHR ''0'' \<longrightarrow> tl ip = []) \<and> r \<noteq> [CHR ''.''] \<and>
         (r \<noteq> [] \<and> hd r = CHR ''.'' \<longrightarrow> tl r \<noteq> [] \<and> is_digit (hd (tl r))) \<and>
         (r = [] \<or> hd r \<noteq> CHR ''+'' \<and> hd r \<noteq> CHR ''-''))"

definition parse_number :: "string \<Rightarrow> (json \<times> string) option" where
  "parse_number s =
     (let t = takeWhile number_char s; r = dropWhile number_char s
      in if number_shape t \<and> signed_literal t \<noteq> NaN then Some (JNum (signed_literal t), r) else None)"

definition object_of :: "(string \<times> json) list \<Rightarrow> json" where
  "object_of kvs = JObj (foldl (\<lambda>d (k, v). dict_set k v d) [] kvs)"

fun parse_value :: "nat \<Rightarrow> string \<Rightarrow> (json \<times> string) option"
and parse_items :: "nat \<Rightarrow> string \<Rightarrow> (json list \<times> string) option"
and parse_members :: "nat \<Rightarrow> string \<Rightarrow> ((string \<times> json) list \<times> string) option" where
  "parse_value 0 s = None"
| "parse_value (Suc f) s =
     (case s of [] \<Rightarrow> None
      | c # t \<Rightarrow>
          if c = CHR 0x22 then map_option (\<lambda>(x, r). (JStr x, r)) (parse_chars (Suc (length t)) t)
          else if c = CHR ''['' then
            (if skip t \<noteq> [] \<and> hd (skip t) = CHR '']'' then Some (JArr [], tl (skip t))
             else map_option (\<lambda>(xs, r). (JArr xs, r)) (parse_items f (skip t)))
          else if c = CHR 0x7B then
            (if skip t \<noteq> [] \<and> hd (skip t) = CHR 0x7D then Some (JObj [], tl (skip t))
             else map_option (\<lambda>(ms, r). (object_of ms, r)) (parse_members f (skip t)))
          else if starts_with s ''null'' then Some (JNull, drop 4 s)
          else if starts_with s ''true'' then Some (JBool True, drop 4 s)
          else if starts_with s ''false'' then Some (JBool False, drop 5 s)
          else parse_number s)"
| "parse_items 0 s = None"
| "parse_items (Suc f) s =
     (case parse_value f s of None \<Rightarrow> None
      | Some (v, r) \<Rightarrow>
          (case skip r of [] \<Rightarrow> None
           | c # t \<Rightarrow>
               if c = CHR '','' then map_option (\<lambda>(vs, r'). (v # vs, r')) (parse_items f (skip t))
               else if c = CHR '']'' then Some ([v], t) else None))"
| "parse_members 0 s = None"
| "parse_members (Suc f) s =
     (case s of [] \<Rightarrow> None
      | q # s' \<Rightarrow>
          if q \<noteq> CHR 0x22 then None
          else case parse_chars (Suc (length s')) s' of None \<Rightarrow> None
          | Some (k, r) \<Rightarrow>
              (case skip r of [] \<Rightarrow> None
               | c # t \<Rightarrow>
                   if c \<noteq> CHR '':'' then None
                   else case parse_value f (skip t) of None \<Rightarrow> None
                   | Some (v, r2) \<Rightarrow>
                       (case skip r2 of [] \<Rightarrow> None
                        | d # u \<Rightarrow>
                            if d = CHR '','' then map_option (\<lambda>(ms, r'). ((k, v) # ms, r')) (parse_members f (skip u))
                            else if d = CHR 0x7D then Some ([(k, v)], u) else None)))"

definition json_parse :: "string \<Rightarrow> json option" where
  "json_parse s =
     (case parse_value (Suc (2 * length s)) (skip s) of None \<Rightarrow> None
      | Some (v, r) \<Rightarrow> if skip r = [] then Some v else None)"

section \<open>Enough fuel\<close>

text \<open>
  Every call of the parser either consumes a character or descends one level, so twice the
  length of the input bounds the calls: with that much fuel, more changes nothing.
\<close>

lemma prepend_Some: "prepend p r = Some (s, rest) \<longleftrightarrow> (\<exists>s'. r = Some (s', rest) \<and> s = p @ s')"
  by (auto simp: prepend_def)

lemma parse_chars_shorter: "parse_chars f s = Some (x, r) \<Longrightarrow> length r < length s"
proof (induction f s arbitrary: x r rule: parse_chars.induct)
  case (3 f c s)
  show ?case
  proof (cases "c = CHR 0x22 \<or> c \<noteq> CHR 0x5C")
    case True
    with 3 show ?thesis by (force simp: prepend_Some split: if_splits)
  next
    case False
    then have c: "c = CHR 0x5C" "c \<noteq> CHR 0x22" by auto
    show ?thesis
    proof (cases s)
      case Nil
      with 3 c show ?thesis by simp
    next
      case (Cons e u)
      show ?thesis
      proof (cases "e = CHR ''u''")
        case True
        then show ?thesis using Cons c "3.prems" "3.IH"(1) [OF c(2,1) Cons True]
          by (force simp: prepend_Some split: if_splits option.splits)
      next
        case False
        then show ?thesis using Cons c "3.prems" "3.IH"(2) [OF c(2,1) Cons False]
          by (force simp: prepend_Some split: if_splits option.splits)
      qed
    qed
  qed
qed auto

lemma parse_number_shorter: "parse_number s = Some (v, r) \<Longrightarrow> length r < length s"
proof -
  assume "parse_number s = Some (v, r)"
  then have "number_shape (takeWhile number_char s)" "r = dropWhile number_char s"
    by (auto simp: parse_number_def Let_def split: if_splits)
  then have "takeWhile number_char s \<noteq> []" "r = dropWhile number_char s"
    by (auto simp: number_shape_def)
  moreover have "length (takeWhile number_char s) + length (dropWhile number_char s) = length s"
    by (metis length_append takeWhile_dropWhile_id)
  ultimately show ?thesis by (cases "takeWhile number_char s") auto
qed

lemma skip_le: "length (skip s) \<le> length s"
  by (rule length_dropWhile_le)

lemma skip_Cons_le: "skip s = c # t \<Longrightarrow> length t < length s"
  using skip_le [of s] by simp

lemma starts_with_length: "starts_with s p \<Longrightarrow> length p \<le> length s"
  unfolding starts_with_def by (metis length_take min.cobounded1)

lemma drop_shorter: "starts_with s p \<Longrightarrow> p \<noteq> [] \<Longrightarrow> length (drop (length p) s) < length s"
  using starts_with_length [of s p] by (cases p) auto

lemma parse_shorter:
  "parse_value f s = Some (v, r) \<Longrightarrow> length r < length s"
  "parse_items f s = Some (vs, r) \<Longrightarrow> length r < length s"
  "parse_members f s = Some (ms, r) \<Longrightarrow> length r < length s"
proof (induction f s and f s and f s arbitrary: v r and vs r and ms r
    rule: parse_value_parse_items_parse_members.induct)
  case (2 f s)
  show ?case
  proof (cases s)
    case Nil
    with 2 show ?thesis by simp
  next
    case (Cons c t)
    have sk: "length (skip t) \<le> length t" "skip t \<noteq> [] \<Longrightarrow> length (tl (skip t)) < length t"
      using skip_le [of t] by (cases "skip t"; simp)+
    show ?thesis
      using "2.prems" sk Cons "2.IH" parse_number_shorter [of s v r] parse_chars_shorter [of "Suc (length t)" t _ r]
        drop_shorter [of s "''null''"] drop_shorter [of s "''true''"] drop_shorter [of s "''false''"]
      by (auto split: if_splits) (fastforce dest: less_le_trans)+
  qed
next
  case (4 f s)
  then obtain v r1 where v: "parse_value f s = Some (v, r1)" by (auto split: option.splits)
  then have 1: "length r1 < length s" by (rule 4)
  obtain c t where c: "skip r1 = c # t" using 4 v by (auto split: list.splits)
  then have 2: "length t < length r1" by (rule skip_Cons_le)
  show ?case
  proof (cases "c = CHR '',''")
    case True
    with 4 v c obtain vs' where "parse_items f (skip t) = Some (vs', r)" by auto
    then have "length r < length (skip t)" using 4(2) [OF v _ c True] by auto
    then show ?thesis using 1 2 skip_le [of t] by linarith
  next
    case False
    with 4 v c 1 2 show ?thesis by (auto split: if_splits)
  qed
next
  case (6 f s)
  then obtain q s' k r1 where s: "s = q # s'" "q = CHR 0x22" and k: "parse_chars (Suc (length s')) s' = Some (k, r1)"
    by (auto split: list.splits if_splits option.splits)
  then have 1: "length r1 < length s'" using parse_chars_shorter by blast
  obtain c t where c: "skip r1 = c # t" "c = CHR '':''" using 6(3) s k by (auto split: list.splits if_splits)
  then have 2: "length t < length r1" using skip_Cons_le by blast
  obtain v r2 where v: "parse_value f (skip t) = Some (v, r2)" using 6(3) s k c by (auto split: option.splits)
  then have 3: "length r2 < length (skip t)" using 6(1) s k c by auto
  obtain d u where d: "skip r2 = d # u" using 6(3) s k c v by (auto split: list.splits)
  then have 4: "length u < length r2" by (rule skip_Cons_le)
  show ?case
  proof (cases "d = CHR '',''")
    case True
    with 6(3) s k c v d obtain ms' where m: "parse_members f (skip u) = Some (ms', r)" by auto
    have "length r < length (skip u)"
      using 6(2) s k c v d True m by auto
    then show ?thesis using 1 2 3 4 s skip_le [of u] skip_le [of t] by simp
  next
    case False
    with 6(3) s k c v d show ?thesis using 1 2 3 4 skip_le [of t] by (auto split: if_splits)
  qed
qed auto

declare parse_value.simps [simp del] parse_items.simps [simp del] parse_members.simps [simp del]

lemma parse_chars_fuel:
  "length s < f \<Longrightarrow> parse_chars (Suc f) s = parse_chars f s"
proof (induction f s rule: parse_chars.induct)
  case (3 f c s)
  show ?case
  proof (cases "c = CHR 0x5C")
    case False
    with 3 show ?thesis by simp
  next
    case True
    show ?thesis
    proof (cases s)
      case Nil
      with True show ?thesis by simp
    next
      case (Cons e u)
      with True 3 show ?thesis by (cases "e = CHR ''u''") (auto split: option.splits)
    qed
  qed
qed auto

lemma parse_fuel_step:
  "2 * length s < f \<Longrightarrow> parse_value (Suc f) s = parse_value f s"
  "2 * length s + 1 < f \<Longrightarrow> parse_items (Suc f) s = parse_items f s"
  "2 * length s + 1 < f \<Longrightarrow> parse_members (Suc f) s = parse_members f s"
proof (induction f s and f s and f s rule: parse_value_parse_items_parse_members.induct)
  case (2 f s)
  show ?case
  proof (cases s)
    case Nil
    then show ?thesis by (simp add: parse_value.simps)
  next
    case (Cons c t)
    have "parse_items (Suc f) (skip t) = parse_items f (skip t)"
      if "c = CHR ''[''" "\<not> (skip t \<noteq> [] \<and> hd (skip t) = CHR '']'')"
      using 2(1) [OF Cons _ that] 2(3) that(1) skip_le [of t] Cons by simp
    moreover have "parse_members (Suc f) (skip t) = parse_members f (skip t)"
      if "c = CHR 0x7B" "\<not> (skip t \<noteq> [] \<and> hd (skip t) = CHR 0x7D)"
      using 2(2) [OF Cons _ _ that] 2(3) that(1) skip_le [of t] Cons by simp
    ultimately show ?thesis unfolding Cons parse_value.simps(2) [of f] parse_value.simps(2) [of "Suc f"]
      by auto
  qed
next
  case (4 f s)
  have v: "parse_value (Suc f) s = parse_value f s" using 4 by simp
  show ?case
  proof (cases "parse_value f s")
    case None
    then show ?thesis by (simp add: v parse_items.simps(2) [of f s] parse_items.simps(2) [of "Suc f" s])
  next
    case (Some p)
    obtain x r where p: "p = (x, r)" by fastforce
    then have len: "length r < length s" using Some parse_shorter(1) by blast
    have "parse_items (Suc f) (skip t) = parse_items f (skip t)" if "skip r = CHR '','' # t" for t
      using 4(2) [OF Some p [symmetric] that refl] 4(3) len skip_Cons_le [OF that] skip_le [of t] by simp
    then show ?thesis
      by (cases "skip r") (simp_all add: v Some p parse_items.simps(2) [of f s] parse_items.simps(2) [of "Suc f" s] del: dropWhile_eq_Nil_conv)
  qed
next
  case (6 f s)
  show ?case
  proof (cases s)
    case Nil
    then show ?thesis by (simp add: parse_members.simps)
  next
    case (Cons q s')
    show ?thesis
    proof (cases "q = CHR 0x22 \<and> parse_chars (Suc (length s')) s' \<noteq> None")
      case False
      then show ?thesis
        by (cases "q = CHR 0x22") (simp_all add: Cons parse_members.simps(2) [of f] parse_members.simps(2) [of "Suc f"] del: not_None_eq)
    next
      case True
      then obtain k r where k: "parse_chars (Suc (length s')) s' = Some (k, r)" by auto
      have q: "\<not> q \<noteq> CHR 0x22" using True by simp
      have l1: "length r < length s'" using k parse_chars_shorter by blast
      have A: "parse_value (Suc f) (skip t) = parse_value f (skip t)" if "skip r = CHR '':'' # t" for t
        using 6(1) [OF Cons q k refl that] 6(3) Cons l1 skip_Cons_le [OF that] skip_le [of t] by simp
      have B: "parse_members (Suc f) (skip u) = parse_members f (skip u)"
        if t: "skip r = CHR '':'' # t" and v: "parse_value f (skip t) = Some (v, r2)" and u: "skip r2 = CHR '','' # u" for t v r2 u
        using 6(2) [OF Cons q k refl t _ v refl u] 6(3) Cons l1 skip_Cons_le [OF t] skip_le [of t]
          parse_shorter(1) [OF v] skip_Cons_le [OF u] skip_le [of u] by simp
      note U = Cons k q parse_members.simps(2) [of f] parse_members.simps(2) [of "Suc f"]
      show ?thesis
      proof (cases "skip r")
        case Nil
        then show ?thesis by (simp add: U del: dropWhile_eq_Nil_conv)
      next
        case c: (Cons c t)
        show ?thesis
        proof (cases "c = CHR '':'' \<and> parse_value f (skip t) \<noteq> None")
          case False
          then show ?thesis using A [of t] by (cases "c = CHR '':''") (simp_all add: U c del: not_None_eq)
        next
          case True
          then obtain v r2 where v: "parse_value f (skip t) = Some (v, r2)" by auto
          from True c have t: "skip r = CHR '':'' # t" by simp
          show ?thesis
            using A [OF t] B [OF t v] by (cases "skip r2") (simp_all add: U t v del: dropWhile_eq_Nil_conv)
        qed
      qed
    qed
  qed
qed auto

lemma parse_value_fuel:
  assumes "2 * length s < f" "f \<le> g"
  shows "parse_value g s = parse_value f s"
  using assms(2) by (induction rule: dec_induct) (use assms(1) parse_fuel_step(1) in auto)

section \<open>The round trip\<close>

lemma hex_digit_val: "n < 16 \<Longrightarrow> hex_val (hex_digit n) = Some n"
proof -
  assume "n < 16"
  then have "n \<in> {0,1,2,3,4,5,6,7} \<or> n \<in> {8,9,10,11,12,13,14,15}"
    unfolding insert_iff empty_iff by arith
  then show ?thesis
    by (elim disjE insertE emptyE) (simp_all add: hex_digit_def hex_val_def is_digit_def digit_val_def char_code_def
        lower_char_def is_upper_def Let_def)
qed

lemma parse_chars_esc: "parse_chars (Suc f) (esc_char c @ r) = prepend [c] (parse_chars f r)"
proof (cases "char_code c < 32 \<and> c \<notin> {CHR 0x08, CHR 0x09, CHR 0x0A, CHR 0x0C, CHR 0x0D}")
  case True
  define n where "n = char_code c"
  have n: "n div 16 < 16" "n mod 16 < 16" "n < 32" using True by (auto simp: n_def)
  have z: "hex_val CHR ''0'' = Some 0"
    using hex_digit_val [of 0] by (simp add: hex_digit_def)
  define ds where "ds = [CHR ''0'', CHR ''0'', hex_digit (n div 16), hex_digit (n mod 16)]"
  have step: "based_val 16 0 [CHR ''0'', CHR ''0'', hex_digit a, hex_digit b] = Some (16 * a + b)"
    if "a < 16" "b < 16" for a b :: nat
    using that by (simp add: z hex_digit_val)
  have v: "based_val 16 0 ds = Some n"
    using step [OF n(1,2)] by (simp only: ds_def mult_div_mod_eq)
  have u: "utf8 n = [c]" using n by (simp add: utf8_def n_def char_code_def)
  have big: "\<not> char_code CHR 0x22 < 32" "\<not> char_code CHR 0x5C < 32" by (simp_all add: char_code_def)
  have ne: "c \<noteq> CHR 0x22" "c \<noteq> CHR 0x5C" using True big by metis+
  have e: "esc_char c = CHR 0x5C # CHR ''u'' # ds" "length ds = 4"
    using True ne by (auto simp: esc_char_def ds_def n_def)
  have "parse_chars (Suc f) (CHR 0x5C # CHR ''u'' # t) =
      (if length t < 4 then None
       else case based_val 16 0 (take 4 t) of None \<Rightarrow> None | Some n \<Rightarrow> prepend (utf8 n) (parse_chars f (drop 4 t)))" for t
    by simp
  from this [of "ds @ r"] show ?thesis using e(2) by (simp only: e(1) v u append_Cons) (simp add: v u)
next
  case False
  show ?thesis
  proof (cases "c \<in> {CHR 0x22, CHR 0x5C, CHR 0x08, CHR 0x0C, CHR 0x0A, CHR 0x0D, CHR 0x09}")
    case True
    then show ?thesis
      by (elim insertE emptyE) (simp_all add: esc_char_def unescape_def)
  next
    case other: False
    then have "\<not> char_code c < 32" "esc_char c = [c]" using False by (auto simp: esc_char_def)
    with other show ?thesis by simp
  qed
qed

lemma parse_chars_quoted:
  "length s < f \<Longrightarrow> parse_chars f (concat (map esc_char s) @ CHR 0x22 # rest) = Some (s, rest)"
proof (induction s arbitrary: f)
  case Nil
  then show ?case by (cases f) auto
next
  case (Cons c s)
  then obtain g where "f = Suc g" "length s < g" by (cases f) auto
  with Cons show ?case by (simp add: parse_chars_esc prepend_def)
qed

lemma esc_char_not_Nil: "esc_char c \<noteq> []"
  by (simp add: esc_char_def)

lemma length_escaped: "length s \<le> length (concat (map esc_char s))"
proof (induction s)
  case (Cons c s)
  have "1 \<le> length (esc_char c)" using esc_char_not_Nil [of c] by (cases "esc_char c") auto
  with Cons show ?case by simp
qed simp

lemma nat_text_leading: "0 < n \<Longrightarrow> hd (nat_text n) \<noteq> CHR ''0''"
proof (induction n rule: nat_text.induct)
  case (1 n)
  show ?case
  proof (cases "n < 10")
    case True
    then show ?thesis using "1.prems" digit_char_facts [of n] digit_char_facts [of 0]
      by (auto simp: nat_text.simps [of n] digit_char_def)
  next
    case False
    with 1 show ?thesis by (simp add: nat_text.simps [of n] hd_append)
  qed
qed

lemma nat_text_zero: "nat_text 0 = ''0''"
  by (simp add: nat_text.simps [of 0] digit_char_def)

lemma abs_text_shape:
  assumes "0 \<le> q"
  shows "number_shape (abs_text q) \<and> number_shape (CHR ''-'' # abs_text q)"
proof -
  define i where "i = \<lfloor>q\<rfloor>"
  define f where "f = q - of_int i"
  define n where "n = nat i"
  have f: "0 \<le> f" "f < 1" by (auto simp: f_def i_def, linarith)
  have lead: "hd (nat_text n) = CHR ''0'' \<longrightarrow> tl (nat_text n) = []"
    using nat_text_leading [of n] nat_text_zero by (cases "n = 0") auto
  have hd: "is_digit (hd (nat_text n))" using nat_text_digits [of "hd (nat_text n)" n] by simp
  have nm: "\<not> is_digit CHR ''-''" "\<not> is_digit CHR ''.''" by (simp_all add: is_digit_def char_code_def)
  obtain r where r: "abs_text q = nat_text n @ r" "r = [] \<or> hd r = CHR ''.'' \<and> tl r \<noteq> [] \<and> is_digit (hd (tl r))"
  proof (cases "f = 0")
    case True
    then have "abs_text q = nat_text n @ []" by (simp add: abs_text_def i_def f_def n_def)
    then show ?thesis using that by blast
  next
    case False
    let ?d = "frac_digits max_places f"
    have ne: "?d \<noteq> []" using False by (simp add: max_places_def numeral_eq_Suc)
    have "is_digit (hd ?d)" by (rule frac_digits_digits [OF f hd_in_set [OF ne]])
    moreover have "abs_text q = nat_text n @ CHR ''.'' # ?d"
      using False by (simp add: abs_text_def i_def f_def n_def Let_def)
    ultimately show ?thesis using that [of "CHR ''.'' # ?d"] ne by simp
  qed
  have t: "takeWhile is_digit (nat_text n @ r) = nat_text n" "dropWhile is_digit (nat_text n @ r) = r"
    using digits_takeWhile [of "nat_text n" r] nat_text_digits r(2) nm by auto
  have t2: "takeWhile is_digit (nat_text n) = nat_text n" "dropWhile is_digit (nat_text n) = []"
    using digits_takeWhile [of "nat_text n" "[]"] nat_text_digits by auto
  have ne: "nat_text n @ r \<noteq> []" "hd (nat_text n @ r) \<noteq> CHR ''-''"
    using hd nm by (auto simp: hd_append)
  show ?thesis
  proof (cases "r = []")
    case True
    then have "abs_text q = nat_text n" using r(1) by simp
    moreover have "hd (nat_text n) \<noteq> CHR ''-''" using ne(2) True by simp
    ultimately show ?thesis using lead by (simp add: number_shape_def Let_def t2 del: takeWhile_eq_all_conv dropWhile_eq_Nil_conv)
  next
    case False
    with r(2) have "hd r = CHR ''.''" "tl r \<noteq> []" "is_digit (hd (tl r))" by auto
    moreover have "r \<noteq> [CHR ''.'']" using calculation by (cases r) auto
    ultimately show ?thesis using lead ne(2) False by (auto simp: number_shape_def Let_def r(1) t)
  qed
qed

lemma rat_text_shape: "number_shape (rat_text q)"
  using abs_text_shape [of q] abs_text_shape [of "- q"] by (simp add: rat_text_def)

definition ends_number :: "string \<Rightarrow> bool" where
  "ends_number rest \<longleftrightarrow> rest = [] \<or> \<not> number_char (hd rest)"

lemma parse_number_rat:
  assumes "short_decimal q" "ends_number rest"
  shows "parse_number (rat_text q @ rest) = Some (JNum (Fin q), rest)"
proof -
  have "\<And>c. c \<in> set (rat_text q) \<Longrightarrow> number_char c"
    using rat_text_chars by (auto simp: number_char_def)
  then have "takeWhile number_char (rat_text q @ rest) = rat_text q" "dropWhile number_char (rat_text q @ rest) = rest"
    using assms(2) by (cases rest; auto simp: ends_number_def)+
  then show ?thesis using assms(1)
    by (simp add: parse_number_def rat_text_shape signed_literal_rat_text)
qed

text \<open>What survives the trip: finite short numbers and objects without duplicate keys.\<close>

fun json_ok :: "json \<Rightarrow> bool" where
  "json_ok (JNum n) = (case n of Fin q \<Rightarrow> short_decimal q | _ \<Rightarrow> False)"
| "json_ok (JArr xs) = list_all json_ok xs"
| "json_ok (JObj kvs) = (distinct (map fst kvs) \<and> list_all (\<lambda>v. json_ok v) (map snd kvs))"
| "json_ok _ = True"

lemma number_char_cases: "number_char c \<Longrightarrow> \<not> json_ws c \<and> c \<notin> {CHR 0x22, CHR ''['', CHR '']'', CHR 0x7B, CHR 0x7D, CHR ''n'', CHR ''t'', CHR ''f''}"
  by (auto simp: number_char_def json_ws_def is_digit_def char_code_def)

lemma not_number_chars [simp]: "\<not> number_char CHR '','' \<and> \<not> number_char CHR '']'' \<and> \<not> number_char CHR 0x7D \<and> \<not> number_char CHR 0x0A"
  by (simp add: number_char_def is_digit_def char_code_def)

lemma rat_text_head: "\<exists>c t. rat_text q = c # t \<and> number_char c"
proof -
  have "rat_text q \<noteq> []" using rat_text_shape [of q] by (auto simp: number_shape_def)
  then obtain c t where "rat_text q = c # t" by (cases "rat_text q") auto
  then show ?thesis using rat_text_chars [of c q] by (auto simp: number_char_def)
qed

lemma parse_value_number:
  assumes "number_char c"
  shows "parse_value (Suc f) (c # t) = parse_number (c # t)"
  using number_char_cases [OF assms] by (auto simp: parse_value.simps starts_with_def)

lemma render_head: "\<exists>c t. render g n v = c # t \<and> \<not> json_ws c \<and> c \<noteq> CHR '']''"
proof (cases v)
  case (JNum x)
  then show ?thesis
    using rat_text_head number_char_cases by (cases x) (fastforce simp: json_number_def json_ws_def)+
next
  case (JArr xs)
  then show ?thesis by (cases xs) (auto simp: json_ws_def)
next
  case (JObj ms)
  then show ?thesis by (cases ms) (auto simp: json_ws_def)
qed (auto simp: json_ws_def quoted_def)

definition white :: "string \<Rightarrow> bool" where
  "white g \<longleftrightarrow> list_all json_ws g"

lemma skip_break:
  assumes "white g" "\<not> json_ws c"
  shows "skip (break g n @ c # r) = c # r"
proof -
  have "\<And>x. x \<in> set (break g n) \<Longrightarrow> json_ws x"
    using assms(1) by (auto simp: break_def white_def list_all_iff json_ws_def split: if_splits)
  then show ?thesis using assms(2) by (simp add: dropWhile_append2)
qed

lemma skip_break_render: "white g \<Longrightarrow> skip (break g n @ render g m v @ r) = render g m v @ r"
  using render_head [of g m v] skip_break by force

lemma ends_number_break [simp]: "\<not> number_char c \<Longrightarrow> ends_number (break g n @ c # r)"
  by (simp add: ends_number_def break_def)

lemma ends_number_Cons: "\<not> number_char c \<Longrightarrow> ends_number (c # r)"
  by (simp add: ends_number_def)

lemma object_of_distinct:
  assumes "distinct (map fst ms)"
  shows "object_of ms = JObj ms"
proof -
  have "foldl (\<lambda>d (k, v). dict_set k v d) acc ms = acc @ ms"
    if "distinct (map fst (acc @ ms))" for acc
    using that
  proof (induction ms arbitrary: acc)
    case (Cons m ms)
    obtain k v where m: "m = (k, v)" by fastforce
    have "k \<notin> fst ` set acc" using Cons.prems m by auto
    then have "dict_set k v acc = acc @ [(k, v)]" by (induction acc) auto
    then show ?case using Cons.IH [of "acc @ [(k, v)]"] Cons.prems m by simp
  qed simp
  from this [of "[]"] assms show ?thesis by (simp add: object_of_def)
qed

text \<open>The parser reads back \<open>s\<close> as \<open>v\<close> and leaves \<open>rest\<close>, with all but small fuels.\<close>

definition reads :: "(nat \<Rightarrow> string \<Rightarrow> ('a \<times> string) option) \<Rightarrow> string \<Rightarrow> 'a \<Rightarrow> string \<Rightarrow> bool" where
  "reads p s v rest \<longleftrightarrow> (\<exists>N. \<forall>f\<ge>N. p f s = Some (v, rest))"

lemma readsI: "(\<And>f. N \<le> f \<Longrightarrow> p (Suc f) s = Some (v, rest)) \<Longrightarrow> reads p s v rest"
  unfolding reads_def by (metis Suc_le_D Suc_le_mono)

lemma quoted_parts: "quoted k @ r = CHR 0x22 # concat (map esc_char k) @ CHR 0x22 # r"
  by (simp add: quoted_def)

lemma parse_key:
  "parse_chars (Suc (length (concat (map esc_char k) @ CHR 0x22 # r))) (concat (map esc_char k) @ CHR 0x22 # r) = Some (k, r)"
  by (rule parse_chars_quoted) (use length_escaped [of k] in simp)

lemma reads_item_last:
  assumes "reads parse_value (render g n x @ break g m @ CHR '']'' # rest) x (break g m @ CHR '']'' # rest)" "white g"
  shows "reads parse_items (render g n x @ break g m @ CHR '']'' # rest) [x] rest"
proof -
  from assms(1) obtain N where N: "\<And>f. N \<le> f \<Longrightarrow> parse_value f (render g n x @ break g m @ CHR '']'' # rest) = Some (x, break g m @ CHR '']'' # rest)"
    unfolding reads_def by auto
  have "skip (break g m @ CHR '']'' # rest) = CHR '']'' # rest"
    using assms(2) by (intro skip_break) (auto simp: json_ws_def)
  then show ?thesis by (intro readsI [where N = N]) (simp add: parse_items.simps N)
qed

lemma reads_item_more:
  assumes "reads parse_value (r1 @ CHR '','' # r2) x (CHR '','' # r2)" "reads parse_items (skip r2) xs rest"
  shows "reads parse_items (r1 @ CHR '','' # r2) (x # xs) rest"
proof -
  from assms obtain N M where N: "\<And>f. N \<le> f \<Longrightarrow> parse_value f (r1 @ CHR '','' # r2) = Some (x, CHR '','' # r2)"
    and M: "\<And>f. M \<le> f \<Longrightarrow> parse_items f (skip r2) = Some (xs, rest)"
    unfolding reads_def by auto
  show ?thesis by (intro readsI [where N = "max N M"]) (simp add: parse_items.simps N M json_ws_def)
qed

lemma parse_members_step:
  "parse_members (Suc f) (quoted k @ CHR '':'' # t) =
     (case parse_value f (skip t) of None \<Rightarrow> None
      | Some (v, r2) \<Rightarrow>
          (case skip r2 of [] \<Rightarrow> None
           | d # u \<Rightarrow>
               if d = CHR '','' then map_option (\<lambda>(ms, r'). ((k, v) # ms, r')) (parse_members f (skip u))
               else if d = CHR 0x7D then Some ([(k, v)], u) else None))"
proof -
  have c: "skip (CHR '':'' # t) = CHR '':'' # t" by (simp add: json_ws_def)
  show ?thesis unfolding quoted_parts parse_members.simps(2) list.case parse_key option.case prod.case c by simp
qed

lemma skip_colon: "skip ((if g = [] then [] else '' '') @ render g n v @ r) = render g n v @ r"
  using render_head [of g n v] by (force simp: json_ws_def)

lemma reads_member_last:
  assumes "reads parse_value (render g n x @ break g m @ CHR 0x7D # rest) x (break g m @ CHR 0x7D # rest)" "white g"
  shows "reads parse_members (quoted k @ CHR '':'' # (if g = [] then [] else '' '') @ render g n x @ break g m @ CHR 0x7D # rest) [(k, x)] rest"
proof -
  from assms(1) obtain N where N: "\<And>f. N \<le> f \<Longrightarrow> parse_value f (render g n x @ break g m @ CHR 0x7D # rest) = Some (x, break g m @ CHR 0x7D # rest)"
    unfolding reads_def by auto
  have "skip (break g m @ CHR 0x7D # rest) = CHR 0x7D # rest"
    using assms(2) by (intro skip_break) (auto simp: json_ws_def)
  then show ?thesis
    by (intro readsI [where N = N]) (simp only: parse_members_step skip_colon, simp add: N)
qed

lemma reads_member_more:
  assumes "reads parse_value (render g n x @ CHR '','' # r2) x (CHR '','' # r2)" "reads parse_members (skip r2) ms rest"
  shows "reads parse_members (quoted k @ CHR '':'' # (if g = [] then [] else '' '') @ render g n x @ CHR '','' # r2) ((k, x) # ms) rest"
proof -
  from assms obtain N M where N: "\<And>f. N \<le> f \<Longrightarrow> parse_value f (render g n x @ CHR '','' # r2) = Some (x, CHR '','' # r2)"
    and M: "\<And>f. M \<le> f \<Longrightarrow> parse_members f (skip r2) = Some (ms, rest)"
    unfolding reads_def by auto
  show ?thesis
    by (intro readsI [where N = "max N M"]) (simp only: parse_members_step skip_colon, simp add: N M json_ws_def)
qed

lemma reads_readsI: "(\<And>f. p (Suc f) s = Some (v, rest)) \<Longrightarrow> reads p s v rest"
  by (rule readsI [where N = 0])

lemma reads_array:
  assumes "reads parse_items (skip t) xs rest" "skip t = c # u" "c \<noteq> CHR '']''"
  shows "reads parse_value (CHR ''['' # t) (JArr xs) rest"
proof -
  from assms(1) obtain N where "\<And>f. N \<le> f \<Longrightarrow> parse_items f (skip t) = Some (xs, rest)"
    unfolding reads_def by auto
  then show ?thesis using assms(2,3) by (intro readsI [where N = N]) (simp add: parse_value.simps)
qed

lemma reads_object:
  assumes "reads parse_members (skip t) ms rest" "skip t = c # u" "c \<noteq> CHR 0x7D" "distinct (map fst ms)"
  shows "reads parse_value (CHR 0x7B # t) (JObj ms) rest"
proof -
  from assms(1) obtain N where "\<And>f. N \<le> f \<Longrightarrow> parse_members f (skip t) = Some (ms, rest)"
    unfolding reads_def by auto
  then show ?thesis using assms(2-4) by (intro readsI [where N = N]) (simp add: parse_value.simps object_of_distinct)
qed

lemma skip_break_quoted:
  assumes "white g"
  shows "skip (break g n @ quoted k @ r) = quoted k @ r"
  using skip_break [OF assms, of "CHR 0x22"] by (simp add: quoted_def json_ws_def)

lemma reads_render:
  "json_ok v \<Longrightarrow> white g \<Longrightarrow> ends_number rest \<Longrightarrow> reads parse_value (render g n v @ rest) v rest"
  "list_all json_ok xs \<Longrightarrow> white g \<Longrightarrow> xs \<noteq> [] \<Longrightarrow>
   reads parse_items (skip (render_items g n xs @ break g m @ CHR '']'' # rest)) xs rest"
  "list_all json_ok (map snd ms) \<Longrightarrow> white g \<Longrightarrow> ms \<noteq> [] \<Longrightarrow>
   reads parse_members (skip (render_members g n ms @ break g m @ CHR 0x7D # rest)) ms rest"
proof (induction g n v and g n xs and g n ms arbitrary: rest and m rest and m rest
    rule: render_render_items_render_members.induct)
  case (3 g n x)
  then obtain q where q: "x = Fin q" "short_decimal q" by (auto split: jsnum.splits)
  obtain c t where c: "rat_text q = c # t" "number_char c" using rat_text_head by blast
  show ?case
    by (rule reads_readsI)
      (use parse_number_rat [OF q(2) 3(3)] in \<open>simp add: q json_number_def c parse_value_number\<close>)
next
  case (4 g n s)
  show ?case
    by (rule reads_readsI) (simp only: render.simps quoted_parts parse_value.simps list.case parse_key, simp)
next
  case (6 g n x xs)
  let ?t = "render_items g (Suc n) (x # xs) @ break g n @ CHR '']'' # rest"
  obtain c u where c: "skip ?t = c # u" "c \<noteq> CHR '']''"
  proof -
    obtain c u where h: "render g (Suc n) x = c # u" "c \<noteq> CHR '']''" using render_head by blast
    obtain r where r: "?t = break g (Suc n) @ render g (Suc n) x @ r"
      by (cases xs) auto
    show thesis by (rule that [of c "u @ r"]) (unfold r skip_break_render [OF 6(3)], simp_all add: h)
  qed
  show ?case using reads_array [OF 6(1) c] 6(2,3) by simp
next
  case (8 g n m ms)
  let ?t = "render_members g (Suc n) (m # ms) @ break g n @ CHR 0x7D # rest"
  obtain k v where m: "m = (k, v)" by fastforce
  have q: "\<exists>u. skip (break g (Suc n) @ quoted k @ r) = CHR 0x22 # u" for r
    using skip_break_quoted [OF 8(3)] by (simp add: quoted_parts)
  then obtain u where c: "skip ?t = CHR 0x22 # u"
  proof (cases ms)
    case Nil
    then have "?t = break g (Suc n) @ quoted k @ CHR '':'' # (if g = [] then [] else '' '') @ render g (Suc n) v @ break g n @ CHR 0x7D # rest"
      by (simp add: m)
    then show ?thesis using q that by metis
  next
    case (Cons m' ms')
    then have "?t = break g (Suc n) @ quoted k @ CHR '':'' # (if g = [] then [] else '' '') @ render g (Suc n) v @ CHR '','' #
        render_members g (Suc n) (m' # ms') @ break g n @ CHR 0x7D # rest"
      by (simp add: m)
    then show ?thesis using q that by metis
  qed
  have ok: "list_all json_ok (map snd (m # ms))" "distinct (map fst (m # ms))" using 8(2) by auto
  show ?case using reads_object [OF 8(1) c _ ok(2)] 8(3) ok(1) by simp
next
  case (10 g n x)
  have "reads parse_value (render g n x @ break g m @ CHR '']'' # rest) x (break g m @ CHR '']'' # rest)"
    using 10 by simp
  from reads_item_last [OF this 10(3)] show ?case by (simp add: skip_break_render 10(3))
next
  case (11 g n x y ys)
  show ?case
    using reads_item_more [of "render g n x" "render_items g n (y # ys) @ break g m @ CHR '']'' # rest"] 11
    by (simp add: skip_break_render ends_number_Cons)
next
  case (13 g n k v)
  have "reads parse_value (render g n v @ break g m @ CHR 0x7D # rest) v (break g m @ CHR 0x7D # rest)"
    using 13 by simp
  from reads_member_last [OF this 13(3), of k]
  show ?case by (simp only: render_members.simps append_assoc append_Cons skip_break_quoted [OF 13(3)])
next
  case (14 g n k v m' ms)
  have "reads parse_value (render g n v @ CHR '','' # render_members g n (m' # ms) @ break g m @ CHR 0x7D # rest) v
     (CHR '','' # render_members g n (m' # ms) @ break g m @ CHR 0x7D # rest)"
    using 14 by (simp add: ends_number_Cons)
  moreover have "reads parse_members (skip (render_members g n (m' # ms) @ break g m @ CHR 0x7D # rest)) (m' # ms) rest"
    using 14 by simp
  ultimately have "reads parse_members (quoted k @ CHR '':'' # (if g = [] then [] else '' '') @ render g n v @
      CHR '','' # render_members g n (m' # ms) @ break g m @ CHR 0x7D # rest) ((k, v) # m' # ms) rest"
    by (rule reads_member_more)
  then show ?case by (simp only: render_members.simps append_assoc append_Cons skip_break_quoted [OF 14(4)])
qed ((simp; fail) | (rule reads_readsI, simp add: parse_value.simps starts_with_def json_ws_def))+

theorem json_parse_stringify:
  assumes "json_ok v" "white g"
  shows "json_parse (stringify g v) = Some v"
proof -
  let ?s = "render g 0 v" and ?F = "Suc (2 * length (render g 0 v))"
  have "reads parse_value (?s @ []) v []"
    by (rule reads_render(1)) (use assms in \<open>auto simp: ends_number_def\<close>)
  then obtain N where N: "\<And>f. N \<le> f \<Longrightarrow> parse_value f ?s = Some (v, [])" unfolding reads_def by auto
  have "parse_value ?F ?s = parse_value (max N ?F) ?s"
    by (rule parse_value_fuel [symmetric]) auto
  then have "parse_value ?F ?s = Some (v, [])" using N [of "max N ?F"] by simp
  moreover have "skip ?s = ?s" using render_head [of g 0 v] by force
  ultimately show ?thesis by (simp add: json_parse_def stringify_def)
qed

section \<open>The interface of a printer and its parser\<close>

locale json_codec =
  fixes print :: "json \<Rightarrow> string" and parse :: "string \<Rightarrow> json option"
  assumes parse_print: "json_ok v \<Longrightarrow> parse (print v) = Some v"
begin

lemma print_inj: "json_ok v \<Longrightarrow> json_ok w \<Longrightarrow> print v = print w \<Longrightarrow> v = w"
  by (metis option.inject parse_print)

lemma store_load: "json_ok v \<Longrightarrow> (case parse (print v) of None \<Rightarrow> d | Some w \<Rightarrow> w) = v"
  by (simp add: parse_print)

end

interpretation compact: json_codec "stringify []" json_parse
  by unfold_locales (simp add: json_parse_stringify white_def)

interpretation indented: json_codec "stringify ''  ''" json_parse
  by unfold_locales (simp add: json_parse_stringify white_def json_ws_def)

end
