(* ===== verification/Session.thy ===== *)
theory Session
  imports Prelude
begin

text \<open>
  The signed-in session (frontend/src/lib/auth-context.tsx): the refresh token in one of two stores, the
  remembered workspace, the in-page state, and the refresh that resumes, rotates or ends a session. The
  API is the list of outcomes its calls have, in order. Also the retry of useApi.ts and the redirect
  check of safe-next.ts.
\<close>

section \<open>State\<close>

datatype auth_status = Loading | Authenticated | Unauthenticated

record membership =
  mb_tenant :: string
  mb_role :: string

record token_pair =
  tp_access :: string
  tp_refresh :: string
  tp_memberships :: "membership list"

record auth_state =
  au_access :: "string option"
  au_memberships :: "membership list"
  au_tenant :: "string option"
  au_status :: auth_status

text \<open>sessionStorage and localStorage hold the refresh token; localStorage the workspace.\<close>

record session =
  se_session :: "string option"
  se_local :: "string option"
  se_tenant :: "string option"
  se_state :: auth_state

definition initialState :: auth_state where
  "initialState = \<lparr>au_access = None, au_memberships = [], au_tenant = None, au_status = Loading\<rparr>"

definition readRefreshToken :: "session \<Rightarrow> string option" where
  "readRefreshToken s = (case se_session s of Some t \<Rightarrow> Some t | None \<Rightarrow> se_local s)"

definition writeRefreshToken :: "string \<Rightarrow> bool \<Rightarrow> session \<Rightarrow> session" where
  "writeRefreshToken token keep s =
     (if keep then s\<lparr>se_local := Some token, se_session := None\<rparr> else s\<lparr>se_session := Some token, se_local := None\<rparr>)"

definition isKept :: "session \<Rightarrow> bool" where
  "isKept s \<longleftrightarrow> se_session s = None"

definition is_member :: "token_pair \<Rightarrow> string option \<Rightarrow> bool" where
  "is_member d i = (case i of None \<Rightarrow> False | Some t \<Rightarrow> t \<noteq> [] \<and> t \<in> set (map mb_tenant (tp_memberships d)))"

text \<open>\<open>[tenantOverride, stored].find(isMember) ?? memberships[0]?.tenant_id ?? null\<close>\<close>

definition pick_tenant :: "token_pair \<Rightarrow> string option \<Rightarrow> string option \<Rightarrow> string option" where
  "pick_tenant d override stored =
     (if is_member d override then override
      else if is_member d stored then stored
      else case tp_memberships d of [] \<Rightarrow> None | m # _ \<Rightarrow> Some (mb_tenant m))"

definition applySession :: "token_pair \<Rightarrow> string option \<Rightarrow> bool \<Rightarrow> session \<Rightarrow> session" where
  "applySession d override keep s =
     (let s1 = writeRefreshToken (tp_refresh d) keep s;
          t = pick_tenant d override (se_tenant s1)
      in s1\<lparr>se_tenant := (case t of None \<Rightarrow> None | Some x \<Rightarrow> if x = [] then None else Some x),
            se_state := \<lparr>au_access = Some (tp_access d), au_memberships = tp_memberships d, au_tenant = t,
                         au_status = Authenticated\<rparr>\<rparr>)"

definition clearSession :: "session \<Rightarrow> session" where
  "clearSession s =
     s\<lparr>se_local := None, se_session := None, se_tenant := None,
       se_state := \<lparr>au_access = None, au_memberships = [], au_tenant = None, au_status = Unauthenticated\<rparr>\<rparr>"

section \<open>Refreshing\<close>

text \<open>One call's outcome: a new pair, an HTTP error, or no answer.\<close>

datatype outcome = Answer token_pair | Http_error nat | No_answer

definition isRejection :: "outcome \<Rightarrow> bool" where
  "isRejection r = (case r of Http_error st \<Rightarrow> st = 401 \<or> st = 403 | _ \<Rightarrow> False)"

definition RETRY_DELAYS_MS :: "nat list" where "RETRY_DELAYS_MS = [500, 1500, 3000]"

definition give_up :: "session \<Rightarrow> session" where
  "give_up s =
     (if au_access (se_state s) \<noteq> None \<and> au_access (se_state s) \<noteq> Some [] then s
      else s\<lparr>se_state := (se_state s)\<lparr>au_status := Unauthenticated\<rparr>\<rparr>)"

text \<open>
  The loop of \<open>refresh\<close>: \<open>api n t\<close> is the outcome of attempt \<open>n\<close> with token \<open>t\<close>. Also returned: the
  attempts made and the time slept between them.
\<close>

function refresh_from :: "nat \<Rightarrow> (nat \<Rightarrow> string \<Rightarrow> outcome) \<Rightarrow> session \<Rightarrow> nat \<Rightarrow> session \<times> token_pair option \<times> nat \<times> nat" where
  "refresh_from n api s slept =
     (case readRefreshToken s of
        None \<Rightarrow> (s\<lparr>se_state := (se_state s)\<lparr>au_status := Unauthenticated\<rparr>\<rparr>, None, n, slept)
      | Some t \<Rightarrow>
          if t = [] then (s\<lparr>se_state := (se_state s)\<lparr>au_status := Unauthenticated\<rparr>\<rparr>, None, n, slept)
          else case api n t of
            Answer d \<Rightarrow> (applySession d None (isKept s) s, Some d, Suc n, slept)
          | r \<Rightarrow>
              if isRejection r then (clearSession s, None, Suc n, slept)
              else if length RETRY_DELAYS_MS \<le> n then (give_up s, None, Suc n, slept)
              else refresh_from (Suc n) api s (slept + RETRY_DELAYS_MS ! n))"
  by pat_completeness auto
termination by (relation "measure (\<lambda>(n, api, s, slept). Suc (length RETRY_DELAYS_MS) - n)") (auto simp: RETRY_DELAYS_MS_def)

declare refresh_from.simps [simp del]

definition refresh :: "(nat \<Rightarrow> string \<Rightarrow> outcome) \<Rightarrow> session \<Rightarrow> session \<times> token_pair option \<times> nat \<times> nat" where
  "refresh api s = refresh_from 0 api s 0"

definition adoptSession :: "token_pair \<Rightarrow> string option \<Rightarrow> bool option \<Rightarrow> session \<Rightarrow> session" where
  "adoptSession d tenantId keep s = applySession d tenantId (case keep of Some k \<Rightarrow> k | None \<Rightarrow> True) s"

definition logout :: "session \<Rightarrow> session" where
  "logout s = clearSession s"

definition setCurrentTenantId :: "string \<Rightarrow> session \<Rightarrow> session" where
  "setCurrentTenantId t s = s\<lparr>se_tenant := Some t, se_state := (se_state s)\<lparr>au_tenant := Some t\<rparr>\<rparr>"

section \<open>A request with its one retry (useApi.ts)\<close>

datatype 'a reply = Good 'a | Bad nat | Lost

text \<open>\<open>fn\<close> is the request as a function of the access token; the calls it makes are counted.\<close>

definition withRetry ::
    "(string option \<Rightarrow> 'a reply) \<Rightarrow> (nat \<Rightarrow> string \<Rightarrow> outcome) \<Rightarrow> session \<Rightarrow> session \<times> 'a reply \<times> nat" where
  "withRetry fn api s =
     (case fn (au_access (se_state s)) of
        Bad st \<Rightarrow>
          (if st = 401 then
             (case refresh api s of
                (s', Some d, _) \<Rightarrow> (s', fn (Some (tp_access d)), 2)
              | (s', None, _) \<Rightarrow> (s', Bad st, 1))
           else (s, Bad st, 1))
      | r \<Rightarrow> (s, r, 1))"

section \<open>The redirect check\<close>

definition HOME :: string where "HOME = ''/home''"

definition safeNext :: "string option \<Rightarrow> string" where
  "safeNext nxt =
     (case nxt of None \<Rightarrow> HOME
      | Some n \<Rightarrow> if n \<noteq> [] \<and> starts_with n ''/'' \<and> \<not> starts_with n ''//'' then n else HOME)"

section \<open>A session ends only when the API says so\<close>

lemma read_state [simp]: "readRefreshToken (s\<lparr>se_state := x\<rparr>) = readRefreshToken s"
  by (cases "se_session s") (simp_all add: readRefreshToken_def)

lemma give_up_keeps [simp]:
  "readRefreshToken (give_up s) = readRefreshToken s" "se_tenant (give_up s) = se_tenant s"
  "au_access (se_state (give_up s)) = au_access (se_state s)"
  by (simp_all add: give_up_def)

lemma apply_facts:
  "readRefreshToken (applySession d o' keep s) = Some (tp_refresh d)" "isKept (applySession d o' keep s) = keep"
  "au_status (se_state (applySession d o' keep s)) = Authenticated"
  "au_access (se_state (applySession d o' keep s)) = Some (tp_access d)"
  by (simp_all add: applySession_def writeRefreshToken_def readRefreshToken_def isKept_def Let_def)

lemma clear_facts:
  "readRefreshToken (clearSession s) = None" "au_status (se_state (clearSession s)) = Unauthenticated"
  by (simp_all add: clearSession_def readRefreshToken_def)

text \<open>The four ways an attempt goes.\<close>

lemma attempt_signed_out:
  "readRefreshToken s = None \<or> readRefreshToken s = Some [] \<Longrightarrow>
   refresh_from n api s z = (s\<lparr>se_state := (se_state s)\<lparr>au_status := Unauthenticated\<rparr>\<rparr>, None, n, z)"
  by (subst refresh_from.simps) auto

lemma attempt_answer:
  "readRefreshToken s = Some t \<Longrightarrow> t \<noteq> [] \<Longrightarrow> api n t = Answer d \<Longrightarrow>
   refresh_from n api s z = (applySession d None (isKept s) s, Some d, Suc n, z)"
  by (subst refresh_from.simps) simp

lemma attempt_rejected:
  "readRefreshToken s = Some t \<Longrightarrow> t \<noteq> [] \<Longrightarrow> isRejection (api n t) \<Longrightarrow>
   refresh_from n api s z = (clearSession s, None, Suc n, z)"
  by (subst refresh_from.simps) (cases "api n t", auto simp: isRejection_def)

lemma attempt_failed:
  "readRefreshToken s = Some t \<Longrightarrow> t \<noteq> [] \<Longrightarrow> \<not> isRejection (api n t) \<Longrightarrow> \<forall>d. api n t \<noteq> Answer d \<Longrightarrow>
   refresh_from n api s z =
     (if 3 \<le> n then (give_up s, None, Suc n, z) else refresh_from (Suc n) api s (z + RETRY_DELAYS_MS ! n))"
  by (subst refresh_from.simps) (cases "api n t", auto simp: RETRY_DELAYS_MS_def)

definition still_there :: "session \<Rightarrow> session \<Rightarrow> bool" where
  "still_there s s' \<longleftrightarrow>
     readRefreshToken s' = readRefreshToken s \<and> se_tenant s' = se_tenant s \<and> au_access (se_state s') = au_access (se_state s)"

definition renewed :: "token_pair \<Rightarrow> session \<Rightarrow> session \<Rightarrow> bool" where
  "renewed d s s' \<longleftrightarrow>
     readRefreshToken s' = Some (tp_refresh d) \<and> isKept s' = isKept s \<and>
     au_status (se_state s') = Authenticated \<and> au_access (se_state s') = Some (tp_access d)"

definition refresh_ok :: "(nat \<Rightarrow> string \<Rightarrow> outcome) \<Rightarrow> session \<Rightarrow> session \<Rightarrow> token_pair option \<Rightarrow> bool" where
  "refresh_ok api s s' r \<longleftrightarrow>
     (case r of
        Some d \<Rightarrow> renewed d s s' \<and> (\<exists>k t. readRefreshToken s = Some t \<and> api k t = Answer d)
      | None \<Rightarrow> still_there s s' \<or>
          (\<exists>k t. readRefreshToken s = Some t \<and> isRejection (api k t)) \<and> readRefreshToken s' = None \<and>
          au_status (se_state s') = Unauthenticated)"

lemma refresh_from_ok:
  "n \<le> 3 \<Longrightarrow> refresh_from n api s z = (s', r, m, z') \<Longrightarrow>
   refresh_ok api s s' r \<and> m \<le> 4 \<and> z' \<le> z + sum_list (drop n RETRY_DELAYS_MS)"
proof (induction n api s z rule: refresh_from.induct)
  case (1 n api s z)
  show ?case
  proof (cases "readRefreshToken s = None \<or> readRefreshToken s = Some []")
    case True
    have "(s', r, m, z') = (s\<lparr>se_state := (se_state s)\<lparr>au_status := Unauthenticated\<rparr>\<rparr>, None, n, z)"
      using trans [OF sym [OF 1(4)] attempt_signed_out [OF True]] .
    then show ?thesis using 1(3) by (auto simp: refresh_ok_def still_there_def)
  next
    case False
    then obtain t where t: "readRefreshToken s = Some t" "t \<noteq> []" by auto
    consider (a) d where "api n t = Answer d" | (r) "isRejection (api n t)"
      | (f) "\<not> isRejection (api n t)" "\<forall>d. api n t \<noteq> Answer d" by blast
    then show ?thesis
    proof cases
      case a
      then show ?thesis using 1(3,4) t attempt_answer [OF t, of api n d z]
        by (auto simp: refresh_ok_def renewed_def apply_facts)
    next
      case r
      then show ?thesis using 1(3,4) t attempt_rejected [OF t, of api n z] by (auto simp: refresh_ok_def clear_facts)
    next
      case f
      note step = attempt_failed [where n = n and z = z and api = api and s = s and t = t, OF t f]
      show ?thesis
      proof (cases "3 \<le> n")
        case True
        then show ?thesis using 1(3,4) step by (auto simp: refresh_ok_def still_there_def)
      next
        case False
        have go: "refresh_from (Suc n) api s (z + RETRY_DELAYS_MS ! n) = (s', r, m, z')" using step False 1(4) by simp
        have "length RETRY_DELAYS_MS = 3" by (simp add: RETRY_DELAYS_MS_def)
        then have d: "drop n RETRY_DELAYS_MS = RETRY_DELAYS_MS ! n # drop (Suc n) RETRY_DELAYS_MS"
          using False by (simp add: Cons_nth_drop_Suc)
        have "refresh_ok api s s' r \<and> m \<le> 4 \<and> z' \<le> z + RETRY_DELAYS_MS ! n + sum_list (drop (Suc n) RETRY_DELAYS_MS)"
          using 1(1,2) t f go False by (cases "api n t") (auto simp: RETRY_DELAYS_MS_def)
        then show ?thesis by (simp add: d)
      qed
    qed
  qed
qed

text \<open>
  C24: a refresh makes at most four calls and waits at most five seconds; a success keeps the rotated
  token in the store that held the session; and unless the API rejected the token (401 or 403) no
  failure, however often, removes the token, the workspace or the access token.
\<close>

theorem refresh_correct:
  "case refresh api s of (s', r, calls, slept) \<Rightarrow> refresh_ok api s s' r \<and> calls \<le> 4 \<and> slept \<le> 5000"
proof -
  obtain s' r m z where r: "refresh api s = (s', r, m, z)" by (metis prod_cases4)
  have "refresh_ok api s s' r \<and> m \<le> 4 \<and> z \<le> 0 + sum_list (drop 0 RETRY_DELAYS_MS)"
    using refresh_from_ok [of 0 api s 0 s' r m z] r by (simp add: refresh_def)
  then show ?thesis by (simp add: r RETRY_DELAYS_MS_def)
qed

text \<open>A path whose second character is a backslash passes the redirect check.\<close>

lemma safeNext_backslash: "safeNext (Some (''/'' @ [CHR 0x5C] @ ''evil.example'')) = ''/'' @ [CHR 0x5C] @ ''evil.example''"
  by (simp add: safeNext_def starts_with_def)

end
