(* ===== verification/Api_Client.thy ===== *)
theory Api_Client imports Json Session begin

text \<open>
  The API client of both apps (\<open>packages/shared/src/api-client.ts\<close>) and the calls the web wraps
  around it (\<open>frontend/src/hooks/useApi.ts\<close>).  \<open>fetch\<close> is a parameter: None when it rejects,
  else a response with its text unread.  A body of unknown shape is JSON; where reading it throws
  a TypeError the result is None, so that every way a call can fail is a value of \<open>sent\<close>.
\<close>

section \<open>FastAPI's errors\<close>

definition VALUE_ERROR :: string where "VALUE_ERROR = ''Value error, ''"

definition strip_value_error :: "string \<Rightarrow> string" where
  "strip_value_error s = (if starts_with s VALUE_ERROR then drop (length VALUE_ERROR) s else s)"

definition isValidationList :: "json \<Rightarrow> bool" where
  "isValidationList detail =
     (case detail of
        JArr ds \<Rightarrow> list_all (\<lambda>d. field d ''msg'' \<noteq> None) ds
      | _ \<Rightarrow> False)"

definition loc_root :: "json \<Rightarrow> bool" where
  "loc_root p \<longleftrightarrow> p \<in> {JStr ''body'', JStr ''query'', JStr ''path''}"

definition loc_parts :: "json list \<Rightarrow> json list" where
  "loc_parts ps = (case ps of [] \<Rightarrow> [] | p # rest \<Rightarrow> if loc_root p then rest else p # rest)"

definition locPath :: "json option \<Rightarrow> string option" where
  "locPath loc =
     (case loc of
        None \<Rightarrow> Some []
      | Some JNull \<Rightarrow> Some []
      | Some (JArr ps) \<Rightarrow> Some (join ''.'' (array_pieces (loc_parts ps)))
      | _ \<Rightarrow> None)"

definition issue_msg :: "json option \<Rightarrow> string option" where
  "issue_msg m =
     (case m of
        None \<Rightarrow> Some []
      | Some JNull \<Rightarrow> Some []
      | Some (JStr s) \<Rightarrow> Some (strip_value_error s)
      | _ \<Rightarrow> None)"

definition issue_line :: "json \<Rightarrow> string option" where
  "issue_line d =
     Option.bind (locPath (field d ''loc'')) (\<lambda>path.
       map_option (\<lambda>msg. if path \<noteq> [] then path @ '': '' @ msg else msg) (issue_msg (field d ''msg'')))"

fun all_of :: "'a option list \<Rightarrow> 'a list option" where
  "all_of [] = Some []"
| "all_of (x # xs) = Option.bind x (\<lambda>y. map_option ((#) y) (all_of xs))"

definition detail_of :: "json option \<Rightarrow> json option" where
  "detail_of body = Option.bind body (\<lambda>b. field b ''detail'')"

text \<open>Outer None: throws. Inner None: undefined.\<close>

definition extractDetail :: "json option \<Rightarrow> string option option" where
  "extractDetail body =
     (case detail_of body of
        None \<Rightarrow> Some None
      | Some (JStr s) \<Rightarrow> Some (Some s)
      | Some detail \<Rightarrow>
          if isValidationList detail
          then map_option (\<lambda>lines. Some (join ''; '' lines)) (all_of (map issue_line (the (as_arr (Some detail)))))
          else Some None)"

text \<open>\<open>path in out\<close> is also true for the names every object inherits.\<close>

definition OBJECT_NAMES :: "string list" where
  "OBJECT_NAMES =
     [''constructor'', ''toString'', ''toLocaleString'', ''valueOf'', ''hasOwnProperty'', ''isPrototypeOf'',
      ''propertyIsEnumerable'', ''__proto__'', ''__defineGetter__'', ''__defineSetter__'', ''__lookupGetter__'', ''__lookupSetter__'']"

fun field_errors_from :: "string dict \<Rightarrow> json list \<Rightarrow> string dict option" where
  "field_errors_from out [] = Some out"
| "field_errors_from out (d # ds) =
     (case locPath (field d ''loc'') of
        None \<Rightarrow> None
      | Some path \<Rightarrow>
          if path \<noteq> [] \<and> \<not> dict_has out path \<and> path \<notin> set OBJECT_NAMES
          then (case issue_msg (field d ''msg'') of
                  None \<Rightarrow> None
                | Some msg \<Rightarrow> field_errors_from (dict_set path msg out) ds)
          else field_errors_from out ds)"

definition extractFieldErrors :: "json option \<Rightarrow> string dict option" where
  "extractFieldErrors body =
     (case detail_of body of
        None \<Rightarrow> Some []
      | Some detail \<Rightarrow>
          if isValidationList detail then field_errors_from [] (the (as_arr (Some detail))) else Some [])"

section \<open>A request\<close>

datatype http_method = GET | POST | PATCH | PUT | DELETE

record api_context =
  cx_accessToken :: "string option"
  cx_tenantId :: "string option"

record api_request =
  rq_url :: string
  rq_method :: http_method
  rq_headers :: "string dict"
  rq_body :: "string option"

record fetch_response =
  fr_ok :: bool
  fr_status :: nat
  fr_statusText :: "string option"
  fr_total :: "string option"
  fr_text :: string

datatype 'a sent =
    Sent 'a
  | Api_error nat string "json option" "string dict"
  | Syntax_error
  | Type_error
  | Network_error

definition request_headers :: "api_context \<Rightarrow> string dict" where
  "request_headers ctx =
     (let h = [(''Content-Type'', ''application/json'')];
          h1 = (case cx_accessToken ctx of Some t \<Rightarrow> if t = [] then h else dict_set ''Authorization'' (''Bearer '' @ t) h | None \<Rightarrow> h)
      in (case cx_tenantId ctx of Some t \<Rightarrow> if t = [] then h1 else dict_set ''X-Tenant-Id'' t h1 | None \<Rightarrow> h1))"

definition api_request_of :: "string \<Rightarrow> http_method \<Rightarrow> string \<Rightarrow> api_context \<Rightarrow> json option \<Rightarrow> api_request" where
  "api_request_of baseUrl m path ctx body =
     \<lparr>rq_url = baseUrl @ path, rq_method = m, rq_headers = request_headers ctx,
      rq_body = map_option (stringify []) body\<rparr>"

text \<open>The error of a response that is not ok; \<open>??\<close> keeps an empty message.\<close>

definition request_error :: "fetch_response \<Rightarrow> json option \<Rightarrow> 'a sent" where
  "request_error res data =
     (case (extractDetail data, extractFieldErrors data) of
        (Some detail, Some fs) \<Rightarrow>
          Api_error (fr_status res)
            (case detail of Some m \<Rightarrow> m | None \<Rightarrow> (case fr_statusText res of Some t \<Rightarrow> t | None \<Rightarrow> ''Request failed''))
            data fs
      | _ \<Rightarrow> Type_error)"

definition read_response :: "fetch_response \<Rightarrow> (json option \<times> fetch_response) sent" where
  "read_response res =
     (if fr_status res = 204 then Sent (None, res)
      else case (if fr_text res = [] then Some None else map_option Some (json_parse (fr_text res))) of
        None \<Rightarrow> Syntax_error
      | Some data \<Rightarrow> if fr_ok res then Sent (data, res) else request_error res data)"

definition send_call ::
    "(api_request \<Rightarrow> fetch_response option) \<Rightarrow> string \<Rightarrow> http_method \<Rightarrow> string \<Rightarrow> api_context \<Rightarrow> json option
      \<Rightarrow> (json option \<times> fetch_response) sent" where
  "send_call fetchFn baseUrl m path ctx body =
     (case fetchFn (api_request_of baseUrl m path ctx body) of
        None \<Rightarrow> Network_error
      | Some res \<Rightarrow> read_response res)"

fun map_sent :: "('a \<Rightarrow> 'b) \<Rightarrow> 'a sent \<Rightarrow> 'b sent" where
  "map_sent f (Sent x) = Sent (f x)"
| "map_sent f (Api_error st m b fs) = Api_error st m b fs"
| "map_sent f Syntax_error = Syntax_error"
| "map_sent f Type_error = Type_error"
| "map_sent f Network_error = Network_error"

definition request ::
    "(api_request \<Rightarrow> fetch_response option) \<Rightarrow> string \<Rightarrow> http_method \<Rightarrow> string \<Rightarrow> api_context \<Rightarrow> json option \<Rightarrow> json option sent" where
  "request fetchFn baseUrl m path ctx body = map_sent fst (send_call fetchFn baseUrl m path ctx body)"

record api_page =
  pg_items :: json
  pg_total :: jsnum

definition js_length :: "json \<Rightarrow> jsnum" where
  "js_length v = (case v of JArr xs \<Rightarrow> Fin (of_nat (length xs)) | JStr s \<Rightarrow> Fin (of_nat (length s)) | _ \<Rightarrow> NaN)"

text \<open>\<open>Number(null)\<close> is 0.\<close>

definition header_number :: "string option \<Rightarrow> jsnum" where
  "header_number h = (case h of None \<Rightarrow> Fin 0 | Some s \<Rightarrow> to_number s)"

definition getPage ::
    "(api_request \<Rightarrow> fetch_response option) \<Rightarrow> string \<Rightarrow> string \<Rightarrow> api_context \<Rightarrow> api_page sent" where
  "getPage fetchFn baseUrl path ctx =
     map_sent (\<lambda>(data, res).
         let items = (case data of None \<Rightarrow> JArr [] | Some JNull \<Rightarrow> JArr [] | Some v \<Rightarrow> v);
             total = header_number (fr_total res)
         in \<lparr>pg_items = items, pg_total = (if is_finite total then total else js_length items)\<rparr>)
       (send_call fetchFn baseUrl GET path ctx None)"

section \<open>useApi.ts\<close>

definition ends_with :: "string \<Rightarrow> string \<Rightarrow> bool" where
  "ends_with s p \<longleftrightarrow> starts_with (rev s) (rev p)"

definition revalidateAfterWrite :: "string \<Rightarrow> bool" where
  "revalidateAfterWrite key \<longleftrightarrow> \<not> contains key ''/data?metric='' \<and> \<not> ends_with key ''/latest''"

definition reply_of :: "'a sent \<Rightarrow> 'a reply" where
  "reply_of r = (case r of Sent x \<Rightarrow> Good x | Api_error st m b fs \<Rightarrow> Bad st | _ \<Rightarrow> Lost)"

text \<open>A call through \<open>withRetry\<close>: the session after it, its reply, and whether the cached keys are
  revalidated. \<open>get\<close> and \<open>query\<close> read; the others write.\<close>

definition api_call ::
    "bool \<Rightarrow> (api_request \<Rightarrow> fetch_response option) \<Rightarrow> string \<Rightarrow> http_method \<Rightarrow> string \<Rightarrow> json option \<Rightarrow>
     (nat \<Rightarrow> string \<Rightarrow> outcome) \<Rightarrow> session \<Rightarrow> session \<times> json option reply \<times> bool" where
  "api_call writes fetchFn baseUrl m path body api s =
     (case withRetry
             (\<lambda>tok. reply_of (request fetchFn baseUrl m path
                \<lparr>cx_accessToken = tok, cx_tenantId = au_tenant (se_state s)\<rparr> body)) api s of
        (s', r, _) \<Rightarrow> (s', r, writes \<and> (case r of Good _ \<Rightarrow> True | _ \<Rightarrow> False)))"

section \<open>What a form gets to see\<close>

text \<open>
  A \<open>ValidationError\<close> of the backend (packages/shared/src/api.ts): its type, place and message, and
  what else it carries, such as the input and the context.
\<close>

record api_issue =
  is_type :: string
  is_loc :: "json list"
  is_msg :: string
  is_more :: "(string \<times> json) list"

definition issue_json :: "api_issue \<Rightarrow> json" where
  "issue_json i = JObj ([(''type'', JStr (is_type i)), (''loc'', JArr (is_loc i)), (''msg'', JStr (is_msg i))] @ is_more i)"

definition error_body :: "api_issue list \<Rightarrow> json" where
  "error_body is = JObj [(''detail'', JArr (map issue_json is))]"

definition issue_path :: "api_issue \<Rightarrow> string" where
  "issue_path i = join ''.'' (array_pieces (loc_parts (is_loc i)))"

definition issue_text :: "api_issue \<Rightarrow> string" where
  "issue_text i =
     (if issue_path i \<noteq> [] then issue_path i @ '': '' @ strip_value_error (is_msg i) else strip_value_error (is_msg i))"

lemma issue_fields [simp]:
  "field (issue_json i) ''loc'' = Some (JArr (is_loc i))" "field (issue_json i) ''msg'' = Some (JStr (is_msg i))"
  by (simp_all add: issue_json_def)

lemma issue_parts [simp]:
  "locPath (Some (JArr (is_loc i))) = Some (issue_path i)" "issue_msg (Some (JStr s)) = Some (strip_value_error s)"
  by (simp_all add: locPath_def issue_path_def issue_msg_def)

lemma issue_lines: "all_of (map issue_line (map issue_json is)) = Some (map issue_text is)"
  by (induction "is") (auto simp: issue_line_def issue_text_def)

lemma error_body_detail:
  "detail_of (Some (error_body is)) = Some (JArr (map issue_json is))" "isValidationList (JArr (map issue_json is))"
  by (auto simp: detail_of_def error_body_def isValidationList_def list_all_iff)

lemma field_errors_issues:
  "\<exists>fs. field_errors_from out (map issue_json is) = Some fs \<and>
     (\<forall>p. dict_get fs p =
        (if dict_has out p then dict_get out p
         else if p = [] \<or> p \<in> set OBJECT_NAMES then None
         else map_option (\<lambda>i. strip_value_error (is_msg i)) (List.find (\<lambda>i. issue_path i = p) is)))"
proof (induction "is" arbitrary: out)
  case (Cons i rest)
  let ?new = "issue_path i \<noteq> [] \<and> \<not> dict_has out (issue_path i) \<and> issue_path i \<notin> set OBJECT_NAMES"
  show ?case
  proof (cases ?new)
    case True
    then show ?thesis
      using Cons.IH [of "dict_set (issue_path i) (strip_value_error (is_msg i)) out"] by auto
  next
    case False
    then have "field_errors_from out (map issue_json (i # rest)) = field_errors_from out (map issue_json rest)"
      by auto
    then show ?thesis using Cons.IH [of out] False by auto
  qed
qed auto

text \<open>C39: When FastAPI answers with a list of validation issues, each with its place, its message
  and its type and with whatever else it carries, the call ends as an
  \<open>ApiRequestError\<close> with its status, whose message lists every issue with its dotted path, and
  whose field errors hold for each path the message of its first issue, without the
  \<open>Value error\<close> prefix, and nothing for any other path.\<close>

theorem validation_errors_reach_fields:
  assumes "json_ok (error_body is)" "\<not> fr_ok res" "fr_status res \<noteq> 204" "fr_text res = stringify [] (error_body is)"
  shows "case send_call (\<lambda>rq. Some res) baseUrl m path ctx body of
     Api_error st message data fs \<Rightarrow>
       st = fr_status res \<and> message = join ''; '' (map issue_text is) \<and> data = Some (error_body is) \<and>
       dict_get fs p =
         (if p = [] \<or> p \<in> set OBJECT_NAMES then None
          else map_option (\<lambda>i. strip_value_error (is_msg i)) (List.find (\<lambda>i. issue_path i = p) is))
   | _ \<Rightarrow> False"
proof -
  have parse: "json_parse (fr_text res) = Some (error_body is)"
    using json_parse_stringify [OF assms(1), of "[]"] assms(4) by (simp add: white_def)
  have "json_parse [] = None" by code_simp
  then have ne: "fr_text res \<noteq> []" using parse by auto
  obtain fs where fs: "extractFieldErrors (Some (error_body is)) = Some fs"
    "\<And>p. dict_get fs p = (if p = [] \<or> p \<in> set OBJECT_NAMES then None
          else map_option (\<lambda>i. strip_value_error (is_msg i)) (List.find (\<lambda>i. issue_path i = p) is))"
    using field_errors_issues [of "[]" "is"]
    by (auto simp: extractFieldErrors_def error_body_detail as_arr_def)
  have d: "extractDetail (Some (error_body is)) = Some (Some (join ''; '' (map issue_text is)))"
    using issue_lines [of "is"] by (simp add: extractDetail_def error_body_detail as_arr_def)
  show ?thesis
    using assms(2,3) ne by (simp add: send_call_def read_response_def parse request_error_def d fs)
qed

text \<open>A page of a feed carries the number of its X-Total-Count header whenever the server sends
  one; when the header is missing or hidden, the total is 0 whatever rows came, and the fallback to
  the number of rows is only reached by a header that is not a number.\<close>

theorem page_total:
  assumes "fr_ok res" "fr_status res \<noteq> 204" "fr_text res = stringify [] (JArr rows)" "json_ok (JArr rows)"
  shows "case getPage (\<lambda>rq. Some res) baseUrl path ctx of
     Sent page \<Rightarrow> pg_items page = JArr rows \<and>
       pg_total page =
         (case fr_total res of
            None \<Rightarrow> Fin 0
          | Some h \<Rightarrow> if is_finite (to_number h) then to_number h else Fin (of_nat (length rows)))
   | _ \<Rightarrow> False"
proof -
  have parse: "json_parse (fr_text res) = Some (JArr rows)"
    using json_parse_stringify [OF assms(4), of "[]"] assms(3) by (simp add: white_def)
  have "json_parse [] = None" by code_simp
  then have ne: "fr_text res \<noteq> []" using parse by auto
  show ?thesis
    using assms(1,2) ne
    by (simp add: getPage_def send_call_def read_response_def parse header_number_def js_length_def is_finite_def Let_def split: option.split)
qed

text \<open>An error page that is not JSON never becomes an \<open>ApiRequestError\<close>, whatever its status.\<close>

lemma html_error_is_syntax_error:
  "fr_status res = 502 \<Longrightarrow> fr_text res = ''<html>'' \<Longrightarrow> read_response res = Syntax_error"
proof -
  have "json_parse ''<html>'' = None" by code_simp
  then show "fr_status res = 502 \<Longrightarrow> fr_text res = ''<html>'' \<Longrightarrow> read_response res = Syntax_error"
    by (simp add: read_response_def)
qed

definition demo_issues :: "api_issue list" where
  "demo_issues =
     [\<lparr>is_type = ''value_error'', is_loc = [JStr ''body'', JStr ''metrics'', JNum (Fin 0), JStr ''key''],
       is_msg = ''Value error, Bad key'', is_more = [(''input'', JStr ''a b''), (''ctx'', JObj [(''error'', JObj [])])]\<rparr>,
      \<lparr>is_type = ''missing'', is_loc = [JStr ''body'', JStr ''name''], is_msg = ''Field required'', is_more = [(''input'', JObj [])]\<rparr>]"

lemma validation_errors_reach_fields_witness:
  "case send_call (\<lambda>rq. Some \<lparr>fr_ok = False, fr_status = 422, fr_statusText = None, fr_total = None,
       fr_text = stringify [] (error_body demo_issues)\<rparr>) ''/api'' POST ''/catalog'' \<lparr>cx_accessToken = None, cx_tenantId = None\<rparr> None of
     Api_error st message data fs \<Rightarrow> st = 422 \<and> dict_get fs ''name'' = Some ''Field required''
   | _ \<Rightarrow> False"
proof -
  have "json_ok (error_body demo_issues)" by (simp add: demo_issues_def error_body_def issue_json_def)
  moreover have "List.find (\<lambda>i. issue_path i = ''name'') demo_issues = Some (demo_issues ! 1)"
    by (simp add: demo_issues_def issue_path_def loc_parts_def loc_root_def)
  moreover have "is_msg (demo_issues ! 1) = ''Field required''" by (simp add: demo_issues_def)
  moreover have "''name'' \<notin> set OBJECT_NAMES" by (simp add: OBJECT_NAMES_def)
  ultimately show ?thesis
    using validation_errors_reach_fields [where ?is = demo_issues and res = "\<lparr>fr_ok = False, fr_status = 422, fr_statusText = None, fr_total = None,
       fr_text = stringify [] (error_body demo_issues)\<rparr>" and baseUrl = "''/api''" and m = POST and path = "''/catalog''"
         and ctx = "\<lparr>cx_accessToken = None, cx_tenantId = None\<rparr>" and body = None and p = "''name''"]
    by (simp add: strip_value_error_def VALUE_ERROR_def starts_with_def split: sent.splits)
qed

lemma page_total_witness:
  "case getPage (\<lambda>rq. Some \<lparr>fr_ok = True, fr_status = 200, fr_statusText = None, fr_total = None,
       fr_text = stringify [] (JArr [JNull, JNull])\<rparr>) [] ''/feed'' \<lparr>cx_accessToken = None, cx_tenantId = None\<rparr> of
     Sent page \<Rightarrow> pg_items page = JArr [JNull, JNull] \<and> pg_total page = Fin 0 | _ \<Rightarrow> False"
  using page_total [where res = "\<lparr>fr_ok = True, fr_status = 200, fr_statusText = None, fr_total = None,
      fr_text = stringify [] (JArr [JNull, JNull])\<rparr>" and rows = "[JNull, JNull]" and baseUrl = "[]" and path = "''/feed''"
      and ctx = "\<lparr>cx_accessToken = None, cx_tenantId = None\<rparr>"]
  by (simp split: sent.splits)

end
