(* ===== verification/Utf16.thy ===== *)
theory Utf16 imports Prelude begin

text \<open>
  What JavaScript counts in a text: a string here is its UTF-8 bytes, a JavaScript string its UTF-16
  units, so a length, a cut at an index and a class of single units need the units of each byte.
\<close>

text \<open>The units a byte of UTF-8 stands for: a continuation byte none, the lead of four bytes two.\<close>

definition units :: "char \<Rightarrow> nat" where
  "units c = (let n = char_code c in if 128 \<le> n \<and> n < 192 then 0 else if 240 \<le> n then 2 else 1)"

definition utf16_length :: "string \<Rightarrow> nat" where
  "utf16_length s = sum_list (map units s)"

fun utf16_take :: "nat \<Rightarrow> string \<Rightarrow> string" where
  "utf16_take n [] = []"
| "utf16_take n (c # cs) = (if n < units c then [] else c # utf16_take (n - units c) cs)"

lemma utf16_simps [simp]:
  "utf16_length [] = 0" "utf16_length (c # cs) = units c + utf16_length cs" "utf16_length (s @ t) = utf16_length s + utf16_length t"
  by (simp_all add: utf16_length_def)

lemma utf16_at_most: "utf16_length s \<le> 2 * length s"
  by (induction s) (auto simp: units_def Let_def)

end
