(* ===== verification/Wire.thy ===== *)
theory Wire imports Json Utf16 begin

text \<open>
  Names on the wire: \<open>slugify\<close>, \<open>wireId\<close> (\<open>packages/shared/src/slug.ts\<close>, \<open>wire-id.ts\<close>), the
  catalog entries they name (\<open>api.ts\<close>), and the provisioning QR (\<open>provisioning-qr.ts\<close>): the
  board's BLE name, the payload the dashboard shows and the reader of the phone app.
  \<open>normalize("NFD")\<close> is a parameter: what remains of the code acts on its result.
\<close>

section \<open>Slugs\<close>

definition slug_char :: "char \<Rightarrow> bool" where
  "slug_char c \<longleftrightarrow> is_lower c \<or> is_digit c"

text \<open>\<open>replace(/[^a-z0-9]+/g, "-")\<close>, then without dashes at the ends.\<close>

definition slugify :: "string \<Rightarrow> string \<Rightarrow> string" where
  "slugify name fallback =
     or_else (join ''-'' (non_empty (split_runs (\<lambda>c. \<not> slug_char c) (lower_case (trim name))))) fallback"

record wire_named =
  wn_name :: string
  wn_key :: "string option"

definition wireId :: "string \<Rightarrow> string option \<Rightarrow> string" where
  "wireId name key = (case key of Some k \<Rightarrow> or_else k (slugify name '''') | None \<Rightarrow> slugify name '''')"

section \<open>Catalog entries\<close>

datatype data_type = FloatD | BoolD
datatype value_type = BoolV | FloatV | StringV
datatype publish_mode = Periodic | On_change | Streaming

record catalog_metric =
  cm_name :: string
  cm_key :: "string option"
  cm_unit :: "string option"
  cm_data_type :: data_type
  cm_decimals :: "nat option"
  cm_min :: "jsnum option"
  cm_max :: "jsnum option"
  cm_publish :: publish_mode
  cm_interval :: "jsnum option"
  cm_deadband :: "jsnum option"

record catalog_actuator =
  ca_name :: string
  ca_key :: "string option"
  ca_value_type :: value_type
  ca_allowed :: "json list option"
  ca_on_value :: "json option"
  ca_off_value :: "json option"

abbreviation metric_id :: "catalog_metric \<Rightarrow> string" where "metric_id m \<equiv> wireId (cm_name m) (cm_key m)"
abbreviation actuator_id :: "catalog_actuator \<Rightarrow> string" where "actuator_id a \<equiv> wireId (ca_name a) (ca_key a)"

section \<open>Provisioning\<close>

definition printable :: "char \<Rightarrow> bool" where
  "printable c \<longleftrightarrow> 32 \<le> char_code c \<and> char_code c \<le> 126"

text \<open>\<open>s.replace(/\s+/g, " ")\<close>.\<close>

fun squeeze :: "string \<Rightarrow> string" where
  "squeeze [] = []"
| "squeeze (c # cs) =
     (if is_space c
      then (case cs of [] \<Rightarrow> '' '' | d # _ \<Rightarrow> if is_space d then squeeze cs else CHR '' '' # squeeze cs)
      else c # squeeze cs)"

text \<open>\<open>ascii\<close> is the name decomposed (NFD) with its combining marks removed; a unit that is not printable becomes a dash.\<close>

definition provName :: "(string \<Rightarrow> string) \<Rightarrow> string \<Rightarrow> string" where
  "provName ascii deviceName =
     trim (take 29 (or_else (trim (squeeze (concat (map (\<lambda>c. if printable c then [c] else replicate (units c) (CHR ''-'')) (ascii deviceName))))) ''iot-device''))"

datatype security = Sec0 | Sec1 | Sec2

definition provisioningPayload :: "string \<Rightarrow> string \<Rightarrow> string \<Rightarrow> security \<Rightarrow> string" where
  "provisioningPayload name username password sec =
     stringify [] (JObj
       (if sec = Sec2
        then [(''ver'', JStr ''v1''), (''name'', JStr name), (''username'', JStr username), (''pop'', JStr password),
              (''transport'', JStr ''ble''), (''network'', JStr ''wifi''), (''security'', JNum (Fin 2))]
        else [(''ver'', JStr ''v1''), (''name'', JStr name), (''pop'', JStr password),
              (''transport'', JStr ''ble''), (''network'', JStr ''wifi''), (''security'', JNum (Fin 1))]))"

record provisioning_qr =
  pq_name :: string
  pq_pop :: string
  pq_username :: "string option"
  pq_security :: security

text \<open>\<open>Number(v)\<close> of a JSON value.\<close>

fun json_number_of :: "json \<Rightarrow> jsnum" where
  "json_number_of JNull = Fin 0"
| "json_number_of (JBool b) = Fin (if b then 1 else 0)"
| "json_number_of (JNum n) = n"
| "json_number_of (JStr s) = to_number s"
| "json_number_of (JArr xs) = to_number (join '','' (array_pieces xs))"
| "json_number_of (JObj kvs) = NaN"

definition security_of :: "json option \<Rightarrow> security option" where
  "security_of v =
     (let n = (case v of None \<Rightarrow> Fin 2 | Some j \<Rightarrow> json_number_of j) in
      if n = Fin 0 then Some Sec0 else if n = Fin 1 then Some Sec1 else if n = Fin 2 then Some Sec2 else None)"

definition parseProvisioningQr :: "string \<Rightarrow> provisioning_qr option" where
  "parseProvisioningQr txt =
     (case json_parse txt of None \<Rightarrow> None
      | Some o1 \<Rightarrow>
          (case as_str (field o1 ''name'') of None \<Rightarrow> None
           | Some name \<Rightarrow>
               if name = [] then None
               else if field o1 ''transport'' \<noteq> None \<and> field o1 ''transport'' \<noteq> Some (JStr ''ble'') then None
               else (case security_of (field o1 ''security'') of None \<Rightarrow> None
                | Some sec \<Rightarrow>
                   (let pop = (case as_str (field o1 ''pop'') of Some p \<Rightarrow> p | None \<Rightarrow> '''');
                        username = (case as_str (field o1 ''username'') of Some u \<Rightarrow> if u = [] then None else Some u | None \<Rightarrow> None)
                    in
                    if sec \<noteq> Sec0 \<and> pop = [] then None
                    else if sec = Sec2 \<and> username = None then None
                    else Some \<lparr>pq_name = name, pq_pop = pop, pq_username = username, pq_security = sec\<rparr>))))"

section \<open>What a slug looks like\<close>

lemma split_runs_not_Nil [simp]: "split_runs p s \<noteq> []"
  by (induction s) auto

lemma split_runs_pieces: "w \<in> set (split_runs p s) \<Longrightarrow> c \<in> set w \<Longrightarrow> \<not> p c \<and> c \<in> set s"
proof (induction s arbitrary: w c)
  case (Cons x xs)
  obtain u us where u: "split_runs p xs = u # us" by (cases "split_runs p xs") auto
  have IH: "\<not> p d \<and> d \<in> set xs" if "v \<in> set (u # us)" "d \<in> set v" for v d
    using Cons.IH [of v d] that u by simp
  have "w = [] \<or> w \<in> set (u # us) \<or> \<not> p x \<and> w = x # u"
    using Cons.prems(1) by (auto simp: u split: if_splits)
  then show ?case using Cons.prems(2) IH [of w c] IH [of u c] by auto
qed simp

definition dashed :: "string \<Rightarrow> bool" where
  "dashed s \<longleftrightarrow> (s = [] \<or> slug_char (hd s) \<and> slug_char (last s) \<and> list_all (\<lambda>c. slug_char c \<or> c = CHR ''-'') s)"

lemma join_dashed:
  "(\<And>w. w \<in> set ws \<Longrightarrow> w \<noteq> [] \<and> list_all slug_char w) \<Longrightarrow> dashed (join ''-'' ws) \<and> (join ''-'' ws = [] \<longleftrightarrow> ws = [])"
proof (induction "''-''" ws rule: join.induct)
  case (2 w)
  then show ?case by (auto simp: dashed_def list_all_iff)
next
  case (3 w v ws)
  have "dashed (join ''-'' (v # ws)) \<and> (join ''-'' (v # ws) = [] \<longleftrightarrow> v # ws = [])"
    by (rule 3(1)) (use 3(2) in auto)
  then have d: "dashed (join ''-'' (v # ws))" "join ''-'' (v # ws) \<noteq> []" by auto
  moreover have "w \<noteq> []" "list_all slug_char w" using 3(2) by auto
  ultimately show ?case by (auto simp: dashed_def list_all_iff hd_append last_append)
qed (simp add: dashed_def)

text \<open>
  A slug made from a name is empty or made of lower-case letters, digits and inner
  dashes, beginning and ending with a letter or digit, so it is one topic segment.
\<close>

theorem slugify_shape: "dashed (slugify name '''')"
proof -
  have "dashed (join ''-'' (non_empty (split_runs (\<lambda>c. \<not> slug_char c) (lower_case (trim name)))))"
    by (rule join_dashed [THEN conjunct1]) (auto simp: non_empty_def list_all_iff dest: split_runs_pieces)
  then show ?thesis by (simp add: slugify_def or_else_def)
qed

section \<open>The QR is read back\<close>

text \<open>
  C29: the phone app reads from the dashboard's QR the name, the proof of possession, the
  security level and (for level 2) the user name that were put in, whatever characters they hold,
  for a name and password that are not empty.
\<close>

theorem provisioning_roundtrip:
  assumes "name \<noteq> []" "password \<noteq> []" "sec = Sec1 \<or> sec = Sec2 \<and> username \<noteq> []"
  shows "parseProvisioningQr (provisioningPayload name username password sec) =
         Some \<lparr>pq_name = name, pq_pop = password, pq_username = (if sec = Sec2 then Some username else None), pq_security = sec\<rparr>"
proof -
  have s: "short_decimal 1" "short_decimal 2" using short_decimal_of_int [of 1] short_decimal_of_int [of 2] by simp_all
  note read = parseProvisioningQr_def provisioningPayload_def
  show ?thesis
  proof (cases "sec = Sec2")
    case True
    let ?o = "JObj [(''ver'', JStr ''v1''), (''name'', JStr name), (''username'', JStr username), (''pop'', JStr password),
        (''transport'', JStr ''ble''), (''network'', JStr ''wifi''), (''security'', JNum (Fin 2))]"
    have p: "json_parse (stringify [] ?o) = Some ?o" by (rule compact.parse_print) (simp add: s)
    show ?thesis using True assms unfolding read by (simp add: p as_str_def security_of_def Let_def)
  next
    case False
    then have sec: "sec = Sec1" using assms(3) by simp
    let ?o = "JObj [(''ver'', JStr ''v1''), (''name'', JStr name), (''pop'', JStr password),
        (''transport'', JStr ''ble''), (''network'', JStr ''wifi''), (''security'', JNum (Fin 1))]"
    have p: "json_parse (stringify [] ?o) = Some ?o" by (rule compact.parse_print) (simp add: s)
    show ?thesis using assms unfolding read sec by (simp add: p as_str_def security_of_def Let_def)
  qed
qed

lemma provisioning_roundtrip_witness:
  "parseProvisioningQr (provisioningPayload ''greenhouse'' ''dev-1'' ''s3cret'' Sec2) =
   Some \<lparr>pq_name = ''greenhouse'', pq_pop = ''s3cret'', pq_username = Some ''dev-1'', pq_security = Sec2\<rparr>"
  using provisioning_roundtrip [of "''greenhouse''" "''s3cret''" Sec2 "''dev-1''"] by simp

text \<open>The BLE name fits in 29 bytes, with no white space at its ends.\<close>

lemma provName_fits: "length (provName ascii n) \<le> 29 \<and> trim (provName ascii n) = provName ascii n"
proof -
  have l: "length (trim s) \<le> length s" for s
    unfolding trim_def length_rev using length_dropWhile_le [of is_space s] length_dropWhile_le [of is_space "rev (dropWhile is_space s)"]
    by simp
  then have "length (trim (take 29 s)) \<le> 29" for s
    using l [of "take 29 s"] by simp
  then show ?thesis unfolding provName_def by simp
qed

end
