(* ===== verification/Boards.thy ===== *)
theory Boards imports Wire begin

text \<open>
  The chips, the boards and the pins (\<open>firmware-sketch.ts\<close>'s \<open>CHIPS\<close>, \<open>BOARDS\<close>, \<open>defaultPins\<close>
  and \<open>pinClashes\<close>; \<open>hardware/board-pins.ts\<close>; \<open>hardware/driver-catalog.ts\<close>).  The board models
  and the drivers are data of the published release, so they are arguments.  GPIO numbers are naturals.
\<close>

section \<open>Chips and their pools\<close>

datatype board = Esp32 | Esp32c3 | Esp32s3 | Esp32c6 | Esp32s2

definition CHIPS :: "board list" where
  "CHIPS = [Esp32, Esp32c3, Esp32s3, Esp32c6, Esp32s2]"

fun chip_name :: "board \<Rightarrow> string" where
  "chip_name Esp32 = ''esp32''"
| "chip_name Esp32c3 = ''esp32c3''"
| "chip_name Esp32s3 = ''esp32s3''"
| "chip_name Esp32c6 = ''esp32c6''"
| "chip_name Esp32s2 = ''esp32s2''"

definition board_named :: "string \<Rightarrow> board option" where
  "board_named s = List.find (\<lambda>b. chip_name b = s) CHIPS"

record board_pools =
  bp_label :: string
  bp_ble :: bool
  bp_resetPin :: nat
  bp_resetButton :: string
  bp_inputs :: "nat list"
  bp_outputs :: "nat list"

fun BOARDS :: "board \<Rightarrow> board_pools" where
  "BOARDS Esp32 = \<lparr>bp_label = ''ESP32 DevKit'', bp_ble = True, bp_resetPin = 19,
     bp_resetButton = ''the button on GPIO 19 (wired to GND)'',
     bp_inputs = [4, 13, 14, 16, 17, 18], bp_outputs = [23, 27, 26, 25, 33, 32, 21, 22]\<rparr>"
| "BOARDS Esp32c3 = \<lparr>bp_label = ''ESP32-C3'', bp_ble = True, bp_resetPin = 9, bp_resetButton = ''BOOT'',
     bp_inputs = [4, 5, 6, 7, 10], bp_outputs = [3, 1, 0, 20, 21]\<rparr>"
| "BOARDS Esp32s3 = \<lparr>bp_label = ''ESP32-S3'', bp_ble = True, bp_resetPin = 0, bp_resetButton = ''BOOT'',
     bp_inputs = [4, 5, 6, 7, 15, 16, 17, 18], bp_outputs = [10, 11, 12, 13, 14, 21, 47, 8, 9]\<rparr>"
| "BOARDS Esp32c6 = \<lparr>bp_label = ''ESP32-C6'', bp_ble = True, bp_resetPin = 9, bp_resetButton = ''BOOT'',
     bp_inputs = [2, 3, 6, 7, 10, 11], bp_outputs = [18, 19, 20, 21, 14, 0, 1, 23, 22]\<rparr>"
| "BOARDS Esp32s2 = \<lparr>bp_label = ''ESP32-S2'', bp_ble = False, bp_resetPin = 0, bp_resetButton = ''the 0 (BOOT) button'',
     bp_inputs = [3, 4, 5, 6, 7, 8, 9, 10], bp_outputs = [11, 12, 13, 14, 16, 17, 18, 21, 33, 35]\<rparr>"

record chip_pins =
  cp_usable :: "nat list"
  cp_adc1 :: "nat list"
  cp_inputOnly :: "nat list"

fun CHIP_PINS :: "board \<Rightarrow> chip_pins" where
  "CHIP_PINS Esp32 = \<lparr>cp_usable = [4, 13, 14, 16, 17, 18, 21, 22, 23, 25, 26, 27, 32, 33, 34, 35, 36, 39],
     cp_adc1 = [32, 33, 34, 35, 36, 39], cp_inputOnly = [34, 35, 36, 39]\<rparr>"
| "CHIP_PINS Esp32c3 = \<lparr>cp_usable = [0, 1, 3, 4, 5, 6, 7, 10, 20, 21], cp_adc1 = [0, 1, 3, 4], cp_inputOnly = []\<rparr>"
| "CHIP_PINS Esp32s3 = \<lparr>cp_usable = [1, 2, 4, 5, 6, 7, 8, 9, 10, 11, 12, 13, 14, 15, 16, 17, 18, 21, 38, 39, 40, 41, 42, 47, 48],
     cp_adc1 = [1, 2, 4, 5, 6, 7, 8, 9, 10], cp_inputOnly = []\<rparr>"
| "CHIP_PINS Esp32c6 = \<lparr>cp_usable = [0, 1, 2, 3, 6, 7, 10, 11, 14, 18, 19, 20, 21, 22, 23],
     cp_adc1 = [0, 1, 2, 3, 6], cp_inputOnly = []\<rparr>"
| "CHIP_PINS Esp32s2 = \<lparr>cp_usable = [1, 2, 3, 4, 5, 6, 7, 8, 9, 10, 11, 12, 13, 14, 16, 17, 18, 21, 33, 34, 35, 36, 37, 38, 39, 40, 41, 42],
     cp_adc1 = [1, 2, 3, 4, 5, 6, 7, 8, 9, 10], cp_inputOnly = []\<rparr>"

section \<open>Drivers and board models\<close>

datatype pin_need = Input_n | Output_n | Adc1_n | Bus_n
datatype param_type = Int_p | Float_p | Bool_p | Enum_p
datatype param_value = PNum jsnum | PBool bool | PStr string
datatype driver_kind = Input_d | Output_d

record pin_spec =
  ps_role :: string
  ps_label :: string
  ps_needs :: pin_need

record param_spec =
  pr_key :: string
  pr_label :: string
  pr_type :: param_type
  pr_default :: param_value
  pr_min :: "jsnum option"
  pr_max :: "jsnum option"
  pr_options :: "string list option"

record channel_spec =
  ch_key :: string
  ch_label :: string
  ch_data_type :: "data_type option"
  ch_value_type :: "value_type option"
  ch_common :: "bool option"

record driver_spec =
  ds_id :: string
  ds_kind :: driver_kind
  ds_label :: string
  ds_pins :: "pin_spec list"
  ds_params :: "param_spec list"
  ds_channels :: "channel_spec list"
  ds_wiring :: "string list"
  ds_i2c :: bool
  ds_chips :: "board list option"

datatype led_type = Gpio_led | Rgb_led | No_led
datatype capability = Ble | Rgb_cap

record led_io =
  led_type :: "led_type option"
  led_pin :: nat
  led_active_low :: bool

record i2c_bus =
  i2c_sda :: nat
  i2c_scl :: nat

record board_model =
  m_id :: string
  m_chip :: board
  m_label :: string
  m_pins :: "nat list"
  m_pin_labels :: "string dict"
  m_i2c :: "i2c_bus option"
  m_reset_pin :: nat
  m_reset_label :: string
  m_led :: led_io
  m_capabilities :: "capability list option"
  m_notes :: "string list"

text \<open>Without a resolved board everything is offered; a driver without chips runs on all.\<close>

definition runsOn :: "driver_spec \<Rightarrow> board option \<Rightarrow> bool" where
  "runsOn spec chip \<longleftrightarrow>
     (case chip of None \<Rightarrow> True | Some c \<Rightarrow> (case ds_chips spec of None \<Rightarrow> True | Some cs \<Rightarrow> c \<in> set cs))"

definition driversFor :: "driver_spec list \<Rightarrow> board option \<Rightarrow> driver_spec list" where
  "driversFor drivers chip = filter (\<lambda>d. runsOn d chip) drivers"

definition hasCapability :: "board_model \<Rightarrow> capability \<Rightarrow> bool" where
  "hasCapability model c \<longleftrightarrow> c \<in> set (case m_capabilities model of Some cs \<Rightarrow> cs | None \<Rightarrow> [Ble])"

definition legacyModel :: "board \<Rightarrow> board_model" where
  "legacyModel chip =
     \<lparr>m_id = chip_name chip, m_chip = chip, m_label = bp_label (BOARDS chip), m_pins = cp_usable (CHIP_PINS chip),
      m_pin_labels = [], m_i2c = None, m_reset_pin = bp_resetPin (BOARDS chip), m_reset_label = bp_resetButton (BOARDS chip),
      m_led = \<lparr>led_type = Some Gpio_led, led_pin = (if chip = Esp32c3 then 8 else 2), led_active_low = (chip = Esp32c3)\<rparr>,
      m_capabilities = Some [Ble], m_notes = []\<rparr>"

definition legacyModels :: "string list \<Rightarrow> board_model list" where
  "legacyModels chips = map legacyModel (somes (map board_named chips))"

definition boardModels :: "board_model list option \<Rightarrow> string list \<Rightarrow> board_model list" where
  "boardModels models chips = (case models of Some ms \<Rightarrow> ms | None \<Rightarrow> legacyModels chips)"

definition findDriver :: "driver_spec list \<Rightarrow> string \<Rightarrow> driver_spec option" where
  "findDriver drivers i = List.find (\<lambda>d. ds_id d = i) drivers"

section \<open>Pins of a board\<close>

definition resolveModel :: "board_model list \<Rightarrow> string \<Rightarrow> board_model option" where
  "resolveModel models i =
     (case List.find (\<lambda>m. m_id m = i) models of Some m \<Rightarrow> Some m
      | None \<Rightarrow> List.find (\<lambda>m. chip_name (m_chip m) = i) models)"

definition pinsFor :: "board_model \<Rightarrow> pin_need \<Rightarrow> nat list" where
  "pinsFor model needs =
     (let chip = CHIP_PINS (m_chip model); usable = filter (\<lambda>p. p \<in> set (cp_usable chip)) (m_pins model) in
      case needs of
        Adc1_n \<Rightarrow> filter (\<lambda>p. p \<in> set (cp_adc1 chip)) usable
      | Output_n \<Rightarrow> filter (\<lambda>p. p \<notin> set (cp_inputOnly chip)) usable
      | Bus_n \<Rightarrow> filter (\<lambda>p. p \<notin> set (cp_inputOnly chip)) usable
      | Input_n \<Rightarrow> usable)"

definition preferredPins :: "board_model \<Rightarrow> pin_need \<Rightarrow> nat list" where
  "preferredPins model needs =
     (let allowed = pinsFor model needs; pools = BOARDS (m_chip model);
          pool = (case needs of Output_n \<Rightarrow> bp_outputs pools | Bus_n \<Rightarrow> bp_outputs pools
                  | Input_n \<Rightarrow> bp_inputs pools | Adc1_n \<Rightarrow> [])
      in filter (\<lambda>p. p \<in> set allowed) pool @ filter (\<lambda>p. p \<notin> set pool) allowed)"

definition pinProblem :: "board_model \<Rightarrow> pin_need \<Rightarrow> nat \<Rightarrow> string option" where
  "pinProblem model needs pin =
     (let chip = CHIP_PINS (m_chip model) in
      if pin \<notin> set (m_pins model) \<or> pin \<notin> set (cp_usable chip)
      then Some (''GPIO '' @ nat_text pin @ '' isn'' @ [CHR 0x27] @ ''t free on the '' @ m_label model @ ''. Pick another pin.'')
      else if needs = Adc1_n \<and> pin \<notin> set (cp_adc1 chip)
      then Some (''GPIO '' @ nat_text pin @ '' can'' @ [CHR 0x27] @ ''t read analog while Wi-Fi is on. Pick an ADC1 pin.'')
      else if (needs = Output_n \<or> needs = Bus_n) \<and> pin \<in> set (cp_inputOnly chip)
      then Some (''GPIO '' @ nat_text pin @ '' is input-only. Pick another pin.'')
      else None)"

definition hasInternalPull :: "board \<Rightarrow> nat \<Rightarrow> bool" where
  "hasInternalPull chip pin \<longleftrightarrow> pin \<notin> set (cp_inputOnly (CHIP_PINS chip))"

definition pinName :: "board_model option \<Rightarrow> nat \<Rightarrow> string" where
  "pinName model pin =
     (case Option.bind model (\<lambda>m. dict_get (m_pin_labels m) (nat_text pin)) of
        None \<Rightarrow> ''GPIO '' @ nat_text pin
      | Some l \<Rightarrow> if l = [] then ''GPIO '' @ nat_text pin else ''GPIO '' @ nat_text pin @ '' ('' @ l @ '')'')"

section \<open>Pins of a sketch\<close>

text \<open>
  The two loops of \<open>defaultPins\<close> with the number of pins handed out: a pool that runs out gives
  GPIO 0 (\<open>inputs[i++] ?? 0\<close>).
\<close>

definition pool_pin :: "nat list \<Rightarrow> nat \<Rightarrow> nat" where
  "pool_pin pool i = (if i < length pool then pool ! i else 0)"

fun input_pins :: "nat list \<Rightarrow> nat \<Rightarrow> catalog_metric list \<Rightarrow> nat dict \<Rightarrow> nat dict" where
  "input_pins pool i [] out = out"
| "input_pins pool i (m # ms) out =
     (if cm_data_type m = BoolD then input_pins pool (Suc i) ms (dict_set (''m:'' @ metric_id m) (pool_pin pool i) out)
      else input_pins pool i ms out)"

fun output_pins :: "nat list \<Rightarrow> nat \<Rightarrow> catalog_actuator list \<Rightarrow> nat dict \<Rightarrow> nat dict" where
  "output_pins pool k [] out = out"
| "output_pins pool k (a # as) out =
     (if ca_value_type a \<noteq> StringV then output_pins pool (Suc k) as (dict_set (''a:'' @ actuator_id a) (pool_pin pool k) out)
      else output_pins pool k as out)"

definition defaultPins :: "catalog_metric list \<Rightarrow> catalog_actuator list \<Rightarrow> board \<Rightarrow> nat dict" where
  "defaultPins metrics actuators b =
     output_pins (bp_outputs (BOARDS b)) 0 actuators (input_pins (bp_inputs (BOARDS b)) 0 metrics [])"

definition pinChoices :: "board \<Rightarrow> nat list" where
  "pinChoices b = sort (nub (bp_inputs (BOARDS b) @ bp_outputs (BOARDS b)))"

text \<open>\<open>byPin\<close>: the keys of each pin, in order.\<close>

definition keys_by_pin :: "nat dict \<Rightarrow> (nat \<times> string list) list" where
  "keys_by_pin pins =
     foldl (\<lambda>d (key, pin). dict_set pin ((case dict_get d pin of Some ks \<Rightarrow> ks | None \<Rightarrow> []) @ [key]) d) [] pins"

definition clash_text :: "nat \<Rightarrow> string list \<Rightarrow> string \<Rightarrow> string" where
  "clash_text pin keys k =
     ''GPIO '' @ nat_text pin @ '' is also used by '' @ join '', '' (map (drop 2) (filter (\<lambda>x. x \<noteq> k) keys)) @ ''.''"

definition pinClashes :: "nat dict \<Rightarrow> string dict" where
  "pinClashes pins =
     foldl (\<lambda>out (pin, keys). if length keys < 2 then out else foldl (\<lambda>o1 k. dict_set k (clash_text pin keys k) o1) out keys)
       [] (keys_by_pin pins)"

section \<open>What is offered and what is accepted\<close>

lemma board_cases: "(\<And>b. b \<in> set CHIPS \<Longrightarrow> P b) \<Longrightarrow> P b"
  by (cases b) (auto simp: CHIPS_def)

text \<open>
  The pools of every chip are made of distinct pins its firmware accepts, the output pool of
  pins that can drive, and the button that resets provisioning is in neither.
\<close>

theorem pools_suit_chip:
  "list_all (\<lambda>b. let pools = BOARDS b; chip = CHIP_PINS b in
      distinct (bp_inputs pools @ bp_outputs pools) \<and>
      set (bp_inputs pools @ bp_outputs pools) \<subseteq> set (cp_usable chip) \<and>
      set (bp_outputs pools) \<inter> set (cp_inputOnly chip) = {} \<and>
      set (cp_adc1 chip) \<union> set (cp_inputOnly chip) \<subseteq> set (cp_usable chip) \<and>
      bp_resetPin pools \<notin> set (bp_inputs pools @ bp_outputs pools)) CHIPS"
  by (simp add: CHIPS_def Let_def)

lemma pools_ok: "distinct (bp_inputs (BOARDS b) @ bp_outputs (BOARDS b))"
  by (cases b) simp_all

lemma in_pinsFor: "p \<in> set (pinsFor model needs) \<longleftrightarrow> pinProblem model needs p = None"
  by (cases needs) (auto simp: pinsFor_def pinProblem_def Let_def)

lemma set_preferredPins: "set (preferredPins model needs) = set (pinsFor model needs)"
  by (auto simp: preferredPins_def Let_def)

lemma distinct_preferredPins: "distinct (m_pins model) \<Longrightarrow> distinct (preferredPins model needs)"
  using pools_ok [of "m_chip model"]
  by (cases needs) (auto simp: preferredPins_def pinsFor_def Let_def)

text \<open>
  For every board and need, the pins handed out are exactly those the editor accepts, each
  once when the board lists each pin once.
\<close>

theorem preferredPins_correct:
  assumes "distinct (m_pins model)"
  shows "distinct (preferredPins model needs) \<and>
         (\<forall>p. p \<in> set (preferredPins model needs) \<longleftrightarrow> pinProblem model needs p = None)"
  using distinct_preferredPins [OF assms] by (simp add: set_preferredPins in_pinsFor)

lemma preferredPins_correct_witness:
  "distinct (preferredPins (legacyModel Esp32) Output_n) \<and>
   (\<forall>p. p \<in> set (preferredPins (legacyModel Esp32) Output_n) \<longleftrightarrow> pinProblem (legacyModel Esp32) Output_n p = None)"
  by (rule preferredPins_correct) (simp add: legacyModel_def)

section \<open>The default pins do not clash\<close>

abbreviation bool_metrics :: "catalog_metric list \<Rightarrow> catalog_metric list" where
  "bool_metrics ms \<equiv> filter (\<lambda>m. cm_data_type m = BoolD) ms"

abbreviation pin_actuators :: "catalog_actuator list \<Rightarrow> catalog_actuator list" where
  "pin_actuators as \<equiv> filter (\<lambda>a. ca_value_type a \<noteq> StringV) as"

lemma dict_set_new: "k \<notin> fst ` set d \<Longrightarrow> dict_set k v d = d @ [(k, v)]"
  by (induction d) auto

fun hand_out :: "('a \<Rightarrow> string) \<Rightarrow> nat list \<Rightarrow> nat \<Rightarrow> 'a list \<Rightarrow> nat dict \<Rightarrow> nat dict" where
  "hand_out key pool i [] out = out"
| "hand_out key pool i (x # xs) out = hand_out key pool (Suc i) xs (dict_set (key x) (pool_pin pool i) out)"

lemma input_pins_hand_out:
  "input_pins pool i ms out = hand_out (\<lambda>m. ''m:'' @ metric_id m) pool i (bool_metrics ms) out"
  by (induction ms arbitrary: i out) simp_all

lemma output_pins_hand_out:
  "output_pins pool i as out = hand_out (\<lambda>a. ''a:'' @ actuator_id a) pool i (pin_actuators as) out"
  by (induction as arbitrary: i out) simp_all

lemma hand_out_eq:
  "distinct (map key xs) \<Longrightarrow> key ` set xs \<inter> fst ` set out = {} \<Longrightarrow>
   hand_out key pool i xs out = out @ map (\<lambda>(j, x). (key x, pool_pin pool j)) (indexed_from i xs)"
proof (induction xs arbitrary: i out)
  case (Cons x xs)
  have "hand_out key pool (Suc i) xs (out @ [(key x, pool_pin pool i)]) =
      (out @ [(key x, pool_pin pool i)]) @ map (\<lambda>(j, x). (key x, pool_pin pool j)) (indexed_from (Suc i) xs)"
    by (rule Cons.IH) (use Cons.prems in auto)
  then show ?case using Cons.prems by (simp add: dict_set_new)
qed simp

lemma pool_pins: "i + length xs \<le> length pool \<Longrightarrow> map (\<lambda>(j, x). pool_pin pool j) (indexed_from i xs) = take (length xs) (drop i pool)"
proof (induction xs arbitrary: i)
  case (Cons x xs)
  then have "drop i pool = pool ! i # drop (Suc i) pool" by (simp add: Cons_nth_drop_Suc)
  with Cons show ?case by (simp add: pool_pin_def)
qed simp

lemma hand_out_pins:
  assumes "distinct (map key xs)" "key ` set xs \<inter> fst ` set out = {}" "length xs \<le> length pool"
  shows "map snd (hand_out key pool 0 xs out) = map snd out @ take (length xs) pool"
    and "map fst (hand_out key pool 0 xs out) = map fst out @ map key xs"
proof -
  have "map (\<lambda>z. snd (case z of (j, x) \<Rightarrow> (key x, pool_pin pool j))) (indexed_from 0 xs) =
      map (\<lambda>(j, x). pool_pin pool j) (indexed_from 0 xs)" by (simp add: case_prod_beta)
  then show "map snd (hand_out key pool 0 xs out) = map snd out @ take (length xs) pool"
    using pool_pins [of 0 xs pool] assms(3) by (simp add: hand_out_eq [OF assms(1,2)] comp_def)
  have "map (\<lambda>z. fst (case z of (j, x) \<Rightarrow> (key x, pool_pin pool j))) (indexed_from 0 xs) =
      map (\<lambda>z. key (snd z)) (indexed_from 0 xs)" by (simp add: case_prod_beta)
  also have "\<dots> = map key (map snd (indexed_from 0 xs))" by (simp only: map_map comp_def)
  finally show "map fst (hand_out key pool 0 xs out) = map fst out @ map key xs"
    by (simp add: hand_out_eq [OF assms(1,2)] comp_def)
qed

lemma defaultPins_eq:
  assumes "distinct (map metric_id (bool_metrics ms))" "distinct (map actuator_id (pin_actuators as))"
    "length (bool_metrics ms) \<le> length (bp_inputs (BOARDS b))" "length (pin_actuators as) \<le> length (bp_outputs (BOARDS b))"
  shows "map snd (defaultPins ms as b) =
      take (length (bool_metrics ms)) (bp_inputs (BOARDS b)) @ take (length (pin_actuators as)) (bp_outputs (BOARDS b))"
    and "distinct (map fst (defaultPins ms as b))"
proof -
  let ?m = "\<lambda>m. ''m:'' @ metric_id m" and ?a = "\<lambda>a. ''a:'' @ actuator_id a"
  let ?i = "hand_out ?m (bp_inputs (BOARDS b)) 0 (bool_metrics ms) []"
  have dm: "distinct (map ?m (bool_metrics ms))" "distinct (map ?a (pin_actuators as))"
    using assms(1,2) by (simp_all add: distinct_map inj_on_def)
  have i: "map snd ?i = take (length (bool_metrics ms)) (bp_inputs (BOARDS b))" "map fst ?i = map ?m (bool_metrics ms)"
    using hand_out_pins [OF dm(1) _ assms(3), of "[]"] by simp_all
  then have "fst ` set ?i = ?m ` set (bool_metrics ms)" by (metis list.set_map)
  then have dis: "?a ` set (pin_actuators as) \<inter> fst ` set ?i = {}" by auto
  have o: "map snd (defaultPins ms as b) = map snd ?i @ take (length (pin_actuators as)) (bp_outputs (BOARDS b))"
    "map fst (defaultPins ms as b) = map fst ?i @ map ?a (pin_actuators as)"
    unfolding defaultPins_def input_pins_hand_out output_pins_hand_out
    using hand_out_pins [OF dm(2) dis assms(4)] by simp_all
  show "map snd (defaultPins ms as b) =
      take (length (bool_metrics ms)) (bp_inputs (BOARDS b)) @ take (length (pin_actuators as)) (bp_outputs (BOARDS b))"
    using o(1) i(1) by simp
  show "distinct (map fst (defaultPins ms as b))"
    using dm dis i(2) unfolding o(2) by (auto simp: distinct_map)
qed

lemma keys_dict_set: "fst ` set (dict_set k v d) = insert k (fst ` set d)"
  by (induction d) auto

lemma keys_by_pin_get:
  "dict_get (keys_by_pin pins) p =
     (let ks = map fst (filter (\<lambda>kv. snd kv = p) pins) in if ks = [] then None else Some ks)"
proof (induction pins rule: rev_induct)
  case (snoc kv pins)
  obtain k q where kv: "kv = (k, q)" by fastforce
  show ?case using snoc by (cases "q = p") (auto simp: keys_by_pin_def kv Let_def split: option.splits)
qed (simp add: keys_by_pin_def)

lemma keys_by_pin_distinct: "distinct (map fst (keys_by_pin pins))"
  by (induction pins rule: rev_induct) (auto simp: keys_by_pin_def distinct_update split: prod.splits)

lemma keys_by_pin_mem:
  "(p, ks) \<in> set (keys_by_pin pins) \<longleftrightarrow> ks = map fst (filter (\<lambda>kv. snd kv = p) pins) \<and> ks \<noteq> []"
  unfolding map_of_eq_Some_iff [OF keys_by_pin_distinct, symmetric] keys_by_pin_get
  by (auto simp: Let_def)

lemma mark_keys: "fst ` set (foldl (\<lambda>o1 k. dict_set k (f k) o1) out keys) = fst ` set out \<union> set keys"
  by (induction keys arbitrary: out) (auto simp: keys_dict_set)

lemma clash_fold:
  "fst ` set (foldl (\<lambda>out (pin, keys). if length keys < 2 then out else foldl (\<lambda>o1 k. dict_set k (clash_text pin keys k) o1) out keys) out gs) =
   fst ` set out \<union> {k. \<exists>p ks. (p, ks) \<in> set gs \<and> 2 \<le> length ks \<and> k \<in> set ks}"
proof (induction gs arbitrary: out)
  case (Cons g gs)
  obtain p ks where g: "g = (p, ks)" by fastforce
  show ?case
  proof (cases "length ks < 2")
    case False
    then have "2 \<le> length ks" by simp
    then have "{k. \<exists>p' ks'. (p', ks') \<in> set ((p, ks) # gs) \<and> 2 \<le> length ks' \<and> k \<in> set ks'} =
        set ks \<union> {k. \<exists>p ks. (p, ks) \<in> set gs \<and> 2 \<le> length ks \<and> k \<in> set ks}" by auto
    then show ?thesis unfolding g using False by (simp add: Cons.IH mark_keys Un_assoc)
  qed (auto simp: g Cons.IH)
qed simp

lemma two_keys:
  assumes "distinct (map fst pins)" "(k, p) \<in> set pins"
  shows "2 \<le> length (map fst (filter (\<lambda>kv. snd kv = p) pins)) \<longleftrightarrow> (\<exists>k'. k' \<noteq> k \<and> (k', p) \<in> set pins)"
proof -
  let ?ks = "map fst (filter (\<lambda>kv. snd kv = p) pins)"
  have d: "distinct ?ks" using assms(1) by (simp add: distinct_map inj_on_def)
  have m: "k' \<in> set ?ks \<longleftrightarrow> (k', p) \<in> set pins" for k' by force
  have "2 \<le> length ?ks \<longleftrightarrow> 2 \<le> card (set ?ks)" using d distinct_card by metis
  also have "\<dots> \<longleftrightarrow> (\<exists>k'. k' \<noteq> k \<and> k' \<in> set ?ks)"
  proof
    assume c: "2 \<le> card (set ?ks)"
    show "\<exists>k'. k' \<noteq> k \<and> k' \<in> set ?ks"
    proof (rule ccontr)
      assume "\<not> ?thesis"
      then have "set ?ks \<subseteq> {k}" by auto
      then have "card (set ?ks) \<le> card {k}" by (rule card_mono [rotated]) simp
      with c show False by simp
    qed
  next
    assume "\<exists>k'. k' \<noteq> k \<and> k' \<in> set ?ks"
    then obtain k' where "k' \<noteq> k" "k' \<in> set ?ks" by blast
    then have "{k, k'} \<subseteq> set ?ks" using assms(2) m by blast
    then have "card {k, k'} \<le> card (set ?ks)" by (rule card_mono [rotated]) simp
    with \<open>k' \<noteq> k\<close> show "2 \<le> card (set ?ks)" by simp
  qed
  finally show ?thesis using m by simp
qed

lemma pinClashes_keys:
  assumes "distinct (map fst pins)"
  shows "fst ` set (pinClashes pins) = {k. \<exists>p k'. (k, p) \<in> set pins \<and> (k', p) \<in> set pins \<and> k' \<noteq> k}"
proof -
  have "fst ` set (pinClashes pins) = {k. \<exists>p ks. (p, ks) \<in> set (keys_by_pin pins) \<and> 2 \<le> length ks \<and> k \<in> set ks}"
    unfolding pinClashes_def clash_fold by simp
  also have "\<dots> = {k. \<exists>p. (k, p) \<in> set pins \<and> 2 \<le> length (map fst (filter (\<lambda>kv. snd kv = p) pins))}"
    unfolding keys_by_pin_mem by force
  finally show ?thesis using two_keys [OF assms] by blast
qed

text \<open>
  \<open>pinClashes\<close> names exactly the keys whose pin another key has too.
\<close>

theorem pinClashes_exact:
  assumes "distinct (map fst pins)"
  shows "fst ` set (pinClashes pins) = {k. \<exists>p k'. (k, p) \<in> set pins \<and> (k', p) \<in> set pins \<and> k' \<noteq> k}"
  using assms by (rule pinClashes_keys)

lemma pinClashes_exact_witness:
  "fst ` set (pinClashes [(''m:a'', 4), (''a:b'', 4), (''a:c'', 5)]) =
   {k. \<exists>p k'. (k, p) \<in> set [(''m:a'', 4::nat), (''a:b'', 4), (''a:c'', 5)] \<and>
       (k', p) \<in> set [(''m:a'', 4), (''a:b'', 4), (''a:c'', 5)] \<and> k' \<noteq> k}"
  by (rule pinClashes_exact) simp

text \<open>
  As long as neither pool runs out and the keys of the rows differ, the default pins of a
  sketch are distinct and the clash check finds nothing.
\<close>

theorem defaultPins_no_clash:
  assumes "distinct (map metric_id (bool_metrics ms))" "distinct (map actuator_id (pin_actuators as))"
    "length (bool_metrics ms) \<le> length (bp_inputs (BOARDS b))" "length (pin_actuators as) \<le> length (bp_outputs (BOARDS b))"
  shows "distinct (map snd (defaultPins ms as b)) \<and> pinClashes (defaultPins ms as b) = []"
proof -
  have d: "distinct (map snd (defaultPins ms as b))"
    unfolding defaultPins_eq(1) [OF assms] using pools_ok [of b]
    by (auto simp: distinct_take dest: in_set_takeD)
  have k: "distinct (map fst (defaultPins ms as b))" by (rule defaultPins_eq(2) [OF assms])
  have one: "p \<noteq> p' \<or> k1 = k2" if "(k1, p) \<in> set (defaultPins ms as b)" "(k2, p') \<in> set (defaultPins ms as b)" for k1 k2 p p'
    using d that by (force simp: distinct_map inj_on_def)
  have "fst ` set (pinClashes (defaultPins ms as b)) = {}"
    unfolding pinClashes_def clash_fold using two_keys [OF k] one by (fastforce simp: keys_by_pin_mem)
  with d show ?thesis by simp
qed

definition switch_metric :: "string \<Rightarrow> catalog_metric" where
  "switch_metric k = \<lparr>cm_name = k, cm_key = Some k, cm_unit = None, cm_data_type = BoolD, cm_decimals = None,
     cm_min = None, cm_max = None, cm_publish = On_change, cm_interval = None, cm_deadband = None\<rparr>"

definition relay :: "string \<Rightarrow> catalog_actuator" where
  "relay k = \<lparr>ca_name = k, ca_key = Some k, ca_value_type = BoolV, ca_allowed = None, ca_on_value = None, ca_off_value = None\<rparr>"

lemma demo_ids [simp]: "k \<noteq> [] \<Longrightarrow> metric_id (switch_metric k) = k" "k \<noteq> [] \<Longrightarrow> actuator_id (relay k) = k"
    "cm_data_type (switch_metric k) = BoolD" "ca_value_type (relay k) = BoolV"
  by (simp_all add: switch_metric_def relay_def wireId_def or_else_def)

lemma defaultPins_no_clash_witness:
  "distinct (map snd (defaultPins [switch_metric ''door'', switch_metric ''leak''] [relay ''fan''] Esp32)) \<and>
   pinClashes (defaultPins [switch_metric ''door'', switch_metric ''leak''] [relay ''fan''] Esp32) = []"
  by (rule defaultPins_no_clash) simp_all

text \<open>A pool that runs out hands GPIO 0 to every further row, and those do clash.\<close>

lemma default_pins_run_out:
  "defaultPins (map switch_metric [''a'', ''b'', ''c'', ''d'', ''e'', ''f'', ''g'']) [relay ''r'', relay ''s'', relay ''t''] Esp32c3 =
   [(''m:a'', 4), (''m:b'', 5), (''m:c'', 6), (''m:d'', 7), (''m:e'', 10), (''m:f'', 0), (''m:g'', 0),
    (''a:r'', 3), (''a:s'', 1), (''a:t'', 0)]"
  by (simp add: defaultPins_def pool_pin_def)

end
