(* ===== verification/Calendar.thy ===== *)
theory Calendar imports Js_Number begin

text \<open>
  The Gregorian calendar the sources reach through JavaScript's \<open>Date\<close>: the number of a day
  as ECMAScript defines Day(t), the next day and the proof that it is one further, and the ISO
  timestamps of the API and of \<open>toISOString\<close> with their round trip.
\<close>

section \<open>Days\<close>

text \<open>
  \<open>Date.UTC(y, m - 1, d + n)\<close> read back: the day \<open>n\<close> days on in the Gregorian calendar. The
  model steps day by day; \<open>day_number\<close> is ECMAScript's Day(t), against which the step is proved.
\<close>

definition leap :: "nat \<Rightarrow> bool" where
  "leap y \<longleftrightarrow> 4 dvd y \<and> (\<not> 100 dvd y \<or> 400 dvd y)"

definition month_days :: "nat \<Rightarrow> nat \<Rightarrow> nat" where
  "month_days y m =
     (if m = 2 then (if leap y then 29 else 28) else if m \<in> {4, 6, 9, 11} then 30 else 31)"

definition before_month :: "nat \<Rightarrow> nat \<Rightarrow> nat" where
  "before_month y m = (\<Sum>k \<leftarrow> [1..<m]. month_days y k)"

definition day_number :: "nat \<times> nat \<times> nat \<Rightarrow> int" where
  "day_number ymd =
     (case ymd of (y, m, d) \<Rightarrow>
        365 * (int y - 1970) + (int y - 1969) div 4 - (int y - 1901) div 100 + (int y - 1601) div 400
        + int (before_month y m) + int d - 1)"

fun next_day :: "nat \<times> nat \<times> nat \<Rightarrow> nat \<times> nat \<times> nat" where
  "next_day (y, m, d) =
     (if d < month_days y m then (y, m, d + 1) else if m < 12 then (y, m + 1, 1) else (y + 1, 1, 1))"

definition weekday :: "int \<Rightarrow> nat" where
  "weekday n = nat ((n + 4) mod 7)"

section \<open>The calendar steps by one day\<close>

definition valid_date :: "nat \<times> nat \<times> nat \<Rightarrow> bool" where
  "valid_date t = (case t of (y, m, d) \<Rightarrow> 1 \<le> m \<and> m \<le> 12 \<and> 1 \<le> d \<and> d \<le> month_days y m)"

lemma before_month_Suc: "1 \<le> m \<Longrightarrow> before_month y (Suc m) = before_month y m + month_days y m"
  by (simp add: before_month_def)

lemma year_length: "before_month y 12 + 31 = (if leap y then 366 else 365)"
proof -
  have "[1..<12] = [1, 2, 3, 4, 5, 6, 7, 8, 9, 10, 11 :: nat]" by code_simp
  then show ?thesis by (simp add: before_month_def month_days_def)
qed

lemma div_step:
  assumes "0 < (k::int)"
  shows "(x + 1) div k = x div k + (if k dvd (x + 1) then 1 else 0)"
proof (cases "k dvd (x + 1)")
  case True
  then obtain q where q: "x + 1 = k * q" by auto
  then have "x = k * (q - 1) + (k - 1)" by (simp add: algebra_simps)
  then have "x div k = q - 1" using assms by (simp add: div_pos_pos_trivial)
  then show ?thesis using q assms True by simp
next
  case False
  have "(x + 1) mod k \<noteq> 0" using False by (simp add: dvd_eq_mod_eq_0)
  moreover have "(x + 1) mod k = (if x mod k + 1 = k then 0 else x mod k + 1)"
    using assms mod_pos_pos_trivial by (smt (verit) mod_add_left_eq mod_self pos_mod_bound pos_mod_sign)
  ultimately have "(x + 1) mod k = x mod k + 1" by presburger
  then have "(x + 1) div k * k = x div k * k"
    using div_mult_mod_eq [of "x + 1" k] div_mult_mod_eq [of x k] by linarith
  then show ?thesis using False assms by simp
qed

lemma leap_int: "leap y \<longleftrightarrow> 4 dvd int y \<and> (\<not> 100 dvd int y \<or> 400 dvd int y)"
proof -
  have "k dvd y \<longleftrightarrow> int k dvd int y" for k by simp
  from this [of 4] this [of 100] this [of 400] show ?thesis by (simp add: leap_def)
qed

lemma dvd_shift: "(k::int) dvd c \<Longrightarrow> k dvd (x - c) \<longleftrightarrow> k dvd x"
  by (metis diff_add_cancel dvd_add_left_iff)

lemma year_start:
  "day_number (Suc y, 1, 1) = day_number (y, 1, 1) + (if leap y then 366 else 365)"
proof -
  define a where "a = (int y - 1969) div 4"
  define b where "b = (int y - 1901) div 100"
  define c where "c = (int y - 1601) div 400"
  have s: "int (Suc y) - 1969 = (int y - 1969) + 1" "int (Suc y) - 1901 = (int y - 1901) + 1"
    "int (Suc y) - 1601 = (int y - 1601) + 1" "int y - 1969 + 1 = int y - 1968" "int y - 1901 + 1 = int y - 1900"
    "int y - 1601 + 1 = int y - 1600"
    by simp_all
  have d: "4 dvd (int y - 1968) \<longleftrightarrow> 4 dvd int y" "100 dvd (int y - 1900) \<longleftrightarrow> 100 dvd int y"
    "400 dvd (int y - 1600) \<longleftrightarrow> 400 dvd int y"
    by (simp_all add: dvd_shift)
  have q: "(int (Suc y) - 1969) div 4 = a + (if 4 dvd int y then 1 else 0)"
    "(int (Suc y) - 1901) div 100 = b + (if 100 dvd int y then 1 else 0)"
    "(int (Suc y) - 1601) div 400 = c + (if 400 dvd int y then 1 else 0)"
    using div_step [of 4 "int y - 1969"] div_step [of 100 "int y - 1901"] div_step [of 400 "int y - 1601"] d
    unfolding s a_def b_def c_def by simp_all
  have t: "400 dvd int y \<Longrightarrow> 100 dvd int y" "100 dvd int y \<Longrightarrow> 4 dvd int y"
    by (rule dvd_trans [of _ "400::int"], simp, assumption) (rule dvd_trans [of _ "100::int"], simp, assumption)
  define D4 D100 D400 where "D4 = (4 dvd int y)" and "D100 = (100 dvd int y)" and "D400 = (400 dvd int y)"
  have t': "D400 \<longrightarrow> D100" "D100 \<longrightarrow> D4" using t by (simp_all only: D4_def D100_def D400_def, blast+)
  show ?thesis
    unfolding day_number_def prod.case q a_def [symmetric] b_def [symmetric] c_def [symmetric] leap_int
      D4_def [symmetric] D100_def [symmetric] D400_def [symmetric]
    using t' by (cases D4; cases D100; cases D400; simp add: before_month_def)
qed

lemma next_day_step:
  assumes "valid_date t"
  shows "valid_date (next_day t)" "day_number (next_day t) = day_number t + 1"
proof -
  obtain y m d where t: "t = (y, m, d)" by (metis prod_cases3)
  have v: "1 \<le> m" "m \<le> 12" "1 \<le> d" "d \<le> month_days y m" using assms by (simp_all add: t valid_date_def)
  have pos: "0 < month_days y' m'" for y' m' by (simp add: month_days_def)
  show "valid_date (next_day t)" using v pos by (auto simp: t valid_date_def Suc_le_eq)
  show "day_number (next_day t) = day_number t + 1"
  proof (cases "d < month_days y m")
    case True
    then show ?thesis by (simp add: t day_number_def)
  next
    case last: False
    show ?thesis
    proof (cases "m < 12")
      case True
      then show ?thesis using v last by (simp add: t day_number_def before_month_Suc)
    next
      case False
      then have m: "m = 12" "d = 31" using v last by (auto simp: month_days_def)
      have "day_number (y, 12, 31) = day_number (y, 1, 1) + int (before_month y 12) + 30"
        by (simp add: day_number_def before_month_def)
      then show ?thesis using year_start [of y] year_length [of y] by (simp add: t m month_days_def split: if_splits)
    qed
  qed
qed

lemma next_days:
  assumes "valid_date t"
  shows "valid_date ((next_day ^^ n) t) \<and> day_number ((next_day ^^ n) t) = day_number t + int n"
  using assms by (induction n) (auto simp: next_day_step)

section \<open>The day with a given number\<close>

lemma year_start_less: "y < y' \<Longrightarrow> day_number (y, 1, 1) + 365 * int (y' - y) \<le> day_number (y', 1, 1)"
proof (induction y')
  case (Suc y')
  show ?case
  proof (cases "y = y'")
    case True
    then show ?thesis using year_start [of y] by simp
  next
    case False
    then have "y < y'" using Suc by simp
    then show ?thesis using Suc.IH year_start [of y'] by (auto simp: Suc_diff_le split: if_splits)
  qed
qed simp

function year_from :: "nat \<Rightarrow> int \<Rightarrow> nat" where
  "year_from y n = (if day_number (Suc y, 1, 1) \<le> n then year_from (Suc y) n else y)"
  by pat_completeness auto
termination
  by (relation "measure (\<lambda>(y, n). nat (n - day_number (y, 1, 1)))")
     (use year_start in \<open>auto split: if_splits\<close>)

function month_from :: "nat \<Rightarrow> nat \<Rightarrow> int \<Rightarrow> nat" where
  "month_from y m n = (if m < 12 \<and> day_number (y, Suc m, 1) \<le> n then month_from y (Suc m) n else m)"
  by pat_completeness auto
termination by (relation "measure (\<lambda>(y, m, n). 12 - m)") auto

declare year_from.simps [simp del] month_from.simps [simp del]

text \<open>From 1970 on; a year has at most 366 days, so \<open>1970 + n div 366\<close> is not too late.\<close>

definition date_of_day :: "nat \<Rightarrow> nat \<times> nat \<times> nat" where
  "date_of_day n =
     (let y = year_from (1970 + n div 366) (int n); m = month_from y 1 (int n)
      in (y, m, nat (int n - day_number (y, m, 1)) + 1))"

lemma year_from_range:
  "day_number (y, 1, 1) \<le> n \<Longrightarrow>
   day_number (year_from y n, 1, 1) \<le> n \<and> n < day_number (Suc (year_from y n), 1, 1)"
proof (induction y n rule: year_from.induct)
  case (1 y n)
  then show ?case by (subst (1 2) year_from.simps) auto
qed

lemma month_from_range:
  "1 \<le> m \<Longrightarrow> m \<le> 12 \<Longrightarrow> day_number (y, m, 1) \<le> n \<Longrightarrow>
   (let k = month_from y m n in 1 \<le> k \<and> k \<le> 12 \<and> day_number (y, k, 1) \<le> n \<and> (k < 12 \<longrightarrow> n < day_number (y, Suc k, 1)))"
proof (induction y m n rule: month_from.induct)
  case (1 y m n)
  then show ?case by (subst month_from.simps) (auto simp: Let_def)
qed

lemma month_length:
  assumes "1 \<le> m" "m \<le> 12"
  shows "day_number (if m < 12 then (y, Suc m, 1) else (Suc y, 1, 1)) = day_number (y, m, 1) + int (month_days y m)"
proof -
  have "month_days y m \<noteq> 0" by (simp add: month_days_def)
  moreover have "day_number (y, m, month_days y m) = day_number (y, m, 1) + int (month_days y m) - 1"
    by (simp add: day_number_def)
  ultimately show ?thesis
    using next_day_step(2) [of "(y, m, month_days y m)"] assms by (auto simp: valid_date_def split: if_splits)
qed

lemma date_of_day_facts: "valid_date (date_of_day n) \<and> day_number (date_of_day n) = int n"
proof -
  let ?y0 = "1970 + n div 366"
  define y where "y = year_from ?y0 (int n)"
  define m where "m = month_from y 1 (int n)"
  have "day_number (1970 + k, 1, 1) \<le> 366 * int k" for k
  proof (induction k)
    case 0
    show ?case by (simp add: day_number_def before_month_def)
  next
    case (Suc k)
    then show ?case using year_start [of "1970 + k"] by (simp split: if_splits)
  qed
  from this [of "n div 366"] have "day_number (?y0, 1, 1) \<le> int n" by linarith
  then have y: "day_number (y, 1, 1) \<le> int n" "int n < day_number (Suc y, 1, 1)"
    unfolding y_def using year_from_range by auto
  have m: "1 \<le> m" "m \<le> 12" "day_number (y, m, 1) \<le> int n" "m < 12 \<Longrightarrow> int n < day_number (y, Suc m, 1)"
    using month_from_range [of 1 y "int n"] y(1) by (auto simp: m_def Let_def)
  have "int n < day_number (y, m, 1) + int (month_days y m)"
    using month_length [OF m(1,2), of y] m(4) y(2) m(2) by (auto split: if_splits)
  moreover define k where "k = nat (int n - day_number (y, m, 1))"
  then have k: "day_number (y, m, 1) + int k = int n" using m(3) by simp
  ultimately have "k < month_days y m" by linarith
  moreover have "day_number (y, m, k + 1) = day_number (y, m, 1) + int k"
    by (simp add: day_number_def)
  moreover have "date_of_day n = (y, m, k + 1)"
    by (simp add: date_of_day_def y_def m_def k_def Let_def)
  ultimately show ?thesis using m(1,2) k by (simp add: valid_date_def Suc_le_eq)
qed

lemma date_of_day_year: "n < 2932897 \<Longrightarrow> fst (date_of_day n) < 10000"
proof (rule ccontr)
  assume n: "n < 2932897" and "\<not> fst (date_of_day n) < 10000"
  obtain y m d where t: "date_of_day n = (y, m, d)" by (metis prod_cases3)
  with \<open>\<not> _\<close> have "10000 \<le> y" by simp
  then have "day_number (10000, 1, 1) \<le> day_number (y, 1, 1)"
    using year_start_less [of 10000 y] by (cases "y = 10000") auto
  moreover have "day_number (10000, 1, 1) = 2932897" by (simp add: day_number_def before_month_def)
  moreover have "day_number (y, 1, 1) \<le> int n"
    using date_of_day_facts [of n] by (auto simp: t day_number_def before_month_def valid_date_def)
  ultimately show False using n by simp
qed

section \<open>ISO timestamps\<close>

definition digits2 :: "nat \<Rightarrow> string" where
  "digits2 n = [digit_char (n div 10 mod 10), digit_char (n mod 10)]"

definition digits3 :: "nat \<Rightarrow> string" where
  "digits3 n = digit_char (n div 100 mod 10) # digits2 n"

definition digits4 :: "nat \<Rightarrow> string" where
  "digits4 n = digit_char (n div 1000 mod 10) # digits3 n"

text \<open>\<open>new Date(ms).toISOString()\<close> for the milliseconds of 1970 to 9999.\<close>

definition toISOString :: "nat \<Rightarrow> string" where
  "toISOString ms =
     (case date_of_day (ms div 86400000) of (y, m, d) \<Rightarrow>
        digits4 y @ ''-'' @ digits2 m @ ''-'' @ digits2 d @ ''T'' @
        digits2 (ms div 3600000 mod 24) @ '':'' @ digits2 (ms div 60000 mod 60) @ '':'' @
        digits2 (ms div 1000 mod 60) @ ''.'' @ digits3 (ms mod 1000) @ ''Z'')"

text \<open>\<open>new Date(s).getTime()\<close> on a full timestamp with its zone, the form the API sends:
  \<open>YYYY-MM-DDTHH:MM:SS\<close>, an optional fraction cut to milliseconds, and Z or an offset.
  Everything else is an invalid date here, NaN.\<close>

definition zone_ms :: "string \<Rightarrow> int option" where
  "zone_ms z =
     (if z = ''Z'' then Some 0
      else if length z = 6 \<and> (z ! 0 = CHR ''+'' \<or> z ! 0 = CHR ''-'') \<and> z ! 3 = CHR '':'' \<and>
              list_all is_digit [z ! 1, z ! 2, z ! 4, z ! 5] \<and>
              digits_val [z ! 1, z ! 2] < 24 \<and> digits_val [z ! 4, z ! 5] < 60
      then (let off = int (digits_val [z ! 1, z ! 2] * 60 + digits_val [z ! 4, z ! 5]) * 60000
            in Some (if z ! 0 = CHR ''+'' then off else - off))
      else None)"

definition fraction_ms :: "string \<Rightarrow> (nat \<times> string) option" where
  "fraction_ms r =
     (if r \<noteq> [] \<and> hd r = CHR ''.'' then
        (let fs = takeWhile is_digit (tl r) in
         if fs = [] then None else Some (digits_val (take 3 (fs @ ''00'')), dropWhile is_digit (tl r)))
      else Some (0, r))"

definition date_shape :: "string \<Rightarrow> bool" where
  "date_shape s \<longleftrightarrow>
     20 \<le> length s \<and> s ! 4 = CHR ''-'' \<and> s ! 7 = CHR ''-'' \<and> s ! 10 = CHR ''T'' \<and> s ! 13 = CHR '':'' \<and> s ! 16 = CHR '':'' \<and>
     list_all (\<lambda>i. is_digit (s ! i)) [0, 1, 2, 3, 5, 6, 8, 9, 11, 12, 14, 15, 17, 18]"

definition date_time :: "string \<Rightarrow> jsnum" where
  "date_time s =
     (let n = (\<lambda>i k. digits_val (take k (drop i s)));
          ymd = (n 0 4, n 5 2, n 8 2); h = n 11 2; mi = n 14 2; sec = n 17 2
      in if \<not> date_shape s \<or> \<not> valid_date ymd \<or> 23 < h \<or> 59 < mi \<or> 59 < sec then NaN
         else (case fraction_ms (drop 19 s) of None \<Rightarrow> NaN
               | Some (fr, z) \<Rightarrow> (case zone_ms z of None \<Rightarrow> NaN
                   | Some off \<Rightarrow> Fin (of_int (day_number ymd * 86400000 + int (h * 3600000 + mi * 60000 + sec * 1000 + fr) - off)))))"

lemma digit_sums:
  fixes n :: nat
  assumes "a * 10 + b = p" "p * 10 + c = q" "q * 10 + d = n"
  shows "1000 * a + (100 * b + (10 * c + d)) = n"
  using assms by linarith

lemma clock_sum:
  fixes ms :: nat
  assumes "t1 * 1000 + fr = ms" "t2 * 60 + sec = t1" "t3 * 60 + mi = t2" "days * 24 + h = t3"
  shows "days * 86400000 + (h * 3600000 + mi * 60000 + sec * 1000 + fr) = ms"
  using assms by linarith

lemma digits_mod:
  "n < 100 \<Longrightarrow> digits_val (digits2 n) = n"
  "n < 1000 \<Longrightarrow> digits_val (digits3 n) = n"
  "n < 10000 \<Longrightarrow> digits_val (digits4 n) = n"
proof -
  have d: "digit_val (digit_char (k mod 10)) = k mod 10" for k
    using digit_char_facts [of "k mod 10"] by simp
  have v: "digits_val (digits2 n) = 10 * (n div 10 mod 10) + n mod 10"
    "digits_val (digits3 n) = 100 * (n div 100 mod 10) + (10 * (n div 10 mod 10) + n mod 10)"
    "digits_val (digits4 n) = 1000 * (n div 1000 mod 10) + (100 * (n div 100 mod 10) + (10 * (n div 10 mod 10) + n mod 10))"
    by (simp_all add: digits_val_def digits2_def digits3_def digits4_def d)
  have e: "n div 100 = n div 10 div 10" "n div 1000 = n div 10 div 10 div 10"
    by (simp_all add: div_mult2_eq [symmetric])
  show "n < 100 \<Longrightarrow> digits_val (digits2 n) = n" "n < 1000 \<Longrightarrow> digits_val (digits3 n) = n"
    "n < 10000 \<Longrightarrow> digits_val (digits4 n) = n"
    using digit_sums [of "n div 10 div 10 div 10" "n div 10 div 10 mod 10" "n div 10 div 10" "n div 10 mod 10" "n div 10" "n mod 10" n]
      digit_sums [of 0 "n div 10 div 10" "n div 10 div 10" "n div 10 mod 10" "n div 10" "n mod 10" n]
      digit_sums [of 0 0 0 "n div 10" "n div 10" "n mod 10" n]
    by (simp_all add: v e)
qed

lemma digit_char_mod [simp]: "is_digit (digit_char (k mod 10))"
  using digit_char_facts [of "k mod 10"] by simp

lemma not_digit_chars [simp]:
  "\<not> is_digit CHR ''-''" "\<not> is_digit CHR ''Z''" "\<not> is_digit CHR '':''" "\<not> is_digit CHR ''.''"
  by (simp_all add: is_digit_def char_code_def)

text \<open>The round trip: a printed timestamp reads back as the same millisecond.\<close>

lemma date_time_toISOString [simp]:
  assumes "ms < 253402300800000"
  shows "date_time (toISOString ms) = Fin (of_nat ms)"
proof -
  obtain y m d where t: "date_of_day (ms div 86400000) = (y, m, d)" by (metis prod_cases3)
  have v: "valid_date (y, m, d)" "day_number (y, m, d) = int (ms div 86400000)"
    using date_of_day_facts [of "ms div 86400000"] by (simp_all add: t)
  have y: "y < 10000" using date_of_day_year [of "ms div 86400000"] assms t by simp
  have md: "m < 100" "d < 100" using v(1) by (auto simp: valid_date_def month_days_def split: if_splits)
  define h mi sec fr where "h = ms div 3600000 mod 24" and "mi = ms div 60000 mod 60"
    and "sec = ms div 1000 mod 60" and "fr = ms mod 1000"
  have b: "h < 24" "mi < 60" "sec < 60" "fr < 1000" by (simp_all add: h_def mi_def sec_def fr_def)
  have sum: "ms div 86400000 * 86400000 + (h * 3600000 + mi * 60000 + sec * 1000 + fr) = ms"
  proof -
    define t1 t2 t3 where "t1 = ms div 1000" and "t2 = t1 div 60" and "t3 = t2 div 60"
    have "ms div 60000 = t2" "ms div 3600000 = t3" "ms div 86400000 = t3 div 24"
      by (simp_all add: t1_def t2_def t3_def div_mult2_eq [symmetric])
    moreover have "t3 div 24 * 86400000 + (t3 mod 24 * 3600000 + t2 mod 60 * 60000 + t1 mod 60 * 1000 + ms mod 1000) = ms"
      by (rule clock_sum [of t1 _ _ t2 _ t3]) (simp_all only: t1_def t2_def t3_def div_mult_mod_eq)
    ultimately show ?thesis by (simp only: h_def mi_def sec_def fr_def t1_def [symmetric])
  qed
  let ?s = "toISOString ms"
  have s: "?s = digits4 y @ ''-'' @ digits2 m @ ''-'' @ digits2 d @ ''T'' @ digits2 h @ '':'' @ digits2 mi @ '':'' @
      digits2 sec @ ''.'' @ digits3 fr @ ''Z''"
    by (simp add: toISOString_def t h_def mi_def sec_def fr_def)
  have shape: "date_shape ?s"
    unfolding s by (simp add: date_shape_def digits4_def digits3_def digits2_def)
  have parts: "take 4 (drop 0 ?s) = digits4 y" "take 2 (drop 5 ?s) = digits2 m" "take 2 (drop 8 ?s) = digits2 d"
    "take 2 (drop 11 ?s) = digits2 h" "take 2 (drop 14 ?s) = digits2 mi" "take 2 (drop 17 ?s) = digits2 sec"
    "drop 19 ?s = ''.'' @ digits3 fr @ ''Z''"
    unfolding s by (simp_all add: digits4_def digits3_def digits2_def)
  have "fraction_ms (''.'' @ digits3 fr @ ''Z'') = Some (fr, ''Z'')"
    using digits_mod(2) [OF b(4)] by (simp add: fraction_ms_def digits3_def digits2_def)
  moreover have "digits_val (digits4 y) = y" "digits_val (digits2 m) = m" "digits_val (digits2 d) = d"
    "digits_val (digits2 h) = h" "digits_val (digits2 mi) = mi" "digits_val (digits2 sec) = sec"
    using y md b by (simp_all add: digits_mod)
  ultimately have "date_time ?s = Fin (of_int (int (ms div 86400000) * 86400000 + int (h * 3600000 + mi * 60000 + sec * 1000 + fr)))"
    using shape v b parts by (simp add: date_time_def Let_def zone_ms_def)
  also have "int (ms div 86400000) * 86400000 + int (h * 3600000 + mi * 60000 + sec * 1000 + fr) = int ms"
    using arg_cong [OF sum, of int] by simp
  finally show ?thesis by simp
qed

lemma toISOString_not_Nil [simp]: "toISOString ms \<noteq> []"
  by (simp add: toISOString_def digits4_def split: prod.splits)

end
