(* ===== verification/Chart.thy ===== *)
theory Chart imports Js_Number "HOL-Library.Sublist" begin

text \<open>
  The trend chart's data (\<open>packages/shared/src/chart-decimate.ts\<close>, \<open>chart-range.ts\<close> and
  \<open>bool-series.ts\<close>): the min/max decimation of a dense line, the ranges with the axis they pin,
  and the steps of an on/off series.  Times and readings are finite numbers, kept exact.  The
  decimation is the two nested loops of the code over indices; the outer loop of
  \<open>decimateMinMax\<close> is \<open>decimate_slices\<close> and the inner one \<open>scan_slice\<close>.  The main lemma says
  what the decimation promises: the kept points are a subsequence of the line with its two
  ends, at most two per slice, and every reading has a kept one at least as low and one at
  least as high within one slice of it.
\<close>

section \<open>Decimation\<close>

type_synonym chart_points = "(rat \<times> rat) list"

definition push_decimated :: "rat list \<Rightarrow> rat list \<Rightarrow> nat \<Rightarrow> chart_points \<Rightarrow> chart_points" where
  "push_decimated xs ys i out =
     (if out \<noteq> [] \<and> fst (last out) = xs ! i then out else out @ [(xs ! i, ys ! i)])"

text \<open>\<open>stop\<close> is n - 1; \<open>final\<close> says that this is the last slice.  The result is the next
  index with the indices of the lowest and highest reading, None standing for -1.\<close>

function scan_slice ::
    "rat list \<Rightarrow> rat list \<Rightarrow> rat \<Rightarrow> bool \<Rightarrow> nat \<Rightarrow> nat \<Rightarrow> nat option \<Rightarrow> nat option \<Rightarrow> nat \<times> nat option \<times> nat option" where
  "scan_slice xs ys end final stop i minI maxI =
     (if i < stop \<and> (xs ! i \<le> end \<or> final) then
        scan_slice xs ys end final stop (Suc i)
          (case minI of None \<Rightarrow> Some i | Some m \<Rightarrow> if ys ! i < ys ! m then Some i else minI)
          (case maxI of None \<Rightarrow> Some i | Some m \<Rightarrow> if ys ! m < ys ! i then Some i else maxI)
      else (i, minI, maxI))"
  by pat_completeness auto
termination by (relation "measure (\<lambda>(xs, ys, end, final, stop, i, minI, maxI). stop - i)") auto

declare scan_slice.simps [simp del]

definition push_slice ::
    "rat list \<Rightarrow> rat list \<Rightarrow> nat option \<Rightarrow> nat option \<Rightarrow> chart_points \<Rightarrow> chart_points" where
  "push_slice xs ys minI maxI out =
     (case (minI, maxI) of
        (Some lo, Some hi) \<Rightarrow>
          if lo < hi then push_decimated xs ys hi (push_decimated xs ys lo out)
          else push_decimated xs ys lo (push_decimated xs ys hi out)
      | _ \<Rightarrow> out)"

definition slice_end :: "rat \<Rightarrow> rat \<Rightarrow> nat \<Rightarrow> nat \<Rightarrow> rat" where
  "slice_end x0 width buckets b = x0 + width * of_nat (b + 1) / of_nat buckets"

function decimate_slices ::
    "rat list \<Rightarrow> rat list \<Rightarrow> nat \<Rightarrow> rat \<Rightarrow> rat \<Rightarrow> nat \<Rightarrow> nat \<Rightarrow> chart_points \<Rightarrow> chart_points" where
  "decimate_slices xs ys buckets x0 width b i out =
     (if b < buckets \<and> i < length xs - 1 then
        (case scan_slice xs ys (slice_end x0 width buckets b) (b = buckets - 1) (length xs - 1) i None None of
           (i', minI, maxI) \<Rightarrow>
             decimate_slices xs ys buckets x0 width (Suc b) i' (push_slice xs ys minI maxI out))
      else out)"
  by pat_completeness auto
termination by (relation "measure (\<lambda>(xs, ys, buckets, x0, width, b, i, out). buckets - b)") auto

declare decimate_slices.simps [simp del]

definition decimateMinMax :: "rat list \<Rightarrow> rat list \<Rightarrow> nat \<Rightarrow> rat list \<times> rat list" where
  "decimateMinMax xs ys buckets =
     (let n = length xs in
      if buckets < 1 \<or> n \<le> buckets * 2 then (xs, ys)
      else let x0 = xs ! 0;
               d = xs ! (n - 1) - x0;
               width = (if d = 0 then 1 else d);
               out = push_decimated xs ys (n - 1)
                       (decimate_slices xs ys buckets x0 width 0 1 (push_decimated xs ys 0 []))
           in (map fst out, map snd out))"


section \<open>What the decimation keeps\<close>

definition chart_point :: "rat list \<Rightarrow> rat list \<Rightarrow> nat \<Rightarrow> rat \<times> rat" where
  "chart_point xs ys i = (xs ! i, ys ! i)"

text \<open>\<open>k\<close> is where the readings from \<open>s\<close> up to \<open>i\<close> are extreme in the order \<open>r\<close>.\<close>

definition extreme_at :: "(rat \<Rightarrow> rat \<Rightarrow> bool) \<Rightarrow> rat list \<Rightarrow> nat \<Rightarrow> nat \<Rightarrow> nat option \<Rightarrow> bool" where
  "extreme_at r ys s i m =
     (case m of None \<Rightarrow> i = s
      | Some k \<Rightarrow> s \<le> k \<and> k < i \<and> (\<forall>j. s \<le> j \<longrightarrow> j < i \<longrightarrow> r (ys ! k) (ys ! j)))"

lemma extreme_low_step:
  "extreme_at (\<le>) ys s i m \<Longrightarrow> s \<le> i \<Longrightarrow>
   extreme_at (\<le>) ys s (Suc i) (case m of None \<Rightarrow> Some i | Some k \<Rightarrow> if ys ! i < ys ! k then Some i else m)"
  by (cases m) (auto simp: extreme_at_def less_Suc_eq intro: order.trans less_imp_le)

lemma extreme_high_step:
  "extreme_at (\<ge>) ys s i m \<Longrightarrow> s \<le> i \<Longrightarrow>
   extreme_at (\<ge>) ys s (Suc i) (case m of None \<Rightarrow> Some i | Some k \<Rightarrow> if ys ! k < ys ! i then Some i else m)"
  by (cases m) (auto simp: extreme_at_def less_Suc_eq intro: order.trans less_imp_le)

lemma scan_slice_facts:
  assumes "scan_slice xs ys e final stop i m M = (i', m', M')"
    and "s \<le> i" "i \<le> stop" "extreme_at (\<le>) ys s i m" "extreme_at (\<ge>) ys s i M"
  shows "i \<le> i' \<and> i' \<le> stop \<and> extreme_at (\<le>) ys s i' m' \<and> extreme_at (\<ge>) ys s i' M' \<and>
         (\<forall>j. i \<le> j \<longrightarrow> j < i' \<longrightarrow> xs ! j \<le> e \<or> final) \<and>
         (i' < stop \<longrightarrow> e < xs ! i' \<and> \<not> final)"
  using assms
proof (induction xs ys e final stop i m M rule: scan_slice.induct)
  case (1 xs ys e final stop i m M)
  show ?case
  proof (cases "i < stop \<and> (xs ! i \<le> e \<or> final)")
    case True
    note r = 1(1) [OF True _ _ _ extreme_low_step [OF 1(5,3)] extreme_high_step [OF 1(6,3)]]
    have "xs ! j \<le> e \<or> final" if "i \<le> j" "Suc i \<le> j \<Longrightarrow> xs ! j \<le> e \<or> final" for j
      using that True le_eq_less_or_eq [of i j] by auto
    with r 1(2,3,4) True show ?thesis by (subst (asm) scan_slice.simps) (auto simp: Suc_le_eq)
  next
    case False
    with 1(2-6) show ?thesis by (subst (asm) scan_slice.simps) auto
  qed
qed

lemma push_decimated_kept:
  assumes "sorted_wrt (<) xs" "sorted_wrt (<) ks" "\<forall>k\<in>set ks. k \<le> i" "i < length xs"
  shows "push_decimated xs ys i (map (chart_point xs ys) ks) =
           map (chart_point xs ys) (if ks \<noteq> [] \<and> last ks = i then ks else ks @ [i])"
proof (cases "ks = []")
  case True
  then show ?thesis by (simp add: push_decimated_def chart_point_def)
next
  case False
  then have "last ks \<le> i" using assms(3) by simp
  then have "xs ! last ks = xs ! i \<longleftrightarrow> last ks = i"
    using sorted_wrt_nth_less [OF assms(1), of "last ks" i] assms(4) by (cases "last ks = i") auto
  with False show ?thesis by (simp add: push_decimated_def chart_point_def last_map)
qed

lemma push_slice_kept:
  assumes asc: "sorted_wrt (<) xs" "sorted_wrt (<) ks" and old: "\<forall>k\<in>set ks. k < i"
    and lo: "i \<le> lo" "lo < length xs" and hi: "i \<le> hi" "hi < length xs"
  shows "push_slice xs ys (Some lo) (Some hi) (map (chart_point xs ys) ks) =
           map (chart_point xs ys) (ks @ (if lo < hi then [lo, hi] else if lo = hi then [lo] else [hi, lo]))"
proof -
  have p: "push_decimated xs ys b (push_decimated xs ys a (map (chart_point xs ys) ks)) =
             map (chart_point xs ys) (ks @ (if a = b then [a] else [a, b]))"
    if "i \<le> a" "a \<le> b" "b < length xs" for a b
  proof -
    have 1: "push_decimated xs ys a (map (chart_point xs ys) ks) = map (chart_point xs ys) (ks @ [a])"
      using push_decimated_kept [OF asc, of a ys] old that last_in_set [of ks] by fastforce
    have 2: "sorted_wrt (<) (ks @ [a])" "\<forall>k\<in>set (ks @ [a]). k \<le> b"
      using asc(2) old that by (fastforce simp: sorted_wrt_append)+
    show ?thesis unfolding 1 using push_decimated_kept [OF asc(1) 2, of ys] that by simp
  qed
  show ?thesis
    using p [of lo hi] p [of hi lo] lo hi by (simp add: push_slice_def)
qed

text \<open>The kept indices \<open>ks\<close> hold, within \<open>d\<close> of the reading \<open>j\<close>, one as low and one as high.\<close>

definition near_extremes :: "rat list \<Rightarrow> rat list \<Rightarrow> rat \<Rightarrow> nat list \<Rightarrow> nat \<Rightarrow> bool" where
  "near_extremes xs ys d ks j \<longleftrightarrow>
     (\<exists>k\<in>set ks. ys ! k \<le> ys ! j \<and> \<bar>xs ! k - xs ! j\<bar> \<le> d) \<and>
     (\<exists>k\<in>set ks. ys ! j \<le> ys ! k \<and> \<bar>xs ! k - xs ! j\<bar> \<le> d)"

lemma near_extremes_mono: "near_extremes xs ys d ks j \<Longrightarrow> set ks \<subseteq> set ls \<Longrightarrow> near_extremes xs ys d ls j"
  unfolding near_extremes_def by blast

lemma near_extremes_self: "0 \<le> d \<Longrightarrow> j \<in> set ks \<Longrightarrow> near_extremes xs ys d ks j"
  unfolding near_extremes_def by force

definition slices_kept :: "rat list \<Rightarrow> rat list \<Rightarrow> nat \<Rightarrow> rat \<Rightarrow> nat \<Rightarrow> nat \<Rightarrow> nat list \<Rightarrow> bool" where
  "slices_kept xs ys buckets width b i ks \<longleftrightarrow>
     b \<le> buckets \<and> 0 < i \<and> i \<le> length xs - 1 \<and> ks \<noteq> [] \<and> hd ks = 0 \<and> sorted_wrt (<) ks \<and>
     (\<forall>k\<in>set ks. k < i) \<and> length ks \<le> 1 + 2 * b \<and>
     (\<forall>j<i. near_extremes xs ys (width / of_nat buckets) ks j) \<and>
     (\<forall>j. i \<le> j \<longrightarrow> j < length xs \<longrightarrow> xs ! 0 + width * of_nat b / of_nat buckets \<le> xs ! j) \<and>
     (b = buckets \<longrightarrow> i = length xs - 1)"

lemma slice_end_next: "slice_end x0 w B b = x0 + w * of_nat (Suc b) / of_nat B"
  by (simp add: slice_end_def)

lemma slice_end_last: "0 < B \<Longrightarrow> slice_end x0 w B (B - 1) = x0 + w"
  by (simp add: slice_end_def)

lemma slice_end_below:
  assumes "b < B" "0 \<le> w"
  shows "slice_end x0 w B b \<le> x0 + w"
proof -
  have "w * of_nat (b + 1) \<le> w * of_nat B" using assms by (intro mult_left_mono) auto
  then have "w * of_nat (b + 1) / of_nat B \<le> w" using assms(1) by (simp add: divide_le_eq)
  then show ?thesis by (simp add: slice_end_def)
qed

lemma ascending_mono: "sorted_wrt (<) xs \<Longrightarrow> j \<le> k \<Longrightarrow> k < length xs \<Longrightarrow> xs ! j \<le> (xs ! k :: rat)"
  using sorted_wrt_nth_less [of "(<)" xs j k] by (cases "j = k") auto

lemma slice_step:
  assumes asc: "sorted_wrt (<) xs" and w: "w = xs ! (length xs - 1) - xs ! 0" "0 < w"
    and kept: "slices_kept xs ys B w b i ks" and b: "b < B" and i: "i < length xs - 1"
    and scan: "scan_slice xs ys (slice_end (xs ! 0) w B b) (b = B - 1) (length xs - 1) i None None = (i', m, M)"
  shows "\<exists>ks'. push_slice xs ys m M (map (chart_point xs ys) ks) = map (chart_point xs ys) ks' \<and>
               slices_kept xs ys B w (Suc b) i' ks'"
proof -
  let ?e = "slice_end (xs ! 0) w B b" and ?pt = "map (chart_point xs ys)"
  have none: "extreme_at r ys i i None" for r by (simp add: extreme_at_def)
  have f: "i \<le> i'" "i' \<le> length xs - 1" "extreme_at (\<le>) ys i i' m" "extreme_at (\<ge>) ys i i' M"
    "\<And>j. i \<le> j \<Longrightarrow> j < i' \<Longrightarrow> xs ! j \<le> ?e \<or> b = B - 1"
    "i' < length xs - 1 \<Longrightarrow> ?e < xs ! i' \<and> b \<noteq> B - 1"
    using scan_slice_facts [OF scan order.refl less_imp_le [OF i] none none] by auto
  note mono = ascending_mono [OF asc]
  have top: "xs ! j \<le> xs ! 0 + w" if "j < length xs" for j
    using mono [of j "length xs - 1"] that w(1) by simp
  have lower: "xs ! 0 + w * of_nat b / of_nat B \<le> xs ! j" if "i \<le> j" "j < length xs" for j
    using kept that by (simp add: slices_kept_def)
  have upper: "xs ! j \<le> ?e" if "i \<le> j" "j < i'" for j
    using f(5) [OF that] top [of j] slice_end_last [of B "xs ! 0" w] that f(2) b by auto
  have above: "?e \<le> xs ! j" if j: "i' \<le> j" "j < length xs" for j
  proof (cases "i' < length xs - 1")
    case True
    then show ?thesis using f(6) mono [OF j] by auto
  next
    case False
    then have "j = length xs - 1" using j f(2) by simp
    then show ?thesis using slice_end_below [OF b, of w "xs ! 0"] w by simp
  qed
  have size: "?e - (xs ! 0 + w * of_nat b / of_nat B) = w / of_nat B"
    by (simp add: slice_end_def add_divide_distrib algebra_simps)
  have near: "\<bar>xs ! k - xs ! j\<bar> \<le> w / of_nat B" if "i \<le> k" "k < i'" "i \<le> j" "j < i'" for j k
    using lower [of j] lower [of k] upper [of j] upper [of k] size that f(2) by linarith
  have last_slice: "Suc b = B \<Longrightarrow> i' = length xs - 1" using f(2,6) by fastforce
  have keep: "slices_kept xs ys B w (Suc b) i' (ks @ ls)"
    if ls: "sorted_wrt (<) ls" "\<forall>k\<in>set ls. i \<le> k \<and> k < i'" "length ls \<le> 2"
      and cov: "\<And>j. i \<le> j \<Longrightarrow> j < i' \<Longrightarrow> near_extremes xs ys (w / of_nat B) ls j" for ls
  proof -
    have "near_extremes xs ys (w / of_nat B) (ks @ ls) j" if "j < i'" for j
    proof (cases "j < i")
      case True
      then show ?thesis using kept by (auto simp: slices_kept_def intro: near_extremes_mono)
    next
      case False
      then show ?thesis using cov [of j] that by (auto intro: near_extremes_mono)
    qed
    moreover have "sorted_wrt (<) (ks @ ls)" "\<forall>k\<in>set (ks @ ls). k < i'"
      using kept ls f(1) by (fastforce simp: slices_kept_def sorted_wrt_append)+
    ultimately show ?thesis
      using kept ls(3) f(1,2) b last_slice above slice_end_next [of "xs ! 0" w B b]
      by (simp add: slices_kept_def)
  qed
  show ?thesis
  proof (cases "m = None \<or> M = None")
    case True
    then have "i' = i" "m = None" "M = None" using f(3,4) by (auto simp: extreme_at_def split: option.splits)
    then show ?thesis using keep [of "[]"] by (auto simp: push_slice_def)
  next
    case False
    then obtain lo hi where m: "m = Some lo" "M = Some hi" by auto
    with f(3,4) have lo: "i \<le> lo" "lo < i'" "\<And>j. i \<le> j \<Longrightarrow> j < i' \<Longrightarrow> ys ! lo \<le> ys ! j"
      and hi: "i \<le> hi" "hi < i'" "\<And>j. i \<le> j \<Longrightarrow> j < i' \<Longrightarrow> ys ! j \<le> ys ! hi"
      by (auto simp: extreme_at_def)
    define ls where "ls = (if lo < hi then [lo, hi] else if lo = hi then [lo] else [hi, lo])"
    have set: "set ls = {lo, hi}" by (auto simp: ls_def)
    have "near_extremes xs ys (w / of_nat B) ls j" if "i \<le> j" "j < i'" for j
      unfolding near_extremes_def set using lo hi near that by blast
    then have "slices_kept xs ys B w (Suc b) i' (ks @ ls)"
      using set lo hi by (intro keep) (auto simp: ls_def)
    moreover have "push_slice xs ys m M (?pt ks) = ?pt (ks @ ls)"
      unfolding m ls_def using kept lo hi f(2) i asc
      by (intro push_slice_kept [where i = i]) (auto simp: slices_kept_def)
    ultimately show ?thesis by blast
  qed
qed

lemma slices_facts:
  assumes asc: "sorted_wrt (<) xs" and w: "w = xs ! (length xs - 1) - xs ! 0" "0 < w"
  shows "slices_kept xs ys B w b i ks \<Longrightarrow>
    \<exists>b' ks'. decimate_slices xs ys B (xs ! 0) w b i (map (chart_point xs ys) ks) = map (chart_point xs ys) ks' \<and>
             slices_kept xs ys B w b' (length xs - 1) ks'"
proof (induction "B - b" arbitrary: b i ks)
  case 0
  then have "b = B" "i = length xs - 1" by (auto simp: slices_kept_def)
  then show ?case using 0 by (subst decimate_slices.simps) auto
next
  case (Suc n)
  show ?case
  proof (cases "i < length xs - 1")
    case True
    have b: "b < B" using Suc(2) by simp
    obtain i' m M where s: "scan_slice xs ys (slice_end (xs ! 0) w B b) (b = B - 1) (length xs - 1) i None None = (i', m, M)"
      by (metis prod_cases3)
    obtain ks' where k: "push_slice xs ys m M (map (chart_point xs ys) ks) = map (chart_point xs ys) ks'"
      "slices_kept xs ys B w (Suc b) i' ks'"
      using slice_step [OF asc w Suc(3) b True s] by blast
    have "n = B - Suc b" using Suc(2) by simp
    from Suc(1) [OF this k(2)] show ?thesis
      using b True s k(1) by (subst decimate_slices.simps) simp
  next
    case False
    then have "i = length xs - 1" using Suc(3) by (simp add: slices_kept_def)
    then show ?thesis using Suc(3) by (subst decimate_slices.simps) auto
  qed
qed

lemma ascending_subseq:
  assumes "sorted_wrt (<) ks" "\<forall>k\<in>set ks. k < n"
  shows "subseq ks [0..<n]"
proof -
  have 1: "sorted ks" "distinct ks" using assms(1) by (simp_all add: strict_sorted_iff)
  have 2: "sorted (filter (\<lambda>k. k \<in> set ks) [0..<n])" "distinct (filter (\<lambda>k. k \<in> set ks) [0..<n])"
    by (simp_all add: sorted_wrt_filter)
  have "set ks = set (filter (\<lambda>k. k \<in> set ks) [0..<n])" using assms(2) by auto
  then have "ks = filter (\<lambda>k. k \<in> set ks) [0..<n]"
    by (rule sorted_distinct_set_unique [OF 1 2])
  then show ?thesis by (metis subseq_filter_left)
qed

lemma chart_points_zip: "length ys = length xs \<Longrightarrow> map (chart_point xs ys) [0..<length xs] = zip xs ys"
  by (rule nth_equalityI) (simp_all add: chart_point_def)

lemma ascending_le_last: "sorted_wrt (<) ks \<Longrightarrow> k \<in> set ks \<Longrightarrow> k \<le> last (ks :: nat list)"
  by (induction ks) (auto dest: less_imp_le)

lemma zip_map_fst_snd: "zip (map fst ps) (map snd ps) = ps"
  by (induction ps) auto

lemma decimate_dense:
  assumes asc: "sorted_wrt (<) xs" and B: "0 < B" "2 * B < length xs"
  shows "\<exists>ks. decimateMinMax xs ys B = (map fst (map (chart_point xs ys) ks), map snd (map (chart_point xs ys) ks)) \<and>
              sorted_wrt (<) ks \<and> ks \<noteq> [] \<and> hd ks = 0 \<and> last ks = length xs - 1 \<and> length ks \<le> 2 * B + 2 \<and>
              (\<forall>j<length xs. near_extremes xs ys ((xs ! (length xs - 1) - xs ! 0) / of_nat B) ks j)"
proof -
  define w where "w = xs ! (length xs - 1) - xs ! 0"
  have w: "0 < w" using sorted_wrt_nth_less [OF asc, of 0 "length xs - 1"] B by (simp add: w_def)
  have first: "push_decimated xs ys 0 [] = map (chart_point xs ys) [0]" by (simp add: push_decimated_def chart_point_def)
  have above: "xs ! 0 \<le> xs ! j" if "1 \<le> j" "j < length xs" for j
    using sorted_wrt_nth_less [OF asc, of 0 j] that by auto
  have "near_extremes xs ys (w / of_nat B) [0] j" if "j < 1" for j
    using that w B by (auto intro!: near_extremes_self)
  then have "slices_kept xs ys B w 0 1 [0]" using B above by (auto simp: slices_kept_def)
  from slices_facts [OF asc w_def w this] obtain b ks where
    ks: "decimate_slices xs ys B (xs ! 0) w 0 1 (push_decimated xs ys 0 []) = map (chart_point xs ys) ks"
      "slices_kept xs ys B w b (length xs - 1) ks" unfolding first by blast
  let ?n = "length xs - 1"
  have below: "\<forall>k\<in>set ks. k < ?n" and ne: "ks \<noteq> []" "hd ks = 0" "sorted_wrt (<) ks"
    and cov: "\<And>j. j < ?n \<Longrightarrow> near_extremes xs ys (w / of_nat B) ks j" and len: "length ks \<le> 1 + 2 * B"
    using ks(2) by (auto simp: slices_kept_def)
  have "last ks \<noteq> ?n" using below last_in_set [OF ne(1)] by force
  then have "push_decimated xs ys ?n (map (chart_point xs ys) ks) = map (chart_point xs ys) (ks @ [?n])"
    using push_decimated_kept [OF asc ne(3), of ?n ys] below B by fastforce
  then have out: "decimateMinMax xs ys B = (map fst (map (chart_point xs ys) (ks @ [?n])), map snd (map (chart_point xs ys) (ks @ [?n])))"
    using B w ks(1) by (simp add: decimateMinMax_def w_def Let_def)
  have "near_extremes xs ys (w / of_nat B) (ks @ [?n]) j" if "j < length xs" for j
  proof (cases "j = ?n")
    case True
    then show ?thesis using w B by (intro near_extremes_self) auto
  next
    case False
    then have "j < ?n" using that by simp
    then show ?thesis by (rule near_extremes_mono [OF cov]) auto
  qed
  then show ?thesis unfolding w_def [symmetric]
    using out ne below len by (intro exI [of _ "ks @ [?n]"]) (auto simp: sorted_wrt_append)
qed

lemma all_near_self:
  fixes ps :: chart_points
  assumes "0 \<le> d"
  shows "list_all (\<lambda>(x, y).
    list_ex (\<lambda>(x', y'). y' \<le> y \<and> \<bar>x' - x\<bar> \<le> d) ps \<and> list_ex (\<lambda>(x', y'). y \<le> y' \<and> \<bar>x' - x\<bar> \<le> d) ps) ps"
proof -
  have "(\<exists>(x', y')\<in>set ps. y' \<le> y \<and> \<bar>x' - x\<bar> \<le> d) \<and> (\<exists>(x', y')\<in>set ps. y \<le> y' \<and> \<bar>x' - x\<bar> \<le> d)"
    if "(x, y) \<in> set ps" for x y
    using that assms by (intro conjI bexI [of _ "(x, y)"]) auto
  then show ?thesis unfolding list_all_iff list_ex_iff by blast
qed

text \<open>C14: On a line with strictly ascending times the decimation to \<open>buckets\<close> slices returns at
  most 2 * buckets + 2 points, all of them points of the line in its order, among them its first
  and its last; and every reading of the line has a kept reading at least as low and a kept
  reading at least as high no further from it than one slice, so that no spike is lost.\<close>

theorem decimation_faithful:
  assumes "sorted_wrt (<) xs" "length ys = length xs" "xs \<noteq> []" "0 < buckets"
  shows "case decimateMinMax xs ys buckets of (ox, oy) \<Rightarrow>
    length oy = length ox \<and> length ox \<le> 2 * buckets + 2 \<and>
    subseq (zip ox oy) (zip xs ys) \<and>
    hd (zip ox oy) = (hd xs, hd ys) \<and> last (zip ox oy) = (last xs, last ys) \<and>
    list_all (\<lambda>(x, y).
      list_ex (\<lambda>(x', y'). y' \<le> y \<and> \<bar>x' - x\<bar> \<le> (last xs - hd xs) / of_nat buckets) (zip ox oy) \<and>
      list_ex (\<lambda>(x', y'). y \<le> y' \<and> \<bar>x' - x\<bar> \<le> (last xs - hd xs) / of_nat buckets) (zip ox oy))
      (zip xs ys)"
proof -
  let ?d = "(last xs - hd xs) / of_nat buckets"
  have ys: "ys \<noteq> []" using assms(2,3) by (metis length_0_conv)
  then have ends: "hd xs = xs ! 0" "last xs = xs ! (length xs - 1)" "hd ys = ys ! 0" "last ys = ys ! (length xs - 1)"
    using assms(2,3) by (simp_all add: hd_conv_nth last_conv_nth)
  have "xs ! 0 \<le> xs ! (length xs - 1)"
    using assms(3) by (intro ascending_mono [OF assms(1)]) auto
  then have d: "0 \<le> ?d" unfolding ends by simp
  show ?thesis
  proof (cases "length xs \<le> 2 * buckets")
    case True
    then have "decimateMinMax xs ys buckets = (xs, ys)" by (simp add: decimateMinMax_def mult.commute)
    moreover have "hd (zip xs ys) = (hd xs, hd ys)" "last (zip xs ys) = (last xs, last ys)"
      using assms(2,3) ys by (simp_all add: last_zip hd_zip)
    moreover have "list_all (\<lambda>(x, y).
        list_ex (\<lambda>(x', y'). y' \<le> y \<and> \<bar>x' - x\<bar> \<le> ?d) (zip xs ys) \<and>
        list_ex (\<lambda>(x', y'). y \<le> y' \<and> \<bar>x' - x\<bar> \<le> ?d) (zip xs ys)) (zip xs ys)"
      by (rule all_near_self [OF d])
    ultimately show ?thesis using True assms(2) by simp
  next
    case False
    then obtain ks where ks:
      "decimateMinMax xs ys buckets = (map fst (map (chart_point xs ys) ks), map snd (map (chart_point xs ys) ks))"
      "sorted_wrt (<) ks" "ks \<noteq> []" "hd ks = 0" "last ks = length xs - 1" "length ks \<le> 2 * buckets + 2"
      "\<And>j. j < length xs \<Longrightarrow> near_extremes xs ys ?d ks j"
      using decimate_dense [OF assms(1,4), of ys] unfolding ends by auto
    have "\<forall>k\<in>set ks. k < length xs"
    proof
      fix k assume "k \<in> set ks"
      then have "k \<le> last ks" using ks(2,3) by (intro ascending_le_last)
      then show "k < length xs" using ks(5) assms(3) by (cases xs) auto
    qed
    then have sub: "subseq (map (chart_point xs ys) ks) (zip xs ys)"
      using subseq_map [OF ascending_subseq [OF ks(2)]] chart_points_zip [OF assms(2)] by metis
    have "list_all (\<lambda>(x, y).
        list_ex (\<lambda>(x', y'). y' \<le> y \<and> \<bar>x' - x\<bar> \<le> ?d) (map (chart_point xs ys) ks) \<and>
        list_ex (\<lambda>(x', y'). y \<le> y' \<and> \<bar>x' - x\<bar> \<le> ?d) (map (chart_point xs ys) ks)) (zip xs ys)"
      unfolding chart_points_zip [OF assms(2), symmetric]
      using ks(7) by (fastforce simp: list_all_iff list_ex_iff chart_point_def near_extremes_def)
    with sub show ?thesis
      using ks(3,4,5,6) unfolding ks(1) by (simp add: zip_map_fst_snd hd_map last_map chart_point_def ends del: map_map)
  qed
qed

text \<open>The spike of one reading survives a decimation to a single slice.\<close>

lemma decimation_faithful_witness:
  "case decimateMinMax [0, 1, 2, 3, 4] [0, 0, 90, 0, 0] 1 of (ox, oy) \<Rightarrow>
     ox = [0, 1, 2, 4] \<and> oy = [0, 0, 90, 0] \<and> length ox \<le> 2 * 1 + 2"
proof -
  have "decimateMinMax [0, 1, 2, 3, 4] [0, 0, 90, 0, 0] 1 = ([0, 1, 2, 4], [0, 0, 90, 0])"
    by (simp add: decimateMinMax_def push_decimated_def push_slice_def slice_end_def scan_slice.simps decimate_slices.simps
        Let_def)
  then show ?thesis
    using decimation_faithful [of "[0, 1, 2, 3, 4]" "[0, 0, 90, 0, 0]" 1] by simp
qed

end
