(* ===== verification/Chart_Series.thy ===== *)
theory Chart_Series imports Js_Number begin

text \<open>
  The trend chart's ranges and its on/off series (\<open>packages/shared/src/chart-range.ts\<close>,
  \<open>bool-series.ts\<close>).  \<open>boolBuckets\<close> walks the buckets as the code's \<open>forEach\<close> does; what a
  reader sees of its columns is \<open>drawn_at\<close>, the value of the last point at or before a time,
  and the main lemma compares it with \<open>known_state\<close>, which looks at the buckets alone.
\<close>

section \<open>Ranges\<close>

definition HOUR :: int where "HOUR = 60 * 60 * 1000"

definition RANGE_OPTIONS :: "(string \<times> int) list" where
  "RANGE_OPTIONS =
     [(''1m'', 60 * 1000), (''10m'', 10 * 60 * 1000), (''1h'', HOUR), (''6h'', 6 * HOUR),
      (''24h'', 24 * HOUR), (''7d'', 7 * 24 * HOUR)]"

definition DEFAULT_RANGE_MS :: int where
  "DEFAULT_RANGE_MS = snd (the (List.find (\<lambda>(label, ms). label = ''10m'') RANGE_OPTIONS))"

text \<open>\<open>Math.round\<close>: halves go up.\<close>

definition js_round :: "rat \<Rightarrow> int" where
  "js_round q = \<lfloor>q + 1 / 2\<rfloor>"

definition slideIntervalMs :: "int \<Rightarrow> int" where
  "slideIntervalMs rangeMs = min 60000 (max 1000 (js_round (of_int rangeMs / 120)))"

definition pinnedWindow :: "int \<Rightarrow> int \<Rightarrow> rat \<times> rat" where
  "pinnedWindow rangeMs nowMs = (let now = of_int nowMs / 1000 in (now - of_int rangeMs / 1000, now))"

datatype resolution = Raw | Minute_rollup | Hour_rollup

definition resolutionFor :: "int \<Rightarrow> resolution" where
  "resolutionFor rangeMs =
     (if rangeMs \<le> HOUR then Raw else if rangeMs \<le> 24 * HOUR then Minute_rollup else Hour_rollup)"

definition resolution_seconds :: "resolution \<Rightarrow> int" where
  "resolution_seconds r = (case r of Raw \<Rightarrow> 1 | Minute_rollup \<Rightarrow> 60 | Hour_rollup \<Rightarrow> 3600)"

text \<open>Every range on offer slides at least once a minute and at most once a second, in no more
  than 605 steps across its window, and reads at most 3,600 points one resolution step apart.\<close>

lemma DEFAULT_RANGE_MS: "DEFAULT_RANGE_MS = 600000"
  by (simp add: DEFAULT_RANGE_MS_def RANGE_OPTIONS_def)

lemma slideIntervalMs_bounds: "1000 \<le> slideIntervalMs r \<and> slideIntervalMs r \<le> 60000"
  by (simp add: slideIntervalMs_def)

lemma ranges_stay_readable:
  "list_all (\<lambda>(label, ms). ms div (1000 * resolution_seconds (resolutionFor ms)) \<le> 3600) RANGE_OPTIONS"
  by (simp add: RANGE_OPTIONS_def HOUR_def resolutionFor_def resolution_seconds_def)

section \<open>On/off series\<close>

type_synonym bool_points = "(rat \<times> rat option) list"

definition is_pure :: "rat \<Rightarrow> bool" where
  "is_pure value \<longleftrightarrow> value \<le> 0 \<or> 1 \<le> value"

definition on_off :: "rat \<Rightarrow> rat" where
  "on_off value = (if 0 < value then 1 else 0)"

text \<open>What one bucket pushes; \<open>next\<close> is the time of the following bucket, None for Infinity.\<close>

definition bucket_points :: "rat \<Rightarrow> rat \<Rightarrow> rat \<Rightarrow> rat option \<Rightarrow> bool_points" where
  "bucket_points w t value next =
     (let v = on_off value; end = t + w in
      (t, Some v) #
      (if is_pure value then []
       else case next of
         None \<Rightarrow> [(end - 1 / 1000, Some v)]
       | Some nextT \<Rightarrow> if nextT \<le> end then [] else [(end - 1 / 1000, Some v), (end, None)]))"

definition next_time :: "rat list \<Rightarrow> rat option" where
  "next_time ts = (case ts of [] \<Rightarrow> None | t # _ \<Rightarrow> Some t)"

fun bool_steps :: "rat \<Rightarrow> rat list \<Rightarrow> rat list \<Rightarrow> bool_points" where
  "bool_steps w (t # ts) (v # vs) = bucket_points w t v (next_time ts) @ bool_steps w ts vs"
| "bool_steps w ts vs = []"

definition boolBuckets :: "rat list \<Rightarrow> rat list \<Rightarrow> rat \<Rightarrow> rat list \<times> rat option list" where
  "boolBuckets ts vs bucketSec =
     (let ps = bool_steps bucketSec ts vs in (map fst ps, map snd ps))"

text \<open>The step line at time \<open>x\<close>: the last point at or before it.  A gap and a time before the
  first point draw nothing.\<close>

definition drawn_at :: "bool_points \<Rightarrow> rat \<Rightarrow> rat option" where
  "drawn_at ps x =
     (let qs = filter (\<lambda>p. fst p \<le> x) ps in if qs = [] then None else snd (last qs))"

text \<open>What the buckets say about time \<open>x\<close>.\<close>

definition known_state :: "rat \<Rightarrow> (rat \<times> rat) list \<Rightarrow> rat \<Rightarrow> rat option" where
  "known_state w buckets x =
     (let qs = filter (\<lambda>p. fst p \<le> x) buckets; (t, value) = last qs in
      if qs = [] then None
      else if value \<le> 0 then Some 0 else if 1 \<le> value then Some 1
      else if x < t + w then Some 1 else None)"

lemma drawn_at_append:
  "drawn_at (ps @ qs) x =
     (if filter (\<lambda>p. fst p \<le> x) qs = [] then drawn_at ps x else drawn_at qs x)"
  by (auto simp: drawn_at_def)

lemma bool_steps_first: "length vs = length ts \<Longrightarrow> p \<in> set (bool_steps w ts vs) \<Longrightarrow> sorted_wrt (<) ts \<Longrightarrow> 1 / 1000 < w \<Longrightarrow> hd ts \<le> fst p"
proof (induction w ts vs rule: bool_steps.induct)
  case (1 w t ts v vs)
  have "t \<le> fst p" if "p \<in> set (bool_steps w ts vs)"
  proof -
    from that have "ts \<noteq> []" by auto
    then have "t < hd ts" using 1(4) by (cases ts) auto
    with 1 that show ?thesis by auto
  qed
  with 1(3,5) show ?case by (auto simp: bucket_points_def Let_def split: if_splits option.splits)
qed auto

lemma bool_steps_ascending:
  assumes "1 / 1000 < w"
  shows "length vs = length ts \<Longrightarrow> sorted_wrt (<) ts \<Longrightarrow> sorted_wrt (\<lambda>p q. fst p < fst q) (bool_steps w ts vs)"
  using assms
proof (induction w ts vs rule: bool_steps.induct)
  case (1 w t ts v vs)
  have "fst p < fst q" if "p \<in> set (bucket_points w t v (next_time ts))" "q \<in> set (bool_steps w ts vs)" for p q
  proof -
    from that obtain u us where ts: "ts = u # us" by (cases ts) auto
    have "u \<le> fst q" using bool_steps_first [of vs ts q w] that(2) 1(2,3,4) ts by auto
    moreover have "fst p < u" using that(1) 1(3,4) ts
      by (auto simp: bucket_points_def next_time_def Let_def split: if_splits)
    ultimately show ?thesis by simp
  qed
  then show ?case using 1
    by (auto simp: sorted_wrt_append bucket_points_def Let_def split: option.splits)
qed auto

lemma bool_steps_later:
  assumes "length vs = length us" "sorted_wrt (<) (u # us)" "1 / 1000 < w" "x < u"
  shows "filter (\<lambda>p. fst p \<le> x) (bool_steps w (u # us) (v # vs)) = []"
  using assms bool_steps_first [of "v # vs" "u # us" _ w] by (fastforce simp: filter_empty_conv)

lemma one_bucket_drawn:
  assumes "1 / 1000 < w" "case nxt of None \<Rightarrow> x \<le> fst (last (bucket_points w t v None)) | Some u \<Rightarrow> x < u"
  shows "drawn_at (bucket_points w t v nxt) x = known_state w [(t, v)] x"
  using assms
  by (cases nxt; cases "v \<le> 0"; cases "1 \<le> v"; cases "t \<le> x")
     (auto simp: bucket_points_def drawn_at_def known_state_def is_pure_def on_off_def Let_def split: if_splits)

lemma known_state_skip:
  "filter (\<lambda>p. fst p \<le> x) qs \<noteq> [] \<Longrightarrow> known_state w (p # qs) x = known_state w qs x"
  by (simp add: known_state_def)

lemma known_state_only:
  "filter (\<lambda>p. fst p \<le> x) qs = [] \<Longrightarrow> known_state w (p # qs) x = known_state w [p] x"
  by (auto simp: known_state_def)

lemma bool_steps_drawn:
  assumes "1 / 1000 < w"
  shows "length vs = length ts \<Longrightarrow> sorted_wrt (<) ts \<Longrightarrow> ts \<noteq> [] \<Longrightarrow> x \<le> fst (last (bool_steps w ts vs)) \<Longrightarrow>
    drawn_at (bool_steps w ts vs) x = known_state w (zip ts vs) x"
  using assms
proof (induction w ts vs rule: bool_steps.induct)
  case (1 w t ts v vs)
  show ?case
  proof (cases ts)
    case Nil
    then show ?thesis using 1(2,5,6) one_bucket_drawn [where nxt = None and w = w and x = x and t = t and v = v] by (simp add: next_time_def)
  next
    case (Cons u us)
    then obtain v' vs' where vs: "vs = v' # vs'" "length vs' = length us" using 1(2) by (cases vs) auto
    have nt: "next_time ts = Some u" by (simp add: Cons next_time_def)
    have ne: "bool_steps w ts vs \<noteq> []" by (simp add: Cons vs bucket_points_def Let_def)
    show ?thesis
    proof (cases "u \<le> x")
      case True
      then have "filter (\<lambda>p. fst p \<le> x) (bool_steps w ts vs) \<noteq> []" "filter (\<lambda>p. fst p \<le> x) (zip ts vs) \<noteq> []"
        by (auto simp: Cons vs bucket_points_def Let_def)
      then show ?thesis using 1 ne Cons by (simp add: drawn_at_append known_state_skip)
    next
      case False
      have asc: "sorted_wrt (<) (u # us)" using 1(3) Cons by simp
      have 2: "filter (\<lambda>p. fst p \<le> x) (bool_steps w ts vs) = []"
        unfolding Cons vs(1) using bool_steps_later [OF vs(2) asc 1(6)] False by simp
      have 3: "filter (\<lambda>p. fst p \<le> x) (zip ts vs) = []"
      proof -
        have "u \<le> a" if "a \<in> set ts" for a using that asc Cons by auto
        then have "\<not> fst p \<le> x" if "p \<in> set (zip ts vs)" for p
          using that False by (metis fst_conv order.trans prod.collapse set_zip_leftD)
        then show ?thesis by (simp add: filter_empty_conv)
      qed
      have "drawn_at (bool_steps w (t # ts) (v # vs)) x = drawn_at (bucket_points w t v (Some u)) x"
        by (simp only: bool_steps.simps drawn_at_append nt 2 if_True simp_thms)
      moreover have "known_state w (zip (t # ts) (v # vs)) x = known_state w [(t, v)] x"
        by (simp only: zip_Cons_Cons known_state_only [OF 3])
      moreover have "drawn_at (bucket_points w t v (Some u)) x = known_state w [(t, v)] x"
        using 1(6) False by (intro one_bucket_drawn) auto
      ultimately show ?thesis by simp
    qed
  qed
qed auto

lemma zip_fst_snd: "zip (map fst ps) (map snd ps) = ps"
  by (induction ps) auto

text \<open>On buckets at strictly ascending times the columns of \<open>boolBuckets\<close> are aligned, their
  times strictly ascend, and at every time up to the last of them the line draws exactly what
  the buckets say: the state of a pure bucket until the next one, On for the width of a bucket
  that changed, and nothing between its end and the next.\<close>

theorem boolBuckets_draws_known:
  assumes "sorted_wrt (<) ts" "length vs = length ts" "ts \<noteq> []" "1 / 1000 < w"
  shows "case boolBuckets ts vs w of (ox, oy) \<Rightarrow>
    length oy = length ox \<and> sorted_wrt (<) ox \<and>
    (last ox < x \<or> drawn_at (zip ox oy) x = known_state w (zip ts vs) x)"
proof -
  have "bool_steps w ts vs \<noteq> []"
    using assms by (cases ts; cases vs) (auto simp: bucket_points_def Let_def)
  then show ?thesis
    using bool_steps_drawn [OF assms(4,2,1,3), of x] bool_steps_ascending [OF assms(4,2,1)]
    by (simp add: boolBuckets_def Let_def zip_fst_snd sorted_wrt_map last_map) linarith
qed

lemma boolBuckets_draws_known_witness:
  "boolBuckets [0, 60, 300] [1 / 2, 1, 0] 60 = ([0, 60, 300], [Some 1, Some 1, Some 0]) \<and>
   boolBuckets [0, 300] [1 / 2, 0] 60 = ([0, 60 - 1 / 1000, 60, 300], [Some 1, Some 1, None, Some 0]) \<and>
   (case boolBuckets [0, 300] [1 / 2, 0] 60 of (ox, oy) \<Rightarrow> drawn_at (zip ox oy) 200 = None)"
  using boolBuckets_draws_known [of "[0, 300]" "[1 / 2, 0]" 60 200]
  by (simp add: boolBuckets_def bucket_points_def next_time_def is_pure_def on_off_def known_state_def)

end
