(* ===== verification/Config_Blob.thy ===== *)
theory Config_Blob
  imports Json "HOL-Library.Word"
begin

text \<open>
  The config partition: the browser's writer (frontend/src/lib/hardware/config-blob.ts) and the board's
  reader (firmware/src/config.cpp, firmware/src/crc32.h). Machine words keep their width: bytes are
  8-bit, the checksum 32-bit, the lengths 32-bit little-endian fields. The JSON library of the
  firmware is a parameter, \<open>deserialize\<close>.
\<close>

unbundle bit_operations_syntax

type_synonym byte = "8 word"
type_synonym u32 = "32 word"

section \<open>CRC-32\<close>

text \<open>\<open>c = c & 1 ? 0xedb88320 ^ (c >>> 1) : c >>> 1\<close>\<close>

definition crc_bit :: "u32 \<Rightarrow> u32" where
  "crc_bit c = (if c AND 1 \<noteq> 0 then 0xedb88320 XOR drop_bit 1 c else drop_bit 1 c)"

definition CRC_TABLE :: "u32 list" where
  "CRC_TABLE = map (\<lambda>n. (crc_bit ^^ 8) (of_nat n)) [0..<256]"

definition crc32 :: "byte list \<Rightarrow> u32" where
  "crc32 bytes =
     foldl (\<lambda>crc b. CRC_TABLE ! unat ((crc XOR ucast b) AND 0xff) XOR drop_bit 8 crc) 0xffffffff bytes XOR 0xffffffff"

text \<open>The firmware's, bit by bit: \<open>crc = (crc >> 1) ^ (0xEDB88320u & (0u - (crc & 1u)))\<close>.\<close>

definition ieee_bit :: "u32 \<Rightarrow> u32" where
  "ieee_bit crc = drop_bit 1 crc XOR (0xEDB88320 AND (0 - (crc AND 1)))"

definition crc32Ieee :: "byte list \<Rightarrow> u32" where
  "crc32Ieee bytes = NOT (foldl (\<lambda>crc b. (ieee_bit ^^ 8) (crc XOR ucast b)) 0xFFFFFFFF bytes)"

section \<open>Writing the blob\<close>

definition encode_text :: "string \<Rightarrow> byte list" where
  "encode_text s = map of_char s"

definition decode_text :: "byte list \<Rightarrow> string" where
  "decode_text bs = map (\<lambda>b. char_of (unat b)) bs"

definition u16_le :: "16 word \<Rightarrow> byte list" where
  "u16_le w = [ucast w, ucast (drop_bit 8 w)]"

definition u32_le :: "u32 \<Rightarrow> byte list" where
  "u32_le w = [ucast w, ucast (drop_bit 8 w), ucast (drop_bit 16 w), ucast (drop_bit 24 w)]"

definition put_bytes :: "nat \<Rightarrow> byte list \<Rightarrow> byte list \<Rightarrow> byte list" where
  "put_bytes off bs blob = take off blob @ bs @ drop (off + length bs) blob"

definition CONFIG_MAGIC :: string where "CONFIG_MAGIC = ''IOCF''"
definition CONFIG_BLOB_VERSION :: "16 word" where "CONFIG_BLOB_VERSION = 1"
definition CONFIG_HEADER_SIZE :: nat where "CONFIG_HEADER_SIZE = 16"

definition encodeConfigBlob :: "json \<Rightarrow> nat \<Rightarrow> string + byte list" where
  "encodeConfigBlob config partitionSize =
     (let js = encode_text (stringify [] config) in
      if partitionSize < CONFIG_HEADER_SIZE + length js
      then Inl (''The device config is '' @ nat_text (length js) @ '' bytes; the board has room for '' @
                int_text (int partitionSize - int CONFIG_HEADER_SIZE) @ ''.'')
      else Inr
        (put_bytes CONFIG_HEADER_SIZE js
        (put_bytes 12 (u32_le (crc32 js))
        (put_bytes 8 (u32_le (of_nat (length js)))
        (put_bytes 6 (u16_le 0)
        (put_bytes 4 (u16_le CONFIG_BLOB_VERSION)
        (put_bytes 0 (encode_text CONFIG_MAGIC) (replicate partitionSize 0xff))))))))"

section \<open>Reading it on the board\<close>

definition readU32 :: "byte list \<Rightarrow> u32" where
  "readU32 p = ucast (p ! 0) OR push_bit 8 (ucast (p ! 1)) OR push_bit 16 (ucast (p ! 2)) OR push_bit 24 (ucast (p ! 3))"

definition readU16 :: "byte list \<Rightarrow> 16 word" where
  "readU16 p = ucast (p ! 0) OR push_bit 8 (ucast (p ! 1))"

text \<open>The partition holds at least a header; it is read from its start to \<open>length part\<close>.\<close>

definition read_blob :: "(string \<Rightarrow> json option) \<Rightarrow> byte list \<Rightarrow> string + json" where
  "read_blob deserialize part =
     (if take 4 part \<noteq> encode_text ''IOCF'' then Inl ''no device config yet: install it from the dashboard''
      else if readU16 (drop 4 part) \<noteq> 1 then Inl ''config format is newer than this firmware; update the firmware''
      else let len = unat (readU32 (drop 8 part)) in
        if len = 0 \<or> length part - CONFIG_HEADER_SIZE < len then Inl ''config length is out of range''
        else let js = take len (drop CONFIG_HEADER_SIZE part) in
          if crc32Ieee js \<noteq> readU32 (drop 12 part) then Inl ''config checksum mismatch: install the config again''
          else case deserialize (decode_text js) of
            None \<Rightarrow> Inl ''config isn't valid JSON''
          | Some v \<Rightarrow> Inr v)"

section \<open>The two checksums agree\<close>

lemma even_and_1: "(c :: u32) AND 1 \<noteq> 0 \<longleftrightarrow> odd c"
  by (simp add: and_one_eq odd_iff_mod_2_eq_one)

lemma ieee_is_crc_bit: "ieee_bit c = crc_bit c"
proof (cases "odd c")
  case True
  then have "c AND 1 = 1" by (simp add: and_one_eq odd_iff_mod_2_eq_one)
  then show ?thesis by (simp add: ieee_bit_def crc_bit_def xor.commute)
next
  case False
  then have "c AND 1 = 0" by (simp add: and_one_eq even_iff_mod_2_eq_zero)
  then show ?thesis by (simp add: ieee_bit_def crc_bit_def)
qed

lemma crc_bit_xor: "crc_bit (x XOR y) = crc_bit x XOR crc_bit y"
proof -
  have s: "crc_bit c = drop_bit 1 c XOR (if odd c then 0xedb88320 else 0)" for c
    by (simp add: crc_bit_def even_and_1 xor.commute)
  have o: "odd (x XOR y) \<longleftrightarrow> odd x \<noteq> odd y" by (simp add: even_xor_iff)
  show ?thesis unfolding s o drop_bit_xor
    by (cases "odd x"; cases "odd y") (simp_all add: ac_simps)
qed

lemma crc_bits_xor: "(crc_bit ^^ n) (x XOR y) = (crc_bit ^^ n) x XOR (crc_bit ^^ n) y"
  by (induction n) (simp_all add: crc_bit_xor)

lemma crc_bits_high: "take_bit n c = 0 \<Longrightarrow> (crc_bit ^^ n) c = drop_bit n (c :: u32)"
proof (induction n arbitrary: c)
  case (Suc n)
  have "bit (take_bit (Suc n) c) 0 \<longleftrightarrow> bit c 0" unfolding bit_take_bit_iff by simp
  then have "even c" unfolding Suc.prems bit_0 by simp
  then have b: "crc_bit c = drop_bit 1 c" by (simp add: crc_bit_def even_and_1)
  have "take_bit n (drop_bit 1 c) = drop_bit 1 (take_bit (Suc n) c)" by (simp add: drop_bit_take_bit)
  then have "take_bit n (drop_bit 1 c) = 0" using Suc.prems by simp
  then have "(crc_bit ^^ n) (drop_bit 1 c) = drop_bit n (drop_bit 1 c)" by (rule Suc.IH)
  then show ?case by (simp add: funpow_Suc_right b del: funpow.simps)
qed simp

lemma crc_split: "(x :: u32) = (x AND 0xff) XOR (x AND NOT 0xff)"
  by (rule bit_word_eqI) (auto simp: bit_simps)

lemma table_step: "CRC_TABLE ! unat ((crc XOR ucast b) AND 0xff) XOR drop_bit 8 crc = (crc_bit ^^ 8) (crc XOR ucast (b :: byte))"
proof -
  let ?x = "crc XOR ucast b :: u32"
  have ff: "(0xff :: u32) = mask 8" by (simp add: mask_eq_exp_minus_1)
  have lo: "?x AND 0xff = take_bit 8 ?x" by (simp only: ff take_bit_eq_mask)
  have "unat (take_bit 8 ?x) < 256"
    using take_bit_nat_less_exp [of 8 "unat ?x"] unfolding unsigned_take_bit_eq by simp
  then have t: "CRC_TABLE ! unat (?x AND 0xff) = (crc_bit ^^ 8) (?x AND 0xff)"
    by (simp add: CRC_TABLE_def lo del: upt_Suc)
  have hi0: "take_bit 8 (?x AND NOT 0xff) = 0"
    by (rule bit_word_eqI) (auto simp: bit_simps ff)
  have "drop_bit 8 (?x AND NOT 0xff) = drop_bit 8 crc"
    by (rule bit_word_eqI) (auto simp: bit_simps ff dest: bit_imp_le_length)
  then have "(crc_bit ^^ 8) (?x AND NOT 0xff) = drop_bit 8 crc" using crc_bits_high [OF hi0] by simp
  then show ?thesis using t crc_bits_xor [of 8 "?x AND 0xff" "?x AND NOT 0xff"] crc_split [of ?x] by simp
qed

lemma crc_eq: "crc32 bytes = crc32Ieee bytes"
proof -
  have f: "ieee_bit = crc_bit" by (rule ext) (rule ieee_is_crc_bit)
  have m: "(0xffffffff :: u32) = - 1" by simp
  have "NOT w = w XOR 0xffffffff" for w :: u32 unfolding m by (rule bit.xor_one_right [symmetric])
  then show ?thesis by (simp add: crc32_def crc32Ieee_def f table_step)
qed

text \<open>
  C8: the browser's table-driven checksum and the firmware's bit-by-bit one are the same function of
  every byte string.
\<close>

theorem crc_agree: "crc32 bytes = crc32Ieee bytes"
  by (rule crc_eq)

section \<open>What the browser writes, the board reads\<close>

lemma put_bytes_length [simp]: "off + length bs \<le> length blob \<Longrightarrow> length (put_bytes off bs blob) = length blob"
  by (simp add: put_bytes_def)

lemma decode_encode [simp]: "decode_text (encode_text s) = s"
proof -
  have "unat (of_nat (of_char c) :: byte) = of_char c" for c :: char
    by (simp only: unat_of_nat) (simp add: of_char_mod_256)
  then have "char_of (unat (of_char c :: byte)) = c" for c :: char by (simp add: of_nat_of_char)
  then show ?thesis by (simp add: decode_text_def encode_text_def comp_def)
qed

lemma length_encode [simp]: "length (encode_text s) = length s"
  by (simp add: encode_text_def)

lemma readU16_le: "readU16 (u16_le w @ rest) = w"
  by (rule bit_word_eqI) (auto simp: readU16_def u16_le_def bit_simps dest: bit_imp_le_length)

lemma readU32_le: "readU32 (u32_le w @ rest) = w"
proof (rule bit_word_eqI)
  fix n assume n: "n < LENGTH(32)"
  consider "n < 8" | "8 \<le> n" "n < 16" | "16 \<le> n" "n < 24" | "24 \<le> n" by linarith
  then show "bit (readU32 (u32_le w @ rest)) n = bit w n"
    by cases (use n in \<open>auto simp: readU32_def u32_le_def bit_simps dest: bit_imp_le_length\<close>)
qed

text \<open>The layout the two sides share.\<close>

lemma encoded_layout:
  assumes "encodeConfigBlob config room = Inr blob"
  defines "js \<equiv> encode_text (stringify [] config)"
  shows "blob = encode_text ''IOCF'' @ u16_le 1 @ u16_le 0 @ u32_le (of_nat (length js)) @ u32_le (crc32 js) @ js @
                replicate (room - 16 - length js) 0xff" and "16 + length js \<le> room"
proof -
  show fits: "16 + length js \<le> room"
    using assms by (auto simp: encodeConfigBlob_def Let_def CONFIG_HEADER_SIZE_def split: if_splits)
  have "replicate room (0xff :: byte) = replicate 16 0xff @ replicate (length js) 0xff @ replicate (room - 16 - length js) 0xff"
    using fits by (simp flip: replicate_add)
  then show "blob = encode_text ''IOCF'' @ u16_le 1 @ u16_le 0 @ u32_le (of_nat (length js)) @ u32_le (crc32 js) @ js @
                replicate (room - 16 - length js) 0xff"
    using assms fits
    by (auto simp: encodeConfigBlob_def Let_def CONFIG_HEADER_SIZE_def CONFIG_MAGIC_def CONFIG_BLOB_VERSION_def put_bytes_def
        u16_le_def u32_le_def encode_text_def numeral_eq_Suc)
qed

lemma read_layout:
  assumes "blob = encode_text ''IOCF'' @ u16_le 1 @ u16_le 0 @ u32_le (of_nat (length js)) @ u32_le (crc32Ieee js) @ js @ pad"
    and "0 < length js" "length js < 2 ^ 32"
  shows "read_blob deserialize blob =
           (case deserialize (decode_text js) of None \<Rightarrow> Inl ''config isn't valid JSON'' | Some v \<Rightarrow> Inr v)"
proof -
  have magic: "take 4 blob = encode_text ''IOCF''" by (simp add: assms(1) encode_text_def)
  have d4: "drop 4 blob = u16_le 1 @ u16_le 0 @ u32_le (of_nat (length js)) @ u32_le (crc32Ieee js) @ js @ pad"
    by (simp add: assms(1) encode_text_def)
  have d8: "drop 8 blob = u32_le (of_nat (length js)) @ u32_le (crc32Ieee js) @ js @ pad"
    by (simp add: assms(1) encode_text_def u16_le_def)
  have d12: "drop 12 blob = u32_le (crc32Ieee js) @ js @ pad"
    by (simp add: assms(1) encode_text_def u16_le_def u32_le_def)
  have d16: "drop 16 blob = js @ pad" by (simp add: assms(1) encode_text_def u16_le_def u32_le_def)
  have len: "length blob = 16 + length js + length pad"
    by (simp add: assms(1) u16_le_def u32_le_def)
  have n: "unat (of_nat (length js) :: u32) = length js"
    using assms(3) by (simp add: unat_of_nat take_bit_nat_eq_self)
  show ?thesis
    unfolding read_blob_def magic d4 d8 d12 CONFIG_HEADER_SIZE_def d16 readU16_le readU32_le Let_def n len
    using assms(2) by simp
qed

lemma stringify_not_Nil: "stringify g v \<noteq> []"
  using render_head [of g 0 v] by (auto simp: stringify_def)

lemma read_encoded:
  assumes "encodeConfigBlob config room = Inr blob" "room < 2 ^ 32" "json_ok config"
    and "\<And>v. json_ok v \<Longrightarrow> deserialize (stringify [] v) = Some v"
  shows "read_blob deserialize blob = Inr config"
proof -
  let ?js = "encode_text (stringify [] config)"
  note l = encoded_layout [OF assms(1)]
  have "0 < length ?js" "length ?js < 2 ^ 32" using stringify_not_Nil l(2) assms(2) by auto
  from read_layout [OF l(1) [unfolded crc_eq] this, of deserialize] show ?thesis
    by (simp add: assms(3,4))
qed

lemma encoded_length:
  assumes "encodeConfigBlob config room = Inr blob"
  shows "16 + length (stringify [] config) \<le> room" "length blob = room"
proof -
  note l = encoded_layout [OF assms]
  show "16 + length (stringify [] config) \<le> room" using l(2) by simp
  show "length blob = room" using l(2) by (subst l(1)) (simp add: u16_le_def u32_le_def)
qed

text \<open>
  For a JSON library that reads back what JSON.stringify prints, the board reads from the blob
  exactly the config the browser wrote, and the blob fills the partition.
\<close>

theorem blob_roundtrip:
  assumes "encodeConfigBlob config room = Inr blob" "room < 2 ^ 32" "json_ok config"
    and "\<And>v. json_ok v \<Longrightarrow> deserialize (stringify [] v) = Some v"
  shows "read_blob deserialize blob = Inr config \<and> length blob = room"
  using read_encoded [OF assms] encoded_length [OF assms(1)] by blast

lemma blob_roundtrip_witness:
  "\<exists>blob. encodeConfigBlob (JObj [(''v'', JNum (Fin 1))]) 64 = Inr blob \<and>
     read_blob json_parse blob = Inr (JObj [(''v'', JNum (Fin 1))])"
proof -
  have "length (stringify [] (JObj [(''v'', JNum (Fin 1))])) = 7" by code_simp
  then obtain blob where b: "encodeConfigBlob (JObj [(''v'', JNum (Fin 1))]) 64 = Inr blob"
    by (simp add: encodeConfigBlob_def Let_def CONFIG_HEADER_SIZE_def)
  have "read_blob json_parse blob = Inr (JObj [(''v'', JNum (Fin 1))]) \<and> length blob = 64"
    by (rule blob_roundtrip [OF b]) (simp_all add: compact.parse_print)
  then show ?thesis using b by blast
qed

text \<open>
  Writing fails exactly when the header and the JSON text do not fit the partition; otherwise
  no byte is written past it.
\<close>

theorem blob_size_error:
  "(case encodeConfigBlob config room of
      Inl e \<Rightarrow> room < 16 + length (stringify [] config)
    | Inr blob \<Rightarrow> 16 + length (stringify [] config) \<le> room \<and> length blob = room)"
proof (cases "encodeConfigBlob config room")
  case (Inl e)
  then show ?thesis by (auto simp: encodeConfigBlob_def Let_def CONFIG_HEADER_SIZE_def split: if_splits)
next
  case (Inr blob)
  then show ?thesis using encoded_length [OF Inr] by simp
qed

end
