(* ===== verification/Hardware_Draft.thy ===== *)
theory Hardware_Draft imports Boards begin

text \<open>
  A template's wiring as the editor holds it (\<open>frontend/src/lib/hardware/hardware-draft.ts\<close>):
  the draft, its conversions, new bindings, the I2C bus, validation, the wiring guide and the move to
  another board.  \<open>uid()\<close> is an argument where a binding is made.  A dictionary read with a
  missing key and one holding null give the same (\<open>pin_of\<close>), as the code's \<open>== null\<close> does.
\<close>

section \<open>The draft\<close>

record binding_draft =
  bd_uid :: string
  bd_driver :: string
  bd_pins :: "nat option dict"
  bd_params :: "param_value dict"
  bd_channels :: "string dict"
  bd_proposed :: "string dict option"

record hardware_draft =
  hd_board :: string
  hd_i2c :: "i2c_bus option"
  hd_inputs :: "binding_draft list"
  hd_outputs :: "binding_draft list"

record keyed_row =
  kr_uid :: string
  kr_key :: string
  kr_name :: string
  kr_type :: string

record hardware_catalog =
  hc_drivers :: "driver_spec list"
  hc_models :: "board_model list"

datatype side = Inputs | Outputs

fun side_name :: "side \<Rightarrow> string" where
  "side_name Inputs = ''inputs''"
| "side_name Outputs = ''outputs''"

fun side_one :: "side \<Rightarrow> string" where
  "side_one Inputs = ''input''"
| "side_one Outputs = ''output''"

fun bindings :: "hardware_draft \<Rightarrow> side \<Rightarrow> binding_draft list" where
  "bindings h Inputs = hd_inputs h"
| "bindings h Outputs = hd_outputs h"

definition all_bindings :: "hardware_draft \<Rightarrow> binding_draft list" where
  "all_bindings h = hd_inputs h @ hd_outputs h"

definition pin_of :: "nat option dict \<Rightarrow> string \<Rightarrow> nat option" where
  "pin_of pins role = Option.bind (dict_get pins role) id"

abbreviation cat_driver :: "hardware_catalog option \<Rightarrow> string \<Rightarrow> driver_spec option" where
  "cat_driver catalog i \<equiv> Option.bind catalog (\<lambda>c. findDriver (hc_drivers c) i)"

abbreviation cat_model :: "hardware_catalog option \<Rightarrow> string \<Rightarrow> board_model option" where
  "cat_model catalog i \<equiv> Option.bind catalog (\<lambda>c. resolveModel (hc_models c) i)"

definition DEFAULT_BOARD :: string where "DEFAULT_BOARD = ''esp32-devkit-30''"

definition blankHardware :: "string \<Rightarrow> hardware_draft" where
  "blankHardware b = \<lparr>hd_board = b, hd_i2c = None, hd_inputs = [], hd_outputs = []\<rparr>"

section \<open>Pins in use\<close>

record used_pin =
  u_pin :: nat
  u_path :: string
  u_owner :: string

definition field_path :: "side \<Rightarrow> nat \<Rightarrow> string \<Rightarrow> string \<Rightarrow> string" where
  "field_path s i part key = ''hardware.'' @ side_name s @ ''.'' @ nat_text i @ ''.'' @ part @ key"

definition owner_of :: "side \<Rightarrow> nat \<Rightarrow> string" where
  "owner_of s i = side_one s @ '' '' @ nat_text (Suc i)"

definition binding_pins :: "side \<Rightarrow> nat \<times> binding_draft \<Rightarrow> used_pin list" where
  "binding_pins s ib =
     (let (i, b) = ib in
      somes (map (\<lambda>(role, pin). map_option (\<lambda>p. \<lparr>u_pin = p, u_path = field_path s i ''pins.'' role, u_owner = owner_of s i\<rparr>) pin)
        (bd_pins b)))"

definition usedPins :: "hardware_draft \<Rightarrow> used_pin list" where
  "usedPins h =
     (case hd_i2c h of None \<Rightarrow> []
      | Some bus \<Rightarrow> [\<lparr>u_pin = i2c_sda bus, u_path = ''hardware.i2c.sda'', u_owner = ''the I2C bus (SDA)''\<rparr>,
                    \<lparr>u_pin = i2c_scl bus, u_path = ''hardware.i2c.scl'', u_owner = ''the I2C bus (SCL)''\<rparr>]) @
     concat (map (binding_pins Inputs) (indexed (hd_inputs h))) @
     concat (map (binding_pins Outputs) (indexed (hd_outputs h)))"

abbreviation pins_used :: "hardware_draft \<Rightarrow> nat list" where
  "pins_used h \<equiv> map u_pin (usedPins h)"

section \<open>New bindings and the I2C bus\<close>

text \<open>Each role takes the first free pin that suits it; \<open>taken\<close> grows with it.\<close>

fun place_roles :: "board_model option \<Rightarrow> pin_spec list \<Rightarrow> nat list \<Rightarrow> nat option dict \<Rightarrow> nat option dict" where
  "place_roles model [] taken pins = pins"
| "place_roles model (p # ps) taken pins =
     (let free = List.find (\<lambda>n. n \<notin> set taken) (case model of Some m \<Rightarrow> preferredPins m (ps_needs p) | None \<Rightarrow> []) in
      place_roles model ps (case free of Some n \<Rightarrow> n # taken | None \<Rightarrow> taken) (dict_set (ps_role p) free pins))"

definition from_entries :: "(string \<times> 'a) list \<Rightarrow> 'a dict" where
  "from_entries kvs = foldl (\<lambda>d (k, v). dict_set k v d) [] kvs"

definition blankBinding :: "string \<Rightarrow> driver_spec \<Rightarrow> hardware_draft \<Rightarrow> hardware_catalog \<Rightarrow> binding_draft" where
  "blankBinding uid spec hw catalog =
     \<lparr>bd_uid = uid, bd_driver = ds_id spec,
      bd_pins = place_roles (resolveModel (hc_models catalog) (hd_board hw)) (ds_pins spec) (pins_used hw) [],
      bd_params = from_entries (map (\<lambda>p. (pr_key p, pr_default p)) (ds_params spec)),
      bd_channels = from_entries (map (\<lambda>c. (ch_key c, '''')) (ds_channels spec)),
      bd_proposed = None\<rparr>"

definition takenTargets :: "hardware_draft \<Rightarrow> side \<Rightarrow> string dict" where
  "takenTargets h s =
     foldl (\<lambda>taken (i, b).
        foldl (\<lambda>taken (ch, ref). if ref \<noteq> [] \<and> \<not> dict_has taken ref
                 then dict_set ref (field_path s i ''channels.'' ch) taken else taken) taken (bd_channels b))
       [] (indexed (bindings h s))"

definition usesI2c :: "hardware_draft \<Rightarrow> hardware_catalog option \<Rightarrow> bool" where
  "usesI2c h catalog \<longleftrightarrow>
     (\<exists>b\<in>set (all_bindings h). case cat_driver catalog (bd_driver b) of None \<Rightarrow> False | Some spec \<Rightarrow> ds_i2c spec)"

definition syncI2c :: "hardware_draft \<Rightarrow> hardware_catalog option \<Rightarrow> hardware_draft" where
  "syncI2c h catalog =
     (if \<not> usesI2c h catalog then h\<lparr>hd_i2c := None\<rparr>
      else if hd_i2c h \<noteq> None then h
      else case cat_model catalog (hd_board h) of None \<Rightarrow> h
      | Some model \<Rightarrow>
          (let taken = pins_used h;
               free = filter (\<lambda>p. p \<notin> set taken) (preferredPins model Bus_n);
               spare = (if 2 \<le> length free then h\<lparr>hd_i2c := Some \<lparr>i2c_sda = free ! 0, i2c_scl = free ! 1\<rparr>\<rparr> else h)
           in case m_i2c model of None \<Rightarrow> spare
              | Some bus \<Rightarrow> if i2c_sda bus \<notin> set taken \<and> i2c_scl bus \<notin> set taken then h\<lparr>hd_i2c := Some bus\<rparr> else spare))"

fun param_text :: "param_value \<Rightarrow> string" where
  "param_text (PNum n) = number_text n"
| "param_text (PBool b) = (if b then ''true'' else ''false'')"
| "param_text (PStr s) = s"

definition i2cAddress :: "binding_draft \<Rightarrow> driver_spec \<Rightarrow> string" where
  "i2cAddress b spec =
     (case dict_get (bd_params b) ''address'' of Some v \<Rightarrow> param_text v
      | None \<Rightarrow> (case List.find (\<lambda>p. pr_key p = ''address'') (ds_params spec) of
                   Some p \<Rightarrow> param_text (pr_default p) | None \<Rightarrow> ''''))"

section \<open>To and from the API\<close>

record hardware_binding =
  hb_driver :: string
  hb_pins :: "nat dict option"
  hb_params :: "param_value dict option"
  hb_channels :: "string dict option"

record hardware_config =
  hw_board :: string
  hw_i2c :: "i2c_bus option"
  hw_inputs :: "hardware_binding list option"
  hw_outputs :: "hardware_binding list option"

definition MISSING :: string where "MISSING = ''key:''"

definition uid_of_key :: "keyed_row list \<Rightarrow> string \<Rightarrow> string" where
  "uid_of_key rows key = (case List.find (\<lambda>r. kr_key r = key) rows of Some r \<Rightarrow> kr_uid r | None \<Rightarrow> MISSING @ key)"

definition default_nil :: "'a list option \<Rightarrow> 'a list" where
  "default_nil x = (case x of Some xs \<Rightarrow> xs | None \<Rightarrow> [])"

definition binding_in :: "keyed_row list \<Rightarrow> string \<Rightarrow> hardware_binding \<Rightarrow> binding_draft" where
  "binding_in rows uid b =
     \<lparr>bd_uid = uid, bd_driver = hb_driver b,
      bd_pins = map (\<lambda>(role, pin). (role, Some pin)) (default_nil (hb_pins b)),
      bd_params = default_nil (hb_params b),
      bd_channels = map (\<lambda>(ch, key). (ch, uid_of_key rows key)) (default_nil (hb_channels b)),
      bd_proposed = None\<rparr>"

text \<open>\<open>uids\<close>: the ids drawn for the inputs, then for the outputs.\<close>

definition hardwareToDraft :: "hardware_config option \<Rightarrow> keyed_row list \<Rightarrow> keyed_row list \<Rightarrow> (nat \<Rightarrow> string) \<Rightarrow> hardware_draft option" where
  "hardwareToDraft h metrics actuators uids =
     (case h of None \<Rightarrow> None
      | Some c \<Rightarrow> Some
         (let ins = default_nil (hw_inputs c); outs = default_nil (hw_outputs c) in
          \<lparr>hd_board = hw_board c, hd_i2c = hw_i2c c,
           hd_inputs = map (\<lambda>(i, b). binding_in metrics (uids i) b) (indexed ins),
           hd_outputs = map (\<lambda>(i, b). binding_in actuators (uids i) b) (indexed_from (length ins) outs)\<rparr>))"

text \<open>\<open>parseInt(s, 10)\<close>: the integer at the start of the text, NaN without one.\<close>

definition parse_int :: "string \<Rightarrow> jsnum" where
  "parse_int s =
     (let t = dropWhile is_space s;
          neg = (t \<noteq> [] \<and> hd t = CHR ''-'');
          u = (if t \<noteq> [] \<and> (hd t = CHR ''-'' \<or> hd t = CHR ''+'') then tl t else t);
          ds = takeWhile is_digit u
      in if ds = [] then NaN else Fin (if neg then - of_nat (digits_val ds) else of_nat (digits_val ds)))"

definition paramValue :: "param_value \<Rightarrow> param_type option \<Rightarrow> param_value option" where
  "paramValue value typ =
     (case value of
        PStr s \<Rightarrow>
          (case typ of None \<Rightarrow> Some value
           | Some t \<Rightarrow> if t = Enum_p then Some value
                       else if trim s = [] then None
                       else Some (PNum (if t = Int_p then parse_int s else to_number s)))
      | _ \<Rightarrow> Some value)"

definition key_of_uid :: "keyed_row list \<Rightarrow> string \<Rightarrow> string" where
  "key_of_uid rows ref =
     (if starts_with ref MISSING then drop (length MISSING) ref
      else case List.find (\<lambda>r. kr_uid r = ref) rows of Some r \<Rightarrow> trim (kr_key r) | None \<Rightarrow> '''')"

definition binding_out :: "keyed_row list \<Rightarrow> driver_spec list option \<Rightarrow> binding_draft \<Rightarrow> hardware_binding" where
  "binding_out rows drivers b =
     (let spec = Option.bind drivers (\<lambda>ds. findDriver ds (bd_driver b));
          type_of = (\<lambda>key. Option.bind spec (\<lambda>s. map_option pr_type (List.find (\<lambda>p. pr_key p = key) (ds_params s))))
      in \<lparr>hb_driver = bd_driver b,
          hb_pins = Some (somes (map (\<lambda>(role, pin). map_option (\<lambda>p. (role, p)) pin) (bd_pins b))),
          hb_params = Some (somes (map (\<lambda>(key, v). map_option (\<lambda>w. (key, w)) (paramValue v (type_of key))) (bd_params b))),
          hb_channels = Some (filter (\<lambda>(ch, key). key \<noteq> [])
            (map (\<lambda>(ch, ref). (ch, if ref = [] then [] else key_of_uid rows ref)) (bd_channels b)))\<rparr>)"

definition hardwareToRequest :: "hardware_draft option \<Rightarrow> keyed_row list \<Rightarrow> keyed_row list \<Rightarrow> driver_spec list option \<Rightarrow> hardware_config option" where
  "hardwareToRequest h metrics actuators drivers =
     map_option (\<lambda>d. \<lparr>hw_board = hd_board d, hw_i2c = hd_i2c d,
                     hw_inputs = Some (map (binding_out metrics drivers) (hd_inputs d)),
                     hw_outputs = Some (map (binding_out actuators drivers) (hd_outputs d))\<rparr>) h"

end
