(* ===== verification/Hardware_Check.thy ===== *)
theory Hardware_Check imports Hardware_Draft begin

text \<open>
  Validation, the wiring guide and the move to another board (\<open>hardware-draft.ts\<close>).  Errors and
  warnings are dictionaries by field path, filled in the order of the code; a lookup
  \<open>errors[path]\<close> is a lookup in the dictionary so far.
\<close>

section \<open>validateHardware\<close>

type_synonym messages = "string dict"

definition quote_mark :: "string \<Rightarrow> string" where
  "quote_mark s = left_quote @ s @ right_quote"

definition apostrophe_t :: string where "apostrophe_t = [CHR 0x27] @ ''t''"

text \<open>A pin used again is an error at the later use.\<close>

fun check_pins :: "used_pin list \<Rightarrow> (nat \<times> string) list \<Rightarrow> messages \<Rightarrow> messages" where
  "check_pins [] seen errors = errors"
| "check_pins (u # us) seen errors =
     (case dict_get seen (u_pin u) of
        Some other \<Rightarrow> check_pins us seen
          (dict_set (u_path u) (''GPIO '' @ nat_text (u_pin u) @ '' is also used by '' @ other @ ''.'') errors)
      | None \<Rightarrow> check_pins us (dict_set (u_pin u) (u_owner u) seen) errors)"

definition check_line :: "board_model \<Rightarrow> string \<Rightarrow> nat \<Rightarrow> messages \<Rightarrow> messages" where
  "check_line model path pin errors =
     (case pinProblem model Bus_n pin of None \<Rightarrow> errors
      | Some problem \<Rightarrow> if dict_has errors path then errors else dict_set path problem errors)"

definition check_bus :: "hardware_draft \<Rightarrow> hardware_catalog option \<Rightarrow> board_model option \<Rightarrow> messages \<Rightarrow> messages" where
  "check_bus h catalog model errors =
     (let e1 = (if usesI2c h catalog \<and> hd_i2c h = None then dict_set ''hardware.i2c.sda'' ''Pick the I2C bus pins.'' errors else errors) in
      case (hd_i2c h, model) of
        (Some bus, Some m) \<Rightarrow>
          check_line m ''hardware.i2c.scl'' (i2c_scl bus) (check_line m ''hardware.i2c.sda'' (i2c_sda bus) e1)
      | _ \<Rightarrow> e1)"

text \<open>Two parts on one bus need different addresses; \<open>addresses\<close> runs over both sides.\<close>

fun check_addresses :: "hardware_catalog option \<Rightarrow> side \<Rightarrow> (nat \<times> binding_draft) list \<Rightarrow> string dict \<times> messages \<Rightarrow> string dict \<times> messages" where
  "check_addresses catalog s [] st = st"
| "check_addresses catalog s ((i, b) # bs) (addresses, errors) =
     (case cat_driver catalog (bd_driver b) of None \<Rightarrow> check_addresses catalog s bs (addresses, errors)
      | Some spec \<Rightarrow>
          if \<not> ds_i2c spec then check_addresses catalog s bs (addresses, errors)
          else (let addr = i2cAddress b spec in
                case dict_get addresses addr of
                  Some other \<Rightarrow> check_addresses catalog s bs (addresses,
                    dict_set (field_path s i ''params.'' ''address'')
                      (''Address '' @ addr @ '' is also used by '' @ other @ ''. Set the other address on one of them (e.g. AD0 to 3.3 V).'') errors)
                | None \<Rightarrow> check_addresses catalog s bs (dict_set addr (owner_of s i) addresses, errors)))"

definition article :: "string \<Rightarrow> string" where
  "article word = (if word \<noteq> [] \<and> lower_char (hd word) \<in> set ''aeiou'' then ''an'' else ''a'')"

definition wants_kind :: "side \<Rightarrow> driver_kind" where
  "wants_kind s = (case s of Inputs \<Rightarrow> Input_d | Outputs \<Rightarrow> Output_d)"

definition kind_name :: "driver_kind \<Rightarrow> string" where
  "kind_name k = (case k of Input_d \<Rightarrow> ''input'' | Output_d \<Rightarrow> ''output'')"

definition driver_error :: "hardware_catalog option \<Rightarrow> board_model option \<Rightarrow> side \<Rightarrow> binding_draft \<Rightarrow> driver_spec option \<Rightarrow> string option" where
  "driver_error catalog model s b spec =
     (case spec of
        None \<Rightarrow> if catalog \<noteq> None then Some (''This firmware has no '' @ quote_mark (bd_driver b) @ '' driver. Pick another, or update the firmware.'')
                else None
      | Some d \<Rightarrow>
          if ds_kind d \<noteq> wants_kind s
          then Some (ds_label d @ '' is '' @ article (kind_name (ds_kind d)) @ '' '' @ kind_name (ds_kind d) @ '', not '' @
                     (if s = Inputs then ''an input'' else ''an output'') @ ''.'')
          else (case model of None \<Rightarrow> None
                | Some m \<Rightarrow> if runsOn d (Some (m_chip m)) then None
                    else Some (''The '' @ m_label m @ [CHR 0x27] @ ''s firmware doesn'' @ apostrophe_t @ '' include '' @ ds_label d @
                               ''. Pick another part, or another board.'')))"

definition check_role :: "board_model option \<Rightarrow> side \<Rightarrow> nat \<Rightarrow> binding_draft \<Rightarrow> messages \<Rightarrow> pin_spec \<Rightarrow> messages" where
  "check_role model s i b errors role =
     (let path = field_path s i ''pins.'' (ps_role role) in
      case pin_of (bd_pins b) (ps_role role) of
        None \<Rightarrow> dict_set path ''Pick a pin.'' errors
      | Some pin \<Rightarrow>
          (case model of None \<Rightarrow> errors
           | Some m \<Rightarrow> if dict_has errors path then errors
               else (case pinProblem m (ps_needs role) pin of None \<Rightarrow> errors | Some problem \<Rightarrow> dict_set path problem errors)))"

fun param_number :: "param_value \<Rightarrow> jsnum" where
  "param_number (PNum n) = n"
| "param_number (PBool b) = Fin (if b then 1 else 0)"
| "param_number (PStr s) = to_number s"

definition bound_text :: "jsnum option \<Rightarrow> string" where
  "bound_text b = (case b of Some n \<Rightarrow> number_text n | None \<Rightarrow> ''undefined'')"

definition param_error :: "param_spec \<Rightarrow> param_value option \<Rightarrow> string option" where
  "param_error param raw =
     (case raw of None \<Rightarrow> None
      | Some v \<Rightarrow>
          if v = PStr [] then None
          else if pr_type param = Int_p \<or> pr_type param = Float_p then
            (let n = param_number v in
             if (\<exists>b. v = PBool b) \<or> \<not> is_finite n then Some ''Enter a number.''
             else if pr_type param = Int_p \<and> \<not> is_integer n then Some ''Enter a whole number.''
             else if (case pr_min param of Some m \<Rightarrow> js_lt n m | None \<Rightarrow> False) \<or>
                     (case pr_max param of Some m \<Rightarrow> js_gt n m | None \<Rightarrow> False)
             then Some (''Enter a number from '' @ bound_text (pr_min param) @ '' to '' @ bound_text (pr_max param) @ ''.'')
             else None)
          else if pr_type param = Enum_p \<and>
                  (case pr_options param of Some os \<Rightarrow> param_text v \<notin> set os | None \<Rightarrow> True)
          then Some (''Pick one of '' @ (case pr_options param of Some os \<Rightarrow> join '', '' os | None \<Rightarrow> ''undefined'') @ ''.'')
          else None)"

definition put :: "string \<Rightarrow> string option \<Rightarrow> messages \<Rightarrow> messages" where
  "put path e errors = (case e of None \<Rightarrow> errors | Some m \<Rightarrow> dict_set path m errors)"

definition check_param :: "side \<Rightarrow> nat \<Rightarrow> binding_draft \<Rightarrow> messages \<Rightarrow> param_spec \<Rightarrow> messages" where
  "check_param s i b errors param =
     put (field_path s i ''params.'' (pr_key param)) (param_error param (dict_get (bd_params b) (pr_key param))) errors"

definition pull_error :: "board_model option \<Rightarrow> binding_draft \<Rightarrow> string option" where
  "pull_error model b =
     (case (model, dict_get (bd_params b) ''pull'', pin_of (bd_pins b) ''pin'') of
        (Some m, Some v, Some pin) \<Rightarrow>
          if v \<noteq> PStr ''none'' \<and> \<not> hasInternalPull (m_chip m) pin
          then Some (''GPIO '' @ nat_text pin @ '' has no internal pull resistor. Set it to none and fit a 10 k'' @ omega @ '' resistor.'')
          else None
      | _ \<Rightarrow> None)"

definition channels_of_binding :: "driver_spec option \<Rightarrow> binding_draft \<Rightarrow> channel_spec list" where
  "channels_of_binding spec b =
     (case spec of Some d \<Rightarrow> ds_channels d
      | None \<Rightarrow> map (\<lambda>(key, v). \<lparr>ch_key = key, ch_label = key, ch_data_type = None, ch_value_type = None, ch_common = None\<rparr>) (bd_channels b))"

definition channel_ref :: "binding_draft \<Rightarrow> string \<Rightarrow> string" where
  "channel_ref b ch = (case dict_get (bd_channels b) ch of Some r \<Rightarrow> r | None \<Rightarrow> '''')"

definition side_noun :: "side \<Rightarrow> string" where
  "side_noun s = (case s of Inputs \<Rightarrow> ''metric'' | Outputs \<Rightarrow> ''actuator'')"

definition row_label :: "keyed_row \<Rightarrow> string" where
  "row_label r = or_else (kr_name r) (kr_key r)"

fun value_type_name :: "value_type \<Rightarrow> string" where
  "value_type_name BoolV = ''bool''"
| "value_type_name FloatV = ''float''"
| "value_type_name StringV = ''string''"

definition type_warning :: "side \<Rightarrow> channel_spec \<Rightarrow> keyed_row \<Rightarrow> string option" where
  "type_warning s ch row =
     (case s of
        Inputs \<Rightarrow> if ch_data_type ch = Some BoolD \<and> kr_type row \<noteq> ''bool''
          then Some (''This reads on/off, but '' @ row_label row @ '' is a number. It will read 0 or 1.'') else None
      | Outputs \<Rightarrow> (case ch_value_type ch of None \<Rightarrow> None
          | Some t \<Rightarrow> if kr_type row \<noteq> value_type_name t
              then Some (''This output takes '' @ (case t of BoolV \<Rightarrow> ''on/off'' | FloatV \<Rightarrow> ''a number'' | StringV \<Rightarrow> ''text'') @
                         '', but '' @ row_label row @ '' sends '' @
                         (if kr_type row = ''bool'' then ''on/off'' else if kr_type row = ''float'' then ''a number'' else ''a choice'') @ ''.'')
              else None))"

text \<open>The state of the channel loop: which row is fed by which binding, the errors, the warnings.\<close>

record check_state =
  f_fed :: "nat dict"
  f_errors :: messages
  f_warnings :: messages

definition check_channel :: "side \<Rightarrow> keyed_row list \<Rightarrow> nat \<Rightarrow> binding_draft \<Rightarrow> check_state \<Rightarrow> channel_spec \<Rightarrow> check_state" where
  "check_channel s rows i b st ch =
     (let path = field_path s i ''channels.'' (ch_key ch); ref = channel_ref b (ch_key ch) in
      if ref = [] then st
      else case List.find (\<lambda>r. kr_uid r = ref) rows of
        None \<Rightarrow> st\<lparr>f_errors := dict_set path
          (if starts_with ref MISSING
           then quote_mark (drop (length MISSING) ref) @ '' isn'' @ apostrophe_t @ '' '' @ article (side_noun s) @ '' '' @ side_noun s @
                '' of this template any more. Pick another.''
           else ''The '' @ side_noun s @ '' it '' @ (if s = Inputs then ''fed'' else ''drove'') @ '' was removed. Pick another.'') (f_errors st)\<rparr>
      | Some row \<Rightarrow>
          (case dict_get (f_fed st) (kr_uid row) of
             Some j \<Rightarrow> st\<lparr>f_errors := dict_set path
               (row_label row @ '' is already '' @ (if s = Inputs then ''read by'' else ''driven by'') @ '' '' @ side_one s @ '' '' @ nat_text (Suc j) @ ''.'')
               (f_errors st)\<rparr>
           | None \<Rightarrow> st\<lparr>f_fed := dict_set (kr_uid row) i (f_fed st), f_warnings := put path (type_warning s ch row) (f_warnings st)\<rparr>))"

definition check_binding :: "side \<Rightarrow> keyed_row list \<Rightarrow> hardware_catalog option \<Rightarrow> board_model option \<Rightarrow> check_state \<Rightarrow> nat \<times> binding_draft \<Rightarrow> check_state" where
  "check_binding s rows catalog model st ib =
    (let (i, b) = ib;
         spec = cat_driver catalog (bd_driver b);
         e1 = put (field_path s i ''driver'' '''') (driver_error catalog model s b spec) (f_errors st);
         e2 = foldl (check_role model s i b) e1 (case spec of Some d \<Rightarrow> ds_pins d | None \<Rightarrow> []);
         e3 = foldl (check_param s i b) e2 (case spec of Some d \<Rightarrow> ds_params d | None \<Rightarrow> []);
         e4 = put (field_path s i ''params.pull'' '''') (pull_error model b) e3;
         channels = channels_of_binding spec b;
         e5 = (if s = Outputs \<and> channel_ref b ''value'' = []
               then dict_set (field_path s i ''channels.value'' '''') ''Pick the actuator it drives.'' e4 else e4);
         w1 = (if s = Inputs \<and> channels \<noteq> [] \<and> \<not> (\<exists>ch\<in>set channels. channel_ref b (ch_key ch) \<noteq> [])
               then dict_set (field_path s i ''channels.'' (ch_key (hd channels)))
                 ''This input feeds no metric, so nothing from it is published. Pick the metric it reads.'' (f_warnings st)
               else f_warnings st)
     in foldl (check_channel s rows i b) (st\<lparr>f_errors := e5, f_warnings := w1\<rparr>) channels)"

definition check_side :: "hardware_draft \<Rightarrow> keyed_row list \<Rightarrow> hardware_catalog option \<Rightarrow> board_model option \<Rightarrow> side \<Rightarrow> messages \<times> messages \<Rightarrow> messages \<times> messages" where
  "check_side h rows catalog model s ew =
     (let st = foldl (check_binding s rows catalog model) \<lparr>f_fed = [], f_errors = fst ew, f_warnings = snd ew\<rparr> (indexed (bindings h s))
      in (f_errors st, f_warnings st))"

definition board_error :: "hardware_draft \<Rightarrow> hardware_catalog option \<Rightarrow> board_model option \<Rightarrow> string option" where
  "board_error h catalog model =
     (if catalog \<noteq> None \<and> model = None then Some (''This firmware has no '' @ quote_mark (hd_board h) @ '' board. Pick one.'') else None)"

definition validateHardware :: "hardware_draft option \<Rightarrow> keyed_row list \<Rightarrow> keyed_row list \<Rightarrow> hardware_catalog option \<Rightarrow> messages \<times> messages" where
  "validateHardware hw metrics actuators catalog =
     (case hw of None \<Rightarrow> ([], [])
      | Some h \<Rightarrow>
          (let model = cat_model catalog (hd_board h);
               e0 = put ''hardware.board'' (board_error h catalog model) [];
               e1 = check_pins (usedPins h) [] e0;
               e2 = check_bus h catalog model e1;
               ae = check_addresses catalog Outputs (indexed (hd_outputs h)) (check_addresses catalog Inputs (indexed (hd_inputs h)) ([], e2))
           in check_side h actuators catalog model Outputs (check_side h metrics catalog model Inputs (snd ae, []))))"

section \<open>The wiring guide\<close>

record guide_pin =
  g_pin :: nat
  g_name :: string
  g_to :: string
  g_role :: string

definition guide_rows :: "side \<Rightarrow> keyed_row list \<Rightarrow> hardware_catalog option \<Rightarrow> board_model option \<Rightarrow> binding_draft \<Rightarrow> guide_pin list" where
  "guide_rows s rows catalog model b =
     (let spec = cat_driver catalog (bd_driver b);
          fed = map row_label (somes (map (\<lambda>(ch, ref). List.find (\<lambda>r. kr_uid r = ref) rows) (bd_channels b)));
          to = (case spec of Some d \<Rightarrow> ds_label d | None \<Rightarrow> bd_driver b) @ (if fed = [] then [] else '' ('' @ join '', '' fed @ '')'')
      in somes (map (\<lambda>(role, pin). map_option (\<lambda>p. \<lparr>g_pin = p, g_name = pinName model p, g_to = to,
             g_role = (case Option.bind spec (\<lambda>d. List.find (\<lambda>r. ps_role r = role) (ds_pins d)) of Some r \<Rightarrow> ps_label r | None \<Rightarrow> role)\<rparr>) pin)
           (bd_pins b)))"

definition guide_notes :: "hardware_catalog option \<Rightarrow> binding_draft list \<Rightarrow> string list dict" where
  "guide_notes catalog bs =
     foldl (\<lambda>acc b. case cat_driver catalog (bd_driver b) of None \<Rightarrow> acc
        | Some d \<Rightarrow> if ds_wiring d \<noteq> [] \<and> \<not> dict_has acc (ds_label d) then dict_set (ds_label d) (ds_wiring d) acc else acc) [] bs"

definition guide_pins :: "hardware_draft \<Rightarrow> keyed_row list \<Rightarrow> keyed_row list \<Rightarrow> hardware_catalog option \<Rightarrow> guide_pin list" where
  "guide_pins h metrics actuators catalog =
    (let model = cat_model catalog (hd_board h);
         onBus = nub (map ds_label (filter ds_i2c (somes (map (\<lambda>b. cat_driver catalog (bd_driver b)) (all_bindings h)))));
         to = (if onBus = [] then ''I2C bus'' else ''I2C bus ('' @ join '', '' onBus @ '')'')
     in sort_key g_pin
       ((case hd_i2c h of None \<Rightarrow> []
         | Some bus \<Rightarrow> [\<lparr>g_pin = i2c_sda bus, g_name = pinName model (i2c_sda bus), g_to = to, g_role = ''SDA''\<rparr>,
                       \<lparr>g_pin = i2c_scl bus, g_name = pinName model (i2c_scl bus), g_to = to, g_role = ''SCL''\<rparr>]) @
        concat (map (guide_rows Inputs metrics catalog model) (hd_inputs h)) @
        concat (map (guide_rows Outputs actuators catalog model) (hd_outputs h))))"

section \<open>Moving to another board\<close>

record moved_pin =
  mv_owner :: string
  mv_from :: nat
  mv_to :: "nat option"

text \<open>A role of a binding: the side, the index and the role name are the code's key \<open>inputs.0.pin\<close>.\<close>

record pin_role =
  ro_side :: side
  ro_index :: nat
  ro_role :: string
  ro_pin :: "nat option"
  ro_needs :: pin_need
  ro_owner :: string

type_synonym role_key = "side \<times> nat \<times> string"

definition role_key :: "pin_role \<Rightarrow> role_key" where
  "role_key r = (ro_side r, ro_index r, ro_role r)"

definition roles_of :: "hardware_draft \<Rightarrow> hardware_catalog \<Rightarrow> side \<Rightarrow> pin_role list" where
  "roles_of h catalog s =
     concat (map (\<lambda>(i, b).
       let spec = findDriver (hc_drivers catalog) (bd_driver b) in
       map (\<lambda>(role, pin).
         let p = Option.bind spec (\<lambda>d. List.find (\<lambda>x. ps_role x = role) (ds_pins d)) in
         \<lparr>ro_side = s, ro_index = i, ro_role = role, ro_pin = pin,
          ro_needs = (case p of Some x \<Rightarrow> ps_needs x | None \<Rightarrow> Input_n),
          ro_owner = (case spec of Some d \<Rightarrow> ds_label d | None \<Rightarrow> bd_driver b) @ '' '' @
                     lower_case (case p of Some x \<Rightarrow> ps_label x | None \<Rightarrow> role)\<rparr>) (bd_pins b))
       (indexed (bindings h s)))"

record move_state =
  t_taken :: "nat list"
  t_placed :: "(role_key \<times> nat option) list"
  t_moved :: "moved_pin list"

definition keep_role :: "board_model \<Rightarrow> move_state \<Rightarrow> pin_role \<Rightarrow> move_state" where
  "keep_role model st r =
     (case ro_pin r of None \<Rightarrow> st
      | Some p \<Rightarrow> if p \<notin> set (t_taken st) \<and> pinProblem model (ro_needs r) p = None
          then st\<lparr>t_placed := dict_set (role_key r) (Some p) (t_placed st), t_taken := p # t_taken st\<rparr> else st)"

definition rest_role :: "board_model \<Rightarrow> move_state \<Rightarrow> pin_role \<Rightarrow> move_state" where
  "rest_role model st r =
     (if dict_has (t_placed st) (role_key r) then st
      else (let to = List.find (\<lambda>n. n \<notin> set (t_taken st)) (preferredPins model (ro_needs r)) in
            st\<lparr>t_taken := (case to of Some n \<Rightarrow> n # t_taken st | None \<Rightarrow> t_taken st),
               t_placed := dict_set (role_key r) to (t_placed st),
               t_moved := (case ro_pin r of Some p \<Rightarrow> t_moved st @ [\<lparr>mv_owner = ro_owner r, mv_from = p, mv_to = to\<rparr>]
                           | None \<Rightarrow> t_moved st)\<rparr>))"

definition bus_moved :: "hardware_draft \<Rightarrow> i2c_bus \<Rightarrow> moved_pin list" where
  "bus_moved h bus =
     (case hd_i2c h of None \<Rightarrow> []
      | Some old \<Rightarrow>
          (if i2c_sda old \<noteq> i2c_sda bus then [\<lparr>mv_owner = ''the I2C bus (SDA)'', mv_from = i2c_sda old, mv_to = Some (i2c_sda bus)\<rparr>] else []) @
          (if i2c_scl old \<noteq> i2c_scl bus then [\<lparr>mv_owner = ''the I2C bus (SCL)'', mv_from = i2c_scl old, mv_to = Some (i2c_scl bus)\<rparr>] else []))"

definition rebind :: "(role_key \<times> nat option) list \<Rightarrow> side \<Rightarrow> nat \<times> binding_draft \<Rightarrow> binding_draft" where
  "rebind placed s ib =
     (let (i, b) = ib in
      b\<lparr>bd_pins := map (\<lambda>(role, pin). (role, Option.bind (dict_get placed (s, i, role)) id)) (bd_pins b)\<rparr>)"

definition place_all :: "hardware_draft \<Rightarrow> hardware_catalog \<Rightarrow> board_model \<Rightarrow> i2c_bus option \<Rightarrow> move_state" where
  "place_all h catalog model bus =
     (let roles = roles_of h catalog Inputs @ roles_of h catalog Outputs;
          st0 = \<lparr>t_taken = (case bus of None \<Rightarrow> [] | Some x \<Rightarrow> [i2c_scl x, i2c_sda x]), t_placed = [],
                 t_moved = (case bus of None \<Rightarrow> [] | Some x \<Rightarrow> bus_moved h x)\<rparr>
      in foldl (rest_role model) (foldl (keep_role model) st0 roles) roles)"

definition moveToBoard :: "hardware_draft \<Rightarrow> string \<Rightarrow> hardware_catalog \<Rightarrow> hardware_draft \<times> moved_pin list \<times> string list" where
  "moveToBoard h target catalog =
     (case resolveModel (hc_models catalog) target of
        None \<Rightarrow> (h\<lparr>hd_board := target, hd_i2c := None\<rparr>, [], [])
      | Some model \<Rightarrow>
          (let unsupported = nub (map ds_label (filter (\<lambda>d. \<not> runsOn d (Some (m_chip model)))
                 (somes (map (\<lambda>b. findDriver (hc_drivers catalog) (bd_driver b)) (all_bindings h)))));
               bus = (if usesI2c h (Some catalog) then m_i2c model else None);
               st = place_all h catalog model bus
           in (h\<lparr>hd_board := m_id model, hd_i2c := bus,
                 hd_inputs := map (rebind (t_placed st) Inputs) (indexed (hd_inputs h)),
                 hd_outputs := map (rebind (t_placed st) Outputs) (indexed (hd_outputs h))\<rparr>, t_moved st, unsupported)))"

end
