(* ===== verification/Hardware_Safety.thy ===== *)
theory Hardware_Safety imports Hardware_Check begin

text \<open>
  What the wiring code guarantees: a wiring without errors uses no GPIO twice and every pin suits its
  role, a new binding and a move to another board hand out free, suitable and distinct pins, and
  saving an opened wiring gives it back.
\<close>

section \<open>No error, no clash\<close>

lemma dict_set_not_Nil [simp]: "dict_set k v d \<noteq> []"
  by (cases d) auto

lemma check_pins_Nil:
  "check_pins us seen errors = [] \<Longrightarrow> errors = [] \<and> distinct (map u_pin us) \<and> (\<forall>u\<in>set us. dict_get seen (u_pin u) = None)"
proof (induction us arbitrary: seen errors)
  case (Cons u us)
  show ?case
  proof (cases "dict_get seen (u_pin u)")
    case None
    then have "check_pins us (dict_set (u_pin u) (u_owner u) seen) errors = []" using Cons.prems by simp
    from Cons.IH [OF this]
    have "errors = []" "distinct (map u_pin us)" "\<forall>v\<in>set us. u_pin v \<noteq> u_pin u \<and> dict_get seen (u_pin v) = None"
      by (auto split: if_splits)
    then show ?thesis using None by auto
  next
    case (Some other)
    with Cons.prems have "check_pins us seen (dict_set (u_path u) (''GPIO '' @ nat_text (u_pin u) @ '' is also used by '' @ other @ ''.'') errors) = []"
      by (simp only: check_pins.simps option.case)
    from Cons.IH [OF this] show ?thesis by simp
  qed
qed simp

lemma check_line_Nil: "check_line m path pin errors = [] \<Longrightarrow> errors = [] \<and> pinProblem m Bus_n pin = None"
  by (auto simp: check_line_def split: option.splits if_splits)

definition bus_ok :: "hardware_draft \<Rightarrow> hardware_catalog option \<Rightarrow> board_model option \<Rightarrow> bool" where
  "bus_ok h catalog model \<longleftrightarrow>
     \<not> (usesI2c h catalog \<and> hd_i2c h = None) \<and>
     (case (hd_i2c h, model) of
        (Some bus, Some m) \<Rightarrow> pinProblem m Bus_n (i2c_sda bus) = None \<and> pinProblem m Bus_n (i2c_scl bus) = None
      | _ \<Rightarrow> True)"

lemma check_bus_Nil: "check_bus h catalog model errors = [] \<Longrightarrow> errors = [] \<and> bus_ok h catalog model"
  by (auto simp: check_bus_def bus_ok_def Let_def split: option.splits if_splits dest!: check_line_Nil)

text \<open>The I2C addresses the bindings answer at, and the rows their channels name.\<close>

definition bus_addresses :: "hardware_catalog option \<Rightarrow> binding_draft list \<Rightarrow> string list" where
  "bus_addresses catalog bs =
     concat (map (\<lambda>b. case cat_driver catalog (bd_driver b) of None \<Rightarrow> []
       | Some spec \<Rightarrow> if ds_i2c spec then [i2cAddress b spec] else []) bs)"

definition channel_refs :: "hardware_catalog option \<Rightarrow> binding_draft list \<Rightarrow> string list" where
  "channel_refs catalog bs =
     filter (\<lambda>ref. ref \<noteq> []) (concat (map (\<lambda>b. map (\<lambda>ch. channel_ref b (ch_key ch))
       (channels_of_binding (cat_driver catalog (bd_driver b)) b)) bs))"

lemma bus_addresses_simps [simp]:
  "bus_addresses catalog [] = []"
  "bus_addresses catalog (b # bs) = (case cat_driver catalog (bd_driver b) of None \<Rightarrow> []
     | Some spec \<Rightarrow> if ds_i2c spec then [i2cAddress b spec] else []) @ bus_addresses catalog bs"
  "bus_addresses catalog (bs @ cs) = bus_addresses catalog bs @ bus_addresses catalog cs"
  by (simp_all add: bus_addresses_def)

lemma dict_get_None_keys: "dict_get d k = None \<longleftrightarrow> k \<notin> fst ` set d"
  by (induction d) auto

text \<open>Every name of the list is new to the ones remembered, and all of them are remembered.\<close>

definition names_fresh :: "string list \<Rightarrow> (string \<times> 'a) list \<Rightarrow> (string \<times> 'a) list \<Rightarrow> bool" where
  "names_fresh names known known' \<longleftrightarrow> distinct names \<and> set names \<inter> fst ` set known = {} \<and>
     fst ` set known' = fst ` set known \<union> set names"

lemma names_fresh_Nil [simp]: "names_fresh [] known known"
  by (simp add: names_fresh_def)

lemma names_fresh_Cons:
  "dict_get known n = None \<Longrightarrow> names_fresh names (dict_set n v known) known' \<Longrightarrow> names_fresh (n # names) known known'"
  by (auto simp: names_fresh_def dict_get_None_keys keys_dict_set)

lemma names_fresh_append:
  "names_fresh names known known' \<Longrightarrow> names_fresh names' known' known'' \<Longrightarrow> names_fresh (names @ names') known known''"
  by (auto simp: names_fresh_def)

lemma names_fresh_start: "names_fresh names [] known \<Longrightarrow> distinct names"
  by (simp add: names_fresh_def)

lemma check_addresses_Nil:
  "snd (check_addresses catalog s bs st) = [] \<Longrightarrow>
   snd st = [] \<and> names_fresh (bus_addresses catalog (map snd bs)) (fst st) (fst (check_addresses catalog s bs st))"
proof (induction catalog s bs st rule: check_addresses.induct)
  case (2 catalog s i b bs addresses errors)
  show ?case
  proof (cases "cat_driver catalog (bd_driver b)")
    case None
    then show ?thesis using 2(1) [OF None] 2(5) by auto
  next
    case (Some spec)
    note drv = Some
    show ?thesis
    proof (cases "ds_i2c spec")
      case False
      then show ?thesis using 2(2) [OF drv] 2(5) drv by auto
    next
      case True
      show ?thesis
      proof (cases "dict_get addresses (i2cAddress b spec)")
        case None
        then show ?thesis using 2(3) [OF drv _ refl None] 2(5) drv True by (auto intro: names_fresh_Cons)
      next
        case (Some other)
        then show ?thesis using 2(4) [OF drv _ refl Some] 2(5) drv True by simp
      qed
    qed
  qed
qed simp

lemma put_Nil: "put path e errors = [] \<Longrightarrow> errors = [] \<and> e = None"
  by (auto simp: put_def split: option.splits)

definition role_ok :: "board_model option \<Rightarrow> binding_draft \<Rightarrow> pin_spec \<Rightarrow> bool" where
  "role_ok model b role =
     (case pin_of (bd_pins b) (ps_role role) of None \<Rightarrow> False
      | Some p \<Rightarrow> (case model of None \<Rightarrow> True | Some m \<Rightarrow> pinProblem m (ps_needs role) p = None))"

lemma check_role_Nil: "check_role model s i b errors role = [] \<Longrightarrow> errors = [] \<and> role_ok model b role"
  by (auto simp: check_role_def role_ok_def Let_def split: option.splits if_splits)

lemma check_roles_Nil:
  "foldl (check_role model s i b) errors roles = [] \<Longrightarrow> errors = [] \<and> (\<forall>r\<in>set roles. role_ok model b r)"
  by (induction roles arbitrary: errors) (auto dest: check_role_Nil)

lemma check_params_Nil:
  "foldl (check_param s i b) errors ps = [] \<Longrightarrow>
   errors = [] \<and> (\<forall>p\<in>set ps. param_error p (dict_get (bd_params b) (pr_key p)) = None)"
  by (induction ps arbitrary: errors) (auto simp: check_param_def dest: put_Nil)

lemma channel_refs_simps [simp]:
  "channel_refs catalog [] = []"
  "channel_refs catalog (b # bs) = filter (\<lambda>ref. ref \<noteq> []) (map (\<lambda>ch. channel_ref b (ch_key ch))
     (channels_of_binding (cat_driver catalog (bd_driver b)) b)) @ channel_refs catalog bs"
  by (simp_all add: channel_refs_def)

text \<open>No error: every row a channel names exists and none was fed before.\<close>

lemma check_channel_Nil:
  assumes "f_errors (check_channel s rows i b st ch) = []"
  shows "f_errors st = [] \<and>
    (let refs = filter (\<lambda>ref. ref \<noteq> []) [channel_ref b (ch_key ch)] in
     names_fresh refs (f_fed st) (f_fed (check_channel s rows i b st ch)) \<and> set refs \<subseteq> kr_uid ` set rows)"
proof (cases "channel_ref b (ch_key ch) = []")
  case True
  then show ?thesis using assms by (simp add: check_channel_def)
next
  case False
  then obtain row where row: "List.find (\<lambda>r. kr_uid r = channel_ref b (ch_key ch)) rows = Some row"
    using assms by (auto simp: check_channel_def Let_def split: option.splits)
  then have r: "row \<in> set rows" "kr_uid row = channel_ref b (ch_key ch)" using find_Some_iff by fastforce+
  from False row have free: "dict_get (f_fed st) (channel_ref b (ch_key ch)) = None"
    using assms r(2) by (auto simp: check_channel_def Let_def split: option.splits)
  have "f_fed (check_channel s rows i b st ch) = dict_set (channel_ref b (ch_key ch)) i (f_fed st)" "f_errors st = []"
    using assms False row free r(2) by (simp_all add: check_channel_def Let_def)
  moreover have "channel_ref b (ch_key ch) \<in> kr_uid ` set rows" using r by (metis imageI)
  moreover have "names_fresh [channel_ref b (ch_key ch)] (f_fed st) (dict_set (channel_ref b (ch_key ch)) i (f_fed st))"
    by (rule names_fresh_Cons [OF free names_fresh_Nil])
  ultimately show ?thesis using False by simp
qed

lemma check_channels_Nil:
  "f_errors (foldl (check_channel s rows i b) st chs) = [] \<Longrightarrow>
   f_errors st = [] \<and>
   (let refs = filter (\<lambda>ref. ref \<noteq> []) (map (\<lambda>ch. channel_ref b (ch_key ch)) chs) in
    names_fresh refs (f_fed st) (f_fed (foldl (check_channel s rows i b) st chs)) \<and> set refs \<subseteq> kr_uid ` set rows)"
proof (induction chs arbitrary: st)
  case (Cons ch chs)
  let ?st = "check_channel s rows i b st ch"
  have rest: "f_errors ?st = []" "names_fresh (filter (\<lambda>ref. ref \<noteq> []) (map (\<lambda>ch. channel_ref b (ch_key ch)) chs))
      (f_fed ?st) (f_fed (foldl (check_channel s rows i b) st (ch # chs)))"
    "set (filter (\<lambda>ref. ref \<noteq> []) (map (\<lambda>ch. channel_ref b (ch_key ch)) chs)) \<subseteq> kr_uid ` set rows"
    using Cons.IH [of ?st] Cons.prems by (simp_all add: Let_def)
  note one = check_channel_Nil [OF rest(1), unfolded Let_def]
  have "filter (\<lambda>ref. ref \<noteq> []) (map (\<lambda>ch. channel_ref b (ch_key ch)) (ch # chs)) =
      filter (\<lambda>ref. ref \<noteq> []) [channel_ref b (ch_key ch)] @ filter (\<lambda>ref. ref \<noteq> []) (map (\<lambda>ch. channel_ref b (ch_key ch)) chs)"
    by simp
  note split = this
  have "names_fresh (filter (\<lambda>ref. ref \<noteq> []) (map (\<lambda>ch. channel_ref b (ch_key ch)) (ch # chs))) (f_fed st)
      (f_fed (foldl (check_channel s rows i b) st (ch # chs)))"
    unfolding split by (rule names_fresh_append [OF one [THEN conjunct2, THEN conjunct1] rest(2)])
  moreover have "set (filter (\<lambda>ref. ref \<noteq> []) (map (\<lambda>ch. channel_ref b (ch_key ch)) (ch # chs))) \<subseteq> kr_uid ` set rows"
    unfolding split set_append using one [THEN conjunct2, THEN conjunct2] rest(3) by (rule Un_least)
  ultimately show ?case unfolding Let_def using one by blast
qed simp

definition binding_ok :: "side \<Rightarrow> hardware_catalog option \<Rightarrow> board_model option \<Rightarrow> binding_draft \<Rightarrow> bool" where
  "binding_ok s catalog model b =
     (let spec = cat_driver catalog (bd_driver b) in
      driver_error catalog model s b spec = None \<and> pull_error model b = None \<and>
      (case spec of None \<Rightarrow> True
       | Some d \<Rightarrow> (\<forall>r\<in>set (ds_pins d). role_ok model b r) \<and>
                   (\<forall>p\<in>set (ds_params d). param_error p (dict_get (bd_params b) (pr_key p)) = None)) \<and>
      (s = Inputs \<or> channel_ref b ''value'' \<noteq> []))"

lemma check_binding_Nil:
  assumes "f_errors (check_binding s rows catalog model st (i, b)) = []"
  shows "f_errors st = [] \<and> binding_ok s catalog model b \<and> set (channel_refs catalog [b]) \<subseteq> kr_uid ` set rows \<and>
    names_fresh (channel_refs catalog [b]) (f_fed st) (f_fed (check_binding s rows catalog model st (i, b)))"
proof -
  let ?spec = "cat_driver catalog (bd_driver b)"
  let ?e1 = "put (field_path s i ''driver'' '''') (driver_error catalog model s b ?spec) (f_errors st)"
  let ?e2 = "foldl (check_role model s i b) ?e1 (case ?spec of Some d \<Rightarrow> ds_pins d | None \<Rightarrow> [])"
  let ?e3 = "foldl (check_param s i b) ?e2 (case ?spec of Some d \<Rightarrow> ds_params d | None \<Rightarrow> [])"
  let ?e4 = "put (field_path s i ''params.pull'' '''') (pull_error model b) ?e3"
  note chs = check_channels_Nil [OF assms [unfolded check_binding_def Let_def prod.case], unfolded Let_def]
  have e5: "(if s = Outputs \<and> channel_ref b ''value'' = []
      then dict_set (field_path s i ''channels.value'' '''') ''Pick the actuator it drives.'' ?e4 else ?e4) = []"
    using chs by simp
  then have v: "s = Inputs \<or> channel_ref b ''value'' \<noteq> []" and e4: "?e4 = []"
    by (cases s; auto split: if_splits)+
  have e3: "?e3 = []" "pull_error model b = None" using put_Nil [OF e4] by auto
  have e2: "?e2 = []" and ps: "\<forall>p\<in>set (case ?spec of Some d \<Rightarrow> ds_params d | None \<Rightarrow> []). param_error p (dict_get (bd_params b) (pr_key p)) = None"
    using check_params_Nil [OF e3(1)] by auto
  have e1: "?e1 = []" and rs: "\<forall>r\<in>set (case ?spec of Some d \<Rightarrow> ds_pins d | None \<Rightarrow> []). role_ok model b r"
    using check_roles_Nil [OF e2] by auto
  have ok: "binding_ok s catalog model b"
    using put_Nil [OF e1] e3(2) ps rs v by (auto simp: binding_ok_def Let_def split: option.splits)
  have same: "f_fed (st\<lparr>f_errors := e, f_warnings := w\<rparr>) = f_fed st" for e w by simp
  have fed: "names_fresh (channel_refs catalog [b]) (f_fed st) (f_fed (check_binding s rows catalog model st (i, b)))"
    "set (channel_refs catalog [b]) \<subseteq> kr_uid ` set rows"
    using chs [THEN conjunct2, THEN conjunct1] chs [THEN conjunct2, THEN conjunct2]
    by (simp_all only: same channel_refs_simps append_Nil2 check_binding_def Let_def prod.case)
  show ?thesis using put_Nil [OF e1] ok fed by simp
qed

lemma check_bindings_Nil:
  "f_errors (foldl (check_binding s rows catalog model) st ibs) = [] \<Longrightarrow>
   f_errors st = [] \<and> (\<forall>b\<in>set (map snd ibs). binding_ok s catalog model b) \<and>
   set (channel_refs catalog (map snd ibs)) \<subseteq> kr_uid ` set rows \<and>
   names_fresh (channel_refs catalog (map snd ibs)) (f_fed st) (f_fed (foldl (check_binding s rows catalog model) st ibs))"
proof (induction ibs arbitrary: st)
  case (Cons ib ibs)
  obtain i b where ib: "ib = (i, b)" by fastforce
  let ?st = "check_binding s rows catalog model st (i, b)"
  have rest: "f_errors ?st = []" "\<forall>b\<in>set (map snd ibs). binding_ok s catalog model b"
    "set (channel_refs catalog (map snd ibs)) \<subseteq> kr_uid ` set rows"
    "names_fresh (channel_refs catalog (map snd ibs)) (f_fed ?st) (f_fed (foldl (check_binding s rows catalog model) st (ib # ibs)))"
    using Cons.IH [of ?st] Cons.prems by (simp_all add: ib)
  note one = check_binding_Nil [OF rest(1)]
  have split: "channel_refs catalog (map snd (ib # ibs)) = channel_refs catalog [b] @ channel_refs catalog (map snd ibs)"
    by (simp add: ib)
  have "names_fresh (channel_refs catalog (map snd (ib # ibs))) (f_fed st) (f_fed (foldl (check_binding s rows catalog model) st (ib # ibs)))"
    unfolding split using one rest(4) names_fresh_append by blast
  moreover have "set (channel_refs catalog (map snd (ib # ibs))) \<subseteq> kr_uid ` set rows"
    unfolding split using one rest(3) by simp
  ultimately show ?case using one rest(2) ib by simp
qed simp

definition channels_ok :: "hardware_catalog option \<Rightarrow> keyed_row list \<Rightarrow> binding_draft list \<Rightarrow> bool" where
  "channels_ok catalog rows bs \<longleftrightarrow> distinct (channel_refs catalog bs) \<and> set (channel_refs catalog bs) \<subseteq> kr_uid ` set rows"

lemma check_side_Nil:
  assumes "fst (check_side h rows catalog model s ew) = []"
  shows "fst ew = [] \<and> (\<forall>b\<in>set (bindings h s). binding_ok s catalog model b) \<and> channels_ok catalog rows (bindings h s)"
proof -
  have "f_errors (foldl (check_binding s rows catalog model) \<lparr>f_fed = [], f_errors = fst ew, f_warnings = snd ew\<rparr> (indexed (bindings h s))) = []"
    using assms by (simp add: check_side_def Let_def)
  from check_bindings_Nil [OF this] show ?thesis by (auto simp: channels_ok_def dest: names_fresh_start)
qed

text \<open>
  C1: a wiring that validates without an error against a published firmware names a board of it,
  uses no GPIO twice, has its I2C bus on pins that can carry one (and has a bus when a part needs it),
  gives no two parts on the bus one address, and every part is a driver of the right kind the board's
  build carries, with every pin set to one that suits its role, every parameter in range and every
  output driving something; the rows the channels name all exist and none is fed or driven twice.
\<close>

theorem clean_wiring_safe:
  assumes "fst (validateHardware (Some h) metrics actuators (Some catalog)) = []"
  shows "distinct (pins_used h) \<and>
    distinct (bus_addresses (Some catalog) (all_bindings h)) \<and>
    channels_ok (Some catalog) metrics (hd_inputs h) \<and> channels_ok (Some catalog) actuators (hd_outputs h) \<and>
    (\<exists>model. resolveModel (hc_models catalog) (hd_board h) = Some model \<and>
       bus_ok h (Some catalog) (Some model) \<and>
       (\<forall>s. \<forall>b\<in>set (bindings h s). binding_ok s (Some catalog) (Some model) b \<and>
          (\<exists>d. findDriver (hc_drivers catalog) (bd_driver b) = Some d \<and> ds_kind d = wants_kind s \<and>
               runsOn d (Some (m_chip model)))))"
proof -
  let ?cat = "Some catalog" and ?model = "cat_model (Some catalog) (hd_board h)"
  note v = assms [unfolded validateHardware_def Let_def option.case]
  note out = check_side_Nil [OF v]
  note ins = check_side_Nil [OF out [THEN conjunct1]]
  have "snd (check_addresses ?cat Outputs (indexed (hd_outputs h))
      (check_addresses ?cat Inputs (indexed (hd_inputs h)) ([], check_bus h ?cat ?model
        (check_pins (usedPins h) [] (put ''hardware.board'' (board_error h ?cat ?model) []))))) = []"
    using ins by simp
  note outs_addr = check_addresses_Nil [OF this]
  note ins_addr = check_addresses_Nil [OF outs_addr [THEN conjunct1]]
  have addresses: "distinct (bus_addresses ?cat (all_bindings h))"
    using names_fresh_start [OF names_fresh_append] ins_addr outs_addr by (fastforce simp: all_bindings_def)
  have "check_bus h ?cat ?model (check_pins (usedPins h) [] (put ''hardware.board'' (board_error h ?cat ?model) [])) = []"
    using ins_addr by simp
  note bus = check_bus_Nil [OF this]
  note pins = check_pins_Nil [OF bus [THEN conjunct1]]
  have "board_error h ?cat ?model = None" using put_Nil pins by blast
  then obtain model where model: "resolveModel (hc_models catalog) (hd_board h) = Some model"
    by (auto simp: board_error_def split: if_splits)
  have b: "binding_ok s ?cat (Some model) b" if "b \<in> set (bindings h s)" for s b
    using ins out that model by (cases s) auto
  have d: "\<exists>d. findDriver (hc_drivers catalog) (bd_driver b) = Some d \<and> ds_kind d = wants_kind s \<and> runsOn d (Some (m_chip model))"
    if "b \<in> set (bindings h s)" for s b
    using b [OF that] by (auto simp: binding_ok_def driver_error_def Let_def split: option.splits if_splits)
  have "channels_ok ?cat metrics (hd_inputs h)" "channels_ok ?cat actuators (hd_outputs h)"
    using ins out by simp_all
  with addresses b d bus pins model show ?thesis by auto
qed

definition relay_driver :: driver_spec where
  "relay_driver = \<lparr>ds_id = ''relay'', ds_kind = Output_d, ds_label = ''Relay'',
     ds_pins = [\<lparr>ps_role = ''pin'', ps_label = ''Signal'', ps_needs = Output_n\<rparr>], ds_params = [],
     ds_channels = [\<lparr>ch_key = ''value'', ch_label = ''State'', ch_data_type = None, ch_value_type = Some BoolV, ch_common = None\<rparr>],
     ds_wiring = [], ds_i2c = False, ds_chips = None\<rparr>"

definition demo_catalog :: hardware_catalog where
  "demo_catalog = \<lparr>hc_drivers = [relay_driver], hc_models = [legacyModel Esp32, legacyModel Esp32c3]\<rparr>"

definition demo_wiring :: hardware_draft where
  "demo_wiring = \<lparr>hd_board = ''esp32'', hd_i2c = None, hd_inputs = [],
     hd_outputs = [\<lparr>bd_uid = ''b1'', bd_driver = ''relay'', bd_pins = [(''pin'', Some 23)], bd_params = [],
                    bd_channels = [(''value'', ''r1'')], bd_proposed = None\<rparr>]\<rparr>"

definition demo_row :: keyed_row where
  "demo_row = \<lparr>kr_uid = ''r1'', kr_key = ''fan1'', kr_name = ''Fan'', kr_type = ''bool''\<rparr>"

lemma demo_model: "resolveModel (hc_models demo_catalog) ''esp32'' = Some (legacyModel Esp32)"
  "resolveModel (hc_models demo_catalog) ''esp32c3'' = Some (legacyModel Esp32c3)"
  by (simp_all add: demo_catalog_def resolveModel_def legacyModel_def)

lemma demo_driver: "findDriver (hc_drivers demo_catalog) ''relay'' = Some relay_driver"
  by (simp add: demo_catalog_def findDriver_def relay_driver_def)

lemma demo_clean: "fst (validateHardware (Some demo_wiring) [] [demo_row] (Some demo_catalog)) = []"
proof -
  have used: "usedPins demo_wiring = [\<lparr>u_pin = 23, u_path = field_path Outputs 0 ''pins.'' ''pin'', u_owner = owner_of Outputs 0\<rparr>]"
    by (simp add: usedPins_def demo_wiring_def binding_pins_def)
  have bus: "\<not> usesI2c demo_wiring (Some demo_catalog)"
    by (simp add: usesI2c_def all_bindings_def demo_wiring_def demo_driver relay_driver_def)
  have board: "hd_board demo_wiring = ''esp32''" "hd_i2c demo_wiring = None" "hd_inputs demo_wiring = []"
    by (simp_all add: demo_wiring_def)
  have prob: "pinProblem (legacyModel Esp32) Output_n 23 = None" by (simp add: pinProblem_def legacyModel_def)
  show ?thesis
    unfolding validateHardware_def Let_def option.case board
    by (simp add: used bus board demo_model board_error_def put_def check_bus_def check_side_def)
       (simp add: demo_wiring_def demo_driver check_binding_def check_channel_def check_role_def driver_error_def put_def pull_error_def
          relay_driver_def pin_of_def prob channels_of_binding_def channel_ref_def demo_row_def type_warning_def wants_kind_def
          runsOn_def Let_def)
qed

lemma clean_wiring_safe_witness:
  "distinct (pins_used demo_wiring) \<and> (\<exists>model. resolveModel (hc_models demo_catalog) (hd_board demo_wiring) = Some model \<and>
     bus_ok demo_wiring (Some demo_catalog) (Some model))"
  using clean_wiring_safe [OF demo_clean] by auto

section \<open>A new binding takes free, suitable pins\<close>

lemma find_first_free: "List.find (\<lambda>n. n \<notin> set taken) xs = Some n \<Longrightarrow> n \<in> set xs \<and> n \<notin> set taken"
  using find_Some_iff by fastforce

lemma find_none_free: "List.find (\<lambda>n. n \<notin> set taken) xs = None \<Longrightarrow> set xs \<subseteq> set taken"
  by (auto simp: find_None_iff)

definition new_pins :: "nat option dict \<Rightarrow> nat list" where
  "new_pins pins = somes (map snd pins)"

lemma new_pins_append: "new_pins (xs @ ys) = new_pins xs @ new_pins ys"
  by (induction xs) (auto simp: new_pins_def split: option.splits)

lemma new_pins_mem: "p \<in> set (new_pins pins) \<longleftrightarrow> (\<exists>r. (r, Some p) \<in> set pins)"
  by (force simp: new_pins_def)

text \<open>Every role ends with a free pin that suits it, or with none when every suitable pin is taken.\<close>

lemma place_roles_safe:
  assumes "distinct (map ps_role ps)" "fst ` set pins \<inter> ps_role ` set ps = {}"
  shows "\<exists>new. place_roles (Some m) ps taken pins = pins @ new \<and> map fst new = map ps_role ps \<and>
     distinct (new_pins new) \<and> set (new_pins new) \<inter> set taken = {} \<and>
     (\<forall>spec\<in>set ps. \<forall>p. (ps_role spec, Some p) \<in> set new \<longrightarrow> pinProblem m (ps_needs spec) p = None) \<and>
     (\<forall>spec\<in>set ps. (ps_role spec, None) \<in> set new \<longrightarrow>
        (\<forall>p. pinProblem m (ps_needs spec) p = None \<longrightarrow> p \<in> set taken \<union> set (new_pins new)))"
  using assms
proof (induction ps arbitrary: taken pins)
  case (Cons p ps)
  let ?free = "List.find (\<lambda>n. n \<notin> set taken) (preferredPins m (ps_needs p))"
  let ?taken = "case ?free of Some n \<Rightarrow> n # taken | None \<Rightarrow> taken"
  have set1: "dict_set (ps_role p) ?free pins = pins @ [(ps_role p, ?free)]"
    using Cons.prems(2) by (intro dict_set_new) auto
  have "fst ` set (pins @ [(ps_role p, ?free)]) \<inter> ps_role ` set ps = {}" "distinct (map ps_role ps)"
    using Cons.prems by auto
  from Cons.IH [OF this(2,1), of ?taken] obtain new where new:
    "place_roles (Some m) ps ?taken (pins @ [(ps_role p, ?free)]) = (pins @ [(ps_role p, ?free)]) @ new"
    "map fst new = map ps_role ps" "distinct (new_pins new)" "set (new_pins new) \<inter> set ?taken = {}"
    "\<forall>spec\<in>set ps. \<forall>q. (ps_role spec, Some q) \<in> set new \<longrightarrow> pinProblem m (ps_needs spec) q = None"
    "\<forall>spec\<in>set ps. (ps_role spec, None) \<in> set new \<longrightarrow>
        (\<forall>q. pinProblem m (ps_needs spec) q = None \<longrightarrow> q \<in> set ?taken \<union> set (new_pins new))"
    by blast
  let ?all = "(ps_role p, ?free) # new"
  have fresh: "ps_role p \<notin> ps_role ` set ps" using Cons.prems(1) by auto
  have keys: "fst ` set new = ps_role ` set ps" using new(2) by (metis list.set_map)
  have notin: "(ps_role p, x) \<notin> set new" for x
  proof
    assume "(ps_role p, x) \<in> set new"
    from imageI [OF this, of fst] show False using keys fresh by simp
  qed
  have pl: "place_roles (Some m) (p # ps) taken pins = pins @ ?all" using new(1) set1 by (simp add: Let_def)
  have ok: "n \<in> set (pinsFor m (ps_needs p)) \<and> n \<notin> set taken" if "?free = Some n" for n
    using find_first_free [OF that] by (simp add: set_preferredPins)
  have other: "(ps_role spec, x) \<in> set ?all \<longleftrightarrow> (ps_role spec, x) \<in> set new" if "spec \<in> set ps" for spec x
    using that fresh by (metis Pair_inject image_eqI set_ConsD list.set_intros(2))
  have mine: "(ps_role p, x) \<in> set ?all \<longleftrightarrow> x = ?free" for x using notin by simp
  have np: "new_pins ?all = (case ?free of None \<Rightarrow> [] | Some n \<Rightarrow> [n]) @ new_pins new"
    by (cases ?free) (simp_all add: new_pins_def)
  have c1: "map fst ?all = map ps_role (p # ps)" using new(2) by simp
  have c2: "distinct (new_pins ?all)" "set (new_pins ?all) \<inter> set taken = {}"
    using np new(3,4) ok by (cases ?free; simp)+
  have c3: "pinProblem m (ps_needs spec) q = None" if "spec \<in> set (p # ps)" "(ps_role spec, Some q) \<in> set ?all" for spec q
  proof (cases "spec \<in> set ps")
    case True
    then show ?thesis using new(5) other that(2) by blast
  next
    case False
    then have "spec = p" using that(1) by simp
    then show ?thesis using mine that(2) ok by (simp add: in_pinsFor)
  qed
  have c4: "q \<in> set taken \<union> set (new_pins ?all)"
    if "spec \<in> set (p # ps)" "(ps_role spec, None) \<in> set ?all" "pinProblem m (ps_needs spec) q = None" for spec q
  proof (cases "spec \<in> set ps")
    case True
    then have "q \<in> set ?taken \<union> set (new_pins new)" using new(6) other that(2,3) by blast
    then show ?thesis using np by (cases ?free) auto
  next
    case False
    then have "spec = p" using that(1) by simp
    then have "?free = None" using mine that(2) by simp
    from find_none_free [OF this] show ?thesis using that(3) \<open>spec = p\<close> by (auto simp: set_preferredPins in_pinsFor)
  qed
  show ?case using pl c1 c2 c3 c4 by (intro exI [of _ ?all] conjI) blast+
qed (simp add: new_pins_def)

text \<open>
  Adding a part on a known board gives each of its roles a pin that suits it, no GPIO twice
  and none already in use by another part or the bus; a role is left without a pin only when every
  pin that suits it is in use.
\<close>

theorem blankBinding_safe:
  assumes "resolveModel (hc_models catalog) (hd_board hw) = Some m" "distinct (map ps_role (ds_pins spec))"
  shows "let b = blankBinding uid spec hw catalog in
     map fst (bd_pins b) = map ps_role (ds_pins spec) \<and>
     distinct (new_pins (bd_pins b)) \<and> set (new_pins (bd_pins b)) \<inter> set (pins_used hw) = {} \<and>
     (\<forall>r\<in>set (ds_pins spec). case pin_of (bd_pins b) (ps_role r) of
        Some p \<Rightarrow> pinProblem m (ps_needs r) p = None
      | None \<Rightarrow> (\<forall>p. pinProblem m (ps_needs r) p = None \<longrightarrow> p \<in> set (pins_used hw) \<union> set (new_pins (bd_pins b))))"
proof -
  obtain new where new: "place_roles (Some m) (ds_pins spec) (pins_used hw) [] = new" "map fst new = map ps_role (ds_pins spec)"
    "distinct (new_pins new)" "set (new_pins new) \<inter> set (pins_used hw) = {}"
    "\<forall>r\<in>set (ds_pins spec). \<forall>p. (ps_role r, Some p) \<in> set new \<longrightarrow> pinProblem m (ps_needs r) p = None"
    "\<forall>r\<in>set (ds_pins spec). (ps_role r, None) \<in> set new \<longrightarrow>
        (\<forall>p. pinProblem m (ps_needs r) p = None \<longrightarrow> p \<in> set (pins_used hw) \<union> set (new_pins new))"
    using place_roles_safe [OF assms(2), of "[]" m "pins_used hw"] by auto
  have b: "bd_pins (blankBinding uid spec hw catalog) = new" using new(1) by (simp add: blankBinding_def assms(1))
  have "case pin_of new (ps_role r) of Some p \<Rightarrow> pinProblem m (ps_needs r) p = None
      | None \<Rightarrow> (\<forall>p. pinProblem m (ps_needs r) p = None \<longrightarrow> p \<in> set (pins_used hw) \<union> set (new_pins new))"
    if r: "r \<in> set (ds_pins spec)" for r
  proof -
    have "distinct (map fst new)" using new(2) assms(2) by simp
    moreover have "ps_role r \<in> fst ` set new" using new(2) r by (metis image_eqI list.set_map)
    ultimately obtain x where x: "(ps_role r, x) \<in> set new" "dict_get new (ps_role r) = Some x" by fastforce
    then show ?thesis using new(5,6) r by (cases x) (auto simp: pin_of_def)
  qed
  then show ?thesis using new(2-4) unfolding Let_def b by blast
qed

lemma blankBinding_safe_witness:
  "set (new_pins (bd_pins (blankBinding ''b2'' relay_driver demo_wiring demo_catalog))) \<inter> set (pins_used demo_wiring) = {}"
proof -
  have "resolveModel (hc_models demo_catalog) (hd_board demo_wiring) = Some (legacyModel Esp32)"
    using demo_model by (simp add: demo_wiring_def)
  moreover have "distinct (map ps_role (ds_pins relay_driver))" by (simp add: relay_driver_def)
  ultimately show ?thesis using blankBinding_safe [of demo_catalog demo_wiring _ relay_driver "''b2''"] by (simp add: Let_def)
qed

section \<open>Moving to another board\<close>

text \<open>
  The state of the move: a placed pin is taken, off the pins taken before the roles were placed
  (the bus), on one role only and fit for that role.
\<close>

definition placed_pin :: "move_state \<Rightarrow> role_key \<Rightarrow> nat \<Rightarrow> bool" where
  "placed_pin st k p \<longleftrightarrow> dict_get (t_placed st) k = Some (Some p)"

definition move_inv :: "board_model \<Rightarrow> pin_role list \<Rightarrow> nat list \<Rightarrow> move_state \<Rightarrow> bool" where
  "move_inv model roles base st \<longleftrightarrow> set base \<subseteq> set (t_taken st) \<and>
     (\<forall>k p. placed_pin st k p \<longrightarrow> p \<in> set (t_taken st) \<and> p \<notin> set base \<and>
        (\<exists>r\<in>set roles. role_key r = k \<and> pinProblem model (ro_needs r) p = None)) \<and>
     (\<forall>k k' p. placed_pin st k p \<longrightarrow> placed_pin st k' p \<longrightarrow> k = k')"

lemma move_inv_place:
  assumes "move_inv model roles base st" "r \<in> set roles" "p \<notin> set (t_taken st)" "pinProblem model (ro_needs r) p = None"
    "t_placed st' = dict_set (role_key r) (Some p) (t_placed st)" "t_taken st' = p # t_taken st"
  shows "move_inv model roles base st'"
proof -
  have pp: "placed_pin st' k q \<longleftrightarrow> (if k = role_key r then q = p else placed_pin st k q)" for k q
    using assms(5) by (auto simp: placed_pin_def)
  note inv = assms(1) [unfolded move_inv_def]
  have new: "p \<notin> set base" "\<And>k. \<not> placed_pin st k p" using inv assms(3) by blast+
  show ?thesis unfolding move_inv_def pp assms(6)
  proof (intro conjI allI impI)
    show "set base \<subseteq> set (p # t_taken st)" using inv by auto
  next
    fix k q assume "if k = role_key r then q = p else placed_pin st k q"
    then consider "k = role_key r" "q = p" | "placed_pin st k q" by metis
    then have "q \<in> set (p # t_taken st) \<and> q \<notin> set base \<and>
      (\<exists>r\<in>set roles. role_key r = k \<and> pinProblem model (ro_needs r) q = None)"
    proof cases
      case 1
      then show ?thesis using new(1) assms(2,4) by auto
    next
      case 2
      have "placed_pin st k q \<longrightarrow> q \<in> set (t_taken st) \<and> q \<notin> set base \<and>
          (\<exists>r\<in>set roles. role_key r = k \<and> pinProblem model (ro_needs r) q = None)"
        using inv [THEN conjunct2, THEN conjunct1] by (elim allE)
      with 2 show ?thesis by simp
    qed
    then show "q \<in> set (p # t_taken st)" "q \<notin> set base"
      "\<exists>r\<in>set roles. role_key r = k \<and> pinProblem model (ro_needs r) q = None"
      by blast+
  next
    fix k k' q assume "if k = role_key r then q = p else placed_pin st k q" "if k' = role_key r then q = p else placed_pin st k' q"
    then show "k = k'" using inv new(2) by (metis (full_types))
  qed
qed

lemma move_inv_none:
  assumes "move_inv model roles base st" "t_placed st' = dict_set k None (t_placed st)" "t_taken st' = t_taken st"
  shows "move_inv model roles base st'"
proof -
  have "placed_pin st' k' q \<Longrightarrow> placed_pin st k' q" for k' q
    using assms(2) by (auto simp: placed_pin_def split: if_splits)
  then show ?thesis using assms(1) unfolding move_inv_def assms(3) by blast
qed

lemma keep_role_inv: "move_inv model roles base st \<Longrightarrow> r \<in> set roles \<Longrightarrow> move_inv model roles base (keep_role model st r)"
  by (auto simp: keep_role_def split: option.splits intro: move_inv_place)

lemma rest_role_inv:
  assumes "move_inv model roles base st" "r \<in> set roles"
  shows "move_inv model roles base (rest_role model st r)"
proof (cases "dict_has (t_placed st) (role_key r)")
  case True
  then show ?thesis using assms(1) by (simp add: rest_role_def)
next
  case False
  show ?thesis
  proof (cases "List.find (\<lambda>n. n \<notin> set (t_taken st)) (preferredPins model (ro_needs r))")
    case None
    then show ?thesis using False
      by (intro move_inv_none [OF assms(1), where k = "role_key r"]) (simp_all add: rest_role_def Let_def)
  next
    case (Some n)
    have "n \<notin> set (t_taken st)" "pinProblem model (ro_needs r) n = None"
      using find_first_free [OF Some] by (simp_all add: set_preferredPins in_pinsFor)
    then show ?thesis using False Some
      by (intro move_inv_place [OF assms, where p = n]) (simp_all add: rest_role_def Let_def)
  qed
qed

lemma fold_inv:
  assumes "\<And>st r. I st \<Longrightarrow> r \<in> set rs \<Longrightarrow> I (f st r)" "I st"
  shows "I (foldl f st rs)"
  using assms by (induction rs arbitrary: st) auto

lemma place_all_inv:
  "move_inv model (roles_of h catalog Inputs @ roles_of h catalog Outputs)
     (case bus of None \<Rightarrow> [] | Some x \<Rightarrow> [i2c_scl x, i2c_sda x]) (place_all h catalog model bus)"
proof -
  let ?rs = "roles_of h catalog Inputs @ roles_of h catalog Outputs"
  let ?base = "case bus of None \<Rightarrow> [] | Some x \<Rightarrow> [i2c_scl x, i2c_sda x]"
  let ?st = "\<lparr>t_taken = ?base, t_placed = [], t_moved = (case bus of None \<Rightarrow> [] | Some x \<Rightarrow> bus_moved h x)\<rparr>"
  have "move_inv model ?rs ?base ?st" by (simp add: move_inv_def placed_pin_def)
  then have "move_inv model ?rs ?base (foldl (keep_role model) ?st ?rs)"
    by (rule fold_inv [rotated]) (rule keep_role_inv)
  then have "move_inv model ?rs ?base (foldl (rest_role model) (foldl (keep_role model) ?st ?rs) ?rs)"
    by (rule fold_inv [rotated]) (rule rest_role_inv)
  then show ?thesis by (simp add: place_all_def Let_def)
qed

definition role_keys :: "hardware_draft \<Rightarrow> side \<Rightarrow> role_key list" where
  "role_keys h s = concat (map (\<lambda>(i, b). map (\<lambda>(role, pin). (s, i, role)) (bd_pins b)) (indexed (bindings h s)))"

definition side_keys :: "side \<Rightarrow> nat \<Rightarrow> binding_draft list \<Rightarrow> role_key list" where
  "side_keys s n bs = concat (map (\<lambda>(i, b). map (\<lambda>(role, pin). (s, i, role)) (bd_pins b)) (indexed_from n bs))"

lemma side_keys_from: "k \<in> set (side_keys s n bs) \<Longrightarrow> n \<le> fst (snd k)"
  by (auto simp: side_keys_def indexed_from_mem)

lemma side_keys_distinct:
  "(\<And>b. b \<in> set bs \<Longrightarrow> distinct (map fst (bd_pins b))) \<Longrightarrow> distinct (side_keys s n bs)"
proof (induction bs arbitrary: n)
  case (Cons b bs)
  let ?h = "map (\<lambda>role. (s, n, role)) (map fst (bd_pins b))"
  have h: "side_keys s n (b # bs) = ?h @ side_keys s (Suc n) bs"
    by (simp add: side_keys_def case_prod_unfold comp_def)
  have "distinct ?h" using Cons.prems by (subst distinct_map) (simp add: inj_on_def)
  moreover have "fst (snd k) = n" if "k \<in> set ?h" for k using that by auto
  ultimately show ?case using Cons.IH [of "Suc n"] Cons.prems side_keys_from [of _ s "Suc n" bs]
    unfolding h distinct_append by (force simp del: set_map)
qed (simp add: side_keys_def)

lemma role_keys_distinct:
  "(\<And>b. b \<in> set (bindings h s) \<Longrightarrow> distinct (map fst (bd_pins b))) \<Longrightarrow> distinct (role_keys h s)"
  using side_keys_distinct [of "bindings h s" s 0] by (simp add: role_keys_def side_keys_def)

lemma rebound_pins:
  "map u_pin (concat (map (binding_pins s) (indexed_from 0 (map (rebind placed s) (indexed_from n bs))))) = 
   somes (map (\<lambda>k. Option.bind (dict_get placed k) id)
     (concat (map (\<lambda>(i, b). map (\<lambda>(role, pin). (s, i, role)) (bd_pins b)) (indexed_from n bs))))"
  for n bs placed s
proof -
  have one: "map u_pin (binding_pins s (j, rebind placed s (i, b))) =
      somes (map (\<lambda>k. Option.bind (dict_get placed k) id) (map (\<lambda>(role, pin). (s, i, role)) (bd_pins b)))" for i j b
  proof -
    have "map u_pin (somes (map (\<lambda>(role, pin). map_option (\<lambda>p. \<lparr>u_pin = p, u_path = field_path s j ''pins.'' role, u_owner = owner_of s j\<rparr>) pin)
        (map (\<lambda>(role, pin). (role, Option.bind (dict_get placed (s, i, role)) id)) ps))) =
      somes (map (\<lambda>k. Option.bind (dict_get placed k) id) (map (\<lambda>(role, pin). (s, i, role)) ps))" for ps
      by (induction ps) (auto split: option.splits)
    then show ?thesis by (simp add: binding_pins_def rebind_def)
  qed
  have "map u_pin (concat (map (binding_pins s) (indexed_from m (map (rebind placed s) (indexed_from n bs))))) = 
   somes (map (\<lambda>k. Option.bind (dict_get placed k) id)
     (concat (map (\<lambda>(i, b). map (\<lambda>(role, pin). (s, i, role)) (bd_pins b)) (indexed_from n bs))))" for m
  proof (induction bs arbitrary: n m)
    case (Cons b bs)
    show ?case using Cons [of "Suc m" "Suc n"] one [of m n b] by (simp add: somes_append id_def)
  qed simp
  then show ?thesis .
qed

lemma distinct_somes:
  assumes "distinct ks" "\<And>k k' p. f k = Some p \<Longrightarrow> f k' = Some p \<Longrightarrow> k = k'"
  shows "distinct (somes (map f ks))"
  using assms(1)
proof (induction ks)
  case (Cons k ks)
  then show ?case using assms(2) by (auto split: option.splits) (metis image_iff)
qed simp

lemma pins_used_split:
  "pins_used h = (case hd_i2c h of None \<Rightarrow> [] | Some bus \<Rightarrow> [i2c_sda bus, i2c_scl bus]) @
     map u_pin (concat (map (binding_pins Inputs) (indexed (hd_inputs h)))) @
     map u_pin (concat (map (binding_pins Outputs) (indexed (hd_outputs h))))"
  by (simp add: usedPins_def split: option.splits)

text \<open>What a role of a binding needs of a pin, and the pins of the parts of a wiring.\<close>

definition role_needs :: "hardware_catalog \<Rightarrow> binding_draft \<Rightarrow> string \<Rightarrow> pin_need" where
  "role_needs catalog b role =
     (case Option.bind (findDriver (hc_drivers catalog) (bd_driver b)) (\<lambda>d. List.find (\<lambda>x. ps_role x = role) (ds_pins d)) of
        Some x \<Rightarrow> ps_needs x | None \<Rightarrow> Input_n)"

definition part_pins :: "hardware_draft \<Rightarrow> nat list" where
  "part_pins h = somes (map snd (concat (map bd_pins (all_bindings h))))"

text \<open>
  A binding and what became of it on the board: the same part with the same roles, each on a pin that
  suits it or on none; \<open>free\<close> tells the pins that every role which has one keeps when it suits.
\<close>

definition binding_moved :: "(nat \<Rightarrow> bool) \<Rightarrow> board_model \<Rightarrow> hardware_catalog \<Rightarrow> binding_draft \<Rightarrow> binding_draft \<Rightarrow> bool" where
  "binding_moved free model catalog b b' \<longleftrightarrow>
     b' = b\<lparr>bd_pins := bd_pins b'\<rparr> \<and> map fst (bd_pins b') = map fst (bd_pins b) \<and>
     (\<forall>role p. (role, Some p) \<in> set (bd_pins b') \<longrightarrow> pinProblem model (role_needs catalog b role) p = None) \<and>
     (\<forall>role p. (role, Some p) \<in> set (bd_pins b) \<longrightarrow> pinProblem model (role_needs catalog b role) p = None \<longrightarrow> free p \<longrightarrow>
        (role, Some p) \<in> set (bd_pins b'))"

lemma indexed_nth: "(i, b) \<in> set (indexed xs) \<longleftrightarrow> i < length xs \<and> b = xs ! i"
  by (auto simp: indexed_from_mem)

lemma indexed_from_at: "length (indexed_from n xs) = length xs \<and> (i < length xs \<longrightarrow> indexed_from n xs ! i = (n + i, xs ! i))"
  by (induction xs arbitrary: i n) (auto simp: nth_Cons split: nat.splits)

lemma indexed_at: "length (indexed xs) = length xs" "i < length xs \<Longrightarrow> indexed xs ! i = (i, xs ! i)"
  using indexed_from_at [of 0 xs] by auto

definition role_at :: "hardware_catalog \<Rightarrow> side \<Rightarrow> nat \<Rightarrow> binding_draft \<Rightarrow> string \<Rightarrow> nat option \<Rightarrow> pin_role" where
  "role_at catalog s i b role pin =
     (let spec = findDriver (hc_drivers catalog) (bd_driver b);
          p = Option.bind spec (\<lambda>d. List.find (\<lambda>x. ps_role x = role) (ds_pins d))
      in \<lparr>ro_side = s, ro_index = i, ro_role = role, ro_pin = pin,
          ro_needs = (case p of Some x \<Rightarrow> ps_needs x | None \<Rightarrow> Input_n),
          ro_owner = (case spec of Some d \<Rightarrow> ds_label d | None \<Rightarrow> bd_driver b) @ '' '' @
                     lower_case (case p of Some x \<Rightarrow> ps_label x | None \<Rightarrow> role)\<rparr>)"

lemma role_at_simps [simp]:
  "role_key (role_at catalog s i b role pin) = (s, i, role)" "ro_pin (role_at catalog s i b role pin) = pin"
  "ro_needs (role_at catalog s i b role pin) = role_needs catalog b role"
  "ro_side (role_at catalog s i b role pin) = s" "ro_index (role_at catalog s i b role pin) = i"
  "ro_role (role_at catalog s i b role pin) = role"
  by (simp_all add: role_at_def role_key_def role_needs_def Let_def)

lemma roles_of_at:
  "roles_of h catalog s =
     concat (map (\<lambda>(i, b). map (\<lambda>(role, pin). role_at catalog s i b role pin) (bd_pins b)) (indexed (bindings h s)))"
  by (simp add: roles_of_def role_at_def Let_def)

lemma roles_of_keys: "map role_key (roles_of h catalog s) = role_keys h s"
  by (simp add: roles_of_at role_keys_def map_concat comp_def case_prod_unfold)

lemma roles_of_pins: "map ro_pin (roles_of h catalog s) = map snd (concat (map bd_pins (bindings h s)))"
proof -
  have "map ro_pin (roles_of h catalog s) = concat (map (\<lambda>b. map snd (bd_pins b)) (map snd (indexed (bindings h s))))"
    by (simp add: roles_of_at map_concat comp_def case_prod_unfold del: map_snd_indexed)
  then show ?thesis by (simp add: map_concat comp_def)
qed

lemma roles_of_mem:
  "r \<in> set (roles_of h catalog s) \<Longrightarrow>
   ro_side r = s \<and> ro_index r < length (bindings h s) \<and>
   ro_needs r = role_needs catalog (bindings h s ! ro_index r) (ro_role r)"
  by (auto simp: roles_of_at indexed_nth)

lemma roles_of_has:
  assumes "i < length (bindings h s)" "(role, pin) \<in> set (bd_pins (bindings h s ! i))"
  shows "role_at catalog s i (bindings h s ! i) role pin \<in> set (roles_of h catalog s)"
proof -
  have "(i, bindings h s ! i) \<in> set (indexed (bindings h s))" using assms(1) by (simp add: indexed_nth)
  moreover have "role_at catalog s i (bindings h s ! i) role pin \<in>
      set (map (\<lambda>(role, pin). role_at catalog s i (bindings h s ! i) role pin) (bd_pins (bindings h s ! i)))"
    using assms(2) by (metis (no_types, lifting) case_prod_conv image_eqI set_map)
  ultimately show ?thesis unfolding roles_of_at set_concat set_map by (metis (mono_tags, lifting) UN_I case_prod_conv image_eqI list.set_map)
qed

lemma placed_role:
  assumes "move_inv model (roles_of h catalog Inputs @ roles_of h catalog Outputs) base st" "placed_pin st (s, i, role) p"
  shows "pinProblem model (role_needs catalog (bindings h s ! i) role) p = None"
proof -
  obtain r where "r \<in> set (roles_of h catalog Inputs @ roles_of h catalog Outputs)" "role_key r = (s, i, role)"
    "pinProblem model (ro_needs r) p = None"
    using assms unfolding move_inv_def by blast
  then show ?thesis using roles_of_mem [of r h catalog] by (auto simp: role_key_def)
qed

text \<open>A pin that suits its role, that no other role has and that is not taken, stays.\<close>

lemma keep_role_same:
  "role_key r \<noteq> k \<Longrightarrow> placed_pin (keep_role model st r) k p \<longleftrightarrow> placed_pin st k p"
  by (auto simp: keep_role_def placed_pin_def split: option.splits)

lemma keep_roles_same:
  "k \<notin> role_key ` set rs \<Longrightarrow> placed_pin (foldl (keep_role model) st rs) k p \<longleftrightarrow> placed_pin st k p"
  by (induction rs arbitrary: st) (auto simp: keep_role_same)

lemma keep_roles_keep:
  "r \<in> set rs \<Longrightarrow> distinct (map role_key rs) \<Longrightarrow> distinct (somes (map ro_pin rs)) \<Longrightarrow> ro_pin r = Some p \<Longrightarrow>
   pinProblem model (ro_needs r) p = None \<Longrightarrow> p \<notin> set (t_taken st) \<Longrightarrow>
   placed_pin (foldl (keep_role model) st rs) (role_key r) p"
proof (induction rs arbitrary: st)
  case (Cons x rs)
  show ?case
  proof (cases "x = r")
    case True
    then have "placed_pin (keep_role model st x) (role_key r) p"
      using Cons.prems by (simp add: keep_role_def placed_pin_def)
    moreover have "role_key r \<notin> role_key ` set rs" using Cons.prems(2) True by simp
    ultimately show ?thesis by (simp add: keep_roles_same)
  next
    case False
    then have r: "r \<in> set rs" using Cons.prems(1) by simp
    then have "Some p \<in> ro_pin ` set rs" using Cons.prems(4) by (metis imageI)
    then have "p \<in> set (somes (map ro_pin rs))" by (simp add: set_somes)
    then have "ro_pin x \<noteq> Some p" using Cons.prems(3) by (auto split: option.splits)
    then have "p \<notin> set (t_taken (keep_role model st x))"
      using Cons.prems(6) by (auto simp: keep_role_def split: option.splits)
    then show ?thesis using Cons r by (simp split: option.splits)
  qed
qed simp

lemma rest_role_same: "placed_pin st k p \<Longrightarrow> placed_pin (rest_role model st r) k p"
  by (auto simp: rest_role_def placed_pin_def Let_def split: option.splits)

lemma rest_roles_same: "placed_pin st k p \<Longrightarrow> placed_pin (foldl (rest_role model) st rs) k p"
  by (induction rs arbitrary: st) (auto intro: rest_role_same)

definition new_bus :: "hardware_draft \<Rightarrow> hardware_catalog \<Rightarrow> board_model \<Rightarrow> i2c_bus option" where
  "new_bus h catalog model = (if usesI2c h (Some catalog) then m_i2c model else None)"

definition bus_pins :: "i2c_bus option \<Rightarrow> nat list" where
  "bus_pins bus = (case bus of None \<Rightarrow> [] | Some x \<Rightarrow> [i2c_scl x, i2c_sda x])"

lemma place_all_keeps:
  assumes "distinct (role_keys h Inputs @ role_keys h Outputs)" "distinct (part_pins h)"
    "i < length (bindings h s)" "(role, Some p) \<in> set (bd_pins (bindings h s ! i))"
    "pinProblem model (role_needs catalog (bindings h s ! i) role) p = None" "p \<notin> set (bus_pins bus)"
  shows "placed_pin (place_all h catalog model bus) (s, i, role) p"
proof -
  let ?rs = "roles_of h catalog Inputs @ roles_of h catalog Outputs"
  let ?r = "role_at catalog s i (bindings h s ! i) role (Some p)"
  have "?r \<in> set ?rs" using roles_of_has [OF assms(3,4)] by (cases s) auto
  moreover have "distinct (map role_key ?rs)" using assms(1) by (simp only: map_append roles_of_keys)
  moreover have "distinct (somes (map ro_pin ?rs))"
    using assms(2) by (simp add: roles_of_pins part_pins_def all_bindings_def)
  ultimately show ?thesis
    unfolding place_all_def Let_def
    using keep_roles_keep [of ?r ?rs p model] assms(5,6) by (intro rest_roles_same) (simp add: bus_pins_def)
qed

lemma rebind_moved:
  assumes "i < length (bindings h s)" "distinct (role_keys h Inputs @ role_keys h Outputs)"
  shows "binding_moved (\<lambda>p. distinct (part_pins h) \<and> p \<notin> set (bus_pins bus)) model catalog (bindings h s ! i)
     (rebind (t_placed (place_all h catalog model bus)) s (i, bindings h s ! i))"
proof -
  let ?st = "place_all h catalog model bus" and ?b = "bindings h s ! i"
  have new: "(role, Some p) \<in> set (bd_pins (rebind (t_placed ?st) s (i, ?b))) \<longleftrightarrow>
      role \<in> fst ` set (bd_pins ?b) \<and> placed_pin ?st (s, i, role) p" for role p
    by (cases "dict_get (t_placed ?st) (s, i, role)") (force simp: rebind_def placed_pin_def)+
  have suits: "pinProblem model (role_needs catalog ?b role) p = None" if "placed_pin ?st (s, i, role) p" for role p
    using placed_role [OF place_all_inv that] .
  have keep: "(role, Some p) \<in> set (bd_pins (rebind (t_placed ?st) s (i, ?b)))"
    if "(role, Some p) \<in> set (bd_pins ?b)" "pinProblem model (role_needs catalog ?b role) p = None"
      "distinct (part_pins h) \<and> p \<notin> set (bus_pins bus)" for role p
    using place_all_keeps [OF assms(2) _ assms(1) that(1,2)] that unfolding new by (metis fst_conv imageI)
  show ?thesis unfolding binding_moved_def
    using suits new keep by (auto simp: rebind_def comp_def case_prod_unfold)
qed

text \<open>
  C3: moving a wiring to another board uses no GPIO of it twice, the I2C bus included, and keeps
  every part in its place with its roles, parameters and channels; each role ends on a pin of that
  board which suits it, or on none, and, where no two parts shared a pin, a pin that suits its role on the
  new board and is not one of the new bus stays.
\<close>

theorem moveToBoard_safe:
  assumes "resolveModel (hc_models catalog) target = Some model"
    "\<forall>b\<in>set (all_bindings h). distinct (map fst (bd_pins b))"
    "case m_i2c model of None \<Rightarrow> True | Some bus \<Rightarrow> i2c_sda bus \<noteq> i2c_scl bus"
  shows "let h' = fst (moveToBoard h target catalog) in
    distinct (pins_used h') \<and> hd_board h' = m_id model \<and> hd_i2c h' = new_bus h catalog model \<and>
    (\<forall>s. list_all2 (binding_moved (\<lambda>p. distinct (part_pins h) \<and> p \<notin> set (bus_pins (hd_i2c h'))) model catalog)
       (bindings h s) (bindings h' s))"
proof -
  let ?bus = "new_bus h catalog model"
  let ?st = "place_all h catalog model ?bus"
  let ?f = "\<lambda>k. Option.bind (dict_get (t_placed ?st) k) id"
  let ?base = "case ?bus of None \<Rightarrow> [] | Some x \<Rightarrow> [i2c_scl x, i2c_sda x]"
  note inv = place_all_inv [of model h catalog ?bus, unfolded move_inv_def]
  have f: "?f k = Some p \<longleftrightarrow> placed_pin ?st k p" for k p
    by (cases "dict_get (t_placed ?st) k") (auto simp: placed_pin_def)
  have dk: "distinct (role_keys h Inputs @ role_keys h Outputs)"
  proof -
    have dd: "distinct (role_keys h s)" for s
      by (rule role_keys_distinct) (use assms(2) in \<open>cases s; auto simp: all_bindings_def\<close>)
    have "fst k = s" if "k \<in> set (role_keys h s)" for k s
      using that by (auto simp: role_keys_def)
    then have "set (role_keys h Inputs) \<inter> set (role_keys h Outputs) = {}" by (metis disjoint_iff side.distinct(1))
    with dd show ?thesis by simp
  qed
  have moved: "fst (moveToBoard h target catalog) = h\<lparr>hd_board := m_id model, hd_i2c := ?bus,
      hd_inputs := map (rebind (t_placed ?st) Inputs) (indexed (hd_inputs h)),
      hd_outputs := map (rebind (t_placed ?st) Outputs) (indexed (hd_outputs h))\<rparr>"
    by (simp add: moveToBoard_def assms(1) Let_def new_bus_def)
  have "pins_used (fst (moveToBoard h target catalog)) =
      (case ?bus of None \<Rightarrow> [] | Some b \<Rightarrow> [i2c_sda b, i2c_scl b]) @ somes (map ?f (role_keys h Inputs @ role_keys h Outputs))"
    unfolding pins_used_split moved
    using rebound_pins [of Inputs "t_placed ?st" 0 "hd_inputs h"] rebound_pins [of Outputs "t_placed ?st" 0 "hd_outputs h"]
    by (simp add: role_keys_def somes_append)
  moreover have "distinct (somes (map ?f (role_keys h Inputs @ role_keys h Outputs)))"
  proof (rule distinct_somes [OF dk])
    fix k k' p assume "?f k = Some p" "?f k' = Some p"
    then have "placed_pin ?st k p" "placed_pin ?st k' p" by (simp_all only: f)
    then show "k = k'" by (rule inv [THEN conjunct2, THEN conjunct2, rule_format])
  qed
  moreover have "p \<notin> set ?base" if p: "p \<in> set (somes (map ?f (role_keys h Inputs @ role_keys h Outputs)))" for p
  proof -
    from p have "Some p \<in> ?f ` set (role_keys h Inputs @ role_keys h Outputs)" by (simp only: set_somes set_map)
    then obtain k where "?f k = Some p" by fastforce
    then have "placed_pin ?st k p" by (simp only: f)
    then show ?thesis by (rule inv [THEN conjunct2, THEN conjunct1, rule_format, THEN conjunct2, THEN conjunct1])
  qed
  moreover have "distinct (case ?bus of None \<Rightarrow> [] | Some b \<Rightarrow> [i2c_sda b, i2c_scl b])"
    using assms(3) by (auto simp: new_bus_def split: option.splits)
  ultimately have used: "distinct (pins_used (fst (moveToBoard h target catalog)))"
    by (cases ?bus) auto
  have "bindings (fst (moveToBoard h target catalog)) s = map (rebind (t_placed ?st) s) (indexed (bindings h s))" for s
    unfolding moved by (cases s) simp_all
  then have all: "list_all2 (binding_moved (\<lambda>p. distinct (part_pins h) \<and> p \<notin> set (bus_pins ?bus)) model catalog)
      (bindings h s) (bindings (fst (moveToBoard h target catalog)) s)" for s
    by (simp add: list_all2_conv_all_nth indexed_at rebind_moved [OF _ dk])
  show ?thesis unfolding Let_def using used all by (simp add: moved)
qed

lemma moveToBoard_safe_witness:
  "let h' = fst (moveToBoard demo_wiring ''esp32c3'' demo_catalog) in
   distinct (pins_used h') \<and>
   list_all2 (binding_moved (\<lambda>p. distinct (part_pins demo_wiring) \<and> p \<notin> set (bus_pins (hd_i2c h'))) (legacyModel Esp32c3) demo_catalog)
     (bindings demo_wiring Outputs) (bindings h' Outputs)"
proof -
  have "\<forall>b\<in>set (all_bindings demo_wiring). distinct (map fst (bd_pins b))" by (simp add: all_bindings_def demo_wiring_def)
  moreover have "case m_i2c (legacyModel Esp32c3) of None \<Rightarrow> True | Some bus \<Rightarrow> i2c_sda bus \<noteq> i2c_scl bus"
    by (simp add: legacyModel_def)
  ultimately show ?thesis using moveToBoard_safe [OF demo_model(2)] unfolding Let_def by blast
qed

section \<open>Opening and saving\<close>

text \<open>Rows with ids of their own, none that looks like a missing key, and trimmed keys.\<close>

definition rows_ok :: "keyed_row list \<Rightarrow> bool" where
  "rows_ok rows \<longleftrightarrow> distinct (map kr_uid rows) \<and>
     (\<forall>r\<in>set rows. kr_uid r \<noteq> [] \<and> \<not> starts_with (kr_uid r) MISSING \<and> trim (kr_key r) = kr_key r)"

lemma starts_with_append [simp]: "starts_with (p @ s) p"
  by (simp add: starts_with_def)

lemma find_uid:
  "distinct (map kr_uid rows) \<Longrightarrow> r \<in> set rows \<Longrightarrow> List.find (\<lambda>x. kr_uid x = kr_uid r) rows = Some r"
  by (induction rows) auto

lemma key_of_uid_of_key:
  assumes "rows_ok rows"
  shows "key_of_uid rows (uid_of_key rows key) = key \<and> uid_of_key rows key \<noteq> []"
proof (cases "List.find (\<lambda>r. kr_key r = key) rows")
  case None
  have "key_of_uid rows (MISSING @ key) = key" by (simp add: key_of_uid_def)
  moreover have "MISSING @ key \<noteq> []" by (simp add: MISSING_def)
  ultimately show ?thesis using None by (simp add: uid_of_key_def)
next
  case (Some r)
  then have r: "r \<in> set rows" "kr_key r = key" using find_Some_iff by fastforce+
  then have "List.find (\<lambda>x. kr_uid x = kr_uid r) rows = Some r" using assms find_uid by (auto simp: rows_ok_def)
  then show ?thesis using r assms Some by (auto simp: uid_of_key_def key_of_uid_def rows_ok_def)
qed

text \<open>
  A saved binding: its pins, parameters and channels, each channel naming a key, and text only for a
  parameter that takes text, one the driver lists with its options or one no driver is known for.
\<close>

definition takes_text :: "driver_spec list option \<Rightarrow> string \<Rightarrow> string \<Rightarrow> bool" where
  "takes_text drivers driver key =
     (case Option.bind drivers (\<lambda>ds. findDriver ds driver) of None \<Rightarrow> True
      | Some d \<Rightarrow> (case List.find (\<lambda>p. pr_key p = key) (ds_params d) of None \<Rightarrow> True | Some p \<Rightarrow> pr_type p = Enum_p))"

definition saved_param :: "driver_spec list option \<Rightarrow> string \<Rightarrow> string \<times> param_value \<Rightarrow> bool" where
  "saved_param drivers driver kv = (case snd kv of PStr s \<Rightarrow> takes_text drivers driver (fst kv) | _ \<Rightarrow> True)"

definition saved_binding :: "driver_spec list option \<Rightarrow> hardware_binding \<Rightarrow> bool" where
  "saved_binding drivers b \<longleftrightarrow> hb_pins b \<noteq> None \<and> hb_params b \<noteq> None \<and> hb_channels b \<noteq> None \<and>
     list_all (saved_param drivers (hb_driver b)) (default_nil (hb_params b)) \<and>
     list_all (\<lambda>(ch, key). key \<noteq> []) (default_nil (hb_channels b))"

lemma somes_all: "(\<And>x. x \<in> set xs \<Longrightarrow> f x = Some x) \<Longrightarrow> somes (map f xs) = xs"
  by (induction xs) auto

lemma binding_roundtrip:
  assumes "rows_ok rows" "saved_binding drivers b"
  shows "binding_out rows drivers (binding_in rows uid b) = b"
proof -
  obtain pins params channels where b: "hb_pins b = Some pins" "hb_params b = Some params" "hb_channels b = Some channels"
    using assms(2) by (auto simp: saved_binding_def)
  have p: "somes (map (\<lambda>(role, pin). map_option (\<lambda>p. (role, p)) pin) (map (\<lambda>(role, pin). (role, Some pin)) pins)) = pins"
    by (induction pins) auto
  let ?type_of = "\<lambda>key. Option.bind (Option.bind drivers (\<lambda>ds. findDriver ds (hb_driver b)))
      (\<lambda>s. map_option pr_type (List.find (\<lambda>p. pr_key p = key) (ds_params s)))"
  have "paramValue v (?type_of key) = Some v" if "saved_param drivers (hb_driver b) (key, v)" for key v
    using that by (auto simp: saved_param_def takes_text_def paramValue_def split: param_value.splits option.splits Option.bind_splits)
  then have q: "somes (map (\<lambda>(key, v). map_option (\<lambda>w. (key, w)) (paramValue v (?type_of key))) params) = params"
    using assms(2) by (intro somes_all) (auto simp: saved_binding_def b default_nil_def list_all_iff)
  have "\<forall>(ch, key)\<in>set channels. key \<noteq> []"
    using assms(2) by (simp add: saved_binding_def b default_nil_def list_all_iff)
  then have c: "filter (\<lambda>(ch, key). key \<noteq> []) (map (\<lambda>(ch, ref). (ch, if ref = [] then [] else key_of_uid rows ref))
      (map (\<lambda>(ch, key). (ch, uid_of_key rows key)) channels)) = channels"
    using key_of_uid_of_key [OF assms(1)] by (induction channels) auto
  show ?thesis
    unfolding binding_out_def binding_in_def Let_def
    using p q c by (simp add: b default_nil_def del: map_map)
qed

lemma hardware_back:
  assumes "rows_ok metrics" "rows_ok actuators"
    "hw_inputs c = Some ins" "hw_outputs c = Some outs" "\<forall>b\<in>set (ins @ outs). saved_binding drivers b"
  shows "hardwareToRequest (hardwareToDraft (Some c) metrics actuators uids) metrics actuators drivers = Some c"
proof -
  have one: "map (binding_out rows drivers) (map (\<lambda>(i, b). binding_in rows (uids i) b) (indexed_from n bs)) = bs"
    if "rows_ok rows" "\<forall>b\<in>set bs. saved_binding drivers b" for rows n bs
    using that(2) by (induction bs arbitrary: n) (auto simp: binding_roundtrip [OF that(1)])
  have "map (binding_out metrics drivers) (map (\<lambda>(i, b). binding_in metrics (uids i) b) (indexed ins)) = ins"
    "map (binding_out actuators drivers) (map (\<lambda>(i, b). binding_in actuators (uids i) b) (indexed_from (length ins) outs)) = outs"
    using one [OF assms(1), of ins 0] one [OF assms(2), of outs "length ins"] assms(5) by simp_all
  then show ?thesis
    by (simp add: hardwareToDraft_def hardwareToRequest_def assms(3,4) default_nil_def Let_def del: map_map)
qed

text \<open>
  C32: opening a saved wiring in the editor and saving it unchanged gives the wiring back: the pins,
  the parameters (numbers, switches and the text of a parameter that is a choice, such as a pull
  resistor) and the keys its channels feed, also a key the template no longer has.
\<close>

theorem hardware_roundtrip:
  assumes "rows_ok metrics" "rows_ok actuators"
    "hw_inputs c = Some ins" "hw_outputs c = Some outs" "\<forall>b\<in>set (ins @ outs). saved_binding drivers b"
  shows "hardwareToRequest (hardwareToDraft (Some c) metrics actuators uids) metrics actuators drivers = Some c"
  using assms by (rule hardware_back)

definition digital_in_driver :: driver_spec where
  "digital_in_driver = \<lparr>ds_id = ''digital_in'', ds_kind = Input_d, ds_label = ''Digital input'',
     ds_pins = [\<lparr>ps_role = ''pin'', ps_label = ''Signal'', ps_needs = Input_n\<rparr>],
     ds_params =
       [\<lparr>pr_key = ''pull'', pr_label = ''Pull resistor'', pr_type = Enum_p, pr_default = PStr ''up'', pr_min = None, pr_max = None,
         pr_options = Some [''up'', ''down'', ''none'']\<rparr>,
        \<lparr>pr_key = ''debounce_ms'', pr_label = ''Debounce (ms)'', pr_type = Int_p, pr_default = PNum (Fin 30),
         pr_min = Some (Fin 0), pr_max = Some (Fin 1000), pr_options = None\<rparr>],
     ds_channels = [\<lparr>ch_key = ''value'', ch_label = ''State'', ch_data_type = Some BoolD, ch_value_type = None, ch_common = None\<rparr>],
     ds_wiring = [], ds_i2c = False, ds_chips = None\<rparr>"

definition demo_config :: hardware_config where
  "demo_config = \<lparr>hw_board = ''esp32'', hw_i2c = None,
     hw_inputs = Some [\<lparr>hb_driver = ''digital_in'', hb_pins = Some [(''pin'', 13)],
       hb_params = Some [(''pull'', PStr ''up''), (''debounce_ms'', PNum (Fin 50)), (''invert'', PBool True)],
       hb_channels = Some [(''value'', ''door'')]\<rparr>],
     hw_outputs = Some [\<lparr>hb_driver = ''relay'', hb_pins = Some [(''pin'', 23)], hb_params = Some [(''active_low'', PBool True)],
       hb_channels = Some [(''value'', ''fan1'')]\<rparr>]\<rparr>"

abbreviation demo_drivers :: "driver_spec list" where
  "demo_drivers \<equiv> [digital_in_driver, relay_driver]"

lemma demo_saved: "\<forall>b\<in>set (the (hw_inputs demo_config) @ the (hw_outputs demo_config)). saved_binding (Some demo_drivers) b"
  by (simp add: demo_config_def saved_binding_def default_nil_def saved_param_def takes_text_def findDriver_def
      digital_in_driver_def relay_driver_def)

lemma hardware_roundtrip_witness:
  "hardwareToRequest (hardwareToDraft (Some demo_config) [] [demo_row] (\<lambda>i. ''b'')) [] [demo_row] (Some demo_drivers) = Some demo_config"
  by (rule hardware_roundtrip [OF _ _ _ _ demo_saved])
     (simp_all add: demo_config_def rows_ok_def demo_row_def starts_with_def MISSING_def trim_id is_space_def)

text \<open>
  A number typed with an exponent passes the check of a whole number (\<open>Number\<close>) but is saved
  by its leading digits (\<open>parseInt\<close>).
\<close>

lemma exponent_saved_wrong:
  "param_error \<lparr>pr_key = ''k'', pr_label = ''K'', pr_type = Int_p, pr_default = PNum (Fin 1), pr_min = Some (Fin 0),
       pr_max = Some (Fin 5000), pr_options = None\<rparr> (Some (PStr ''1e3'')) = None \<and>
   to_number ''1e3'' = Fin 1000 \<and> paramValue (PStr ''1e3'') (Some Int_p) = Some (PNum (Fin 1))"
proof -
  have d: "is_digit CHR ''1''" "is_digit CHR ''3''" "\<not> is_digit CHR ''e''" "digit_val CHR ''1'' = 1" "digit_val CHR ''3'' = 3"
    by (simp_all add: is_digit_def digit_val_def char_code_def)
  have t: "trim ''1e3'' = ''1e3''" by (simp add: trim_id is_space_def)
  have r: "radix_literal ''1e3'' = None"
    by (simp add: radix_literal_def lower_case_def lower_char_def is_upper_def char_code_def Let_def)
  have u: "unsigned_decimal ''1e3'' = Some 1000"
    by (simp add: unsigned_decimal_def exp_part_def scale_def frac_val_def digits_val_def d Let_def)
  have n: "to_number ''1e3'' = Fin 1000"
    by (simp add: to_number_def t r signed_literal_def u Let_def)
  have p: "parse_int ''1e3'' = Fin 1"
    by (simp add: parse_int_def is_space_def digits_val_def d Let_def)
  show ?thesis by (simp add: n param_error_def paramValue_def t p is_finite_def is_integer_def Let_def)
qed

end
