(* ===== verification/Units.thy ===== *)
theory Units
  imports Prelude
begin

text \<open>
  The unit catalog (packages/shared/src/units.ts): its categories with every symbol and name, the label
  of a stored symbol and the search of the Unit field. \<open>toLowerCase\<close> of the search is a parameter.
\<close>

record unit_entry =
  un_symbol :: string
  un_name :: string

record unit_category =
  uc_category :: string
  uc_units :: "unit_entry list"

abbreviation unit_of :: "string \<times> string \<Rightarrow> unit_entry" where
  "unit_of p \<equiv> \<lparr>un_symbol = fst p, un_name = snd p\<rparr>"

definition category_of :: "string \<Rightarrow> (string \<times> string) list \<Rightarrow> unit_category" where
  "category_of c us = \<lparr>uc_category = c, uc_units = map unit_of us\<rparr>"

definition BASIC_UNITS :: "unit_category list" where
  "BASIC_UNITS =
   [category_of ''Temperature''
     [(degree @ ''C'', ''Celsius''), (degree @ ''F'', ''Fahrenheit''), (''K'', ''Kelvin''),
      (degree @ ''R'', ''Rankine'')],
    category_of ''Length''
     [(micro @ ''m'', ''Micrometer''), (''mm'', ''Millimeter''), (''cm'', ''Centimeter''),
      (''m'', ''Meter''), (''km'', ''Kilometer''), (''in'', ''Inch''), (''ft'', ''Foot''),
      (''yd'', ''Yard''), (''mi'', ''Mile''), (''nmi'', ''Nautical mile'')],
    category_of ''Area''
     [(''mm'' @ squared, ''Square millimeter''), (''cm'' @ squared, ''Square centimeter''),
      (''m'' @ squared, ''Square meter''), (''km'' @ squared, ''Square kilometer''),
      (''ha'', ''Hectare''), (''ac'', ''Acre''), (''ft'' @ squared, ''Square foot''),
      (''yd'' @ squared, ''Square yard'')],
    category_of ''Volume''
     [(micro @ ''L'', ''Microliter''), (''mL'', ''Milliliter''), (''L'', ''Liter''),
      (''cm'' @ cubed, ''Cubic centimeter''), (''m'' @ cubed, ''Cubic meter''),
      (''gal'', ''US gallon''), (''qt'', ''US quart''), (''pt'', ''US pint''),
      (''fl oz'', ''US fluid ounce''), (''ft'' @ cubed, ''Cubic foot''),
      (''in'' @ cubed, ''Cubic inch'')],
    category_of ''Mass''
     [(micro @ ''g'', ''Microgram''), (''mg'', ''Milligram''), (''g'', ''Gram''),
      (''kg'', ''Kilogram''), (''t'', ''Metric ton''), (''oz'', ''Ounce''), (''lb'', ''Pound''),
      (''st'', ''Stone'')],
    category_of ''Time''
     [(micro @ ''s'', ''Microsecond''), (''ms'', ''Millisecond''), (''s'', ''Second''),
      (''min'', ''Minute''), (''h'', ''Hour''), (''d'', ''Day''), (''wk'', ''Week''),
      (''mo'', ''Month''), (''yr'', ''Year'')],
    category_of ''Speed''
     [(''m/s'', ''Meters per second''), (''km/h'', ''Kilometers per hour''),
      (''mph'', ''Miles per hour''), (''ft/s'', ''Feet per second''), (''kn'', ''Knots''),
      (''RPM'', ''Revolutions per minute'')],
    category_of ''Acceleration''
     [(''m/s'' @ squared, ''Meters per second squared''), (''g'', ''Standard gravity''),
      (''Gal'', ''Gal'')],
    category_of ''Angle and Rotation''
     [(degree, ''Degree''), (''rad'', ''Radian''), (''rev'', ''Revolution''),
      (degree @ ''/s'', ''Degrees per second''), (''rad/s'', ''Radians per second''),
      (''rad/s'' @ squared, ''Radians per second squared'')]]"

definition ENERGY_UNITS :: "unit_category list" where
  "ENERGY_UNITS =
   [category_of ''Electrical''
     [(''V'', ''Volt''), (''mV'', ''Millivolt''), (micro @ ''V'', ''Microvolt''), (''A'', ''Ampere''),
      (''mA'', ''Milliampere''), (micro @ ''A'', ''Microampere''), (omega, ''Ohm''),
      (''k'' @ omega, ''Kiloohm''), (''M'' @ omega, ''Megaohm''), (''S'', ''Siemens''),
      (''F'', ''Farad''), (micro @ ''F'', ''Microfarad''), (''H'', ''Henry''), (''C'', ''Coulomb'')],
    category_of ''Frequency''
     [(''Hz'', ''Hertz''), (''kHz'', ''Kilohertz''), (''MHz'', ''Megahertz''), (''GHz'', ''Gigahertz'')],
    category_of ''Power''
     [(''W'', ''Watt''), (''mW'', ''Milliwatt''), (''kW'', ''Kilowatt''), (''MW'', ''Megawatt''),
      (''GW'', ''Gigawatt''), (''VA'', ''Volt-ampere''), (''kVA'', ''Kilovolt-ampere''),
      (''var'', ''Reactive power'')],
    category_of ''Energy''
     [(''J'', ''Joule''), (''kJ'', ''Kilojoule''), (''MJ'', ''Megajoule''), (''Wh'', ''Watt-hour''),
      (''kWh'', ''Kilowatt-hour''), (''MWh'', ''Megawatt-hour''), (''cal'', ''Calorie''),
      (''kcal'', ''Kilocalorie''), (''BTU'', ''British thermal unit'')],
    category_of ''Pressure''
     [(''Pa'', ''Pascal''), (''kPa'', ''Kilopascal''), (''MPa'', ''Megapascal''),
      (''hPa'', ''Hectopascal''), (''bar'', ''Bar''), (''mbar'', ''Millibar''),
      (''atm'', ''Standard atmosphere''), (''psi'', ''Pounds per square inch''),
      (''mmHg'', ''Millimeters of mercury'')],
    category_of ''Humidity and Moisture''
     [(''%RH'', ''Relative humidity''), (''g/m'' @ cubed, ''Absolute humidity''),
      (''g/kg'', ''Specific humidity''), (degree @ ''C'', ''Dew point''), (''%'', ''Soil moisture''),
      (''m'' @ cubed @ ''/m'' @ cubed, ''Volumetric water content'')],
    category_of ''Light and Radiation''
     [(''lx'', ''Illuminance''), (''lm'', ''Luminous flux''), (''cd'', ''Luminous intensity''),
      (''W/m'' @ squared, ''Irradiance''), (''UVI'', ''UV Index''),
      (''Sv'', ''Radiation dose equivalent''), (micro @ ''Sv/h'', ''Radiation dose rate'')],
    category_of ''Sound and Acoustics''
     [(''dB'', ''Sound pressure level''), (''dBA'', ''A-weighted sound level''),
      (''W/m'' @ squared, ''Sound intensity'')],
    category_of ''Flow''
     [(''L/min'', ''Liters per minute''), (''L/h'', ''Liters per hour''),
      (''m'' @ cubed @ ''/h'', ''Cubic meters per hour''),
      (''m'' @ cubed @ ''/s'', ''Cubic meters per second''), (''GPM'', ''Gallons per minute''),
      (''GPH'', ''Gallons per hour''), (''kg/s'', ''Mass flow rate'')]]"

definition OTHER_UNITS :: "unit_category list" where
  "OTHER_UNITS =
   [category_of ''Level''
     [(''%'', ''Percentage level''), (''mm'', ''Millimeter level''), (''cm'', ''Centimeter level''),
      (''m'', ''Meter level'')],
    category_of ''Force and Mechanics''
     [(''N'', ''Newton''), (''kN'', ''Kilonewton''), (''lbf'', ''Pound-force''),
      (''N'' @ middle_dot @ ''m'', ''Torque''), (''kgf'', ''Kilogram-force'')],
    category_of ''Vibration''
     [(''mm/s'', ''Vibration velocity''), (''m/s'' @ squared, ''Vibration acceleration''),
      (micro @ ''m'', ''Vibration displacement''), (''g'', ''Peak acceleration'')],
    category_of ''Air Quality and Gas''
     [(''ppm'', ''Carbon dioxide''), (''ppm'', ''Carbon monoxide''), (''ppm'', ''Methane''),
      (''ppb'', ''Volatile organic compounds''),
      (micro @ ''g/m'' @ cubed, ''Particulate matter PM1.0''),
      (micro @ ''g/m'' @ cubed, ''Particulate matter PM2.5''),
      (micro @ ''g/m'' @ cubed, ''Particulate matter PM10''), (''%'', ''Oxygen concentration''),
      (''ppb'', ''Ozone concentration''), (''ppb'', ''Nitrogen dioxide''),
      (''AQI'', ''Air Quality Index'')],
    category_of ''Water Quality''
     [(''pH'', ''pH''), (''NTU'', ''Turbidity''), (micro @ ''S/cm'', ''Electrical conductivity''),
      (''ppm'', ''Total dissolved solids''), (''PSU'', ''Salinity''), (''mg/L'', ''Dissolved oxygen''),
      (''mV'', ''Oxidation reduction potential'')],
    category_of ''Soil and Agriculture''
     [(degree @ ''C'', ''Soil temperature''), (''pH'', ''Soil pH''), (''mS/cm'', ''Soil conductivity''),
      (''%'', ''Leaf wetness''), (''mm'', ''Rainfall''), (''mm/h'', ''Rain rate'')],
    category_of ''Location and Navigation''
     [(degree, ''Latitude''), (degree, ''Longitude''), (''m'', ''Altitude''), (''m'', ''GPS accuracy''),
      (degree, ''Heading''), (degree, ''Bearing'')],
    category_of ''Industrial and Process''
     [(''%'', ''Percentage''), (''ppm'', ''Parts per million''), (''ppb'', ''Parts per billion''),
      (''count'', ''Count''), (''pulse'', ''Pulse''), (''event'', ''Event''), (''cycle'', ''Cycle''),
      (''item'', ''Item''), (''items/min'', ''Production rate''), (''%'', ''Efficiency'')],
    category_of ''Data and Computing''
     [(''B'', ''Byte''), (''KB'', ''Kilobyte''), (''MB'', ''Megabyte''), (''GB'', ''Gigabyte''),
      (''TB'', ''Terabyte''), (''bps'', ''Bits per second''), (''kbps'', ''Kilobits per second''),
      (''Mbps'', ''Megabits per second''), (''Gbps'', ''Gigabits per second''),
      (''packet'', ''Packet''), (''%'', ''Packet loss''), (''ms'', ''Latency''),
      (''%'', ''CPU utilization''), (''%'', ''Memory utilization''), (''dBm'', ''Signal strength'')]]"

definition UNIT_CATEGORIES :: "unit_category list" where
  "UNIT_CATEGORIES = BASIC_UNITS @ ENERGY_UNITS @ OTHER_UNITS"

section \<open>Labels\<close>

text \<open>\<open>new Map([...UNIT_CATEGORIES].reverse().flatMap(\<dots>))\<close>: a later pair overwrites an earlier one.\<close>

definition name_by_symbol :: "unit_category list \<Rightarrow> string dict" where
  "name_by_symbol cats =
     foldl (\<lambda>d u. dict_set (un_symbol u) (un_name u) d) [] (concat (map uc_units (rev cats)))"

definition NAME_BY_SYMBOL :: "string dict" where
  "NAME_BY_SYMBOL = name_by_symbol UNIT_CATEGORIES"

definition label_in :: "string dict \<Rightarrow> string option \<Rightarrow> string" where
  "label_in names symbol =
     (case symbol of None \<Rightarrow> ''''
      | Some s \<Rightarrow>
          if s = [] then ''''
          else case dict_get names s of
            None \<Rightarrow> s
          | Some n \<Rightarrow> if n = [] then s else s @ '' '' @ em_dash @ '' '' @ n)"

definition unitLabel :: "string option \<Rightarrow> string" where
  "unitLabel symbol = label_in NAME_BY_SYMBOL symbol"

section \<open>Search\<close>

definition unit_matches :: "(string \<Rightarrow> string) \<Rightarrow> string \<Rightarrow> unit_entry \<Rightarrow> bool" where
  "unit_matches lower q u \<longleftrightarrow> contains (lower (un_symbol u)) q \<or> contains (lower (un_name u)) q"

definition searchUnits :: "(string \<Rightarrow> string) \<Rightarrow> string \<Rightarrow> unit_category list" where
  "searchUnits lower query =
     (let q = lower (trim query) in
      if q = [] then UNIT_CATEGORIES
      else foldl (\<lambda>out c. let us = filter (unit_matches lower q) (uc_units c) in
                   if length us > 0 then out @ [\<lparr>uc_category = uc_category c, uc_units = us\<rparr>] else out)
             [] UNIT_CATEGORIES)"

section \<open>Which name a symbol gets\<close>

lemma foldl_set_get:
  "dict_get (foldl (\<lambda>d u. dict_set (un_symbol u) (un_name u) d) d us) s =
     (case List.find (\<lambda>u. un_symbol u = s) (rev us) of Some u \<Rightarrow> Some (un_name u) | None \<Rightarrow> dict_get d s)"
  by (induction us rule: rev_induct) (auto split: option.splits)

lemma find_append: "List.find p (xs @ ys) = (case List.find p xs of Some x \<Rightarrow> Some x | None \<Rightarrow> List.find p ys)"
  by (induction xs) auto

lemma find_concat:
  "List.find p (concat xss) =
     (case List.find (\<lambda>xs. \<exists>x\<in>set xs. p x) xss of Some xs \<Rightarrow> List.find p xs | None \<Rightarrow> None)"
proof (induction xss)
  case (Cons xs xss)
  show ?case
  proof (cases "\<exists>x\<in>set xs. p x")
    case True
    then have "List.find p xs \<noteq> None" by (simp add: find_None_iff')
    then show ?thesis using True by (auto simp: find_append)
  next
    case False
    then have "List.find p xs = None" by (simp add: find_None_iff')
    then show ?thesis using False Cons by (auto simp: find_append)
  qed
qed simp

lemma name_by_symbol_get:
  "dict_get (name_by_symbol cats) s =
     (case List.find (\<lambda>c. \<exists>u\<in>set (uc_units c). un_symbol u = s) cats of
        None \<Rightarrow> None
      | Some c \<Rightarrow> map_option un_name (List.find (\<lambda>u. un_symbol u = s) (rev (uc_units c))))"
proof -
  have r: "rev (concat (map uc_units (rev cats))) = concat (map (rev \<circ> uc_units) cats)"
    by (simp add: rev_concat rev_map)
  have f: "List.find (\<lambda>xs. \<exists>x\<in>set xs. un_symbol x = s) (map (rev \<circ> uc_units) cats) =
    map_option (rev \<circ> uc_units) (List.find (\<lambda>c. \<exists>u\<in>set (uc_units c). un_symbol u = s) cats)"
    by (induction cats) auto
  show ?thesis unfolding name_by_symbol_def foldl_set_get r find_concat f
    by (cases "List.find (\<lambda>c. \<exists>u\<in>set (uc_units c). un_symbol u = s) cats") (auto split: option.splits)
qed

section \<open>What a search finds\<close>

lemma contains_Nil [simp]: "contains s []"
  by (cases s) (auto simp: starts_with_def)

definition found :: "(unit_entry \<Rightarrow> bool) \<Rightarrow> unit_category list \<Rightarrow> unit_category list" where
  "found p cats = filter (\<lambda>c. uc_units c \<noteq> []) (map (\<lambda>c. \<lparr>uc_category = uc_category c, uc_units = filter p (uc_units c)\<rparr>) cats)"

lemma search_loop:
  "foldl (\<lambda>out c. let us = filter p (uc_units c) in
      if length us > 0 then out @ [\<lparr>uc_category = uc_category c, uc_units = us\<rparr>] else out) out cats = out @ found p cats"
  by (induction cats arbitrary: out) (auto simp: found_def Let_def)

lemma found_units: "concat (map uc_units (found p cats)) = filter p (concat (map uc_units cats))"
  by (induction cats) (auto simp: found_def)

lemma categories_not_empty: "list_all (\<lambda>c. uc_units c \<noteq> []) UNIT_CATEGORIES"
  by (simp add: UNIT_CATEGORIES_def BASIC_UNITS_def ENERGY_UNITS_def OTHER_UNITS_def category_of_def)

text \<open>
  A search lists exactly the catalog's units whose symbol or name holds the query, in the catalog's
  order, a blank query all of them, and never a category without a match, whatever lower-casing does.
\<close>

theorem searchUnits_correct:
  "concat (map uc_units (searchUnits lower query)) =
     filter (unit_matches lower (lower (trim query))) (concat (map uc_units UNIT_CATEGORIES)) \<and>
   list_all (\<lambda>c. uc_units c \<noteq> []) (searchUnits lower query)"
proof (cases "lower (trim query) = []")
  case True
  then show ?thesis using categories_not_empty by (simp add: searchUnits_def unit_matches_def)
next
  case False
  then have "searchUnits lower query = found (unit_matches lower (lower (trim query))) UNIT_CATEGORIES"
    unfolding searchUnits_def search_loop by (simp add: Let_def)
  then show ?thesis using found_units by (simp add: list_all_iff) (simp add: found_def)
qed

text \<open>Of a symbol's uses in the first category that lists it, the last gives the name.\<close>

lemma ppm_is_methane: "unitLabel (Some ''ppm'') = ''ppm '' @ em_dash @ '' Methane''"
  unfolding unitLabel_def NAME_BY_SYMBOL_def label_in_def
  by (simp add: name_by_symbol_get UNIT_CATEGORIES_def BASIC_UNITS_def ENERGY_UNITS_def OTHER_UNITS_def category_of_def degree_def micro_def squared_def cubed_def omega_def
      middle_dot_def)

end
