(* ===== verification/Template_Draft.thy ===== *)
theory Template_Draft
  imports Hardware_Safety Units
begin

text \<open>
  The device-template editor (frontend/src/lib/template-draft.ts): the draft and its rows, the conversions
  from and to the API, and the validation. An id the code draws from its counter is \<open>row_uid\<close> of the
  number drawn. Saved numbers are JavaScript numbers; the fields the API may leave out are options.
\<close>

section \<open>The draft\<close>

datatype template_runs_on = Generic_firmware | Own_code

record metric_draft =
  md_uid :: string
  md_name :: string
  md_key :: string
  md_key_auto :: bool
  md_orig_key :: "string option"
  md_data_type :: data_type
  md_unit :: "string option"
  md_decimals :: string
  md_min :: string
  md_max :: string
  md_publish :: publish_mode
  md_interval :: string
  md_deadband :: string

record actuator_entry =
  ad_uid :: string
  ad_name :: string
  ad_key :: string
  ad_key_auto :: bool
  ad_orig_key :: "string option"
  ad_value_type :: value_type
  ad_on :: string
  ad_off :: string
  ad_allowed :: string
  ad_saved_on :: "param_value option"
  ad_saved_off :: "param_value option"
  ad_saved_allowed :: "param_value list option"

record template_draft =
  td_name :: string
  td_enabled :: bool
  td_runs_on :: template_runs_on
  td_metrics :: "metric_draft list"
  td_actuators :: "actuator_entry list"
  td_hardware :: "hardware_draft option"

datatype section_id = General_s | Hardware_s | Metrics_s | Actuators_s

definition templateSectionOrder :: "template_runs_on \<Rightarrow> section_id list" where
  "templateSectionOrder r =
     (if r = Generic_firmware then [General_s, Hardware_s, Metrics_s, Actuators_s] else [General_s, Metrics_s, Actuators_s])"

definition data_type_text :: "data_type \<Rightarrow> string" where
  "data_type_text t = (case t of FloatD \<Rightarrow> ''float'' | BoolD \<Rightarrow> ''bool'')"

definition value_type_name :: "value_type \<Rightarrow> string" where
  "value_type_name t = (case t of BoolV \<Rightarrow> ''bool'' | FloatV \<Rightarrow> ''float'' | StringV \<Rightarrow> ''string'')"

definition metric_row :: "metric_draft \<Rightarrow> keyed_row" where
  "metric_row m = \<lparr>kr_uid = md_uid m, kr_key = trim (md_key m), kr_name = trim (md_name m), kr_type = data_type_text (md_data_type m)\<rparr>"

definition actuator_row :: "actuator_entry \<Rightarrow> keyed_row" where
  "actuator_row a = \<lparr>kr_uid = ad_uid a, kr_key = trim (ad_key a), kr_name = trim (ad_name a), kr_type = value_type_name (ad_value_type a)\<rparr>"

definition keyedRows :: "metric_draft list \<Rightarrow> actuator_entry list \<Rightarrow> keyed_row list \<times> keyed_row list" where
  "keyedRows metrics actuators = (map metric_row metrics, map actuator_row actuators)"

section \<open>New rows\<close>

definition row_uid :: "nat \<Rightarrow> string" where "row_uid n = CHR ''r'' # nat_text n"

definition blankMetric :: "nat \<Rightarrow> metric_draft" where
  "blankMetric n =
     \<lparr>md_uid = row_uid n, md_name = '''', md_key = '''', md_key_auto = True, md_orig_key = None, md_data_type = FloatD,
      md_unit = None, md_decimals = ''1'', md_min = '''', md_max = '''', md_publish = Periodic, md_interval = ''30'', md_deadband = ''''\<rparr>"

definition blankActuator :: "nat \<Rightarrow> actuator_entry" where
  "blankActuator n =
     \<lparr>ad_uid = row_uid n, ad_name = '''', ad_key = '''', ad_key_auto = True, ad_orig_key = None, ad_value_type = BoolV,
      ad_on = ''true'', ad_off = ''false'', ad_allowed = '''', ad_saved_on = None, ad_saved_off = None, ad_saved_allowed = None\<rparr>"

definition blankTemplate :: "template_runs_on \<Rightarrow> nat \<Rightarrow> template_draft" where
  "blankTemplate r n =
     \<lparr>td_name = '''', td_enabled = True, td_runs_on = r, td_metrics = (if r = Own_code then [blankMetric n] else []),
      td_actuators = [], td_hardware = None\<rparr>"

text \<open>Name edit: the key follows while it is auto.\<close>

definition renamed_metric :: "metric_draft \<Rightarrow> string \<Rightarrow> metric_draft" where
  "renamed_metric row name = row\<lparr>md_name := name, md_key := (if md_key_auto row then slugify name '''' else md_key row)\<rparr>"

definition renamed_actuator :: "actuator_entry \<Rightarrow> string \<Rightarrow> actuator_entry" where
  "renamed_actuator row name = row\<lparr>ad_name := name, ad_key := (if ad_key_auto row then slugify name '''' else ad_key row)\<rparr>"

section \<open>From the API\<close>

record saved_metric =
  sm_name :: string
  sm_key :: "string option"
  sm_unit :: "string option"
  sm_data_type :: "data_type option"
  sm_decimals :: "jsnum option"
  sm_min :: "jsnum option"
  sm_max :: "jsnum option"
  sm_publish :: "publish_mode option"
  sm_interval :: "jsnum option"
  sm_deadband :: "jsnum option"

record saved_actuator =
  sa_name :: string
  sa_key :: "string option"
  sa_value_type :: "value_type option"
  sa_allowed :: "param_value list option"
  sa_on :: "param_value option"
  sa_off :: "param_value option"

record catalog_entry =
  ce_name :: string
  ce_active :: bool
  ce_runs_on :: template_runs_on
  ce_metrics :: "saved_metric list"
  ce_actuators :: "saved_actuator list"
  ce_hardware :: "hardware_config option"

definition or_default :: "'a option \<Rightarrow> 'a \<Rightarrow> 'a" where
  "or_default x d = (case x of Some v \<Rightarrow> v | None \<Rightarrow> d)"

lemma or_default_Some [simp]: "or_default (Some v) d = v"
  by (simp add: or_default_def)

text \<open>\<open>str\<close>: \<open>v == null ? "" : String(v)\<close>\<close>

definition num_str :: "jsnum option \<Rightarrow> string" where
  "num_str v = (case v of None \<Rightarrow> '''' | Some n \<Rightarrow> number_text n)"

definition scalar_str :: "param_value option \<Rightarrow> string" where
  "scalar_str v = (case v of None \<Rightarrow> '''' | Some x \<Rightarrow> param_text x)"

definition metric_in :: "bool \<Rightarrow> string \<Rightarrow> saved_metric \<Rightarrow> metric_draft" where
  "metric_in dup uid m =
     \<lparr>md_uid = uid, md_name = sm_name m, md_key = or_default (sm_key m) '''', md_key_auto = False,
      md_orig_key = (if dup then None else sm_key m), md_data_type = or_default (sm_data_type m) FloatD, md_unit = sm_unit m,
      md_decimals = num_str (sm_decimals m), md_min = num_str (sm_min m), md_max = num_str (sm_max m),
      md_publish = or_default (sm_publish m) Periodic, md_interval = num_str (sm_interval m), md_deadband = num_str (sm_deadband m)\<rparr>"

definition actuator_in :: "bool \<Rightarrow> string \<Rightarrow> saved_actuator \<Rightarrow> actuator_entry" where
  "actuator_in dup uid a =
     \<lparr>ad_uid = uid, ad_name = sa_name a, ad_key = or_default (sa_key a) '''', ad_key_auto = False,
      ad_orig_key = (if dup then None else sa_key a), ad_value_type = or_default (sa_value_type a) BoolV,
      ad_on = scalar_str (sa_on a), ad_off = scalar_str (sa_off a),
      ad_allowed = join '', '' (map param_text (or_default (sa_allowed a) [])),
      ad_saved_on = sa_on a, ad_saved_off = sa_off a, ad_saved_allowed = sa_allowed a\<rparr>"

text \<open>The counter stands at \<open>n\<close> before; the wiring's ids are its own counter's.\<close>

definition metrics_in :: "catalog_entry \<Rightarrow> bool \<Rightarrow> nat \<Rightarrow> metric_draft list" where
  "metrics_in e dup n = map (\<lambda>(i, m). metric_in dup (row_uid i) m) (indexed_from (Suc n) (ce_metrics e))"

definition actuators_in :: "catalog_entry \<Rightarrow> bool \<Rightarrow> nat \<Rightarrow> actuator_entry list" where
  "actuators_in e dup n =
     map (\<lambda>(i, a). actuator_in dup (row_uid i) a) (indexed_from (Suc (n + length (ce_metrics e))) (ce_actuators e))"

definition templateToDraft :: "catalog_entry \<Rightarrow> bool \<Rightarrow> nat \<Rightarrow> (nat \<Rightarrow> string) \<Rightarrow> template_draft" where
  "templateToDraft e dup n uids =
     (let ms = metrics_in e dup n; as = actuators_in e dup n in
      case keyedRows ms as of (mrows, arows) \<Rightarrow>
      \<lparr>td_name = (if dup then ce_name e @ '' (copy)'' else ce_name e), td_enabled = (if dup then True else ce_active e),
       td_runs_on = ce_runs_on e, td_metrics = ms, td_actuators = as,
       td_hardware = hardwareToDraft (ce_hardware e) mrows arows uids\<rparr>)"

section \<open>To the API\<close>

definition num :: "string \<Rightarrow> jsnum option" where
  "num s = (if trim s = [] then None else Some (to_number s))"

text \<open>A saved scalar keeps its type while its text is unchanged.\<close>

definition scalar :: "string \<Rightarrow> param_value option \<Rightarrow> param_value option" where
  "scalar txt saved =
     (if trim txt = [] then None
      else case saved of
        Some v \<Rightarrow> if param_text v = txt then Some v else Some (PStr txt)
      | None \<Rightarrow> Some (PStr txt))"

definition non_blank :: "string \<Rightarrow> string option" where
  "non_blank s = (if s = [] then None else Some s)"

definition metric_out :: "metric_draft \<Rightarrow> saved_metric" where
  "metric_out m =
     (let b = (md_data_type m = BoolD); change = (md_publish m = On_change) in
      \<lparr>sm_name = trim (md_name m), sm_key = non_blank (trim (md_key m)), sm_unit = (if b then None else md_unit m),
       sm_data_type = Some (md_data_type m), sm_decimals = (if b then Some (Fin 0) else num (md_decimals m)),
       sm_min = (if b then Some (Fin 0) else num (md_min m)), sm_max = (if b then Some (Fin 1) else num (md_max m)),
       sm_publish = Some (md_publish m), sm_interval = (if change then None else num (md_interval m)),
       sm_deadband = (if change then num (md_deadband m) else None)\<rparr>)"

definition allowed_texts :: "string \<Rightarrow> string list" where
  "allowed_texts s = non_empty (map trim (split_on CHR '','' s))"

definition allowed_out :: "string \<Rightarrow> param_value list option \<Rightarrow> param_value list option" where
  "allowed_out txt saved =
     (let ts = allowed_texts txt in
      if ts = [] then None
      else case saved of
        Some vs \<Rightarrow> if join '', '' (map param_text vs) = join '', '' ts then Some vs else Some (map PStr ts)
      | None \<Rightarrow> Some (map PStr ts))"

definition actuator_out :: "actuator_entry \<Rightarrow> saved_actuator" where
  "actuator_out a =
     \<lparr>sa_name = trim (ad_name a), sa_key = non_blank (trim (ad_key a)), sa_value_type = Some (ad_value_type a),
      sa_allowed = (if ad_value_type a = StringV then allowed_out (ad_allowed a) (ad_saved_allowed a) else None),
      sa_on = (if ad_value_type a = BoolV then scalar (ad_on a) (ad_saved_on a) else None),
      sa_off = (if ad_value_type a = BoolV then scalar (ad_off a) (ad_saved_off a) else None)\<rparr>"

text \<open>Own code is never wired.\<close>

definition templateToRequest :: "template_draft \<Rightarrow> driver_spec list option \<Rightarrow> catalog_entry" where
  "templateToRequest d drivers =
     (case keyedRows (td_metrics d) (td_actuators d) of (mrows, arows) \<Rightarrow>
      \<lparr>ce_name = trim (td_name d), ce_active = td_enabled d, ce_runs_on = td_runs_on d,
       ce_metrics = map metric_out (td_metrics d), ce_actuators = map actuator_out (td_actuators d),
       ce_hardware = (if td_runs_on d = Own_code then None else hardwareToRequest (td_hardware d) mrows arows drivers)\<rparr>)"

end
