(* ===== verification/Readings.thy ===== *)
theory Readings imports Calendar begin

text \<open>
  What a surface shows of a reading, a device, a command and a key: \<open>format-reading.ts\<close>,
  \<open>freshness.ts\<close>, \<open>time-ago.ts\<close> and \<open>device-status.ts\<close> of \<open>packages/shared/src\<close>, and
  \<open>command-status.ts\<close> and \<open>api-key-status.ts\<close> of \<open>frontend/src/lib\<close>.  The clock is an
  argument, \<open>now\<close> in milliseconds, as in the code; a timestamp the API left out is None.  The
  viewer's zone (\<open>Date.getHours\<close> and its like, and \<open>Intl\<close>) is the parameter \<open>zone\<close>.
\<close>

section \<open>toFixed\<close>

text \<open>The \<open>d\<close> lowest decimal digits of \<open>n\<close>, with leading zeros.\<close>

fun low_digits :: "nat \<Rightarrow> nat \<Rightarrow> string" where
  "low_digits 0 n = []"
| "low_digits (Suc d) n = low_digits d (n div 10) @ [digit_char (n mod 10)]"

text \<open>The nearest multiple of 10^-d, the larger one on a tie, printed with exactly \<open>d\<close> places.\<close>

definition fixed_abs :: "rat \<Rightarrow> nat \<Rightarrow> string" where
  "fixed_abs q d =
     (let n = nat \<lfloor>q * 10 ^ d + 1 / 2\<rfloor>
      in nat_text (n div 10 ^ d) @ (if d = 0 then [] else CHR ''.'' # low_digits d n))"

definition toFixed :: "rat \<Rightarrow> nat \<Rightarrow> string" where
  "toFixed q d = (if q < 0 then CHR ''-'' # fixed_abs (- q) d else fixed_abs q d)"

lemma low_digits_facts:
  "length (low_digits d n) = d \<and> list_all is_digit (low_digits d n) \<and> digits_val (low_digits d n) = n mod 10 ^ d"
proof (induction d arbitrary: n)
  case 0
  then show ?case by simp
next
  case (Suc d)
  have "digits_val (low_digits (Suc d) n) = 10 * (n div 10 mod 10 ^ d) + n mod 10"
    using Suc [of "n div 10"] digit_char_facts [of "n mod 10"] by (simp add: digits_val_snoc)
  also have "\<dots> = n mod 10 ^ Suc d" by (simp add: mod_mult2_eq)
  finally show ?case using Suc [of "n div 10"] by simp
qed

lemma to_number_fixed_abs:
  "unsigned_decimal (fixed_abs q d) = Some (of_nat (nat \<lfloor>q * 10 ^ d + 1 / 2\<rfloor>) / 10 ^ d)"
proof -
  define n where "n = nat \<lfloor>q * 10 ^ d + 1 / 2\<rfloor>"
  have dg: "\<And>c. c \<in> set (nat_text (n div 10 ^ d)) \<Longrightarrow> is_digit c" "\<And>c. c \<in> set (low_digits d n) \<Longrightarrow> is_digit c"
    using nat_text_digits low_digits_facts [of d n] by (auto simp: list_all_iff)
  show ?thesis
  proof (cases "d = 0")
    case True
    then have 1: "takeWhile is_digit (nat_text n) = nat_text n" "dropWhile is_digit (nat_text n) = []"
      using digits_takeWhile [of "nat_text n" "[]"] dg(1) by auto
    have "fixed_abs q d = nat_text n" using True by (simp add: fixed_abs_def n_def)
    then show ?thesis unfolding n_def [symmetric]
      using True by (simp add: unsigned_decimal_def exp_part_def scale_def frac_val_def 1 Let_def)
  next
    case False
    let ?s = "nat_text (n div 10 ^ d) @ CHR ''.'' # low_digits d n"
    have s: "fixed_abs q d = ?s" using False by (simp add: fixed_abs_def n_def Let_def)
    have 1: "takeWhile is_digit ?s = nat_text (n div 10 ^ d)" "dropWhile is_digit ?s = CHR ''.'' # low_digits d n"
      using digits_takeWhile [of "nat_text (n div 10 ^ d)" "CHR ''.'' # low_digits d n"] dg(1) by simp_all
    have 2: "takeWhile is_digit (low_digits d n) = low_digits d n" "dropWhile is_digit (low_digits d n) = []"
      using digits_takeWhile [of "low_digits d n" "[]"] dg(2) by auto
    have "of_nat (n div 10 ^ d) + of_nat (n mod 10 ^ d) / 10 ^ d = (of_nat n / 10 ^ d :: rat)"
    proof -
      have "of_nat (n div 10 ^ d) * 10 ^ d + of_nat (n mod 10 ^ d) = (of_nat n :: rat)"
        using arg_cong [OF div_mult_mod_eq [of n "10 ^ d"], of "of_nat :: nat \<Rightarrow> rat"]
        by (simp only: of_nat_add of_nat_mult of_nat_power of_nat_numeral)
      then have "of_nat n / 10 ^ d = (of_nat (n div 10 ^ d) * 10 ^ d + of_nat (n mod 10 ^ d)) / (10 ^ d :: rat)" by (simp only:)
      then show ?thesis by (simp add: add_divide_distrib)
    qed
    then show ?thesis
      unfolding s unfolding n_def [symmetric]
      using low_digits_facts [of d n] by (simp add: unsigned_decimal_def 1 2 Let_def exp_part_def scale_def frac_val_def)
  qed
qed

lemma fixed_abs_hd: "is_digit (hd (fixed_abs q d)) \<and> fixed_abs q d \<noteq> []"
  using nat_text_digits [OF hd_in_set [OF nat_text_not_Nil]] by (simp add: fixed_abs_def Let_def)

lemma toFixed_chars: "c \<in> set (toFixed q d) \<Longrightarrow> is_digit c \<or> c = CHR ''.'' \<or> c = CHR ''-''"
  using low_digits_facts nat_text_digits
  by (auto simp: toFixed_def fixed_abs_def Let_def list_all_iff split: if_splits)

lemma number_chars_plain:
  assumes "\<And>c. c \<in> set s \<Longrightarrow> is_digit c \<or> c = CHR ''.'' \<or> c = CHR ''-''" "s \<noteq> []"
  shows "trim s = s \<and> radix_literal s = None"
proof
  have ns: "\<not> is_space c" if "c \<in> set s" for c
    using assms(1) [OF that] by (auto simp: is_space_def is_digit_def char_code_def)
  show "trim s = s" using assms(2) ns by (intro trim_id) auto
  have 1: "\<not> is_upper c \<and> c \<notin> {CHR ''x'', CHR ''o'', CHR ''b''}" if "c \<in> set s" for c
    using assms(1) [OF that] by (auto simp: is_upper_def is_digit_def char_code_def)
  then have "take 2 (lower_case s) = take 2 s" by (auto simp: lower_case_def lower_char_def map_idI)
  moreover have "take 2 s \<notin> {''0x'', ''0o'', ''0b''}"
    using 1 by (metis in_set_takeD insertE insertI1 insert_iff list.set_intros singletonD)
  ultimately show "radix_literal s = None" by (simp add: radix_literal_def)
qed

lemma to_number_toFixed:
  "to_number (toFixed q d) =
     Fin (if q < 0 then - (of_nat (nat \<lfloor>- q * 10 ^ d + 1 / 2\<rfloor>) / 10 ^ d) else of_nat (nat \<lfloor>q * 10 ^ d + 1 / 2\<rfloor>) / 10 ^ d)"
proof -
  have ne: "toFixed q d \<noteq> []" using fixed_abs_hd by (simp add: toFixed_def)
  have hd: "hd (fixed_abs r d) \<noteq> CHR ''-'' \<and> hd (fixed_abs r d) \<noteq> CHR ''+'' \<and> hd (fixed_abs r d) \<noteq> CHR ''I''" for r
    using fixed_abs_hd [of r d] by (auto simp: is_digit_def char_code_def)
  have ni: "fixed_abs r d \<noteq> ''Infinity''" for r using hd [of r] by fastforce
  have "signed_literal (toFixed q d) =
     Fin (if q < 0 then - (of_nat (nat \<lfloor>- q * 10 ^ d + 1 / 2\<rfloor>) / 10 ^ d) else of_nat (nat \<lfloor>q * 10 ^ d + 1 / 2\<rfloor>) / 10 ^ d)"
    using hd [of q] ni [of q] ni [of "- q"] fixed_abs_hd [of q d]
    by (simp add: signed_literal_def toFixed_def to_number_fixed_abs Let_def)
  then show ?thesis
    using number_chars_plain [OF toFixed_chars ne] ne by (simp add: to_number_def)
qed

lemma nearest_multiple:
  assumes "0 \<le> (q::rat)"
  shows "\<bar>of_nat (nat \<lfloor>q * 10 ^ d + 1 / 2\<rfloor>) / 10 ^ d - q\<bar> \<le> 1 / (2 * 10 ^ d)"
proof -
  have "0 \<le> q * 10 ^ d" using assms by simp
  then have "0 \<le> \<lfloor>q * 10 ^ d + 1 / 2\<rfloor>" by (simp add: le_floor_iff)
  then have n: "(of_nat (nat \<lfloor>q * 10 ^ d + 1 / 2\<rfloor>) :: rat) = of_int \<lfloor>q * 10 ^ d + 1 / 2\<rfloor>" by simp
  have "\<bar>of_int \<lfloor>q * 10 ^ d + 1 / 2\<rfloor> - q * 10 ^ d\<bar> \<le> 1 / 2" by linarith
  then have "\<bar>of_int \<lfloor>q * 10 ^ d + 1 / 2\<rfloor> - q * 10 ^ d\<bar> / 10 ^ d \<le> 1 / 2 / 10 ^ d"
    by (rule divide_right_mono) simp
  moreover have "of_int \<lfloor>q * 10 ^ d + 1 / 2\<rfloor> / 10 ^ d - q = (of_int \<lfloor>q * 10 ^ d + 1 / 2\<rfloor> - q * 10 ^ d) / 10 ^ d"
    by (simp add: diff_divide_distrib)
  ultimately show ?thesis unfolding n by (simp add: abs_divide)
qed

section \<open>format-reading.ts\<close>

record metric_meta =
  mm_data_type :: "string option"
  mm_decimals :: "nat option"

definition isBoolMetric :: "metric_meta option \<Rightarrow> bool" where
  "isBoolMetric meta = (case meta of None \<Rightarrow> False | Some m \<Rightarrow> mm_data_type m = Some ''bool'')"

definition number_truthy :: "jsnum \<Rightarrow> bool" where
  "number_truthy n \<longleftrightarrow> n \<noteq> NaN \<and> n \<noteq> Fin 0"

definition formatReading :: "jsnum \<Rightarrow> metric_meta option \<Rightarrow> string" where
  "formatReading value meta =
     (if isBoolMetric meta then (if number_truthy value then ''On'' else ''Off'')
      else case (Option.bind meta mm_decimals, value) of
        (Some d, Fin q) \<Rightarrow> toFixed q d
      | _ \<Rightarrow> number_text value)"

text \<open>A reading of a numeric metric with \<open>d\<close> decimals is shown as a number within half a
  unit of the last decimal of it, with exactly \<open>d\<close> digits after the point (and no point when
  \<open>d\<close> is 0); an on/off metric reads Off exactly at 0.\<close>

theorem formatReading_rounds:
  "(case to_number (formatReading (Fin q) (Some \<lparr>mm_data_type = t, mm_decimals = Some d\<rparr>)) of
      Fin shown \<Rightarrow> t = Some ''bool'' \<or>
        \<bar>shown - q\<bar> \<le> 1 / (2 * 10 ^ d) \<and>
        length (dropWhile (\<lambda>c. c \<noteq> CHR ''.'') (formatReading (Fin q) (Some \<lparr>mm_data_type = t, mm_decimals = Some d\<rparr>)))
          = (if d = 0 then 0 else d + 1)
    | _ \<Rightarrow> t = Some ''bool'') \<and>
   formatReading (Fin q) (Some \<lparr>mm_data_type = Some ''bool'', mm_decimals = Some d\<rparr>) = (if q = 0 then ''Off'' else ''On'')"
proof
  have nd: "list_all (\<lambda>c. c \<noteq> CHR ''.'') (nat_text k)" for k
    using nat_text_digits by (fastforce simp: list_all_iff is_digit_def char_code_def)
  have point: "dropWhile (\<lambda>c. c \<noteq> CHR ''.'') (nat_text k @ r) = dropWhile (\<lambda>c. c \<noteq> CHR ''.'') r" for k r
    using nd [of k] by (simp add: dropWhile_append list_all_iff)
  have plain: "length (dropWhile (\<lambda>c. c \<noteq> CHR ''.'') (fixed_abs r d)) = (if d = 0 then 0 else d + 1)" for r
    using low_digits_facts by (simp add: fixed_abs_def Let_def point)
  have "dropWhile (\<lambda>c. c \<noteq> CHR ''.'') (CHR ''-'' # s) = dropWhile (\<lambda>c. c \<noteq> CHR ''.'') s" for s by simp
  then have len: "length (dropWhile (\<lambda>c. c \<noteq> CHR ''.'') (toFixed q d)) = (if d = 0 then 0 else d + 1)"
    by (cases "q < 0") (simp_all only: toFixed_def if_True if_False plain)
  have near: "\<bar>(if q < 0 then - (of_nat (nat \<lfloor>- q * 10 ^ d + 1 / 2\<rfloor>) / 10 ^ d) else of_nat (nat \<lfloor>q * 10 ^ d + 1 / 2\<rfloor>) / 10 ^ d) - q\<bar>
      \<le> 1 / (2 * 10 ^ d)"
    using nearest_multiple [of q d] nearest_multiple [of "- q" d] by (cases "q < 0") auto
  show "case to_number (formatReading (Fin q) (Some \<lparr>mm_data_type = t, mm_decimals = Some d\<rparr>)) of
      Fin shown \<Rightarrow> t = Some ''bool'' \<or>
        \<bar>shown - q\<bar> \<le> 1 / (2 * 10 ^ d) \<and>
        length (dropWhile (\<lambda>c. c \<noteq> CHR ''.'') (formatReading (Fin q) (Some \<lparr>mm_data_type = t, mm_decimals = Some d\<rparr>)))
          = (if d = 0 then 0 else d + 1)
    | _ \<Rightarrow> t = Some ''bool''"
  proof (cases "t = Some ''bool''")
    case True
    then show ?thesis by (simp split: jsnum.splits)
  next
    case False
    then have f: "formatReading (Fin q) (Some \<lparr>mm_data_type = t, mm_decimals = Some d\<rparr>) = toFixed q d"
      by (simp add: formatReading_def isBoolMetric_def)
    show ?thesis unfolding f to_number_toFixed jsnum.case using near len by simp
  qed
qed (simp add: formatReading_def isBoolMetric_def number_truthy_def)

section \<open>freshness.ts\<close>

datatype freshness = Live | Stale | No_data

record metric_timing =
  mt_publish :: string
  mt_interval :: "rat option"

definition DAY_MS :: rat where "DAY_MS = 24 * 3600 * 1000"

definition liveWindowMs :: "metric_timing option \<Rightarrow> rat" where
  "liveWindowMs metric =
     (case metric of
        None \<Rightarrow> 30 * 3 * 1000
      | Some m \<Rightarrow>
          if mt_publish m = ''periodic'' then (case mt_interval m of Some s \<Rightarrow> s | None \<Rightarrow> 30) * 3 * 1000
          else if mt_publish m = ''streaming'' then 30 * 1000
          else DAY_MS)"

text \<open>\<open>now - t < window\<close>, false for an invalid date.\<close>

definition inside_window :: "rat \<Rightarrow> jsnum \<Rightarrow> rat \<Rightarrow> bool" where
  "inside_window now t window = (case t of Fin q \<Rightarrow> now - q < window | _ \<Rightarrow> False)"

definition readingFreshness :: "bool \<Rightarrow> metric_timing option \<Rightarrow> string option \<Rightarrow> rat \<Rightarrow> freshness" where
  "readingFreshness online metric stamp now =
     (case stamp of
        None \<Rightarrow> No_data
      | Some txt \<Rightarrow>
          if txt = [] then No_data
          else if online \<and> inside_window now (date_time txt) (liveWindowMs metric) then Live else Stale)"

section \<open>time-ago.ts\<close>

definition DOW_TEXT :: "string list" where
  "DOW_TEXT = [''Sun'', ''Mon'', ''Tue'', ''Wed'', ''Thu'', ''Fri'', ''Sat'']"

definition MONTH_TEXT :: "string list" where
  "MONTH_TEXT = [''Jan'', ''Feb'', ''Mar'', ''Apr'', ''May'', ''Jun'', ''Jul'', ''Aug'', ''Sep'', ''Oct'', ''Nov'', ''Dec'']"

definition pad_two :: "nat \<Rightarrow> string" where
  "pad_two n = (if n < 10 then ''0'' @ nat_text n else nat_text n)"

text \<open>What the local getters of a \<open>Date\<close> return; \<open>getMonth\<close> counts from 0.\<close>

record local_time =
  lt_day :: nat
  lt_date :: nat
  lt_month :: nat
  lt_year :: nat
  lt_hours :: nat
  lt_minutes :: nat

definition formatWhen :: "(rat \<Rightarrow> local_time) \<Rightarrow> string \<Rightarrow> string" where
  "formatWhen zone txt =
     (case date_time txt of
        Fin t \<Rightarrow>
          (let d = zone t in
           DOW_TEXT ! lt_day d @ '' '' @ nat_text (lt_date d) @ '' '' @ MONTH_TEXT ! lt_month d @ '' '' @
           pad_two (lt_hours d) @ '':'' @ pad_two (lt_minutes d))
      | _ \<Rightarrow> ''undefined NaN undefined NaN:NaN'')"

text \<open>With a zone of its own the words come from \<open>Intl.DateTimeFormat\<close>'s parts.\<close>

definition formatWhenIn :: "string dict \<Rightarrow> string" where
  "formatWhenIn parts =
     (let get = (\<lambda>k. case dict_get parts k of Some v \<Rightarrow> v | None \<Rightarrow> []) in
      get ''weekday'' @ '' '' @ get ''day'' @ '' '' @ get ''month'' @ '' '' @ get ''hour'' @ '':'' @ get ''minute'')"

definition timeAgo :: "(rat \<Rightarrow> local_time) \<Rightarrow> string option \<Rightarrow> rat \<Rightarrow> string" where
  "timeAgo zone stamp now =
     (case stamp of None \<Rightarrow> ''never''
      | Some txt \<Rightarrow>
          if txt = [] then ''never''
          else case date_time txt of
            Fin t \<Rightarrow>
              (let minutes = \<lfloor>(now - t) / 60000\<rfloor>; hours = minutes div 60; days = hours div 24 in
               if minutes < 1 then ''just now''
               else if minutes < 60 then int_text minutes @ '' min ago''
               else if hours < 24 then int_text hours @ '' h ago''
               else if days < 7 then int_text days @ '' d ago''
               else formatWhen zone txt)
          | _ \<Rightarrow> formatWhen zone txt)"

definition ageMinutes :: "string option \<Rightarrow> rat \<Rightarrow> jsnum option" where
  "ageMinutes stamp now =
     (case stamp of None \<Rightarrow> None
      | Some txt \<Rightarrow>
          if txt = [] then None
          else Some (case date_time txt of Fin t \<Rightarrow> Fin (of_int \<lfloor>(now - t) / 60000\<rfloor>) | _ \<Rightarrow> NaN))"

definition formatDate :: "(rat \<Rightarrow> local_time) \<Rightarrow> string \<Rightarrow> string" where
  "formatDate zone txt =
     (case date_time txt of
        Fin t \<Rightarrow> nat_text (lt_date (zone t)) @ '' '' @ MONTH_TEXT ! lt_month (zone t) @ '' '' @ nat_text (lt_year (zone t))
      | _ \<Rightarrow> ''NaN undefined NaN'')"

section \<open>device-status.ts and api-key-status.ts\<close>

datatype tone = Tone_online | Tone_offline | Tone_unknown | Tone_pending | Tone_error | Tone_accent
datatype dot_shape = Solid | Hollow | Square

datatype device_status_key = Online_key | Offline_key | Never_key | Disabled_key

record status_look =
  sl_label :: string
  sl_tone :: tone
  sl_shape :: dot_shape
  sl_order :: nat

definition DEVICE_STATUS :: "device_status_key \<Rightarrow> status_look" where
  "DEVICE_STATUS k =
     (case k of
        Online_key \<Rightarrow> \<lparr>sl_label = ''Online'', sl_tone = Tone_online, sl_shape = Solid, sl_order = 0\<rparr>
      | Offline_key \<Rightarrow> \<lparr>sl_label = ''Offline'', sl_tone = Tone_offline, sl_shape = Solid, sl_order = 1\<rparr>
      | Never_key \<Rightarrow> \<lparr>sl_label = ''Never connected'', sl_tone = Tone_pending, sl_shape = Hollow, sl_order = 2\<rparr>
      | Disabled_key \<Rightarrow> \<lparr>sl_label = ''Disabled'', sl_tone = Tone_unknown, sl_shape = Square, sl_order = 3\<rparr>)"

definition deviceStatusKey :: "string \<Rightarrow> string \<Rightarrow> device_status_key" where
  "deviceStatusKey status connection_state =
     (if status = ''disabled'' then Disabled_key
      else if connection_state = ''online'' then Online_key
      else if connection_state = ''offline'' then Offline_key
      else Never_key)"

datatype key_status = Active_key | Expired_key | Revoked_key

definition given :: "string option \<Rightarrow> bool" where
  "given s \<longleftrightarrow> s \<noteq> None \<and> s \<noteq> Some []"

definition keyStatus :: "string option \<Rightarrow> string option \<Rightarrow> rat \<Rightarrow> key_status" where
  "keyStatus revoked_at expires_at now =
     (if given revoked_at then Revoked_key
      else if given expires_at \<and> js_le (date_time (the expires_at)) (Fin now) then Expired_key
      else Active_key)"

definition KEY_STATUS_LABEL :: "key_status \<Rightarrow> string" where
  "KEY_STATUS_LABEL k = (case k of Active_key \<Rightarrow> ''Active'' | Expired_key \<Rightarrow> ''Expired'' | Revoked_key \<Rightarrow> ''Revoked'')"

definition KEY_STATUS_TONE :: "key_status \<Rightarrow> tone" where
  "KEY_STATUS_TONE k = (case k of Active_key \<Rightarrow> Tone_online | Expired_key \<Rightarrow> Tone_pending | Revoked_key \<Rightarrow> Tone_unknown)"

section \<open>command-status.ts\<close>

record command =
  cm_acked_at :: "string option"
  cm_issued_at :: string
  cm_ttl_seconds :: rat

datatype command_status = Confirmed | Pending | No_response

definition deadline :: "command \<Rightarrow> rat option" where
  "deadline c = (case date_time (cm_issued_at c) of Fin t \<Rightarrow> Some (t + cm_ttl_seconds c * 1000) | _ \<Rightarrow> None)"

definition commandStatus :: "command \<Rightarrow> rat \<Rightarrow> command_status" where
  "commandStatus c now =
     (if cm_acked_at c \<noteq> None then Confirmed
      else case deadline c of
        None \<Rightarrow> Pending
      | Some d \<Rightarrow> if d < now then No_response else Pending)"

definition msUntilCommandDeadline :: "command \<Rightarrow> rat \<Rightarrow> rat option" where
  "msUntilCommandDeadline c now =
     (if cm_acked_at c \<noteq> None then None
      else case deadline c of
        None \<Rightarrow> None
      | Some d \<Rightarrow> if 0 < d - now then Some (d - now) else None)"

definition commandStatusLabel :: "command_status \<Rightarrow> string" where
  "commandStatusLabel s = (case s of Confirmed \<Rightarrow> ''Acknowledged'' | Pending \<Rightarrow> ''Pending'' | No_response \<Rightarrow> ''No response'')"

definition commandStatusTone :: "command_status \<Rightarrow> tone" where
  "commandStatusTone s = (case s of Confirmed \<Rightarrow> Tone_online | Pending \<Rightarrow> Tone_pending | No_response \<Rightarrow> Tone_offline)"

text \<open>The one-second ticker of a waiting command runs exactly while a future deadline exists;
  as long as no ack arrives the command stays Pending for the remaining time and is No response
  at every later moment; but at the very deadline it is still Pending with no ticker left.\<close>

theorem ticker_reaches_no_response:
  "case msUntilCommandDeadline c now of
     None \<Rightarrow> (case commandStatus c now of Pending \<Rightarrow> deadline c = None \<or> deadline c = Some now | _ \<Rightarrow> True)
   | Some r \<Rightarrow> 0 < r \<and> commandStatus c now = Pending \<and>
       commandStatus c (now + r + \<bar>d\<bar>) = (if d = 0 then Pending else No_response) \<and>
       commandStatus c (now + r - \<bar>d\<bar>) = Pending \<and>
       msUntilCommandDeadline c (now + r) = None"
  by (auto simp: msUntilCommandDeadline_def commandStatus_def split: option.splits)

end
