(* ===== verification/Live_Buffer.thy ===== *)
theory Live_Buffer
  imports Prelude Complex_Main
begin

text \<open>
  The coalescing buffer between the realtime socket and the charts (frontend/src/lib/live-buffer.ts):
  its maps, one step per method, and the pure helpers that splice points into a drawn series. A Set of
  listeners is an object with an identity, because an unsubscriber keeps the Set it was made with:
  the map from series keys to Sets holds references into a store of Sets. Frame numbers come from JSON,
  so they are finite: rationals.
\<close>

section \<open>State\<close>

record live_point =
  lp_t :: rat
  lp_v :: rat

record latest_reading =
  lr_metric :: string
  lr_value :: rat
  lr_t :: rat

type_synonym latest_batch = "(string \<times> latest_reading list) list"

definition seriesKey :: "string \<Rightarrow> string \<Rightarrow> string" where
  "seriesKey deviceId metric = deviceId @ CHR 0x00 # metric"

text \<open>\<open>lb_timers\<close> counts the callbacks handed to \<open>options.schedule\<close> that have not run yet.\<close>

record live_buffer =
  lb_latest :: "latest_reading dict dict"
  lb_series :: "live_point list dict"
  lb_listeners :: "nat dict"
  lb_sets :: "(nat \<times> nat list) list"
  lb_next :: nat
  lb_scheduled :: bool
  lb_timers :: nat
  lb_onLatest :: bool

definition new_buffer :: live_buffer where
  "new_buffer = \<lparr>lb_latest = [], lb_series = [], lb_listeners = [], lb_sets = [], lb_next = 0, lb_scheduled = False,
                 lb_timers = 0, lb_onLatest = False\<rparr>"

definition setLatestHandler :: "bool \<Rightarrow> live_buffer \<Rightarrow> live_buffer" where
  "setLatestHandler some b = b\<lparr>lb_onLatest := some\<rparr>"

section \<open>Operations\<close>

definition put_latest :: "string \<Rightarrow> string \<Rightarrow> rat \<Rightarrow> rat \<Rightarrow> latest_reading dict dict \<Rightarrow> latest_reading dict dict" where
  "put_latest deviceId metric value t latest =
     (let per = (case dict_get latest deviceId of Some per \<Rightarrow> per | None \<Rightarrow> []);
          fresh = (case dict_get per metric of None \<Rightarrow> True | Some current \<Rightarrow> lr_t current \<le> t)
      in dict_set deviceId
           (if fresh then dict_set metric \<lparr>lr_metric = metric, lr_value = value, lr_t = t\<rparr> per else per) latest)"

definition put_point :: "string \<Rightarrow> live_point \<Rightarrow> live_buffer \<Rightarrow> live_point list dict" where
  "put_point key p b =
     (if dict_has (lb_listeners b) key
      then dict_set key ((case dict_get (lb_series b) key of Some ps \<Rightarrow> ps | None \<Rightarrow> []) @ [p]) (lb_series b)
      else lb_series b)"

definition push :: "bool \<Rightarrow> string \<Rightarrow> string \<Rightarrow> rat \<Rightarrow> rat \<Rightarrow> live_buffer \<Rightarrow> live_buffer" where
  "push hidden deviceId metric value t b =
     (if hidden then b
      else let b1 = b\<lparr>lb_latest := put_latest deviceId metric value t (lb_latest b),
                      lb_series := put_point (seriesKey deviceId metric) \<lparr>lp_t = t, lp_v = value\<rparr> b\<rparr>
           in if lb_scheduled b1 then b1 else b1\<lparr>lb_scheduled := True, lb_timers := Suc (lb_timers b1)\<rparr>)"

definition set_of :: "live_buffer \<Rightarrow> nat \<Rightarrow> nat list" where
  "set_of b r = (case map_of (lb_sets b) r of Some ls \<Rightarrow> ls | None \<Rightarrow> [])"

text \<open>The unsubscriber is the key, the Set and the listener its closure holds.\<close>

record handle =
  h_key :: string
  h_set :: nat
  h_listener :: nat

definition subscribeSeries :: "string \<Rightarrow> string \<Rightarrow> nat \<Rightarrow> live_buffer \<Rightarrow> live_buffer \<times> handle" where
  "subscribeSeries deviceId metric l b =
     (let key = seriesKey deviceId metric;
          (r, b1) = (case dict_get (lb_listeners b) key of
              Some r \<Rightarrow> (r, b)
            | None \<Rightarrow> (lb_next b, b\<lparr>lb_listeners := dict_set key (lb_next b) (lb_listeners b),
                                    lb_sets := AList.update (lb_next b) [] (lb_sets b), lb_next := Suc (lb_next b)\<rparr>));
          ls = set_of b1 r
      in (b1\<lparr>lb_sets := AList.update r (if l \<in> set ls then ls else ls @ [l]) (lb_sets b1)\<rparr>,
          \<lparr>h_key = key, h_set = r, h_listener = l\<rparr>))"

definition unsubscribe :: "handle \<Rightarrow> live_buffer \<Rightarrow> live_buffer" where
  "unsubscribe h b =
     (let ls = filter (\<lambda>x. x \<noteq> h_listener h) (set_of b (h_set h));
          b1 = b\<lparr>lb_sets := AList.update (h_set h) ls (lb_sets b)\<rparr>
      in if ls = [] then b1\<lparr>lb_listeners := AList.delete (h_key h) (lb_listeners b1),
                            lb_series := AList.delete (h_key h) (lb_series b1)\<rparr>
         else b1)"

definition clear :: "live_buffer \<Rightarrow> live_buffer" where
  "clear b = b\<lparr>lb_latest := [], lb_series := []\<rparr>"

text \<open>
  What a flush hands out: the batch for the caches, when there is one, and the points for each
  listener, in the order of the calls. A handler that throws is caught, so it changes neither list.
\<close>

record flush_out =
  fo_batch :: "latest_batch option"
  fo_points :: "(nat \<times> string \<times> live_point list) list"

definition listeners_of :: "live_buffer \<Rightarrow> string \<Rightarrow> nat list" where
  "listeners_of b key = (case dict_get (lb_listeners b) key of Some r \<Rightarrow> set_of b r | None \<Rightarrow> [])"

definition flush :: "bool \<Rightarrow> live_buffer \<Rightarrow> live_buffer \<times> flush_out" where
  "flush hidden b =
     (let b1 = b\<lparr>lb_scheduled := False\<rparr> in
      if hidden then (clear b1, \<lparr>fo_batch = None, fo_points = []\<rparr>)
      else (b1\<lparr>lb_latest := [], lb_series := []\<rparr>,
            \<lparr>fo_batch = (if lb_latest b \<noteq> [] \<and> lb_onLatest b
                         then Some (map (\<lambda>(d, per). (d, map snd per)) (lb_latest b)) else None),
             fo_points = concat (map (\<lambda>(key, ps). map (\<lambda>l. (l, key, ps)) (listeners_of b key)) (lb_series b))\<rparr>))"

text \<open>The runtime runs a scheduled callback: one timer less, then \<open>flush\<close>.\<close>

definition timer_fires :: "bool \<Rightarrow> live_buffer \<Rightarrow> live_buffer \<times> flush_out" where
  "timer_fires hidden b = flush hidden (b\<lparr>lb_timers := lb_timers b - 1\<rparr>)"

section \<open>A drawn series\<close>

record series =
  s_id :: string
  s_xs :: "rat list"
  s_ys :: "rat list"

definition reseed :: "series \<Rightarrow> string \<Rightarrow> rat list \<Rightarrow> rat list \<Rightarrow> series" where
  "reseed prev i xs ys =
     (if s_id prev \<noteq> i then \<lparr>s_id = i, s_xs = xs, s_ys = ys\<rparr>
      else let newer = filter (\<lambda>(x, y). xs = [] \<or> last xs < x) (zip (s_xs prev) (s_ys prev))
           in \<lparr>s_id = i, s_xs = xs @ map fst newer, s_ys = ys @ map snd newer\<rparr>)"

definition append_point :: "rat list \<times> rat list \<Rightarrow> live_point \<Rightarrow> rat list \<times> rat list" where
  "append_point s p =
     (if fst s \<noteq> [] \<and> lp_t p \<le> last (fst s) then s else (fst s @ [lp_t p], snd s @ [lp_v p]))"

text \<open>The binary search: \<open>mid = (lo + hi) >>> 1\<close>.\<close>

function first_inside :: "rat list \<Rightarrow> rat \<Rightarrow> nat \<Rightarrow> nat \<Rightarrow> nat" where
  "first_inside xs cutoff lo hi =
     (if lo < hi then
        let mid = (lo + hi) div 2 in
        if xs ! mid < cutoff then first_inside xs cutoff (mid + 1) hi else first_inside xs cutoff lo mid
      else lo)"
  by pat_completeness auto
termination by (relation "measure (\<lambda>(xs, cutoff, lo, hi). hi - lo)") auto

declare first_inside.simps [simp del]

definition appendToWindow :: "rat list \<Rightarrow> rat list \<Rightarrow> live_point list \<Rightarrow> rat \<Rightarrow> rat list \<times> rat list" where
  "appendToWindow xs ys points cutoff =
     (let (xs', ys') = foldl append_point (xs, ys) points;
          lo = first_inside xs' cutoff 0 (length xs')
      in if 0 < lo then (drop lo xs', drop lo ys') else (xs', ys'))"

end
