(* ===== verification/Realtime.thy ===== *)
theory Realtime
  imports Json
begin

text \<open>
  The live-updates connection (packages/shared/src/realtime.ts) as a state machine: \<open>connectRealtime\<close>'s
  three variables, and what the runtime still holds for it: token requests in flight, sockets not yet
  closed, timers not yet fired. The environment decides which of those moves next. Also the frame
  unpacking and the socket's URL.
\<close>

section \<open>The socket's URL\<close>

definition url_safe :: "char \<Rightarrow> bool" where
  "url_safe c \<longleftrightarrow> is_digit c \<or> is_upper c \<or> is_lower c \<or> c \<in> set ''-_.!~*()'' \<or> c = CHR 0x27"

definition upper_hex :: "nat \<Rightarrow> char" where
  "upper_hex n = ''0123456789ABCDEF'' ! n"

text \<open>A string is its UTF-8 bytes, so encodeURIComponent works byte by byte.\<close>

definition encodeURIComponent :: "string \<Rightarrow> string" where
  "encodeURIComponent s =
     concat (map (\<lambda>c. if url_safe c then [c] else [CHR 0x25, upper_hex (char_code c div 16), upper_hex (char_code c mod 16)]) s)"

text \<open>\<open>/^(https?):\/\/([^/?#]+)/\<close> on the trimmed URL; \<open>None\<close> is the thrown Error.\<close>

definition wsUrlFromApiUrl :: "string \<Rightarrow> string \<Rightarrow> string \<Rightarrow> string option" where
  "wsUrlFromApiUrl apiUrl token tenantId =
     (let u = trim apiUrl;
          scheme = (if starts_with u ''https://'' then Some (''wss'', drop 8 u)
                    else if starts_with u ''http://'' then Some (''ws'', drop 7 u) else None)
      in case scheme of
           None \<Rightarrow> None
         | Some (ws, rest) \<Rightarrow>
             (let host = takeWhile (\<lambda>c. c \<notin> set ''/?#'') rest in
              if host = [] then None
              else Some (ws @ ''://'' @ host @ ''/ws?token='' @ encodeURIComponent token @ ''&tenant_id='' @ encodeURIComponent tenantId)))"

section \<open>Frames\<close>

text \<open>
  \<open>Dropped\<close>: not JSON. \<open>Throws\<close>: the handler itself raises (a null frame, a batch whose events cannot be
  iterated). Otherwise the messages, each handed to \<open>onMessage\<close> on its own.
\<close>

datatype unpacked = Dropped | Throws | Messages "json list"

definition events_of :: "json option \<Rightarrow> unpacked" where
  "events_of e =
     (case e of
        Some (JArr xs) \<Rightarrow> Messages xs
      | Some (JStr s) \<Rightarrow> Messages (map (\<lambda>c. JStr [c]) s)
      | _ \<Rightarrow> Throws)"

definition unpack :: "string \<Rightarrow> unpacked" where
  "unpack data =
     (case json_parse data of
        None \<Rightarrow> Dropped
      | Some JNull \<Rightarrow> Throws
      | Some frame \<Rightarrow>
          if field frame ''type'' = Some (JStr ''batch'') \<and> field frame ''events'' \<noteq> None then events_of (field frame ''events'')
          else Messages [frame])"

section \<open>The connection\<close>

datatype reason = Initial | Auth_rejected | Reconnect
datatype status = Connecting | Open_st | Reconnecting | Closed_st

definition MAX_BACKOFF_MS :: nat where "MAX_BACKOFF_MS = 15000"

record conn =
  cn_closed :: bool
  cn_backoff :: nat
  cn_socket :: "nat option"
  cn_tokens :: "reason list"
  cn_sockets :: "nat list"
  cn_timers :: "(reason \<times> nat) list"
  cn_next :: nat
  cn_status :: "status list"
  cn_failed :: bool

text \<open>\<open>connect(reason)\<close> up to its first await: the status, then the request for a token.\<close>

definition connect :: "reason \<Rightarrow> conn \<Rightarrow> conn" where
  "connect r c =
     (if cn_closed c then c
      else c\<lparr>cn_status := (if r = Initial then Connecting else Reconnecting) # cn_status c, cn_tokens := r # cn_tokens c\<rparr>)"

definition connectRealtime :: conn where
  "connectRealtime =
     connect Initial \<lparr>cn_closed = False, cn_backoff = 1000, cn_socket = None, cn_tokens = [], cn_sockets = [], cn_timers = [],
                      cn_next = 0, cn_status = [], cn_failed = False\<rparr>"

text \<open>The token arrives: none ends the connection for good, one opens a socket.\<close>

definition got_token :: "reason \<Rightarrow> string option \<Rightarrow> conn \<Rightarrow> conn" where
  "got_token r tok c =
     (let c1 = c\<lparr>cn_tokens := remove1 r (cn_tokens c)\<rparr> in
      if cn_closed c1 then c1
      else case tok of
        None \<Rightarrow> c1\<lparr>cn_status := Closed_st # cn_status c1\<rparr>
      | Some t \<Rightarrow> (if t = [] then c1\<lparr>cn_status := Closed_st # cn_status c1\<rparr>
                   else c1\<lparr>cn_socket := Some (cn_next c1), cn_sockets := cn_next c1 # cn_sockets c1, cn_next := Suc (cn_next c1)\<rparr>))"

text \<open>The token request rejects: \<open>connect\<close> rejects too, and nobody awaits it. The same state is left when the socket's URL or the socket cannot be made.\<close>

definition token_rejected :: "reason \<Rightarrow> conn \<Rightarrow> conn" where
  "token_rejected r c = c\<lparr>cn_tokens := remove1 r (cn_tokens c), cn_failed := True\<rparr>"

definition sock_open :: "conn \<Rightarrow> conn" where
  "sock_open c = c\<lparr>cn_backoff := 1000, cn_status := Open_st # cn_status c\<rparr>"

definition sock_close :: "nat \<Rightarrow> nat \<Rightarrow> conn \<Rightarrow> conn" where
  "sock_close s code c =
     (let c1 = c\<lparr>cn_sockets := remove1 s (cn_sockets c), cn_socket := None\<rparr> in
      if cn_closed c1 then c1
      else if code = 4403 then c1\<lparr>cn_status := Closed_st # cn_status c1\<rparr>
      else let r = (if code = 4401 then Auth_rejected else Reconnect);
               delay = (if r = Auth_rejected then 0 else cn_backoff c1)
           in c1\<lparr>cn_status := Reconnecting # cn_status c1, cn_timers := (r, delay) # cn_timers c1,
                 cn_backoff := min (cn_backoff c1 * 2) MAX_BACKOFF_MS\<rparr>)"

definition timer_due :: "reason \<times> nat \<Rightarrow> conn \<Rightarrow> conn" where
  "timer_due t c = connect (fst t) (c\<lparr>cn_timers := remove1 t (cn_timers c)\<rparr>)"

text \<open>The caller's \<open>close()\<close>; the socket it closes reports its close event later.\<close>

definition close :: "conn \<Rightarrow> conn" where
  "close c = c\<lparr>cn_closed := True\<rparr>"

inductive rt_step :: "conn \<Rightarrow> conn \<Rightarrow> bool" where
  token: "r \<in> set (cn_tokens c) \<Longrightarrow> rt_step c (got_token r tok c)"
| reject: "r \<in> set (cn_tokens c) \<Longrightarrow> rt_step c (token_rejected r c)"
| opened: "s \<in> set (cn_sockets c) \<Longrightarrow> rt_step c (sock_open c)"
| dropped: "s \<in> set (cn_sockets c) \<Longrightarrow> rt_step c (sock_close s code c)"
| due: "t \<in> set (cn_timers c) \<Longrightarrow> rt_step c (timer_due t c)"
| closing: "rt_step c (close c)"

inductive rt_reachable :: "conn \<Rightarrow> bool" where
  start: "rt_reachable connectRealtime"
| step: "rt_reachable c \<Longrightarrow> rt_step c c' \<Longrightarrow> rt_reachable c'"

section \<open>One attempt at a time, and never silently stuck\<close>

definition attempts :: "conn \<Rightarrow> nat" where
  "attempts c = length (cn_tokens c) + length (cn_sockets c) + length (cn_timers c)"

definition ended :: "conn \<Rightarrow> bool" where
  "ended c \<longleftrightarrow> cn_closed c \<or> cn_failed c \<or> (cn_status c \<noteq> [] \<and> hd (cn_status c) = Closed_st)"

definition conn_ok :: "conn \<Rightarrow> bool" where
  "conn_ok c \<longleftrightarrow>
     attempts c \<le> 1 \<and> (attempts c = 1 \<or> ended c) \<and>
     (hd (cn_status c) = Closed_st \<longrightarrow> attempts c = 0) \<and> cn_status c \<noteq> [] \<and>
     1000 \<le> cn_backoff c \<and> cn_backoff c \<le> MAX_BACKOFF_MS \<and>
     (\<forall>t\<in>set (cn_timers c). snd t \<le> MAX_BACKOFF_MS) \<and>
     (\<forall>s\<in>set (cn_sockets c). cn_socket c = Some s)"

lemma one_member: "x \<in> set xs \<Longrightarrow> length xs \<le> 1 \<Longrightarrow> xs = [x]"
  by (cases xs; cases "tl xs") auto

lemma rt_step_ok: "rt_step c c' \<Longrightarrow> conn_ok c \<Longrightarrow> conn_ok c'"
proof (induction rule: rt_step.induct)
  case (token r c tok)
  then have "cn_tokens c = [r]" "cn_sockets c = []" "cn_timers c = []"
    using one_member [of r "cn_tokens c"] by (auto simp: conn_ok_def attempts_def)
  then show ?case using token
    by (cases tok) (auto simp: conn_ok_def attempts_def ended_def got_token_def Let_def)
next
  case (reject r c)
  then have "cn_tokens c = [r]" "cn_sockets c = []" "cn_timers c = []"
    using one_member [of r "cn_tokens c"] by (auto simp: conn_ok_def attempts_def)
  then show ?case using reject by (auto simp: conn_ok_def attempts_def ended_def token_rejected_def)
next
  case (opened s c)
  then have "cn_tokens c = []" "cn_sockets c = [s]" "cn_timers c = []"
    using one_member [of s "cn_sockets c"] by (auto simp: conn_ok_def attempts_def)
  then show ?case using opened by (auto simp: conn_ok_def attempts_def ended_def sock_open_def MAX_BACKOFF_MS_def)
next
  case (dropped s c code)
  then have "cn_tokens c = []" "cn_sockets c = [s]" "cn_timers c = []"
    using one_member [of s "cn_sockets c"] by (auto simp: conn_ok_def attempts_def)
  then show ?case using dropped
    by (auto simp: conn_ok_def attempts_def ended_def sock_close_def Let_def MAX_BACKOFF_MS_def)
next
  case (due t c)
  then have "cn_tokens c = []" "cn_sockets c = []" "cn_timers c = [t]"
    using one_member [of t "cn_timers c"] by (auto simp: conn_ok_def attempts_def)
  then show ?case using due by (auto simp: conn_ok_def attempts_def ended_def timer_due_def connect_def)
next
  case (closing c)
  then show ?case by (auto simp: conn_ok_def attempts_def ended_def close_def)
qed

lemma rt_reachable_ok: "rt_reachable c \<Longrightarrow> conn_ok c"
proof (induction rule: rt_reachable.induct)
  case start
  show ?case by (simp add: conn_ok_def attempts_def connectRealtime_def connect_def MAX_BACKOFF_MS_def)
next
  case (step c c')
  then show ?case by (blast intro: rt_step_ok)
qed

text \<open>
  C25: in every run, at most one token request, socket or timer is pending, and it is the socket the
  connection holds; none is pending only when the caller closed it, the workspace was refused, there
  was no token, or the token request itself failed; a refused connection never retries, and no wait
  is longer than 15 seconds.
\<close>

theorem one_live_connection:
  assumes "rt_reachable c"
  shows "attempts c \<le> 1 \<and> (attempts c = 0 \<longrightarrow> ended c) \<and> (hd (cn_status c) = Closed_st \<longrightarrow> attempts c = 0) \<and>
         (\<forall>s\<in>set (cn_sockets c). cn_socket c = Some s) \<and> (\<forall>t\<in>set (cn_timers c). snd t \<le> 15000)"
  using rt_reachable_ok [OF assms] by (auto simp: conn_ok_def MAX_BACKOFF_MS_def)

lemma one_live_connection_witness:
  "attempts (sock_close 0 4403 (sock_open (got_token Initial (Some ''t'') connectRealtime))) = 0"
proof -
  have "rt_reachable (got_token Initial (Some ''t'') connectRealtime)"
    by (rule rt_reachable.step [OF rt_reachable.start rt_step.token]) (simp add: connectRealtime_def connect_def)
  then have "rt_reachable (sock_open (got_token Initial (Some ''t'') connectRealtime))"
    by (rule rt_reachable.step [OF _ rt_step.opened [of 0]])
      (simp add: connectRealtime_def connect_def got_token_def Let_def)
  then have "rt_reachable (sock_close 0 4403 (sock_open (got_token Initial (Some ''t'') connectRealtime)))"
    by (rule rt_reachable.step [OF _ rt_step.dropped [of 0]])
      (simp add: connectRealtime_def connect_def got_token_def sock_open_def Let_def)
  from one_live_connection [OF this] show ?thesis
    by (simp add: sock_close_def sock_open_def got_token_def connectRealtime_def connect_def Let_def)
qed

text \<open>
  Without \<open>cn_failed\<close> the liveness is false: a token request that rejects leaves a connection that is
  not closed, reports Reconnecting (or Connecting) and has nothing pending, so it never reconnects.
\<close>

lemma rejected_token_strands:
  "\<exists>c. rt_reachable c \<and> \<not> cn_closed c \<and> hd (cn_status c) = Connecting \<and> attempts c = 0"
proof -
  let ?c = "token_rejected Initial connectRealtime"
  have "rt_reachable ?c"
    by (rule rt_reachable.step [OF rt_reachable.start rt_step.reject]) (simp add: connectRealtime_def connect_def)
  moreover have "\<not> cn_closed ?c \<and> hd (cn_status ?c) = Connecting \<and> attempts ?c = 0"
    by (simp add: token_rejected_def connectRealtime_def connect_def attempts_def)
  ultimately show ?thesis by blast
qed

end
