(* ===== verification/Live_Screen.thy ===== *)
theory Live_Screen imports Calendar Live_Buffer Realtime begin

text \<open>
  The screen side of the live updates: the cache updaters of \<open>packages/shared/src/live-telemetry.ts\<close>
  and the hook that feeds them, \<open>frontend/src/hooks/useRealtime.ts\<close>.  The state is the buffer of
  \<open>Live_Buffer\<close>, SWR's cache as a map from keys to data, the refetches asked for, and the hook's
  refs.  A message has the fields of \<open>RealtimeMessage\<close>, absent and null both None.  SWR itself is
  third party: a mutate with \<open>revalidate: false\<close> replaces the data of a key, one without an updater
  asks for a refetch, which the environment answers later (step \<open>fetched\<close>).  An updater that meets
  data of another type throws: the cache stays and \<open>sc_crashed\<close> is set.
\<close>

section \<open>live-telemetry.ts\<close>

record latest_row =
  tl_metric :: string
  tl_value :: rat
  tl_time :: string

definition isNewer :: "string \<Rightarrow> string \<Rightarrow> bool" where
  "isNewer candidate existing = (existing = [] \<or> js_gt (date_time candidate) (date_time existing))"

definition row_of :: "latest_row list \<Rightarrow> string \<Rightarrow> latest_row option" where
  "row_of rows metric = List.find (\<lambda>r. tl_metric r = metric) rows"

definition mergeLatest :: "string \<Rightarrow> rat \<Rightarrow> string \<Rightarrow> latest_row list \<Rightarrow> latest_row list" where
  "mergeLatest metric v txt current =
     (let new = \<lparr>tl_metric = metric, tl_value = v, tl_time = txt\<rparr> in
      case row_of current metric of
        None \<Rightarrow> current @ [new]
      | Some existing \<Rightarrow>
          if \<not> isNewer txt (tl_time existing) then current
          else map (\<lambda>r. if tl_metric r = metric then new else r) current)"

record device_row =
  dv_id :: string
  dv_connection_state :: string
  dv_last_seen_at :: "string option"
  dv_rssi :: "rat option"
  dv_battery_pct :: "rat option"
  dv_uptime_s :: "rat option"
  dv_fw_version :: "string option"

definition less_than_ms_apart :: "jsnum \<Rightarrow> jsnum \<Rightarrow> rat \<Rightarrow> bool" where
  "less_than_ms_apart a b ms = (case (a, b) of (Fin p, Fin q) \<Rightarrow> p - q < ms | _ \<Rightarrow> False)"

definition markOnline :: "string \<Rightarrow> device_row \<Rightarrow> device_row" where
  "markOnline txt current =
     (if dv_connection_state current = ''online'' \<and>
         (case dv_last_seen_at current of None \<Rightarrow> False
          | Some seen \<Rightarrow> seen \<noteq> [] \<and> less_than_ms_apart (date_time txt) (date_time seen) 1000)
      then current
      else current\<lparr>dv_connection_state := ''online'', dv_last_seen_at := Some txt\<rparr>)"

record health_fields =
  hf_online :: bool
  hf_rssi :: "rat option"
  hf_battery_pct :: "rat option"
  hf_uptime_s :: "rat option"
  hf_fw_version :: "string option"

definition applyDeviceHealth :: "health_fields \<Rightarrow> device_row \<Rightarrow> device_row" where
  "applyDeviceHealth f current =
     current\<lparr>dv_connection_state := (if hf_online f then ''online'' else ''offline''), dv_rssi := hf_rssi f,
             dv_battery_pct := hf_battery_pct f, dv_uptime_s := hf_uptime_s f, dv_fw_version := hf_fw_version f\<rparr>"

section \<open>The hook's state\<close>

datatype cached = Rows "latest_row list" | Device device_row | Other_data

datatype refetch = Refetch string | Refetch_feed string | Refetch_devices

record rt_message =
  rm_type :: string
  rm_device_id :: "string option"
  rm_metric :: "string option"
  rm_value :: "rat option"
  rm_time :: "rat option"
  rm_online :: "bool option"
  rm_rssi :: "rat option"
  rm_battery_pct :: "rat option"
  rm_uptime_s :: "rat option"
  rm_fw_version :: "string option"
  rm_rule_id :: "string option"

record screen =
  sc_buffer :: live_buffer
  sc_cache :: "string \<Rightarrow> cached option"
  sc_refetches :: "refetch list"
  sc_emitted :: "rt_message list"
  sc_status :: status
  sc_dropped :: bool
  sc_hidden :: bool
  sc_crashed :: bool

definition latestKey :: "string \<Rightarrow> string" where
  "latestKey deviceId = ''/devices/'' @ deviceId @ ''/latest''"

definition deviceKey :: "string \<Rightarrow> string" where
  "deviceKey deviceId = ''/devices/'' @ deviceId"

definition ATTENTION_KEY :: string where "ATTENTION_KEY = ''/tenants/current/attention''"

text \<open>The keys a mutate with a predicate matches: \<open>revalidateFeed\<close> and \<open>catchUpDevices\<close>.\<close>

definition refetches :: "refetch \<Rightarrow> string \<Rightarrow> bool" where
  "refetches r key =
     (case r of
        Refetch k \<Rightarrow> key = k
      | Refetch_feed path \<Rightarrow> key = path \<or> starts_with key (path @ ''?'')
      | Refetch_devices \<Rightarrow> starts_with key ''/devices/'')"

definition ask :: "refetch \<Rightarrow> screen \<Rightarrow> screen" where
  "ask r s = s\<lparr>sc_refetches := sc_refetches s @ [r]\<rparr>"

definition revalidateFeed :: "string \<Rightarrow> screen \<Rightarrow> screen" where
  "revalidateFeed path = ask (Refetch_feed path)"

definition catchUpDevices :: "screen \<Rightarrow> screen" where
  "catchUpDevices = ask Refetch_devices"

text \<open>\<open>mutate(key, updater, { revalidate: false })\<close> for the two types of data.\<close>

definition mutate_rows :: "string \<Rightarrow> (latest_row list \<Rightarrow> latest_row list) \<Rightarrow> screen \<Rightarrow> screen" where
  "mutate_rows key f s =
     (case sc_cache s key of
        None \<Rightarrow> s
      | Some (Rows rows) \<Rightarrow> s\<lparr>sc_cache := (sc_cache s)(key \<mapsto> Rows (f rows))\<rparr>
      | Some _ \<Rightarrow> s\<lparr>sc_crashed := True\<rparr>)"

definition mutate_device :: "string \<Rightarrow> (device_row \<Rightarrow> device_row) \<Rightarrow> screen \<Rightarrow> screen" where
  "mutate_device key f s =
     (case sc_cache s key of
        None \<Rightarrow> s
      | Some (Device d) \<Rightarrow> s\<lparr>sc_cache := (sc_cache s)(key \<mapsto> Device (f d))\<rparr>
      | Some _ \<Rightarrow> s\<lparr>sc_crashed := True\<rparr>)"

definition hasData :: "screen \<Rightarrow> string \<Rightarrow> bool" where
  "hasData s key \<longleftrightarrow> sc_cache s key \<noteq> None"

section \<open>useRealtime.ts\<close>

text \<open>\<open>new Date(seconds * 1000).toISOString()\<close>, for times from 1970 on.\<close>

definition iso_of :: "rat \<Rightarrow> string" where
  "iso_of seconds = toISOString (nat \<lfloor>seconds * 1000\<rfloor>)"

definition merge_reading :: "latest_row list \<Rightarrow> latest_reading \<Rightarrow> latest_row list" where
  "merge_reading acc r = mergeLatest (lr_metric r) (lr_value r) (iso_of (lr_t r)) acc"

definition newest_t :: "latest_reading list \<Rightarrow> rat" where
  "newest_t readings = Max (set (map lr_t readings))"

definition apply_device_batch :: "screen \<Rightarrow> string \<times> latest_reading list \<Rightarrow> screen" where
  "apply_device_batch s entry =
     (case entry of (deviceId, readings) \<Rightarrow>
        let s1 = (if hasData s (latestKey deviceId)
                  then mutate_rows (latestKey deviceId) (\<lambda>current. foldl merge_reading current readings) s else s)
        in if hasData s1 (deviceKey deviceId)
           then mutate_device (deviceKey deviceId) (markOnline (iso_of (newest_t readings))) s1 else s1)"

definition applyLatest :: "latest_batch \<Rightarrow> screen \<Rightarrow> screen" where
  "applyLatest batch s = foldl apply_device_batch s batch"

definition health_of :: "rt_message \<Rightarrow> bool \<Rightarrow> health_fields" where
  "health_of m online =
     \<lparr>hf_online = online, hf_rssi = rm_rssi m, hf_battery_pct = rm_battery_pct m, hf_uptime_s = rm_uptime_s m,
      hf_fw_version = rm_fw_version m\<rparr>"

text \<open>An id that is present and not empty.\<close>

definition some_id :: "string option \<Rightarrow> bool" where
  "some_id x = (case x of None \<Rightarrow> False | Some s \<Rightarrow> s \<noteq> [])"

text \<open>\<open>now\<close> is \<open>Date.now() / 1000\<close>.\<close>

definition onMessage :: "rat \<Rightarrow> rt_message \<Rightarrow> screen \<Rightarrow> screen" where
  "onMessage now m s0 =
     (let s = s0\<lparr>sc_emitted := sc_emitted s0 @ [m]\<rparr>; dev = the (rm_device_id m); rule = the (rm_rule_id m) in
      if rm_type m = ''telemetry'' \<and> some_id (rm_device_id m) \<and> rm_metric m \<noteq> None \<and> rm_value m \<noteq> None then
        s\<lparr>sc_buffer := push (sc_hidden s) dev (the (rm_metric m)) (the (rm_value m))
                         (case rm_time m of Some t \<Rightarrow> t | None \<Rightarrow> now) (sc_buffer s)\<rparr>
      else if rm_type m = ''device_health'' \<and> some_id (rm_device_id m) \<and> rm_online m \<noteq> None then
        (let s1 = ask (Refetch ATTENTION_KEY) s in
         if hasData s1 (deviceKey dev)
         then mutate_device (deviceKey dev) (applyDeviceHealth (health_of m (the (rm_online m)))) s1 else s1)
      else if rm_type m = ''command_ack'' \<and> some_id (rm_device_id m) then
        revalidateFeed (''/devices/'' @ dev @ ''/commands'') s
      else if rm_type m = ''notification'' then
        ask (Refetch ATTENTION_KEY) (revalidateFeed ''/notifications'' s)
      else if rm_type m = ''rule_execution'' \<and> some_id (rm_rule_id m) then
        ask (Refetch ''/rules/activity'') (revalidateFeed (''/rules/'' @ rule @ ''/executions'') s)
      else if (rm_type m = ''rule_health'' \<or> rm_type m = ''rule_latched'') \<and> some_id (rm_rule_id m) then
        ask (Refetch ATTENTION_KEY) (ask (Refetch (''/rules/'' @ rule)) (ask (Refetch ''/rules'') s))
      else s)"

definition onStatusChange :: "status \<Rightarrow> screen \<Rightarrow> screen" where
  "onStatusChange st s =
     (let s1 = s\<lparr>sc_status := st, sc_dropped := (sc_dropped s \<or> st = Reconnecting)\<rparr> in
      if st = Open_st \<and> sc_dropped s1 then catchUpDevices (s1\<lparr>sc_dropped := False\<rparr>) else s1)"

text \<open>\<open>hidden\<close> is what \<open>document.hidden\<close> says from now on.\<close>

definition onVisibilityChange :: "bool \<Rightarrow> screen \<Rightarrow> screen" where
  "onVisibilityChange hidden s =
     (let s1 = s\<lparr>sc_hidden := hidden\<rparr> in
      if hidden then s1\<lparr>sc_buffer := clear (sc_buffer s1)\<rparr> else catchUpDevices s1)"

definition buffer_timer :: "screen \<Rightarrow> screen" where
  "buffer_timer s =
     (case timer_fires (sc_hidden s) (sc_buffer s) of (b, out) \<Rightarrow>
        let s1 = s\<lparr>sc_buffer := b\<rparr> in
        case fo_batch out of None \<Rightarrow> s1 | Some batch \<Rightarrow> applyLatest batch s1)"

text \<open>The effect: the handler goes in on mount and out on unmount.\<close>

definition useRealtime_mount :: "screen \<Rightarrow> screen" where
  "useRealtime_mount s = s\<lparr>sc_buffer := setLatestHandler True (sc_buffer s)\<rparr>"

definition useRealtime_unmount :: "screen \<Rightarrow> screen" where
  "useRealtime_unmount s = s\<lparr>sc_buffer := setLatestHandler False (sc_buffer s)\<rparr>"

text \<open>\<open>getToken\<close>: the token at hand, or a fresh one after a rejection; \<open>refreshed\<close> is what the
  session's refresh comes back with.\<close>

definition getToken :: "reason \<Rightarrow> string option \<Rightarrow> string option \<Rightarrow> string option" where
  "getToken r held refreshed = (if r \<noteq> Auth_rejected then held else refreshed)"

end
