(* ===== verification/Rule_Types.thy ===== *)
theory Rule_Types imports Json begin

text \<open>
  The data of the rule editor (\<open>frontend/src/lib/rule-draft.ts\<close>) and the part of the API's
  schema it reads and writes (\<open>packages/shared/src/api.ts\<close>).  Field names carry a prefix per
  record.  An optional or nullable field is an option; a number is a \<open>jsnum\<close>.  \<open>CNull\<close> is
  JavaScript's null where the API's type has a condition: the code casts it away, and
  \<open>conditionFromNode_clean\<close> shows that it never reaches the API.  Ids come from
  \<open>newId\<close>: a supply \<open>gen\<close> and the number of ids drawn so far.
\<close>

section \<open>The API's shapes\<close>

datatype combinator = And | Or

datatype rhs_spec =
    Static jsnum
  | Range jsnum jsnum
  | ValueSet "jsnum list"
  | MetricRhs string string

record condition_leaf =
  l_device_id :: "string option"
  l_metric :: string
  l_operator :: string
  l_rhs :: "rhs_spec option"
  l_hysteresis :: "jsnum option"

datatype condition = CNull | CLeaf condition_leaf | CGroup combinator "condition list"

record execution_policy =
  p_strategy :: "string option"
  p_for_duration :: "jsnum option"
  p_cooldown :: "jsnum option"
  p_reset_condition :: "condition option"
  p_clear_for_duration :: "jsnum option"

record rule_response =
  r_name :: string
  r_trigger :: "json option"
  r_condition :: "condition option"
  r_policy :: execution_policy
  r_actions :: "json list"
  r_clear_actions :: "json list option"
  r_enabled :: bool

section \<open>The draft\<close>

datatype trigger_type = MetricT | ScheduleT | ManualT | DeviceStatusT | OtherT string
datatype transition = Connected | Disconnected
datatype value_kind = BooleanK | NumberK | TextK
datatype arity = None_ar | One_ar | Range_ar | Set_ar
datatype rhs_kind = StaticK | MetricK
datatype behaviour = Rearm | Latch | OtherB
datatype action_kind = ActuatorK | EmailK | WebhookK | NotificationK

record when_draft =
  w_type :: trigger_type
  w_cron :: string
  w_timezone :: string
  w_statusDeviceId :: string
  w_transition :: transition

record contact_draft =
  c_id :: string
  c_deviceId :: string
  c_metric :: string
  c_operator :: string
  c_hysteresis :: jsnum
  c_rhsKind :: rhs_kind
  c_value :: jsnum
  c_low :: jsnum
  c_high :: jsnum
  c_setText :: string
  c_rhsDeviceId :: string
  c_rhsMetric :: string

datatype draft_node = Contact contact_draft | Group string combinator "draft_node list"

fun node_id :: "draft_node \<Rightarrow> string" where
  "node_id (Contact c) = c_id c"
| "node_id (Group i op cs) = i"

record actuator_draft =
  a_id :: string
  a_deviceId :: string
  a_actuator :: string
  a_valueKind :: value_kind
  a_bool :: bool
  a_num :: jsnum
  a_text :: string
  a_revertOnClear :: bool
  a_clearBool :: "bool option"
  a_clearNum :: jsnum
  a_clearText :: string

record email_draft =
  e_id :: string
  e_to :: string
  e_subject :: string
  e_body :: string

record webhook_draft =
  h_id :: string
  h_url :: string
  h_body :: string

record notification_draft =
  n_id :: string
  n_message :: string

datatype action_draft =
    Actuator actuator_draft
  | Email email_draft
  | Webhook webhook_draft
  | Notification notification_draft

record preserved =
  v_strategy :: "string option"
  v_resetCondition :: "condition option"
  v_clearActions :: "json list"
  v_actions :: "json list"

record rule_draft =
  d_name :: string
  d_enabled :: bool
  d_when :: when_draft
  d_condition :: "draft_node option"
  d_behaviour :: behaviour
  d_forDuration :: jsnum
  d_cooldown :: jsnum
  d_clearDelay :: jsnum
  d_actions :: "action_draft list"
  d_clearNotify :: bool
  d_clearMessage :: string
  d_preserved :: preserved

section \<open>Operators\<close>

definition OPERATOR_ARITY :: "arity dict" where
  "OPERATOR_ARITY =
    [(''>'', One_ar), (''>='', One_ar), (''<'', One_ar), (''<='', One_ar), (''=='', One_ar), (''!='', One_ar),
     (''between'', Range_ar), (''not_between'', Range_ar), (''in'', Set_ar), (''not_in'', Set_ar),
     (''changed'', None_ar), (''increased'', None_ar), (''decreased'', None_ar)]"

definition HYSTERESIS_OPERATORS :: "string list" where
  "HYSTERESIS_OPERATORS = [''>'', ''>='', ''<'', ''<='']"

definition operator_arity :: "string \<Rightarrow> arity" where
  "operator_arity op = (case dict_get OPERATOR_ARITY op of Some a \<Rightarrow> a | None \<Rightarrow> One_ar)"

definition DEFAULT_FOR_DURATION :: jsnum where "DEFAULT_FOR_DURATION = Fin 10"
definition DEFAULT_COOLDOWN :: jsnum where "DEFAULT_COOLDOWN = Fin 60"
definition DEFAULT_HYSTERESIS :: jsnum where "DEFAULT_HYSTERESIS = Fin 1"

lemma hysteresis_operators_compare:
  "op \<in> set HYSTERESIS_OPERATORS \<Longrightarrow> operator_arity op = One_ar"
  by (auto simp: HYSTERESIS_OPERATORS_def operator_arity_def OPERATOR_ARITY_def)

section \<open>Constructors\<close>

text \<open>
  \<open>newId\<close> draws the next id of the supply: \<open>crypto.randomUUID()\<close>, or \<open>id-1\<close>, \<open>id-2\<close>, ...
  (\<open>counted_id\<close>) where the platform has none.  The constructors take the drawn id.
\<close>

definition newId :: "(nat \<Rightarrow> string) \<Rightarrow> nat \<Rightarrow> string \<times> nat" where
  "newId gen k = (gen k, Suc k)"

definition counted_id :: "nat \<Rightarrow> string" where
  "counted_id k = ''id-'' @ nat_text (Suc k)"

lemma counted_id_inj: "inj counted_id"
  by (auto simp: counted_id_def intro: injI)

definition emptyContact :: "string \<Rightarrow> string \<Rightarrow> contact_draft" where
  "emptyContact i deviceId =
    \<lparr>c_id = i, c_deviceId = deviceId, c_metric = '''', c_operator = ''>'', c_hysteresis = DEFAULT_HYSTERESIS,
     c_rhsKind = StaticK, c_value = Fin 0, c_low = Fin 0, c_high = Fin 0, c_setText = '''',
     c_rhsDeviceId = '''', c_rhsMetric = ''''\<rparr>"

definition emptyActuator :: "string \<Rightarrow> string \<Rightarrow> actuator_draft" where
  "emptyActuator i deviceId =
    \<lparr>a_id = i, a_deviceId = deviceId, a_actuator = '''', a_valueKind = BooleanK, a_bool = True, a_num = Fin 0,
     a_text = '''', a_revertOnClear = False, a_clearBool = None, a_clearNum = Fin 0, a_clearText = ''''\<rparr>"

fun emptyAction :: "string \<Rightarrow> action_kind \<Rightarrow> string \<Rightarrow> action_draft" where
  "emptyAction i ActuatorK deviceId = Actuator (emptyActuator i deviceId)"
| "emptyAction i EmailK deviceId = Email \<lparr>e_id = i, e_to = '''', e_subject = '''', e_body = ''''\<rparr>"
| "emptyAction i WebhookK deviceId = Webhook \<lparr>h_id = i, h_url = '''', h_body = [CHR 0x7B, CHR 0x7D]\<rparr>"
| "emptyAction i NotificationK deviceId = Notification \<lparr>n_id = i, n_message = ''''\<rparr>"

definition emptyDraft :: "(nat \<Rightarrow> string) \<Rightarrow> nat \<Rightarrow> string \<Rightarrow> string \<Rightarrow> rule_draft \<times> nat" where
  "emptyDraft gen k seedDevice timezone =
    (let (i, k1) = newId gen k; (j, k2) = newId gen k1 in
     (\<lparr>d_name = '''', d_enabled = True,
       d_when = \<lparr>w_type = MetricT, w_cron = ''0 8 * * *'', w_timezone = timezone, w_statusDeviceId = seedDevice,
                 w_transition = Disconnected\<rparr>,
       d_condition = Some (Contact (emptyContact i seedDevice)), d_behaviour = Rearm,
       d_forDuration = DEFAULT_FOR_DURATION, d_cooldown = DEFAULT_COOLDOWN, d_clearDelay = Fin 0,
       d_actions = [emptyAction j ActuatorK seedDevice], d_clearNotify = False, d_clearMessage = '''',
       d_preserved = \<lparr>v_strategy = None, v_resetCondition = None, v_clearActions = [], v_actions = []\<rparr>\<rparr>, k2))"

section \<open>Questions about a draft\<close>

definition isReadingRule :: "rule_draft \<Rightarrow> bool" where
  "isReadingRule draft \<longleftrightarrow> w_type (d_when draft) = MetricT"

definition canClear :: "rule_draft \<Rightarrow> bool" where
  "canClear draft \<longleftrightarrow> isReadingRule draft \<and> d_behaviour draft = Rearm"

end
