(* ===== verification/Schedule.thy ===== *)
theory Schedule
  imports Js_Number
begin

text \<open>
  The schedule picker's model (frontend/src/lib/schedule.ts): a five-field cron, the simple modes
  the picker shows and back, and the next runs in the rule's time zone. Digit strings are read as
  natural numbers; a value above 2^53, which JavaScript would round, is out of every field's range
  and is rejected either way, except as a step, where only the first value is taken either way.
\<close>

section \<open>One field\<close>

definition isNum :: "string \<Rightarrow> bool" where
  "isNum x \<longleftrightarrow> x \<noteq> [] \<and> list_all is_digit x"

text \<open>\<open>*\<close>, a number or a range: the first group of the regular expression.\<close>

datatype cron_range = Star | Single nat | Span nat nat

definition read_range :: "string \<Rightarrow> cron_range option" where
  "read_range s =
     (if s = ''*'' then Some Star
      else case split_on CHR ''-'' s of
        [x] \<Rightarrow> if isNum x then Some (Single (digits_val x)) else None
      | [x, y] \<Rightarrow> if isNum x \<and> isNum y then Some (Span (digits_val x) (digits_val y)) else None
      | _ \<Rightarrow> None)"

definition read_part :: "string \<Rightarrow> (cron_range \<times> nat option) option" where
  "read_part part =
     (case split_on CHR ''/'' part of
        [r] \<Rightarrow> map_option (\<lambda>r. (r, None)) (read_range r)
      | [r, st] \<Rightarrow> if isNum st then map_option (\<lambda>r. (r, Some (digits_val st))) (read_range r) else None
      | _ \<Rightarrow> None)"

text \<open>\<open>for (let v = a; v <= b; v += step)\<close>; the code has checked \<open>step >= 1\<close> before.\<close>

function stepped :: "nat \<Rightarrow> nat \<Rightarrow> nat \<Rightarrow> nat list" where
  "stepped a b st = (if st = 0 \<or> b < a then [] else a # stepped (a + st) b st)"
  by pat_completeness auto
termination by (relation "measure (\<lambda>(a, b, st). Suc b - a)") auto

declare stepped.simps [simp del]

text \<open>The first value, the last and the step of a part, \<open>None\<close> where the code returns null.\<close>

definition part_bounds :: "nat \<Rightarrow> nat \<Rightarrow> string \<Rightarrow> (nat \<times> nat \<times> nat) option" where
  "part_bounds lo hi part =
     (case read_part part of
        None \<Rightarrow> None
      | Some (r, st) \<Rightarrow>
          (let a = (case r of Star \<Rightarrow> lo | Single x \<Rightarrow> x | Span x y \<Rightarrow> x);
               b = (case r of Star \<Rightarrow> hi | Single x \<Rightarrow> (if st \<noteq> None then hi else a) | Span x y \<Rightarrow> y);
               step = (case st of Some k \<Rightarrow> k | None \<Rightarrow> 1)
           in if a < lo \<or> hi < b \<or> b < a \<or> step < 1 then None else Some (a, b, step)))"

definition fold_sunday :: "nat \<Rightarrow> nat \<Rightarrow> nat" where
  "fold_sunday hi v = (if hi = 7 \<and> v = 7 then 0 else v)"

definition part_values :: "nat \<Rightarrow> nat \<Rightarrow> string \<Rightarrow> nat list option" where
  "part_values lo hi part =
     map_option (\<lambda>(a, b, step). map (fold_sunday hi) (stepped a b step)) (part_bounds lo hi part)"

definition cronField :: "string \<Rightarrow> nat \<Rightarrow> nat \<Rightarrow> nat list option" where
  "cronField field lo hi =
     map_option (\<lambda>vss. sort (nub (concat vss))) (those (map (part_values lo hi) (split_on CHR '','' field)))"

section \<open>Five fields\<close>

record cron_parts =
  raw_mi :: string
  raw_h :: string
  raw_dom :: string
  raw_mon :: string
  raw_dow :: string
  minutes :: "nat list"
  hours :: "nat list"
  doms :: "nat list"
  months :: "nat list"
  dows :: "nat list"

definition some_values :: "nat list option \<Rightarrow> bool" where
  "some_values f \<longleftrightarrow> f \<noteq> None \<and> f \<noteq> Some []"

definition cronParts :: "string \<Rightarrow> cron_parts option" where
  "cronParts cron =
     (case split_runs is_space (trim cron) of
        [mi, h, d, mon, dw] \<Rightarrow>
          (let f0 = cronField mi 0 59; f1 = cronField h 0 23; f2 = cronField d 1 31; f3 = cronField mon 1 12; f4 = cronField dw 0 7
           in if some_values f0 \<and> some_values f1 \<and> some_values f2 \<and> some_values f3 \<and> some_values f4
              then Some \<lparr>raw_mi = mi, raw_h = h, raw_dom = d, raw_mon = mon, raw_dow = dw,
                         minutes = the f0, hours = the f1, doms = the f2, months = the f3, dows = the f4\<rparr>
              else None)
      | _ \<Rightarrow> None)"

definition validateCron :: "string \<Rightarrow> string option" where
  "validateCron cron =
     (if length (non_empty (split_runs is_space (trim cron))) \<noteq> 5
      then Some ''Enter five fields: minute, hour, day, month, weekday.''
      else if cronParts cron = None
      then Some (''One of the fields isn'' @ [CHR 0x27] @ ''t valid. Use numbers, *, ranges (1-5), lists (1,3) or steps (*/15).'')
      else None)"

section \<open>The picker's modes\<close>

datatype mode = Daily | On_days | Every | Monthly | Custom
datatype repeat_unit = Minutes | Hours

record schedule_model =
  sm_mode :: mode
  sm_time :: string
  sm_days :: "nat list"
  sm_dom :: nat
  sm_n :: jsnum
  sm_unit :: repeat_unit
  sm_at :: nat

definition DEFAULT_SCHEDULE :: schedule_model where
  "DEFAULT_SCHEDULE = \<lparr>sm_mode = Daily, sm_time = ''08:00'', sm_days = [1, 2, 3, 4, 5], sm_dom = 1, sm_n = Fin 15,
                       sm_unit = Minutes, sm_at = 0\<rparr>"

definition DOW :: "string list" where "DOW = [''Sun'', ''Mon'', ''Tue'', ''Wed'', ''Thu'', ''Fri'', ''Sat'']"
definition DOW_ORDER :: "nat list" where "DOW_ORDER = [1, 2, 3, 4, 5, 6, 0]"
definition MONTHS :: "string list" where
  "MONTHS = [''Jan'', ''Feb'', ''Mar'', ''Apr'', ''May'', ''Jun'', ''Jul'', ''Aug'', ''Sep'', ''Oct'', ''Nov'', ''Dec'']"

definition pad2 :: "nat \<Rightarrow> string" where
  "pad2 n = (let s = nat_text n in replicate (2 - length s) CHR ''0'' @ s)"

definition ordinal :: "nat \<Rightarrow> string" where
  "ordinal n =
     nat_text n @
     (if 11 \<le> n mod 100 \<and> n mod 100 \<le> 13 then ''th''
      else if n mod 10 = 1 then ''st'' else if n mod 10 = 2 then ''nd'' else if n mod 10 = 3 then ''rd'' else ''th'')"

text \<open>What a cron shows in the picker: the fields scheduleFromCron returns with each mode.\<close>

datatype picked =
    P_custom
  | P_daily string
  | P_days string "nat list"
  | P_monthly string nat
  | P_every nat repeat_unit "nat option"

text \<open>\<open>/^\*\/(\d+)$/\<close>\<close>

definition star_step :: "string \<Rightarrow> nat option" where
  "star_step s = (if take 2 s = ''*/'' \<and> isNum (drop 2 s) then Some (digits_val (drop 2 s)) else None)"

definition time_of :: "cron_parts \<Rightarrow> string option" where
  "time_of P =
     (if isNum (raw_mi P) \<and> isNum (raw_h P)
      then Some (pad2 (digits_val (raw_h P)) @ '':'' @ pad2 (digits_val (raw_mi P))) else None)"

definition repeat_of :: "cron_parts \<Rightarrow> picked" where
  "repeat_of P =
     (if star_step (raw_mi P) \<noteq> None \<and> raw_h P = ''*'' then P_every (the (star_step (raw_mi P))) Minutes None
      else if star_step (raw_h P) \<noteq> None \<and> isNum (raw_mi P)
      then P_every (the (star_step (raw_h P))) Hours (Some (digits_val (raw_mi P)))
      else if isNum (raw_mi P) \<and> raw_h P = ''*'' then P_every 1 Hours (Some (digits_val (raw_mi P)))
      else P_custom)"

definition picked_of :: "cron_parts \<Rightarrow> picked" where
  "picked_of P =
     (let dom = raw_dom P; dow = raw_dow P in
      if raw_mon P \<noteq> ''*'' then P_custom
      else case time_of P of
        Some time \<Rightarrow>
          (if dom = ''*'' \<and> dow = ''*'' then P_daily time
           else if dom = ''*'' then P_days time (dows P)
           else if isNum dom \<and> dow = ''*'' \<and> digits_val dom \<le> 28 then P_monthly time (digits_val dom)
           else P_custom)
      | None \<Rightarrow> if dom = ''*'' \<and> dow = ''*'' then repeat_of P else P_custom)"

definition scheduleFromCron :: "string \<Rightarrow> picked" where
  "scheduleFromCron cron = (case cronParts cron of None \<Rightarrow> P_custom | Some P \<Rightarrow> picked_of P)"

definition clampRepeat :: "jsnum \<Rightarrow> repeat_unit \<Rightarrow> nat" where
  "clampRepeat n unit =
     (let top = (case unit of Minutes \<Rightarrow> 59 | Hours \<Rightarrow> 23) in
      case n of
        NaN \<Rightarrow> 1
      | NegInf \<Rightarrow> 1
      | PosInf \<Rightarrow> nat top
      | Fin q \<Rightarrow> (let r = \<lfloor>q + 1 / 2\<rfloor>; v = (if r = 0 then 1 else r) in nat (max 1 (min top v))))"

text \<open>\<open>const [hh, mm] = s.time.split(":").map(Number)\<close>: a missing part prints as undefined.\<close>

definition time_part :: "nat \<Rightarrow> string \<Rightarrow> string" where
  "time_part i time =
     (let ps = split_on CHR '':'' time in if i < length ps then number_text (to_number (ps ! i)) else ''undefined'')"

definition day_list :: "nat list \<Rightarrow> string" where
  "day_list days = join '','' (map nat_text (sort days))"

fun cronFromSchedule :: "schedule_model \<Rightarrow> string option" where
  "cronFromSchedule s =
     (let hh = time_part 0 (sm_time s); mm = time_part 1 (sm_time s) in
      case sm_mode s of
        Daily \<Rightarrow> Some (mm @ '' '' @ hh @ '' * * *'')
      | On_days \<Rightarrow>
          (let d = day_list (sm_days s)
           in Some (mm @ '' '' @ hh @ '' * * '' @ (if d = ''1,2,3,4,5'' then ''1-5'' else d)))
      | Monthly \<Rightarrow> Some (mm @ '' '' @ hh @ '' '' @ nat_text (sm_dom s) @ '' * *'')
      | Every \<Rightarrow>
          (let n = clampRepeat (sm_n s) (sm_unit s) in
           case sm_unit s of
             Minutes \<Rightarrow> Some (''*/'' @ nat_text n @ '' * * * *'')
           | Hours \<Rightarrow> Some (if n = 1 then nat_text (sm_at s) @ '' * * * *''
                             else nat_text (sm_at s) @ '' */'' @ nat_text n @ '' * * *''))
      | Custom \<Rightarrow> None)"

text \<open>The picker merges what the cron shows over the values it keeps (SchedulePicker.tsx).\<close>

fun with_picked :: "schedule_model \<Rightarrow> picked \<Rightarrow> schedule_model" where
  "with_picked s P_custom = s\<lparr>sm_mode := Custom\<rparr>"
| "with_picked s (P_daily t) = s\<lparr>sm_mode := Daily, sm_time := t\<rparr>"
| "with_picked s (P_days t ds) = s\<lparr>sm_mode := On_days, sm_time := t, sm_days := ds\<rparr>"
| "with_picked s (P_monthly t d) = s\<lparr>sm_mode := Monthly, sm_time := t, sm_dom := d\<rparr>"
| "with_picked s (P_every n u None) = s\<lparr>sm_mode := Every, sm_n := Fin (of_nat n), sm_unit := u\<rparr>"
| "with_picked s (P_every n u (Some m)) = s\<lparr>sm_mode := Every, sm_n := Fin (of_nat n), sm_unit := u, sm_at := m\<rparr>"

end
