(* ===== verification/Schedule_Facts.thy ===== *)
theory Schedule_Facts
  imports Schedule
begin

text \<open>
  What the picker relies on: the values of a cron field, and that a picked schedule written as a
  cron is read back as the same schedule.
\<close>

section \<open>The values of a field\<close>

lemma stepped_set: "0 < st \<Longrightarrow> set (stepped a b st) = {v. a \<le> v \<and> v \<le> b \<and> st dvd (v - a)}"
proof (induction a b st rule: stepped.induct)
  case (1 a b st)
  show ?case
  proof (cases "b < a")
    case True
    then show ?thesis by (subst stepped.simps) auto
  next
    case False
    have eq: "{v. a \<le> v \<and> v \<le> b \<and> st dvd (v - a)} = insert a {v. a + st \<le> v \<and> v \<le> b \<and> st dvd (v - (a + st))}"
    proof -
      have pt: "(a \<le> v \<and> st dvd (v - a)) \<longleftrightarrow> v = a \<or> (a + st \<le> v \<and> st dvd (v - (a + st)))" for v
      proof (cases "a + st \<le> v")
        case True
        then have "v - a = (v - (a + st)) + st" by simp
        then have "st dvd (v - a) \<longleftrightarrow> st dvd (v - (a + st))" by (metis dvd_add_triv_right_iff)
        then show ?thesis using True 1(2) by auto
      next
        case no: False
        have "st dvd (v - a) \<longleftrightarrow> v - a = 0" using no 1(2) by (auto dest: dvd_imp_le)
        then show ?thesis using no by auto
      qed
      have ab: "v = a \<Longrightarrow> v \<le> b" for v using False by simp
      show ?thesis
      proof (rule set_eqI)
        fix v
        show "v \<in> {v. a \<le> v \<and> v \<le> b \<and> st dvd (v - a)} \<longleftrightarrow> v \<in> insert a {v. a + st \<le> v \<and> v \<le> b \<and> st dvd (v - (a + st))}"
          unfolding mem_Collect_eq insert_iff using pt [of v] ab [of v] by blast
      qed
    qed
    have IH: "set (stepped (a + st) b st) = {v. a + st \<le> v \<and> v \<le> b \<and> st dvd (v - (a + st))}"
      using 1 False by simp
    have "set (stepped a b st) = insert a (set (stepped (a + st) b st))"
      using False 1(2) by (subst stepped.simps) simp
    then show ?thesis unfolding IH eq .
  qed
qed

lemma stepped_one [simp]: "stepped a a (Suc 0) = [a]"
  by (subst stepped.simps, subst stepped.simps) simp

text \<open>A value the field lists: some part of it reaches it.\<close>

definition admits :: "nat \<Rightarrow> nat \<Rightarrow> string \<Rightarrow> nat \<Rightarrow> bool" where
  "admits lo hi part v =
     (case part_bounds lo hi part of None \<Rightarrow> False
      | Some (a, b, st) \<Rightarrow> list_ex (\<lambda>w. a \<le> w \<and> w \<le> b \<and> st dvd (w - a) \<and> v = fold_sunday hi w) [lo..<Suc hi])"

lemma admits_in_range: "admits lo hi part v \<Longrightarrow> \<exists>w. lo \<le> w \<and> w \<le> hi \<and> v = fold_sunday hi w"
proof (cases "part_bounds lo hi part")
  case (Some t)
  assume h: "admits lo hi part v"
  obtain a b st where t: "t = (a, b, st)" by (metis prod_cases3)
  obtain w where w: "w \<in> set [lo..<Suc hi]" "v = fold_sunday hi w"
    using h unfolding admits_def Some t list_ex_iff option.case prod.case by blast
  have "lo \<le> w \<and> w \<le> hi" using w(1) unfolding set_upt by simp
  then show ?thesis using w(2) by blast
qed (simp add: admits_def)

lemma part_bounds_ok: "part_bounds lo hi part = Some (a, b, st) \<Longrightarrow> lo \<le> a \<and> a \<le> b \<and> b \<le> hi \<and> 0 < st"
  by (auto simp: part_bounds_def Let_def split: option.splits if_splits)

lemma part_values_set:
  assumes "part_values lo hi part = Some vs"
  shows "v \<in> set vs \<longleftrightarrow> admits lo hi part v" and "vs \<noteq> []"
proof -
  obtain a b st where p: "part_bounds lo hi part = Some (a, b, st)" and vs: "vs = map (fold_sunday hi) (stepped a b st)"
    using assms by (auto simp: part_values_def)
  note ok = part_bounds_ok [OF p]
  have s: "set (stepped a b st) = {w. a \<le> w \<and> w \<le> b \<and> st dvd (w - a)}" using ok by (simp add: stepped_set)
  show "v \<in> set vs \<longleftrightarrow> admits lo hi part v"
    using ok by (auto simp: vs admits_def p list_ex_iff s simp del: upt_Suc)
  have "a \<in> set (stepped a b st)" using ok by (simp add: s)
  then show "vs \<noteq> []" unfolding vs by (metis empty_iff list.set(1) map_is_Nil_conv)
qed

lemma those_Some: "those xs = Some ys \<Longrightarrow> xs = map Some ys"
  by (induction xs arbitrary: ys) (auto split: option.splits)

lemma those_map_Some [simp]: "those (map Some xs) = Some xs"
  by (induction xs) auto

lemma those_map: "(\<And>x. x \<in> set xs \<Longrightarrow> f x = Some (g x)) \<Longrightarrow> those (map f xs) = Some (map g xs)"
  by (induction xs) auto

lemma cronField_facts:
  assumes "cronField field lo hi = Some vs"
  shows "vs \<noteq> [] \<and> sorted vs \<and> distinct vs \<and>
         (\<forall>v\<in>set vs. v \<le> hi \<and> (lo \<le> v \<or> (hi = 7 \<and> v = 0)) \<and> \<not> (hi = 7 \<and> v = 7)) \<and>
         (\<forall>v. v \<in> set vs \<longleftrightarrow> (\<exists>part\<in>set (split_on CHR '','' field). admits lo hi part v))"
proof -
  obtain vss where t: "those (map (part_values lo hi) (split_on CHR '','' field)) = Some vss"
    and vs: "vs = sort (nub (concat vss))"
    using assms by (auto simp: cronField_def)
  have m: "map (part_values lo hi) (split_on CHR '','' field) = map Some vss" using those_Some [OF t] .
  have part: "\<exists>part\<in>set (split_on CHR '','' field). part_values lo hi part = Some ws" if "ws \<in> set vss" for ws
    using that m by (metis (no_types, lifting) image_iff list.set_map)
  have whence: "\<exists>ws\<in>set vss. part_values lo hi part = Some ws" if "part \<in> set (split_on CHR '','' field)" for part
    using that m by (metis (no_types, lifting) image_iff list.set_map)
  have all: "v \<in> set vs \<longleftrightarrow> (\<exists>part\<in>set (split_on CHR '','' field). admits lo hi part v)" for v
    unfolding vs using part whence part_values_set(1) by simp metis
  have "vss \<noteq> []" using m by auto
  then have "concat vss \<noteq> []" using part part_values_set(2) by (cases vss) fastforce+
  then have ne: "vs \<noteq> []" unfolding vs by (metis set_empty set_nub set_sort)
  have "v \<le> hi \<and> (lo \<le> v \<or> (hi = 7 \<and> v = 0)) \<and> \<not> (hi = 7 \<and> v = 7)" if mem: "v \<in> set vs" for v
  proof -
    obtain part where "admits lo hi part v" using all mem by blast
    then obtain w where "lo \<le> w" "w \<le> hi" "v = fold_sunday hi w" using admits_in_range by blast
    then show ?thesis by (auto simp: fold_sunday_def)
  qed
  then show ?thesis using ne all by (simp add: vs)
qed

text \<open>
  A readable field gives its values sorted and without repeats, inside the field's range
  (weekday 7 is Sunday, 0), and exactly the values some part of the list reaches from its first
  value by its step.
\<close>

theorem cronField_correct:
  assumes "cronField field lo hi = Some vs"
  shows "vs \<noteq> [] \<and> sorted vs \<and> distinct vs \<and>
         (\<forall>v\<in>set vs. v \<le> hi \<and> (lo \<le> v \<or> (hi = 7 \<and> v = 0)) \<and> \<not> (hi = 7 \<and> v = 7)) \<and>
         (\<forall>v. v \<in> set vs \<longleftrightarrow> (\<exists>part\<in>set (split_on CHR '','' field). admits lo hi part v))"
  using assms by (rule cronField_facts)

lemma cronField_correct_witness:
  "cronField ''1,5-7'' 0 7 = Some [0, 1, 5, 6] \<and> sorted [0, 1, 5, 6 :: nat] \<and> admits 0 7 ''5-7'' 0"
proof -
  have f: "cronField ''1,5-7'' 0 7 = Some [0, 1, 5, 6]" by code_simp
  have "admits 0 7 ''5-7'' 0" by code_simp
  then show ?thesis using cronField_correct [OF f] f by simp
qed

section \<open>Numbers and words in a cron\<close>

lemma isNum_nat_text [simp]: "isNum (nat_text n)"
  using nat_text_digits [of _ n] by (auto simp: isNum_def list_all_iff)

lemma nat_text_plain: "c \<in> set (nat_text n) \<Longrightarrow> \<not> is_space c \<and> c \<notin> {CHR '','', CHR ''-'', CHR ''/'', CHR ''*'', CHR '':''}"
  using nat_text_digits [of c n] is_space_not_digit [of c] by (auto simp: is_digit_def char_code_def)

lemma to_number_digits:
  assumes "isNum s"
  shows "to_number s = Fin (of_nat (digits_val s))"
proof -
  have d: "is_digit c" if "c \<in> set s" for c using assms that by (auto simp: isNum_def list_all_iff)
  have ne: "s \<noteq> []" using assms by (simp add: isNum_def)
  have "trim s = s" using d is_space_not_digit ne by (intro trim_id) (metis hd_in_set last_in_set)
  moreover have "radix_literal s = None"
  proof -
    have up: "lower_char c = c" if "c \<in> set s" for c
      using d [OF that] by (auto simp: lower_char_def is_upper_def is_digit_def char_code_def)
    have "lower_case s = s" using up by (simp add: lower_case_def map_idI)
    moreover have "x \<noteq> CHR ''x'' \<and> x \<noteq> CHR ''o'' \<and> x \<noteq> CHR ''b''" if "x \<in> set s" for x
      using d [OF that] by (auto simp: is_digit_def char_code_def)
    then have "take 2 s \<notin> {''0x'', ''0o'', ''0b''}"
      by (metis in_set_takeD insertE list.set_intros(1) list.set_intros(2) singletonD)
    ultimately show ?thesis by (simp add: radix_literal_def)
  qed
  moreover have "signed_literal s = Fin (of_nat (digits_val s))"
  proof -
    have "unsigned_decimal s = Some (of_nat (digits_val s))"
    proof -
      have t: "takeWhile is_digit s = s" "dropWhile is_digit s = []" using d by simp_all
      show ?thesis unfolding unsigned_decimal_def t using ne by (simp add: exp_part_def scale_def frac_val_def Let_def)
    qed
    moreover have "hd s \<noteq> CHR ''-'' \<and> hd s \<noteq> CHR ''+'' \<and> hd s \<noteq> CHR ''I''"
      using d [of "hd s"] ne by (auto simp: is_digit_def char_code_def)
    ultimately show ?thesis using ne by (auto simp: signed_literal_def Let_def)
  qed
  ultimately show ?thesis using ne by (simp add: to_number_def)
qed

lemma isNum_pad2: "isNum (pad2 n)" and digits_val_pad2: "digits_val (pad2 n) = n"
proof -
  have z: "is_digit CHR ''0''" "digit_val CHR ''0'' = 0" by (simp_all add: is_digit_def digit_val_def char_code_def)
  have "is_digit c" if "c \<in> set (pad2 n)" for c
    using that nat_text_digits [of c n] z(1) by (auto simp: pad2_def Let_def split: if_splits)
  then show "isNum (pad2 n)" by (simp add: isNum_def list_all_iff) (simp add: pad2_def Let_def)
  have "digits_val (replicate k CHR ''0'' @ s) = digits_val s" for k s
    by (induction k) (simp_all add: z digits_val_Cons)
  then show "digits_val (pad2 n) = n" by (simp add: pad2_def Let_def)
qed

lemma pad2_no_colon: "CHR '':'' \<notin> set (pad2 n)"
  using isNum_pad2 [of n] by (auto simp: isNum_def list_all_iff is_digit_def char_code_def)

lemma number_text_nat: "number_text (Fin (of_nat n)) = nat_text n"
  by (simp add: number_text_def rat_text_def abs_text_def Let_def)

lemma time_parts:
  "time_part 0 (pad2 h @ '':'' @ pad2 m) = nat_text h" "time_part 1 (pad2 h @ '':'' @ pad2 m) = nat_text m"
  using split_on_append_sep [OF pad2_no_colon, of h "pad2 m"] split_on_no_sep [OF pad2_no_colon, of m]
  by (simp_all add: time_part_def Let_def to_number_digits isNum_pad2 digits_val_pad2 number_text_nat)

text \<open>Words without spaces, one space apart, are split back into the words.\<close>

lemma split_runs_word: "(\<And>c. c \<in> set w \<Longrightarrow> \<not> p c) \<Longrightarrow> split_runs p w = [w]"
  by (induction w) auto

lemma split_runs_first:
  "(\<And>c. c \<in> set w \<Longrightarrow> \<not> p c) \<Longrightarrow> p s \<Longrightarrow> rest \<noteq> [] \<Longrightarrow> \<not> p (hd rest) \<Longrightarrow>
   split_runs p (w @ s # rest) = w # split_runs p rest"
  by (induction w) auto

definition word :: "string \<Rightarrow> bool" where
  "word w \<longleftrightarrow> w \<noteq> [] \<and> list_all (\<lambda>c. \<not> is_space c) w"

lemma split_words: "ws \<noteq> [] \<Longrightarrow> list_all word ws \<Longrightarrow> split_runs is_space (join '' '' ws) = ws"
proof (induction "'' '' :: string" ws rule: join.induct)
  case (2 w)
  then show ?case by (simp add: split_runs_word word_def list_all_iff)
next
  case (3 w v ws)
  have "join '' '' (v # ws) \<noteq> [] \<and> hd (join '' '' (v # ws)) = hd v"
    using 3(3) by (cases ws) (auto simp: word_def)
  moreover have "\<not> is_space (hd v)" using 3(3) by (cases v) (auto simp: word_def)
  ultimately have "split_runs is_space (w @ CHR '' '' # join '' '' (v # ws)) = w # split_runs is_space (join '' '' (v # ws))"
    using 3(3) by (intro split_runs_first) (auto simp: word_def list_all_iff is_space_def)
  then show ?case using 3 by simp
qed simp

lemma trim_words:
  assumes "ws \<noteq> []" "list_all word ws"
  shows "trim (join '' '' ws) = join '' '' ws"
proof (rule trim_id)
  have "join '' '' ws \<noteq> [] \<and> hd (join '' '' ws) = hd (hd ws) \<and> last (join '' '' ws) = last (last ws)"
    using assms by (induction "'' '' :: string" ws rule: join.induct) (auto simp: word_def)
  moreover have "\<not> is_space (hd (hd ws))" "\<not> is_space (last (last ws))"
    using assms hd_in_set last_in_set unfolding word_def list_all_iff by metis+
  ultimately show "join '' '' ws = [] \<or> \<not> is_space (hd (join '' '' ws)) \<and> \<not> is_space (last (join '' '' ws))"
    by simp
qed

section \<open>Fields the picker writes\<close>

lemma split_nat_text [simp]: "c \<in> {CHR '','', CHR ''-'', CHR ''/''} \<Longrightarrow> split_on c (nat_text n) = [nat_text n]"
  using nat_text_plain [of _ n] by (intro split_on_no_sep) fastforce

lemma nat_text_not_star [simp]: "nat_text n \<noteq> ''*''" "nat_text n \<noteq> ''1-5''"
  using nat_text_plain [of _ n] by fastforce+

lemma read_range_nat [simp]: "read_range (nat_text n) = Some (Single n)"
  by (simp add: read_range_def)

lemma part_values_nat: "lo \<le> n \<Longrightarrow> n \<le> hi \<Longrightarrow> part_values lo hi (nat_text n) = Some [fold_sunday hi n]"
  by (simp add: part_values_def part_bounds_def read_part_def Let_def)

lemma join_chars: "c \<in> set (join sep ws) \<Longrightarrow> c \<in> set sep \<or> (\<exists>w\<in>set ws. c \<in> set w)"
  by (induction sep ws rule: join.induct) auto

lemma split_join_nats: "ns \<noteq> [] \<Longrightarrow> split_on CHR '','' (join '','' (map nat_text ns)) = map nat_text ns"
proof (induction "'','' :: string" "map nat_text ns" arbitrary: ns rule: join.induct)
  case (2 x)
  then obtain n where "ns = [n]" by (cases ns) auto
  then show ?case by simp
next
  case (3 x y zs)
  then obtain n m ns' where ns: "ns = n # m # ns'" by (cases ns; cases "tl ns") auto
  have "CHR '','' \<notin> set (nat_text n)" using nat_text_plain [of _ n] by fastforce
  then have "split_on CHR '','' (nat_text n @ CHR '','' # join '','' (map nat_text (m # ns'))) =
      nat_text n # split_on CHR '','' (join '','' (map nat_text (m # ns')))"
    by (rule split_on_append_sep)
  moreover have "split_on CHR '','' (join '','' (map nat_text (m # ns'))) = map nat_text (m # ns')"
    by (rule 3(1)) (use 3(2) ns in simp_all)
  ultimately show ?case by (simp add: ns)
qed simp

lemma cronField_nats:
  "ns \<noteq> [] \<Longrightarrow> (\<And>n. n \<in> set ns \<Longrightarrow> lo \<le> n \<and> n \<le> hi) \<Longrightarrow>
   cronField (join '','' (map nat_text ns)) lo hi = Some (sort (nub (map (fold_sunday hi) ns)))"
proof -
  assume ns: "ns \<noteq> []" "\<And>n. n \<in> set ns \<Longrightarrow> lo \<le> n \<and> n \<le> hi"
  have "those (map (part_values lo hi) (map nat_text ns)) = Some (map (\<lambda>n. [fold_sunday hi n]) ns)"
    unfolding map_map using ns(2) by (intro those_map) (simp add: part_values_nat)
  moreover have "concat (map (\<lambda>n. [fold_sunday hi n]) ns) = map (fold_sunday hi) ns" by (induction ns) auto
  ultimately show ?thesis using ns(1) by (simp add: cronField_def split_join_nats del: map_map)
qed

lemma cronField_nat: "lo \<le> n \<Longrightarrow> n \<le> hi \<Longrightarrow> cronField (nat_text n) lo hi = Some [fold_sunday hi n]"
  using cronField_nats [of "[n]" lo hi] by simp

lemma star_fields:
  "some_values (cronField ''*'' 0 59)" "some_values (cronField ''*'' 0 23)" "some_values (cronField ''*'' 1 31)"
  "some_values (cronField ''*'' 1 12)" "some_values (cronField ''*'' 0 7)"
  by code_simp+

lemma cronField_weekdays: "cronField ''1-5'' 0 7 = Some [1, 2, 3, 4, 5]"
  by code_simp

lemma cronField_step:
  assumes "1 \<le> n"
  shows "some_values (cronField (''*/'' @ nat_text n) 0 (Suc hi))"
proof -
  have "CHR '','' \<notin> set (''*/'' @ nat_text n)" using nat_text_plain [of _ n] by fastforce
  then have "split_on CHR '','' (''*/'' @ nat_text n) = [''*/'' @ nat_text n]" by (rule split_on_no_sep)
  moreover have "split_on CHR ''/'' (''*/'' @ nat_text n) = [''*'', nat_text n]" by simp
  then have "part_bounds 0 (Suc hi) (''*/'' @ nat_text n) = Some (0, Suc hi, n)"
    using assms by (simp add: part_bounds_def read_part_def read_range_def)
  then have "part_values 0 (Suc hi) (''*/'' @ nat_text n) = Some (map (fold_sunday (Suc hi)) (stepped 0 (Suc hi) n))"
    by (simp add: part_values_def)
  moreover have "stepped 0 (Suc hi) n = 0 # stepped n (Suc hi) n" using assms by (subst stepped.simps) simp
  ultimately have "cronField (''*/'' @ nat_text n) 0 (Suc hi) =
      Some (sort (nub (fold_sunday (Suc hi) 0 # map (fold_sunday (Suc hi)) (stepped n (Suc hi) n))))"
    by (simp add: cronField_def del: nub.simps)
  moreover have "sort (nub (x # xs)) \<noteq> []" for x :: nat and xs by (metis list.distinct(1) set_empty set_nub set_sort)
  ultimately show ?thesis by (simp add: some_values_def del: nub.simps)
qed

lemma star_step_facts [simp]:
  "star_step (nat_text n) = None" "star_step (''*/'' @ nat_text n) = Some n" "star_step ''*'' = None"
  "isNum (''*/'' @ t) = False" "isNum ''*'' = False" "isNum ''1-5'' = False"
proof -
  have "take 2 (nat_text n) \<noteq> ''*/''"
    using nat_text_plain [of "hd (nat_text n)" n] by (cases "nat_text n") auto
  then show "star_step (nat_text n) = None" by (simp add: star_step_def)
qed (simp_all add: star_step_def, simp_all add: isNum_def is_digit_def char_code_def)

lemma words_nat [simp]: "word (nat_text n)" "word (''*/'' @ nat_text n)" "word ''*''" "word ''1-5''"
  using nat_text_plain [of _ n] by (auto simp: word_def list_all_iff is_space_def)

section \<open>The round trip\<close>

lemma cronParts_words:
  assumes "list_all word [mi, h, d, mon, dw]" "some_values (cronField mi 0 59)" "some_values (cronField h 0 23)"
    "some_values (cronField d 1 31)" "some_values (cronField mon 1 12)" "some_values (cronField dw 0 7)"
  shows "cronParts (join '' '' [mi, h, d, mon, dw]) =
      Some \<lparr>raw_mi = mi, raw_h = h, raw_dom = d, raw_mon = mon, raw_dow = dw, minutes = the (cronField mi 0 59),
            hours = the (cronField h 0 23), doms = the (cronField d 1 31), months = the (cronField mon 1 12),
            dows = the (cronField dw 0 7)\<rparr>"
    "validateCron (join '' '' [mi, h, d, mon, dw]) = None"
proof -
  have sp: "split_runs is_space (trim (join '' '' [mi, h, d, mon, dw])) = [mi, h, d, mon, dw]"
    using assms(1) by (subst trim_words) (simp_all add: split_words del: join.simps)
  show c: "cronParts (join '' '' [mi, h, d, mon, dw]) = Some \<lparr>raw_mi = mi, raw_h = h, raw_dom = d, raw_mon = mon,
      raw_dow = dw, minutes = the (cronField mi 0 59), hours = the (cronField h 0 23), doms = the (cronField d 1 31),
      months = the (cronField mon 1 12), dows = the (cronField dw 0 7)\<rparr>"
    unfolding cronParts_def sp using assms(2-6) by (simp add: Let_def)
  show "validateCron (join '' '' [mi, h, d, mon, dw]) = None"
    unfolding validateCron_def sp c using assms(1) by (simp add: non_empty_def word_def)
qed

lemma field_values [simp]:
  "n \<le> 59 \<Longrightarrow> cronField (nat_text n) 0 59 = Some [n]" "n \<le> 23 \<Longrightarrow> cronField (nat_text n) 0 23 = Some [n]"
  "1 \<le> n \<Longrightarrow> n \<le> 31 \<Longrightarrow> cronField (nat_text n) (Suc 0) 31 = Some [n]"
  by (simp_all add: cronField_nat fold_sunday_def)

lemma some_values_Some [simp]: "some_values (Some vs) \<longleftrightarrow> vs \<noteq> []"
  by (simp add: some_values_def)

definition picker_ok :: "schedule_model \<Rightarrow> bool" where
  "picker_ok s \<longleftrightarrow>
     sm_mode s \<noteq> Custom \<and> (\<exists>h m. h \<le> 23 \<and> m \<le> 59 \<and> sm_time s = pad2 h @ '':'' @ pad2 m) \<and>
     sm_days s \<noteq> [] \<and> distinct (sm_days s) \<and> (\<forall>d\<in>set (sm_days s). d \<le> 6) \<and> 1 \<le> sm_dom s \<and> sm_dom s \<le> 28 \<and>
     sm_at s \<le> 59 \<and>
     (\<exists>k. 1 \<le> k \<and> k \<le> (case sm_unit s of Minutes \<Rightarrow> 59 | Hours \<Rightarrow> 23) \<and> sm_n s = Fin (of_nat k))"

lemma clampRepeat_ok:
  "1 \<le> k \<Longrightarrow> k \<le> (case u of Minutes \<Rightarrow> 59 | Hours \<Rightarrow> 23) \<Longrightarrow> clampRepeat (Fin (of_nat k)) u = k"
proof -
  assume k: "1 \<le> k" "k \<le> (case u of Minutes \<Rightarrow> 59 | Hours \<Rightarrow> 23)"
  have "\<lfloor>(of_nat k :: rat) + 1 / 2\<rfloor> = int k" by (simp add: floor_eq_iff)
  then show ?thesis using k by (cases u) (simp_all add: clampRepeat_def Let_def)
qed

lemma day_list_field:
  assumes "days \<noteq> []" "distinct days" "\<forall>d\<in>set days. d \<le> 6"
  shows "cronField (day_list days) 0 7 = Some (sort days)" "word (day_list days)" "day_list days \<noteq> ''*''"
    "day_list days = ''1,2,3,4,5'' \<Longrightarrow> sort days = [1, 2, 3, 4, 5]"
proof -
  have s: "sort days \<noteq> []" "\<And>d. d \<in> set (sort days) \<Longrightarrow> 0 \<le> d \<and> d \<le> 7" "distinct (sort days)"
    using assms by (auto dest!: arg_cong [of "sort days" "[]" set])
  have m: "map (fold_sunday 7) (sort days) = sort days"
    using assms(3) by (intro map_idI) (auto simp: fold_sunday_def)
  show "cronField (day_list days) 0 7 = Some (sort days)"
    using cronField_nats [OF s(1), of 0 7] s(2,3) sorted_sort_id [of "sort days"]
    by (simp add: day_list_def m nub_distinct)
  have sp: "split_on CHR '','' (day_list days) = map nat_text (sort days)"
    using split_join_nats [OF s(1)] by (simp add: day_list_def)
  show "day_list days \<noteq> ''*''"
  proof
    assume "day_list days = ''*''"
    then have "map nat_text (sort days) = [''*'']" using sp by simp
    then show False by (cases "sort days") auto
  qed
  show "sort days = [1, 2, 3, 4, 5]" if "day_list days = ''1,2,3,4,5''"
  proof -
    have "map nat_text [1, 2, 3, 4, 5] = [''1'', ''2'', ''3'', ''4'', ''5'']" by code_simp
    then have "map nat_text (sort days) = map nat_text [1, 2, 3, 4, 5]" using sp that by simp
    then show ?thesis by (metis (mono_tags, lifting) inj_onI map_inj_on nat_text_inj)
  qed
  have "\<not> is_space c" if "c \<in> set (day_list days)" for c
    using join_chars [OF that [unfolded day_list_def]] nat_text_plain by (auto simp: is_space_def)
  moreover have "day_list days \<noteq> []"
  proof
    assume "day_list days = []"
    then have "map nat_text (sort days) = [[]]" using sp by simp
    then have "[] \<in> nat_text ` set (sort days)" by (metis list.set_intros(1) list.set_map)
    then show False using nat_text_not_Nil by (metis imageE)
  qed
  ultimately show "word (day_list days)" by (auto simp: word_def list_all_iff)
qed

lemma time_read:
  "raw_mi P = nat_text m \<Longrightarrow> raw_h P = nat_text h \<Longrightarrow> time_of P = Some (pad2 h @ '':'' @ pad2 m)"
  by (simp add: time_of_def)

definition shows_as :: "string list \<Rightarrow> picked \<Rightarrow> bool" where
  "shows_as ws p \<longleftrightarrow> validateCron (join '' '' ws) = None \<and> scheduleFromCron (join '' '' ws) = p"

lemma shows_asI:
  assumes "list_all word [mi, h, d, ''*'', dw]" "some_values (cronField mi 0 59)" "some_values (cronField h 0 23)"
    "some_values (cronField d 1 31)" "some_values (cronField dw 0 7)"
    "\<And>P. raw_mi P = mi \<Longrightarrow> raw_h P = h \<Longrightarrow> raw_dom P = d \<Longrightarrow> raw_mon P = ''*'' \<Longrightarrow> raw_dow P = dw \<Longrightarrow>
       dows P = the (cronField dw 0 7) \<Longrightarrow> picked_of P = p"
  shows "shows_as [mi, h, d, ''*'', dw] p"
proof -
  note c = cronParts_words [OF assms(1-4) star_fields(4) assms(5)]
  show ?thesis
    unfolding shows_as_def scheduleFromCron_def c option.case by (simp add: assms(6))
qed

lemma shows_daily:
  "h \<le> 23 \<Longrightarrow> m \<le> 59 \<Longrightarrow> shows_as [nat_text m, nat_text h, ''*'', ''*'', ''*''] (P_daily (pad2 h @ '':'' @ pad2 m))"
  by (rule shows_asI) (simp_all only: star_fields, simp_all add: picked_of_def time_read)

lemma shows_days:
  assumes "h \<le> 23" "m \<le> 59" "cronField dw 0 7 = Some ds" "ds \<noteq> []" "word dw" "dw \<noteq> ''*''"
  shows "shows_as [nat_text m, nat_text h, ''*'', ''*'', dw] (P_days (pad2 h @ '':'' @ pad2 m) ds)"
  by (rule shows_asI) (simp_all only: star_fields, simp_all add: picked_of_def time_read assms)

lemma shows_monthly:
  assumes "h \<le> 23" "m \<le> 59" "1 \<le> d" "d \<le> 28"
  shows "shows_as [nat_text m, nat_text h, nat_text d, ''*'', ''*''] (P_monthly (pad2 h @ '':'' @ pad2 m) d)"
proof -
  have "d \<le> 31" "Suc 0 \<le> d" using assms by simp_all
  then show ?thesis
    by (intro shows_asI) (simp_all only: star_fields, simp_all add: picked_of_def time_read assms)
qed

lemmas step_facts = words_nat(2) [simplified] star_step_facts(2,4) [simplified] cronField_step [of _ 58, simplified]
  cronField_step [of _ 22, simplified]

lemma shows_minutes:
  assumes "1 \<le> n"
  shows "shows_as [''*/'' @ nat_text n, ''*'', ''*'', ''*'', ''*''] (P_every n Minutes None)"
  by (rule shows_asI) (simp_all only: star_fields, insert assms, simp_all add: picked_of_def time_of_def repeat_of_def step_facts)

lemma shows_hours:
  assumes "1 \<le> n" "a \<le> 59"
  shows "shows_as [nat_text a, ''*/'' @ nat_text n, ''*'', ''*'', ''*''] (P_every n Hours (Some a))"
  by (rule shows_asI) (simp_all only: star_fields, insert assms, simp_all add: picked_of_def time_of_def repeat_of_def step_facts)

lemma shows_hourly:
  assumes "a \<le> 59"
  shows "shows_as [nat_text a, ''*'', ''*'', ''*'', ''*''] (P_every 1 Hours (Some a))"
  by (rule shows_asI) (simp_all only: star_fields, simp_all add: picked_of_def time_of_def repeat_of_def assms)

lemma same_model:
  "sm_mode s = a \<Longrightarrow> sm_time s = t \<Longrightarrow> s\<lparr>sm_mode := a, sm_time := t\<rparr> = s"
  "sm_mode s = a \<Longrightarrow> sm_time s = t \<Longrightarrow> s\<lparr>sm_mode := a, sm_time := t, sm_days := ds\<rparr> = s\<lparr>sm_days := ds\<rparr>"
  "sm_mode s = a \<Longrightarrow> sm_time s = t \<Longrightarrow> sm_dom s = d \<Longrightarrow> s\<lparr>sm_mode := a, sm_time := t, sm_dom := d\<rparr> = s"
  "sm_mode s = a \<Longrightarrow> sm_n s = n \<Longrightarrow> sm_unit s = u \<Longrightarrow> s\<lparr>sm_mode := a, sm_n := n, sm_unit := u\<rparr> = s"
  "sm_mode s = a \<Longrightarrow> sm_n s = n \<Longrightarrow> sm_unit s = u \<Longrightarrow> sm_at s = m \<Longrightarrow> s\<lparr>sm_mode := a, sm_n := n, sm_unit := u, sm_at := m\<rparr> = s"
  by (cases s; simp)+

text \<open>
  Every schedule the picker can show (a time of day; some weekdays; a day of the month up to
  the 28th; a repeat in its unit's range) is written as a cron that is accepted and read back as
  the same schedule, with the weekdays in order.
\<close>

theorem picker_roundtrip:
  assumes "picker_ok s"
  shows "\<exists>cron. cronFromSchedule s = Some cron \<and> validateCron cron = None \<and>
           with_picked s (scheduleFromCron cron) =
             (if sm_mode s = On_days then s\<lparr>sm_days := sort (sm_days s)\<rparr> else s)"
proof -
  obtain h m where t: "h \<le> 23" "m \<le> 59" "sm_time s = pad2 h @ '':'' @ pad2 m"
    using assms by (auto simp: picker_ok_def)
  obtain k where k: "1 \<le> k" "k \<le> (case sm_unit s of Minutes \<Rightarrow> 59 | Hours \<Rightarrow> 23)" "sm_n s = Fin (of_nat k)"
    using assms by (auto simp: picker_ok_def)
  have d: "sm_days s \<noteq> []" "distinct (sm_days s)" "\<forall>d\<in>set (sm_days s). d \<le> 6" "1 \<le> sm_dom s" "sm_dom s \<le> 28"
    "sm_at s \<le> 59" using assms by (auto simp: picker_ok_def)
  note n = clampRepeat_ok [OF k(1,2)] and tp = time_parts [of h m, simplified] same_model t(3) [simplified]
  let ?out = "if sm_mode s = On_days then s\<lparr>sm_days := sort (sm_days s)\<rparr> else s"
  have by_words: ?thesis
    if "cronFromSchedule s = Some (join '' '' ws)" "shows_as ws p" "with_picked s p = ?out" for ws p
    using that by (auto simp: shows_as_def)
  show ?thesis
  proof (cases "sm_mode s")
    case Daily
    show ?thesis by (rule by_words [OF _ shows_daily [OF t(1,2)]]) (simp_all add: Daily tp)
  next
    case On_days
    show ?thesis
    proof (cases "day_list (sm_days s) = ''1,2,3,4,5''")
      case True
      have ds: "sort (sm_days s) = [1, 2, 3, 4, 5]" by (rule day_list_field(4) [OF d(1-3) True])
      show ?thesis
        by (rule by_words [OF _ shows_days [OF t(1,2) cronField_weekdays]])
          (simp_all add: On_days tp Let_def True ds)
    next
      case False
      have ne: "sort (sm_days s) \<noteq> []" using d(1) by (metis set_empty set_sort)
      show ?thesis
        by (rule by_words [OF _ shows_days [OF t(1,2) day_list_field(1) [OF d(1-3)] ne day_list_field(2,3) [OF d(1-3)]]])
          (simp_all add: On_days tp Let_def False)
    qed
  next
    case Every
    show ?thesis
    proof (cases "sm_unit s")
      case Minutes
      show ?thesis
        by (rule by_words [OF _ shows_minutes [OF k(1)]]) (simp_all add: Every Minutes n [unfolded Minutes] k(3) same_model Let_def)
    next
      case Hours
      show ?thesis
      proof (cases "k = 1")
        case True
        show ?thesis
          by (rule by_words [OF _ shows_hourly [OF d(6)]])
            (use k(3) n [unfolded Hours] True in \<open>simp_all add: Every Hours same_model Let_def\<close>)
      next
        case False
        show ?thesis
          by (rule by_words [OF _ shows_hours [OF k(1) d(6)]])
            (use k(3) False in \<open>simp_all add: Every Hours n [unfolded Hours] same_model Let_def\<close>)
      qed
    qed
  next
    case Monthly
    show ?thesis
      by (rule by_words [OF _ shows_monthly [OF t(1,2) d(4,5)]]) (simp_all add: Monthly tp)
  next
    case Custom
    then show ?thesis using assms by (simp add: picker_ok_def)
  qed
qed

lemma picker_roundtrip_witness:
  "\<exists>cron. cronFromSchedule DEFAULT_SCHEDULE = Some cron \<and> validateCron cron = None \<and>
     with_picked DEFAULT_SCHEDULE (scheduleFromCron cron) = DEFAULT_SCHEDULE"
proof -
  have "''08:00'' = pad2 8 @ '':'' @ pad2 0" by code_simp
  then have "\<exists>h m. h \<le> 23 \<and> m \<le> 59 \<and> ''08:00'' = pad2 h @ '':'' @ pad2 m" by (intro exI [of _ 8] exI [of _ 0]) simp
  moreover have "\<exists>k. 1 \<le> k \<and> k \<le> (59::nat) \<and> Fin 15 = Fin (of_nat k)" by (rule exI [of _ 15]) simp
  ultimately have "picker_ok DEFAULT_SCHEDULE" unfolding picker_ok_def DEFAULT_SCHEDULE_def by simp
  from picker_roundtrip [OF this] show ?thesis by (simp add: DEFAULT_SCHEDULE_def del: cronFromSchedule.simps)
qed

end
