(* ===== verification/Next_Runs.thy ===== *)
theory Next_Runs
  imports Schedule_Facts Calendar
begin

text \<open>
  When a cron runs next and how it is worded (frontend/src/lib/schedule.ts, second half), and the
  time zone labels (frontend/src/lib/timezones.ts). The runtime's Intl database is a parameter:
  \<open>intl zone\<close> is the formatted parts of the given instant in the zone, \<open>None\<close> where the
  constructor throws; the parts are digit strings and a weekday name, as the ECMA-402 numeric
  fields are.
\<close>

section \<open>Wording\<close>

definition daysText :: "nat list \<Rightarrow> string" where
  "daysText days =
     (let k = join '','' (map nat_text (sort days)) in
      if k = ''1,2,3,4,5'' then ''weekdays''
      else if k = ''0,6'' then ''weekends''
      else if length days = 7 then ''every day''
      else join '', '' (map (\<lambda>d. DOW ! d) (filter (\<lambda>d. d \<in> set days) DOW_ORDER)))"

definition hm :: "nat \<Rightarrow> nat \<Rightarrow> string" where
  "hm h m = pad2 h @ '':'' @ pad2 m"

definition human_times :: "cron_parts \<Rightarrow> string list option" where
  "human_times P =
     (if length (minutes P) * length (hours P) \<le> 4
      then Some (concat (map (\<lambda>hh. map (hm hh) (minutes P)) (hours P))) else None)"

definition human_when :: "cron_parts \<Rightarrow> string option" where
  "human_when P =
     (if raw_mon P = ''*'' then
        (if raw_dom P = ''*'' \<and> raw_dow P = ''*'' then Some ''every day''
         else if raw_dom P = ''*'' then Some (daysText (dows P))
         else if raw_dow P = ''*'' \<and> length (doms P) = 1 then Some (''on the '' @ ordinal (hd (doms P)) @ '' of each month'')
         else None)
      else None)"

definition human_custom :: "string \<Rightarrow> string" where
  "human_custom cron =
     (case cronParts cron of
        None \<Rightarrow> ''invalid schedule''
      | Some P \<Rightarrow>
          (case (human_times P, human_when P) of
             (Some ts, Some wn) \<Rightarrow>
               wn @ '' at '' @ join '', '' (butlast ts) @ (if 1 < length ts then '' and '' else []) @ last ts
           | _ \<Rightarrow> ''on a custom schedule''))"

definition cronHuman :: "string \<Rightarrow> string" where
  "cronHuman cron =
     (case scheduleFromCron cron of
        P_daily t \<Rightarrow> ''every day at '' @ t
      | P_days t ds \<Rightarrow> daysText ds @ '' at '' @ t
      | P_monthly t d \<Rightarrow> ''on the '' @ ordinal d @ '' of each month at '' @ t
      | P_every n u at' \<Rightarrow>
          (if u = Minutes then ''every '' @ nat_text n @ '' min''
           else if n = 1 then ''every hour at :'' @ pad2 (case at' of Some a \<Rightarrow> a | None \<Rightarrow> 0)
           else ''every '' @ nat_text n @ '' hours at :'' @ pad2 (case at' of Some a \<Rightarrow> a | None \<Rightarrow> 0))
      | P_custom \<Rightarrow> human_custom cron)"

section \<open>Days ahead\<close>

record day_parts =
  dp_year :: nat
  dp_month :: nat
  dp_day :: nat
  dp_dow :: nat

definition addDays :: "nat \<Rightarrow> nat \<Rightarrow> nat \<Rightarrow> nat \<Rightarrow> day_parts" where
  "addDays y m d n =
     (case (next_day ^^ n) (y, m, d) of (y', m', d') \<Rightarrow>
        \<lparr>dp_year = y', dp_month = m', dp_day = d', dp_dow = weekday (day_number (y', m', d'))\<rparr>)"

section \<open>The next runs\<close>

record wall_time =
  wt_date :: day_parts
  wt_hour :: nat
  wt_minute :: nat

text \<open>A formatted number, and \<open>"0"\<close> for a part that is missing.\<close>

definition part_number :: "string dict \<Rightarrow> string \<Rightarrow> nat" where
  "part_number ps t = (case dict_get ps t of Some v \<Rightarrow> digits_val v | None \<Rightarrow> 0)"

definition wall_of_parts :: "string dict \<Rightarrow> wall_time" where
  "wall_of_parts ps =
     \<lparr>wt_date = \<lparr>dp_year = part_number ps ''year'', dp_month = part_number ps ''month'', dp_day = part_number ps ''day'',
        dp_dow = (case find_index (\<lambda>w. Some w = dict_get ps ''weekday'') DOW of Some i \<Rightarrow> i | None \<Rightarrow> 0)\<rparr>,
      wt_hour = part_number ps ''hour'' mod 24, wt_minute = part_number ps ''minute''\<rparr>"

text \<open>An unknown zone falls back to UTC, which every runtime knows; without it the code would not return.\<close>

definition wallNow :: "(string \<Rightarrow> string dict option) \<Rightarrow> string \<Rightarrow> wall_time option" where
  "wallNow intl zone =
     map_option wall_of_parts (case intl zone of Some ps \<Rightarrow> Some ps | None \<Rightarrow> intl ''UTC'')"

definition day_matches :: "cron_parts \<Rightarrow> day_parts \<Rightarrow> bool" where
  "day_matches P day \<longleftrightarrow>
     dp_month day \<in> set (months P) \<and>
     (let domAny = (raw_dom P = ''*''); dowAny = (raw_dow P = ''*'') in
      if domAny \<and> dowAny then True
      else if domAny then dp_dow day \<in> set (dows P)
      else if dowAny then dp_day day \<in> set (doms P)
      else dp_day day \<in> set (doms P) \<or> dp_dow day \<in> set (dows P))"

definition clock_times :: "cron_parts \<Rightarrow> (nat \<times> nat) list" where
  "clock_times P = concat (map (\<lambda>h. map (\<lambda>m. (h, m)) (minutes P)) (hours P))"

text \<open>One day's pass over the hours and minutes; \<open>out\<close> is returned as soon as it holds \<open>n\<close>.\<close>

fun scan_times :: "wall_time \<Rightarrow> nat \<Rightarrow> day_parts \<Rightarrow> nat \<Rightarrow> (nat \<times> nat) list \<Rightarrow> wall_time list \<Rightarrow> wall_time list" where
  "scan_times now i day n [] out = out"
| "scan_times now i day n ((h, m) # ts) out =
     (if i = 0 \<and> (h < wt_hour now \<or> (h = wt_hour now \<and> m \<le> wt_minute now)) then scan_times now i day n ts out
      else let out' = out @ [\<lparr>wt_date = day, wt_hour = h, wt_minute = m\<rparr>] in
           if n \<le> length out' then out' else scan_times now i day n ts out')"

definition today_plus :: "wall_time \<Rightarrow> nat \<Rightarrow> day_parts" where
  "today_plus now i = addDays (dp_year (wt_date now)) (dp_month (wt_date now)) (dp_day (wt_date now)) i"

fun scan_days :: "cron_parts \<Rightarrow> wall_time \<Rightarrow> nat \<Rightarrow> nat list \<Rightarrow> wall_time list \<Rightarrow> wall_time list" where
  "scan_days P now n [] out = out"
| "scan_days P now n (i # is) out =
     (if n \<le> length out then out
      else let day = today_plus now i in
           if day_matches P day then scan_days P now n is (scan_times now i day n (clock_times P) out)
           else scan_days P now n is out)"

definition HORIZON :: nat where "HORIZON = 400"

definition nextRuns :: "(string \<Rightarrow> string dict option) \<Rightarrow> string \<Rightarrow> string \<Rightarrow> nat \<Rightarrow> wall_time list option" where
  "nextRuns intl cron zone n =
     (case cronParts cron of
        None \<Rightarrow> Some []
      | Some P \<Rightarrow> map_option (\<lambda>now. scan_days P now n [0..<HORIZON] []) (wallNow intl zone))"

definition ymd :: "wall_time \<Rightarrow> nat \<times> nat \<times> nat" where
  "ymd w = (dp_year (wt_date w), dp_month (wt_date w), dp_day (wt_date w))"

definition run_text :: "wall_time \<Rightarrow> wall_time \<Rightarrow> string" where
  "run_text today run =
     (let diff = day_number (ymd run) - day_number (ymd today); t = hm (wt_hour run) (wt_minute run) in
      if diff = 0 then ''Today '' @ t
      else if diff = 1 then ''Tomorrow '' @ t
      else DOW ! dp_dow (wt_date run) @ '' '' @ nat_text (dp_day (wt_date run)) @ '' '' @
           MONTHS ! (dp_month (wt_date run) - 1) @ '' '' @ t)"

definition runText :: "(string \<Rightarrow> string dict option) \<Rightarrow> wall_time \<Rightarrow> string \<Rightarrow> string option" where
  "runText intl run zone = map_option (\<lambda>today. run_text today run) (wallNow intl zone)"

section \<open>Time zones\<close>

definition tzCity :: "string \<Rightarrow> string" where
  "tzCity zone =
     (if zone = ''UTC'' then ''UTC''
      else map (\<lambda>c. if c = CHR ''_'' then CHR '' '' else c) (last (split_on CHR ''/'' zone)))"

text \<open>\<open>offset zone\<close>: \<open>None\<close> where Intl throws, else the timeZoneName part, if there is one.\<close>

definition tzOffset :: "(string \<Rightarrow> string option option) \<Rightarrow> string \<Rightarrow> string" where
  "tzOffset offset zone =
     (case offset zone of
        None \<Rightarrow> []
      | Some None \<Rightarrow> ''GMT+0''
      | Some (Some part) \<Rightarrow> if part = [] \<or> part = ''GMT'' then ''GMT+0'' else part)"

text \<open>\<open>/GMT([+-])(\d+)(?::(\d+))?/\<close>, at the first place it matches.\<close>

definition gmt_here :: "string \<Rightarrow> int option" where
  "gmt_here s =
     (if starts_with s ''GMT'' then
        (case drop 3 s of
           [] \<Rightarrow> None
         | c # t \<Rightarrow>
             (let hs = takeWhile is_digit t; r = dropWhile is_digit t;
                  ms = (if r \<noteq> [] \<and> hd r = CHR '':'' then takeWhile is_digit (tl r) else [])
              in if (c = CHR ''+'' \<or> c = CHR ''-'') \<and> hs \<noteq> []
                 then Some ((if c = CHR ''-'' then - 1 else 1) * int (digits_val hs * 60 + digits_val ms)) else None))
      else None)"

fun offsetMinutes :: "string \<Rightarrow> int" where
  "offsetMinutes [] = 0"
| "offsetMinutes (c # s) = (case gmt_here (c # s) of Some v \<Rightarrow> v | None \<Rightarrow> offsetMinutes s)"

definition tzLabel :: "(string \<Rightarrow> string option option) \<Rightarrow> string \<Rightarrow> string" where
  "tzLabel offset zone =
     (let off = tzOffset offset zone in if off \<noteq> [] then tzCity zone @ '' ('' @ off @ '')'' else tzCity zone)"

record schedule_summary =
  ss_human :: string
  ss_zone :: string
  ss_runs :: "string list"

definition scheduleSummary ::
    "(string \<Rightarrow> string dict option) \<Rightarrow> (string \<Rightarrow> string option option) \<Rightarrow> string \<Rightarrow> string \<Rightarrow> schedule_summary option option" where
  "scheduleSummary intl offset cron zone =
     (if cronParts cron = None then Some None
      else case (nextRuns intl cron zone 3, wallNow intl zone) of
        (Some runs, Some now) \<Rightarrow>
          Some (Some \<lparr>ss_human = cronHuman cron, ss_zone = tzCity zone @ '', '' @ tzOffset offset zone,
                      ss_runs = map (run_text now) runs\<rparr>)
      | _ \<Rightarrow> None)"

section \<open>The scan gives the first runs in time order\<close>

text \<open>Minutes since 1 January 1970 on the wall clock.\<close>

definition stamp :: "wall_time \<Rightarrow> int" where
  "stamp w = (day_number (ymd w) * 24 + int (wt_hour w)) * 60 + int (wt_minute w)"

definition past :: "wall_time \<Rightarrow> nat \<Rightarrow> nat \<times> nat \<Rightarrow> bool" where
  "past now i t \<longleftrightarrow> i = 0 \<and> (fst t < wt_hour now \<or> (fst t = wt_hour now \<and> snd t \<le> wt_minute now))"

definition runs_on :: "cron_parts \<Rightarrow> wall_time \<Rightarrow> nat \<Rightarrow> wall_time list" where
  "runs_on P now i =
     (if day_matches P (today_plus now i)
      then map (\<lambda>t. \<lparr>wt_date = today_plus now i, wt_hour = fst t, wt_minute = snd t\<rparr>)
             (filter (\<lambda>t. \<not> past now i t) (clock_times P))
      else [])"

text \<open>The abstract specification: every matching moment of the horizon, day by day.\<close>

definition all_runs :: "cron_parts \<Rightarrow> wall_time \<Rightarrow> nat list \<Rightarrow> wall_time list" where
  "all_runs P now is = concat (map (runs_on P now) is)"

lemma scan_times_Cons:
  "scan_times now i day n ((h, m) # ts) out =
     (if past now i (h, m) then scan_times now i day n ts out
      else let out' = out @ [\<lparr>wt_date = day, wt_hour = h, wt_minute = m\<rparr>] in
           if n \<le> length out' then out' else scan_times now i day n ts out')"
  by (simp add: past_def)

declare scan_times.simps(2) [simp del]

lemma scan_times_take:
  "length out < n \<Longrightarrow>
   scan_times now i day n ts out =
     take n (out @ map (\<lambda>t. \<lparr>wt_date = day, wt_hour = fst t, wt_minute = snd t\<rparr>) (filter (\<lambda>t. \<not> past now i t) ts))"
proof (induction now i day n ts out rule: scan_times.induct)
  case (1 now i day n out)
  then show ?case by simp
next
  case (2 now i day n h m ts out)
  have IH1: "past now i (h, m) \<Longrightarrow> scan_times now i day n ts out =
      take n (out @ map (\<lambda>t. \<lparr>wt_date = day, wt_hour = fst t, wt_minute = snd t\<rparr>) (filter (\<lambda>t. \<not> past now i t) ts))"
    using 2(1,3) by (simp add: past_def)
  have IH2: "\<not> past now i (h, m) \<Longrightarrow> out' = out @ [\<lparr>wt_date = day, wt_hour = h, wt_minute = m\<rparr>] \<Longrightarrow> length out' < n \<Longrightarrow>
      scan_times now i day n ts out' =
      take n (out' @ map (\<lambda>t. \<lparr>wt_date = day, wt_hour = fst t, wt_minute = snd t\<rparr>) (filter (\<lambda>t. \<not> past now i t) ts))" for out'
    using 2(2) [of out'] by (auto simp: past_def)
  show ?case
  proof (cases "past now i (h, m)")
    case True
    then show ?thesis using IH1 by (simp add: scan_times_Cons)
  next
    case new: False
    show ?thesis
    proof (cases "Suc (length out) < n")
      case True
      then show ?thesis using IH2 [OF new refl] new by (simp add: scan_times_Cons Let_def)
    next
      case False
      then have "n = Suc (length out)" using 2(3) by simp
      then show ?thesis using new by (simp add: scan_times_Cons Let_def)
    qed
  qed
qed

lemma scan_days_take: "length out \<le> n \<Longrightarrow> scan_days P now n is out = take n (out @ all_runs P now is)"
proof (induction "is" arbitrary: out)
  case Nil
  then show ?case by (simp add: all_runs_def)
next
  case (Cons i "is")
  show ?case
  proof (cases "n \<le> length out")
    case True
    then show ?thesis using Cons.prems by simp
  next
    case short: False
    show ?thesis
    proof (cases "day_matches P (today_plus now i)")
      case True
      let ?out = "scan_times now i (today_plus now i) n (clock_times P) out"
      have o: "?out = take n (out @ runs_on P now i)" using short True by (simp add: scan_times_take runs_on_def)
      have "scan_days P now n is ?out = take n (?out @ all_runs P now is)" by (rule Cons.IH) (simp add: o)
      also have "\<dots> = take n (out @ runs_on P now i @ all_runs P now is)"
        unfolding o by (cases "n \<le> length (out @ runs_on P now i)") (auto simp: min_def)
      finally show ?thesis using short True by (simp add: all_runs_def)
    next
      case False
      then show ?thesis using Cons short by (simp add: all_runs_def runs_on_def)
    qed
  qed
qed

lemma ymd_today_plus:
  "ymd \<lparr>wt_date = today_plus now i, wt_hour = h, wt_minute = m\<rparr> = (next_day ^^ i) (ymd now)"
  by (simp add: ymd_def today_plus_def addDays_def split: prod.split)

lemma stamp_run:
  assumes "valid_date (ymd now)"
  shows "stamp \<lparr>wt_date = today_plus now i, wt_hour = h, wt_minute = m\<rparr> =
           (day_number (ymd now) + int i) * 1440 + int (h * 60 + m)"
  using next_days [OF assms, of i] by (simp add: stamp_def ymd_today_plus algebra_simps)

lemma sorted_clock_times:
  fixes hs ms :: "nat list"
  assumes "sorted hs" "distinct hs" "sorted ms" "distinct ms" "\<forall>m\<in>set ms. m < 60"
  shows "sorted_wrt (\<lambda>a b. fst a * 60 + snd a < fst b * 60 + snd b) (concat (map (\<lambda>h. map (\<lambda>m. (h, m)) ms) hs))"
  using assms(1,2)
proof (induction hs)
  case (Cons h hs)
  have "sorted_wrt (<) ms" using assms(3,4) by (simp add: strict_sorted_iff)
  then have "sorted_wrt (\<lambda>a b. fst a * 60 + snd a < fst b * 60 + snd b) (map (\<lambda>m. (h, m)) ms)"
    by (simp add: sorted_wrt_map)
  moreover have "h * 60 + m < h' * 60 + m'" if "m \<in> set ms" "h' \<in> set hs" for m h' m' :: nat
  proof -
    have "h \<le> h'" "h \<noteq> h'" using Cons.prems that(2) by auto
    then have "h + 1 \<le> h'" by simp
    then show ?thesis using assms(5) that(1) by fastforce
  qed
  ultimately show ?case using Cons by (auto simp: sorted_wrt_append)
qed simp

lemma all_runs_sorted:
  assumes "valid_date (ymd now)" "sorted (hours P)" "distinct (hours P)" "sorted (minutes P)" "distinct (minutes P)"
    "\<forall>m\<in>set (minutes P). m < 60" "\<forall>h\<in>set (hours P). h < 24"
  shows "sorted_wrt (\<lambda>a b. stamp a < stamp b) (all_runs P now [i..<j])"
proof (induction j)
  case (Suc j)
  have day: "stamp w = (day_number (ymd now) + int k) * 1440 + int (wt_hour w * 60 + wt_minute w) \<and> wt_hour w < 24 \<and> wt_minute w < 60"
    if "w \<in> set (runs_on P now k)" for w k
    using that stamp_run [OF assms(1), of k] assms(6,7)
    by (auto simp: runs_on_def clock_times_def split: if_splits)
  have "sorted_wrt (\<lambda>a b. stamp a < stamp b) (runs_on P now j)"
  proof -
    have "sorted_wrt (\<lambda>a b. fst a * 60 + snd a < fst b * 60 + snd b) (filter (\<lambda>t. \<not> past now j t) (clock_times P))"
      unfolding clock_times_def by (intro sorted_wrt_filter sorted_clock_times assms(2-6))
    then have "sorted_wrt (\<lambda>a b. int (fst a * 60 + snd a) < int (fst b * 60 + snd b)) (filter (\<lambda>t. \<not> past now j t) (clock_times P))"
      by (simp only: of_nat_less_iff)
    then show ?thesis
      unfolding runs_on_def by (simp only: sorted_wrt_map stamp_run [OF assms(1)] add_less_cancel_left split: if_splits) simp
  qed
  moreover have "stamp a < stamp b" if a: "a \<in> set (all_runs P now [i..<j])" and b: "b \<in> set (runs_on P now j)" for a b
  proof -
    obtain k where k: "k < j" "a \<in> set (runs_on P now k)" using a by (auto simp: all_runs_def)
    have "int k + 1 \<le> int j" using k(1) by simp
    then have "(day_number (ymd now) + int k) * 1440 + 1440 \<le> (day_number (ymd now) + int j) * 1440" by simp
    then show ?thesis using day [OF k(2)] day [OF b] by linarith
  qed
  ultimately show ?case using Suc by (auto simp: all_runs_def sorted_wrt_append)
qed (simp add: all_runs_def)

lemma all_runs_mem:
  assumes "valid_date (ymd now)" "wt_hour now < 24" "wt_minute now < 60" "\<forall>m\<in>set (minutes P). m < 60" "\<forall>h\<in>set (hours P). h < 24"
  shows "w \<in> set (all_runs P now [0..<k]) \<longleftrightarrow>
    (\<exists>i<k. wt_date w = today_plus now i) \<and> day_matches P (wt_date w) \<and> wt_hour w \<in> set (hours P) \<and>
    wt_minute w \<in> set (minutes P) \<and> stamp now < stamp w"
proof -
  have later: "\<not> past now i (h, m) \<longleftrightarrow> stamp now < stamp \<lparr>wt_date = today_plus now i, wt_hour = h, wt_minute = m\<rparr>"
    if "h \<in> set (hours P)" "m \<in> set (minutes P)" for i h m
  proof -
    have hm: "h < 24" "m < 60" using that assms(4,5) by auto
    have s: "stamp now = day_number (ymd now) * 1440 + int (wt_hour now * 60 + wt_minute now)" by (simp add: stamp_def)
    show ?thesis
    proof (cases i)
      case 0
      have "h * 60 + m > wt_hour now * 60 + wt_minute now \<longleftrightarrow> wt_hour now < h \<or> (h = wt_hour now \<and> wt_minute now < m)"
        using hm(2) assms(3) by (cases h "wt_hour now" rule: linorder_cases) auto
      then show ?thesis unfolding stamp_run [OF assms(1)] s 0 by (auto simp: past_def)
    next
      case (Suc i')
      have "wt_hour now * 60 + wt_minute now < 1440" using assms(2,3) by simp
      then show ?thesis unfolding stamp_run [OF assms(1)] s Suc by (simp add: past_def)
    qed
  qed
  have rec: "w = \<lparr>wt_date = wt_date w, wt_hour = wt_hour w, wt_minute = wt_minute w\<rparr>" by simp
  show ?thesis
  proof
    assume "w \<in> set (all_runs P now [0..<k])"
    then obtain i h m where "i < k" "day_matches P (today_plus now i)" "h \<in> set (hours P)" "m \<in> set (minutes P)" "\<not> past now i (h, m)"
      "w = \<lparr>wt_date = today_plus now i, wt_hour = h, wt_minute = m\<rparr>"
      by (auto simp: all_runs_def runs_on_def clock_times_def split: if_splits)
    then show "(\<exists>i<k. wt_date w = today_plus now i) \<and> day_matches P (wt_date w) \<and> wt_hour w \<in> set (hours P) \<and>
      wt_minute w \<in> set (minutes P) \<and> stamp now < stamp w" using later by auto
  next
    assume r: "(\<exists>i<k. wt_date w = today_plus now i) \<and> day_matches P (wt_date w) \<and> wt_hour w \<in> set (hours P) \<and>
      wt_minute w \<in> set (minutes P) \<and> stamp now < stamp w"
    then obtain i where i: "i < k" "wt_date w = today_plus now i" by blast
    have "\<not> past now i (wt_hour w, wt_minute w)" using later [of "wt_hour w" "wt_minute w" i] r rec i(2) by metis
    then have "w \<in> set (runs_on P now i)" using r i rec by (force simp: runs_on_def clock_times_def)
    then show "w \<in> set (all_runs P now [0..<k])" using i(1) by (auto simp: all_runs_def)
  qed
qed

lemma cronParts_fields:
  assumes "cronParts cron = Some P"
  shows "sorted (hours P)" "distinct (hours P)" "sorted (minutes P)" "distinct (minutes P)"
    "\<forall>m\<in>set (minutes P). m < 60" "\<forall>h\<in>set (hours P). h < 24"
proof -
  obtain mi h where "cronField mi 0 59 = Some (minutes P)" "cronField h 0 23 = Some (hours P)"
    using assms by (auto simp: cronParts_def some_values_def Let_def split: list.splits if_splits)
  from this [THEN cronField_facts]
  show "sorted (hours P)" "distinct (hours P)" "sorted (minutes P)" "distinct (minutes P)"
    "\<forall>m\<in>set (minutes P). m < 60" "\<forall>h\<in>set (hours P). h < 24"
    by (auto simp: less_Suc_eq_le [symmetric] numeral_eq_Suc)
qed

text \<open>
  Cron's rule for the day, stated on its own: a day field that is a star restricts nothing, and of two
  that restrict, one is enough.
\<close>

definition cron_day :: "cron_parts \<Rightarrow> day_parts \<Rightarrow> bool" where
  "cron_day P day \<longleftrightarrow>
     dp_month day \<in> set (months P) \<and>
     (raw_dom P \<noteq> ''*'' \<and> dp_day day \<in> set (doms P) \<or> raw_dow P \<noteq> ''*'' \<and> dp_dow day \<in> set (dows P) \<or>
      raw_dom P = ''*'' \<and> raw_dow P = ''*'')"

lemma day_matches_cron: "day_matches P day = cron_day P day"
  by (auto simp: day_matches_def cron_day_def Let_def)

text \<open>
  C12: for a readable cron and a real moment in the zone, the runs shown are the first n, in strict
  time order and all after now, of exactly the moments of the next 400 days whose date, hour and
  minute match the cron; fewer than n only when there are no more.
\<close>

theorem nextRuns_correct:
  assumes "cronParts cron = Some P" "wallNow intl zone = Some now"
    and "valid_date (ymd now)" "wt_hour now < 24" "wt_minute now < 60"
  shows "\<exists>runs more. nextRuns intl cron zone n = Some runs \<and> length runs \<le> n \<and> (length runs < n \<longrightarrow> more = []) \<and>
           sorted_wrt (\<lambda>a b. stamp a < stamp b) (now # runs @ more) \<and>
           (\<forall>w. w \<in> set (runs @ more) \<longleftrightarrow>
              (\<exists>i<400. wt_date w = today_plus now i) \<and> cron_day P (wt_date w) \<and> wt_hour w \<in> set (hours P) \<and>
              wt_minute w \<in> set (minutes P) \<and> stamp now < stamp w)"
proof -
  let ?all = "all_runs P now [0..<400]"
  have r: "nextRuns intl cron zone n = Some (take n ?all)"
    by (simp add: nextRuns_def assms HORIZON_def scan_days_take)
  note f = cronParts_fields [OF assms(1)]
  note mem = all_runs_mem [OF assms(3-5) f(5,6), of _ 400, unfolded day_matches_cron]
  have "sorted_wrt (\<lambda>a b. stamp a < stamp b) (now # ?all)"
    using all_runs_sorted [OF assms(3) f] mem by simp
  moreover have "take n ?all @ drop n ?all = ?all" by simp
  ultimately show ?thesis
    using r mem by (intro exI [of _ "take n ?all"] exI [of _ "drop n ?all"]) (simp only: length_take, simp)
qed

definition demo_intl :: "string \<Rightarrow> string dict option" where
  "demo_intl zone =
     (if zone = ''UTC'' then
        Some [(''year'', ''2028''), (''month'', ''2''), (''day'', ''28''), (''weekday'', ''Mon''), (''hour'', ''22''), (''minute'', ''15'')]
      else None)"

definition demo_now :: wall_time where
  "demo_now = \<lparr>wt_date = \<lparr>dp_year = 2028, dp_month = 2, dp_day = 28, dp_dow = 1\<rparr>, wt_hour = 22, wt_minute = 15\<rparr>"

lemma demo_wall: "wallNow demo_intl ''Mars/Base'' = Some demo_now"
  by code_simp

lemma demo_cron: "cronParts ''0 8 * * *'' =
    Some \<lparr>raw_mi = ''0'', raw_h = ''8'', raw_dom = ''*'', raw_mon = ''*'', raw_dow = ''*'', minutes = [0], hours = [8],
      doms = [1..<32], months = [1..<13], dows = [0, 1, 2, 3, 4, 5, 6]\<rparr>"
  by code_simp

lemma nextRuns_correct_witness:
  "\<exists>runs. nextRuns demo_intl ''0 8 * * *'' ''Mars/Base'' 3 = Some runs \<and> length runs \<le> 3 \<and>
     sorted_wrt (\<lambda>a b. stamp a < stamp b) (demo_now # runs)"
proof -
  have v: "valid_date (ymd demo_now)" "wt_hour demo_now < 24" "wt_minute demo_now < 60" by code_simp+
  show ?thesis using nextRuns_correct [OF demo_cron demo_wall v, of 3] by (auto simp: sorted_wrt_append)
qed

text \<open>A step past the field's range runs once an hour, but is worded by its number.\<close>

lemma step_worded_past_range:
  "cronHuman ''*/90 * * * *'' = ''every 90 min'' \<and> cronField ''*/90'' 0 59 = Some [0]"
  by code_simp

end
