(* ===== verification/Rule_Text.thy ===== *)
theory Rule_Text imports Rule_Types Next_Runs begin

text \<open>
  The short wording of a stored rule (\<open>frontend/src/lib/rule-text.ts\<close>): its condition, trigger and
  actions in words, its state as a badge, and the actuators it shares with other enabled rules.
  Actions and triggers are JSON objects, as the API types them.  The lemmas show that the shared
  actuators are exactly those that two enabled rules both command on one device.
\<close>

record device_ref =
  dr_device_id :: string
  dr_role :: string
  dr_device_name :: string

record stored_rule =
  sr_id :: string
  sr_enabled :: bool
  sr_latched :: bool
  sr_trigger :: json
  sr_condition :: "condition option"
  sr_devices :: "device_ref list"
  sr_actions :: "json list"
  sr_clear_actions :: "json list"

section \<open>Conditions\<close>

definition OP_SYMBOL :: "string dict" where
  "OP_SYMBOL =
     [(''>'', ''>''), (''>='', [CHR 0xE2, CHR 0x89, CHR 0xA5]), (''<'', ''<''), (''<='', [CHR 0xE2, CHR 0x89, CHR 0xA4]),
      (''=='', ''=''), (''!='', [CHR 0xE2, CHR 0x89, CHR 0xA0]), (''between'', ''between''), (''not_between'', ''outside''),
      (''in'', ''in''), (''not_in'', ''not in''), (''changed'', ''changes''), (''increased'', ''increases''),
      (''decreased'', ''decreases'')]"

definition rhsText :: "condition_leaf \<Rightarrow> string" where
  "rhsText leaf =
     (case l_rhs leaf of
        None \<Rightarrow> []
      | Some (Static v) \<Rightarrow> number_text v
      | Some (Range lo hi) \<Rightarrow> number_text lo @ en_dash @ number_text hi
      | Some (ValueSet vs) \<Rightarrow> join '', '' (map number_text vs)
      | Some (MetricRhs device metric) \<Rightarrow> metric)"

definition leaf_text :: "condition_leaf \<Rightarrow> string" where
  "leaf_text leaf =
     (let op = (case dict_get OP_SYMBOL (l_operator leaf) of Some s \<Rightarrow> s | None \<Rightarrow> l_operator leaf);
          rhs = (if l_operator leaf \<in> {''changed'', ''increased'', ''decreased''} then [] else '' '' @ rhsText leaf)
      in l_metric leaf @ '' '' @ op @ rhs)"

fun conditionText :: "condition \<Rightarrow> bool \<Rightarrow> string" where
  "conditionText CNull nested = []"
| "conditionText (CLeaf leaf) nested = leaf_text leaf"
| "conditionText (CGroup op predicates) nested =
     (let inner = join (if op = And then '' and '' else '' or '') (map (\<lambda>p. conditionText p True) predicates)
      in if nested \<and> 1 < length predicates then ''('' @ inner @ '')'' else inner)"

definition condition_text :: "condition option \<Rightarrow> string" where
  "condition_text c = (case c of None \<Rightarrow> [] | Some n \<Rightarrow> conditionText n False)"

section \<open>Triggers and actions\<close>

text \<open>\<open>v ?? d\<close> on a field.\<close>

definition nullish :: "json option \<Rightarrow> bool" where
  "nullish v \<longleftrightarrow> v = None \<or> v = Some JNull"

definition triggerText :: "stored_rule \<Rightarrow> string" where
  "triggerText rule =
     (let t = sr_trigger rule; type = (if nullish (field t ''type'') then Some (JStr ''metric'') else field t ''type'') in
      if type = Some (JStr ''schedule'') then cronHuman (if nullish (field t ''cron'') then [] else js_string (field t ''cron''))
      else if type = Some (JStr ''manual'') then ''Run manually''
      else if type = Some (JStr ''device_status'') then
        (case List.find (\<lambda>d. Some (JStr (dr_device_id d)) = field t ''device_id'') (sr_devices rule) of
           Some d \<Rightarrow> dr_device_name d | None \<Rightarrow> ''a device'') @ '' '' @
        (if field t ''transition'' = Some (JStr ''connected'') then ''connects'' else ''disconnects'')
      else or_else (condition_text (sr_condition rule)) em_dash)"

definition email_text :: "json list \<Rightarrow> string" where
  "email_text recipients =
     (case recipients of
        [] \<Rightarrow> ''Email the alert recipients''
      | [r] \<Rightarrow> ''Email '' @ json_string r
      | _ \<Rightarrow> ''Email '' @ nat_text (length recipients) @ '' people'')"

definition action_text :: "json \<Rightarrow> string" where
  "action_text a =
     (if field a ''type'' = Some (JStr ''actuator_command'') then
        ''Turn '' @ js_string (field a ''actuator'') @ '' '' @
        (case field a ''value'' of Some (JBool b) \<Rightarrow> (if b then ''on'' else ''off'') | v \<Rightarrow> js_string v)
      else if field a ''type'' = Some (JStr ''email'') then
        email_text (case as_arr (field a ''to'') of Some xs \<Rightarrow> xs | None \<Rightarrow> [])
      else if field a ''type'' = Some (JStr ''webhook'') then ''Call a webhook''
      else if field a ''type'' = Some (JStr ''notification'') then ''Post a notification''
      else ''Unknown action'')"

definition actionsText :: "json list \<Rightarrow> string" where
  "actionsText actions =
     (if actions = [] then ''Nothing''
      else let parts = map action_text actions in
        if 2 < length parts then hd parts @ '' +'' @ nat_text (length parts - 1) @ '' more'' else join '', '' parts)"

section \<open>Shared actuators\<close>

definition commandTarget :: "stored_rule \<Rightarrow> json \<Rightarrow> string option" where
  "commandTarget rule action =
     (case field action ''device_id'' of
        Some (JStr d) \<Rightarrow> Some d
      | _ \<Rightarrow>
          (case List.find (\<lambda>d. dr_role d = ''target'') (sr_devices rule) of
             Some d \<Rightarrow> Some (dr_device_id d)
           | None \<Rightarrow> (case sr_devices rule of [] \<Rightarrow> None | d # _ \<Rightarrow> Some (dr_device_id d))))"

type_synonym by_key = "string list dict"

text \<open>\<open>new Set().add(x)\<close>.\<close>

definition set_add :: "string \<Rightarrow> string list \<Rightarrow> string list" where
  "set_add x xs = (if x \<in> set xs then xs else xs @ [x])"

definition command_key :: "string \<Rightarrow> string \<Rightarrow> string" where
  "command_key dev actuator = dev @ '':'' @ actuator"

definition note_command :: "stored_rule \<Rightarrow> string dict \<times> by_key \<Rightarrow> json \<Rightarrow> string dict \<times> by_key" where
  "note_command r acc a =
     (case acc of (keys, byKey) \<Rightarrow>
        if field a ''type'' \<noteq> Some (JStr ''actuator_command'') then acc
        else case commandTarget r a of
          None \<Rightarrow> acc
        | Some dev \<Rightarrow>
            if dev = [] then acc
            else let actuator = js_string (field a ''actuator''); key = command_key dev actuator in
              (dict_set key actuator keys,
               dict_set key (set_add (sr_id r) (case dict_get byKey key of Some s \<Rightarrow> s | None \<Rightarrow> [])) byKey))"

definition note_rule :: "by_key \<times> string dict dict \<Rightarrow> stored_rule \<Rightarrow> by_key \<times> string dict dict" where
  "note_rule acc r =
     (case acc of (byKey, keysByRule) \<Rightarrow>
        if \<not> sr_enabled r then acc
        else case foldl (note_command r) ([], byKey) (sr_actions r @ sr_clear_actions r) of
          (keys, byKey') \<Rightarrow> (byKey', dict_set (sr_id r) keys keysByRule))"

definition shared_keys :: "by_key \<Rightarrow> string dict \<Rightarrow> string list" where
  "shared_keys byKey keys =
     map snd (filter (\<lambda>(k, actuator). 1 < (case dict_get byKey k of Some s \<Rightarrow> length s | None \<Rightarrow> 0)) keys)"

definition sharedActuators :: "stored_rule list \<Rightarrow> string list dict" where
  "sharedActuators rules =
     (case foldl note_rule ([], []) rules of (byKey, keysByRule) \<Rightarrow>
        foldl (\<lambda>out (ruleId, keys).
            let shared = shared_keys byKey keys in if shared \<noteq> [] then dict_set ruleId (nub shared) out else out)
          [] keysByRule)"

section \<open>States\<close>

datatype rule_state_key = Armed_key | Latched_key | Rule_disabled_key

definition ruleStateKey :: "stored_rule \<Rightarrow> rule_state_key" where
  "ruleStateKey r = (if \<not> sr_enabled r then Rule_disabled_key else if sr_latched r then Latched_key else Armed_key)"

text \<open>Label, tone and dot shape.\<close>

definition RULE_STATE :: "rule_state_key \<Rightarrow> string \<times> string \<times> string" where
  "RULE_STATE k =
     (case k of
        Armed_key \<Rightarrow> (''Armed'', ''online'', ''solid'')
      | Latched_key \<Rightarrow> (''Latched'', ''pending'', ''square'')
      | Rule_disabled_key \<Rightarrow> (''Disabled'', ''unknown'', ''square''))"

definition triggerKindText :: "stored_rule \<Rightarrow> string" where
  "triggerKindText rule =
     (let t = field (sr_trigger rule) ''type'' in
      if t = Some (JStr ''metric'') \<or> \<not> truthy t then ''On each reading'' else triggerText rule)"

section \<open>What is shared\<close>

definition commands :: "stored_rule \<Rightarrow> (string \<times> string) list" where
  "commands r =
     concat (map (\<lambda>a. if field a ''type'' = Some (JStr ''actuator_command'')
                      then (case commandTarget r a of Some dev \<Rightarrow> if dev = [] then [] else [(dev, js_string (field a ''actuator''))] | None \<Rightarrow> [])
                      else [])
                (sr_actions r @ sr_clear_actions r))"

definition command_entry :: "string \<times> string \<Rightarrow> string \<times> string" where
  "command_entry c = (command_key (fst c) (snd c), snd c)"

definition add_owner :: "string \<Rightarrow> string \<Rightarrow> by_key \<Rightarrow> by_key" where
  "add_owner i key byKey = dict_set key (set_add i (case dict_get byKey key of Some s \<Rightarrow> s | None \<Rightarrow> [])) byKey"

lemma note_commands:
  "foldl (note_command r) (keys, byKey) as =
     (let cs = concat (map (\<lambda>a. if field a ''type'' = Some (JStr ''actuator_command'')
                      then (case commandTarget r a of Some dev \<Rightarrow> if dev = [] then [] else [(dev, js_string (field a ''actuator''))] | None \<Rightarrow> [])
                      else []) as)
      in (foldl (\<lambda>d c. dict_set (fst (command_entry c)) (snd c) d) keys cs,
          foldl (\<lambda>b c. add_owner (sr_id r) (fst (command_entry c)) b) byKey cs))"
  by (induction as arbitrary: keys byKey)
     (auto simp: note_command_def Let_def command_entry_def add_owner_def split: option.splits)

definition owners :: "by_key \<Rightarrow> string \<Rightarrow> string list" where
  "owners byKey key = (case dict_get byKey key of Some s \<Rightarrow> s | None \<Rightarrow> [])"

lemma owners_add: "owners (add_owner i key byKey) k = (if k = key then set_add i (owners byKey key) else owners byKey k)"
  by (simp add: owners_def add_owner_def)

lemma owners_adds:
  "distinct (owners byKey k) \<Longrightarrow>
   set (owners (foldl (\<lambda>b c. add_owner i (fst (command_entry c)) b) byKey cs) k) =
     set (owners byKey k) \<union> (if k \<in> fst ` command_entry ` set cs then {i} else {}) \<and>
   distinct (owners (foldl (\<lambda>b c. add_owner i (fst (command_entry c)) b) byKey cs) k)"
proof (induction cs arbitrary: byKey)
  case (Cons c cs)
  have "distinct (owners (add_owner i (fst (command_entry c)) byKey) k)"
    using Cons.prems by (auto simp: owners_add set_add_def)
  from Cons.IH [OF this] show ?case by (auto simp: owners_add set_add_def)
qed simp

lemma dict_set_members: "(\<And>v'. (k, v') \<in> set d \<Longrightarrow> v' = v) \<Longrightarrow> set (dict_set k v d) = insert (k, v) (set d)"
  by (induction d) (auto split: if_splits)

lemma set_dict_sets:
  "(\<And>k v v'. (k, v) \<in> set d \<union> set es \<Longrightarrow> (k, v') \<in> set d \<union> set es \<Longrightarrow> v = v') \<Longrightarrow>
   set (foldl (\<lambda>d e. dict_set (fst e) (snd e) d) d es) = set d \<union> set es"
proof (induction es arbitrary: d)
  case (Cons e es)
  obtain k v where e: "e = (k, v)" by fastforce
  have "v' = v" if "(k, v') \<in> set d" for v' using Cons.prems [of k v' v] that e by simp
  then have s: "set (dict_set k v d) = insert (k, v) (set d)" by (rule dict_set_members)
  have "set (foldl (\<lambda>d e. dict_set (fst e) (snd e) d) (dict_set k v d) es) = set (dict_set k v d) \<union> set es"
    using Cons.prems by (intro Cons.IH) (auto simp: s e)
  then show ?case by (simp add: e s)
qed simp

definition rule_keys :: "stored_rule \<Rightarrow> string dict" where
  "rule_keys r = foldl (\<lambda>d e. dict_set (fst e) (snd e) d) [] (map command_entry (commands r))"

definition plain_targets :: "stored_rule \<Rightarrow> bool" where
  "plain_targets r \<longleftrightarrow> list_all (\<lambda>c. CHR '':'' \<notin> set (fst c)) (commands r)"

lemma command_key_inj:
  "CHR '':'' \<notin> set d \<Longrightarrow> CHR '':'' \<notin> set d' \<Longrightarrow> command_key d a = command_key d' a' \<longleftrightarrow> d = d' \<and> a = a'"
proof -
  assume n: "CHR '':'' \<notin> set d" "CHR '':'' \<notin> set d'"
  have tw: "takeWhile (\<lambda>c. c \<noteq> CHR '':'') (command_key e b) = e" if "CHR '':'' \<notin> set e" for e b
  proof -
    have "takeWhile (\<lambda>c. c \<noteq> CHR '':'') (e @ CHR '':'' # b) = e @ takeWhile (\<lambda>c. c \<noteq> CHR '':'') (CHR '':'' # b)"
      using that by (intro takeWhile_append2) auto
    then show ?thesis by (simp add: command_key_def)
  qed
  show ?thesis
  proof
    assume e: "command_key d a = command_key d' a'"
    then have "d = d'" using tw [OF n(1), of a] tw [OF n(2), of a'] by metis
    then show "d = d' \<and> a = a'" using e by (simp add: command_key_def)
  qed simp
qed

lemma plain_dev: "plain_targets r \<Longrightarrow> (dev, a) \<in> set (commands r) \<Longrightarrow> CHR '':'' \<notin> set dev"
  by (auto simp: plain_targets_def list_all_iff)

lemma rule_keys_set:
  assumes "plain_targets r"
  shows "set (rule_keys r) = command_entry ` set (commands r)"
proof -
  have "v = v'" if kv: "(k, v) \<in> set (map command_entry (commands r))" "(k, v') \<in> set (map command_entry (commands r))" for k v v'
  proof -
    obtain d d' where "(d, v) \<in> set (commands r)" "k = command_key d v" "(d', v') \<in> set (commands r)" "k = command_key d' v'"
      using kv by (auto simp: command_entry_def)
    then show ?thesis using plain_dev [OF assms] command_key_inj by metis
  qed
  then show ?thesis unfolding rule_keys_def by (subst set_dict_sets) auto
qed

lemma note_rule_eq:
  "note_rule (byKey, kbr) r =
     (if \<not> sr_enabled r then (byKey, kbr)
      else (foldl (\<lambda>b c. add_owner (sr_id r) (fst (command_entry c)) b) byKey (commands r), dict_set (sr_id r) (rule_keys r) kbr))"
proof -
  have "foldl (\<lambda>d c. dict_set (fst (command_entry c)) (snd c) d) [] cs =
      foldl (\<lambda>d e. dict_set (fst e) (snd e) d) [] (map command_entry cs)" for cs
    by (simp add: foldl_map command_entry_def)
  then show ?thesis
    by (simp only: note_rule_def prod.case note_commands Let_def commands_def [symmetric] rule_keys_def [symmetric] cong: if_cong)
qed

definition noted :: "stored_rule list \<Rightarrow> by_key \<Rightarrow> string dict dict \<Rightarrow> bool" where
  "noted rules byKey kbr \<longleftrightarrow>
     (\<forall>k. distinct (owners byKey k) \<and>
          set (owners byKey k) = {sr_id r |r. r \<in> set rules \<and> sr_enabled r \<and> k \<in> fst ` command_entry ` set (commands r)}) \<and>
     distinct (map fst kbr) \<and> fst ` set kbr \<subseteq> sr_id ` set rules \<and>
     (\<forall>r\<in>set rules. dict_get kbr (sr_id r) = (if sr_enabled r then Some (rule_keys r) else None))"

lemma noted_fold:
  "distinct (map sr_id rules) \<Longrightarrow> noted rules (fst (foldl note_rule ([], []) rules)) (snd (foldl note_rule ([], []) rules))"
proof (induction rules rule: rev_induct)
  case Nil
  show ?case by (simp add: noted_def owners_def)
next
  case (snoc r rules)
  obtain byKey kbr where f: "foldl note_rule ([], []) rules = (byKey, kbr)" by fastforce
  have n: "noted rules byKey kbr" using snoc by (simp add: f)
  have new: "sr_id r \<notin> sr_id ` set rules" using snoc.prems by simp
  show ?case
  proof (cases "sr_enabled r")
    case False
    have "dict_get kbr (sr_id r) = None" using n new dict_has_iff [of kbr "sr_id r"] unfolding noted_def by auto
    then show ?thesis using n False by (auto simp: f note_rule_eq noted_def)
  next
    case True
    let ?b = "foldl (\<lambda>b c. add_owner (sr_id r) (fst (command_entry c)) b) byKey (commands r)"
    have b: "distinct (owners ?b k) \<and> set (owners ?b k) = set (owners byKey k) \<union> (if k \<in> fst ` command_entry ` set (commands r) then {sr_id r} else {})" for k
      using owners_adds [of byKey k "sr_id r" "commands r"] n by (simp add: noted_def)
    have keys: "fst ` set (dict_set (sr_id r) (rule_keys r) kbr) = insert (sr_id r) (fst ` set kbr)" by (simp add: dom_update)
    have own: "set (owners ?b k) = {sr_id r' |r'. r' \<in> set (rules @ [r]) \<and> sr_enabled r' \<and> k \<in> fst ` command_entry ` set (commands r')}" for k
      using b [of k] n True unfolding noted_def by auto
    have ids: "sr_id r' \<noteq> sr_id r" if "r' \<in> set rules" for r' using that new by (metis image_eqI)
    have get: "dict_get (dict_set (sr_id r) (rule_keys r) kbr) (sr_id r') = (if sr_enabled r' then Some (rule_keys r') else None)"
      if "r' \<in> set (rules @ [r])" for r'
      using that ids [of r'] n True by (auto simp: noted_def)
    have d: "distinct (map fst (dict_set (sr_id r) (rule_keys r) kbr))" using n by (simp add: noted_def distinct_update)
    have sub: "fst ` set (dict_set (sr_id r) (rule_keys r) kbr) \<subseteq> sr_id ` set (rules @ [r])"
      unfolding keys using n by (auto simp: noted_def)
    have st: "foldl note_rule ([], []) (rules @ [r]) = (?b, dict_set (sr_id r) (rule_keys r) kbr)"
      by (simp add: f note_rule_eq True)
    show ?thesis unfolding st fst_conv snd_conv noted_def using b own get d sub by blast
  qed
qed

lemma out_fold:
  "distinct (map fst kbr) \<Longrightarrow>
   dict_get (foldl (\<lambda>out (ruleId, keys).
       let shared = shared_keys byKey keys in if shared \<noteq> [] then dict_set ruleId (nub shared) out else out) out kbr) i =
     (case dict_get kbr i of
        None \<Rightarrow> dict_get out i
      | Some keys \<Rightarrow> if shared_keys byKey keys \<noteq> [] then Some (nub (shared_keys byKey keys)) else dict_get out i)"
proof (induction kbr arbitrary: out)
  case (Cons e kbr)
  obtain j keys where e: "e = (j, keys)" by fastforce
  have "dict_get kbr j = None" using Cons.prems by (simp add: e map_of_eq_None_iff)
  then show ?case using Cons by (auto simp: e Let_def split: option.split)
qed simp

lemma two_in_list: "distinct xs \<Longrightarrow> x \<in> set xs \<Longrightarrow> 1 < length xs \<longleftrightarrow> (\<exists>y\<in>set xs. y \<noteq> x)"
  by (cases xs rule: remdups_adj.cases) auto

lemma command_entry_image: "(k, a) \<in> command_entry ` S \<longleftrightarrow> (\<exists>dev. (dev, a) \<in> S \<and> k = command_key dev a)"
  by (force simp: command_entry_def image_iff)

lemma shared_keys_iff: "a \<in> set (shared_keys byKey keys) \<longleftrightarrow> (\<exists>k. (k, a) \<in> set keys \<and> 1 < length (owners byKey k))"
proof -
  have "length (owners byKey k) = (case dict_get byKey k of Some s \<Rightarrow> length s | None \<Rightarrow> 0)" for k
    by (simp add: owners_def split: option.split)
  then show ?thesis by (auto simp: shared_keys_def image_iff)
qed

definition shared_of :: "stored_rule list \<Rightarrow> stored_rule \<Rightarrow> string list" where
  "shared_of rules r = (case dict_get (sharedActuators rules) (sr_id r) of Some xs \<Rightarrow> xs | None \<Rightarrow> [])"

text \<open>For a rule of the list, the actuators reported as shared are, without repeats, exactly
  those it commands on a device on which another enabled rule commands the same actuator, and
  none when the rule itself is disabled; a command counts on the way up and on clearing.\<close>

theorem shared_actuators_exact:
  assumes "distinct (map sr_id rules)" "list_all plain_targets rules" "r \<in> set rules"
  shows "distinct (shared_of rules r) \<and>
    (a \<in> set (shared_of rules r) \<longleftrightarrow>
       sr_enabled r \<and> list_ex (\<lambda>(dev, actuator). actuator = a \<and>
         list_ex (\<lambda>r'. sr_id r' \<noteq> sr_id r \<and> sr_enabled r' \<and> (dev, a) \<in> set (commands r')) rules) (commands r))"
proof -
  obtain byKey kbr where f: "foldl note_rule ([], []) rules = (byKey, kbr)" by fastforce
  have n: "noted rules byKey kbr" using noted_fold [OF assms(1)] by (simp add: f)
  have get: "dict_get kbr (sr_id r) = (if sr_enabled r then Some (rule_keys r) else None)"
    using n assms(3) by (simp add: noted_def)
  have sh: "shared_of rules r = (if sr_enabled r then nub (shared_keys byKey (rule_keys r)) else [])"
    using out_fold [of kbr byKey "[]" "sr_id r"] n get by (auto simp: shared_of_def sharedActuators_def f noted_def)
  show ?thesis
  proof (cases "sr_enabled r")
    case False
    then show ?thesis by (simp add: sh)
  next
    case True
    have plain: "plain_targets r'" if "r' \<in> set rules" for r' using assms(2) that by (simp add: list_all_iff)
    have many: "1 < length (owners byKey k) \<longleftrightarrow> (\<exists>i\<in>set (owners byKey k). i \<noteq> sr_id r)" if "sr_id r \<in> set (owners byKey k)" for k
      using n that by (intro two_in_list) (simp_all add: noted_def)
    have mem: "sr_id r' \<in> set (owners byKey (command_key dev a)) \<longleftrightarrow> sr_enabled r' \<and> (dev, a) \<in> set (commands r')"
      if "r' \<in> set rules" "CHR '':'' \<notin> set dev" for r' dev
    proof -
      have "command_key dev a \<in> fst ` command_entry ` set (commands r') \<longleftrightarrow> (dev, a) \<in> set (commands r')"
        using plain [OF that(1)] that(2) by (force simp: command_entry_def plain_targets_def list_all_iff command_key_inj)
      moreover have "r'' = r'" if "r'' \<in> set rules" "sr_id r'' = sr_id r'" for r''
        using assms(1) that \<open>r' \<in> set rules\<close> by (metis distinct_map inj_onD)
      ultimately show ?thesis using n that(1) unfolding noted_def by fastforce
    qed
    have "a \<in> set (shared_keys byKey (rule_keys r)) \<longleftrightarrow>
        (\<exists>dev. (dev, a) \<in> set (commands r) \<and> 1 < length (owners byKey (command_key dev a)))"
      unfolding shared_keys_iff rule_keys_set [OF plain [OF assms(3)]] command_entry_image by blast
    also have "\<dots> \<longleftrightarrow> (\<exists>dev. (dev, a) \<in> set (commands r) \<and>
        (\<exists>r'\<in>set rules. sr_id r' \<noteq> sr_id r \<and> sr_enabled r' \<and> (dev, a) \<in> set (commands r')))"
    proof -
      have "1 < length (owners byKey (command_key dev a)) \<longleftrightarrow>
          (\<exists>r'\<in>set rules. sr_id r' \<noteq> sr_id r \<and> sr_enabled r' \<and> (dev, a) \<in> set (commands r'))" if "(dev, a) \<in> set (commands r)" for dev
      proof -
        have nc: "CHR '':'' \<notin> set dev" using plain [OF assms(3)] that by (auto simp: plain_targets_def list_all_iff)
        have "sr_id r \<in> set (owners byKey (command_key dev a))" using mem [OF assms(3) nc] True that by simp
        from many [OF this] show ?thesis
        proof -
          assume m: "1 < length (owners byKey (command_key dev a)) \<longleftrightarrow> (\<exists>i\<in>set (owners byKey (command_key dev a)). i \<noteq> sr_id r)"
          have from_rule: "\<exists>r'\<in>set rules. i = sr_id r'" if "i \<in> set (owners byKey (command_key dev a))" for i
            using that n unfolding noted_def by blast
          show ?thesis unfolding m
          proof
            assume "\<exists>i\<in>set (owners byKey (command_key dev a)). i \<noteq> sr_id r"
            then obtain r' where "r' \<in> set rules" "sr_id r' \<in> set (owners byKey (command_key dev a))" "sr_id r' \<noteq> sr_id r"
              using from_rule by auto
            then show "\<exists>r'\<in>set rules. sr_id r' \<noteq> sr_id r \<and> sr_enabled r' \<and> (dev, a) \<in> set (commands r')"
              using mem [of r'] nc by blast
          next
            assume "\<exists>r'\<in>set rules. sr_id r' \<noteq> sr_id r \<and> sr_enabled r' \<and> (dev, a) \<in> set (commands r')"
            then show "\<exists>i\<in>set (owners byKey (command_key dev a)). i \<noteq> sr_id r" using mem nc by blast
          qed
        qed
      qed
      then show ?thesis by blast
    qed
    finally show ?thesis using True by (auto simp: sh list_ex_iff)
  qed
qed

definition demo_rule :: "string \<Rightarrow> bool \<Rightarrow> stored_rule" where
  "demo_rule i on =
     \<lparr>sr_id = i, sr_enabled = on, sr_latched = False, sr_trigger = JObj [(''type'', JStr ''metric'')], sr_condition = None,
      sr_devices = [\<lparr>dr_device_id = ''dev1'', dr_role = ''target'', dr_device_name = ''bay1''\<rparr>],
      sr_actions = [JObj [(''type'', JStr ''actuator_command''), (''actuator'', JStr ''fan1''), (''value'', JBool on)]],
      sr_clear_actions = []\<rparr>"

lemma shared_actuators_exact_witness:
  "''fan1'' \<in> set (shared_of [demo_rule ''a'' True, demo_rule ''b'' True, demo_rule ''c'' False] (demo_rule ''a'' True)) \<and>
   ''fan1'' \<notin> set (shared_of [demo_rule ''a'' True, demo_rule ''b'' True, demo_rule ''c'' False] (demo_rule ''c'' False))"
proof -
  have c: "commands (demo_rule i on) = [(''dev1'', ''fan1'')]" for i on
    by (simp add: commands_def demo_rule_def commandTarget_def js_string_def)
  have f: "sr_id (demo_rule i on) = i" "sr_enabled (demo_rule i on) = on" for i on by (simp_all add: demo_rule_def)
  show ?thesis
    using shared_actuators_exact [of "[demo_rule ''a'' True, demo_rule ''b'' True, demo_rule ''c'' False]" "demo_rule ''a'' True" "''fan1''"]
      shared_actuators_exact [of "[demo_rule ''a'' True, demo_rule ''b'' True, demo_rule ''c'' False]" "demo_rule ''c'' False" "''fan1''"]
    by (simp add: plain_targets_def c f)
qed

end
