(* ===== verification/Device_Config.thy ===== *)
theory Device_Config
  imports Config_Blob Wire Hardware_Draft
begin

text \<open>
  The config a device is installed with (frontend/src/lib/hardware/device-config.ts) and the board's
  checks when it starts (loadConfig of firmware/src/config.cpp). ArduinoJson's \<open>obj[key] | d\<close> is the
  value when it has the type of \<open>d\<close>, else \<open>d\<close>; the base64 decoder and the chip's Bluetooth support are
  parameters.
\<close>

section \<open>Building the config\<close>

definition b64_char :: "nat \<Rightarrow> char" where
  "b64_char n = ''ABCDEFGHIJKLMNOPQRSTUVWXYZabcdefghijklmnopqrstuvwxyz0123456789+/'' ! (n mod 64)"

fun base64 :: "byte list \<Rightarrow> string" where
  "base64 [] = []"
| "base64 [a] = [b64_char (unat a div 4), b64_char (unat a mod 4 * 16), CHR ''='', CHR ''='']"
| "base64 [a, b] =
     [b64_char (unat a div 4), b64_char (unat a mod 4 * 16 + unat b div 16), b64_char (unat b mod 16 * 4), CHR ''='']"
| "base64 (a # b # c # rest) =
     [b64_char (unat a div 4), b64_char (unat a mod 4 * 16 + unat b div 16),
      b64_char (unat b mod 16 * 4 + unat c div 64), b64_char (unat c)] @ base64 rest"

datatype provisioning = Security1 | Security2 "byte list" "byte list"

record wifi_login =
  wl_ssid :: string
  wl_password :: string

record device_config_input =
  di_tenantSlug :: string
  di_slug :: string
  di_name :: string
  di_metrics :: "catalog_metric list"
  di_actuators :: "catalog_actuator list"
  di_wiring :: hardware_config
  di_model :: board_model
  di_host :: string
  di_tls :: bool
  di_username :: string
  di_password :: string
  di_wifi :: "wifi_login option"
  di_provisioning :: provisioning

definition jnat :: "nat \<Rightarrow> json" where
  "jnat n = JNum (Fin (of_nat n))"

fun led_name :: "led_type \<Rightarrow> string" where
  "led_name Gpio_led = ''gpio''"
| "led_name Rgb_led = ''rgb''"
| "led_name No_led = ''none''"

fun publish_name :: "publish_mode \<Rightarrow> string" where
  "publish_name Periodic = ''periodic''"
| "publish_name On_change = ''on_change''"
| "publish_name Streaming = ''streaming''"

fun json_param :: "param_value \<Rightarrow> json" where
  "json_param (PNum n) = JNum n"
| "json_param (PBool b) = JBool b"
| "json_param (PStr s) = JStr s"

definition value_type_text :: "value_type \<Rightarrow> string" where
  "value_type_text t = (case t of BoolV \<Rightarrow> ''bool'' | FloatV \<Rightarrow> ''float'' | StringV \<Rightarrow> ''string'')"

definition metric_config :: "catalog_metric \<Rightarrow> json" where
  "metric_config m =
     JObj ([(''key'', JStr (metric_id m))] @
           (if cm_data_type m = BoolD then [(''bool'', JBool True)] else []) @
           [(''publish'', JStr (publish_name (cm_publish m)))] @
           (case cm_interval m of Some n \<Rightarrow> if n = NaN \<or> n = Fin 0 then [] else [(''interval_s'', JNum n)] | None \<Rightarrow> []) @
           (case cm_deadband m of Some n \<Rightarrow> [(''deadband'', JNum n)] | None \<Rightarrow> []))"

definition actuator_config :: "catalog_actuator \<Rightarrow> json" where
  "actuator_config a = JObj [(''key'', JStr (actuator_id a)), (''type'', JStr (value_type_text (ca_value_type a)))]"

definition binding_config :: "hardware_binding \<Rightarrow> json" where
  "binding_config b =
     JObj [(''driver'', JStr (hb_driver b)),
           (''pins'', JObj (map (\<lambda>(k, p). (k, jnat p)) (default_nil (hb_pins b)))),
           (''params'', JObj (map (\<lambda>(k, v). (k, json_param v)) (default_nil (hb_params b)))),
           (''channels'', JObj (map (\<lambda>(k, c). (k, JStr c)) (default_nil (hb_channels b))))]"

definition prov_config :: "(string \<Rightarrow> string) \<Rightarrow> device_config_input \<Rightarrow> json" where
  "prov_config ascii i =
     JObj ([(''name'', JStr (provName ascii (di_name i))),
            (''security'', jnat (case di_provisioning i of Security1 \<Rightarrow> 1 | Security2 _ _ \<Rightarrow> 2))] @
           (case di_provisioning i of Security1 \<Rightarrow> []
            | Security2 salt verifier \<Rightarrow> [(''salt'', JStr (base64 salt)), (''verifier'', JStr (base64 verifier))]))"

definition board_io_config :: "board_model \<Rightarrow> json" where
  "board_io_config m =
     JObj [(''reset_pin'', jnat (m_reset_pin m)),
           (''led'', JObj [(''type'', JStr (led_name (case led_type (m_led m) of Some t \<Rightarrow> t | None \<Rightarrow> Gpio_led))),
                           (''pin'', jnat (led_pin (m_led m))), (''active_low'', JBool (led_active_low (m_led m)))])]"

definition buildFirmwareConfig :: "(string \<Rightarrow> string) \<Rightarrow> device_config_input \<Rightarrow> json" where
  "buildFirmwareConfig ascii i =
     JObj ([(''v'', jnat 1), (''board'', JStr (chip_name (m_chip (di_model i)))), (''model'', JStr (m_id (di_model i))),
            (''device'', JObj [(''tenant'', JStr (di_tenantSlug i)), (''device'', JStr (di_slug i))]),
            (''mqtt'', JObj [(''host'', JStr (di_host i)), (''port'', jnat (if di_tls i then 8883 else 1883)),
                             (''tls'', JBool (di_tls i)), (''username'', JStr (di_username i)), (''password'', JStr (di_password i))]),
            (''prov'', prov_config ascii i)] @
           (case di_wifi i of Some w \<Rightarrow> [(''wifi'', JObj [(''ssid'', JStr (wl_ssid w)), (''password'', JStr (wl_password w))])]
            | None \<Rightarrow> []) @
           (case hw_i2c (di_wiring i) of
              Some b \<Rightarrow> [(''i2c'', JObj [(''sda'', jnat (i2c_sda b)), (''scl'', jnat (i2c_scl b))])] | None \<Rightarrow> []) @
           [(''board_io'', board_io_config (di_model i)),
            (''metrics'', JArr (map metric_config (di_metrics i))),
            (''actuators'', JArr (map actuator_config (di_actuators i))),
            (''inputs'', JArr (map binding_config (default_nil (hw_inputs (di_wiring i))))),
            (''outputs'', JArr (map binding_config (default_nil (hw_outputs (di_wiring i)))))])"

definition brokerHostProblem :: "string \<Rightarrow> string option" where
  "brokerHostProblem host =
     (let h = lower_case (trim host) in
      if h = [] then Some ''Enter the broker's address.''
      else if h \<in> {''localhost'', ''::1'', ''[::1]''} \<or> starts_with h ''127.''
      then Some ''The board can't reach localhost. Enter this computer's address on your network, e.g. 192.168.1.82.''
      else None)"

section \<open>Loading it on the board\<close>

record device_config =
  dc_tenant :: string
  dc_device :: string
  dc_model :: string
  dc_host :: string
  dc_username :: string
  dc_password :: string
  dc_tls :: bool
  dc_port :: jsnum
  dc_wifi :: "wifi_login option"
  dc_provName :: string
  dc_security :: nat
  dc_sec2 :: "(byte list \<times> byte list) option"
  dc_i2c :: "jsnum \<times> jsnum"
  dc_reset :: jsnum
  dc_led :: "led_type \<times> jsnum \<times> bool"
  dc_metrics :: "json option"
  dc_actuators :: "json option"
  dc_inputs :: "json option"
  dc_outputs :: "json option"

definition member :: "json option \<Rightarrow> string \<Rightarrow> json option" where
  "member j k = (case j of Some v \<Rightarrow> field v k | None \<Rightarrow> None)"

definition text_of :: "json option \<Rightarrow> string \<Rightarrow> string" where
  "text_of j d = (case j of Some (JStr s) \<Rightarrow> s | _ \<Rightarrow> d)"

definition number_of :: "json option \<Rightarrow> jsnum \<Rightarrow> jsnum" where
  "number_of j d = (case j of Some (JNum n) \<Rightarrow> n | _ \<Rightarrow> d)"

definition flag_of :: "json option \<Rightarrow> bool \<Rightarrow> bool" where
  "flag_of j d = (case j of Some (JBool b) \<Rightarrow> b | _ \<Rightarrow> d)"

definition requireText :: "json option \<Rightarrow> string \<Rightarrow> string \<Rightarrow> string + string" where
  "requireText obj key owner =
     (let t = text_of (member obj key) [] in if t \<noteq> [] then Inr t else Inl (''missing '' @ owner @ ''.'' @ key))"

definition and_then :: "'e + 'a \<Rightarrow> ('a \<Rightarrow> 'e + 'b) \<Rightarrow> 'e + 'b" where
  "and_then r f = (case r of Inl e \<Rightarrow> Inl e | Inr a \<Rightarrow> f a)"

text \<open>What is no object is null as a \<open>JsonObjectConst\<close>.\<close>

definition is_object :: "json option \<Rightarrow> bool" where
  "is_object j = (case j of Some (JObj kvs) \<Rightarrow> True | _ \<Rightarrow> False)"

definition load_wifi :: "json option \<Rightarrow> string + wifi_login option" where
  "load_wifi wifi =
     (if is_object wifi
      then and_then (requireText wifi ''ssid'' ''wifi'') (\<lambda>ssid.
             Inr (Some \<lparr>wl_ssid = ssid, wl_password = text_of (member wifi ''password'') []\<rparr>))
      else Inr None)"

definition load_sec2 :: "(string \<Rightarrow> byte list option) \<Rightarrow> json option \<Rightarrow> string + (byte list \<times> byte list) option" where
  "load_sec2 decode prov =
     (case (decode (text_of (member prov ''salt'') []), decode (text_of (member prov ''verifier'') [])) of
        (Some s, Some v) \<Rightarrow> if s \<noteq> [] \<and> v \<noteq> [] then Inr (Some (s, v)) else Inl ''Security 2 needs prov.salt and prov.verifier (base64)''
      | _ \<Rightarrow> Inl ''Security 2 needs prov.salt and prov.verifier (base64)'')"

definition load_led :: "led_type \<times> jsnum \<times> bool \<Rightarrow> json option \<Rightarrow> string + (led_type \<times> jsnum \<times> bool)" where
  "load_led defaults led =
     (if \<not> is_object led then Inr defaults
      else let t = text_of (member led ''type'') ''gpio'' in
        if t \<notin> {''gpio'', ''rgb'', ''none''} then Inl ''board_io.led.type must be gpio, rgb or none''
        else let ty = (if t = ''gpio'' then Gpio_led else if t = ''rgb'' then Rgb_led else No_led);
                 pin = (if ty = No_led then Fin (- 1) else number_of (member led ''pin'') (Fin (- 1)))
             in if ty \<noteq> No_led \<and> js_lt pin (Fin 0) then Inl ''board_io.led needs a pin''
                else Inr (ty, pin, flag_of (member led ''active_low'') False))"

text \<open>The chip's own constants (firmware/src/board.h): its id, and the reset pin and LED it defaults to.\<close>

record chip_build =
  cb_id :: string
  cb_bluetooth :: bool
  cb_reset :: jsnum
  cb_led :: "led_type \<times> jsnum \<times> bool"

definition loadConfig :: "(string \<Rightarrow> byte list option) \<Rightarrow> chip_build \<Rightarrow> json \<Rightarrow> string + device_config" where
  "loadConfig decode chip cfg =
     (let r = member (Some cfg); board = text_of (r ''board'') [] in
      if number_of (r ''v'') (Fin 0) \<noteq> Fin 1 then Inl ''unsupported config version''
      else if board \<noteq> cb_id chip
      then Inl (''this config is for '' @ (if board \<noteq> [] then board else ''another board'') @ '', but this board is '' @ cb_id chip)
      else and_then (requireText (r ''device'') ''tenant'' ''device'') (\<lambda>tenant.
           and_then (requireText (r ''device'') ''device'' ''device'') (\<lambda>device.
           and_then (requireText (r ''mqtt'') ''host'' ''mqtt'') (\<lambda>host.
           and_then (requireText (r ''mqtt'') ''username'' ''mqtt'') (\<lambda>username.
           and_then (requireText (r ''mqtt'') ''password'' ''mqtt'') (\<lambda>password.
           and_then (load_wifi (r ''wifi'')) (\<lambda>wifi.
           if \<not> cb_bluetooth chip \<and> wifi = None
           then Inl ''this board has no Bluetooth, so its Wi-Fi can't come from a phone: install the config with the Wi-Fi typed in''
           else let tls = flag_of (member (r ''mqtt'') ''tls'') False;
                    sec = number_of (member (r ''prov'') ''security'') (Fin 1) in
           if sec \<noteq> Fin 1 \<and> sec \<noteq> Fin 2 then Inl ''prov.security must be 1 or 2''
           else and_then (if wifi = None \<and> sec = Fin 2 then load_sec2 decode (r ''prov'') else Inr None) (\<lambda>sec2.
           and_then (load_led (cb_led chip) (member (r ''board_io'') ''led'')) (\<lambda>led.
           Inr \<lparr>dc_tenant = tenant, dc_device = device, dc_model = text_of (r ''model'') [], dc_host = host,
                dc_username = username, dc_password = password, dc_tls = tls,
                dc_port = number_of (member (r ''mqtt'') ''port'') (Fin (if tls then 8883 else 1883)),
                dc_wifi = wifi, dc_provName = text_of (member (r ''prov'') ''name'') device,
                dc_security = (if sec = Fin 2 then 2 else 1), dc_sec2 = sec2,
                dc_i2c = (number_of (member (r ''i2c'') ''sda'') (Fin (- 1)), number_of (member (r ''i2c'') ''scl'') (Fin (- 1))),
                dc_reset = number_of (member (r ''board_io'') ''reset_pin'') (cb_reset chip), dc_led = led,
                dc_metrics = r ''metrics'', dc_actuators = r ''actuators'', dc_inputs = r ''inputs'', dc_outputs = r ''outputs''\<rparr>)))))))))"

text \<open>The board starts: it reads its partition and loads the config it finds.\<close>

definition boot :: "(string \<Rightarrow> json option) \<Rightarrow> (string \<Rightarrow> byte list option) \<Rightarrow> chip_build \<Rightarrow> byte list \<Rightarrow> string + device_config" where
  "boot deserialize decode chip part = and_then (read_blob deserialize part) (loadConfig decode chip)"

end
