(* ===== verification/Controls.thy ===== *)
theory Controls imports Rule_Text Device_Config Readings Api_Client begin

text \<open>
  Commanding an actuator by hand: what a control offers and accepts
  (\<open>frontend/src/lib/actuator-command.ts\<close>), which actuators a device has
  (\<open>frontend/src/lib/device-actuators.ts\<close>), and the row that sends a command and waits for it to be
  written (\<open>frontend/src/components/actuators/ActuatorControl.tsx\<close>).  A command value is JSON.  The
  answers of the confirm dialog, of the POST and of every poll are arguments of \<open>send_value\<close>, whose
  result is the sequence of states the row shows, with what was posted and how often it polled.
\<close>

section \<open>actuator-command.ts\<close>

datatype control_kind = Switch_control | Choices_control | Number_control | Text_control

definition controlKind :: "catalog_actuator option \<Rightarrow> control_kind" where
  "controlKind def =
     (case def of
        None \<Rightarrow> Switch_control
      | Some a \<Rightarrow>
          if ca_value_type a = BoolV then Switch_control
          else if (case ca_allowed a of Some vs \<Rightarrow> vs \<noteq> [] | None \<Rightarrow> False) then Choices_control
          else if ca_value_type a = FloatV then Number_control else Text_control)"

record command_range =
  cr_min :: jsnum
  cr_max :: jsnum
  cr_unit :: "string option"

text \<open>\<open>Math.min\<close> and \<open>Math.max\<close> of two numbers.\<close>

definition math_min :: "jsnum \<Rightarrow> jsnum \<Rightarrow> jsnum" where
  "math_min a b = (if a = NaN \<or> b = NaN then NaN else if js_lt b a then b else a)"

definition math_max :: "jsnum \<Rightarrow> jsnum \<Rightarrow> jsnum" where
  "math_max a b = (if a = NaN \<or> b = NaN then NaN else if js_lt a b then b else a)"

definition span_of :: "jsnum \<Rightarrow> jsnum \<Rightarrow> string option \<Rightarrow> command_range" where
  "span_of a b unit = \<lparr>cr_min = math_min a b, cr_max = math_max a b, cr_unit = unit\<rparr>"

definition drives :: "string \<Rightarrow> hardware_binding \<Rightarrow> bool" where
  "drives actuatorId b \<longleftrightarrow> actuatorId \<in> set (map snd (default_nil (hb_channels b)))"

definition range_num :: "hardware_binding \<Rightarrow> string \<Rightarrow> rat \<Rightarrow> jsnum" where
  "range_num b key fallback =
     (case dict_get (default_nil (hb_params b)) key of Some (PNum v) \<Rightarrow> v | _ \<Rightarrow> Fin fallback)"

definition commandRange :: "hardware_config option \<Rightarrow> string \<Rightarrow> command_range option" where
  "commandRange wiring actuatorId =
     (case Option.bind wiring (\<lambda>w. List.find (drives actuatorId) (default_nil (hw_outputs w))) of
        None \<Rightarrow> None
      | Some b \<Rightarrow>
          if hb_driver b = ''pwm'' then Some (span_of (range_num b ''in_min'' 0) (range_num b ''in_max'' 100) None)
          else if hb_driver b = ''servo'' then Some (span_of (range_num b ''min_angle'' 0) (range_num b ''max_angle'' 180) (Some degree))
          else None)"

definition range_unit :: "command_range \<Rightarrow> string" where
  "range_unit r = (case cr_unit r of Some u \<Rightarrow> u | None \<Rightarrow> [])"

definition outside :: "jsnum \<Rightarrow> command_range \<Rightarrow> bool" where
  "outside n r \<longleftrightarrow> js_lt n (cr_min r) \<or> js_lt (cr_max r) n"

definition parseCommand :: "string \<Rightarrow> control_kind \<Rightarrow> command_range option \<Rightarrow> string + json" where
  "parseCommand text kind rng =
     (let raw = trim text; n = to_number raw in
      if raw = [] then Inl ''Enter a value.''
      else if kind = Text_control then Inr (JStr raw)
      else if \<not> is_finite n then Inl ''Enter a number.''
      else case rng of
        Some r \<Rightarrow>
          if outside n r
          then Inl (''Between '' @ number_text (cr_min r) @ '' and '' @ number_text (cr_max r) @ range_unit r @ ''.'')
          else Inr (JNum n)
      | None \<Rightarrow> Inr (JNum n))"

definition isRequested :: "json \<Rightarrow> json option \<Rightarrow> bool" where
  "isRequested next requested \<longleftrightarrow>
     (case requested of None \<Rightarrow> False | Some r \<Rightarrow> r \<noteq> JNull \<and> stringify [] next = stringify [] r)"

section \<open>device-actuators.ts\<close>

definition note_declared :: "string dict \<Rightarrow> catalog_actuator \<Rightarrow> string dict" where
  "note_declared options a =
     (if dict_has options (actuator_id a) then options else dict_set (actuator_id a) (ca_name a) options)"

definition here :: "string \<Rightarrow> json \<Rightarrow> bool" where
  "here deviceId raw \<longleftrightarrow> nullish (field raw ''device_id'') \<or> field raw ''device_id'' = Some (JStr deviceId)"

definition commanded :: "string \<Rightarrow> json \<Rightarrow> string option" where
  "commanded deviceId raw =
     (if field raw ''type'' = Some (JStr ''actuator_command'') \<and> here deviceId raw
      then as_str (field raw ''actuator'') else None)"

definition note_commanded :: "string \<Rightarrow> string dict \<Rightarrow> json \<Rightarrow> string dict" where
  "note_commanded deviceId options raw =
     (case commanded deviceId raw of
        None \<Rightarrow> options
      | Some a \<Rightarrow> if dict_has options a then options else dict_set a a options)"

definition getDeviceActuators :: "catalog_actuator list \<Rightarrow> stored_rule list \<Rightarrow> string \<Rightarrow> string dict" where
  "getDeviceActuators declared rules deviceId =
     foldl (\<lambda>options rule. foldl (note_commanded deviceId) options (sr_actions rule))
       (foldl note_declared [] declared) rules"

section \<open>The value field\<close>

definition formatValue :: "json option \<Rightarrow> string option \<Rightarrow> string" where
  "formatValue value unit =
     (case value of
        Some (JBool b) \<Rightarrow> (if b then ''On'' else ''Off'')
      | Some (JNum n) \<Rightarrow>
          (case unit of
             Some u \<Rightarrow> if u = [] then number_text n else number_text n @ (if u = degree then [] else '' '') @ u
           | None \<Rightarrow> number_text n)
      | v \<Rightarrow> js_string v)"

record value_field =
  vf_text :: string
  vf_touched :: bool

definition shown_text :: "json option \<Rightarrow> string" where
  "shown_text requested =
     (case requested of None \<Rightarrow> [] | Some JNull \<Rightarrow> [] | Some (JBool b) \<Rightarrow> [] | Some v \<Rightarrow> json_string v)"

definition new_field :: "json option \<Rightarrow> value_field" where
  "new_field requested = \<lparr>vf_text = shown_text requested, vf_touched = False\<rparr>"

text \<open>The effect on a new request, typing, and the form's submit, which answers what it sends.\<close>

definition refill :: "json option \<Rightarrow> value_field \<Rightarrow> value_field" where
  "refill requested f = (if vf_touched f then f else f\<lparr>vf_text := shown_text requested\<rparr>)"

definition type_in :: "string \<Rightarrow> value_field \<Rightarrow> value_field" where
  "type_in text f = \<lparr>vf_text = text, vf_touched = True\<rparr>"

definition same_value :: "string + json \<Rightarrow> json option \<Rightarrow> bool" where
  "same_value parsed requested = (case parsed of Inr v \<Rightarrow> isRequested v requested | Inl e \<Rightarrow> False)"

definition field_error :: "control_kind \<Rightarrow> command_range option \<Rightarrow> value_field \<Rightarrow> string option" where
  "field_error kind rng f =
     (case parseCommand (vf_text f) kind rng of Inl e \<Rightarrow> if vf_touched f then Some e else None | Inr v \<Rightarrow> None)"

definition submit_field ::
    "control_kind \<Rightarrow> command_range option \<Rightarrow> json option \<Rightarrow> bool \<Rightarrow> value_field \<Rightarrow> value_field \<times> json option" where
  "submit_field kind rng requested disabled f =
     (let parsed = parseCommand (vf_text f) kind rng in
      case parsed of
        Inl e \<Rightarrow> (f\<lparr>vf_touched := True\<rparr>, None)
      | Inr v \<Rightarrow> if same_value parsed requested \<or> disabled then (f\<lparr>vf_touched := True\<rparr>, None)
                  else (f\<lparr>vf_touched := False\<rparr>, Some v))"

section \<open>The row\<close>

record command_row =
  cw_actuator :: string
  cw_value :: json
  cw_command :: command

record control_row =
  co_busy :: bool
  co_error :: "string option"
  co_sending :: "json option"

definition requested_now :: "control_row \<Rightarrow> command_row option \<Rightarrow> json option" where
  "requested_now row latest =
     (case co_sending row of Some v \<Rightarrow> Some v | None \<Rightarrow> map_option cw_value latest)"

text \<open>The question of the confirm dialog: body, title and button.\<close>

definition capital :: "string \<Rightarrow> string" where
  "capital s = (case s of [] \<Rightarrow> [] | c # cs \<Rightarrow> upper_char c # cs)"

definition question :: "bool \<Rightarrow> bool \<Rightarrow> string \<Rightarrow> string option \<Rightarrow> json \<Rightarrow> string \<times> string option \<times> string" where
  "question online retry label unit next =
     (let words = formatValue (Some next) unit;
          is_bool = (case next of JBool b \<Rightarrow> True | _ \<Rightarrow> False);
          verb = (if is_bool then ''Turn '' else ''Set to '') @ words;
          what = (if is_bool then ''turn '' @ label @ '' '' else ''set '' @ label @ '' to '') @ words;
          body = (if online then (if retry then ''Send it again: '' else []) @ capital what @ ''?''
                  else ''The device is offline. The command waits as its desired state and applies when it reconnects, if that'' @
                       [CHR 0x27] @ ''s within the command'' @ [CHR 0x27] @ ''s time limit. '' @ capital what @ ''?'')
      in (body, if online then None else Some ''Send to an offline device?'', if retry then ''Retry'' else verb))"

definition send_failure :: "'a sent \<Rightarrow> string" where
  "send_failure r = (case r of Api_error st message b fs \<Rightarrow> message | _ \<Rightarrow> ''Couldn'' @ [CHR 0x27] @ ''t send this command.'')"

text \<open>A poll's answer: the device's commands, if any came, or why it failed.\<close>

type_synonym polled = "command_row list option sent"

definition POLLS :: nat where "POLLS = 15"
definition POLL_MS :: nat where "POLL_MS = 800"

definition written :: "string \<Rightarrow> rat \<Rightarrow> command_row list option \<Rightarrow> bool" where
  "written actuatorId sentAt rows =
     (case rows of None \<Rightarrow> False
      | Some cs \<Rightarrow> list_ex (\<lambda>c. cw_actuator c = actuatorId \<and> js_ge (date_time (cm_issued_at (cw_command c))) (Fin (sentAt - 2000))) cs)"

text \<open>The loop from its \<open>i\<close>-th round on: what it threw, the polls made and the milliseconds waited.\<close>

function poll_from :: "(nat \<Rightarrow> polled) \<Rightarrow> string \<Rightarrow> rat \<Rightarrow> nat \<Rightarrow> nat \<Rightarrow> string option \<times> nat \<times> nat" where
  "poll_from answers actuatorId sentAt waited i =
     (if i < POLLS then
        case answers i of
          Sent rows \<Rightarrow>
            if written actuatorId sentAt rows then (None, Suc i, waited)
            else poll_from answers actuatorId sentAt (waited + POLL_MS) (Suc i)
        | failure \<Rightarrow> (Some (send_failure failure), Suc i, waited)
      else (None, i, waited))"
  by pat_completeness auto
termination by (relation "measure (\<lambda>(answers, a, t, w, i). POLLS - i)") auto

declare poll_from.simps [simp del]

record send_result =
  se_shows :: "control_row list"
  se_posted :: "json option"
  se_polls :: nat
  se_waited :: nat

definition not_sent :: send_result where
  "not_sent = \<lparr>se_shows = [], se_posted = None, se_polls = 0, se_waited = 0\<rparr>"

definition command_body :: "string \<Rightarrow> json \<Rightarrow> json" where
  "command_body actuatorId next = JObj [(''actuator'', JStr actuatorId), (''value'', next)]"

text \<open>\<open>ok\<close> answers the confirm dialog, \<open>reply\<close> the POST; \<open>now\<close> is \<open>Date.now()\<close> when it is sent.\<close>

definition send_value ::
    "string \<Rightarrow> json option \<Rightarrow> rat \<Rightarrow> bool \<Rightarrow> json option sent \<Rightarrow> (nat \<Rightarrow> polled) \<Rightarrow> json \<Rightarrow> bool \<Rightarrow> control_row \<Rightarrow> send_result" where
  "send_value actuatorId requested now ok reply answers next retry row =
     (if \<not> retry \<and> isRequested next requested \<or> \<not> ok then not_sent
      else
        let started = row\<lparr>co_busy := True, co_error := None\<rparr>; posted = Some (command_body actuatorId next) in
        case reply of
          Sent x \<Rightarrow>
            (case poll_from answers actuatorId now 0 0 of
               (threw, polls, waited) \<Rightarrow>
                 let sending = started\<lparr>co_sending := Some next\<rparr>;
                     failed = (case threw of Some message \<Rightarrow> sending\<lparr>co_error := Some message\<rparr> | None \<Rightarrow> sending)
                 in \<lparr>se_shows = [started, sending, failed\<lparr>co_sending := None, co_busy := False\<rparr>],
                     se_posted = posted, se_polls = polls, se_waited = waited\<rparr>)
        | _ \<Rightarrow>
            \<lparr>se_shows = [started, started\<lparr>co_error := Some (send_failure reply), co_sending := None, co_busy := False\<rparr>],
             se_posted = posted, se_polls = 0, se_waited = 0\<rparr>)"

section \<open>Which actuators a device has\<close>

lemma declared_get:
  "dict_get (foldl note_declared d as) i =
     (case dict_get d i of Some l \<Rightarrow> Some l | None \<Rightarrow> map_option ca_name (List.find (\<lambda>a. actuator_id a = i) as))"
  by (induction as arbitrary: d) (auto simp: note_declared_def split: option.splits)

lemma commanded_get:
  "dict_get (foldl (note_commanded dev) d raws) i =
     (case dict_get d i of Some l \<Rightarrow> Some l
      | None \<Rightarrow> if list_ex (\<lambda>raw. commanded dev raw = Some i) raws then Some i else None)"
  by (induction raws arbitrary: d) (auto simp: note_commanded_def split: option.splits)

lemma rules_get:
  "dict_get (foldl (\<lambda>d rule. foldl (note_commanded dev) d (sr_actions rule)) d rules) i =
     (case dict_get d i of Some l \<Rightarrow> Some l
      | None \<Rightarrow> if list_ex (\<lambda>r. list_ex (\<lambda>raw. commanded dev raw = Some i) (sr_actions r)) rules then Some i else None)"
  by (induction rules arbitrary: d) (auto simp: commanded_get split: option.splits)

lemma fold_keeps_distinct:
  assumes "distinct (map fst d)" "\<And>d x. distinct (map fst d) \<Longrightarrow> distinct (map fst (f d x))"
  shows "distinct (map fst (foldl f d xs))"
  using assms(1) by (induction xs arbitrary: d) (simp_all add: assms(2))

text \<open>A device's controls are exactly its template's actuators, each once under its first name,
  and the actuators that an action of a rule commands on this device, under their own id.\<close>

theorem device_actuators_exact:
  "distinct (map fst (getDeviceActuators declared rules dev)) \<and>
   dict_get (getDeviceActuators declared rules dev) i =
     (case List.find (\<lambda>a. actuator_id a = i) declared of
        Some a \<Rightarrow> Some (ca_name a)
      | None \<Rightarrow> if list_ex (\<lambda>r. list_ex (\<lambda>raw. commanded dev raw = Some i) (sr_actions r)) rules then Some i else None)"
proof
  have declared: "distinct (map fst (foldl note_declared [] declared))"
    by (rule fold_keeps_distinct) (auto simp: note_declared_def distinct_update)
  have "distinct (map fst (foldl (note_commanded dev) d raws))" if "distinct (map fst d)" for d raws
    using that by (rule fold_keeps_distinct) (auto simp: note_commanded_def distinct_update split: option.splits)
  from fold_keeps_distinct [OF declared this] show "distinct (map fst (getDeviceActuators declared rules dev))"
    by (simp add: getDeviceActuators_def)
qed (auto simp: getDeviceActuators_def rules_get declared_get split: option.splits)

text \<open>An actuator commanded only when a rule clears has no control.\<close>

lemma clear_only_dropped:
  assumes "sr_actions rule = []"
  shows "getDeviceActuators [] [rule] dev = []"
  using assms by (simp add: getDeviceActuators_def)

section \<open>What the value field sends\<close>

lemma span_ordered: "\<not> js_lt (cr_max (span_of a b u)) (cr_min (span_of a b u))"
  by (cases a; cases b) (auto simp: span_of_def math_min_def math_max_def)

text \<open>The value field of an actuator sends only a value that is not the one requested already,
  and never while it is disabled: a text that is not blank, or a finite number inside the span
  the actuator's wiring gives; a span is never inverted.  Otherwise it keeps the text and shows
  what is wrong.\<close>

theorem value_field_bounds:
  "case submit_field kind (commandRange wiring a) requested disabled f of
     (f', None) \<Rightarrow> vf_touched f' \<and> vf_text f' = vf_text f
   | (f', Some v) \<Rightarrow>
       \<not> disabled \<and> \<not> isRequested v requested \<and> field_error kind (commandRange wiring a) f' = None \<and>
       (case v of
          JNum n \<Rightarrow> is_finite n \<and>
            (case commandRange wiring a of None \<Rightarrow> True
             | Some r \<Rightarrow> \<not> js_lt n (cr_min r) \<and> \<not> js_lt (cr_max r) n \<and> \<not> js_lt (cr_max r) (cr_min r))
        | JStr s \<Rightarrow> kind = Text_control \<and> s = trim (vf_text f) \<and> s \<noteq> []
        | _ \<Rightarrow> False)"
proof -
  have "\<not> js_lt (cr_max r) (cr_min r)" if "commandRange wiring a = Some r" for r
    using that span_ordered by (auto simp: commandRange_def split: option.splits if_splits)
  then show ?thesis
    by (auto simp: submit_field_def Let_def parseCommand_def same_value_def field_error_def outside_def
        split: option.splits sum.splits if_splits)
qed

section \<open>Sending ends\<close>

abbreviation settled :: "(nat \<Rightarrow> polled) \<Rightarrow> string \<Rightarrow> rat \<Rightarrow> nat \<Rightarrow> bool" where
  "settled answers a t k \<equiv> (case answers k of Sent rows \<Rightarrow> written a t rows | _ \<Rightarrow> True)"

abbreviation thrown :: "polled \<Rightarrow> string option" where
  "thrown p \<equiv> (case p of Sent rows \<Rightarrow> None | failure \<Rightarrow> Some (send_failure failure))"

lemma poll_from_spec:
  "i \<le> POLLS \<Longrightarrow>
   poll_from answers a t w i =
     (case List.find (settled answers a t) [i..<POLLS] of
        Some k \<Rightarrow> (thrown (answers k), Suc k, w + POLL_MS * (k - i))
      | None \<Rightarrow> (None, POLLS, w + POLL_MS * (POLLS - i)))"
proof (induction answers a t w i rule: poll_from.induct)
  case (1 answers a t w i)
  show ?case
  proof (cases "i < POLLS")
    case False
    with 1(2) show ?thesis by (subst poll_from.simps) simp
  next
    case True
    have u: "[i..<POLLS] = i # [Suc i..<POLLS]" using True by (rule upt_conv_Cons)
    show ?thesis
    proof (cases "settled answers a t i")
      case s: True
      then show ?thesis using True by (subst poll_from.simps) (auto simp: u split: sent.splits)
    next
      case s: False
      then obtain rows where r: "answers i = Sent rows" "\<not> written a t rows" by (auto split: sent.splits)
      have "List.find (settled answers a t) [Suc i..<POLLS] = Some k \<Longrightarrow> Suc i \<le> k" for k
        by (drule find_Some_iff) auto
      then have "w + POLL_MS + POLL_MS * (k - Suc i) = w + POLL_MS * (k - i)"
        if "List.find (settled answers a t) [Suc i..<POLLS] = Some k" for k
        using that by (metis Suc_diff_le Suc_le_D add.assoc diff_Suc_Suc mult_Suc_right)
      moreover have "w + POLL_MS + POLL_MS * (POLLS - Suc i) = w + POLL_MS * (POLLS - i)"
        using True by (metis Suc_diff_Suc add.assoc mult_Suc_right)
      ultimately show ?thesis
        using 1(1) [OF True r] True r by (subst poll_from.simps) (auto simp: u split: option.splits)
    qed
  qed
qed

text \<open>C23: Sending a value always ends: after at most 15 polls and 12 seconds of waiting, at the first
  poll that fails or shows the command written, the row is neither busy nor sending; it shows an
  error exactly when the POST or that poll failed. What is posted is the value, once, and only
  when the person confirmed and it is not the value requested already, or it is a retry.\<close>

theorem send_ends:
  "case send_value a requested now ok reply answers next retry row of r \<Rightarrow>
     se_polls r \<le> 15 \<and> se_waited r \<le> 12000 \<and>
     (if ok \<and> (retry \<or> \<not> isRequested next requested)
      then
          se_posted r = Some (command_body a next) \<and>
          co_busy (hd (se_shows r)) \<and> \<not> co_busy (last (se_shows r)) \<and> co_sending (last (se_shows r)) = None \<and>
          (case reply of
             Sent x \<Rightarrow>
               (case List.find (settled answers a now) [0..<15] of
                  Some k \<Rightarrow> se_polls r = Suc k \<and> se_waited r = 800 * k \<and> co_error (last (se_shows r)) = thrown (answers k)
                | None \<Rightarrow> se_polls r = 15 \<and> se_waited r = 12000 \<and> co_error (last (se_shows r)) = None)
           | _ \<Rightarrow> se_polls r = 0 \<and> co_error (last (se_shows r)) = Some (send_failure reply))
      else r = not_sent)"
proof -
  have k: "k < 15" if "List.find (settled answers a now) [0..<15] = Some k" for k
    using find_Some_iff [OF that] by simp
  have p: "poll_from answers a now 0 0 =
      (case List.find (settled answers a now) [0..<15] of
         Some k \<Rightarrow> (thrown (answers k), Suc k, 800 * k) | None \<Rightarrow> (None, 15, 12000))"
    using poll_from_spec [of 0 answers a now 0] by (simp add: POLLS_def POLL_MS_def split: option.split)
  show ?thesis
  proof (cases "ok \<and> (retry \<or> \<not> isRequested next requested)")
    case False
    then have "send_value a requested now ok reply answers next retry row = not_sent" by (auto simp: send_value_def)
    then show ?thesis unfolding if_not_P [OF False] by (simp add: not_sent_def)
  next
    case True
    then have go: "(\<not> retry \<and> isRequested next requested \<or> \<not> ok) = False" by blast
    show ?thesis
    proof (cases "\<exists>x. reply = Sent x")
      case sent: True
      then obtain x where x: "reply = Sent x" ..
      have sent_all: "send_value a requested now ok reply answers next retry row =
          \<lparr>se_shows = [row\<lparr>co_busy := True, co_error := None\<rparr>, row\<lparr>co_busy := True, co_error := None, co_sending := Some next\<rparr>,
             row\<lparr>co_busy := False, co_error := threw, co_sending := None\<rparr>],
           se_posted = Some (command_body a next), se_polls = polls, se_waited = waited\<rparr>"
        if "poll_from answers a now 0 0 = (threw, polls, waited)" for threw polls waited
        using that unfolding send_value_def go if_False x Let_def by (simp split: option.split)
      show ?thesis
      proof (cases "List.find (settled answers a now) [0..<15]")
        case None
        then have "poll_from answers a now 0 0 = (None, 15, 12000)" unfolding p by simp
        from sent_all [OF this] show ?thesis unfolding if_P [OF True] x None by simp
      next
        case (Some j)
        then have "poll_from answers a now 0 0 = (thrown (answers j), Suc j, 800 * j)" unfolding p by simp
        from sent_all [OF this] show ?thesis unfolding if_P [OF True] x Some using k [OF Some] by simp
      qed
    next
      case False
      then have "send_value a requested now ok reply answers next retry row =
          \<lparr>se_shows = [row\<lparr>co_busy := True, co_error := None\<rparr>,
             row\<lparr>co_busy := False, co_error := Some (send_failure reply), co_sending := None\<rparr>],
           se_posted = Some (command_body a next), se_polls = 0, se_waited = 0\<rparr>"
        unfolding send_value_def go if_False Let_def by (cases reply) simp_all
      then show ?thesis unfolding if_P [OF True] using False by (cases reply) simp_all
    qed
  qed
qed

text \<open>A command found at the second poll.\<close>

lemma send_ends_witness:
  "se_polls (send_value ''fan'' None 0 True (Sent None)
      (\<lambda>k. Sent (Some (if k = 1 then [\<lparr>cw_actuator = ''fan'', cw_value = JBool True,
         cw_command = \<lparr>cm_acked_at = None, cm_issued_at = toISOString 0, cm_ttl_seconds = 60\<rparr>\<rparr>] else [])))
      (JBool True) False \<lparr>co_busy = False, co_error = None, co_sending = None\<rparr>) = 2"
proof -
  define c where "c = \<lparr>cw_actuator = ''fan'', cw_value = JBool True,
    cw_command = \<lparr>cm_acked_at = None, cm_issued_at = toISOString 0, cm_ttl_seconds = 60\<rparr>\<rparr>"
  have d: "date_time (toISOString 0) = Fin 0" by simp
  have w: "written ''fan'' 0 (Some [c])" "\<not> written ''fan'' 0 (Some [])" by (simp_all add: written_def c_def d)
  let ?ans = "\<lambda>k. Sent (Some (if k = 1 then [c] else []))"
  have "[0..<15] = 0 # 1 # [2..<15::nat]" by (simp add: upt_conv_Cons)
  then have f: "List.find (settled ?ans ''fan'' 0) [0..<15] = Some 1" using w by simp
  let ?r = "send_value ''fan'' None 0 True (Sent None) ?ans (JBool True) False \<lparr>co_busy = False, co_error = None, co_sending = None\<rparr>"
  have "isRequested (JBool True) None = False" by (simp add: isRequested_def)
  then have "se_polls ?r = Suc 1"
    using send_ends [of "''fan''" None 0 True "Sent None" ?ans "JBool True" False "\<lparr>co_busy = False, co_error = None, co_sending = None\<rparr>"]
    unfolding f by simp
  then show ?thesis unfolding c_def by simp
qed

text \<open>A poll settles by comparing the server's time of a command with the browser's: when that clock
  is more than two seconds ahead, no command sent now is ever seen and all the polls are made.\<close>

lemma below_not_ge: "js_lt x (Fin q) \<Longrightarrow> \<not> js_ge x (Fin q)"
  by (cases x) (auto simp: js_le_def js_eq_def)

lemma clock_ahead_polls_out:
  assumes "\<And>k. \<exists>rows. answers k = Sent (Some rows) \<and>
             list_all (\<lambda>c. js_lt (date_time (cm_issued_at (cw_command c))) (Fin (now - 2000))) rows"
  shows "poll_from answers a now 0 0 = (None, 15, 12000)"
proof -
  have "\<not> settled answers a now k" for k
    using assms [of k] by (auto simp: written_def list_all_iff list_ex_iff below_not_ge)
  then have "List.find (settled answers a now) [0..<POLLS] = None" by (simp add: find_None_iff')
  then show ?thesis using poll_from_spec [of 0 answers a now 0] by (simp add: POLLS_def POLL_MS_def)
qed

end
