(* ===== verification/Record_Editor.thy ===== *)
theory Record_Editor imports Prelude begin

text \<open>
  The one editing model: the draft of a record against its saved version
  (\<open>frontend/src/components/editor/useRecordEditor.ts\<close>), the guard that asks before unsaved edits
  are left (\<open>useUnsavedGuard.tsx\<close>), and the toast on a change (\<open>hooks/useChangeToast.ts\<close>).
  \<open>key\<close> is \<open>JSON.stringify\<close> on drafts, \<open>validate\<close> gives the errors by path, \<open>instant\<close> tells the
  paths that show while typing.  A save in flight is kept with the draft it commits; its end is a
  step of its own, so that edits, new sources and other saves can come in between.
\<close>

record 'd editor =
  ed_draft :: "'d option"
  ed_original :: "'d option"
  ed_touched :: "string set"
  ed_showAll :: bool
  ed_saving :: bool
  ed_lastKey :: "string option"
  ed_commits :: "'d list"

definition new_editor :: "'d option \<Rightarrow> 'd editor" where
  "new_editor source =
     \<lparr>ed_draft = source, ed_original = source, ed_touched = {}, ed_showAll = False, ed_saving = False, ed_lastKey = None,
      ed_commits = []\<rparr>"

definition dirty :: "('d \<Rightarrow> string) \<Rightarrow> 'd editor \<Rightarrow> bool" where
  "dirty key e \<longleftrightarrow>
     (case (ed_draft e, ed_original e) of (Some d, Some r) \<Rightarrow> key d \<noteq> key r | _ \<Rightarrow> False)"

text \<open>The effect on the source: a version with another key than the last one is adopted.\<close>

definition adopt :: "('d \<Rightarrow> string) \<Rightarrow> 'd option \<Rightarrow> 'd editor \<Rightarrow> 'd editor" where
  "adopt key source e =
     (case source of
        None \<Rightarrow> e
      | Some s \<Rightarrow>
          if Some (key s) = ed_lastKey e then e
          else e\<lparr>ed_lastKey := Some (key s), ed_original := Some s,
                 ed_draft := (if ed_draft e = None \<or> \<not> dirty key e then Some s else ed_draft e)\<rparr>)"

definition set_draft :: "('d \<Rightarrow> 'd) \<Rightarrow> 'd editor \<Rightarrow> 'd editor" where
  "set_draft f e = e\<lparr>ed_draft := map_option f (ed_draft e)\<rparr>"

definition touch :: "string \<Rightarrow> 'd editor \<Rightarrow> 'd editor" where
  "touch path e = e\<lparr>ed_touched := insert path (ed_touched e)\<rparr>"

definition touchAll :: "string list \<Rightarrow> 'd editor \<Rightarrow> 'd editor" where
  "touchAll paths e = e\<lparr>ed_touched := ed_touched e \<union> set paths\<rparr>"

definition editor_errors :: "('d \<Rightarrow> string dict) \<Rightarrow> 'd editor \<Rightarrow> string dict" where
  "editor_errors validate e = (case ed_draft e of Some d \<Rightarrow> validate d | None \<Rightarrow> [])"

definition isShown :: "(string \<Rightarrow> bool) \<Rightarrow> 'd editor \<Rightarrow> string \<Rightarrow> bool" where
  "isShown instant e path \<longleftrightarrow> ed_showAll e \<or> path \<in> ed_touched e \<or> instant path"

definition errorFor :: "('d \<Rightarrow> string dict) \<Rightarrow> (string \<Rightarrow> bool) \<Rightarrow> 'd editor \<Rightarrow> string \<Rightarrow> string option" where
  "errorFor validate instant e path =
     (if isShown instant e path then dict_get (editor_errors validate e) path else None)"

definition visibleErrors :: "('d \<Rightarrow> string dict) \<Rightarrow> (string \<Rightarrow> bool) \<Rightarrow> 'd editor \<Rightarrow> string list" where
  "visibleErrors validate instant e = filter (isShown instant e) (map fst (editor_errors validate e))"

definition reveal :: "('d \<Rightarrow> string dict) \<Rightarrow> 'd editor \<Rightarrow> 'd editor \<times> string list" where
  "reveal validate e = (e\<lparr>ed_showAll := True\<rparr>, map fst (editor_errors validate e))"

text \<open>\<open>save\<close> up to its await: the draft it commits, None when it resolves false at once.\<close>

definition save :: "('d \<Rightarrow> string dict) \<Rightarrow> 'd editor \<Rightarrow> 'd editor \<times> 'd option" where
  "save validate e =
     (case ed_draft e of
        None \<Rightarrow> (e, None)
      | Some d \<Rightarrow>
          if validate d \<noteq> [] then (e\<lparr>ed_showAll := True\<rparr>, None)
          else (e\<lparr>ed_showAll := True, ed_saving := True, ed_commits := ed_commits e @ [d]\<rparr>, Some d))"

text \<open>The rest: the commit of \<open>d\<close> came back, well or with an error.\<close>

definition saved :: "'d \<Rightarrow> bool \<Rightarrow> 'd editor \<Rightarrow> 'd editor" where
  "saved d ok e =
     (let e1 = (if ok then e\<lparr>ed_original := Some d, ed_touched := {}, ed_showAll := False\<rparr> else e)
      in e1\<lparr>ed_saving := False, ed_commits := remove1 d (ed_commits e)\<rparr>)"

definition discard :: "'d editor \<Rightarrow> 'd editor" where
  "discard e = e\<lparr>ed_draft := ed_original e, ed_touched := {}, ed_showAll := False\<rparr>"

section \<open>Leaving with unsaved edits\<close>

record link_click =
  lc_prevented :: bool
  lc_button :: nat
  lc_modified :: bool
  lc_link :: bool
  lc_blank :: bool
  lc_download :: bool
  lc_same_origin :: bool
  lc_same_page :: bool

text \<open>Whether the guard stops the click and asks.\<close>

definition guard_stops :: "bool \<Rightarrow> link_click \<Rightarrow> bool" where
  "guard_stops dirtyRef c \<longleftrightarrow>
     dirtyRef \<and> \<not> lc_prevented c \<and> lc_button c = 0 \<and> \<not> lc_modified c \<and> lc_link c \<and> \<not> lc_blank c \<and> \<not> lc_download c \<and>
     lc_same_origin c \<and> \<not> lc_same_page c"

definition confirmLeave :: "bool \<Rightarrow> bool \<Rightarrow> bool" where
  "confirmLeave dirtyRef answer \<longleftrightarrow> \<not> dirtyRef \<or> answer"

text \<open>What happens to the page: it stays, it is left by the guard, or the browser handles the click.\<close>

datatype click_result = Stays | Guard_goes | Browser_handles

definition guarded_click :: "bool \<Rightarrow> bool \<Rightarrow> link_click \<Rightarrow> click_result \<times> bool" where
  "guarded_click dirtyRef answer c =
     (if guard_stops dirtyRef c
      then (if confirmLeave dirtyRef answer then (Guard_goes, False) else (Stays, dirtyRef))
      else (Browser_handles, dirtyRef))"

definition warns_on_unload :: "bool \<Rightarrow> bool option \<Rightarrow> bool" where
  "warns_on_unload is_dirty onUnload \<longleftrightarrow> is_dirty \<and> (case onUnload of Some b \<Rightarrow> b | None \<Rightarrow> True)"

section \<open>useChangeToast\<close>

text \<open>The effect on the record and its value: what is remembered, and the change to describe.\<close>

definition change_seen ::
    "string option \<Rightarrow> 'v option \<Rightarrow> (string \<times> 'v) option \<Rightarrow> (string \<times> 'v) option \<times> ('v \<times> 'v) option" where
  "change_seen recordId val prev =
     (case (recordId, val) of
        (Some i, Some v) \<Rightarrow>
          (Some (i, v),
           case prev of
             Some (j, w) \<Rightarrow> if j = i \<and> w \<noteq> v then Some (w, v) else None
           | None \<Rightarrow> None)
      | _ \<Rightarrow> (prev, None))"

section \<open>Any interleaving\<close>

inductive ed_step ::
    "('d \<Rightarrow> string) \<Rightarrow> ('d \<Rightarrow> string dict) \<Rightarrow> 'd editor \<Rightarrow> 'd editor \<Rightarrow> bool" for key validate where
  source: "ed_step key validate e (adopt key src e)"
| edit: "ed_step key validate e (set_draft f e)"
| touches: "ed_step key validate e (touchAll ps (touch p e))"
| reveals: "ed_step key validate e (fst (reveal validate e))"
| saves: "ed_step key validate e (fst (save validate e))"
| saved: "d \<in> set (ed_commits e) \<Longrightarrow> ed_step key validate e (saved d ok e)"
| discards: "ed_step key validate e (discard e)"

inductive ed_reachable :: "('d \<Rightarrow> string) \<Rightarrow> ('d \<Rightarrow> string dict) \<Rightarrow> 'd editor \<Rightarrow> bool" for key validate where
  start: "ed_reachable key validate (new_editor src)"
| step: "ed_reachable key validate e \<Longrightarrow> ed_step key validate e e' \<Longrightarrow> ed_reachable key validate e'"

inductive_cases ed_stepE: "ed_step key validate e e'"

definition editor_ok :: "('d \<Rightarrow> string dict) \<Rightarrow> 'd editor \<Rightarrow> bool" where
  "editor_ok validate e \<longleftrightarrow>
     (ed_draft e = None \<longleftrightarrow> ed_original e = None) \<and> list_all (\<lambda>d. validate d = []) (ed_commits e) \<and>
     (ed_commits e \<noteq> [] \<longrightarrow> ed_draft e \<noteq> None)"

lemma list_all_remove1: "list_all P xs \<Longrightarrow> list_all P (remove1 x xs)"
  by (induction xs) auto

lemma ed_step_ok: "editor_ok validate e \<Longrightarrow> ed_step key validate e e' \<Longrightarrow> editor_ok validate e'"
proof -
  assume ok: "editor_ok validate e" and st: "ed_step key validate e e'"
  from st show ?thesis
  proof (cases rule: ed_step.cases)
    case (saved d ok')
    then have "ed_commits e \<noteq> []" by auto
    with ok saved show ?thesis by (auto simp: editor_ok_def saved_def Let_def list_all_remove1)
  qed (use ok in \<open>auto simp: editor_ok_def adopt_def set_draft_def touch_def touchAll_def reveal_def save_def discard_def
        split: option.splits\<close>)
qed

lemma ed_reachable_ok: "ed_reachable key validate e \<Longrightarrow> editor_ok validate e"
proof (induction rule: ed_reachable.induct)
  case (start src)
  then show ?case by (simp add: new_editor_def editor_ok_def)
next
  case (step e e')
  then show ?case by (blast intro: ed_step_ok)
qed

text \<open>C17: The editing model loses no edit and commits nothing invalid: in any interleaving of edits,
  new saved versions, saves that succeed or fail and discards, only valid drafts are ever
  committed; a draft with unsaved edits changes only by an edit or a discard; a new saved version
  is followed exactly when there are none; a refused save shows every error; and a save that
  succeeded leaves unsaved just what was typed since.\<close>

theorem editing_model_safe:
  assumes "ed_reachable key validate e" "ed_step key validate e e'"
  shows "list_all (\<lambda>d. validate d = []) (ed_commits e') \<and> (ed_draft e' = None \<longleftrightarrow> ed_original e' = None) \<and>
    (dirty key e \<longrightarrow> ed_draft e' = ed_draft e \<or> (\<exists>f. e' = set_draft f e) \<or> e' = discard e) \<and>
    (\<not> dirty key e \<longrightarrow> Some (key s) \<noteq> ed_lastKey e \<longrightarrow> ed_draft (adopt key (Some s) e) = Some s) \<and>
    (case save validate e of
       (e1, None) \<Rightarrow> ed_draft e1 = ed_draft e \<and> ed_commits e1 = ed_commits e \<and>
         visibleErrors validate instant e1 = (if ed_draft e = None then [] else map fst (editor_errors validate e))
     | (e1, Some d) \<Rightarrow> ed_draft e = Some d \<and> validate d = [] \<and>
         (\<not> dirty key (saved d True e1) \<and> ed_original (saved d True e1) = Some d) \<and>
         (dirty key (saved d True (set_draft f e1)) \<longleftrightarrow> key (f d) \<noteq> key d))"
proof (intro conjI)
  have "editor_ok validate e" "editor_ok validate e'"
    using ed_reachable_ok [OF assms(1)] ed_step_ok [OF _ assms(2)] by blast+
  then show "list_all (\<lambda>d. validate d = []) (ed_commits e')" "ed_draft e' = None \<longleftrightarrow> ed_original e' = None"
    by (simp_all add: editor_ok_def)
  show "dirty key e \<longrightarrow> ed_draft e' = ed_draft e \<or> (\<exists>f. e' = set_draft f e) \<or> e' = discard e"
    using assms(2)
  proof (cases rule: ed_step.cases)
    case (source src)
    then show ?thesis by (auto simp: adopt_def dirty_def split: option.splits)
  qed (auto simp: touch_def touchAll_def reveal_def save_def saved_def Let_def split: option.splits)
  show "\<not> dirty key e \<longrightarrow> Some (key s) \<noteq> ed_lastKey e \<longrightarrow> ed_draft (adopt key (Some s) e) = Some s"
    by (simp add: adopt_def)
  show "case save validate e of
       (e1, None) \<Rightarrow> ed_draft e1 = ed_draft e \<and> ed_commits e1 = ed_commits e \<and>
         visibleErrors validate instant e1 = (if ed_draft e = None then [] else map fst (editor_errors validate e))
     | (e1, Some d) \<Rightarrow> ed_draft e = Some d \<and> validate d = [] \<and>
         (\<not> dirty key (saved d True e1) \<and> ed_original (saved d True e1) = Some d) \<and>
         (dirty key (saved d True (set_draft f e1)) \<longleftrightarrow> key (f d) \<noteq> key d)"
    by (simp add: save_def saved_def Let_def dirty_def set_draft_def visibleErrors_def editor_errors_def isShown_def split: option.split)
qed

text \<open>A record being renamed while its first save is still on the way.\<close>

lemma editing_model_safe_witness:
  "let v = (\<lambda>d :: string. if d = [] then [(''name'', ''Enter a name.'')] else []);
       e1 = fst (save v (set_draft (\<lambda>d. ''bay1'') (new_editor (Some ''bay''))))
   in ed_reachable id v e1 \<and> \<not> dirty id (saved ''bay1'' True e1) \<and> dirty id (saved ''bay1'' True (set_draft (\<lambda>d. d @ ''-a'') e1))"
proof -
  define v where "v = (\<lambda>d :: string. if d = [] then [(''name'', ''Enter a name.'')] else [])"
  let ?e0 = "set_draft (\<lambda>d. ''bay1'') (new_editor (Some ''bay''))"
  have r0: "ed_reachable id v ?e0" by (rule ed_reachable.step [OF ed_reachable.start ed_step.edit])
  have st: "ed_step id v ?e0 (fst (save v ?e0))" by (rule ed_step.saves)
  have "ed_draft ?e0 = Some ''bay1''" "v ''bay1'' = []" by (simp_all add: set_draft_def new_editor_def v_def)
  then have s: "save v ?e0 = (?e0\<lparr>ed_showAll := True, ed_saving := True, ed_commits := ed_commits ?e0 @ [''bay1'']\<rparr>, Some ''bay1'')"
    by (simp add: save_def)
  have "\<not> dirty id (saved ''bay1'' True (fst (save v ?e0))) \<and> dirty id (saved ''bay1'' True (set_draft (\<lambda>d. d @ ''-a'') (fst (save v ?e0))))"
    using editing_model_safe [OF r0 st, of "''x''" "\<lambda>p. False" "\<lambda>d. d @ ''-a''"] unfolding s by simp
  then show ?thesis using ed_reachable.step [OF r0 st] unfolding v_def Let_def by blast
qed

text \<open>The guard: with unsaved edits, a plain click on a link to another page of the app leaves only
  when the person agrees, and every other click is the browser's.\<close>

lemma guarded_click_asks:
  "guard_stops True c \<Longrightarrow> guarded_click True answer c = (if answer then (Guard_goes, False) else (Stays, True))"
  "guarded_click False answer c = (Browser_handles, False)"
  by (simp_all add: guarded_click_def confirmLeave_def guard_stops_def)

end
