(* ===== verification/Connect.thy ===== *)
theory Connect imports Template_Draft Hardware_Check Sketch Live_Screen Controls Record_Editor begin

text \<open>
  The Connect flow (\<open>frontend/src/components/devices/connect\<close>, \<open>ConnectFlow.tsx\<close>): all of its state
  and what follows from it (\<open>useConnectFlow.ts\<close>), the handlers of its five steps and of the stepper,
  and what the page hears about the device.  A step of the flow is one handler up to its await, or
  the rest after it; the device, the template and the published firmware are an environment that
  a reload may change between steps.  Toasts, the clipboard and the markup are not modelled.
\<close>

section \<open>State\<close>

record live_check =
  ck_ok :: bool
  ck_busy :: bool
  ck_detail :: "string option"

datatype wifi_mode = Wifi_ble | Wifi_sketch

text \<open>What is loaded: the device, its template and the firmware release, None without one.\<close>

record connect_env =
  ce_tenantSlug :: string
  ce_slug :: string
  ce_name :: string
  ce_neverConnected :: bool
  ce_hardware :: "hardware_config option"
  ce_template_hardware :: "hardware_config option"
  ce_metrics :: "catalog_metric list"
  ce_actuators :: "catalog_actuator list"
  ce_firmware :: "hardware_catalog option"

text \<open>A credential is its user name and password.\<close>

record connect_state =
  cs_step :: nat
  cs_credential :: "(string \<times> string) option"
  cs_stored :: bool
  cs_rotating :: bool
  cs_board :: board
  cs_wifiMode :: wifi_mode
  cs_ssid :: string
  cs_wifiPassword :: string
  cs_tls :: bool
  cs_pinOverrides :: "nat dict"
  cs_live :: "live_check dict"
  cs_host :: string

definition new_flow :: "string \<Rightarrow> bool \<Rightarrow> connect_state" where
  "new_flow hostname https =
     \<lparr>cs_step = 1, cs_credential = None, cs_stored = False, cs_rotating = False, cs_board = Esp32, cs_wifiMode = Wifi_ble,
      cs_ssid = [], cs_wifiPassword = [], cs_tls = https, cs_pinOverrides = [], cs_live = [], cs_host = hostname\<rparr>"

section \<open>What follows from it\<close>

definition flow_wiring :: "connect_env \<Rightarrow> hardware_config option" where
  "flow_wiring env = (case ce_hardware env of Some h \<Rightarrow> Some h | None \<Rightarrow> ce_template_hardware env)"

definition flow_model :: "connect_env \<Rightarrow> board_model option" where
  "flow_model env = Option.bind (flow_wiring env) (\<lambda>w. cat_model (ce_firmware env) (hw_board w))"

definition installable :: "connect_env \<Rightarrow> bool" where
  "installable env \<longleftrightarrow> flow_wiring env \<noteq> None \<and> flow_model env \<noteq> None \<and> ce_firmware env \<noteq> None"

definition sketchBoard :: "connect_env \<Rightarrow> connect_state \<Rightarrow> board" where
  "sketchBoard env s = (if installable env then m_chip (the (flow_model env)) else cs_board s)"

definition phoneSetup :: "connect_env \<Rightarrow> connect_state \<Rightarrow> bool" where
  "phoneSetup env s =
     (if installable env then hasCapability (the (flow_model env)) Ble else bp_ble (BOARDS (sketchBoard env s)))"

definition flow_pins :: "connect_env \<Rightarrow> connect_state \<Rightarrow> nat dict" where
  "flow_pins env s =
     foldl (\<lambda>d (k, pin). dict_set k pin d) (defaultPins (ce_metrics env) (ce_actuators env) (sketchBoard env s)) (cs_pinOverrides s)"

definition flow_blocked :: "connect_env \<Rightarrow> connect_state \<Rightarrow> bool" where
  "flow_blocked env s \<longleftrightarrow> \<not> installable env \<and> pinClashes (flow_pins env s) \<noteq> []"

definition phone_mode :: "connect_env \<Rightarrow> connect_state \<Rightarrow> bool" where
  "phone_mode env s \<longleftrightarrow> phoneSetup env s \<and> cs_wifiMode s = Wifi_ble"

definition flow_wifi :: "connect_env \<Rightarrow> connect_state \<Rightarrow> (string \<times> string) option" where
  "flow_wifi env s = (if phone_mode env s then None else Some (cs_ssid s, cs_wifiPassword s))"

section \<open>The wiring guide\<close>

record wiring_guide =
  wr_board :: "(string \<times> string list) option"
  wr_pins :: "guide_pin list"
  wr_notes :: "string list dict"

definition wiringGuide :: "hardware_draft \<Rightarrow> keyed_row list \<Rightarrow> keyed_row list \<Rightarrow> hardware_catalog option \<Rightarrow> wiring_guide" where
  "wiringGuide h metrics actuators catalog =
     \<lparr>wr_board = map_option (\<lambda>m. (m_label m,
        m_notes m @ [''To set up Wi-Fi again, hold '' @ m_reset_label m @ '' for 5 seconds while the board is running.'']))
        (cat_model catalog (hd_board h)),
      wr_pins = guide_pins h metrics actuators catalog,
      wr_notes = guide_notes catalog (all_bindings h)\<rparr>"

text \<open>The wiring as rows keyed by wire id.\<close>

definition keyed_metrics :: "connect_env \<Rightarrow> keyed_row list" where
  "keyed_metrics env =
     map (\<lambda>m. \<lparr>kr_uid = metric_id m, kr_key = metric_id m, kr_name = cm_name m, kr_type = data_type_text (cm_data_type m)\<rparr>)
       (ce_metrics env)"

definition keyed_actuators :: "connect_env \<Rightarrow> keyed_row list" where
  "keyed_actuators env =
     map (\<lambda>a. \<lparr>kr_uid = actuator_id a, kr_key = actuator_id a, kr_name = ca_name a, kr_type = value_type_text (ca_value_type a)\<rparr>)
       (ce_actuators env)"

section \<open>The install path\<close>

record install_path =
  ip_wiring :: hardware_config
  ip_model :: board_model
  ip_guide :: wiring_guide
  ip_unlinked :: "nat list"
  ip_config :: "json option"

text \<open>Inputs wired to a pin but feeding no metric.\<close>

definition unlinked_pins :: "hardware_config \<Rightarrow> nat list" where
  "unlinked_pins w =
     concat (map (\<lambda>b. map snd (default_nil (hb_pins b)))
       (filter (\<lambda>b. \<not> list_ex (\<lambda>(ch, ref). ref \<noteq> []) (default_nil (hb_channels b))) (default_nil (hw_inputs w))))"

definition flow_input :: "connect_env \<Rightarrow> connect_state \<Rightarrow> hardware_config \<Rightarrow> board_model \<Rightarrow> string \<times> string \<Rightarrow> device_config_input" where
  "flow_input env s w model cred =
     \<lparr>di_tenantSlug = ce_tenantSlug env, di_slug = ce_slug env, di_name = ce_name env, di_metrics = ce_metrics env,
      di_actuators = ce_actuators env, di_wiring = w, di_model = model, di_host = trim (cs_host s), di_tls = cs_tls s,
      di_username = fst cred, di_password = snd cred,
      di_wifi = map_option (\<lambda>(ssid, pw). \<lparr>wl_ssid = ssid, wl_password = pw\<rparr>) (flow_wifi env s),
      di_provisioning = provisioning.Security1\<rparr>"

definition install_config :: "(string \<Rightarrow> string) \<Rightarrow> connect_env \<Rightarrow> connect_state \<Rightarrow> hardware_config \<Rightarrow> board_model \<Rightarrow> json option" where
  "install_config ascii env s w model =
     (case cs_credential s of
        Some cred \<Rightarrow>
          if brokerHostProblem (cs_host s) = None \<and> (phone_mode env s \<or> cs_ssid s \<noteq> [])
          then Some (buildFirmwareConfig ascii (flow_input env s w model cred)) else None
      | None \<Rightarrow> None)"

text \<open>\<open>uids\<close> are the ids \<open>hardwareToDraft\<close> draws, which the guide does not show.\<close>

definition install_of :: "(string \<Rightarrow> string) \<Rightarrow> (nat \<Rightarrow> string) \<Rightarrow> connect_env \<Rightarrow> connect_state \<Rightarrow> install_path option" where
  "install_of ascii uids env s =
     (if installable env then
        let w = the (flow_wiring env); model = the (flow_model env) in
        Some \<lparr>ip_wiring = w, ip_model = model,
              ip_guide = wiringGuide (the (hardwareToDraft (Some w) (keyed_metrics env) (keyed_actuators env) uids))
                (keyed_metrics env) (keyed_actuators env) (ce_firmware env),
              ip_unlinked = unlinked_pins w, ip_config = install_config ascii env s w model\<rparr>
      else None)"

section \<open>The live check\<close>

text \<open>The GPIO of an item: the first pin of the binding that has its id on a channel.\<close>

definition wiredPin :: "connect_env \<Rightarrow> connect_state \<Rightarrow> string \<Rightarrow> nat option" where
  "wiredPin env s key =
     (if \<not> installable env then dict_get (flow_pins env s) key
      else
        let w = the (flow_wiring env); kind = take 1 key; ident = drop 2 key in
        Option.bind (List.find (drives ident) (default_nil (if kind = ''m'' then hw_inputs w else hw_outputs w)))
          (\<lambda>b. case default_nil (hb_pins b) of [] \<Rightarrow> None | (role, pin) # rest \<Rightarrow> Some pin))"

definition checkedMetrics :: "connect_env \<Rightarrow> connect_state \<Rightarrow> catalog_metric list" where
  "checkedMetrics env s =
     (if installable env then filter (\<lambda>m. wiredPin env s (''m:'' @ metric_id m) \<noteq> None) (ce_metrics env) else ce_metrics env)"

definition boolActuators :: "connect_env \<Rightarrow> connect_state \<Rightarrow> catalog_actuator list" where
  "boolActuators env s =
     filter (\<lambda>a. ca_value_type a = BoolV \<and> (\<not> installable env \<or> wiredPin env s (''a:'' @ actuator_id a) \<noteq> None)) (ce_actuators env)"

record check_item =
  it_k :: string
  it_label :: string
  it_sub :: string
  it_hint :: string
  it_actuator :: "catalog_actuator option"

definition gpio_text :: "nat option \<Rightarrow> string" where
  "gpio_text pin = (case pin of Some p \<Rightarrow> nat_text p | None \<Rightarrow> ''undefined'')"

definition status_item :: "connect_env \<Rightarrow> connect_state \<Rightarrow> check_item" where
  "status_item env s =
     \<lparr>it_k = ''status'', it_label = ''Reached the broker'', it_sub = ce_tenantSlug env @ ''/'' @ ce_slug env @ ''/status'',
      it_hint =
        (if installable env
         then ''Check the board is on a 2.4 GHz network that can reach '' @ cs_host s @
              ''. Its LED double-blinks while it can'' @ [CHR 0x27] @ ''t connect.''
         else ''Check the board is powered and on a 2.4 GHz network, and that the whole credential was pasted.''),
      it_actuator = None\<rparr>"

definition metric_item :: "connect_env \<Rightarrow> connect_state \<Rightarrow> catalog_metric \<Rightarrow> check_item" where
  "metric_item env s m =
     \<lparr>it_k = ''m:'' @ metric_id m, it_label = ''First reading: '' @ cm_name m, it_sub = ellipsis @ ''/'' @ metric_id m,
      it_hint =
        (if installable env \<or> cm_data_type m = BoolD
         then ''Check the wiring on GPIO '' @ gpio_text (wiredPin env s (''m:'' @ metric_id m)) @ ''.''
         else ''The sketch publishes nothing until your sensor code returns a number.''),
      it_actuator = None\<rparr>"

definition actuator_item :: "connect_env \<Rightarrow> connect_state \<Rightarrow> catalog_actuator \<Rightarrow> check_item" where
  "actuator_item env s a =
     \<lparr>it_k = ''a:'' @ actuator_id a, it_label = ''Command test: '' @ ca_name a,
      it_sub = ellipsis @ ''/cmd/'' @ actuator_id a @ '' '' @ arrow @ '' ack'',
      it_hint = ''Nothing on GPIO '' @ gpio_text (wiredPin env s (''a:'' @ actuator_id a)) @ ''? Check the relay'' @ [CHR 0x27] @
        ''s supply and whether it'' @ [CHR 0x27] @ ''s active-low.'',
      it_actuator = Some a\<rparr>"

definition flow_items :: "connect_env \<Rightarrow> connect_state \<Rightarrow> check_item list" where
  "flow_items env s =
     [status_item env s] @ map (metric_item env s) (checkedMetrics env s) @ map (actuator_item env s) (boolActuators env s)"

definition item_ok :: "connect_state \<Rightarrow> string \<Rightarrow> bool" where
  "item_ok s k \<longleftrightarrow> (case dict_get (cs_live s) k of Some c \<Rightarrow> ck_ok c | None \<Rightarrow> False)"

definition allLive :: "connect_env \<Rightarrow> connect_state \<Rightarrow> bool" where
  "allLive env s \<longleftrightarrow> list_all (\<lambda>i. item_ok s (it_k i)) (flow_items env s)"

text \<open>The sketch, for the credential given (a masked one in the preview).\<close>

definition sketchFor :: "(string \<Rightarrow> string) \<Rightarrow> connect_env \<Rightarrow> connect_state \<Rightarrow> (string \<times> string) option \<Rightarrow> string" where
  "sketchFor ascii env s cred =
     buildSketch ascii
       \<lparr>sk_tenantSlug = ce_tenantSlug env, sk_deviceSlug = ce_slug env, sk_deviceName = ce_name env,
        sk_board = Some (sketchBoard env s), sk_host = cs_host s, sk_tls = cs_tls s, sk_metrics = ce_metrics env,
        sk_actuators = ce_actuators env, sk_credential = cred, sk_wifi = flow_wifi env s,
        sk_prov = (if phone_mode env s then Some sketch_security.Security1 else None), sk_pins = flow_pins env s\<rparr>"

section \<open>What the page hears\<close>

definition passed :: "string \<Rightarrow> live_check" where
  "passed detail = \<lparr>ck_ok = True, ck_busy = False, ck_detail = Some detail\<rparr>"

definition health_detail :: "rt_message \<Rightarrow> string" where
  "health_detail m =
     or_else (join ('' '' @ middle_dot @ '' '')
       ((case rm_rssi m of Some q \<Rightarrow> [''rssi '' @ number_text (Fin q) @ '' dBm''] | None \<Rightarrow> []) @
        (case rm_fw_version m of Some v \<Rightarrow> if v = [] then [] else [''fw '' @ v] | None \<Rightarrow> []))) ''online''"

definition reading_text :: "rt_message \<Rightarrow> string" where
  "reading_text m = (case rm_value m of Some q \<Rightarrow> number_text (Fin q) | None \<Rightarrow> ''undefined'')"

definition first_waiting :: "live_check dict \<Rightarrow> string option" where
  "first_waiting live = map_option fst (List.find (\<lambda>(k, c). starts_with k ''a:'' \<and> ck_busy c) live)"

definition hear :: "string \<Rightarrow> rt_message \<Rightarrow> connect_state \<Rightarrow> connect_state" where
  "hear deviceId m s =
     (let live = cs_live s in
      if rm_device_id m \<noteq> Some deviceId then s
      else if rm_type m = ''device_health'' \<and> rm_online m = Some True then
        s\<lparr>cs_live := dict_set ''status'' (passed (health_detail m)) live\<rparr>
      else if rm_type m = ''telemetry'' \<and> some_id (rm_metric m) then
        s\<lparr>cs_live := dict_set (''m:'' @ the (rm_metric m)) (passed (reading_text m))
            (dict_set ''status'' (case dict_get live ''status'' of
                Some c \<Rightarrow> if ck_ok c then c else passed ''publishing'' | None \<Rightarrow> passed ''publishing'') live)\<rparr>
      else if rm_type m = ''command_ack'' then
        (case first_waiting live of Some k \<Rightarrow> s\<lparr>cs_live := dict_set k (passed ''acknowledged'') live\<rparr> | None \<Rightarrow> s)
      else s)"

section \<open>The handlers\<close>

text \<open>\<open>rotate\<close> up to its POST, with the answer to the confirm dialog, and after it.\<close>

definition rotate_starts :: "connect_env \<Rightarrow> bool \<Rightarrow> connect_state \<Rightarrow> connect_state" where
  "rotate_starts env answer s = (if \<not> ce_neverConnected env \<and> \<not> answer then s else s\<lparr>cs_rotating := True\<rparr>)"

definition rotate_ends :: "(string \<times> string) option \<Rightarrow> connect_state \<Rightarrow> connect_state" where
  "rotate_ends result s =
     (case result of
        Some cred \<Rightarrow> s\<lparr>cs_credential := Some cred, cs_stored := False, cs_rotating := False\<rparr>
      | None \<Rightarrow> s\<lparr>cs_rotating := False\<rparr>)"

definition test_body :: "catalog_actuator \<Rightarrow> json" where
  "test_body a =
     command_body (actuator_id a) (case ca_on_value a of Some v \<Rightarrow> if v = JNull then JBool True else v | None \<Rightarrow> JBool True)"

definition test_starts :: "catalog_actuator \<Rightarrow> connect_state \<Rightarrow> connect_state" where
  "test_starts a s = s\<lparr>cs_live := dict_set (''a:'' @ actuator_id a) \<lparr>ck_ok = False, ck_busy = True, ck_detail = None\<rparr> (cs_live s)\<rparr>"

definition test_fails :: "catalog_actuator \<Rightarrow> connect_state \<Rightarrow> connect_state" where
  "test_fails a s = s\<lparr>cs_live := dict_set (''a:'' @ actuator_id a) \<lparr>ck_ok = False, ck_busy = False, ck_detail = None\<rparr> (cs_live s)\<rparr>"

definition may_test :: "connect_state \<Rightarrow> catalog_actuator \<Rightarrow> bool" where
  "may_test s a \<longleftrightarrow>
     item_ok s ''status'' \<and>
     (case dict_get (cs_live s) (''a:'' @ actuator_id a) of Some c \<Rightarrow> \<not> ck_ok c \<and> \<not> ck_busy c | None \<Rightarrow> True)"

definition unstored :: "connect_state \<Rightarrow> bool" where
  "unstored s \<longleftrightarrow> cs_credential s \<noteq> None \<and> \<not> cs_stored s"

definition leave_flow :: "bool \<Rightarrow> connect_state \<Rightarrow> bool" where
  "leave_flow answer s = confirmLeave (unstored s) answer"

definition changeBoard :: "board \<Rightarrow> connect_state \<Rightarrow> connect_state" where
  "changeBoard b s = s\<lparr>cs_board := b, cs_pinOverrides := []\<rparr>"

definition pick_pin :: "string \<Rightarrow> nat \<Rightarrow> connect_state \<Rightarrow> connect_state" where
  "pick_pin key pin s = s\<lparr>cs_pinOverrides := dict_set key pin (cs_pinOverrides s)\<rparr>"

text \<open>Continue and Back of the steps, and the stepper.\<close>

definition store_continue :: "connect_state \<Rightarrow> connect_state" where
  "store_continue s = s\<lparr>cs_stored := True, cs_step := 2\<rparr>"

definition options_done :: "connect_env \<Rightarrow> connect_state \<Rightarrow> bool" where
  "options_done env s \<longleftrightarrow>
     \<not> (flow_blocked env s \<or> (\<not> phone_mode env s \<and> cs_ssid s = []) \<or> brokerHostProblem (cs_host s) \<noteq> None)"

text \<open>
  Next and Back of the steps together: \<open>OptionsStep\<close> (to 3, back to 1), \<open>FirmwareStep\<close> (to 4 or 5, back to 2),
  \<open>PhoneStep\<close> (to 5, back to 3) and \<open>LiveCheckStep\<close> (back to 4 or 3).
\<close>

definition step_next :: "connect_env \<Rightarrow> connect_state \<Rightarrow> nat" where
  "step_next env s =
     (if cs_step s = 2 then 3 else if cs_step s = 3 then if phone_mode env s then 4 else 5 else if cs_step s = 4 then 5 else cs_step s)"

definition step_back :: "connect_env \<Rightarrow> connect_state \<Rightarrow> nat" where
  "step_back env s =
     (if cs_step s = 2 then 1 else if cs_step s = 3 then 2 else if cs_step s = 4 then 3
      else if cs_step s = 5 then if phone_mode env s then 4 else 3 else cs_step s)"

definition stepper :: "connect_env \<Rightarrow> connect_state \<Rightarrow> (nat \<times> string) list" where
  "stepper env s =
     [(1, ''Credential''), (2, ''Options''), (3, if installable env then ''Install'' else ''Flash'')] @
     (if phone_mode env s then [(4, ''Wi-Fi'')] else []) @ [(5, ''Live check'')]"

definition can_pick :: "connect_state \<Rightarrow> nat \<Rightarrow> bool" where
  "can_pick s n \<longleftrightarrow> n = 1 \<or> cs_stored s"

end
