(* ===== verification/Install_Facts.thy ===== *)
theory Install_Facts
  imports Device_Config
begin

text \<open>
  The install, end to end: what the board runs with is what the dashboard was asked to install. The
  config is built from the template and wiring, written as a blob, read from flash and checked.
\<close>

section \<open>The fields of a built config\<close>

lemma config_fields:
  fixes i ascii
  defines "f \<equiv> field (buildFirmwareConfig ascii i)"
  shows "f ''v'' = Some (jnat 1)" "f ''board'' = Some (JStr (chip_name (m_chip (di_model i))))"
    "f ''model'' = Some (JStr (m_id (di_model i)))"
    "f ''device'' = Some (JObj [(''tenant'', JStr (di_tenantSlug i)), (''device'', JStr (di_slug i))])"
    "f ''mqtt'' = Some (JObj [(''host'', JStr (di_host i)), (''port'', jnat (if di_tls i then 8883 else 1883)),
       (''tls'', JBool (di_tls i)), (''username'', JStr (di_username i)), (''password'', JStr (di_password i))])"
    "f ''prov'' = Some (prov_config ascii i)"
    "f ''wifi'' = map_option (\<lambda>w. JObj [(''ssid'', JStr (wl_ssid w)), (''password'', JStr (wl_password w))]) (di_wifi i)"
    "f ''i2c'' = map_option (\<lambda>b. JObj [(''sda'', jnat (i2c_sda b)), (''scl'', jnat (i2c_scl b))]) (hw_i2c (di_wiring i))"
    "f ''board_io'' = Some (board_io_config (di_model i))"
    "f ''metrics'' = Some (JArr (map metric_config (di_metrics i)))"
    "f ''actuators'' = Some (JArr (map actuator_config (di_actuators i)))"
    "f ''inputs'' = Some (JArr (map binding_config (default_nil (hw_inputs (di_wiring i)))))"
    "f ''outputs'' = Some (JArr (map binding_config (default_nil (hw_outputs (di_wiring i)))))"
  unfolding f_def
  by (cases "di_wifi i"; cases "hw_i2c (di_wiring i)"; simp add: buildFirmwareConfig_def)+

lemma prov_fields:
  "field (prov_config ascii i) ''name'' = Some (JStr (provName ascii (di_name i)))"
  "field (prov_config ascii i) ''security'' = Some (jnat (case di_provisioning i of Security1 \<Rightarrow> 1 | Security2 _ _ \<Rightarrow> 2))"
  "di_provisioning i = Security2 s v \<Longrightarrow> field (prov_config ascii i) ''salt'' = Some (JStr (base64 s))"
  "di_provisioning i = Security2 s v \<Longrightarrow> field (prov_config ascii i) ''verifier'' = Some (JStr (base64 v))"
  by (cases "di_provisioning i"; simp add: prov_config_def)+

definition led_used :: "board_model \<Rightarrow> led_type" where
  "led_used m = (case led_type (m_led m) of Some t \<Rightarrow> t | None \<Rightarrow> Gpio_led)"

lemma load_built_led:
  "load_led d (member (Some (board_io_config m)) ''led'') =
     Inr (led_used m, if led_used m = No_led then Fin (- 1) else Fin (of_nat (led_pin (m_led m))), led_active_low (m_led m))"
proof -
  have l: "member (Some (board_io_config m)) ''led'' =
      Some (JObj [(''type'', JStr (led_name (led_used m))), (''pin'', jnat (led_pin (m_led m))), (''active_low'', JBool (led_active_low (m_led m)))])"
    by (simp add: member_def board_io_config_def led_used_def)
  show ?thesis unfolding l
    by (cases "led_used m") (simp_all add: load_led_def is_object_def member_def text_of_def number_of_def flag_of_def jnat_def Let_def)
qed

text \<open>What a complete install form holds.\<close>

definition input_ok :: "device_config_input \<Rightarrow> bool" where
  "input_ok i \<longleftrightarrow>
     di_tenantSlug i \<noteq> [] \<and> di_slug i \<noteq> [] \<and> di_host i \<noteq> [] \<and> di_username i \<noteq> [] \<and> di_password i \<noteq> [] \<and>
     (case di_wifi i of Some w \<Rightarrow> wl_ssid w \<noteq> [] | None \<Rightarrow> True) \<and>
     (case di_provisioning i of Security1 \<Rightarrow> True | Security2 s v \<Rightarrow> s \<noteq> [] \<and> v \<noteq> [])"

definition runs_with :: "(string \<Rightarrow> string) \<Rightarrow> device_config_input \<Rightarrow> device_config \<Rightarrow> bool" where
  "runs_with ascii i c \<longleftrightarrow>
     dc_tenant c = di_tenantSlug i \<and> dc_device c = di_slug i \<and> dc_model c = m_id (di_model i) \<and>
     dc_host c = di_host i \<and> dc_username c = di_username i \<and> dc_password c = di_password i \<and> dc_tls c = di_tls i \<and>
     dc_port c = Fin (if di_tls i then 8883 else 1883) \<and> dc_wifi c = di_wifi i \<and>
     dc_provName c = provName ascii (di_name i) \<and>
     dc_security c = (case di_provisioning i of Security1 \<Rightarrow> 1 | Security2 _ _ \<Rightarrow> 2) \<and>
     dc_sec2 c = (case di_provisioning i of Security1 \<Rightarrow> None | Security2 s v \<Rightarrow> if di_wifi i = None then Some (s, v) else None) \<and>
     dc_i2c c = (case hw_i2c (di_wiring i) of Some b \<Rightarrow> (Fin (of_nat (i2c_sda b)), Fin (of_nat (i2c_scl b))) | None \<Rightarrow> (Fin (- 1), Fin (- 1))) \<and>
     dc_reset c = Fin (of_nat (m_reset_pin (di_model i))) \<and>
     dc_led c = (led_used (di_model i), if led_used (di_model i) = No_led then Fin (- 1) else Fin (of_nat (led_pin (m_led (di_model i)))),
                 led_active_low (m_led (di_model i))) \<and>
     dc_metrics c = Some (JArr (map metric_config (di_metrics i))) \<and>
     dc_actuators c = Some (JArr (map actuator_config (di_actuators i))) \<and>
     dc_inputs c = Some (JArr (map binding_config (default_nil (hw_inputs (di_wiring i))))) \<and>
     dc_outputs c = Some (JArr (map binding_config (default_nil (hw_outputs (di_wiring i)))))"

lemma require_device:
  "requireText (Some (JObj [(''tenant'', JStr t), (''device'', JStr d)])) ''tenant'' w = (if t \<noteq> [] then Inr t else Inl (''missing '' @ w @ ''.tenant''))"
  "requireText (Some (JObj [(''tenant'', JStr t), (''device'', JStr d)])) ''device'' w = (if d \<noteq> [] then Inr d else Inl (''missing '' @ w @ ''.device''))"
  by (simp_all add: requireText_def member_def text_of_def)

lemma load_built:
  assumes "input_ok i" "cb_id chip = chip_name (m_chip (di_model i))" "cb_bluetooth chip \<or> di_wifi i \<noteq> None"
    and "\<And>bs. decode (base64 bs) = Some bs"
  shows "\<exists>c. loadConfig decode chip (buildFirmwareConfig ascii i) = Inr c \<and> runs_with ascii i c"
proof -
  have m: "member (Some (buildFirmwareConfig ascii i)) k = field (buildFirmwareConfig ascii i) k" for k
    by (simp add: member_def)
  have wifi: "load_wifi (map_option (\<lambda>w. JObj [(''ssid'', JStr (wl_ssid w)), (''password'', JStr (wl_password w))]) (di_wifi i)) = Inr (di_wifi i)"
    using assms(1) by (cases "di_wifi i") (simp_all add: load_wifi_def is_object_def requireText_def member_def text_of_def and_then_def input_ok_def)
  note ok = assms(1) [unfolded input_ok_def]
  note defs = member_def text_of_def number_of_def flag_of_def and_then_def jnat_def
  show ?thesis
  proof (cases "di_provisioning i")
    case Security1
    show ?thesis
      unfolding loadConfig_def Let_def m config_fields require_device wifi load_built_led
      using ok assms(2,3)
      by (cases "hw_i2c (di_wiring i)")
        (auto simp: defs requireText_def prov_fields Security1 runs_with_def board_io_config_def)
  next
    case (Security2 s v)
    have sec2: "load_sec2 decode (Some (prov_config ascii i)) = Inr (Some (s, v))"
      using ok by (simp add: load_sec2_def member_def text_of_def prov_fields(3,4) [OF Security2] Security2 assms(4))
    show ?thesis
      unfolding loadConfig_def Let_def m config_fields require_device wifi load_built_led sec2
      using ok assms(2,3)
      by (cases "hw_i2c (di_wiring i)"; cases "di_wifi i")
        (auto simp: defs requireText_def prov_fields Security2 runs_with_def board_io_config_def)
  qed
qed

lemma boots_built:
  assumes "encodeConfigBlob (buildFirmwareConfig ascii i) room = Inr blob" "room < 2 ^ 32"
    and "json_ok (buildFirmwareConfig ascii i)" "\<And>v. json_ok v \<Longrightarrow> deserialize (stringify [] v) = Some v"
    and "\<And>bs. decode (base64 bs) = Some bs"
    and "input_ok i" "cb_id chip = chip_name (m_chip (di_model i))" "cb_bluetooth chip \<or> di_wifi i \<noteq> None"
  shows "\<exists>c. boot deserialize decode chip blob = Inr c \<and> runs_with ascii i c"
proof -
  have "read_blob deserialize blob = Inr (buildFirmwareConfig ascii i)"
    by (rule read_encoded [OF assms(1-4)])
  then show ?thesis using load_built [of i chip decode ascii, OF assms(6-8,5)] by (simp add: boot_def and_then_def)
qed

text \<open>
  C2: with a JSON library and a base64 decoder that undo the browser's encoders, a complete install
  form for this chip whose blob fits the partition makes the board run with exactly the broker,
  credential, topics, provisioning, pins, metrics and wiring it was filled in with.
\<close>

theorem installed_config_boots:
  assumes "encodeConfigBlob (buildFirmwareConfig ascii i) room = Inr blob" "room < 2 ^ 32"
    and "json_ok (buildFirmwareConfig ascii i)" "\<And>v. json_ok v \<Longrightarrow> deserialize (stringify [] v) = Some v"
    and "\<And>bs. decode (base64 bs) = Some bs"
    and "input_ok i" "cb_id chip = chip_name (m_chip (di_model i))" "cb_bluetooth chip \<or> di_wifi i \<noteq> None"
  shows "\<exists>c. boot deserialize decode chip blob = Inr c \<and> runs_with ascii i c"
  using assms by (rule boots_built)

section \<open>A decoder, for the witness\<close>

definition b64_val :: "char \<Rightarrow> nat" where
  "b64_val c = (case find_index (\<lambda>x. x = c) ''ABCDEFGHIJKLMNOPQRSTUVWXYZabcdefghijklmnopqrstuvwxyz0123456789+/'' of
     Some n \<Rightarrow> n | None \<Rightarrow> 0)"

fun unbase64 :: "string \<Rightarrow> byte list" where
  "unbase64 (a # b # c # d # rest) =
     (if c = CHR ''='' then [of_nat (b64_val a * 4 + b64_val b div 16)]
      else if d = CHR ''='' then [of_nat (b64_val a * 4 + b64_val b div 16), of_nat (b64_val b mod 16 * 16 + b64_val c div 4)]
      else [of_nat (b64_val a * 4 + b64_val b div 16), of_nat (b64_val b mod 16 * 16 + b64_val c div 4),
            of_nat (b64_val c mod 4 * 64 + b64_val d)] @ unbase64 rest)"
| "unbase64 _ = []"

lemma b64_val_char: "b64_val (b64_char n) = n mod 64 \<and> b64_char n \<noteq> CHR ''=''"
proof -
  have all: "list_all (\<lambda>k. b64_val (b64_char k) = k \<and> b64_char k \<noteq> CHR ''='') [0..<64]" by code_simp
  have "n mod 64 \<in> set [0..<64]" by simp
  moreover have "b64_char (n mod 64) = b64_char n" by (simp add: b64_char_def)
  ultimately show ?thesis using all unfolding list_all_iff by metis
qed

lemma byte_bound: "unat (a :: byte) < 256"
  using unsigned_less [of a] by simp

lemma six_bits:
  assumes "(a::nat) < 256" "(b::nat) < 256"
  shows "a div 4 mod 64 = a div 4" "(a mod 4 * 16 + b div 16) mod 64 = a mod 4 * 16 + b div 16"
    "(a mod 4 * 16 + b div 16) div 16 = a mod 4" "(a mod 4 * 16 + b div 16) mod 16 = b div 16"
    "a mod 4 * 16 mod 64 = a mod 4 * 16" "b mod 16 * 4 mod 64 = b mod 16 * 4"
    "(b mod 16 * 4 + a div 64) mod 64 = b mod 16 * 4 + a div 64" "(b mod 16 * 4 + a div 64) div 4 = b mod 16"
    "(b mod 16 * 4 + a div 64) mod 4 = a div 64" "a div 4 * 4 + a mod 4 = a" "b div 16 * 16 + b mod 16 = b"
    "a div 64 * 64 + a mod 64 = a"
proof -
  have k: "a div 4 < 64" "b div 16 < 16" "a mod 4 < 4" "b mod 16 < 16" "a div 64 < 4" using assms by simp_all
  then show "(a mod 4 * 16 + b div 16) mod 64 = a mod 4 * 16 + b div 16" "a mod 4 * 16 mod 64 = a mod 4 * 16"
    "b mod 16 * 4 mod 64 = b mod 16 * 4" "(b mod 16 * 4 + a div 64) mod 64 = b mod 16 * 4 + a div 64"
    by simp_all
  show "a div 4 mod 64 = a div 4" "(a mod 4 * 16 + b div 16) div 16 = a mod 4"
    "(a mod 4 * 16 + b div 16) mod 16 = b div 16" "(b mod 16 * 4 + a div 64) div 4 = b mod 16"
    "(b mod 16 * 4 + a div 64) mod 4 = a div 64" using k by simp_all
qed simp_all

lemma unbase64_base64: "unbase64 (base64 bs) = bs"
proof (induction bs rule: base64.induct)
  case 1
  then show ?case by simp
next
  case (2 a)
  note s = six_bits [OF byte_bound [of a] byte_bound [of a]]
  have "of_nat (unat a div 4 * 4 + unat a mod 4) = a" unfolding s by simp
  then show ?case by (simp only: base64.simps unbase64.simps b64_val_char if_True s nonzero_mult_div_cancel_right) simp
next
  case (3 a b)
  note s = six_bits [OF byte_bound [of a] byte_bound [of b]]
  have "of_nat (unat a div 4 * 4 + unat a mod 4) = a" "of_nat (unat b div 16 * 16 + unat b mod 16) = b" unfolding s by simp_all
  then show ?case by (simp only: base64.simps unbase64.simps b64_val_char if_True if_False s nonzero_mult_div_cancel_right) simp
next
  case (4 a b c rest)
  note s = six_bits [OF byte_bound [of a] byte_bound [of b]] six_bits [OF byte_bound [of c] byte_bound [of b]]
  have "of_nat (unat a div 4 * 4 + unat a mod 4) = a" "of_nat (unat b div 16 * 16 + unat b mod 16) = b"
    "of_nat (unat c div 64 * 64 + unat c mod 64) = c" unfolding s by simp_all
  then show ?case using 4
    by (simp only: base64.simps append.simps unbase64.simps b64_val_char if_False s)
qed

text \<open>A bound on the printed length, by structure: no character grows past six.\<close>

fun text_bound :: "json \<Rightarrow> nat" where
  "text_bound JNull = 4"
| "text_bound (JBool b) = 5"
| "text_bound (JNum n) = length (json_number n)"
| "text_bound (JStr s) = 6 * length s + 2"
| "text_bound (JArr xs) = 2 + sum_list (map (\<lambda>x. Suc (text_bound x)) xs)"
| "text_bound (JObj kvs) = 2 + sum_list (map (\<lambda>(k, n). 6 * length k + 4 + n) (map (map_prod id text_bound) kvs))"

lemma quoted_bound: "length (quoted s) \<le> 6 * length s + 2"
proof -
  have "length (esc_char c) \<le> 6" for c by (simp add: esc_char_def)
  then have "length (concat (map esc_char s)) \<le> 6 * length s"
    by (induction s) (simp_all, metis add_mono)
  then show ?thesis by (simp add: quoted_def)
qed

lemma render_bound:
  "length (render [] n v) \<le> text_bound v"
  "length (render_items [] n xs) \<le> sum_list (map (\<lambda>x. Suc (text_bound x)) xs)"
  "length (render_members [] n kvs) \<le> sum_list (map (\<lambda>(k, m). 6 * length k + 4 + m) (map (map_prod id text_bound) kvs))"
proof (induction "[] :: string" n v and "[] :: string" n xs and "[] :: string" n kvs rule: render_render_items_render_members.induct)
  case (13 n k v)
  then show ?case using quoted_bound [of k] by (simp add: break_def)
next
  case (14 n k v m ms)
  then show ?case using quoted_bound [of k] by (simp add: break_def)
qed (simp_all add: break_def quoted_bound [simplified])

lemma json_ok_jnat: "json_ok (jnat n)"
  using short_decimal_of_int [of "int n"] by (simp add: jnat_def)

lemma text_bound_jnat: "text_bound (jnat n) = length (nat_text n)"
  by (simp add: jnat_def json_number_def rat_text_def abs_text_def Let_def)

definition demo_input :: device_config_input where
  "demo_input = \<lparr>di_tenantSlug = ''acme'', di_slug = ''pump'', di_name = ''Pump'', di_metrics = [], di_actuators = [],
     di_wiring = \<lparr>hw_board = ''esp32'', hw_i2c = Some \<lparr>i2c_sda = 21, i2c_scl = 22\<rparr>, hw_inputs = None, hw_outputs = None\<rparr>,
     di_model = legacyModel Esp32, di_host = ''mqtt.example.com'', di_tls = True, di_username = ''dev-1'', di_password = ''s3cret'',
     di_wifi = None, di_provisioning = Security2 [1, 2] [3]\<rparr>"

definition demo_chip :: chip_build where
  "demo_chip = \<lparr>cb_id = ''esp32'', cb_bluetooth = True, cb_reset = Fin 0, cb_led = (Gpio_led, Fin 2, False)\<rparr>"

lemma installed_config_boots_witness:
  "\<exists>blob c. encodeConfigBlob (buildFirmwareConfig id demo_input) 8192 = Inr blob \<and>
     boot json_parse (\<lambda>s. Some (unbase64 s)) demo_chip blob = Inr c \<and> runs_with id demo_input c"
proof -
  have ok: "json_ok (buildFirmwareConfig id demo_input)"
    by (simp add: buildFirmwareConfig_def demo_input_def legacyModel_def prov_config_def board_io_config_def json_ok_jnat default_nil_def)
  have "length (stringify [] (buildFirmwareConfig id demo_input)) \<le> text_bound (buildFirmwareConfig id demo_input)"
    unfolding stringify_def by (rule render_bound(1))
  also have "\<dots> \<le> 5000"
    using provName_fits [of id "di_name demo_input"]
    by (simp add: buildFirmwareConfig_def demo_input_def legacyModel_def prov_config_def board_io_config_def text_bound_jnat default_nil_def
        nat_text.simps)
  finally have "length (stringify [] (buildFirmwareConfig id demo_input)) \<le> 5000" .
  then obtain blob where b: "encodeConfigBlob (buildFirmwareConfig id demo_input) 8192 = Inr blob"
    by (simp add: encodeConfigBlob_def Let_def CONFIG_HEADER_SIZE_def)
  have "\<exists>c. boot json_parse (\<lambda>s. Some (unbase64 s)) demo_chip blob = Inr c \<and> runs_with id demo_input c"
    by (rule installed_config_boots [OF b _ ok])
      (simp_all add: compact.parse_print unbase64_base64 input_ok_def demo_input_def demo_chip_def legacyModel_def)
  then show ?thesis using b by blast
qed

end
