(* ===== verification/Connect_Facts.thy ===== *)
theory Connect_Facts imports Connect Install_Facts begin

text \<open>
  The Connect flow as a state machine, with the log of what the page heard and tested: no step past
  the first without a stored credential, no line of the live check green without a frame that says
  so, and what leaves the Options step is ready to install.
\<close>

section \<open>The flow's steps\<close>

datatype flow_event = Heard rt_message | Tested catalog_actuator | Pressed

text \<open>
  Each rule is one handler under the condition the page offers it with; \<open>env\<close> is what is loaded
  then.  \<open>continues\<close> at step 3 is also what a finished full install does.
\<close>

inductive cf_step :: "string \<Rightarrow> flow_event \<Rightarrow> connect_state \<Rightarrow> connect_state \<Rightarrow> bool" for deviceId where
  hears: "cf_step deviceId (Heard m) s (hear deviceId m s)"
| rotates: "cs_step s = 1 \<Longrightarrow> cs_credential s = None \<Longrightarrow> \<not> cs_rotating s \<Longrightarrow>
    cf_step deviceId Pressed s (rotate_starts env answer s)"
| rotated: "cs_rotating s \<Longrightarrow> cf_step deviceId Pressed s (rotate_ends result s)"
| stores: "cs_step s = 1 \<Longrightarrow> cs_credential s \<noteq> None \<Longrightarrow> cf_step deviceId Pressed s (store_continue s)"
| continues: "2 \<le> cs_step s \<Longrightarrow> (cs_step s = 2 \<longrightarrow> options_done env s) \<Longrightarrow> (cs_step s = 4 \<longrightarrow> phone_mode env s) \<Longrightarrow>
    cf_step deviceId Pressed s (s\<lparr>cs_step := step_next env s\<rparr>)"
| goes_back: "2 \<le> cs_step s \<Longrightarrow> cf_step deviceId Pressed s (s\<lparr>cs_step := step_back env s\<rparr>)"
| picks: "(n, label) \<in> set (stepper env s) \<Longrightarrow> can_pick s n \<Longrightarrow> cf_step deviceId Pressed s (s\<lparr>cs_step := n\<rparr>)"
| chooses_board: "cs_step s = 2 \<Longrightarrow> \<not> installable env \<Longrightarrow> cf_step deviceId Pressed s (changeBoard b s)"
| chooses_pin: "cs_step s = 2 \<Longrightarrow> \<not> installable env \<Longrightarrow> pin \<in> set (pinChoices (cs_board s)) \<Longrightarrow>
    cf_step deviceId Pressed s (pick_pin key pin s)"
| fills_in: "cs_step s = 2 \<Longrightarrow>
    cf_step deviceId Pressed s
      (s\<lparr>cs_wifiMode := mode, cs_ssid := ssid, cs_wifiPassword := pw, cs_tls := tls, cs_host := host\<rparr>)"
| tests: "cs_step s = 5 \<Longrightarrow> a \<in> set (boolActuators env s) \<Longrightarrow> may_test s a \<Longrightarrow> cf_step deviceId (Tested a) s (test_starts a s)"
| test_failed: "cf_step deviceId Pressed s (test_fails a s)"

inductive flow_reachable :: "string \<Rightarrow> flow_event list \<Rightarrow> connect_state \<Rightarrow> bool" for deviceId where
  start: "flow_reachable deviceId [] (new_flow hostname https)"
| step: "flow_reachable deviceId evs s \<Longrightarrow> cf_step deviceId e s s' \<Longrightarrow> flow_reachable deviceId (evs @ [e]) s'"

section \<open>What backs a green line\<close>

definition is_health :: "string \<Rightarrow> rt_message \<Rightarrow> bool" where
  "is_health deviceId m \<longleftrightarrow> rm_device_id m = Some deviceId \<and> rm_type m = ''device_health'' \<and> rm_online m = Some True"

definition is_reading :: "string \<Rightarrow> rt_message \<Rightarrow> bool" where
  "is_reading deviceId m \<longleftrightarrow> rm_device_id m = Some deviceId \<and> rm_type m = ''telemetry'' \<and> some_id (rm_metric m)"

definition is_ack :: "string \<Rightarrow> rt_message \<Rightarrow> bool" where
  "is_ack deviceId m \<longleftrightarrow> rm_device_id m = Some deviceId \<and> rm_type m = ''command_ack''"

definition heard :: "(rt_message \<Rightarrow> bool) \<Rightarrow> flow_event list \<Rightarrow> bool" where
  "heard P evs \<longleftrightarrow> list_ex (\<lambda>e. case e of Heard m \<Rightarrow> P m | _ \<Rightarrow> False) evs"

definition tested :: "string \<Rightarrow> flow_event list \<Rightarrow> bool" where
  "tested k evs \<longleftrightarrow> list_ex (\<lambda>e. case e of Tested a \<Rightarrow> ''a:'' @ actuator_id a = k | _ \<Rightarrow> False) evs"

text \<open>A test was sent and an acknowledgement of the device came after it.\<close>

fun answered :: "string \<Rightarrow> string \<Rightarrow> flow_event list \<Rightarrow> bool" where
  "answered deviceId k [] \<longleftrightarrow> False"
| "answered deviceId k (e # es) \<longleftrightarrow>
     (case e of Tested a \<Rightarrow> ''a:'' @ actuator_id a = k \<and> heard (is_ack deviceId) es | _ \<Rightarrow> False) \<or> answered deviceId k es"

definition backed :: "string \<Rightarrow> flow_event list \<Rightarrow> string \<Rightarrow> bool" where
  "backed deviceId evs k \<longleftrightarrow>
     k = ''status'' \<and> heard (\<lambda>m. is_health deviceId m \<or> is_reading deviceId m) evs \<or>
     heard (\<lambda>m. is_reading deviceId m \<and> k = ''m:'' @ the (rm_metric m)) evs \<or> answered deviceId k evs"

lemma heard_snoc: "heard P (evs @ [e]) \<longleftrightarrow> heard P evs \<or> (case e of Heard m \<Rightarrow> P m | _ \<Rightarrow> False)"
  by (auto simp: heard_def)

lemma tested_snoc: "tested k (evs @ [e]) \<longleftrightarrow> tested k evs \<or> (case e of Tested a \<Rightarrow> ''a:'' @ actuator_id a = k | _ \<Rightarrow> False)"
  by (auto simp: tested_def)

lemma answered_grows: "answered d k evs \<Longrightarrow> answered d k (evs @ [e])"
  by (induction evs) (auto simp: heard_snoc split: flow_event.splits)

lemma answered_now: "tested k evs \<Longrightarrow> is_ack d m \<Longrightarrow> answered d k (evs @ [Heard m])"
  by (induction evs) (auto simp: tested_def heard_snoc split: flow_event.splits)

lemma backed_grows: "backed d evs k \<Longrightarrow> backed d (evs @ [e]) k"
  unfolding backed_def heard_snoc using answered_grows by blast

section \<open>The invariant\<close>

definition live_ok :: "string \<Rightarrow> flow_event list \<Rightarrow> live_check dict \<Rightarrow> bool" where
  "live_ok deviceId evs live \<longleftrightarrow>
     list_all (\<lambda>(k, c). (ck_ok c \<longrightarrow> backed deviceId evs k) \<and> (ck_busy c \<longrightarrow> tested k evs)) live"

definition flow_ok :: "connect_state \<Rightarrow> bool" where
  "flow_ok s \<longleftrightarrow>
     cs_step s \<in> {1, 2, 3, 4, 5} \<and> (cs_step s \<noteq> 1 \<longrightarrow> cs_stored s) \<and> (cs_stored s \<longrightarrow> cs_credential s \<noteq> None) \<and>
     (cs_rotating s \<longrightarrow> cs_credential s = None) \<and>
     list_all (\<lambda>(k, pin). pin \<in> set (pinChoices (cs_board s))) (cs_pinOverrides s)"

lemma live_ok_set:
  "live_ok d evs live \<Longrightarrow> (ck_ok c \<longrightarrow> backed d evs k) \<Longrightarrow> (ck_busy c \<longrightarrow> tested k evs) \<Longrightarrow> live_ok d evs (dict_set k c live)"
  unfolding live_ok_def by (induction live) auto

lemma live_ok_grows: "live_ok d evs live \<Longrightarrow> live_ok d (evs @ [e]) live"
  unfolding live_ok_def list_all_iff using backed_grows by (fastforce simp: tested_snoc)

lemma live_ok_get: "live_ok d evs live \<Longrightarrow> dict_get live k = Some c \<Longrightarrow> ck_ok c \<Longrightarrow> backed d evs k"
  unfolding live_ok_def list_all_iff by (drule map_of_SomeD) auto

lemma live_ok_busy: "live_ok d evs live \<Longrightarrow> dict_get live k = Some c \<Longrightarrow> ck_busy c \<Longrightarrow> tested k evs"
  unfolding live_ok_def list_all_iff by (drule map_of_SomeD) auto

lemma waiting_tested: "live_ok d evs live \<Longrightarrow> first_waiting live = Some k \<Longrightarrow> tested k evs"
  unfolding first_waiting_def live_ok_def by (induction live) (auto split: if_splits)

lemma hear_health: "is_health d m \<Longrightarrow> hear d m s = s\<lparr>cs_live := dict_set ''status'' (passed (health_detail m)) (cs_live s)\<rparr>"
  by (simp add: hear_def is_health_def Let_def)

definition heard_status :: "live_check dict \<Rightarrow> live_check" where
  "heard_status live =
     (case dict_get live ''status'' of Some c \<Rightarrow> if ck_ok c then c else passed ''publishing'' | None \<Rightarrow> passed ''publishing'')"

lemma hear_reading:
  "is_reading d m \<Longrightarrow> hear d m s = s\<lparr>cs_live := dict_set (''m:'' @ the (rm_metric m)) (passed (reading_text m))
     (dict_set ''status'' (heard_status (cs_live s)) (cs_live s))\<rparr>"
  by (simp add: hear_def is_reading_def heard_status_def Let_def)

lemma hear_ack:
  "is_ack d m \<Longrightarrow> hear d m s =
     (case first_waiting (cs_live s) of Some k \<Rightarrow> s\<lparr>cs_live := dict_set k (passed ''acknowledged'') (cs_live s)\<rparr> | None \<Rightarrow> s)"
  by (simp add: hear_def is_ack_def Let_def)

lemma hear_other: "\<not> is_health d m \<Longrightarrow> \<not> is_reading d m \<Longrightarrow> \<not> is_ack d m \<Longrightarrow> hear d m s = s"
  unfolding is_health_def is_reading_def is_ack_def hear_def Let_def by presburger

lemma hear_live_ok:
  assumes "live_ok d evs (cs_live s)"
  shows "live_ok d (evs @ [Heard m]) (cs_live (hear d m s))"
proof -
  let ?evs = "evs @ [Heard m]"
  note g = live_ok_grows [OF assms, of "Heard m"]
  have status: "backed d ?evs ''status''" if "is_health d m \<or> is_reading d m"
    using that by (simp add: backed_def heard_snoc)
  have metric: "backed d ?evs (''m:'' @ the (rm_metric m))" if "is_reading d m"
    using that by (simp add: backed_def heard_snoc)
  have test: "backed d ?evs k" if "is_ack d m" "first_waiting (cs_live s) = Some k" for k
    using answered_now [OF waiting_tested [OF assms that(2)] that(1)] by (simp add: backed_def)
  have pass: "live_ok d ?evs live \<Longrightarrow> backed d ?evs k \<Longrightarrow> live_ok d ?evs (dict_set k (passed t) live)" for k t live
    by (rule live_ok_set) (simp_all add: passed_def)
  show ?thesis
  proof (cases "is_health d m")
    case True
    then show ?thesis using pass [OF g status] by (simp add: hear_health)
  next
    case nh: False
    show ?thesis
    proof (cases "is_reading d m")
      case True
      have "live_ok d ?evs (dict_set ''status'' (heard_status (cs_live s)) (cs_live s))"
        using g pass [OF g status] True live_ok_busy [OF g]
        by (auto simp: heard_status_def intro: live_ok_set status split: option.split)
      from pass [OF this metric] show ?thesis using True by (simp add: hear_reading)
    next
      case nr: False
      show ?thesis
      proof (cases "is_ack d m")
        case True
        then show ?thesis using pass [OF g test] g by (simp add: hear_ack split: option.split)
      qed (simp add: hear_other nh nr g)
    qed
  qed
qed

lemma overrides_set:
  "list_all (\<lambda>(k, pin). pin \<in> A) ps \<Longrightarrow> pin \<in> A \<Longrightarrow> list_all (\<lambda>(k, pin). pin \<in> A) (dict_set key pin ps)"
  by (induction ps) auto

lemma cf_step_flow_ok: "flow_ok s \<Longrightarrow> cf_step d e s s' \<Longrightarrow> flow_ok s'"
proof (erule cf_step.cases, goal_cases)
  case (1 m t)
  then show ?case by (auto simp: hear_def Let_def flow_ok_def split: option.splits)
next
  case (7 n label env t)
  then show ?case by (auto simp: stepper_def can_pick_def flow_ok_def split: if_splits)
qed (auto simp: flow_ok_def rotate_starts_def rotate_ends_def store_continue_def step_next_def step_back_def changeBoard_def
    pick_pin_def test_starts_def test_fails_def overrides_set split: option.splits)

lemma cf_step_live_ok: "live_ok d evs (cs_live s) \<Longrightarrow> cf_step d e s s' \<Longrightarrow> live_ok d (evs @ [e]) (cs_live s')"
proof (erule cf_step.cases, goal_cases)
  case (1 m t)
  then show ?case by (simp add: hear_live_ok)
next
  case (11 t a env)
  then show ?case by (simp add: test_starts_def live_ok_set [OF live_ok_grows] tested_snoc)
next
  case (12 t a)
  then show ?case by (simp add: test_fails_def live_ok_set [OF live_ok_grows])
qed (auto simp: rotate_starts_def rotate_ends_def store_continue_def changeBoard_def pick_pin_def live_ok_grows split: option.splits)

lemma flow_reachable_ok: "flow_reachable d evs s \<Longrightarrow> flow_ok s \<and> live_ok d evs (cs_live s)"
proof (induction rule: flow_reachable.induct)
  case (start hostname https)
  then show ?case by (simp add: flow_ok_def live_ok_def new_flow_def)
next
  case (step evs s e s')
  then show ?case by (blast intro: cf_step_flow_ok cf_step_live_ok)
qed

section \<open>Options\<close>

lemma default_pins_keys: "distinct (map fst (defaultPins ms as b))"
proof -
  have "distinct (map fst d) \<Longrightarrow> distinct (map fst (input_pins pool i ms d))" for pool i d
    by (induction pool i ms d rule: input_pins.induct) (simp_all add: distinct_update)
  moreover have "distinct (map fst d) \<Longrightarrow> distinct (map fst (output_pins pool i as d))" for pool i d
    by (induction pool i as d rule: output_pins.induct) (simp_all add: distinct_update)
  ultimately show ?thesis by (simp add: defaultPins_def)
qed

lemma flow_pins_keys: "distinct (map fst (flow_pins env s))"
proof -
  have "distinct (map fst d) \<Longrightarrow> distinct (map fst (foldl (\<lambda>d (k, pin). dict_set k pin d) d ps))" for d :: "nat dict" and ps
    by (induction ps arbitrary: d) (auto simp: distinct_update)
  then show ?thesis by (simp add: flow_pins_def default_pins_keys)
qed

lemma options_done_ready:
  assumes "flow_ok s" "cs_step s \<noteq> 1" "options_done env s"
  shows "if installable env then (\<exists>ip c. install_of ascii uids env s = Some ip \<and> ip_config ip = Some c)
         else distinct (map snd (flow_pins env s))"
proof (cases "installable env")
  case True
  then show ?thesis using assms
    by (auto simp: install_of_def install_config_def options_done_def flow_ok_def Let_def)
next
  case False
  have d: "distinct (map fst (flow_pins env s))" by (rule flow_pins_keys)
  have "pinClashes (flow_pins env s) = []" using assms(3) False by (simp add: options_done_def flow_blocked_def)
  then have c: "\<And>k k' p. (k, p) \<in> set (flow_pins env s) \<Longrightarrow> (k', p) \<in> set (flow_pins env s) \<Longrightarrow> k' = k"
    using pinClashes_keys [OF d] by auto
  have "inj_on snd (set (flow_pins env s))"
    by (rule inj_onI) (metis c prod.collapse)
  then show ?thesis using False distinct_map d by (auto simp: distinct_map)
qed

text \<open>C6: In every reachable state of the Connect flow, a step past the first has a credential that was
  stored; leaving asks exactly while one is not; every pin picked is one the chosen board offers; a
  line of the live check is green only after a frame of this device that says so, and a command
  test only when the device acknowledged something after it was sent; and from the Options step
  Continue leads to an install whose config is complete, or to a sketch that uses no GPIO twice.\<close>

theorem connect_flow_safe:
  assumes "flow_reachable d evs s"
  shows "cs_step s \<in> {1, 2, 3, 4, 5} \<and> (if cs_step s = 1 then True else cs_credential s \<noteq> None \<and> cs_stored s) \<and>
    (leave_flow answer s \<longleftrightarrow> cs_credential s = None \<or> cs_stored s \<or> answer) \<and>
    list_all (\<lambda>(k, pin). pin \<in> set (pinChoices (cs_board s))) (cs_pinOverrides s) \<and>
    (item_ok s k \<longrightarrow> backed d evs k) \<and>
    (cs_step s \<noteq> 1 \<longrightarrow> options_done env s \<longrightarrow>
       (if installable env then (\<exists>ip c. install_of ascii uids env s = Some ip \<and> ip_config ip = Some c)
        else distinct (map snd (flow_pins env s))))"
proof -
  have ok: "flow_ok s" and live: "live_ok d evs (cs_live s)" using flow_reachable_ok [OF assms] by blast+
  have "item_ok s k \<longrightarrow> backed d evs k"
    using live_ok_get [OF live] by (auto simp: item_ok_def split: option.splits)
  moreover have "leave_flow answer s \<longleftrightarrow> cs_credential s = None \<or> cs_stored s \<or> answer"
    by (auto simp: leave_flow_def confirmLeave_def unstored_def)
  moreover have "cs_step s \<noteq> 1 \<longrightarrow> options_done env s \<longrightarrow>
       (if installable env then (\<exists>ip c. install_of ascii uids env s = Some ip \<and> ip_config ip = Some c)
        else distinct (map snd (flow_pins env s)))"
    using options_done_ready [OF ok] by (intro impI)
  moreover have "cs_step s \<in> {1, 2, 3, 4, 5}" "if cs_step s = 1 then True else cs_credential s \<noteq> None \<and> cs_stored s"
    "list_all (\<lambda>(k, pin). pin \<in> set (pinChoices (cs_board s))) (cs_pinOverrides s)"
    using ok by (simp_all add: flow_ok_def)
  ultimately show ?thesis by (intro conjI)
qed

section \<open>A run\<close>

definition demo_env :: connect_env where
  "demo_env = \<lparr>ce_tenantSlug = ''acme'', ce_slug = ''bay-1'', ce_name = ''Bay 1'', ce_neverConnected = True, ce_hardware = None,
     ce_template_hardware = None, ce_metrics = [], ce_actuators = [relay ''fan'', relay ''pump''], ce_firmware = None\<rparr>"

definition frame :: "string \<Rightarrow> string \<Rightarrow> rt_message" where
  "frame kind device = \<lparr>rm_type = kind, rm_device_id = Some device, rm_metric = None, rm_value = None, rm_time = None,
     rm_online = Some True, rm_rssi = None, rm_battery_pct = None, rm_uptime_s = None, rm_fw_version = None, rm_rule_id = None\<rparr>"

text \<open>The credential is made and stored, and the device, still with its old firmware, reports.\<close>

definition demo_stored :: connect_state where
  "demo_stored = hear ''d1'' (frame ''device_health'' ''d1'')
     (store_continue (rotate_ends (Some (''u'', ''pw'')) (rotate_starts demo_env False (new_flow ''mqtt.acme.com'' True))))"

abbreviation demo_evs :: "flow_event list" where
  "demo_evs \<equiv> [Pressed, Pressed, Pressed, Heard (frame ''device_health'' ''d1'')]"

lemma demo_run_reachable: "flow_reachable ''d1'' demo_evs demo_stored"
proof -
  note defs = new_flow_def rotate_starts_def rotate_ends_def demo_env_def
  have "flow_reachable ''d1'' ([] @ [Pressed]) (rotate_starts demo_env False (new_flow ''mqtt.acme.com'' True))"
    by (rule flow_reachable.step [OF flow_reachable.start cf_step.rotates]) (simp_all add: new_flow_def)
  from flow_reachable.step [OF this cf_step.rotated [of _ _ "Some (''u'', ''pw'')"]]
  have "flow_reachable ''d1'' [Pressed, Pressed]
     (rotate_ends (Some (''u'', ''pw'')) (rotate_starts demo_env False (new_flow ''mqtt.acme.com'' True)))"
    by (simp add: defs)
  from flow_reachable.step [OF flow_reachable.step [OF this cf_step.stores] cf_step.hears [of _ "frame ''device_health'' ''d1''"]]
  show ?thesis by (simp add: demo_stored_def defs)
qed

lemma demo_stored_fields:
  "cs_step demo_stored = 2" "cs_credential demo_stored = Some (''u'', ''pw'')" "cs_stored demo_stored"
  "cs_live demo_stored = [(''status'', passed ''online'')]" "cs_pinOverrides demo_stored = []" "cs_wifiMode demo_stored = Wifi_ble"
  "cs_board demo_stored = Esp32" "cs_host demo_stored = ''mqtt.acme.com''"
  by (simp_all add: demo_stored_def store_continue_def rotate_ends_def rotate_starts_def new_flow_def hear_def frame_def
      health_detail_def demo_env_def or_else_def)

lemma connect_flow_safe_witness:
  "flow_reachable ''d1'' demo_evs demo_stored \<and> item_ok demo_stored ''status'' \<and>
   heard (\<lambda>m. is_health ''d1'' m \<or> is_reading ''d1'' m) demo_evs \<and> options_done demo_env demo_stored \<and>
   distinct (map snd (flow_pins demo_env demo_stored))"
proof -
  have i: "item_ok demo_stored ''status''" by (simp add: item_ok_def demo_stored_fields passed_def)
  have o: "options_done demo_env demo_stored" "\<not> installable demo_env"
    by (simp_all add: options_done_def flow_blocked_def phone_mode_def phoneSetup_def sketchBoard_def installable_def
        flow_wiring_def flow_pins_def demo_env_def demo_stored_fields defaultPins_def pool_pin_def pinClashes_def keys_by_pin_def
        brokerHostProblem_def trim_def is_space_def lower_case_def lower_char_def is_upper_def char_code_def starts_with_def Let_def)
  have "backed ''d1'' demo_evs ''status''" "distinct (map snd (flow_pins demo_env demo_stored))"
    using connect_flow_safe [OF demo_run_reachable, of False "''status''" demo_env id "\<lambda>i. ''x''"] i o demo_stored_fields(1) by auto
  then show ?thesis using demo_run_reachable i o by (simp add: backed_def heard_def)
qed

section \<open>From the form to the board\<close>

text \<open>C5: What a person filled in on the Options step is what the board runs with: when the flow hands
  Install a config that fits the partition, a board of that chip starts with the broker address
  typed, without spaces around it, its port by the TLS choice, the credential just made, the Wi-Fi
  typed in or none when it comes from a phone, the device's name as the phone will see it, its metrics and
  actuators, the board model of the wiring with its reset pin and LED, and the wiring of the device,
  else of its template: the I2C pins (none when it has no bus), the inputs and the outputs.\<close>

theorem connect_install_boots:
  assumes "install_of ascii uids env s = Some ip" "ip_config ip = Some config" "cs_credential s = Some (user, pw)"
    and "user \<noteq> []" "pw \<noteq> []" "ce_tenantSlug env \<noteq> []" "ce_slug env \<noteq> []"
    and "encodeConfigBlob config room = Inr blob" "room < 2 ^ 32" "json_ok config"
    and "\<And>v. json_ok v \<Longrightarrow> deserialize (stringify [] v) = Some v" "\<And>bs. decode (base64 bs) = Some bs"
    and "cb_id chip = chip_name (m_chip (ip_model ip))" "cb_bluetooth chip \<or> \<not> hasCapability (ip_model ip) Ble"
  shows "\<exists>c. boot deserialize decode chip blob = Inr c \<and> dc_host c = trim (cs_host s) \<and> dc_host c \<noteq> [] \<and>
    dc_tls c = cs_tls s \<and> dc_port c = Fin (if cs_tls s then 8883 else 1883) \<and> dc_username c = user \<and> dc_password c = pw \<and>
    dc_tenant c = ce_tenantSlug env \<and> dc_device c = ce_slug env \<and> dc_security c = 1 \<and>
    dc_wifi c = (if phone_mode env s then None else Some \<lparr>wl_ssid = cs_ssid s, wl_password = cs_wifiPassword s\<rparr>) \<and>
    dc_provName c = provName ascii (ce_name env) \<and>
    dc_metrics c = Some (JArr (map metric_config (ce_metrics env))) \<and>
    dc_actuators c = Some (JArr (map actuator_config (ce_actuators env))) \<and>
    Some (ip_model ip) = flow_model env \<and> dc_model c = m_id (ip_model ip) \<and>
    dc_reset c = Fin (of_nat (m_reset_pin (ip_model ip))) \<and>
    dc_led c = (led_used (ip_model ip), if led_used (ip_model ip) = No_led then Fin (- 1) else Fin (of_nat (led_pin (m_led (ip_model ip)))),
                led_active_low (m_led (ip_model ip))) \<and>
    Some (ip_wiring ip) = flow_wiring env \<and>
    dc_i2c c = (case hw_i2c (ip_wiring ip) of Some b \<Rightarrow> (Fin (of_nat (i2c_sda b)), Fin (of_nat (i2c_scl b)))
                | None \<Rightarrow> (Fin (- 1), Fin (- 1))) \<and>
    dc_inputs c = Some (JArr (map binding_config (default_nil (hw_inputs (ip_wiring ip))))) \<and>
    dc_outputs c = Some (JArr (map binding_config (default_nil (hw_outputs (ip_wiring ip)))))"
proof -
  have inst: "installable env" and w: "Some (ip_wiring ip) = flow_wiring env" "ip_model ip = the (flow_model env)"
      "Some (ip_model ip) = flow_model env"
    using assms(1) by (auto simp: install_of_def Let_def installable_def split: if_splits)
  let ?i = "flow_input env s (ip_wiring ip) (ip_model ip) (user, pw)"
  have "ip_config ip = install_config ascii env s (ip_wiring ip) (ip_model ip)"
    using assms(1) by (auto simp: install_of_def Let_def split: if_splits)
  then have c: "config = buildFirmwareConfig ascii ?i" and h: "brokerHostProblem (cs_host s) = None"
    and wf: "phone_mode env s \<or> cs_ssid s \<noteq> []"
    using assms(2,3) by (auto simp: install_config_def split: if_splits)
  have host: "trim (cs_host s) \<noteq> []"
    using h by (auto simp: brokerHostProblem_def Let_def lower_case_def split: if_splits)
  have "phone_mode env s \<Longrightarrow> hasCapability (ip_model ip) Ble"
    using inst w(2) by (simp add: phone_mode_def phoneSetup_def)
  then have "\<exists>c. boot deserialize decode chip blob = Inr c \<and> runs_with ascii ?i c"
    using assms(13,14) host wf
    by (intro boots_built [OF assms(8) [unfolded c] assms(9) assms(10) [unfolded c] assms(11,12)])
      (auto simp: input_ok_def flow_input_def flow_wifi_def assms(4-7))
  then show ?thesis
    using host w(1,3) by (auto simp: runs_with_def flow_input_def flow_wifi_def)
qed

definition wired_env :: connect_env where
  "wired_env = demo_env\<lparr>
     ce_hardware := Some \<lparr>hw_board = ''esp32'', hw_i2c = Some \<lparr>i2c_sda = 21, i2c_scl = 22\<rparr>, hw_inputs = None, hw_outputs = None\<rparr>, ce_actuators := [],
     ce_firmware := Some \<lparr>hc_drivers = [], hc_models = [legacyModel Esp32]\<rparr>\<rparr>"

lemma wired_env_fields:
  "installable wired_env" "flow_wiring wired_env = Some \<lparr>hw_board = ''esp32'', hw_i2c = Some \<lparr>i2c_sda = 21, i2c_scl = 22\<rparr>, hw_inputs = None, hw_outputs = None\<rparr>"
  "flow_model wired_env = Some (legacyModel Esp32)" "phone_mode wired_env demo_stored"
  "ce_tenantSlug wired_env = ''acme''" "ce_slug wired_env = ''bay-1''" "ce_name wired_env = ''Bay 1''"
  "ce_metrics wired_env = []" "ce_actuators wired_env = []"
  by (simp_all add: installable_def flow_wiring_def flow_model_def wired_env_def resolveModel_def legacyModel_def phone_mode_def
      phoneSetup_def hasCapability_def demo_stored_fields demo_env_def)

lemma connect_install_boots_witness:
  "\<exists>ip config blob c. install_of id (\<lambda>i. ''x'') wired_env demo_stored = Some ip \<and> ip_config ip = Some config \<and>
     encodeConfigBlob config 8192 = Inr blob \<and> boot json_parse (\<lambda>s. Some (unbase64 s)) demo_chip blob = Inr c \<and>
     dc_host c = ''mqtt.acme.com'' \<and> dc_wifi c = None \<and> dc_i2c c = (Fin 21, Fin 22)"
proof -
  let ?i = "flow_input wired_env demo_stored (the (flow_wiring wired_env)) (legacyModel Esp32) (''u'', ''pw'')"
  let ?config = "buildFirmwareConfig id ?i"
  have t: "trim ''mqtt.acme.com'' = ''mqtt.acme.com''" by (simp add: trim_def is_space_def char_code_def)
  obtain ip where ip: "install_of id (\<lambda>i. ''x'') wired_env demo_stored = Some ip" "ip_config ip = Some ?config"
      "ip_model ip = legacyModel Esp32"
    by (simp add: install_of_def install_config_def wired_env_fields demo_stored_fields brokerHostProblem_def t lower_case_def
        lower_char_def is_upper_def char_code_def starts_with_def Let_def)
  note defs = flow_input_def wired_env_fields demo_stored_fields flow_wifi_def t
  have ok: "json_ok ?config"
    by (simp add: buildFirmwareConfig_def defs legacyModel_def prov_config_def board_io_config_def json_ok_jnat default_nil_def)
  have "length (stringify [] ?config) \<le> text_bound ?config"
    unfolding stringify_def by (rule render_bound(1))
  also have "\<dots> \<le> 5000"
    using provName_fits [of id "''Bay 1''"]
    by (simp add: buildFirmwareConfig_def defs legacyModel_def prov_config_def board_io_config_def text_bound_jnat default_nil_def nat_text.simps)
  finally have "length (stringify [] ?config) \<le> 5000" .
  then obtain blob where b: "encodeConfigBlob ?config 8192 = Inr blob"
    by (simp add: encodeConfigBlob_def Let_def CONFIG_HEADER_SIZE_def)
  have "\<exists>c. boot json_parse (\<lambda>s. Some (unbase64 s)) demo_chip blob = Inr c \<and> dc_host c = ''mqtt.acme.com'' \<and> dc_wifi c = None \<and>
      dc_i2c c = (Fin 21, Fin 22)"
    using connect_install_boots [OF ip(1,2) demo_stored_fields(2) _ _ _ _ b _ ok compact.parse_print, of "\<lambda>s. Some (unbase64 s)" demo_chip]
    by (auto simp: unbase64_base64 demo_chip_def ip(3) legacyModel_def demo_stored_fields wired_env_fields t)
  then show ?thesis using ip b by blast
qed

section \<open>What the live check leaves out\<close>

text \<open>An acknowledgement is not matched to its command: it turns the first waiting test green.\<close>

lemma ack_takes_first_waiting:
  "is_ack d m \<Longrightarrow> first_waiting (cs_live s) = Some k \<Longrightarrow> item_ok (hear d m s) k"
  by (simp add: hear_ack item_ok_def passed_def)

lemma ack_of_the_other_test:
  "let s = test_starts (relay ''pump'') (test_starts (relay ''fan'') demo_stored); s' = hear ''d1'' (frame ''command_ack'' ''d1'') s
   in item_ok s' ''a:fan'' \<and> \<not> item_ok s' ''a:pump''"
  by (simp add: Let_def test_starts_def demo_stored_fields hear_def frame_def first_waiting_def starts_with_def item_ok_def passed_def
      is_ack_def)

text \<open>A part on the I2C bus has no pins of its own, so its metrics are left out of the items.\<close>

lemma bus_part_not_checked:
  assumes "installable env" "flow_wiring env = Some w" "List.find (drives (metric_id m)) (default_nil (hw_inputs w)) = Some b"
    and "default_nil (hb_pins b) = []"
  shows "m \<notin> set (checkedMetrics env s)"
  using assms by (simp add: checkedMetrics_def wiredPin_def)

text \<open>What the old firmware sent before the install stays green after it: nothing clears the list.\<close>

lemma old_frames_count:
  "flow_reachable ''d1'' demo_evs demo_stored \<and> cs_step demo_stored = 2 \<and> allLive wired_env demo_stored"
  by (simp add: demo_run_reachable demo_stored_fields allLive_def flow_items_def checkedMetrics_def boolActuators_def status_item_def
      item_ok_def passed_def wired_env_def demo_env_def)

lemma rotation_keeps_live: "cs_live (rotate_ends result s) = cs_live s"
  by (simp add: rotate_ends_def split: option.split)

end
