(* ===== verification/Dashboards.thy ===== *)
theory Dashboards imports Rule_Types Readings Wire begin

text \<open>
  The small parts around dashboards and records: the starter dashboard
  (\<open>frontend/src/lib/starter-dashboard.ts\<close>), a dashboard in words (\<open>dashboard-summary.ts\<close>), where
  a person lands (\<open>landing.ts\<close>), the change lines of a save (\<open>diff-summary.ts\<close>) and the link on a
  device's label (\<open>packages/shared/src/device-link.ts\<close>).  Ids come from the supply of
  \<open>Rule_Types.newId\<close>; the browser's storage is a map, None when it is blocked.
\<close>

section \<open>starter-dashboard.ts\<close>

datatype widget_type = Value_card | Trend_chart | Gauge | Device_status | Actuator_control

record widget =
  wg_id :: string
  wg_type :: widget_type
  wg_x :: nat
  wg_y :: nat
  wg_w :: nat
  wg_h :: nat
  wg_device_id :: string
  wg_metric :: "string option"

record dash_device =
  dd_id :: string
  dd_catalog_entry_id :: string

record dash_template =
  dt_id :: string
  dt_metrics :: "catalog_metric list"

definition STARTER_DEVICES :: nat where "STARTER_DEVICES = 8"

definition first_numeric :: "dash_template list \<Rightarrow> dash_device \<Rightarrow> catalog_metric option" where
  "first_numeric templates d =
     Option.bind (List.find (\<lambda>t. dt_id t = dd_catalog_entry_id d) templates)
       (\<lambda>t. List.find (\<lambda>m. cm_data_type m \<noteq> BoolD) (dt_metrics t))"

text \<open>One round of the loop: the widgets so far, \<open>y\<close>, \<open>rowHeight\<close> and the supply.\<close>

definition place_widget ::
    "(nat \<Rightarrow> string) \<Rightarrow> dash_template list \<Rightarrow> nat \<Rightarrow> dash_device \<Rightarrow> widget list \<times> nat \<times> nat \<times> nat \<Rightarrow> widget list \<times> nat \<times> nat \<times> nat" where
  "place_widget gen templates i d st =
     (case st of (widgets, y, rowHeight, k) \<Rightarrow>
        let metric = first_numeric templates d;
            left = (i mod 2 = 0);
            (y1, rh1) = (if left \<and> 0 < i then (y + rowHeight, 0) else (y, rowHeight));
            h = (if metric \<noteq> None then 4 else 2)
        in case newId gen k of (ident, k1) \<Rightarrow>
             (widgets @
              [\<lparr>wg_id = ident, wg_type = (if metric \<noteq> None then Trend_chart else Device_status), wg_x = (if left then 0 else 6), wg_y = y1,
                wg_w = 6, wg_h = h, wg_device_id = dd_id d, wg_metric = map_option metric_id metric\<rparr>],
              y1, max rh1 h, k1))"

fun place_from ::
    "(nat \<Rightarrow> string) \<Rightarrow> dash_template list \<Rightarrow> nat \<Rightarrow> dash_device list \<Rightarrow> widget list \<times> nat \<times> nat \<times> nat \<Rightarrow> widget list \<times> nat \<times> nat \<times> nat" where
  "place_from gen templates i [] st = st"
| "place_from gen templates i (d # ds) st = place_from gen templates (Suc i) ds (place_widget gen templates i d st)"

definition starterLayout :: "(nat \<Rightarrow> string) \<Rightarrow> nat \<Rightarrow> dash_device list \<Rightarrow> dash_template list \<Rightarrow> widget list" where
  "starterLayout gen k devices templates = fst (place_from gen templates 0 (take STARTER_DEVICES devices) ([], 0, 0, k))"

section \<open>dashboard-summary.ts\<close>

fun WIDGET_NAMES :: "widget_type \<Rightarrow> string \<times> string" where
  "WIDGET_NAMES Value_card = (''value card'', ''value cards'')"
| "WIDGET_NAMES Trend_chart = (''trend chart'', ''trend charts'')"
| "WIDGET_NAMES Gauge = (''gauge'', ''gauges'')"
| "WIDGET_NAMES Device_status = (''status card'', ''status cards'')"
| "WIDGET_NAMES Actuator_control = (''control'', ''controls'')"

definition count_widget :: "(widget_type \<times> nat) list \<Rightarrow> widget \<Rightarrow> (widget_type \<times> nat) list" where
  "count_widget byType w =
     dict_set (wg_type w) ((case dict_get byType (wg_type w) of Some n \<Rightarrow> n | None \<Rightarrow> 0) + 1) byType"

definition count_text :: "widget_type \<times> nat \<Rightarrow> string" where
  "count_text c =
     (case c of (t, n) \<Rightarrow> nat_text n @ '' '' @ (if n = 1 then fst (WIDGET_NAMES t) else snd (WIDGET_NAMES t)))"

definition widgetSummary :: "widget list \<Rightarrow> string" where
  "widgetSummary layout =
     (if layout = [] then ''No widgets yet''
      else join ('' '' @ middle_dot @ '' '') (map count_text (foldl count_widget [] layout)))"

section \<open>landing.ts\<close>

record landing =
  la_target :: string
  la_dashboard_id :: "string option"
  la_dashboard_ids :: "string list"

definition lastKey :: "string \<Rightarrow> string" where
  "lastKey tenantId = ''iot-saas:last-dashboard:'' @ tenantId"

type_synonym storage = "(string \<Rightarrow> string option) option"

definition readLastDashboard :: "storage \<Rightarrow> string \<Rightarrow> string option" where
  "readLastDashboard st tenantId = Option.bind st (\<lambda>m. m (lastKey tenantId))"

definition rememberDashboard :: "string \<Rightarrow> string \<Rightarrow> storage \<Rightarrow> storage" where
  "rememberDashboard tenantId dashboardId st = map_option (\<lambda>m. m(lastKey tenantId \<mapsto> dashboardId)) st"

definition LANDING_PAGES :: "string dict" where
  "LANDING_PAGES = [(''setup'', ''/start''), (''welcome'', ''/welcome'')]"

definition landing_pick :: "landing \<Rightarrow> string option \<Rightarrow> string option" where
  "landing_pick l lastOpened =
     (case la_dashboard_id l of
        Some d \<Rightarrow> Some d
      | None \<Rightarrow>
          (case lastOpened of
             Some d \<Rightarrow> if d \<noteq> [] \<and> d \<in> set (la_dashboard_ids l) then Some d
                       else (case la_dashboard_ids l of [] \<Rightarrow> None | d # _ \<Rightarrow> Some d)
           | None \<Rightarrow> (case la_dashboard_ids l of [] \<Rightarrow> None | d # _ \<Rightarrow> Some d)))"

definition landingPath :: "landing \<Rightarrow> string option \<Rightarrow> string" where
  "landingPath l lastOpened =
     (case dict_get LANDING_PAGES (la_target l) of
        Some page \<Rightarrow> page
      | None \<Rightarrow>
          (case landing_pick l lastOpened of
             Some d \<Rightarrow> if d = [] then ''/devices'' else ''/dashboards/'' @ d
           | None \<Rightarrow> ''/devices''))"

section \<open>diff-summary.ts\<close>

text \<open>A field is its label, its value on each side (None is undefined) and its own format.\<close>

record diff_field =
  df_label :: string
  df_before :: "json option"
  df_after :: "json option"
  df_format :: "(json option \<Rightarrow> string) option"

definition show_value :: "json option \<Rightarrow> string" where
  "show_value v =
     (case v of
        None \<Rightarrow> em_dash
      | Some JNull \<Rightarrow> em_dash
      | Some (JStr s) \<Rightarrow> or_else s em_dash
      | Some (JArr xs) \<Rightarrow> if xs = [] then em_dash else join '', '' (array_pieces xs)
      | Some (JBool b) \<Rightarrow> if b then ''on'' else ''off''
      | Some j \<Rightarrow> json_string j)"

definition changed_field :: "diff_field \<Rightarrow> bool" where
  "changed_field f \<longleftrightarrow> map_option (stringify []) (df_before f) \<noteq> map_option (stringify []) (df_after f)"

definition diff_line :: "diff_field \<Rightarrow> string" where
  "diff_line f =
     (let fmt = (case df_format f of Some g \<Rightarrow> g | None \<Rightarrow> show_value)
      in df_label f @ '': '' @ fmt (df_before f) @ '' '' @ arrow @ '' '' @ fmt (df_after f))"

definition diffLines :: "diff_field list \<Rightarrow> string list" where
  "diffLines fs = map diff_line (filter changed_field fs)"

definition changeSummary :: "string list \<Rightarrow> nat \<Rightarrow> string" where
  "changeSummary ls m =
     (case ls of
        [] \<Rightarrow> ''No changes''
      | [l] \<Rightarrow> l
      | _ \<Rightarrow> nat_text (length ls) @ '' changes: '' @ join ''; '' (take m ls) @
              (if m < length ls then ''; +'' @ nat_text (length ls - m) @ '' more'' else []))"

section \<open>device-link.ts\<close>

definition drop_slashes :: "string \<Rightarrow> string" where
  "drop_slashes s = rev (dropWhile (\<lambda>c. c = CHR ''/'') (rev s))"

definition deviceLink :: "string \<Rightarrow> string \<Rightarrow> string" where
  "deviceLink webOrigin deviceId = drop_slashes webOrigin @ ''/d/'' @ deviceId"

definition hex_char :: "char \<Rightarrow> bool" where
  "hex_char c \<longleftrightarrow> is_digit c \<or> (let n = char_code (lower_char c) in 97 \<le> n \<and> n \<le> 102)"

definition is_uuid :: "string \<Rightarrow> bool" where
  "is_uuid s \<longleftrightarrow> map length (split_on CHR ''-'' s) = [8, 4, 4, 4, 12] \<and> list_all (list_all hex_char) (split_on CHR ''-'' s)"

text \<open>The rest after a prefix, its letters in either case.\<close>

definition after_prefix :: "string \<Rightarrow> string \<Rightarrow> string option" where
  "after_prefix p s = (if lower_case (take (length p) s) = p then Some (drop (length p) s) else None)"

definition link_id_char :: "char \<Rightarrow> bool" where
  "link_id_char c \<longleftrightarrow> c \<noteq> CHR ''/'' \<and> c \<noteq> CHR ''?'' \<and> c \<noteq> CHR ''#'' \<and> \<not> is_space c"

definition link_tail :: "string \<Rightarrow> bool" where
  "link_tail r =
     (let r1 = (if starts_with r ''/'' then tl r else r)
      in r1 = [] \<or> hd r1 \<in> {CHR ''?'', CHR ''#''} \<and> list_all (\<lambda>c. c \<noteq> CHR 0x0A \<and> c \<noteq> CHR 0x0D) (tl r1))"

definition link_host :: "string \<Rightarrow> string option" where
  "link_host s = (case after_prefix ''https://'' s of Some r \<Rightarrow> Some r | None \<Rightarrow> after_prefix ''http://'' s)"

definition deviceIdFromLink :: "string \<Rightarrow> string option" where
  "deviceIdFromLink text =
     (case link_host (trim text) of
        None \<Rightarrow> None
      | Some r \<Rightarrow>
          let host = takeWhile (\<lambda>c. c \<noteq> CHR ''/'' \<and> \<not> is_space c) r in
          (case after_prefix ''/d/'' (drop (length host) r) of
             None \<Rightarrow> None
           | Some p \<Rightarrow>
               let i = takeWhile link_id_char p in
               if host \<noteq> [] \<and> i \<noteq> [] \<and> link_tail (drop (length i) p) \<and> is_uuid i then Some (lower_case i) else None))"

section \<open>The starter dashboard is tidy\<close>

definition apart :: "widget \<Rightarrow> widget \<Rightarrow> bool" where
  "apart a b \<longleftrightarrow>
     wg_x a + wg_w a \<le> wg_x b \<or> wg_x b + wg_w b \<le> wg_x a \<or> wg_y a + wg_h a \<le> wg_y b \<or> wg_y b + wg_h b \<le> wg_y a"

definition shows_device :: "dash_template list \<Rightarrow> dash_device \<Rightarrow> widget \<Rightarrow> bool" where
  "shows_device templates d w \<longleftrightarrow>
     wg_device_id w = dd_id d \<and> wg_metric w = map_option metric_id (first_numeric templates d) \<and>
     wg_type w = (if first_numeric templates d = None then Device_status else Trend_chart)"

text \<open>After \<open>i\<close> devices: nothing overlaps, every widget ends above the row's bottom, and with the
  right half of the row free every widget is above the row or in its left half.\<close>

definition layout_ok :: "nat \<Rightarrow> widget list \<times> nat \<times> nat \<times> nat \<Rightarrow> bool" where
  "layout_ok i st \<longleftrightarrow>
     (case st of (ws, y, rh, k) \<Rightarrow>
        sorted_wrt apart ws \<and> rh \<le> 4 \<and> (i = 0 \<longrightarrow> y + rh = 0) \<and> y + rh \<le> 4 * ((i + 1) div 2) \<and>
        (odd i \<longrightarrow> y \<le> 4 * (i div 2)) \<and>
        list_all (\<lambda>w. wg_w w = 6 \<and> wg_x w \<in> {0, 6} \<and> 0 < wg_h w \<and> wg_y w + wg_h w \<le> y + rh \<and>
          (odd i \<longrightarrow> wg_x w = 0 \<or> wg_y w + wg_h w \<le> y)) ws)"

lemma place_widget_ok: "layout_ok i st \<Longrightarrow> layout_ok (Suc i) (place_widget gen templates i d st)"
proof -
  assume ok: "layout_ok i st"
  obtain ws y rh k where st: "st = (ws, y, rh, k)" by (cases st) auto
  obtain ident k' where n: "newId gen k = (ident, k')" by fastforce
  have half: "even i \<Longrightarrow> (i + 1) div 2 = i div 2" "odd i \<Longrightarrow> (i + 1) div 2 = i div 2 + 1"
    "even i \<Longrightarrow> (Suc i + 1) div 2 = i div 2 + 1" "odd i \<Longrightarrow> (Suc i + 1) div 2 = i div 2 + 1"
    by (auto elim!: evenE oddE)
  show ?thesis
  proof (cases "even i")
    case True
    with ok half show ?thesis
      by (cases "i = 0") (auto simp: layout_ok_def place_widget_def st n Let_def even_iff_mod_2_eq_zero [symmetric]
            sorted_wrt_append list_all_iff apart_def)
  next
    case False
    with ok half show ?thesis
      by (auto simp: layout_ok_def place_widget_def st n Let_def even_iff_mod_2_eq_zero [symmetric]
            sorted_wrt_append list_all_iff apart_def)
  qed
qed

lemma place_from_ok: "layout_ok i st \<Longrightarrow> layout_ok (i + length ds) (place_from gen templates i ds st)"
proof (induction ds arbitrary: i st)
  case (Cons d ds)
  from Cons.IH [OF place_widget_ok [OF Cons.prems]] show ?case by simp
qed simp

lemma place_widget_adds: "\<exists>w. fst (place_widget gen templates i d st) = fst st @ [w] \<and> shows_device templates d w"
  by (cases st) (simp add: place_widget_def Let_def newId_def shows_device_def)

lemma place_from_devices:
  "list_all2 (shows_device templates) ds0 (fst st) \<Longrightarrow>
   list_all2 (shows_device templates) (ds0 @ ds) (fst (place_from gen templates i ds st))"
proof (induction ds arbitrary: i st ds0)
  case (Cons d ds)
  have "list_all2 (shows_device templates) (ds0 @ [d]) (fst (place_widget gen templates i d st))"
    using place_widget_adds [of gen templates i d st] Cons.prems by (auto intro: list_all2_appendI)
  from Cons.IH [OF this] show ?case by simp
qed simp

text \<open>The starter dashboard has one widget for each of the first eight devices, in their order:
  a chart of the device's first numeric reading, or its status when it has none. No two widgets
  overlap, none leaves the twelve columns, and the page is at most sixteen rows high.\<close>

theorem starter_layout_tidy:
  "list_all2 (shows_device templates) (take 8 devices) (starterLayout gen k devices templates) \<and>
   sorted_wrt apart (starterLayout gen k devices templates) \<and>
   list_all (\<lambda>w. wg_x w + wg_w w \<le> 12 \<and> 0 < wg_w w \<and> 0 < wg_h w \<and> wg_y w + wg_h w \<le> 16)
     (starterLayout gen k devices templates)"
proof -
  let ?ds = "take 8 devices"
  obtain ws y rh k' where p: "place_from gen templates 0 ?ds ([], 0, 0, k) = (ws, y, rh, k')"
    by (cases "place_from gen templates 0 ?ds ([], 0, 0, k)") auto
  have "layout_ok 0 ([], 0, 0, k)" by (simp add: layout_ok_def)
  from place_from_ok [OF this, of ?ds gen templates] have ok: "layout_ok (length ?ds) (ws, y, rh, k')" by (simp add: p)
  have "(length ?ds + 1) div 2 \<le> 4" by simp
  then have "y + rh \<le> 16" using ok unfolding layout_ok_def by fastforce
  moreover have "list_all2 (shows_device templates) ?ds ws"
    using place_from_devices [of templates "[]" "([], 0, 0, k)" ?ds gen 0] by (simp add: p)
  moreover have "starterLayout gen k devices templates = ws"
    by (simp add: starterLayout_def STARTER_DEVICES_def p)
  ultimately show ?thesis using ok by (fastforce simp: layout_ok_def list_all_iff)
qed

section \<open>The label's link\<close>

lemma drop_slashes_of: "s \<noteq> [] \<Longrightarrow> last s \<noteq> CHR ''/'' \<Longrightarrow> drop_slashes (s @ replicate n CHR ''/'') = s"
proof -
  assume s: "s \<noteq> []" "last s \<noteq> CHR ''/''"
  have "dropWhile (\<lambda>c. c = CHR ''/'') (replicate n CHR ''/'' @ rev s) = rev s"
    using s by (induction n) (auto simp: dropWhile_eq_self_iff hd_rev)
  then show ?thesis by (simp add: drop_slashes_def)
qed

lemma after_prefix_append: "lower_case p = p \<Longrightarrow> after_prefix p (p @ s) = Some s"
  by (simp add: after_prefix_def)

lemma split_on_members: "x \<in> set s \<Longrightarrow> x = c \<or> (\<exists>w\<in>set (split_on c s). x \<in> set w)"
  by (induction s) (auto split: list.splits)

lemma uuid_chars:
  assumes "is_uuid d"
  shows "d \<noteq> []" "list_all link_id_char d"
proof -
  show "d \<noteq> []" using assms by (auto simp: is_uuid_def)
  have "link_id_char x" if mem: "x \<in> set d" for x
  proof -
    consider "x = CHR ''-''" | "hex_char x"
      using split_on_members [OF mem, of "CHR ''-''"] assms by (auto simp: is_uuid_def list_all_iff)
    then show ?thesis
    proof cases
      case 1
      then show ?thesis by (simp add: link_id_char_def is_space_def)
    next
      case 2
      have "\<not> hex_char c" if "c \<in> {CHR ''/'', CHR ''?'', CHR ''#'', CHR '' '', CHR 0x09, CHR 0x0A, CHR 0x0B, CHR 0x0C, CHR 0x0D}" for c
        using that by (auto simp: hex_char_def is_digit_def lower_char_def is_upper_def char_code_def)
      with 2 show ?thesis unfolding link_id_char_def is_space_def by blast
    qed
  qed
  then show "list_all link_id_char d" by (simp add: list_all_iff)
qed

lemma link_host_scheme:
  "scheme \<in> {''http://'', ''https://''} \<Longrightarrow> link_host (scheme @ s) = Some s"
proof -
  assume "scheme \<in> {''http://'', ''https://''}"
  then consider "scheme = ''http://''" | "scheme = ''https://''" by blast
  then show ?thesis
  proof cases
    case 1
    have "lower_case (take 8 (''http://'' @ s)) \<noteq> ''https://''"
      by (simp add: lower_case_def lower_char_def is_upper_def char_code_def)
    then have "after_prefix ''https://'' (''http://'' @ s) = None" by (simp add: after_prefix_def)
    moreover have "after_prefix ''http://'' (''http://'' @ s) = Some s" by (rule after_prefix_append) code_simp
    ultimately show ?thesis unfolding 1 link_host_def by simp
  next
    case 2
    have "after_prefix ''https://'' (''https://'' @ s) = Some s" by (rule after_prefix_append) code_simp
    then show ?thesis unfolding 2 link_host_def by simp
  qed
qed

text \<open>The link on a device's label names the device: whatever http or https address the web runs
  under, with or without slashes at its end, and whether the link was followed by a slash, a
  query or a fragment, the app reads back the device's id, in lower case.\<close>

theorem device_link_roundtrip:
  assumes "scheme \<in> {''http://'', ''https://''}" "host \<noteq> []" "list_all (\<lambda>c. c \<noteq> CHR ''/'' \<and> \<not> is_space c) host"
    "is_uuid d" "link_tail tail" "tail = [] \<or> \<not> is_space (last tail)"
  shows "deviceIdFromLink (deviceLink (scheme @ host @ replicate n CHR ''/'') d @ tail) = Some (lower_case d)"
proof -
  let ?url = "scheme @ host @ ''/d/'' @ d @ tail"
  note d = uuid_chars [OF assms(4)]
  have "last host \<noteq> CHR ''/''" using assms(2,3) last_in_set [of host] by (auto simp: list_all_iff)
  then have url: "deviceLink (scheme @ host @ replicate n CHR ''/'') d @ tail = ?url"
    using drop_slashes_of [of "scheme @ host" n] assms(2) by (simp add: deviceLink_def)
  have "hd scheme = CHR ''h''" "scheme \<noteq> []" using assms(1) by auto
  then have "\<not> is_space (hd ?url)" by (simp add: is_space_def)
  moreover have "\<not> is_space (last d)" using d last_in_set [of d] by (simp add: list_all_iff link_id_char_def)
  then have "\<not> is_space (last ?url)" using assms(6) d(1) by (cases "tail = []") simp_all
  ultimately have t: "trim ?url = ?url" by (intro trim_id) simp
  have "takeWhile (\<lambda>c. c \<noteq> CHR ''/'' \<and> \<not> is_space c) (host @ ''/d/'' @ d @ tail) = host"
    using assms(3) by (simp add: takeWhile_append2 list_all_iff)
  moreover have "after_prefix ''/d/'' (''/d/'' @ d @ tail) = Some (d @ tail)" by (rule after_prefix_append) code_simp
  moreover have "takeWhile link_id_char (d @ tail) = d"
  proof -
    have "takeWhile link_id_char tail = []"
      using assms(5) by (cases tail) (auto simp: link_tail_def starts_with_def link_id_char_def Let_def split: if_splits)
    then show ?thesis using d(2) by (simp add: takeWhile_append2 list_all_iff)
  qed
  ultimately show ?thesis
    using assms(2,4,5) d(1) link_host_scheme [OF assms(1), of "host @ ''/d/'' @ d @ tail"]
    unfolding url deviceIdFromLink_def t by (simp add: Let_def)
qed

lemma device_link_roundtrip_witness:
  "deviceIdFromLink (deviceLink ''https://app.example/'' ''0A1b2c3d-0000-4000-8000-00000000000f'' @ ''?utm=qr'')
     = Some ''0a1b2c3d-0000-4000-8000-00000000000f''"
proof -
  have h: "list_all (\<lambda>c. c \<noteq> CHR ''/'' \<and> \<not> is_space c) ''app.example''" by code_simp
  have u: "is_uuid ''0A1b2c3d-0000-4000-8000-00000000000f''" by code_simp
  have t: "link_tail ''?utm=qr''" by code_simp
  have l: "''?utm=qr'' = [] \<or> \<not> is_space (last ''?utm=qr'')" by code_simp
  have c: "lower_case ''0A1b2c3d-0000-4000-8000-00000000000f'' = ''0a1b2c3d-0000-4000-8000-00000000000f''" by code_simp
  show ?thesis using device_link_roundtrip [of "''https://''" "''app.example''" _ _ 1, OF _ _ h u t l] c by simp
qed

end
