(* ===== verification/Flasher.thy ===== *)
theory Flasher
  imports Json
begin

text \<open>
  Flashing a board from the browser (frontend/src/lib/hardware/flasher.ts): what is written where, how a
  failure is worded and whether a slower link may help, and \<open>flashBoard\<close>'s loop over the link speeds.
  esptool-js, Web Serial and the download are the environment: what each attempt at a speed meets
  (\<open>encounter\<close>) is an argument. Measured times and esptool's own log lines are left out.
\<close>

section \<open>The release's build for a chip\<close>

record region =
  rg_offset :: nat
  rg_size :: nat

record manifest_part =
  mp_path :: string
  mp_offset :: nat
  mp_size :: nat
  mp_sha256 :: string

record build =
  bu_chip :: string
  bu_parts :: "manifest_part list"
  bu_app :: region
  bu_cfg :: region
  bu_nvs :: "region option"

type_synonym bytes = "nat list"

record flash_file =
  ff_name :: string
  ff_data :: bytes
  ff_address :: nat

datatype flash_mode = Full | Config_only

definition flashFiles :: "build \<Rightarrow> flash_mode \<Rightarrow> flash_file list \<Rightarrow> bytes \<Rightarrow> bool \<Rightarrow> flash_file list \<times> string list" where
  "flashFiles target mode parts configBlob eraseWifi =
     (let files = (if mode = Full then parts else []);
          cfg = \<lparr>ff_name = ''device config'', ff_data = configBlob, ff_address = rg_offset (bu_cfg target)\<rparr>
      in if mode = Full \<and> eraseWifi
         then (case bu_nvs target of
                 Some nvs \<Rightarrow> (files @ [\<lparr>ff_name = ''saved Wi-Fi (erased)'', ff_data = replicate (rg_size nvs) 255,
                                      ff_address = rg_offset nvs\<rparr>, cfg], [])
               | None \<Rightarrow> (files @ [cfg], [''This firmware release doesn'' @ [CHR 0x27] @ ''t say where the saved Wi-Fi is, so it was kept.'']))
         else (files @ [cfg], []))"

definition chipForName :: "build dict \<Rightarrow> string \<Rightarrow> string option" where
  "chipForName boards chipName = map_option fst (List.find (\<lambda>(k, b). bu_chip b = chipName) boards)"

section \<open>Failures\<close>

datatype flash_stage = Connecting | Downloading | Writing | Restarting | Done

record flash_error =
  fe_message :: string
  fe_stage :: flash_stage
  fe_retryable :: bool

text \<open>What the \<open>try\<close> block can throw: our own error, another Error with its name, or another value as text.\<close>

datatype thrown = Ours flash_error | Js_error string string | Other string

definition matches :: "string list \<Rightarrow> string \<Rightarrow> bool" where
  "matches ps raw \<longleftrightarrow> list_ex (\<lambda>p. contains (lower_case raw) p) ps"

definition explainFlashError :: "thrown \<Rightarrow> flash_stage \<Rightarrow> bool \<Rightarrow> flash_error" where
  "explainFlashError err stage synced =
     (case err of
        Ours e \<Rightarrow> e
      | _ \<Rightarrow>
        (let raw = (case err of Js_error name msg \<Rightarrow> msg | Other v \<Rightarrow> v | Ours e \<Rightarrow> fe_message e);
             name = (case err of Js_error name msg \<Rightarrow> name | _ \<Rightarrow> '''');
             final = (\<lambda>m. \<lparr>fe_message = m, fe_stage = stage, fe_retryable = False\<rparr>)
         in
         if matches [''failed to open serial port'', ''port is already open''] raw \<or> name = ''InvalidStateError''
         then final (''The board'' @ [CHR 0x27] @ ''s COM port is busy. Close any serial monitor using it (Arduino IDE, PuTTY, pio device monitor), then try again. If none is open, unplug the board and plug it in again.'')
         else if matches [''device has been lost'', ''disconnected''] raw \<or> name = ''NetworkError''
         then final ''The board disconnected. Check the USB cable, plug the board in again, and try again.''
         else if stage = Connecting \<and> synced
         then final ''The board answered, then stopped responding. Unplug anything wired to GPIO 0, 2, 12 or 15, use a USB port on the computer itself (not a hub), and try again.''
         else if stage = Connecting
         then final (''The board didn'' @ [CHR 0x27] @ ''t answer. Hold its BOOT button while you click Install, and let go once the progress starts.'')
         else \<lparr>fe_message = raw, fe_stage = stage, fe_retryable = (stage = Writing)\<rparr>))"

section \<open>Link speeds\<close>

definition BAUD_LADDER :: "nat list" where "BAUD_LADDER = [921600, 460800, 115200]"
definition LOG_LINES :: nat where "LOG_LINES = 80"

definition nextSlower :: "nat \<Rightarrow> nat option" where
  "nextSlower baud = List.find (\<lambda>b. b < baud) BAUD_LADDER"

definition nextAttempt :: "flash_stage \<Rightarrow> bool \<Rightarrow> bool \<Rightarrow> nat \<Rightarrow> nat option" where
  "nextAttempt stage synced retryable baud =
     (if stage = Connecting \<and> synced \<or> stage = Writing \<and> retryable then nextSlower baud else None)"

lemma nextSlower_Some: "nextSlower b = Some b' \<Longrightarrow> b' < b \<and> b' \<in> set BAUD_LADDER"
  unfolding nextSlower_def by (auto dest: find_Some_iff)

text \<open>How far the write is, over the rationals; \<open>sizes[index] ?? 0\<close>.\<close>

definition overallFraction :: "nat list \<Rightarrow> nat \<Rightarrow> nat \<Rightarrow> nat \<Rightarrow> rat" where
  "overallFraction sizes index written tot =
     (let all = sum_list sizes in
      if all = 0 then 1
      else let part = (if tot > 0 then min 1 (of_nat written / of_nat tot) else 1);
               this = (if index < length sizes then sizes ! index else 0)
           in min 1 ((of_nat (sum_list (take index sizes)) + of_nat this * part) / of_nat all))"

definition push_line :: "string \<Rightarrow> string list \<Rightarrow> string list" where
  "push_line line lines =
     (let l = lines @ [line] in if length l > LOG_LINES then tl l else l)"

section \<open>The download\<close>

datatype fetched = Http_status nat | Body bytes | Unreachable thrown

definition byte_hex :: "nat \<Rightarrow> string" where
  "byte_hex b = [hex_digit (b div 16), hex_digit (b mod 16)]"

text \<open>\<open>sha256\<close> is crypto.subtle's digest.\<close>

definition fetchPart :: "(bytes \<Rightarrow> bytes) \<Rightarrow> (manifest_part \<Rightarrow> fetched) \<Rightarrow> manifest_part \<Rightarrow> thrown + bytes" where
  "fetchPart sha256 fetch p =
     (case fetch p of
        Unreachable e \<Rightarrow> Inl e
      | Http_status st \<Rightarrow>
          Inl (Js_error ''Error'' (''Couldn'' @ [CHR 0x27] @ ''t download '' @ mp_path p @ '' ('' @ nat_text st @ '').''))
      | Body d \<Rightarrow>
          if concat (map byte_hex (sha256 d)) \<noteq> mp_sha256 p
          then Inl (Js_error ''Error'' (mp_path p @ '' is corrupt (checksum mismatch). Reload and try again.''))
          else Inr d)"

text \<open>\<open>Promise.all\<close> of the parts; of several failures the first in the list.\<close>

fun fetch_parts :: "(bytes \<Rightarrow> bytes) \<Rightarrow> (manifest_part \<Rightarrow> fetched) \<Rightarrow> manifest_part list \<Rightarrow> thrown + flash_file list" where
  "fetch_parts sha256 fetch [] = Inr []"
| "fetch_parts sha256 fetch (p # ps) =
     (case fetchPart sha256 fetch p of
        Inl e \<Rightarrow> Inl e
      | Inr d \<Rightarrow> (case fetch_parts sha256 fetch ps of
          Inl e \<Rightarrow> Inl e
        | Inr fs \<Rightarrow> Inr (\<lparr>ff_name = mp_path p, ff_data = d, ff_address = mp_offset p\<rparr> # fs)))"

section \<open>Flashing\<close>

record job =
  jb_target :: build
  jb_mode :: flash_mode
  jb_blob :: bytes
  jb_eraseWifi :: bool

text \<open>
  One attempt's environment: whether \<open>main()\<close> throws and whether the chip was known by then, the chip,
  the download, the progress esptool reports, and whether the write or the restart throws.
\<close>

record encounter =
  en_main :: "thrown option"
  en_chip_known :: bool
  en_chip :: string
  en_download :: "manifest_part \<Rightarrow> fetched"
  en_reports :: "(nat \<times> nat \<times> nat) list"
  en_write :: "thrown option"
  en_after :: "thrown option"

record flash_progress =
  fp_stage :: flash_stage
  fp_file :: "string option"
  fp_written :: "nat option"
  fp_total :: "nat option"
  fp_fraction :: "rat option"
  fp_baud :: nat

record flash_timings =
  ft_bytes :: nat
  ft_baudrate :: nat
  ft_wifiErased :: bool
  ft_notes :: "string list"

text \<open>\<open>fs_writes\<close> and \<open>fs_tried\<close> are the trace: what was handed to writeFlash, and at which speeds.\<close>

record flash_state =
  fs_parts :: "flash_file list option"
  fs_lines :: "string list"
  fs_progress :: "flash_progress list"
  fs_good :: "nat option"
  fs_writes :: "(nat \<times> string \<times> flash_file list) list"
  fs_tried :: "nat list"

datatype attempt_result = Finished flash_timings | Caught thrown flash_stage bool

definition simple_progress :: "flash_stage \<Rightarrow> nat \<Rightarrow> flash_progress" where
  "simple_progress g baud = \<lparr>fp_stage = g, fp_file = None, fp_written = None, fp_total = None, fp_fraction = None, fp_baud = baud\<rparr>"

definition write_progress :: "flash_file list \<Rightarrow> nat \<Rightarrow> nat \<times> nat \<times> nat \<Rightarrow> flash_progress" where
  "write_progress files baud r =
     (case r of (i, written, tot) \<Rightarrow>
        \<lparr>fp_stage = Writing, fp_file = (if i < length files then Some (ff_name (files ! i)) else None),
         fp_written = Some written, fp_total = Some tot,
         fp_fraction = Some (overallFraction (map (\<lambda>f. length (ff_data f)) files) i written tot), fp_baud = baud\<rparr>)"

definition progress :: "flash_progress list \<Rightarrow> flash_state \<Rightarrow> flash_state" where
  "progress ps st = st\<lparr>fs_progress := fs_progress st @ ps\<rparr>"

definition log_lines :: "string list \<Rightarrow> flash_state \<Rightarrow> flash_state" where
  "log_lines ls st = st\<lparr>fs_lines := fold push_line ls (fs_lines st)\<rparr>"

text \<open>From \<open>writeFlash\<close> on, with the files to write.\<close>

definition write_files :: "job \<Rightarrow> encounter \<Rightarrow> nat \<Rightarrow> flash_file list \<Rightarrow> string list \<Rightarrow> flash_state \<Rightarrow> flash_state \<times> attempt_result" where
  "write_files j e baud files notes st =
     (let st1 = st\<lparr>fs_writes := fs_writes st @ [(baud, en_chip e, files)]\<rparr>;
          st2 = progress (map (write_progress files baud) (en_reports e)) st1;
          stage = (if en_reports e = [] then Downloading else Writing)
      in case en_write e of
           Some err \<Rightarrow> (st2, Caught err stage True)
         | None \<Rightarrow>
             (let st3 = progress [simple_progress Restarting baud] st2 in
              case en_after e of
                Some err \<Rightarrow> (st3, Caught err Restarting True)
              | None \<Rightarrow>
                  ((progress [simple_progress Done baud] st3)\<lparr>fs_good := Some baud\<rparr>,
                   Finished \<lparr>ft_bytes = sum_list (map (\<lambda>f. length (ff_data f)) files), ft_baudrate = baud,
                             ft_wifiErased = (case bu_nvs (jb_target j) of None \<Rightarrow> False
                                | Some nvs \<Rightarrow> list_ex (\<lambda>f. ff_address f = rg_offset nvs) files),
                             ft_notes = notes\<rparr>)))"

definition download :: "(bytes \<Rightarrow> bytes) \<Rightarrow> job \<Rightarrow> encounter \<Rightarrow> flash_state \<Rightarrow> thrown + flash_file list" where
  "download sha256 j e st =
     (case fs_parts st of
        Some ps \<Rightarrow> Inr ps
      | None \<Rightarrow> if jb_mode j = Full then fetch_parts sha256 (en_download e) (bu_parts (jb_target j)) else Inr [])"

definition wrong_board :: "build \<Rightarrow> string \<Rightarrow> flash_error" where
  "wrong_board target chip =
     \<lparr>fe_message = ''This board is an '' @ chip @ '', but you picked '' @ bu_chip target @ ''. Pick the matching board and try again.'',
      fe_stage = Connecting, fe_retryable = False\<rparr>"

definition flash_attempt :: "(bytes \<Rightarrow> bytes) \<Rightarrow> job \<Rightarrow> encounter \<Rightarrow> nat \<Rightarrow> flash_state \<Rightarrow> flash_state \<times> attempt_result" where
  "flash_attempt sha256 j e baud st =
     (let st1 = progress [simple_progress Connecting baud] (st\<lparr>fs_tried := fs_tried st @ [baud]\<rparr>) in
      case en_main e of
        Some err \<Rightarrow> (st1, Caught err Connecting (en_chip_known e))
      | None \<Rightarrow>
          if en_chip e \<noteq> bu_chip (jb_target j) then (st1, Caught (Ours (wrong_board (jb_target j) (en_chip e))) Connecting True)
          else
            (let st2 = progress [simple_progress Downloading baud] st1 in
             case download sha256 j e st2 of
               Inl err \<Rightarrow> (st2, Caught err Downloading True)
             | Inr parts \<Rightarrow>
                 (case flashFiles (jb_target j) (jb_mode j) parts (jb_blob j) (jb_eraseWifi j) of
                    (files, notes) \<Rightarrow> write_files j e baud files notes (log_lines notes (st2\<lparr>fs_parts := Some parts\<rparr>)))))"

text \<open>Our own errors (the wrong board) are final.\<close>

definition retry_at :: "thrown \<Rightarrow> flash_stage \<Rightarrow> bool \<Rightarrow> nat \<Rightarrow> nat option" where
  "retry_at err stage synced baud =
     (case err of Ours e \<Rightarrow> None
      | _ \<Rightarrow> nextAttempt stage synced (fe_retryable (explainFlashError err stage synced)) baud)"

lemma retry_at_slower: "retry_at err stage synced baud = Some b \<Longrightarrow> b < baud \<and> b \<in> set BAUD_LADDER"
  by (auto simp: retry_at_def nextAttempt_def split: thrown.splits if_splits dest: nextSlower_Some)

definition stage_text :: "flash_stage \<Rightarrow> string" where
  "stage_text g = (case g of Connecting \<Rightarrow> ''connecting'' | Downloading \<Rightarrow> ''downloading'' | Writing \<Rightarrow> ''writing''
     | Restarting \<Rightarrow> ''restarting'' | Done \<Rightarrow> ''done'')"

definition retry_line :: "nat \<Rightarrow> flash_stage \<Rightarrow> nat \<Rightarrow> string" where
  "retry_line baud stage b =
     ''Lost the board at '' @ nat_text baud @ '' baud while '' @ stage_text stage @ ''; trying again at '' @ nat_text b @ ''.''"

function flash_loop :: "(bytes \<Rightarrow> bytes) \<Rightarrow> job \<Rightarrow> (nat \<Rightarrow> nat \<Rightarrow> encounter) \<Rightarrow> nat \<Rightarrow> nat \<Rightarrow> flash_state \<Rightarrow>
    flash_state \<times> (flash_error + flash_timings)" where
  "flash_loop sha256 j env n baud st =
     (case flash_attempt sha256 j (env n baud) baud st of
        (st1, Finished t) \<Rightarrow> (st1, Inr t)
      | (st1, Caught err stage synced) \<Rightarrow>
          (case retry_at err stage synced baud of
             None \<Rightarrow> (st1, Inl (explainFlashError err stage synced))
           | Some b \<Rightarrow> flash_loop sha256 j env (Suc n) b
               (log_lines [retry_line baud stage b] st1)))"
  by pat_completeness auto
termination by (relation "measure (\<lambda>(sha256, j, env, n, baud, st). baud)") (auto dest: retry_at_slower)

declare flash_loop.simps [simp del]

datatype flash_result = Refused string | Failed flash_error | Flashed flash_timings

text \<open>\<open>goodBaud.get(port) ?? opts.baudrate ?? BAUD_LADDER[0]\<close>; \<open>good\<close> is what the port remembers.\<close>

definition start_baud :: "nat option \<Rightarrow> nat option \<Rightarrow> nat" where
  "start_baud good baudrate = (case good of Some b \<Rightarrow> b | None \<Rightarrow> (case baudrate of Some b \<Rightarrow> b | None \<Rightarrow> BAUD_LADDER ! 0))"

definition fresh_state :: "nat option \<Rightarrow> flash_state" where
  "fresh_state good = \<lparr>fs_parts = None, fs_lines = [], fs_progress = [], fs_good = good, fs_writes = [], fs_tried = []\<rparr>"

definition flashBoard :: "(bytes \<Rightarrow> bytes) \<Rightarrow> string \<Rightarrow> build dict \<Rightarrow> string \<Rightarrow> flash_mode \<Rightarrow> bytes \<Rightarrow> bool \<Rightarrow>
    nat option \<Rightarrow> nat option \<Rightarrow> (nat \<Rightarrow> nat \<Rightarrow> encounter) \<Rightarrow> flash_state \<times> flash_result" where
  "flashBoard sha256 version boards board mode blob eraseWifi good baudrate env =
     (case dict_get boards board of
        None \<Rightarrow> (fresh_state good, Refused (''Firmware '' @ version @ '' has no build for '' @ board @ ''.''))
      | Some target \<Rightarrow>
          if rg_size (bu_cfg target) < length blob
          then (fresh_state good, Refused (''The device config is larger than the board'' @ [CHR 0x27] @ ''s config area.''))
          else (case flash_loop sha256 \<lparr>jb_target = target, jb_mode = mode, jb_blob = blob, jb_eraseWifi = eraseWifi\<rparr> env 0
                       (start_baud good baudrate) (fresh_state good) of
                  (st, Inl e) \<Rightarrow> (st, Failed e)
                | (st, Inr t) \<Rightarrow> (st, Flashed t)))"

text \<open>\<open>detectChip\<close>: the chip's name, writing nothing.\<close>

definition detectChip :: "encounter \<Rightarrow> flash_error + string" where
  "detectChip e =
     (case en_main e of
        Some err \<Rightarrow> Inl (explainFlashError err Connecting (en_chip_known e))
      | None \<Rightarrow> (case en_after e of Some err \<Rightarrow> Inl (explainFlashError err Connecting True) | None \<Rightarrow> Inr (en_chip e)))"

section \<open>What every run keeps\<close>

definition part_ok :: "(bytes \<Rightarrow> bytes) \<Rightarrow> manifest_part \<Rightarrow> flash_file \<Rightarrow> bool" where
  "part_ok sha256 p f \<longleftrightarrow>
     ff_name f = mp_path p \<and> ff_address f = mp_offset p \<and> concat (map byte_hex (sha256 (ff_data f))) = mp_sha256 p"

definition parts_ok :: "(bytes \<Rightarrow> bytes) \<Rightarrow> job \<Rightarrow> flash_file list \<Rightarrow> bool" where
  "parts_ok sha256 j ps \<longleftrightarrow> (if jb_mode j = Full then list_all2 (part_ok sha256) (bu_parts (jb_target j)) ps else ps = [])"

definition write_ok :: "(bytes \<Rightarrow> bytes) \<Rightarrow> job \<Rightarrow> nat \<times> string \<times> flash_file list \<Rightarrow> bool" where
  "write_ok sha256 j w \<longleftrightarrow>
     (case w of (b, chip, fs) \<Rightarrow> chip = bu_chip (jb_target j) \<and>
        (\<exists>ps. parts_ok sha256 j ps \<and> fs = fst (flashFiles (jb_target j) (jb_mode j) ps (jb_blob j) (jb_eraseWifi j))))"

definition state_ok :: "(bytes \<Rightarrow> bytes) \<Rightarrow> job \<Rightarrow> flash_state \<Rightarrow> bool" where
  "state_ok sha256 j st \<longleftrightarrow>
     (\<forall>w\<in>set (fs_writes st). write_ok sha256 j w) \<and> (\<forall>ps. fs_parts st = Some ps \<longrightarrow> parts_ok sha256 j ps)"

definition finished_ok :: "job \<Rightarrow> nat \<Rightarrow> flash_timings \<Rightarrow> flash_state \<Rightarrow> bool" where
  "finished_ok j baud t st \<longleftrightarrow>
     fs_good st = Some baud \<and> ft_baudrate t = baud \<and> fs_writes st \<noteq> [] \<and>
     (case last (fs_writes st) of (b, chip, fs) \<Rightarrow> b = baud \<and> ft_bytes t = sum_list (map (\<lambda>f. length (ff_data f)) fs))"

text \<open>An attempt in which the board answered, the whole write succeeded and the restart too.\<close>

definition went_through :: "job \<Rightarrow> encounter \<Rightarrow> bool" where
  "went_through j e \<longleftrightarrow> en_main e = None \<and> en_chip e = bu_chip (jb_target j) \<and> en_write e = None \<and> en_after e = None"

lemma progress_keeps [simp]:
  "fs_parts (progress ps st) = fs_parts st" "fs_good (progress ps st) = fs_good st"
  "fs_writes (progress ps st) = fs_writes st" "fs_tried (progress ps st) = fs_tried st"
  by (simp_all add: progress_def)

lemma log_keeps [simp]:
  "fs_parts (log_lines ls st) = fs_parts st" "fs_good (log_lines ls st) = fs_good st"
  "fs_writes (log_lines ls st) = fs_writes st" "fs_tried (log_lines ls st) = fs_tried st"
  by (simp_all add: log_lines_def)

lemma fetchPart_ok:
  "fetchPart sha256 fetch p = Inr d \<Longrightarrow> part_ok sha256 p \<lparr>ff_name = mp_path p, ff_data = d, ff_address = mp_offset p\<rparr>"
  by (auto simp: fetchPart_def part_ok_def split: fetched.splits if_splits)

lemma fetch_parts_ok: "fetch_parts sha256 fetch ps = Inr fs \<Longrightarrow> list_all2 (part_ok sha256) ps fs"
  by (induction ps arbitrary: fs) (auto split: sum.splits intro: fetchPart_ok)

lemma download_ok: "state_ok sha256 j st \<Longrightarrow> download sha256 j e st = Inr ps \<Longrightarrow> parts_ok sha256 j ps"
  by (auto simp: state_ok_def download_def parts_ok_def split: option.splits if_splits intro: fetch_parts_ok)

lemma write_files_ok:
  assumes "write_files j e baud files notes st = (st', r)" "state_ok sha256 j st" "write_ok sha256 j (baud, en_chip e, files)"
  shows "state_ok sha256 j st' \<and> fs_tried st' = fs_tried st \<and>
    (case r of Finished t \<Rightarrow> finished_ok j baud t st' \<and> en_write e = None \<and> en_after e = None
     | Caught err g s \<Rightarrow> fs_good st' = fs_good st)"
  using assms by (auto simp: write_files_def Let_def state_ok_def finished_ok_def split: option.splits)

lemma flash_attempt_ok:
  assumes "flash_attempt sha256 j e baud st = (st', r)" "state_ok sha256 j st"
  shows "state_ok sha256 j st' \<and> fs_tried st' = fs_tried st @ [baud] \<and>
    (case r of Finished t \<Rightarrow> finished_ok j baud t st' \<and> went_through j e | Caught err g s \<Rightarrow> fs_good st' = fs_good st)"
proof -
  let ?st1 = "progress [simple_progress Connecting baud] (st\<lparr>fs_tried := fs_tried st @ [baud]\<rparr>)"
  let ?st2 = "progress [simple_progress Downloading baud] ?st1"
  have ok: "state_ok sha256 j ?st1" "state_ok sha256 j ?st2" using assms(2) by (simp_all add: state_ok_def)
  show ?thesis
  proof (cases "en_main e \<noteq> None \<or> en_chip e \<noteq> bu_chip (jb_target j) \<or> (\<exists>err. download sha256 j e ?st2 = Inl err)")
    case True
    then have "(st' = ?st1 \<or> st' = ?st2) \<and> (\<forall>t. r \<noteq> Finished t)"
      using assms(1) by (cases "en_main e") (auto simp: flash_attempt_def Let_def split: if_splits)
    then show ?thesis using ok by (cases r) auto
  next
    case False
    then obtain ps where ps: "download sha256 j e ?st2 = Inr ps" by (cases "download sha256 j e ?st2") auto
    obtain files msgs where f: "flashFiles (jb_target j) (jb_mode j) ps (jb_blob j) (jb_eraseWifi j) = (files, msgs)" by fastforce
    have p: "parts_ok sha256 j ps" by (rule download_ok [OF ok(2) ps])
    have w: "write_ok sha256 j (baud, en_chip e, files)" using False p f by (auto simp: write_ok_def intro!: exI [of _ ps])
    let ?st3 = "log_lines msgs (?st2\<lparr>fs_parts := Some ps\<rparr>)"
    have "state_ok sha256 j ?st3" using ok(2) p by (simp add: state_ok_def)
    moreover have "write_files j e baud files msgs ?st3 = (st', r)"
      using False assms(1) ps f by (simp add: flash_attempt_def Let_def)
    ultimately show ?thesis using write_files_ok [of j e baud files msgs ?st3 st' r sha256] w False
      by (cases r) (simp_all add: went_through_def)
  qed
qed

definition run_ok :: "(bytes \<Rightarrow> bytes) \<Rightarrow> job \<Rightarrow> (nat \<Rightarrow> nat \<Rightarrow> encounter) \<Rightarrow> nat \<Rightarrow> flash_state \<Rightarrow> nat \<Rightarrow> flash_state \<Rightarrow> flash_error + flash_timings \<Rightarrow> bool" where
  "run_ok sha256 j env n st baud st' r \<longleftrightarrow>
     state_ok sha256 j st' \<and>
     (\<exists>bs. fs_tried st' = fs_tried st @ baud # bs \<and> sorted_wrt (>) (baud # bs) \<and> set bs \<subseteq> set BAUD_LADDER \<and>
        (case r of Inl e \<Rightarrow> fs_good st' = fs_good st | Inr t \<Rightarrow>
           finished_ok j (last (baud # bs)) t st' \<and> went_through j (env (n + length bs) (last (baud # bs)))))"

lemma sorted_down: "b < a \<Longrightarrow> sorted_wrt (>) (b # bs) \<Longrightarrow> sorted_wrt (>) ((a::nat) # b # bs)"
  by auto

lemma flash_loop_ok:
  "flash_loop sha256 j env n baud st = (st', r) \<Longrightarrow> state_ok sha256 j st \<Longrightarrow> run_ok sha256 j env n st baud st' r"
proof (induction sha256 j env n baud st rule: flash_loop.induct)
  case (1 sha256 j env n baud st)
  obtain st1 a where a: "flash_attempt sha256 j (env n baud) baud st = (st1, a)" by fastforce
  note one = flash_attempt_ok [OF a 1(3)]
  show ?case
  proof (cases a)
    case (Finished t)
    then show ?thesis using 1(2) a one by (auto simp: flash_loop.simps [of sha256] run_ok_def)
  next
    case (Caught err stage synced)
    show ?thesis
    proof (cases "retry_at err stage synced baud")
      case None
      then show ?thesis using 1(2) a one Caught by (auto simp: flash_loop.simps [of sha256] run_ok_def)
    next
      case (Some b)
      let ?line = "retry_line baud stage b"
      have go: "flash_loop sha256 j env (Suc n) b (log_lines [?line] st1) = (st', r)"
        using 1(2) a Caught Some by (simp add: flash_loop.simps [of sha256 j env n])
      have "state_ok sha256 j (log_lines [?line] st1)" using one by (simp add: state_ok_def)
      then have "run_ok sha256 j env (Suc n) (log_lines [?line] st1) b st' r"
        by (rule 1(1) [OF a [symmetric] Caught Some go])
      then obtain bs where bs: "fs_tried st' = fs_tried st1 @ b # bs" "sorted_wrt (>) (b # bs)" "set bs \<subseteq> set BAUD_LADDER"
        "case r of Inl e \<Rightarrow> fs_good st' = fs_good st1
         | Inr t \<Rightarrow> finished_ok j (last (b # bs)) t st' \<and> went_through j (env (Suc n + length bs) (last (b # bs)))"
        and ok: "state_ok sha256 j st'" by (cases r) (auto simp: run_ok_def)
      have "sorted_wrt (>) (baud # b # bs)" using retry_at_slower [OF Some] bs(2) by (intro sorted_down) auto
      moreover have "fs_tried st' = fs_tried st @ baud # b # bs" "fs_good st1 = fs_good st" using bs(1) one Caught by auto
      ultimately show ?thesis using bs ok retry_at_slower [OF Some] unfolding run_ok_def
        by (intro conjI exI [of _ "b # bs"]) (auto split: sum.splits)
    qed
  qed
qed

lemma few_speeds:
  assumes "sorted_wrt (>) bs" "set bs \<subseteq> set BAUD_LADDER"
  shows "length bs \<le> 3"
proof -
  have "distinct bs" using assms(1) by (induction bs) auto
  then have "length bs = card (set bs)" by (simp add: distinct_card)
  also have "\<dots> \<le> card (set BAUD_LADDER)" by (rule card_mono [OF _ assms(2)]) simp
  also have "\<dots> = 3" by (simp add: BAUD_LADDER_def)
  finally show ?thesis .
qed

definition config_file :: "build \<Rightarrow> bytes \<Rightarrow> flash_file" where
  "config_file target blob = \<lparr>ff_name = ''device config'', ff_data = blob, ff_address = rg_offset (bu_cfg target)\<rparr>"

text \<open>What a write may hold: a config-only one just the config, and none the saved Wi-Fi unless asked.\<close>

lemma flashFiles_config: "fst (flashFiles t Config_only ps blob e) = [config_file t blob]"
  by (simp add: flashFiles_def Let_def config_file_def)

lemma flashFiles_full: "fst (flashFiles t Full ps blob False) = ps @ [config_file t blob]"
  by (simp add: flashFiles_def Let_def config_file_def)

definition files_written :: "flash_state \<Rightarrow> flash_file list set" where
  "files_written st = (\<lambda>(b, chip, fs). fs) ` set (fs_writes st)"

text \<open>
  C4: whatever the boards, the downloads and the link do, \<open>flashBoard\<close> ends after at most four attempts,
  each slower than the one before; it writes only to a board whose chip is the picked build's, and only the
  list of files the mode asks for, made of downloads whose checksum is the manifest's (a config-only update
  just the config, which fits its partition); and it reports success only when the last attempt's whole
  write and restart succeeded, at the speed it reports and remembers; any other end leaves what the port
  remembers as it was.
\<close>

theorem flash_safe:
  assumes "flashBoard sha256 version boards board mode blob eraseWifi good baudrate env = (st, res)"
    and "dict_get boards board = Some target"
  defines "j \<equiv> \<lparr>jb_target = target, jb_mode = mode, jb_blob = blob, jb_eraseWifi = eraseWifi\<rparr>"
  shows "(\<forall>w\<in>set (fs_writes st). write_ok sha256 j w) \<and> (rg_size (bu_cfg target) < length blob \<longrightarrow> fs_writes st = []) \<and>
    (mode = Config_only \<longrightarrow> files_written st \<subseteq> {[config_file target blob]}) \<and>
    sorted_wrt (>) (fs_tried st) \<and> length (fs_tried st) \<le> 4 \<and>
    (case res of
       Flashed t \<Rightarrow> finished_ok j (last (fs_tried st)) t st \<and>
         went_through j (env (length (fs_tried st) - 1) (last (fs_tried st)))
     | _ \<Rightarrow> fs_good st = good)"
proof (cases "rg_size (bu_cfg target) < length blob")
  case True
  then show ?thesis using assms(1,2) by (auto simp: flashBoard_def fresh_state_def files_written_def)
next
  case False
  obtain st1 r where r: "flash_loop sha256 j env 0 (start_baud good baudrate) (fresh_state good) = (st1, r)" by fastforce
  have "state_ok sha256 j (fresh_state good)" by (simp add: state_ok_def fresh_state_def)
  from flash_loop_ok [OF r this] obtain bs where
    bs: "fs_tried st1 = start_baud good baudrate # bs" "sorted_wrt (>) (start_baud good baudrate # bs)" "set bs \<subseteq> set BAUD_LADDER"
      "case r of Inl e \<Rightarrow> fs_good st1 = good | Inr t \<Rightarrow> finished_ok j (last (start_baud good baudrate # bs)) t st1 \<and>
         went_through j (env (length bs) (last (start_baud good baudrate # bs)))"
    and ok: "state_ok sha256 j st1" by (cases r) (auto simp: run_ok_def fresh_state_def)
  have st: "st1 = st" "res = (case r of Inl e \<Rightarrow> Failed e | Inr t \<Rightarrow> Flashed t)"
    using assms(1,2) False r unfolding j_def flashBoard_def by (auto split: sum.splits)
  have n: "length bs \<le> 3" using few_speeds [OF _ bs(3)] bs(2) by simp
  have w: "\<forall>w\<in>set (fs_writes st). write_ok sha256 j w" using ok st(1) by (simp add: state_ok_def)
  then have "mode = Config_only \<longrightarrow> files_written st \<subseteq> {[config_file target blob]}"
    by (auto simp: files_written_def write_ok_def j_def flashFiles_config)
  then show ?thesis using False bs n w st by (cases r) auto
qed

text \<open>A link that drops in the middle of the first write, and holds at the next speed.\<close>

definition shaky :: "nat \<Rightarrow> nat \<Rightarrow> encounter" where
  "shaky n baud =
     \<lparr>en_main = None, en_chip_known = True, en_chip = ''ESP32'', en_download = (\<lambda>p. Body []), en_reports = [(0, 1, 2)],
      en_write = (if n = 0 then Some (Js_error ''Error'' ''Timeout'') else None), en_after = None\<rparr>"

definition small_build :: build where
  "small_build = \<lparr>bu_chip = ''ESP32'', bu_parts = [], bu_app = \<lparr>rg_offset = 0, rg_size = 9\<rparr>,
     bu_cfg = \<lparr>rg_offset = 100, rg_size = 9\<rparr>, bu_nvs = None\<rparr>"

lemma flash_safe_witness:
  "case flashBoard (\<lambda>b. b) ''1'' [(''esp32'', small_build)] ''esp32'' Config_only [1, 2] False None None shaky of
     (st, res) \<Rightarrow> files_written st \<subseteq> {[config_file small_build [1, 2]]} \<and> length (fs_tried st) \<le> 4"
proof -
  obtain st res where r: "flashBoard (\<lambda>b. b) ''1'' [(''esp32'', small_build)] ''esp32'' Config_only [1, 2] False None None shaky = (st, res)"
    by fastforce
  have "dict_get [(''esp32'', small_build)] ''esp32'' = Some small_build" by simp
  from flash_safe [OF r this] show ?thesis using r by simp
qed

text \<open>A drop before esptool's first report is not retried: the stage is still the download's.\<close>

lemma early_drop_not_retried: "retry_at (Js_error ''Error'' ''Timeout'') Downloading True 921600 = None"
  by (simp add: retry_at_def nextAttempt_def)

end
