(* ===== verification/Rule_Tree.thy ===== *)
theory Rule_Tree imports Rule_Types "HOL-Library.Sublist" "HOL-Library.Multiset" begin

text \<open>
  The tree operations of \<open>rule-draft.ts\<close>: \<open>normalize\<close>, \<open>insertBeside\<close>, \<open>removeNode\<close>,
  \<open>updateContact\<close>, \<open>setGroupOp\<close> and the searches they use.  The lemmas show the normal
  form, what each operation does to the sequence of contacts and to the meaning of the
  condition (AND = all, OR = any), that inserting is wrapping the target in a group of the
  given operator, and that a session of edits keeps the ids distinct and the tree normal.
\<close>

section \<open>Searches\<close>

fun contacts :: "draft_node \<Rightarrow> contact_draft list" where
  "contacts (Contact c) = [c]"
| "contacts (Group i op cs) = concat (map contacts cs)"

text \<open>The same on a tree that may be missing (\<open>null\<close>).\<close>

definition contacts_opt :: "draft_node option \<Rightarrow> contact_draft list" where
  "contacts_opt t = (case t of None \<Rightarrow> [] | Some n \<Rightarrow> contacts n)"

fun first_some :: "('a \<Rightarrow> 'b option) \<Rightarrow> 'a list \<Rightarrow> 'b option" where
  "first_some f [] = None"
| "first_some f (x # xs) = (case f x of Some y \<Rightarrow> Some y | None \<Rightarrow> first_some f xs)"

lemma first_some_cong [fundef_cong]:
  "xs = ys \<Longrightarrow> (\<And>x. x \<in> set ys \<Longrightarrow> f x = g x) \<Longrightarrow> first_some f xs = first_some g ys"
  by (induction ys arbitrary: xs) (auto split: option.splits)

lemma first_some_None: "first_some f xs = None \<longleftrightarrow> (\<forall>x\<in>set xs. f x = None)"
  by (induction xs) (auto split: option.splits)

lemma first_some_Some: "first_some f xs = Some y \<Longrightarrow> \<exists>x\<in>set xs. f x = Some y"
  by (induction xs) (auto split: option.splits)

fun find_node :: "string \<Rightarrow> draft_node \<Rightarrow> draft_node option" where
  "find_node i (Contact c) = (if c_id c = i then Some (Contact c) else None)"
| "find_node i (Group g op cs) = (if g = i then Some (Group g op cs) else first_some (find_node i) cs)"

definition findNode :: "draft_node option \<Rightarrow> string \<Rightarrow> draft_node option" where
  "findNode t i = Option.bind t (find_node i)"

fun parentOf :: "string \<Rightarrow> draft_node \<Rightarrow> draft_node option" where
  "parentOf i (Contact c) = None"
| "parentOf i (Group g op cs) =
     (if \<exists>c\<in>set cs. node_id c = i then Some (Group g op cs) else first_some (parentOf i) cs)"

section \<open>Normal form\<close>

text \<open>What a normalised child adds to a parent combining with \<open>op\<close>: the children of a group
  with the same operator, else itself.\<close>

definition splice :: "combinator \<Rightarrow> draft_node option \<Rightarrow> draft_node list" where
  "splice op child =
     (case child of None \<Rightarrow> []
      | Some (Contact c) \<Rightarrow> [Contact c]
      | Some (Group i op' cs) \<Rightarrow> if op' = op then cs else [Group i op' cs])"

definition collapse :: "string \<Rightarrow> combinator \<Rightarrow> draft_node list \<Rightarrow> draft_node option" where
  "collapse i op children =
     (case children of [] \<Rightarrow> None | [c] \<Rightarrow> Some c | _ \<Rightarrow> Some (Group i op children))"

fun normal_node :: "draft_node \<Rightarrow> draft_node option" where
  "normal_node (Contact c) = Some (Contact c)"
| "normal_node (Group i op cs) = collapse i op (concat (map (\<lambda>c. splice op (normal_node c)) cs))"

definition normalize :: "draft_node option \<Rightarrow> draft_node option" where
  "normalize t = Option.bind t normal_node"

section \<open>Edits\<close>

text \<open>\<open>mapNode(node, fn)\<close>: \<open>fn\<close> answers None where the code returns the very node it was given.\<close>

fun mapNode :: "(draft_node \<Rightarrow> draft_node option) \<Rightarrow> draft_node \<Rightarrow> draft_node" where
  "mapNode fn (Contact c) = (case fn (Contact c) of Some m \<Rightarrow> m | None \<Rightarrow> Contact c)"
| "mapNode fn (Group i op cs) =
     (case fn (Group i op cs) of Some m \<Rightarrow> m | None \<Rightarrow> Group i op (map (mapNode fn) cs))"

text \<open>The change \<open>insertBeside\<close> makes to the parent \<open>p\<close> of the target.  The index is -1 (None)
  where no child has the id: \<open>splice(0, 0, added)\<close> then puts \<open>added\<close> first, and no child is replaced.\<close>

definition insert_under :: "string \<Rightarrow> string \<Rightarrow> string \<Rightarrow> draft_node \<Rightarrow> combinator \<Rightarrow> draft_node \<Rightarrow> draft_node option" where
  "insert_under fresh pid targetId added op n =
     (case n of Contact c \<Rightarrow> None
      | Group i gop cs \<Rightarrow>
          if i \<noteq> pid then None
          else (let ix = find_index (\<lambda>c. node_id c = targetId) cs in
                if gop = op
                then (case ix of None \<Rightarrow> Some (Group i gop (added # cs))
                      | Some k \<Rightarrow> Some (Group i gop (take (Suc k) cs @ added # drop (Suc k) cs)))
                else (case ix of None \<Rightarrow> Some (Group i gop cs)
                      | Some k \<Rightarrow> Some (Group i gop (cs[k := Group fresh op [cs ! k, added]])))))"

definition insertBeside :: "string \<Rightarrow> draft_node option \<Rightarrow> string \<Rightarrow> draft_node \<Rightarrow> combinator \<Rightarrow> draft_node option" where
  "insertBeside fresh tree targetId added op =
     (case tree of None \<Rightarrow> Some added
      | Some r \<Rightarrow>
          if node_id r = targetId then normalize (Some (Group fresh op [r, added]))
          else (case parentOf targetId r of None \<Rightarrow> tree
                | Some p \<Rightarrow> normalize (Some (mapNode (insert_under fresh (node_id p) targetId added op) r))))"

fun prune :: "string \<Rightarrow> draft_node \<Rightarrow> draft_node option" where
  "prune i (Contact c) = (if c_id c = i then None else Some (Contact c))"
| "prune i (Group g op cs) = (if g = i then None else Some (Group g op (somes (map (prune i) cs))))"

definition removeNode :: "draft_node option \<Rightarrow> string \<Rightarrow> draft_node option" where
  "removeNode tree i =
     (case tree of None \<Rightarrow> None
      | Some r \<Rightarrow>
          if node_id r = i then None
          else (case r of Contact c \<Rightarrow> tree | Group g op cs \<Rightarrow> normalize (prune i r)))"

definition updateContact :: "draft_node option \<Rightarrow> string \<Rightarrow> (contact_draft \<Rightarrow> contact_draft) \<Rightarrow> draft_node option" where
  "updateContact tree i patch =
     map_option (mapNode (\<lambda>n. case n of Contact c \<Rightarrow> if c_id c = i then Some (Contact (patch c)) else None
                              | Group g op cs \<Rightarrow> None)) tree"

definition setGroupOp :: "draft_node option \<Rightarrow> string \<Rightarrow> combinator \<Rightarrow> draft_node option" where
  "setGroupOp tree i op =
     (case tree of None \<Rightarrow> None
      | Some r \<Rightarrow> normalize (Some (mapNode (\<lambda>n. case n of Contact c \<Rightarrow> None
                                | Group g gop cs \<Rightarrow> if g = i then Some (Group g op cs) else None) r)))"

section \<open>The normal form is reached and kept\<close>

fun normal :: "draft_node \<Rightarrow> bool" where
  "normal (Contact c) = True"
| "normal (Group i op cs) =
     (2 \<le> length cs \<and> list_all (\<lambda>c. normal c \<and> (case c of Group j op' ds \<Rightarrow> op' \<noteq> op | _ \<Rightarrow> True)) cs)"

definition fits :: "combinator \<Rightarrow> draft_node \<Rightarrow> bool" where
  "fits op c \<longleftrightarrow> normal c \<and> (case c of Group j op' ds \<Rightarrow> op' \<noteq> op | _ \<Rightarrow> True)"

abbreviation parts :: "combinator \<Rightarrow> draft_node list \<Rightarrow> draft_node list" where
  "parts op cs \<equiv> concat (map (\<lambda>c. splice op (normal_node c)) cs)"

lemma normal_Group: "normal (Group i op cs) \<longleftrightarrow> 2 \<le> length cs \<and> (\<forall>c\<in>set cs. fits op c)"
  by (auto simp: fits_def list_all_iff)

lemma fits_cases [simp]:
  "fits op (Contact c)"
  "fits op (Group j op' ds) \<longleftrightarrow> op' \<noteq> op \<and> normal (Group j op' ds)"
  by (auto simp: fits_def)

lemma fits_normal: "fits op c \<Longrightarrow> normal c"
  by (simp add: fits_def)

declare normal.simps(2) [simp del]

lemma splice_fits:
  assumes "\<And>n. t = Some n \<Longrightarrow> normal n"
  shows "\<forall>c\<in>set (splice op t). fits op c"
proof (cases t)
  case None
  then show ?thesis by (simp add: splice_def)
next
  case (Some n)
  with assms have "normal n" by simp
  with Some show ?thesis by (cases n) (auto simp: splice_def normal_Group)
qed

lemma collapse_normal: "\<forall>c\<in>set cs. fits op c \<Longrightarrow> collapse i op cs = Some n \<Longrightarrow> normal n"
  by (auto simp: collapse_def normal_Group fits_normal split: list.splits)

lemma normal_node_normal: "normal_node t = Some n \<Longrightarrow> normal n"
proof (induction t arbitrary: n)
  case (Contact c)
  then show ?case by auto
next
  case (Group i op cs)
  have "\<forall>d\<in>set (parts op cs). fits op d"
    using splice_fits [of "normal_node _" op] Group.IH by fastforce
  then show ?case by (rule collapse_normal [where i = i]) (use Group.prems in simp)
qed

lemma parts_fit: "\<forall>d\<in>set (parts op cs). fits op d"
  using splice_fits [of "normal_node _" op] normal_node_normal by fastforce

lemma parts_normal: "\<forall>c\<in>set cs. fits op c \<and> normal_node c = Some c \<Longrightarrow> parts op cs = cs"
proof (induction cs)
  case (Cons c cs)
  then show ?case by (cases c) (auto simp: splice_def)
qed simp

lemma normal_node_id: "normal n \<Longrightarrow> normal_node n = Some n"
proof (induction n)
  case (Group i op cs)
  then have "\<forall>c\<in>set cs. fits op c \<and> normal_node c = Some c" "2 \<le> length cs"
    unfolding normal_Group by (auto intro: fits_normal)
  then have "parts op cs = cs" "2 \<le> length cs" using parts_normal by blast+
  then show ?case by (auto simp: collapse_def split: list.splits)
qed simp

lemma normalize_fixed: "normal_node t = Some n \<Longrightarrow> normal_node n = Some n"
  by (simp add: normal_node_id normal_node_normal)

section \<open>Contacts and meaning\<close>

lemma contacts_splice: "concat (map contacts (splice op t)) = contacts_opt t"
  by (auto simp: splice_def contacts_opt_def split: option.splits draft_node.splits)

lemma contacts_collapse: "contacts_opt (collapse i op cs) = concat (map contacts cs)"
  by (auto simp: collapse_def contacts_opt_def split: list.splits)

lemma concat_map_concat: "concat (map f (concat (map g xs))) = concat (map (\<lambda>x. concat (map f (g x))) xs)"
  by (induction xs) auto

lemma contacts_normal_node: "contacts_opt (normal_node t) = contacts t"
proof (induction t)
  case (Contact c)
  then show ?case by (simp add: contacts_opt_def)
next
  case (Group i op cs)
  have "contacts_opt (normal_node (Group i op cs)) = concat (map contacts (parts op cs))"
    by (simp add: contacts_collapse)
  also have "\<dots> = concat (map (\<lambda>c. contacts_opt (normal_node c)) cs)"
    by (simp add: concat_map_concat contacts_splice)
  also have "\<dots> = concat (map contacts cs)" using Group by (metis (mono_tags, lifting) map_cong)
  finally show ?case by simp
qed

text \<open>What the engine decides: a group holds when all (AND) or any (OR) of its children do.\<close>

fun holds :: "(contact_draft \<Rightarrow> bool) \<Rightarrow> draft_node \<Rightarrow> bool" where
  "holds v (Contact c) = v c"
| "holds v (Group i op cs) = (if op = And then list_all (holds v) cs else list_ex (holds v) cs)"

text \<open>No group is empty: an empty AND would hold and an empty OR would not.\<close>

fun inhabited :: "draft_node \<Rightarrow> bool" where
  "inhabited (Contact c) = True"
| "inhabited (Group i op cs) = (cs \<noteq> [] \<and> list_all inhabited cs)"

definition combine :: "combinator \<Rightarrow> bool list \<Rightarrow> bool" where
  "combine op bs = (if op = And then list_all id bs else list_ex id bs)"

lemma holds_Group: "holds v (Group i op cs) = combine op (map (holds v) cs)"
  by (auto simp: combine_def list_all_iff list_ex_iff)

lemma combine_append: "combine op (as @ bs) = (if op = And then combine op as \<and> combine op bs else combine op as \<or> combine op bs)"
  by (simp add: combine_def)

lemma combine_concat: "combine op (concat bss) = combine op (map (combine op) bss)"
  by (induction bss) (auto simp: combine_def)

lemma combine_single [simp]: "combine op [b] = b"
  by (auto simp: combine_def)

lemma collapse_holds: "collapse i op cs = Some n \<Longrightarrow> holds v n = combine op (map (holds v) cs)"
  by (auto simp: collapse_def holds_Group simp del: holds.simps(2) split: list.splits)

lemma splice_holds: "combine op (map (holds v) (splice op (Some n))) = holds v n"
  by (cases n) (auto simp: splice_def holds_Group simp del: holds.simps(2))

lemma inhabited_contacts: "inhabited t \<Longrightarrow> contacts t \<noteq> []"
proof (induction t)
  case (Group i op cs)
  then obtain c ds where "cs = c # ds" by (cases cs) auto
  with Group show ?case by (auto simp: list_all_iff)
qed simp

lemma normal_node_inhabited: "inhabited t \<Longrightarrow> \<exists>n. normal_node t = Some n"
proof (induction t)
  case (Group i op cs)
  then have "contacts (Group i op cs) \<noteq> []" by (intro inhabited_contacts)
  then have "normal_node (Group i op cs) \<noteq> None"
    using contacts_normal_node [of "Group i op cs"] by (metis contacts_opt_def option.simps(4))
  then show ?case by blast
qed simp

lemma normal_node_holds: "inhabited t \<Longrightarrow> normal_node t = Some n \<Longrightarrow> holds v n = holds v t"
proof (induction t arbitrary: n)
  case (Group i op cs)
  have each: "combine op (map (holds v) (splice op (normal_node c))) = holds v c" if "c \<in> set cs" for c
  proof -
    have "inhabited c" using Group.prems that by (auto simp: list_all_iff)
    then show ?thesis using normal_node_inhabited Group.IH that splice_holds by metis
  qed
  have "holds v n = combine op (map (holds v) (parts op cs))"
    using Group.prems(2) by (simp add: collapse_holds)
  also have "\<dots> = combine op (map (\<lambda>c. combine op (map (holds v) (splice op (normal_node c)))) cs)"
    by (simp add: map_concat combine_concat comp_def)
  also have "\<dots> = combine op (map (holds v) cs)" using each by (simp cong: map_cong)
  finally show ?case by (simp only: holds_Group)
qed auto

section \<open>Ids\<close>

fun node_ids :: "draft_node \<Rightarrow> string list" where
  "node_ids (Contact c) = [c_id c]"
| "node_ids (Group i op cs) = i # concat (map node_ids cs)"

definition ids_opt :: "draft_node option \<Rightarrow> string list" where
  "ids_opt t = (case t of None \<Rightarrow> [] | Some n \<Rightarrow> node_ids n)"

lemma node_id_in_ids [simp]: "node_id t \<in> set (node_ids t)"
  by (cases t) auto

lemma child_id_in_ids: "c \<in> set cs \<Longrightarrow> node_id c \<in> set (node_ids (Group g op cs))"
  by (auto intro!: bexI [of _ c])

lemma mapNode_same: "(\<And>n. node_id n \<in> set (node_ids t) \<Longrightarrow> fn n = None) \<Longrightarrow> mapNode fn t = t"
proof (induction t)
  case (Group g op cs)
  have "mapNode fn c = c" if "c \<in> set cs" for c
    by (rule Group.IH [OF that]) (use that in \<open>intro Group.prems, auto\<close>)
  moreover have "fn (Group g op cs) = None" using Group.prems [of "Group g op cs"] by simp
  ultimately show ?case by (simp add: map_idI)
qed simp

lemma parentOf_None: "i \<notin> set (node_ids t) \<Longrightarrow> parentOf i t = None"
proof (induction t)
  case (Group g op cs)
  then show ?case using child_id_in_ids [of _ cs g op] by (auto simp: first_some_None)
qed simp

text \<open>In a tree with distinct ids, one child at most has a given id below it.\<close>

lemma split_child:
  assumes "distinct (concat (map node_ids cs))" "i \<in> set (concat (map node_ids cs))"
  obtains as t bs where "cs = as @ t # bs" "i \<in> set (node_ids t)" "distinct (node_ids t)"
    "\<And>c. c \<in> set as \<union> set bs \<Longrightarrow> i \<notin> set (node_ids c) \<and> set (node_ids c) \<inter> set (node_ids t) = {}"
proof -
  obtain t where "t \<in> set cs" "i \<in> set (node_ids t)" using assms(2) by auto
  then obtain as bs where cs: "cs = as @ t # bs" by (meson split_list)
  have d: "distinct (node_ids t)" "\<And>c. c \<in> set as \<union> set bs \<Longrightarrow> set (node_ids c) \<inter> set (node_ids t) = {}"
    using assms(1) unfolding cs by auto
  show thesis using that [OF cs \<open>i \<in> set (node_ids t)\<close> d(1)] d(2) \<open>i \<in> set (node_ids t)\<close> by auto
qed

lemma first_some_at:
  assumes "\<And>x. x \<in> set as \<Longrightarrow> f x = None"
  shows "first_some f (as @ t # bs) = (case f t of Some y \<Rightarrow> Some y | None \<Rightarrow> first_some f bs)"
  using assms by (induction as) auto

lemma find_index_at:
  "(\<And>x. x \<in> set as \<Longrightarrow> \<not> p x) \<Longrightarrow> p t \<Longrightarrow> find_index p (as @ t # bs) = Some (length as)"
  by (induction as) auto

section \<open>Inserting is wrapping the target\<close>

text \<open>The reference: the target \<open>t\<close> becomes the group \<open>op [t, added]\<close>, wherever it is.\<close>

definition wrap_at :: "string \<Rightarrow> combinator \<Rightarrow> draft_node \<Rightarrow> string \<Rightarrow> draft_node \<Rightarrow> draft_node" where
  "wrap_at fresh op added i = mapNode (\<lambda>n. if node_id n = i then Some (Group fresh op [n, added]) else None)"

lemma wrap_at_here: "node_id t = i \<Longrightarrow> wrap_at fresh op added i t = Group fresh op [t, added]"
  by (cases t) (auto simp: wrap_at_def)

lemma wrap_at_other: "i \<notin> set (node_ids t) \<Longrightarrow> wrap_at fresh op added i t = t"
  unfolding wrap_at_def by (rule mapNode_same) auto

lemma wrap_at_below: "g \<noteq> i \<Longrightarrow> wrap_at fresh op added i (Group g gop cs) = Group g gop (map (wrap_at fresh op added i) cs)"
  by (simp add: wrap_at_def)

lemma map_wrap_at:
  assumes "\<And>c. c \<in> set as \<union> set bs \<Longrightarrow> i \<notin> set (node_ids c)"
  shows "map (wrap_at fresh op added i) (as @ t # bs) = as @ wrap_at fresh op added i t # bs"
  using assms by (simp add: wrap_at_other map_idI)

text \<open>A group spliced into a parent with its own operator gives the parts of its children.\<close>

lemma splice_collapse:
  assumes "\<forall>c\<in>set cs. fits op c"
  shows "splice op (collapse i op cs) = cs"
proof (cases cs)
  case Nil
  then show ?thesis by (simp add: collapse_def splice_def)
next
  case (Cons c ds)
  with assms show ?thesis
    by (cases ds; cases c) (auto simp: collapse_def splice_def)
qed

lemma splice_group: "splice op (normal_node (Group i op cs)) = parts op cs"
  using splice_collapse [OF parts_fit] by simp

lemma insert_under_wrap:
  assumes "\<And>c. c \<in> set as \<Longrightarrow> node_id c \<noteq> i" "node_id t = i"
  shows "\<exists>n. insert_under fresh g i added op (Group g gop (as @ t # bs)) = Some n \<and>
             normal_node n = normal_node (Group g gop (as @ Group fresh op [t, added] # bs))"
proof -
  have ix: "find_index (\<lambda>c. node_id c = i) (as @ t # bs) = Some (length as)"
    using assms by (intro find_index_at) auto
  show ?thesis
  proof (cases "gop = op")
    case True
    then show ?thesis using splice_group [of op fresh "[t, added]"]
      by (simp add: insert_under_def ix)
  next
    case False
    then show ?thesis by (simp add: insert_under_def ix list_update_append)
  qed
qed

lemma normal_node_cong: "map normal_node cs = map normal_node ds \<Longrightarrow> normal_node (Group g op cs) = normal_node (Group g op ds)"
proof -
  assume "map normal_node cs = map normal_node ds"
  then have "map (splice op) (map normal_node cs) = map (splice op) (map normal_node ds)" by simp
  then show ?thesis by (simp add: comp_def)
qed

lemma parent_change:
  assumes "distinct (node_ids r)" "i \<in> set (node_ids r)" "node_id r \<noteq> i"
  shows "\<exists>p. parentOf i r = Some p \<and> node_id p \<in> set (node_ids r) \<and>
           normal_node (mapNode (insert_under fresh (node_id p) i added op) r) = normal_node (wrap_at fresh op added i r)"
  using assms
proof (induction r)
  case (Contact c)
  then show ?case by simp
next
  case (Group g gop cs)
  then have d: "distinct (concat (map node_ids cs))" "g \<notin> set (concat (map node_ids cs))"
    and i: "i \<in> set (concat (map node_ids cs))" "g \<noteq> i" by auto
  obtain as t bs where cs: "cs = as @ t # bs" and t: "i \<in> set (node_ids t)" "distinct (node_ids t)"
    and others: "\<And>c. c \<in> set as \<union> set bs \<Longrightarrow> i \<notin> set (node_ids c) \<and> set (node_ids c) \<inter> set (node_ids t) = {}"
    using split_child [OF d(1) i(1)] by metis
  have noid: "node_id c \<noteq> i" if "c \<in> set as \<union> set bs" for c using others [OF that] node_id_in_ids by metis
  show ?case
  proof (cases "node_id t = i")
    case True
    have p: "parentOf i (Group g gop cs) = Some (Group g gop cs)" using True cs by auto
    obtain n where n: "insert_under fresh g i added op (Group g gop cs) = Some n"
      "normal_node n = normal_node (Group g gop (as @ Group fresh op [t, added] # bs))"
      using insert_under_wrap [of as i t fresh g added op gop bs] noid True cs by blast
    have "wrap_at fresh op added i (Group g gop cs) = Group g gop (as @ Group fresh op [t, added] # bs)"
      using i(2) map_wrap_at [of as bs i fresh op added t] others wrap_at_here [OF True] cs
      by (simp add: wrap_at_below)
    with n p show ?thesis by simp
  next
    case False
    obtain p where p: "parentOf i t = Some p" "node_id p \<in> set (node_ids t)"
      "normal_node (mapNode (insert_under fresh (node_id p) i added op) t) = normal_node (wrap_at fresh op added i t)"
      using Group.IH [of t] t False cs by auto
    have "parentOf i (Group g gop cs) = first_some (parentOf i) cs" using noid False cs by auto
    also have "\<dots> = Some p" using others p(1) by (simp add: cs first_some_at parentOf_None)
    finally have par: "parentOf i (Group g gop cs) = Some p" .
    have ne: "node_id p \<noteq> g" using p(2) d(2) cs by auto
    have keep: "mapNode (insert_under fresh (node_id p) i added op) c = c" if "c \<in> set as \<union> set bs" for c
    proof (rule mapNode_same)
      fix n assume "node_id n \<in> set (node_ids c)"
      then have "node_id n \<noteq> node_id p" using others [OF that] p(2) by auto
      then show "insert_under fresh (node_id p) i added op n = None"
        by (cases n) (auto simp: insert_under_def)
    qed
    have "mapNode (insert_under fresh (node_id p) i added op) (Group g gop cs) =
        Group g gop (as @ mapNode (insert_under fresh (node_id p) i added op) t # bs)"
      using ne keep by (simp add: insert_under_def cs map_idI)
    moreover have "wrap_at fresh op added i (Group g gop cs) = Group g gop (as @ wrap_at fresh op added i t # bs)"
      using i(2) map_wrap_at [of as bs i fresh op added t] others cs by (simp add: wrap_at_below)
    ultimately have "normal_node (mapNode (insert_under fresh (node_id p) i added op) (Group g gop cs)) =
        normal_node (wrap_at fresh op added i (Group g gop cs))"
      using normal_node_cong p(3) by (metis list.simps(9) map_append)
    with par p(2) cs show ?thesis by auto
  qed
qed

lemma insertBeside_is_wrap:
  assumes "distinct (node_ids r)" "i \<in> set (node_ids r)"
  shows "insertBeside fresh (Some r) i added op = normal_node (wrap_at fresh op added i r)"
proof (cases "node_id r = i")
  case True
  then show ?thesis by (simp add: insertBeside_def normalize_def wrap_at_here)
next
  case False
  from parent_change [OF assms False, of fresh added op] False show ?thesis
    by (auto simp: insertBeside_def normalize_def)
qed

text \<open>An id that is not in the tree changes nothing.\<close>

lemma insertBeside_absent: "i \<notin> set (node_ids r) \<Longrightarrow> insertBeside fresh (Some r) i added op = Some r"
  using node_id_in_ids [of r] by (auto simp: insertBeside_def parentOf_None)

lemma contacts_wrap_at:
  assumes "distinct (node_ids r)" "i \<in> set (node_ids r)"
  shows "\<exists>xs t ys. find_node i r = Some t \<and> contacts r = xs @ contacts t @ ys \<and>
           contacts (wrap_at fresh op added i r) = xs @ contacts t @ contacts added @ ys"
  using assms
proof (induction r)
  case (Contact c)
  then show ?case by (intro exI [of _ "[]"] exI [of _ "Contact c"]) (simp add: wrap_at_here)
next
  case (Group g gop cs)
  show ?case
  proof (cases "g = i")
    case True
    then show ?thesis by (intro exI [of _ "[]"] exI [of _ "Group g gop cs"]) (simp add: wrap_at_here)
  next
    case False
    with Group.prems have "distinct (concat (map node_ids cs))" "i \<in> set (concat (map node_ids cs))" by auto
    from split_child [OF this] obtain as t bs where cs: "cs = as @ t # bs" and t: "i \<in> set (node_ids t)" "distinct (node_ids t)"
      and others: "\<And>c. c \<in> set as \<union> set bs \<Longrightarrow> i \<notin> set (node_ids c)" by metis
    obtain xs u ys where u: "find_node i t = Some u" "contacts t = xs @ contacts u @ ys"
        "contacts (wrap_at fresh op added i t) = xs @ contacts u @ contacts added @ ys"
      using Group.IH [of t] t cs by auto
    have no: "find_node i c = None" if "i \<notin> set (node_ids c)" for c
      using that by (induction c) (auto simp: first_some_None)
    have "find_node i (Group g gop cs) = Some u"
      using False others u(1) by (simp add: cs first_some_at no)
    moreover have "wrap_at fresh op added i (Group g gop cs) = Group g gop (as @ wrap_at fresh op added i t # bs)"
      using False map_wrap_at [of as bs i fresh op added t] others cs by (simp add: wrap_at_below)
    ultimately show ?thesis using u(2,3)
      by (intro exI [of _ "concat (map contacts as) @ xs"] exI [of _ u] exI [of _ "ys @ concat (map contacts bs)"]) (simp add: cs)
  qed
qed

lemma inhabited_wrap_at: "inhabited r \<Longrightarrow> inhabited added \<Longrightarrow> inhabited (wrap_at fresh op added i r)"
proof (induction r)
  case (Group g gop cs)
  then show ?case by (cases "g = i") (auto simp: wrap_at_here wrap_at_below list_all_iff)
qed (auto simp: wrap_at_def)

lemma wrap_at_holds_Or: "holds v r \<Longrightarrow> holds v (wrap_at fresh Or added i r)"
proof (induction r)
  case (Group g gop cs)
  then show ?case
    by (cases "g = i"; cases gop) (auto simp: wrap_at_here wrap_at_below list_all_iff list_ex_iff)
qed (auto simp: wrap_at_def)

lemma wrap_at_holds_And: "holds v (wrap_at fresh And added i r) \<Longrightarrow> holds v r"
proof (induction r)
  case (Group g gop cs)
  then show ?case
    by (cases "g = i"; cases gop) (auto simp: wrap_at_here wrap_at_below list_all_iff list_ex_iff)
qed (auto simp: wrap_at_def split: if_splits)

section \<open>Removing takes out the contacts below the node\<close>

lemma find_node_absent: "i \<notin> set (node_ids t) \<Longrightarrow> find_node i t = None"
  by (induction t) (auto simp: first_some_None)

lemma find_node_ids: "find_node i t = Some u \<Longrightarrow> set (node_ids u) \<subseteq> set (node_ids t)"
proof (induction t)
  case (Group g op cs)
  then show ?case by (auto split: if_splits dest!: first_some_Some)
qed (auto split: if_splits)

lemma contacts_ids: "c \<in> set (contacts t) \<Longrightarrow> c_id c \<in> set (node_ids t)"
  by (induction t) auto

lemma prune_absent: "i \<notin> set (node_ids t) \<Longrightarrow> prune i t = Some t"
proof (induction t)
  case (Group g op cs)
  then have "map (prune i) cs = map Some cs" by auto
  moreover have "somes (map Some cs) = cs" for cs :: "draft_node list" by (induction cs) auto
  ultimately show ?case using Group.prems by (metis node_ids.simps(2) list.set_intros(1) prune.simps(2))
qed auto

lemma filter_keep: "(\<And>x. x \<in> set xs \<Longrightarrow> P x) \<Longrightarrow> filter P xs = xs"
  by (simp add: filter_id_conv)

lemma contacts_prune:
  assumes "distinct (node_ids r)"
  shows "contacts_opt (prune i r) = filter (\<lambda>c. c_id c \<notin> set (ids_opt (find_node i r))) (contacts r)"
  using assms
proof (induction r)
  case (Contact c)
  then show ?case by (auto simp: contacts_opt_def ids_opt_def)
next
  case (Group g op cs)
  consider (here) "g = i" | (absent) "i \<notin> set (node_ids (Group g op cs))"
    | (below) "g \<noteq> i" "i \<in> set (concat (map node_ids cs))" by auto
  then show ?case
  proof cases
    case here
    then have "filter (\<lambda>c. c_id c \<notin> set (ids_opt (find_node i (Group g op cs)))) (contacts (Group g op cs)) = []"
      by (auto simp: ids_opt_def filter_empty_conv dest: contacts_ids)
    with here show ?thesis by (simp add: contacts_opt_def)
  next
    case absent
    then show ?thesis
      by (simp only: prune_absent [OF absent] find_node_absent [OF absent]) (simp add: contacts_opt_def ids_opt_def)
  next
    case below
    from Group.prems have "distinct (concat (map node_ids cs))" by simp
    from split_child [OF this below(2)] obtain as t bs where cs: "cs = as @ t # bs"
      and t: "i \<in> set (node_ids t)" "distinct (node_ids t)"
      and others: "\<And>c. c \<in> set as \<union> set bs \<Longrightarrow> i \<notin> set (node_ids c) \<and> set (node_ids c) \<inter> set (node_ids t) = {}" by metis
    have f: "find_node i (Group g op cs) = find_node i t"
      using below(1) others by (cases "find_node i t") (auto simp: cs first_some_at find_node_absent first_some_None)
    have S: "set (ids_opt (find_node i t)) \<subseteq> set (node_ids t)"
      using find_node_ids [of i t] by (cases "find_node i t") (auto simp: ids_opt_def)
    have keep: "filter (\<lambda>c. c_id c \<notin> set (ids_opt (find_node i t))) (concat (map contacts ds)) = concat (map contacts ds)"
      if "set ds \<subseteq> set as \<union> set bs" for ds
    proof (rule filter_keep)
      fix c assume "c \<in> set (concat (map contacts ds))"
      then obtain d where "d \<in> set ds" "c \<in> set (contacts d)" by auto
      then have "d \<in> set as \<union> set bs" "c_id c \<in> set (node_ids d)" using that contacts_ids by blast+
      then show "c_id c \<notin> set (ids_opt (find_node i t))" using others S by blast
    qed
    have pr: "map (prune i) cs = map Some as @ prune i t # map Some bs"
      using others by (simp add: cs prune_absent)
    have "contacts_opt (prune i (Group g op cs)) =
        concat (map contacts as) @ contacts_opt (prune i t) @ concat (map contacts bs)"
      using below(1) by (auto simp: pr contacts_opt_def somes_append simp del: map_map split: option.splits)
    also have "contacts_opt (prune i t) = filter (\<lambda>c. c_id c \<notin> set (ids_opt (find_node i t))) (contacts t)"
      using Group.IH [of t] t(2) cs by simp
    finally show ?thesis using keep [of as] keep [of bs] unfolding f by (simp add: cs)
  qed
qed

lemma contacts_normalize: "contacts_opt (normalize t) = contacts_opt t"
  by (cases t) (simp_all add: normalize_def contacts_normal_node, simp_all add: contacts_opt_def)

lemma contacts_removeNode:
  assumes "distinct (node_ids r)"
  shows "contacts_opt (removeNode (Some r) i) = filter (\<lambda>c. c_id c \<notin> set (ids_opt (findNode (Some r) i))) (contacts r)"
proof (cases "node_id r = i \<or> (\<exists>c. r = Contact c)")
  case True
  then have "removeNode (Some r) i = prune i r" by (cases r) (auto simp: removeNode_def)
  then show ?thesis using contacts_prune [OF assms] by (simp add: findNode_def)
next
  case False
  then have "removeNode (Some r) i = normalize (prune i r)" by (cases r) (auto simp: removeNode_def)
  then show ?thesis using contacts_prune [OF assms] by (simp add: findNode_def contacts_normalize)
qed

section \<open>A session of edits\<close>

text \<open>
  What the two editors (\<open>FormMode.tsx\<close>, \<open>LadderMode.tsx\<close>) do to the tree, with the ids they
  draw: a new contact or a new group of two contacts beside a node, a removal, a change to a
  contact's fields, a change of operator.  The state is the tree and the number of ids drawn.
\<close>

inductive edit :: "(nat \<Rightarrow> string) \<Rightarrow> draft_node option \<times> nat \<Rightarrow> draft_node option \<times> nat \<Rightarrow> bool" for gen where
  add_contact: "edit gen (t, k)
     (insertBeside (gen (k + 1)) t target (Contact (emptyContact (gen k) dev)) op, k + 2)"
| add_group: "edit gen (t, k)
     (insertBeside (gen (k + 3)) t target
        (Group (gen k) other [Contact (emptyContact (gen (k + 1)) dev), Contact (emptyContact (gen (k + 2)) dev)]) op, k + 4)"
| remove: "edit gen (t, k) (removeNode t target, k)"
| update: "(\<And>c. c_id (patch c) = c_id c) \<Longrightarrow> edit gen (t, k) (updateContact t target patch, k)"
| set_op: "edit gen (t, k) (setGroupOp t target op, k)"

inductive_cases edit_cases: "edit gen (t, k) (t', k')"

definition sound_tree :: "(nat \<Rightarrow> string) \<Rightarrow> draft_node option \<times> nat \<Rightarrow> bool" where
  "sound_tree gen s \<longleftrightarrow> distinct (ids_opt (fst s)) \<and> set (ids_opt (fst s)) \<subseteq> gen ` {..<snd s} \<and>
     (case fst s of None \<Rightarrow> True | Some n \<Rightarrow> normal n)"

lemma subseq_concat_map:
  "(\<And>x. x \<in> set xs \<Longrightarrow> subseq (f x) (g x)) \<Longrightarrow> subseq (concat (map f xs)) (concat (map g xs))"
  by (induction xs) (auto intro: list_emb_append_mono)

lemma subseq_splice: "subseq (concat (map node_ids (splice op t))) (ids_opt t)"
  by (auto simp: splice_def ids_opt_def split: option.splits draft_node.splits)

lemma subseq_collapse: "subseq (ids_opt (collapse i op cs)) (i # concat (map node_ids cs))"
  by (auto simp: collapse_def ids_opt_def split: list.splits)

lemma subseq_normal_node: "subseq (ids_opt (normal_node t)) (node_ids t)"
proof (induction t)
  case (Group g op cs)
  have "subseq (concat (map node_ids (splice op (normal_node c)))) (node_ids c)" if "c \<in> set cs" for c
    using subseq_splice Group.IH [OF that] by (rule subseq_order.trans)
  then have "subseq (concat (map node_ids (parts op cs))) (concat (map node_ids cs))"
    by (simp add: concat_map_concat) (rule subseq_concat_map)
  then have "subseq (g # concat (map node_ids (parts op cs))) (g # concat (map node_ids cs))"
    by simp
  with subseq_collapse show ?case by (metis node_ids.simps(2) normal_node.simps(2) subseq_order.trans)
qed (simp add: ids_opt_def)

lemma subseq_prune: "subseq (ids_opt (prune i t)) (node_ids t)"
proof (induction t)
  case (Group g op cs)
  have e: "concat (map node_ids (somes xs)) = concat (map ids_opt xs)" for xs
    by (induction xs) (auto simp: ids_opt_def split: option.splits)
  have "subseq (concat (map (\<lambda>c. ids_opt (prune i c)) cs)) (concat (map node_ids cs))"
    using Group.IH by (rule subseq_concat_map)
  then show ?case by (auto simp: ids_opt_def e comp_def)
qed (simp add: ids_opt_def)

lemma subseq_distinct_set: "subseq xs ys \<Longrightarrow> (distinct ys \<longrightarrow> distinct xs) \<and> set xs \<subseteq> set ys"
  by (induction rule: list_emb.induct) auto

lemma sound_subseq:
  assumes "subseq (ids_opt t') (ids_opt t)" "distinct (ids_opt t)" "set (ids_opt t) \<subseteq> gen ` {..<k}"
    "case t' of None \<Rightarrow> True | Some n \<Rightarrow> normal n"
  shows "sound_tree gen (t', k)"
  using assms subseq_distinct_set [OF assms(1)] by (auto simp: sound_tree_def)

lemma mset_wrap_at:
  assumes "distinct (node_ids r)" "i \<in> set (node_ids r)"
  shows "mset (node_ids (wrap_at fresh op added i r)) = mset (fresh # node_ids added @ node_ids r)"
  using assms
proof (induction r)
  case (Contact c)
  then show ?case by (simp add: wrap_at_here)
next
  case (Group g gop cs)
  show ?case
  proof (cases "g = i")
    case True
    then show ?thesis by (simp add: wrap_at_here)
  next
    case False
    with Group.prems have "distinct (concat (map node_ids cs))" "i \<in> set (concat (map node_ids cs))" by auto
    from split_child [OF this] obtain as t bs where cs: "cs = as @ t # bs" and t: "i \<in> set (node_ids t)" "distinct (node_ids t)"
      and others: "\<And>c. c \<in> set as \<union> set bs \<Longrightarrow> i \<notin> set (node_ids c)" by metis
    have "wrap_at fresh op added i (Group g gop cs) = Group g gop (as @ wrap_at fresh op added i t # bs)"
      using False map_wrap_at [of as bs i fresh op added t] others cs by (simp add: wrap_at_below)
    then show ?thesis using Group.IH [of t] t cs by simp
  qed
qed

lemma node_ids_mapNode:
  "(\<And>n m. fn n = Some m \<Longrightarrow> node_ids m = node_ids n) \<Longrightarrow> node_ids (mapNode fn t) = node_ids t"
proof (induction t)
  case (Group g op cs)
  then have "map (\<lambda>c. node_ids (mapNode fn c)) cs = map node_ids cs" by simp
  then have "concat (map (\<lambda>c. node_ids (mapNode fn c)) cs) = concat (map node_ids cs)" by (simp only:)
  with Group.prems show ?case by (simp add: comp_def split: option.splits)
qed (simp split: option.splits)

lemma normal_update:
  assumes "\<And>n m. fn n = Some m \<Longrightarrow> \<exists>c d. n = Contact c \<and> m = Contact d" "normal t"
  shows "normal (mapNode fn t)"
  using assms(2)
proof (induction t)
  case (Contact c)
  then show ?case using assms(1) [of "Contact c"] by (auto split: option.splits)
next
  case (Group g op cs)
  have no: "fn (Group g op cs) = None" for g op cs using assms(1) [of "Group g op cs"] by (cases "fn (Group g op cs)") auto
  have "fits op (mapNode fn c)" if "c \<in> set cs" for c
  proof -
    have f: "fits op c" "normal (mapNode fn c)" using Group that fits_normal by (auto simp: normal_Group)
    then show ?thesis
      using assms(1) [of c] no by (cases c) (auto split: option.splits)
  qed
  then show ?case using Group.prems by (auto simp: no normal_Group)
qed

lemma sound_insert:
  assumes s: "sound_tree gen (t, k)" and inj: "inj gen" and kk: "k \<le> k'"
    and new: "distinct (fresh # node_ids added)" "set (fresh # node_ids added) \<subseteq> gen ` {k..<k'}" "normal added"
  shows "sound_tree gen (insertBeside fresh t target added op, k')"
proof (cases t)
  case None
  then show ?thesis using new by (auto simp: insertBeside_def sound_tree_def ids_opt_def)
next
  case (Some r)
  from s Some have r: "distinct (node_ids r)" "set (node_ids r) \<subseteq> gen ` {..<k}" "normal r"
    by (auto simp: sound_tree_def ids_opt_def)
  have up: "set (node_ids r) \<subseteq> gen ` {..<k'}" using r(2) kk by (force dest: subsetD)
  show ?thesis
  proof (cases "target \<in> set (node_ids r)")
    case False
    then show ?thesis using r up by (simp add: Some insertBeside_absent sound_tree_def ids_opt_def)
  next
    case True
    let ?w = "wrap_at fresh op added target r"
    have m: "mset (node_ids ?w) = mset ((fresh # node_ids added) @ node_ids r)"
      using mset_wrap_at [OF r(1) True] by simp
    have "gen ` {..<k} \<inter> gen ` {k..<k'} = {}" using inj by (auto simp: inj_eq)
    then have "distinct ((fresh # node_ids added) @ node_ids r)" using r new by (subst distinct_append) blast
    then have d: "distinct (node_ids ?w)" using mset_eq_imp_distinct_iff [OF m] by simp
    have "set (node_ids ?w) = set ((fresh # node_ids added) @ node_ids r)" using m by (metis set_mset_mset)
    then have "set (node_ids ?w) \<subseteq> gen ` {..<k'}" using new(2) up by force
    with d show ?thesis
      unfolding Some insertBeside_is_wrap [OF r(1) True]
      by (intro sound_subseq [where t = "Some ?w"])
         (auto simp: ids_opt_def [of "Some ?w"] subseq_normal_node normal_node_normal split: option.splits)
  qed
qed

lemma subseq_normalize: "subseq (ids_opt (normalize t)) (ids_opt t)"
  by (cases t) (use subseq_normal_node in \<open>auto simp: normalize_def ids_opt_def\<close>)

lemma normalize_normal: "normalize t = Some n \<Longrightarrow> normal n"
  by (cases t) (auto simp: normalize_def normal_node_normal)

lemma edit_sound:
  assumes "edit gen s s'" "inj gen" "sound_tree gen s"
  shows "sound_tree gen s'"
  using assms
proof (induction rule: edit.induct)
  case (add_contact t k target dev op)
  then show ?case
    by (intro sound_insert [where k = k]) (auto simp: emptyContact_def inj_eq)
next
  case (add_group t k target other dev op)
  then show ?case
    by (intro sound_insert [where k = k]) (auto simp: emptyContact_def inj_eq normal_Group)
next
  case (remove t k target)
  then show ?case
  proof (cases t)
    case (Some r)
    have "subseq (ids_opt (removeNode t target)) (ids_opt t)"
      using subseq_order.trans [OF subseq_normalize subseq_prune [of target r]]
      by (auto simp: removeNode_def Some ids_opt_def split: draft_node.splits)
    moreover have "case removeNode t target of None \<Rightarrow> True | Some n \<Rightarrow> normal n"
      using normalize_normal by (auto simp: removeNode_def Some split: draft_node.splits option.splits)
    ultimately show ?thesis using remove by (intro sound_subseq) (auto simp: sound_tree_def)
  qed (simp add: removeNode_def)
next
  case (update patch t k target)
  let ?fn = "\<lambda>n. case n of Contact c \<Rightarrow> if c_id c = target then Some (Contact (patch c)) else None | Group g op cs \<Rightarrow> None"
  have "node_ids (mapNode ?fn r) = node_ids r" for r
    by (rule node_ids_mapNode) (auto split: draft_node.splits if_splits simp: update(1))
  moreover have "normal r \<Longrightarrow> normal (mapNode ?fn r)" for r
    by (rule normal_update) (auto split: draft_node.splits if_splits)
  ultimately show ?case using update by (cases t) (auto simp: sound_tree_def updateContact_def ids_opt_def)
next
  case (set_op t k target op)
  then show ?case
  proof (cases t)
    case (Some r)
    let ?fn = "\<lambda>n. case n of Contact c \<Rightarrow> None | Group g gop cs \<Rightarrow> if g = target then Some (Group g op cs) else None"
    have "node_ids (mapNode ?fn r) = node_ids r"
      by (rule node_ids_mapNode) (auto split: draft_node.splits if_splits)
    then have "subseq (ids_opt (setGroupOp t target op)) (ids_opt t)"
      using subseq_normalize [of "Some (mapNode ?fn r)"] by (simp add: setGroupOp_def Some ids_opt_def)
    moreover have "case setGroupOp t target op of None \<Rightarrow> True | Some n \<Rightarrow> normal n"
      using normalize_normal by (auto simp: setGroupOp_def Some split: option.splits)
    ultimately show ?thesis using set_op by (intro sound_subseq) (auto simp: sound_tree_def)
  qed (simp add: setGroupOp_def)
qed

section \<open>The id supply as an interface\<close>

text \<open>The editors ask one thing of \<open>newId\<close>: an id is never drawn twice.\<close>

locale id_supply =
  fixes gen :: "nat \<Rightarrow> string"
  assumes inj_gen: "inj gen"
begin

lemma edits_sound: "(edit gen)\<^sup>*\<^sup>* s s' \<Longrightarrow> sound_tree gen s \<Longrightarrow> sound_tree gen s'"
  by (induction rule: rtranclp_induct) (auto intro: edit_sound inj_gen)

lemma first_contact_sound: "sound_tree gen (Some (Contact (emptyContact (gen 0) dev)), 1)"
  by (auto simp: sound_tree_def ids_opt_def emptyContact_def)

lemma session_sound: "(edit gen)\<^sup>*\<^sup>* (Some (Contact (emptyContact (gen 0) dev)), 1) s \<Longrightarrow> sound_tree gen s"
  using edits_sound first_contact_sound by blast

end

interpretation counted: id_supply counted_id
  by unfold_locales (rule counted_id_inj)

section \<open>Properties\<close>

text \<open>
  \<open>normalize\<close> answers null exactly for a tree without contacts; otherwise it returns
  a tree in normal form (no empty or single-child group, no group inside a group of the same
  operator) with the same contacts in the same order, and normalising that again changes nothing.
\<close>

theorem normalize_correct:
  "case normalize t of None \<Rightarrow> contacts_opt t = []
   | Some n \<Rightarrow> normal n \<and> contacts n = contacts_opt t \<and> contacts n \<noteq> [] \<and> normalize (Some n) = Some n"
proof (cases "normalize t")
  case None
  then show ?thesis using contacts_normalize [of t] by (simp add: contacts_opt_def)
next
  case (Some n)
  then have n: "normal n" by (rule normalize_normal)
  have "normal n \<Longrightarrow> inhabited n" for n
  proof (induction n)
    case (Group g op cs)
    then show ?case using fits_normal by (auto simp: normal_Group list_all_iff)
  qed simp
  then have "contacts n \<noteq> []" using n inhabited_contacts by blast
  then show ?thesis using Some n contacts_normalize [of t] normal_node_id [OF n]
    by (simp add: contacts_opt_def normalize_def)
qed

text \<open>
  Normalising keeps the meaning of the condition: where no group is empty, the normal form
  exists and holds for exactly the contacts' values for which the tree holds (AND = all children,
  OR = any child).
\<close>

theorem normalize_meaning:
  assumes "inhabited t"
  shows "\<exists>n. normalize (Some t) = Some n \<and> (\<forall>v. holds v n = holds v t)"
  using normal_node_inhabited [OF assms] normal_node_holds [OF assms] by (auto simp: normalize_def)

definition demo_contact :: "string \<Rightarrow> draft_node" where
  "demo_contact i = Contact (emptyContact i ''dev'')"

definition demo_tree :: draft_node where
  "demo_tree = Group ''g'' And [demo_contact ''a'', Group ''h'' Or [demo_contact ''b'', demo_contact ''c'']]"

lemma normalize_meaning_witness:
  "\<exists>n. normalize (Some (Group ''x'' And [demo_tree])) = Some n \<and> (\<forall>v. holds v n = holds v (Group ''x'' And [demo_tree]))"
  by (rule normalize_meaning) (simp add: demo_tree_def demo_contact_def)

text \<open>
  C7: \<open>insertBeside\<close> is, up to normalisation, wrapping the target in a group of the
  operator with the added node after it: whether the code joins the parent, wraps the target or
  wraps the root, the result is the same tree, and the added contacts follow the target's
  contacts in the sequence, with every other contact where it was.
\<close>

theorem insertBeside_correct:
  assumes "distinct (node_ids r)" "i \<in> set (node_ids r)"
  shows "insertBeside fresh (Some r) i added op = normalize (Some (wrap_at fresh op added i r)) \<and>
         (\<exists>xs t ys. findNode (Some r) i = Some t \<and> contacts r = xs @ contacts t @ ys \<and>
           contacts_opt (insertBeside fresh (Some r) i added op) = xs @ contacts t @ contacts added @ ys)"
  unfolding insertBeside_is_wrap [OF assms] contacts_normal_node findNode_def Option.bind.simps normalize_def
  using contacts_wrap_at [OF assms] by simp

lemma insertBeside_correct_witness:
  "insertBeside ''f'' (Some demo_tree) ''b'' (demo_contact ''n'') And =
     normalize (Some (wrap_at ''f'' And (demo_contact ''n'') ''b'' demo_tree))"
  using insertBeside_correct [of demo_tree "''b''" "''f''" "demo_contact ''n''" And]
  by (simp add: demo_tree_def demo_contact_def emptyContact_def)

text \<open>
  Adding in parallel can only make the condition hold more often, adding in series only
  less often: for a tree without empty groups the result of \<open>insertBeside\<close> is a tree, and for
  every value of the contacts OR keeps it true where it was true, AND keeps it false where it
  was false.
\<close>

theorem insertBeside_monotone:
  assumes "distinct (node_ids r)" "i \<in> set (node_ids r)" "inhabited r" "inhabited added"
  shows "\<exists>n. insertBeside fresh (Some r) i added op = Some n \<and>
           (\<forall>v. if op = Or then holds v r \<longrightarrow> holds v n else holds v n \<longrightarrow> holds v r)"
proof -
  let ?w = "wrap_at fresh op added i r"
  have w: "inhabited ?w" using assms(3,4) by (rule inhabited_wrap_at)
  obtain n where n: "normal_node ?w = Some n" using normal_node_inhabited [OF w] by blast
  have "holds v n = holds v ?w" for v using normal_node_holds [OF w n] .
  then show ?thesis using n insertBeside_is_wrap [OF assms(1,2)] wrap_at_holds_Or wrap_at_holds_And
    by (cases op) auto
qed

lemma insertBeside_monotone_witness:
  "\<exists>n. insertBeside ''f'' (Some demo_tree) ''b'' (demo_contact ''n'') Or = Some n \<and>
     (\<forall>v. if Or = Or then holds v demo_tree \<longrightarrow> holds v n else holds v n \<longrightarrow> holds v demo_tree)"
  by (rule insertBeside_monotone) (simp_all add: demo_tree_def demo_contact_def emptyContact_def)

text \<open>
  \<open>removeNode\<close> takes out exactly the contacts of the removed subtree and keeps the
  others in order; what is left, if anything, is in normal form when the tree was.
\<close>

theorem removeNode_correct:
  assumes "distinct (node_ids r)" "normal r"
  shows "contacts_opt (removeNode (Some r) i) =
           filter (\<lambda>c. c_id c \<notin> set (ids_opt (findNode (Some r) i))) (contacts r) \<and>
         (case removeNode (Some r) i of None \<Rightarrow> True | Some n \<Rightarrow> normal n)"
proof -
  have "case removeNode (Some r) i of None \<Rightarrow> True | Some n \<Rightarrow> normal n"
    using normalize_normal assms(2) by (auto simp: removeNode_def split: draft_node.splits option.splits)
  then show ?thesis using contacts_removeNode [OF assms(1)] by simp
qed

lemma removeNode_correct_witness:
  "contacts_opt (removeNode (Some demo_tree) ''h'') =
     filter (\<lambda>c. c_id c \<notin> set (ids_opt (findNode (Some demo_tree) ''h''))) (contacts demo_tree) \<and>
   (case removeNode (Some demo_tree) ''h'' of None \<Rightarrow> True | Some n \<Rightarrow> normal n)"
  by (rule removeNode_correct) (simp_all add: demo_tree_def demo_contact_def emptyContact_def normal_Group)

text \<open>
  From a new draft, every session of edits in either editor (adding contacts and groups
  beside a node, removing nodes, changing contacts' fields and groups' operators) keeps the ids of
  the tree distinct and already drawn from the supply, and the tree in normal form.
\<close>

theorem edits_keep_tree_sound:
  assumes "inj gen" "(edit gen)\<^sup>*\<^sup>* (Some (Contact (emptyContact (gen 0) dev)), 1) s"
  shows "sound_tree gen s"
  using assms(2) by (rule id_supply.session_sound [OF id_supply.intro [OF assms(1)]])

lemma edits_keep_tree_sound_witness:
  "sound_tree counted_id
     (insertBeside (counted_id 2) (Some (Contact (emptyContact (counted_id 0) ''d''))) (counted_id 0)
        (Contact (emptyContact (counted_id 1) ''d'')) Or, 3)"
proof (rule edits_keep_tree_sound [OF counted.inj_gen])
  have "edit counted_id (Some (Contact (emptyContact (counted_id 0) ''d'')), 1)
     (insertBeside (counted_id (1 + 1)) (Some (Contact (emptyContact (counted_id 0) ''d''))) (counted_id 0)
        (Contact (emptyContact (counted_id 1) ''d'')) Or, 1 + 2)"
    by (rule add_contact)
  then show "(edit counted_id)\<^sup>*\<^sup>* (Some (Contact (emptyContact (counted_id 0) ''d'')), 1)
     (insertBeside (counted_id 2) (Some (Contact (emptyContact (counted_id 0) ''d''))) (counted_id 0)
        (Contact (emptyContact (counted_id 1) ''d'')) Or, 3)"
    by (simp add: numeral_eq_Suc)
qed

section \<open>A contact by its id\<close>

lemma find_contact:
  "distinct (node_ids n) \<Longrightarrow> c \<in> set (contacts n) \<Longrightarrow> find_node (c_id c) n = Some (Contact c)"
proof (induction n)
  case (Group g op cs)
  then have d: "distinct (concat (map node_ids cs))" and i: "c_id c \<in> set (concat (map node_ids cs))"
    using contacts_ids [of c] by auto
  obtain as' t bs where cs: "cs = as' @ t # bs" and t: "c_id c \<in> set (node_ids t)" "distinct (node_ids t)"
    and others: "\<And>x. x \<in> set as' \<union> set bs \<Longrightarrow> c_id c \<notin> set (node_ids x)"
    using split_child [OF d i] by metis
  have "c \<in> set (contacts t)" using Group.prems(2) others contacts_ids by (fastforce simp: cs)
  then have "find_node (c_id c) t = Some (Contact c)" using Group.IH [of t] t(2) by (simp add: cs)
  moreover have "first_some (find_node (c_id c)) (as' @ t # bs) = find_node (c_id c) t" if "find_node (c_id c) t \<noteq> None"
    using that others by (induction as') (auto simp: find_node_absent)
  ultimately show ?case using Group.prems(1) i by (auto simp: cs)
qed simp

lemma contact_by_id:
  assumes "distinct (node_ids n)" "x \<in> set (contacts n)" "c \<in> set (contacts n)" "c_id x = c_id c"
  shows "x = c"
proof -
  have "Some (Contact x) = find_node (c_id c) n" using find_contact [OF assms(1,2)] unfolding assms(4) by (rule sym)
  also have "\<dots> = Some (Contact c)" by (rule find_contact [OF assms(1,3)])
  finally show ?thesis by simp
qed

end
