(* ===== verification/Ladder.thy ===== *)
theory Ladder imports Rule_Tree begin

text \<open>
  \<open>frontend/src/lib/ladder-layout.ts\<close>: the grid layout of a condition tree.  \<open>place\<close> threads
  the output (contacts, blocks, wires) the code pushes to; it is None where the code throws, on an
  OR group without children (\<open>branches[-1].row\<close>).  Coordinates are grid units.
\<close>

record ladder_contact =
  y_id :: string
  y_x :: nat
  y_y :: nat

record ladder_block =
  b_id :: string
  b_op :: combinator
  b_x :: nat
  b_y :: nat
  b_width :: nat
  b_height :: nat

record ladder_wire =
  x1 :: nat
  y1 :: nat
  x2 :: nat
  y2 :: nat

record ladder_layout =
  o_width :: nat
  o_height :: nat
  o_contacts :: "ladder_contact list"
  o_blocks :: "ladder_block list"
  o_wires :: "ladder_wire list"

definition push_block :: "ladder_block \<Rightarrow> ladder_layout \<Rightarrow> ladder_layout" where
  "push_block b out = out\<lparr>o_blocks := o_blocks out @ [b]\<rparr>"

definition push_wires :: "ladder_wire list \<Rightarrow> ladder_layout \<Rightarrow> ladder_layout" where
  "push_wires ws out = out\<lparr>o_wires := o_wires out @ ws\<rparr>"

text \<open>What an AND and an OR push after their children.\<close>

definition close_and :: "string \<Rightarrow> nat \<Rightarrow> nat \<Rightarrow> (nat \<times> nat) \<times> ladder_layout \<Rightarrow> ((nat \<times> nat) \<times> ladder_layout) option" where
  "close_and i x y r =
     (let ((w, h), out) = r in
      Some ((w, h), push_block \<lparr>b_id = i, b_op = And, b_x = x, b_y = y, b_width = w, b_height = h\<rparr> out))"

definition close_or :: "string \<Rightarrow> nat \<Rightarrow> nat \<Rightarrow> (nat \<times> nat \<times> (nat \<times> nat) list) \<times> ladder_layout \<Rightarrow> ((nat \<times> nat) \<times> ladder_layout) option" where
  "close_or i x y r =
     (let ((h, w, bs), out) = r in
      if bs = [] then None
      else Some ((w, h),
        push_block \<lparr>b_id = i, b_op = Or, b_x = x, b_y = y, b_width = w, b_height = h\<rparr>
         (push_wires
           (map (\<lambda>(row, bw). \<lparr>x1 = x + bw, y1 = row, x2 = x + w, y2 = row\<rparr>) (filter (\<lambda>(row, bw). bw < w) bs) @
            [\<lparr>x1 = x, y1 = y, x2 = x, y2 = fst (last bs)\<rparr>, \<lparr>x1 = x + w, y1 = y, x2 = x + w, y2 = fst (last bs)\<rparr>])
           out)))"

text \<open>
  The three loops: \<open>place\<close> a node at a corner, \<open>place_series\<close> the rest of an AND from the
  width and height so far, \<open>place_branches\<close> the rest of an OR from the height, the width and
  the branches (row, width) so far.
\<close>

function (sequential) place :: "draft_node \<Rightarrow> nat \<Rightarrow> nat \<Rightarrow> ladder_layout \<Rightarrow> ((nat \<times> nat) \<times> ladder_layout) option"
and place_series :: "draft_node list \<Rightarrow> nat \<Rightarrow> nat \<Rightarrow> nat \<Rightarrow> nat \<Rightarrow> ladder_layout \<Rightarrow> ((nat \<times> nat) \<times> ladder_layout) option"
and place_branches :: "draft_node list \<Rightarrow> nat \<Rightarrow> nat \<Rightarrow> nat \<Rightarrow> nat \<Rightarrow> (nat \<times> nat) list \<Rightarrow> ladder_layout \<Rightarrow>
    ((nat \<times> nat \<times> (nat \<times> nat) list) \<times> ladder_layout) option" where
  "place (Contact c) x y out = Some ((1, 1), out\<lparr>o_contacts := o_contacts out @ [\<lparr>y_id = c_id c, y_x = x, y_y = y\<rparr>]\<rparr>)"
| "place (Group i op cs) x y out =
     (if op = And then Option.bind (place_series cs x y 0 0 out) (close_and i x y)
      else Option.bind (place_branches cs x y 0 0 [] out) (close_or i x y))"
| "place_series [] x y w h out = Some ((w, h), out)"
| "place_series (c # cs) x y w h out =
     (case place c (x + w) y out of None \<Rightarrow> None
      | Some ((cw, ch), out') \<Rightarrow> place_series cs x y (w + cw) (max h ch) out')"
| "place_branches [] x y h w bs out = Some ((h, w, bs), out)"
| "place_branches (c # cs) x y h w bs out =
     (case place c x (y + h) out of None \<Rightarrow> None
      | Some ((cw, ch), out') \<Rightarrow> place_branches cs x y (h + ch) (max w cw) (bs @ [(y + h, cw)]) out')"
  by pat_completeness auto

termination
  by (relation "measure (case_sum (\<lambda>p. size (fst p)) (case_sum (\<lambda>p. size_list size (fst p)) (\<lambda>p. size_list size (fst p))))") auto

definition empty_layout :: ladder_layout where
  "empty_layout = \<lparr>o_width = 0, o_height = 1, o_contacts = [], o_blocks = [], o_wires = []\<rparr>"

definition layoutCondition :: "draft_node option \<Rightarrow> ladder_layout option" where
  "layoutCondition node =
     (case node of None \<Rightarrow> Some empty_layout
      | Some n \<Rightarrow> (case place n 0 0 empty_layout of None \<Rightarrow> None
                   | Some ((w, h), out) \<Rightarrow> Some (out\<lparr>o_width := w, o_height := h\<rparr>)))"

fun ancestry_node :: "string \<Rightarrow> draft_node \<Rightarrow> draft_node list" and ancestry_list :: "string \<Rightarrow> draft_node list \<Rightarrow> draft_node list" where
  "ancestry_node i (Contact c) = (if c_id c = i then [Contact c] else [])"
| "ancestry_node i (Group g op cs) =
     (if g = i then [Group g op cs]
      else let path = ancestry_list i cs in if path \<noteq> [] then Group g op cs # path else [])"
| "ancestry_list i [] = []"
| "ancestry_list i (c # cs) = (let path = ancestry_node i c in if path \<noteq> [] then path else ancestry_list i cs)"

definition ancestry :: "draft_node option \<Rightarrow> string \<Rightarrow> draft_node list" where
  "ancestry node i = (case node of None \<Rightarrow> [] | Some n \<Rightarrow> ancestry_node i n)"

section \<open>Every contact in a cell of its own\<close>

definition cell :: "ladder_contact \<Rightarrow> nat \<times> nat" where
  "cell p = (y_x p, y_y p)"

definition in_box :: "nat \<Rightarrow> nat \<Rightarrow> nat \<Rightarrow> nat \<Rightarrow> ladder_contact list \<Rightarrow> bool" where
  "in_box xa xb ya yb ps \<longleftrightarrow> distinct (map cell ps) \<and>
     (\<forall>p\<in>set ps. xa \<le> y_x p \<and> y_x p < xb \<and> ya \<le> y_y p \<and> y_y p < yb)"

lemma in_box_Nil [simp]: "in_box xa xb ya yb []"
  by (simp add: in_box_def)

lemma in_box_mono: "in_box xa xb ya yb ps \<Longrightarrow> xa' \<le> xa \<Longrightarrow> xb \<le> xb' \<Longrightarrow> ya' \<le> ya \<Longrightarrow> yb \<le> yb' \<Longrightarrow> in_box xa' xb' ya' yb' ps"
  unfolding in_box_def by (meson le_trans less_le_trans)

lemma in_box_append:
  assumes "in_box xa xb ya yb ps" "in_box xa' xb' ya' yb' qs" "xb \<le> xa' \<or> yb \<le> ya'"
    "xa \<le> xa'" "ya \<le> ya'" "X \<ge> xb" "X \<ge> xb'" "Y \<ge> yb" "Y \<ge> yb'"
  shows "in_box xa X ya Y (ps @ qs)"
proof -
  have 1: "in_box xa X ya Y ps" "in_box xa X ya Y qs"
    using assms by (auto intro: in_box_mono)
  have "cell p \<noteq> cell q" if "p \<in> set ps" "q \<in> set qs" for p q
  proof -
    have "y_x p < xb" "y_y p < yb" "xa' \<le> y_x q" "ya' \<le> y_y q"
      using assms(1,2) that by (auto simp: in_box_def)
    then show ?thesis using assms(3) by (auto simp: cell_def)
  qed
  then have "set (map cell ps) \<inter> set (map cell qs) = {}"
    unfolding set_map disjoint_iff image_iff by metis
  with 1 show ?thesis by (auto simp: in_box_def)
qed

text \<open>What one call adds to the output: the contacts \<open>ps\<close>, with these ids, in this box.\<close>

definition adds :: "ladder_layout \<Rightarrow> ladder_layout \<Rightarrow> string list \<Rightarrow> nat \<Rightarrow> nat \<Rightarrow> nat \<Rightarrow> nat \<Rightarrow> bool" where
  "adds out out' is xa xb ya yb \<longleftrightarrow>
     (\<exists>ps. o_contacts out' = o_contacts out @ ps \<and> map y_id ps = is \<and> in_box xa xb ya yb ps)"

lemma addsI: "o_contacts out' = o_contacts out @ ps \<Longrightarrow> map y_id ps = is \<Longrightarrow> in_box xa xb ya yb ps \<Longrightarrow> adds out out' is xa xb ya yb"
  by (auto simp: adds_def)

lemma adds_push [simp]:
  "adds out (push_block b out') is xa xb ya yb = adds out out' is xa xb ya yb"
  "adds out (push_wires ws out') is xa xb ya yb = adds out out' is xa xb ya yb"
  by (simp_all add: adds_def push_block_def push_wires_def)

lemma adds_trans:
  assumes "adds out out1 is xa xb ya yb" "adds out1 out2 js xa' xb' ya' yb'" "xb \<le> xa' \<or> yb \<le> ya'"
    "xa \<le> xa'" "ya \<le> ya'" "X \<ge> xb" "X \<ge> xb'" "Y \<ge> yb" "Y \<ge> yb'"
  shows "adds out out2 (is @ js) xa X ya Y"
proof -
  obtain ps qs where "o_contacts out1 = o_contacts out @ ps" "map y_id ps = is" "in_box xa xb ya yb ps"
    "o_contacts out2 = o_contacts out1 @ qs" "map y_id qs = js" "in_box xa' xb' ya' yb' qs"
    using assms(1,2) by (auto simp: adds_def)
  then show ?thesis using in_box_append [OF _ _ assms(3-9)] by (intro addsI [where ps = "ps @ qs"]) auto
qed

lemma place_boxes:
  "inhabited n \<Longrightarrow> \<exists>w h out'. place n x y out = Some ((w, h), out') \<and> 0 < w \<and> 0 < h \<and>
     adds out out' (map c_id (contacts n)) x (x + w) y (y + h)"
  "list_all inhabited cs \<Longrightarrow> \<exists>w' h' out'. place_series cs x y w h out = Some ((w', h'), out') \<and>
     w + length cs \<le> w' \<and> h \<le> h' \<and> (cs = [] \<or> 0 < h') \<and>
     adds out out' (map c_id (concat (map contacts cs))) (x + w) (x + w') y (y + h')"
  "list_all inhabited cs \<Longrightarrow> \<exists>h' w' bs' out'. place_branches cs x y h w bs out = Some ((h', w', bs'), out') \<and>
     h + length cs \<le> h' \<and> w \<le> w' \<and> (cs = [] \<or> 0 < w') \<and> length bs' = length bs + length cs \<and>
     adds out out' (map c_id (concat (map contacts cs))) x (x + w') (y + h) (y + h')"
proof (induction n x y out and cs x y w h out and cs x y h w bs out rule: place_place_series_place_branches.induct)
  case (1 c x y out)
  then show ?case
    by (auto intro!: addsI [where ps = "[\<lparr>y_id = c_id c, y_x = x, y_y = y\<rparr>]"] simp: in_box_def)
next
  case (2 i op cs x y out)
  then have cs: "cs \<noteq> []" "list_all inhabited cs" by auto
  show ?case
  proof (cases "op = And")
    case True
    obtain w h out' where "place_series cs x y 0 0 out = Some ((w, h), out')" "length cs \<le> w" "0 < h"
      "adds out out' (map c_id (concat (map contacts cs))) x (x + w) y (y + h)"
      using 2(1) [OF True cs(2)] cs(1) by auto
    then show ?thesis using cs(1) True by (cases cs) (auto simp: close_and_def)
  next
    case False
    obtain h w bs out' where b: "place_branches cs x y 0 0 [] out = Some ((h, w, bs), out')" "length cs \<le> h" "0 < w"
      "length bs = length cs" "adds out out' (map c_id (concat (map contacts cs))) x (x + w) y (y + h)"
      using 2(2) [OF False cs(2)] cs(1) by auto
    moreover have "bs \<noteq> []" using b(4) cs(1) by auto
    ultimately show ?thesis using cs(1) False by (cases cs) (auto simp: close_or_def)
  qed
next
  case (3 x y w h out)
  then show ?case by (auto intro!: addsI [where ps = "[]"])
next
  case (4 c cs x y w h out)
  then obtain cw ch out1 where c: "place c (x + w) y out = Some ((cw, ch), out1)" "0 < cw" "0 < ch"
    "adds out out1 (map c_id (contacts c)) (x + w) (x + w + cw) y (y + ch)" by auto
  obtain w' h' out' where s: "place_series cs x y (w + cw) (max h ch) out1 = Some ((w', h'), out')"
    "w + cw + length cs \<le> w'" "max h ch \<le> h'"
    "adds out1 out' (map c_id (concat (map contacts cs))) (x + (w + cw)) (x + w') y (y + h')"
    using 4(2) [OF c(1) refl refl] 4(3) by auto
  have "adds out out' (map c_id (contacts c) @ map c_id (concat (map contacts cs))) (x + w) (x + w') y (y + h')"
    by (rule adds_trans [OF c(4) s(4)]) (use s(2,3) in auto)
  then show ?case using c s(1-3) by auto
next
  case (5 x y h w bs out)
  then show ?case by (auto intro!: addsI [where ps = "[]"])
next
  case (6 c cs x y h w bs out)
  then obtain cw ch out1 where c: "place c x (y + h) out = Some ((cw, ch), out1)" "0 < cw" "0 < ch"
    "adds out out1 (map c_id (contacts c)) x (x + cw) (y + h) (y + h + ch)" by auto
  obtain h' w' bs' out' where s: "place_branches cs x y (h + ch) (max w cw) (bs @ [(y + h, cw)]) out1 = Some ((h', w', bs'), out')"
    "h + ch + length cs \<le> h'" "max w cw \<le> w'" "length bs' = Suc (length bs) + length cs"
    "adds out1 out' (map c_id (concat (map contacts cs))) x (x + w') (y + (h + ch)) (y + h')"
    using 6(2) [OF c(1) refl refl] 6(3) by auto
  have "adds out out' (map c_id (contacts c) @ map c_id (concat (map contacts cs))) x (x + w') (y + h) (y + h')"
    by (rule adds_trans [OF c(4) s(5)]) (use s(2,3) in auto)
  then show ?case using c s(1-4) by auto
qed

text \<open>
  A condition without empty groups is laid out without an error, every contact in the order
  of the tree, in a cell of its own and inside the drawing's width and height.
\<close>

theorem ladder_cells:
  assumes "inhabited n"
  shows "\<exists>out. layoutCondition (Some n) = Some out \<and> map y_id (o_contacts out) = map c_id (contacts n) \<and>
           in_box 0 (o_width out) 0 (o_height out) (o_contacts out)"
proof -
  obtain w h out where "place n 0 0 empty_layout = Some ((w, h), out)"
    "adds empty_layout out (map c_id (contacts n)) 0 (0 + w) 0 (0 + h)"
    using place_boxes(1) [OF assms] by blast
  then show ?thesis by (auto simp: layoutCondition_def adds_def empty_layout_def)
qed

lemma ladder_cells_witness:
  "\<exists>out. layoutCondition (Some demo_tree) = Some out \<and> map y_id (o_contacts out) = map c_id (contacts demo_tree) \<and>
     in_box 0 (o_width out) 0 (o_height out) (o_contacts out)"
  by (rule ladder_cells) (simp add: demo_tree_def demo_contact_def)

section \<open>The breadcrumb\<close>

fun chain :: "draft_node list \<Rightarrow> bool" where
  "chain [] = True"
| "chain [n] = True"
| "chain (p # c # ns) = ((case p of Group i op cs \<Rightarrow> c \<in> set cs | Contact x \<Rightarrow> False) \<and> chain (c # ns))"

lemma ancestry_path:
  "(if i \<in> set (node_ids n) then
      ancestry_node i n \<noteq> [] \<and> hd (ancestry_node i n) = n \<and> node_id (last (ancestry_node i n)) = i \<and> chain (ancestry_node i n)
    else ancestry_node i n = [])"
  "(if i \<in> set (concat (map node_ids cs)) then
      ancestry_list i cs \<noteq> [] \<and> hd (ancestry_list i cs) \<in> set cs \<and> node_id (last (ancestry_list i cs)) = i \<and> chain (ancestry_list i cs)
    else ancestry_list i cs = [])"
proof (induction i n and i cs rule: ancestry_node_ancestry_list.induct)
  case (2 i g op cs)
  show ?case
  proof (cases "g = i")
    case False
    then have "if i \<in> set (concat (map node_ids cs)) then
      ancestry_list i cs \<noteq> [] \<and> hd (ancestry_list i cs) \<in> set cs \<and> node_id (last (ancestry_list i cs)) = i \<and> chain (ancestry_list i cs)
      else ancestry_list i cs = []" by (rule 2)
    then show ?thesis using False by (cases "ancestry_list i cs") (auto simp: Let_def split: if_splits)
  qed simp
next
  case (4 i c cs)
  then show ?case by (cases "i \<in> set (node_ids c)") (auto simp: Let_def split: if_splits)
qed auto

text \<open>
  The breadcrumb of an id in the tree runs from the root to the node with that id, each
  step from a group to one of its children; an id that is not in the tree has none.
\<close>

theorem ancestry_correct:
  "if i \<in> set (node_ids n) then
     ancestry (Some n) i \<noteq> [] \<and> hd (ancestry (Some n) i) = n \<and> node_id (last (ancestry (Some n) i)) = i \<and>
     chain (ancestry (Some n) i)
   else ancestry (Some n) i = []"
  using ancestry_path(1) [of i n] by (simp add: ancestry_def)

end
