(* ===== verification/Lists.thy ===== *)
theory Lists imports Js_Number "HOL-Library.Multiset" begin

text \<open>
  The lists of the web (\<open>frontend/src/components/list\<close>): a list page's search, filters, sort and
  page, kept in the URL (\<open>useListState.ts\<close>), the pagers (\<open>usePager.ts\<close>, \<open>useServerPager.ts\<close>), the
  peek that walks the shown rows (\<open>usePeek.ts\<close>) and a table's selection (\<open>DataTable.tsx\<close>).

  The URL's query is the list of its parameters, as \<open>URLSearchParams\<close> holds it; encoding and
  decoding it is the browser's.  \<open>localeCompare\<close> is the parameter \<open>collate\<close>.  \<open>Array.sort\<close> is
  stable insertion: for a comparison that is a total preorder every stable sort gives this list.
\<close>

section \<open>URLSearchParams\<close>

type_synonym params = "(string \<times> string) list"

definition q_get :: "params \<Rightarrow> string \<Rightarrow> string option" where
  "q_get ps k = map_of ps k"

definition q_delete :: "string \<Rightarrow> params \<Rightarrow> params" where
  "q_delete k ps = filter (\<lambda>(k', v). k' \<noteq> k) ps"

text \<open>\<open>set\<close> keeps the place of the first and removes the others.\<close>

fun q_set :: "string \<Rightarrow> string \<Rightarrow> params \<Rightarrow> params" where
  "q_set k v [] = [(k, v)]"
| "q_set k v ((k', v') # ps) = (if k' = k then (k, v) # q_delete k ps else (k', v') # q_set k v ps)"

section \<open>useListState.ts\<close>

datatype sort_dir = Asc | Desc

record list_state =
  ls_q :: string
  ls_filters :: "(string \<times> string) list"
  ls_sort :: "(string \<times> sort_dir) option"
  ls_page :: jsnum
  ls_pageSize :: nat

definition PAGE_SIZES :: "nat list" where "PAGE_SIZES = [25, 50, 100]"

definition dir_name :: "sort_dir \<Rightarrow> string" where
  "dir_name d = (case d of Asc \<Rightarrow> ''asc'' | Desc \<Rightarrow> ''desc'')"

definition read_sort :: "(string \<times> sort_dir) option \<Rightarrow> string option \<Rightarrow> (string \<times> sort_dir) option" where
  "read_sort defaultSort raw =
     (case raw of
        None \<Rightarrow> defaultSort
      | Some s \<Rightarrow>
          if s = [] then defaultSort
          else (case split_on CHR '':'' s of
                  key # rest \<Rightarrow>
                    if key = [] then defaultSort
                    else Some (key, if rest \<noteq> [] \<and> hd rest = ''desc'' then Desc else Asc)
                | [] \<Rightarrow> defaultSort))"

text \<open>\<open>Number(null)\<close> is 0.\<close>

definition number_param :: "string option \<Rightarrow> jsnum" where
  "number_param v = (case v of None \<Rightarrow> Fin 0 | Some s \<Rightarrow> to_number s)"

definition read_page :: "jsnum \<Rightarrow> jsnum" where
  "read_page n = (if n = NaN \<or> n = Fin 0 \<or> js_lt n (Fin 1) then Fin 1 else n)"

definition read_size :: "jsnum \<Rightarrow> nat" where
  "read_size n = (case List.find (\<lambda>s. n = Fin (of_nat s)) PAGE_SIZES of Some s \<Rightarrow> s | None \<Rightarrow> hd PAGE_SIZES)"

definition list_state_of :: "(string \<times> string) list \<Rightarrow> (string \<times> sort_dir) option \<Rightarrow> params \<Rightarrow> list_state" where
  "list_state_of defaults defaultSort ps =
     \<lparr>ls_q = (case q_get ps ''q'' of Some q \<Rightarrow> q | None \<Rightarrow> []),
      ls_filters = map (\<lambda>(k, d). (k, case q_get ps k of Some v \<Rightarrow> v | None \<Rightarrow> d)) defaults,
      ls_sort = read_sort defaultSort (q_get ps ''sort''),
      ls_page = read_page (number_param (q_get ps ''page'')),
      ls_pageSize = read_size (number_param (q_get ps ''size''))\<rparr>"

definition write_one :: "params \<Rightarrow> string \<times> string option \<Rightarrow> params" where
  "write_one ps e =
     (case e of (k, v) \<Rightarrow> (case v of None \<Rightarrow> q_delete k ps | Some s \<Rightarrow> if s = [] then q_delete k ps else q_set k s ps))"

definition write_params :: "(string \<times> string option) list \<Rightarrow> bool \<Rightarrow> params \<Rightarrow> params" where
  "write_params patch resetPage ps =
     (let next = foldl write_one ps patch in if resetPage then q_delete ''page'' next else next)"

definition setQuery :: "string \<Rightarrow> params \<Rightarrow> params" where
  "setQuery q = write_params [(''q'', if q = [] then None else Some q)] True"

definition filter_patch :: "(string \<times> string) list \<Rightarrow> string \<times> string \<Rightarrow> string \<times> string option" where
  "filter_patch defaults e = (fst e, if map_of defaults (fst e) = Some (snd e) then None else Some (snd e))"

definition setFilters :: "(string \<times> string) list \<Rightarrow> (string \<times> string) list \<Rightarrow> params \<Rightarrow> params" where
  "setFilters defaults patch = write_params (map (filter_patch defaults) patch) True"

definition setFilter :: "(string \<times> string) list \<Rightarrow> string \<Rightarrow> string \<Rightarrow> params \<Rightarrow> params" where
  "setFilter defaults key v = write_params [filter_patch defaults (key, v)] True"

definition next_dir :: "(string \<times> sort_dir) option \<Rightarrow> string \<Rightarrow> sort_dir" where
  "next_dir cur key = (if cur = Some (key, Asc) then Desc else Asc)"

definition toggleSort ::
    "(string \<times> string) list \<Rightarrow> (string \<times> sort_dir) option \<Rightarrow> string \<Rightarrow> params \<Rightarrow> params" where
  "toggleSort defaults defaultSort key ps =
     (let dir = next_dir (ls_sort (list_state_of defaults defaultSort ps)) key
      in write_params [(''sort'', if defaultSort = Some (key, dir) then None else Some (key @ '':'' @ dir_name dir))] False ps)"

definition clearAll :: "(string \<times> string) list \<Rightarrow> params \<Rightarrow> params" where
  "clearAll defaults = write_params ((''q'', None) # map (\<lambda>(k, d). (k, None)) defaults) True"

definition setPage :: "nat \<Rightarrow> params \<Rightarrow> params" where
  "setPage page = write_params [(''page'', if 1 < page then Some (nat_text page) else None)] False"

definition setPageSize :: "nat \<Rightarrow> params \<Rightarrow> params" where
  "setPageSize per = write_params [(''size'', if per = hd PAGE_SIZES then None else Some (nat_text per))] True"

definition isFiltered :: "(string \<times> string) list \<Rightarrow> list_state \<Rightarrow> bool" where
  "isFiltered defaults s \<longleftrightarrow> trim (ls_q s) \<noteq> [] \<or> list_ex (\<lambda>(k, d). map_of (ls_filters s) k \<noteq> Some d) defaults"

definition matchesQuery :: "string \<Rightarrow> string option list \<Rightarrow> bool" where
  "matchesQuery q haystack =
     (let ws = non_empty (split_runs is_space (lower_case (trim q)));
          text = lower_case (join '' '' (filter (\<lambda>h. h \<noteq> []) (somes haystack)))
      in ws = [] \<or> list_all (contains text) ws)"

text \<open>\<open>clampPage\<close>, and \<open>rows.slice\<close> with its ends cut to whole numbers.\<close>

definition page_count :: "nat \<Rightarrow> nat \<Rightarrow> nat" where
  "page_count tot pageSize = max 1 (nat \<lceil>(of_nat tot :: rat) / of_nat pageSize\<rceil>)"

definition clamp_page :: "jsnum \<Rightarrow> nat \<Rightarrow> rat" where
  "clamp_page page pageCount =
     (case page of Fin p \<Rightarrow> min (max 1 p) (of_nat pageCount) | PosInf \<Rightarrow> of_nat pageCount | _ \<Rightarrow> 1)"

definition slice :: "'a list \<Rightarrow> rat \<Rightarrow> rat \<Rightarrow> 'a list" where
  "slice rows a b = take (nat \<lfloor>b\<rfloor> - nat \<lfloor>a\<rfloor>) (drop (nat \<lfloor>a\<rfloor>) rows)"

definition page_rows :: "'a list \<Rightarrow> rat \<Rightarrow> nat \<Rightarrow> 'a list" where
  "page_rows rows p pageSize = slice rows ((p - 1) * of_nat pageSize) (p * of_nat pageSize)"

definition paginate :: "'a list \<Rightarrow> jsnum \<Rightarrow> nat \<Rightarrow> 'a list \<times> nat \<times> rat" where
  "paginate rows page pageSize =
     (let pageCount = page_count (length rows) pageSize; p = clamp_page page pageCount
      in (page_rows rows p pageSize, pageCount, p))"

text \<open>A cell's sort value: a number, a string, or None.\<close>

datatype sort_value = Sort_num rat | Sort_str string

fun sort_text :: "sort_value \<Rightarrow> string" where
  "sort_text (Sort_num n) = number_text (Fin n)"
| "sort_text (Sort_str s) = s"

definition sort_mul :: "sort_dir \<Rightarrow> rat" where
  "sort_mul d = (case d of Asc \<Rightarrow> 1 | Desc \<Rightarrow> - 1)"

definition compare_values :: "(string \<Rightarrow> string \<Rightarrow> rat) \<Rightarrow> sort_dir \<Rightarrow> sort_value option \<Rightarrow> sort_value option \<Rightarrow> rat" where
  "compare_values collate dir va vb =
     (case (va, vb) of
        (None, None) \<Rightarrow> 0
      | (None, Some b) \<Rightarrow> 1
      | (Some a, None) \<Rightarrow> - 1
      | (Some (Sort_num p), Some (Sort_num q)) \<Rightarrow> (p - q) * sort_mul dir
      | (Some a, Some b) \<Rightarrow> collate (sort_text a) (sort_text b) * sort_mul dir)"

fun insert_sorted :: "('a \<Rightarrow> 'a \<Rightarrow> rat) \<Rightarrow> 'a \<Rightarrow> 'a list \<Rightarrow> 'a list" where
  "insert_sorted cmp x [] = [x]"
| "insert_sorted cmp x (y # ys) = (if cmp x y \<le> 0 then x # y # ys else y # insert_sorted cmp x ys)"

definition js_sort :: "('a \<Rightarrow> 'a \<Rightarrow> rat) \<Rightarrow> 'a list \<Rightarrow> 'a list" where
  "js_sort cmp xs = foldr (insert_sorted cmp) xs []"

definition sortRows ::
    "(string \<Rightarrow> string \<Rightarrow> rat) \<Rightarrow> 'a list \<Rightarrow> (string \<times> sort_dir) option \<Rightarrow> ('a \<Rightarrow> string \<Rightarrow> sort_value option) \<Rightarrow> 'a list" where
  "sortRows collate rows srt vals =
     (case srt of
        None \<Rightarrow> rows
      | Some (key, dir) \<Rightarrow> js_sort (\<lambda>a b. compare_values collate dir (vals a key) (vals b key)) rows)"

section \<open>usePager.ts and useServerPager.ts\<close>

definition clampPage :: "nat \<Rightarrow> nat \<Rightarrow> nat \<Rightarrow> nat \<times> nat" where
  "clampPage page tot pageSize =
     (let pageCount = page_count tot pageSize in (min (max 1 page) pageCount, pageCount))"

text \<open>A slot of the numbered pager: a page or the gap.\<close>

definition page_range :: "nat \<Rightarrow> nat \<Rightarrow> nat option list" where
  "page_range a b = map Some [a..<Suc b]"

definition pageItems :: "nat \<Rightarrow> nat \<Rightarrow> nat option list" where
  "pageItems page pageCount =
     (if pageCount \<le> 7 then page_range 1 pageCount
      else if page \<le> 4 then page_range 1 5 @ [None, Some pageCount]
      else if pageCount - 3 \<le> page then [Some 1, None] @ page_range (pageCount - 4) pageCount
      else [Some 1, None, Some (page - 1), Some page, Some (page + 1), None, Some pageCount])"

record page_state =
  pa_page :: nat
  pa_pageSize :: nat

definition usePageState :: page_state where
  "usePageState = \<lparr>pa_page = 1, pa_pageSize = hd PAGE_SIZES\<rparr>"

definition resets :: "page_state \<Rightarrow> page_state" where
  "resets s = s\<lparr>pa_page := 1\<rparr>"

definition resizes :: "nat \<Rightarrow> page_state \<Rightarrow> page_state" where
  "resizes per s = \<lparr>pa_page = 1, pa_pageSize = per\<rparr>"

definition usePager :: "'a list \<Rightarrow> page_state \<Rightarrow> 'a list \<times> nat \<times> nat" where
  "usePager rows s =
     (case clampPage (pa_page s) (length rows) (pa_pageSize s) of
        (page, pageCount) \<Rightarrow>
          (take (pa_pageSize s) (drop ((page - 1) * pa_pageSize s) rows), page, pageCount))"

definition page_query :: "nat \<Rightarrow> nat \<Rightarrow> (string \<times> string option) list \<Rightarrow> params" where
  "page_query page pageSize ps =
     foldl (\<lambda>q (k, v). case v of Some s \<Rightarrow> if s = [] then q else q_set k s q | None \<Rightarrow> q)
       [(''limit'', nat_text pageSize), (''offset'', nat_text ((page - 1) * pageSize))] ps"

text \<open>What the server pager shows: \<open>feed\<close> answers an offset and a limit with rows and a total.\<close>

definition useServerPager :: "(nat \<Rightarrow> nat \<Rightarrow> ('a list \<times> nat) option) \<Rightarrow> page_state \<Rightarrow> 'a list \<times> nat \<times> nat" where
  "useServerPager feed s =
     (let data = feed ((pa_page s - 1) * pa_pageSize s) (pa_pageSize s);
          tot = (case data of Some (rows, n) \<Rightarrow> n | None \<Rightarrow> 0)
      in case clampPage (pa_page s) tot (pa_pageSize s) of
           (page, pageCount) \<Rightarrow> (case data of Some (rows, n) \<Rightarrow> rows | None \<Rightarrow> [], page, pageCount))"

section \<open>usePeek.ts\<close>

definition setPeek :: "string option \<Rightarrow> params \<Rightarrow> params" where
  "setPeek i ps = (case i of Some s \<Rightarrow> if s = [] then q_delete ''peek'' ps else q_set ''peek'' s ps | None \<Rightarrow> q_delete ''peek'' ps)"

definition peek_id :: "params \<Rightarrow> string option" where
  "peek_id ps =
     (case q_get ps ''edit'' of
        Some e \<Rightarrow> if e = [] then q_get ps ''peek'' else None
      | None \<Rightarrow> q_get ps ''peek'')"

definition peek_index :: "string list \<Rightarrow> params \<Rightarrow> nat option" where
  "peek_index keys ps =
     (case peek_id ps of Some i \<Rightarrow> if i = [] then None else find_index (\<lambda>k. k = i) keys | None \<Rightarrow> None)"

definition peek_move :: "string list \<Rightarrow> nat \<Rightarrow> params \<Rightarrow> params" where
  "peek_move keys to ps = (if to < length keys then setPeek (Some (keys ! to)) ps else ps)"

definition peek_prev :: "string list \<Rightarrow> params \<Rightarrow> params option" where
  "peek_prev keys ps =
     (case peek_index keys ps of Some i \<Rightarrow> if 0 < i then Some (peek_move keys (i - 1) ps) else None | None \<Rightarrow> None)"

definition peek_next :: "string list \<Rightarrow> params \<Rightarrow> params option" where
  "peek_next keys ps =
     (case peek_index keys ps of
        Some i \<Rightarrow> if i < length keys - 1 then Some (peek_move keys (i + 1) ps) else None
      | None \<Rightarrow> None)"

datatype peek_step = Peek string | Open_page string

definition onRowEnter :: "string \<Rightarrow> params \<Rightarrow> peek_step" where
  "onRowEnter key ps = (if Some key = peek_id ps then Open_page key else Peek key)"

section \<open>DataTable.tsx: selection\<close>

definition all_selected :: "string list \<Rightarrow> string set \<Rightarrow> bool" where
  "all_selected keys sel \<longleftrightarrow> keys \<noteq> [] \<and> list_all (\<lambda>k. k \<in> sel) keys"

definition toggleAll :: "string list \<Rightarrow> string set \<Rightarrow> string set" where
  "toggleAll keys sel = foldl (\<lambda>s k. if all_selected keys sel then s - {k} else insert k s) sel keys"

definition toggleOne :: "string \<Rightarrow> string set \<Rightarrow> string set" where
  "toggleOne key sel = (if key \<in> sel then sel - {key} else insert key sel)"

end
