(* ===== verification/List_Facts.thy ===== *)
theory List_Facts imports Lists begin

text \<open>
  The lists work: the URL implements the abstract list state (each operation on the parameters is
  the operation on the state they denote), sorting is a stable sort with the rows without a value
  last, every row is on exactly one page, and the numbered pager keeps its seven slots.
\<close>

section \<open>Parameters\<close>

lemma q_get_delete [simp]: "q_get (q_delete k ps) k' = (if k' = k then None else q_get ps k')"
  by (induction ps) (auto simp: q_get_def q_delete_def)

lemma q_get_set [simp]: "q_get (q_set k v ps) k' = (if k' = k then Some v else q_get ps k')"
proof (induction k v ps rule: q_set.induct)
  case (2 k v k1 v1 ps)
  then show ?case using q_get_delete [of k ps k'] by (auto simp: q_get_def)
qed (simp add: q_get_def)

definition stored_param :: "string option \<Rightarrow> string option" where
  "stored_param v = (case v of Some s \<Rightarrow> if s = [] then None else Some s | None \<Rightarrow> None)"

lemma q_get_write_one [simp]: "q_get (write_one ps e) k = (if k = fst e then stored_param (snd e) else q_get ps k)"
  by (cases e) (simp add: write_one_def stored_param_def split: option.split)

lemma q_get_writes:
  "distinct (map fst patch) \<Longrightarrow>
   q_get (foldl write_one ps patch) k = (case map_of patch k of Some v \<Rightarrow> stored_param v | None \<Rightarrow> q_get ps k)"
proof (induction patch arbitrary: ps)
  case (Cons e patch)
  have "map_of patch (fst e) = None" using Cons.prems by (simp add: map_of_eq_None_iff)
  with Cons show ?case by (cases e) (auto split: option.split)
qed simp

lemma q_get_write:
  "distinct (map fst patch) \<Longrightarrow>
   q_get (write_params patch r ps) k =
     (if r \<and> k = ''page'' then None else case map_of patch k of Some v \<Rightarrow> stored_param v | None \<Rightarrow> q_get ps k)"
  by (simp add: write_params_def Let_def q_get_writes)

section \<open>The URL implements the list state\<close>

text \<open>Filters have names of their own and a default, and a sort key is one word.\<close>

definition names_of_list :: "(string \<times> string) list \<Rightarrow> bool" where
  "names_of_list defaults \<longleftrightarrow>
     distinct (map fst defaults) \<and> set (map fst defaults) \<inter> {''q'', ''sort'', ''page'', ''size''} = {}"

definition sort_key :: "string \<Rightarrow> bool" where
  "sort_key key \<longleftrightarrow> key \<noteq> [] \<and> CHR '':'' \<notin> set key"

lemma dir_name_plain [simp]: "CHR '':'' \<notin> set (dir_name d)"
  by (cases d) (auto simp: dir_name_def)

lemma read_sort_written: "sort_key key \<Longrightarrow> read_sort ds (Some (key @ '':'' @ dir_name d)) = Some (key, d)"
  by (cases d) (simp_all add: read_sort_def sort_key_def split_on_append_sep split_on_no_sep dir_name_def)

lemma number_nat_text [simp]: "to_number (nat_text n) = Fin (of_nat n)"
proof -
  have "rat_text (of_nat n) = nat_text n" by (simp add: rat_text_def abs_text_def)
  then show ?thesis using to_number_text [of "of_nat n"] by (simp add: short_decimal_def)
qed

lemma read_page_written: "1 \<le> page \<Longrightarrow> read_page (number_param (Some (nat_text page))) = Fin (of_nat page)"
  by (simp add: number_param_def read_page_def)

lemma q_names:
  assumes "names_of_list defaults" "(k, d) \<in> set defaults"
  shows "k \<noteq> ''q'' \<and> k \<noteq> ''sort'' \<and> k \<noteq> ''page'' \<and> k \<noteq> ''size''"
proof -
  have "k \<in> set (map fst defaults)" using assms(2) by force
  then show ?thesis using assms(1) unfolding names_of_list_def by blast
qed

definition with_filter :: "string \<Rightarrow> string \<Rightarrow> (string \<times> string) list \<Rightarrow> (string \<times> string) list" where
  "with_filter key v fs = map (\<lambda>(k, w). (k, if k = key then v else w)) fs"

text \<open>A write that leaves a parameter alone leaves what is read from it; one that resets the page
  reads page 1.\<close>

lemma list_state_cong:
  assumes "q_get ps' ''q'' = q_get ps ''q''" "\<And>k d. (k, d) \<in> set defaults \<Longrightarrow> q_get ps' k = q_get ps k"
    "q_get ps' ''sort'' = q_get ps ''sort''" "q_get ps' ''page'' = q_get ps ''page''" "q_get ps' ''size'' = q_get ps ''size''"
  shows "list_state_of defaults ds ps' = list_state_of defaults ds ps"
  using assms by (auto simp: list_state_of_def)

lemma page_one [simp]: "read_page (number_param None) = Fin 1"
  by (simp add: number_param_def read_page_def)

lemma setQuery_state:
  assumes "names_of_list defaults"
  shows "list_state_of defaults ds (setQuery q ps) = (list_state_of defaults ds ps)\<lparr>ls_q := q, ls_page := Fin 1\<rparr>"
  using q_names [OF assms] by (auto simp: list_state_of_def setQuery_def q_get_write stored_param_def)

lemma setFilter_state:
  assumes "names_of_list defaults" "(key, d) \<in> set defaults" "v \<noteq> [] \<or> d = []"
  shows "list_state_of defaults ds (setFilter defaults key v ps) =
    (list_state_of defaults ds ps)\<lparr>ls_filters := with_filter key v (ls_filters (list_state_of defaults ds ps)), ls_page := Fin 1\<rparr>"
proof -
  have m: "map_of defaults key = Some d" using assms by (simp add: names_of_list_def)
  have k: "d' = d" if "(key, d') \<in> set defaults" for d'
    using that m assms(1) by (simp add: names_of_list_def)
  show ?thesis
    using q_names [OF assms(1)] q_names [OF assms(1,2)] assms(3) k
    by (auto simp: list_state_of_def setFilter_def filter_patch_def q_get_write stored_param_def m with_filter_def)
qed

lemma toggleSort_state:
  assumes "names_of_list defaults" "sort_key col"
  shows "list_state_of defaults ds (toggleSort defaults ds col ps) =
    (list_state_of defaults ds ps)\<lparr>ls_sort := Some (col, next_dir (ls_sort (list_state_of defaults ds ps)) col)\<rparr>"
proof -
  have "stored_param (Some (col @ '':'' @ dir_name d)) = Some (col @ '':'' @ dir_name d)" for d by (simp add: stored_param_def)
  then show ?thesis
    using q_names [OF assms(1)] read_sort_written [OF assms(2)]
    by (auto simp: list_state_of_def toggleSort_def Let_def q_get_write read_sort_def stored_param_def)
qed

lemma setPage_state:
  assumes "names_of_list defaults" "1 \<le> page"
  shows "list_state_of defaults ds (setPage page ps) = (list_state_of defaults ds ps)\<lparr>ls_page := Fin (of_nat page)\<rparr>"
  using q_names [OF assms(1)] assms(2) read_page_written [OF assms(2)]
  by (auto simp: list_state_of_def setPage_def q_get_write stored_param_def)

lemma setPageSize_state:
  assumes "names_of_list defaults" "per \<in> set PAGE_SIZES"
  shows "list_state_of defaults ds (setPageSize per ps) = (list_state_of defaults ds ps)\<lparr>ls_pageSize := per, ls_page := Fin 1\<rparr>"
proof -
  have "read_size (number_param (Some (nat_text per))) = per" "read_size (number_param None) = 25"
    using assms(2) by (auto simp: read_size_def number_param_def PAGE_SIZES_def)
  then show ?thesis
    using q_names [OF assms(1)] by (auto simp: list_state_of_def setPageSize_def q_get_write stored_param_def PAGE_SIZES_def)
qed

lemma clearAll_get:
  assumes "names_of_list defaults"
  shows "q_get (clearAll defaults ps) k = (if k = ''q'' \<or> k = ''page'' \<or> k \<in> set (map fst defaults) then None else q_get ps k)"
proof -
  let ?patch = "(''q'', None) # map (\<lambda>(k, d). (k, None)) defaults"
  have f: "map fst ?patch = ''q'' # map fst defaults" by (simp add: split_def)
  have "''q'' \<notin> set (map fst defaults)" "distinct (map fst defaults)" using assms unfolding names_of_list_def by blast+
  then have "distinct (map fst ?patch)" unfolding f by simp
  moreover have "map_of (map (\<lambda>(k, d). (k, None :: string option)) defaults) k = (if k \<in> set (map fst defaults) then Some None else None)"
    by (induction defaults) auto
  ultimately show ?thesis unfolding clearAll_def by (subst q_get_write) (auto simp: stored_param_def split: option.split)
qed

lemma clearAll_state:
  assumes "names_of_list defaults"
  shows "list_state_of defaults ds (clearAll defaults ps) =
    (list_state_of defaults ds ps)\<lparr>ls_q := [], ls_filters := defaults, ls_page := Fin 1\<rparr>"
proof -
  have "map (\<lambda>(k, d). (k, case q_get (clearAll defaults ps) k of Some v \<Rightarrow> v | None \<Rightarrow> d)) defaults = defaults"
    by (rule map_idI) (force simp: clearAll_get [OF assms] split: option.split)
  moreover have "''sort'' \<notin> set (map fst defaults)" "''size'' \<notin> set (map fst defaults)"
    using assms unfolding names_of_list_def by blast+
  ultimately show ?thesis by (simp add: list_state_of_def clearAll_get [OF assms])
qed

text \<open>C21: The address of a list page holds its state: a search, a filter, a sort, a page or a page
  size set on the page is exactly what is read back from the URL, nothing else changes but the
  page, which returns to 1 unless only sort or page were set; clearing leaves no filter on.\<close>

theorem url_implements_list_state:
  assumes "names_of_list defaults" "(key, d) \<in> set defaults" "v \<noteq> [] \<or> d = []" "sort_key col" "1 \<le> page" "per \<in> set PAGE_SIZES"
  shows "let state = list_state_of defaults ds; s = state ps in
    state (setQuery q ps) = s\<lparr>ls_q := q, ls_page := Fin 1\<rparr> \<and>
    state (setFilter defaults key v ps) = s\<lparr>ls_filters := with_filter key v (ls_filters s), ls_page := Fin 1\<rparr> \<and>
    state (toggleSort defaults ds col ps) = s\<lparr>ls_sort := Some (col, next_dir (ls_sort s) col)\<rparr> \<and>
    state (setPage page ps) = s\<lparr>ls_page := Fin (of_nat page)\<rparr> \<and>
    state (setPageSize per ps) = s\<lparr>ls_pageSize := per, ls_page := Fin 1\<rparr> \<and>
    state (clearAll defaults ps) = s\<lparr>ls_q := [], ls_filters := defaults, ls_page := Fin 1\<rparr> \<and>
    \<not> isFiltered defaults (state (clearAll defaults ps))"
proof -
  have "\<not> isFiltered defaults (list_state_of defaults ds (clearAll defaults ps))"
    using assms(1) by (auto simp: clearAll_state [OF assms(1)] isFiltered_def list_ex_iff names_of_list_def)
  then show ?thesis
    using setQuery_state [OF assms(1)] setFilter_state [OF assms(1,2,3)] toggleSort_state [OF assms(1,4)]
      setPage_state [OF assms(1,5)] setPageSize_state [OF assms(1,6)] clearAll_state [OF assms(1)]
    by (simp only: Let_def simp_thms)
qed

lemma url_implements_list_state_witness:
  "list_state_of [(''status'', ''all'')] (Some (''name'', Asc))
     (setFilter [(''status'', ''all'')] ''status'' ''offline'' [(''page'', ''3''), (''q'', ''bay'')])
   = \<lparr>ls_q = ''bay'', ls_filters = [(''status'', ''offline'')], ls_sort = Some (''name'', Asc), ls_page = Fin 1, ls_pageSize = 25\<rparr>"
proof -
  have "names_of_list [(''status'', ''all'')]" by (simp add: names_of_list_def)
  moreover have "sort_key ''name''" by (simp add: sort_key_def)
  moreover have "25 \<in> set PAGE_SIZES" by (simp add: PAGE_SIZES_def)
  ultimately show ?thesis
    using url_implements_list_state [of "[(''status'', ''all'')]" "''status''" "''all''" "''offline''" "''name''" 1 25
        "Some (''name'', Asc)" "[(''page'', ''3''), (''q'', ''bay'')]"]
    by (simp add: Let_def list_state_of_def q_get_def with_filter_def read_sort_def read_size_def number_param_def PAGE_SIZES_def)
qed

text \<open>A filter whose default is not empty cannot be set to the empty value: the URL drops it.\<close>

lemma empty_filter_lost:
  "ls_filters (list_state_of [(''zone'', ''all'')] ds (setFilter [(''zone'', ''all'')] ''zone'' [] [])) = [(''zone'', ''all'')]"
  by (simp add: list_state_of_def setFilter_def filter_patch_def write_params_def write_one_def q_delete_def q_get_def)

section \<open>Sorting\<close>

text \<open>Insertion with a comparison that is a total preorder on the rows.\<close>

definition preorder_on_rows :: "('a \<Rightarrow> 'a \<Rightarrow> rat) \<Rightarrow> 'a set \<Rightarrow> bool" where
  "preorder_on_rows cmp A \<longleftrightarrow>
     (\<forall>x\<in>A. \<forall>y\<in>A. (0 < cmp x y \<longrightarrow> cmp y x \<le> 0) \<and> (cmp x y = 0 \<longrightarrow> cmp y x = 0)) \<and>
     (\<forall>x\<in>A. \<forall>y\<in>A. \<forall>z\<in>A. cmp x y \<le> 0 \<longrightarrow> cmp y z \<le> 0 \<longrightarrow> cmp x z \<le> 0)"

lemma preorder_trans:
  "preorder_on_rows cmp A \<Longrightarrow> cmp x y \<le> 0 \<Longrightarrow> cmp y z \<le> 0 \<Longrightarrow> x \<in> A \<Longrightarrow> y \<in> A \<Longrightarrow> z \<in> A \<Longrightarrow> cmp x z \<le> 0"
  unfolding preorder_on_rows_def by blast

lemma preorder_flip: "preorder_on_rows cmp A \<Longrightarrow> 0 < cmp x y \<Longrightarrow> x \<in> A \<Longrightarrow> y \<in> A \<Longrightarrow> cmp y x \<le> 0"
  unfolding preorder_on_rows_def by blast

lemma preorder_sym: "preorder_on_rows cmp A \<Longrightarrow> cmp x y = 0 \<Longrightarrow> x \<in> A \<Longrightarrow> y \<in> A \<Longrightarrow> cmp y x = 0"
  unfolding preorder_on_rows_def by blast

lemma preorder_subset: "preorder_on_rows cmp A \<Longrightarrow> B \<subseteq> A \<Longrightarrow> preorder_on_rows cmp B"
  unfolding preorder_on_rows_def by (meson subsetD)

lemma mset_insert_sorted [simp]: "mset (insert_sorted cmp x ys) = add_mset x (mset ys)"
  by (induction ys) auto

lemma set_insert_sorted [simp]: "set (insert_sorted cmp x ys) = insert x (set ys)"
  by (induction ys) auto

lemma sorted_insert_sorted:
  assumes "preorder_on_rows cmp (insert x (set ys))" "sorted_wrt (\<lambda>a b. cmp a b \<le> 0) ys"
  shows "sorted_wrt (\<lambda>a b. cmp a b \<le> 0) (insert_sorted cmp x ys)"
  using assms
proof (induction ys)
  case (Cons y ys)
  have p: "preorder_on_rows cmp (insert x (set ys))" using Cons.prems(1) by (rule preorder_subset) auto
  show ?case
  proof (cases "cmp x y \<le> 0")
    case True
    have "cmp x z \<le> 0" if "z \<in> set ys" for z
      by (rule preorder_trans [OF Cons.prems(1) True]) (use Cons.prems(2) that in auto)
    then show ?thesis using Cons.prems(2) True by simp
  next
    case False
    have "cmp y x \<le> 0" by (rule preorder_flip [OF Cons.prems(1)]) (use False in auto)
    then show ?thesis using False Cons.IH [OF p] Cons.prems(2) by simp
  qed
qed simp

lemma filter_insert_sorted:
  assumes "preorder_on_rows cmp (insert a (insert x (set ys)))"
  shows "filter (\<lambda>b. cmp a b = 0) (insert_sorted cmp x ys) = filter (\<lambda>b. cmp a b = 0) (x # ys)"
  using assms
proof (induction ys)
  case (Cons y ys)
  have p: "preorder_on_rows cmp (insert a (insert x (set ys)))" using Cons.prems by (rule preorder_subset) auto
  have "\<not> (cmp a x = 0 \<and> cmp a y = 0)" if "0 < cmp x y"
  proof
    assume eq: "cmp a x = 0 \<and> cmp a y = 0"
    have "cmp x a = 0" by (rule preorder_sym [OF Cons.prems]) (use eq in auto)
    then have "cmp x y \<le> 0" by (intro preorder_trans [OF Cons.prems, of x a y]) (use eq in auto)
    with that show False by simp
  qed
  then show ?case using Cons.IH [OF p] by (auto simp: not_le)
qed simp

lemma js_sort_facts:
  assumes "preorder_on_rows cmp (set xs)"
  shows "mset (js_sort cmp xs) = mset xs" "sorted_wrt (\<lambda>a b. cmp a b \<le> 0) (js_sort cmp xs)"
    "a \<in> set xs \<Longrightarrow> filter (\<lambda>b. cmp a b = 0) (js_sort cmp xs) = filter (\<lambda>b. cmp a b = 0) xs"
proof -
  have "mset (js_sort cmp xs) = mset xs \<and> sorted_wrt (\<lambda>a b. cmp a b \<le> 0) (js_sort cmp xs) \<and>
      (\<forall>a\<in>A. filter (\<lambda>b. cmp a b = 0) (js_sort cmp xs) = filter (\<lambda>b. cmp a b = 0) xs)"
    if "preorder_on_rows cmp A" "set xs \<subseteq> A" for A
    using that(2)
  proof (induction xs)
    case (Cons x xs)
    have ih: "mset (js_sort cmp xs) = mset xs" "sorted_wrt (\<lambda>a b. cmp a b \<le> 0) (js_sort cmp xs)"
      "\<And>a. a \<in> A \<Longrightarrow> filter (\<lambda>b. cmp a b = 0) (js_sort cmp xs) = filter (\<lambda>b. cmp a b = 0) xs"
      using Cons by auto
    have s: "set (js_sort cmp xs) = set xs" using ih(1) by (metis set_mset_mset)
    have step: "js_sort cmp (x # xs) = insert_sorted cmp x (js_sort cmp xs)" by (simp add: js_sort_def)
    have "filter (\<lambda>b. cmp a b = 0) (js_sort cmp (x # xs)) = filter (\<lambda>b. cmp a b = 0) (x # xs)" if "a \<in> A" for a
    proof -
      have "preorder_on_rows cmp (insert a (insert x (set (js_sort cmp xs))))"
        by (rule preorder_subset [OF \<open>preorder_on_rows cmp A\<close>]) (use that Cons.prems in \<open>auto simp: s\<close>)
      from filter_insert_sorted [OF this] show ?thesis unfolding step using ih(3) [OF that] by simp
    qed
    moreover have "preorder_on_rows cmp (insert x (set (js_sort cmp xs)))"
      by (rule preorder_subset [OF that(1)]) (use Cons.prems in \<open>auto simp: s\<close>)
    from sorted_insert_sorted [OF this ih(2)] have "sorted_wrt (\<lambda>a b. cmp a b \<le> 0) (js_sort cmp (x # xs))" by (simp add: step)
    ultimately show ?case using ih(1) by (simp add: step)
  qed (simp add: js_sort_def)
  from this [OF assms subset_refl]
  show "mset (js_sort cmp xs) = mset xs" "sorted_wrt (\<lambda>a b. cmp a b \<le> 0) (js_sort cmp xs)"
    "a \<in> set xs \<Longrightarrow> filter (\<lambda>b. cmp a b = 0) (js_sort cmp xs) = filter (\<lambda>b. cmp a b = 0) xs" by blast+
qed

text \<open>\<open>localeCompare\<close> as a total preorder on strings; a column holds numbers or strings.\<close>

definition collation :: "(string \<Rightarrow> string \<Rightarrow> rat) \<Rightarrow> bool" where
  "collation collate \<longleftrightarrow>
     (\<forall>a b. collate b a = - collate a b) \<and> (\<forall>a b c. collate a b \<le> 0 \<longrightarrow> collate b c \<le> 0 \<longrightarrow> collate a c \<le> 0)"

definition same_kind :: "sort_value option list \<Rightarrow> bool" where
  "same_kind vs \<longleftrightarrow>
     list_all (\<lambda>v. case v of Some (Sort_str s) \<Rightarrow> False | _ \<Rightarrow> True) vs \<or>
     list_all (\<lambda>v. case v of Some (Sort_num n) \<Rightarrow> False | _ \<Rightarrow> True) vs"

abbreviation number_cell :: "sort_value option \<Rightarrow> bool" where
  "number_cell v \<equiv> v = None \<or> (\<exists>n. v = Some (Sort_num n))"

abbreviation text_cell :: "sort_value option \<Rightarrow> bool" where
  "text_cell v \<equiv> v = None \<or> (\<exists>t. v = Some (Sort_str t))"

lemma compare_numbers:
  "number_cell a \<Longrightarrow> number_cell b \<Longrightarrow> compare_values collate dir b a = - compare_values collate dir a b"
  "number_cell a \<Longrightarrow> number_cell b \<Longrightarrow> number_cell c \<Longrightarrow> compare_values collate dir a b \<le> 0 \<Longrightarrow>
   compare_values collate dir b c \<le> 0 \<Longrightarrow> compare_values collate dir a c \<le> 0"
  by (elim disjE exE; cases dir; simp add: compare_values_def sort_mul_def)+

lemma compare_texts:
  assumes "collation collate"
  shows "text_cell a \<Longrightarrow> text_cell b \<Longrightarrow> compare_values collate dir b a = - compare_values collate dir a b"
    "text_cell a \<Longrightarrow> text_cell b \<Longrightarrow> text_cell c \<Longrightarrow> compare_values collate dir a b \<le> 0 \<Longrightarrow>
     compare_values collate dir b c \<le> 0 \<Longrightarrow> compare_values collate dir a c \<le> 0"
proof -
  have flip: "collate t s = - collate s t" for s t using assms unfolding collation_def by blast
  show "text_cell a \<Longrightarrow> text_cell b \<Longrightarrow> compare_values collate dir b a = - compare_values collate dir a b"
    by (elim disjE exE; cases dir; simp add: compare_values_def sort_mul_def; metis flip minus_minus)
  have up: "collate s t \<le> 0 \<Longrightarrow> collate t u \<le> 0 \<Longrightarrow> collate s u \<le> 0" for s t u
    using assms unfolding collation_def by blast
  have down: "0 \<le> collate s t \<Longrightarrow> 0 \<le> collate t u \<Longrightarrow> 0 \<le> collate s u" for s t u
    using up [of u t s] flip [of s t] flip [of t u] flip [of s u] by simp
  show "text_cell a \<Longrightarrow> text_cell b \<Longrightarrow> text_cell c \<Longrightarrow> compare_values collate dir a b \<le> 0 \<Longrightarrow>
     compare_values collate dir b c \<le> 0 \<Longrightarrow> compare_values collate dir a c \<le> 0"
    by (elim disjE exE; cases dir; simp add: compare_values_def sort_mul_def) (metis up down)+
qed

lemma cell_kinds:
  "(case v of Some (Sort_str s) \<Rightarrow> False | _ \<Rightarrow> True) \<longleftrightarrow> number_cell v"
  "(case v of Some (Sort_num n) \<Rightarrow> False | _ \<Rightarrow> True) \<longleftrightarrow> text_cell v"
  by (cases v; auto split: sort_value.split)+

lemma preorder_onI:
  assumes "\<And>x y. x \<in> A \<Longrightarrow> y \<in> A \<Longrightarrow> cmp y x = - cmp x y"
    "\<And>x y z. x \<in> A \<Longrightarrow> y \<in> A \<Longrightarrow> z \<in> A \<Longrightarrow> cmp x y \<le> 0 \<Longrightarrow> cmp y z \<le> 0 \<Longrightarrow> cmp x z \<le> 0"
  shows "preorder_on_rows cmp A"
  unfolding preorder_on_rows_def
proof (intro conjI ballI impI)
  fix x y assume "x \<in> A" "y \<in> A"
  note flip = assms(1) [OF this]
  show "0 < cmp x y \<Longrightarrow> cmp y x \<le> 0" "cmp x y = 0 \<Longrightarrow> cmp y x = 0" by (simp_all add: flip)
qed (rule assms(2))

lemma compare_preorder:
  assumes "collation collate" "same_kind (map f xs)"
  shows "preorder_on_rows (\<lambda>a b. compare_values collate dir (f a) (f b)) (set xs)"
proof -
  consider "\<And>x. x \<in> set xs \<Longrightarrow> number_cell (f x)" | "\<And>x. x \<in> set xs \<Longrightarrow> text_cell (f x)"
    using assms(2) unfolding same_kind_def cell_kinds list_all_iff by auto
  then show ?thesis
  proof cases
    case 1
    show ?thesis
    proof (rule preorder_onI)
      fix x y assume "x \<in> set xs" "y \<in> set xs"
      then show "compare_values collate dir (f y) (f x) = - compare_values collate dir (f x) (f y)"
        by (intro compare_numbers(1) 1)
    next
      fix x y z assume a: "x \<in> set xs" "y \<in> set xs" "z \<in> set xs"
        "compare_values collate dir (f x) (f y) \<le> 0" "compare_values collate dir (f y) (f z) \<le> 0"
      show "compare_values collate dir (f x) (f z) \<le> 0"
        by (rule compare_numbers(2) [OF 1 [OF a(1)] 1 [OF a(2)] 1 [OF a(3)] a(4,5)])
    qed
  next
    case 2
    show ?thesis
    proof (rule preorder_onI)
      fix x y assume "x \<in> set xs" "y \<in> set xs"
      then show "compare_values collate dir (f y) (f x) = - compare_values collate dir (f x) (f y)"
        by (intro compare_texts(1) [OF assms(1)] 2)
    next
      fix x y z assume a: "x \<in> set xs" "y \<in> set xs" "z \<in> set xs"
        "compare_values collate dir (f x) (f y) \<le> 0" "compare_values collate dir (f y) (f z) \<le> 0"
      show "compare_values collate dir (f x) (f z) \<le> 0"
        by (rule compare_texts(2) [OF assms(1) 2 [OF a(1)] 2 [OF a(2)] 2 [OF a(3)] a(4,5)])
    qed
  qed
qed

text \<open>
  The order of two cells, stated without the code's comparator: a cell without a value comes after every
  other, numbers go up or down by size and texts by the collation.
\<close>

fun value_before :: "(string \<Rightarrow> string \<Rightarrow> rat) \<Rightarrow> sort_value \<Rightarrow> sort_value \<Rightarrow> bool" where
  "value_before collate (Sort_num p) (Sort_num q) \<longleftrightarrow> p \<le> q"
| "value_before collate a b \<longleftrightarrow> collate (sort_text a) (sort_text b) \<le> 0"

definition cell_before :: "(string \<Rightarrow> string \<Rightarrow> rat) \<Rightarrow> sort_dir \<Rightarrow> sort_value option \<Rightarrow> sort_value option \<Rightarrow> bool" where
  "cell_before collate dir va vb \<longleftrightarrow>
     (case va of None \<Rightarrow> vb = None
      | Some a \<Rightarrow> (case vb of None \<Rightarrow> True
          | Some b \<Rightarrow> (case dir of Asc \<Rightarrow> value_before collate a b | Desc \<Rightarrow> value_before collate b a)))"

fun value_tie :: "(string \<Rightarrow> string \<Rightarrow> rat) \<Rightarrow> sort_value \<Rightarrow> sort_value \<Rightarrow> bool" where
  "value_tie collate (Sort_num p) (Sort_num q) \<longleftrightarrow> p = q"
| "value_tie collate a b \<longleftrightarrow> collate (sort_text a) (sort_text b) = 0"

definition cell_tie :: "(string \<Rightarrow> string \<Rightarrow> rat) \<Rightarrow> sort_value option \<Rightarrow> sort_value option \<Rightarrow> bool" where
  "cell_tie collate va vb \<longleftrightarrow>
     (case va of None \<Rightarrow> vb = None | Some a \<Rightarrow> (case vb of None \<Rightarrow> False | Some b \<Rightarrow> value_tie collate a b))"

lemma compare_before:
  assumes "collation collate"
  shows "compare_values collate dir va vb \<le> 0 \<longleftrightarrow> cell_before collate dir va vb"
proof -
  have flip: "collate t s \<le> 0 \<longleftrightarrow> 0 \<le> collate s t" for s t
    using assms unfolding collation_def by (metis neg_0_le_iff_le minus_minus)
  have one: "compare_values collate dir (Some a) (Some b) \<le> 0 \<longleftrightarrow>
      (case dir of Asc \<Rightarrow> value_before collate a b | Desc \<Rightarrow> value_before collate b a)" for a b
    by (cases a; cases b; cases dir) (simp_all add: compare_values_def sort_mul_def flip)
  show ?thesis
  proof (cases va)
    case None
    then show ?thesis by (cases vb) (simp_all add: compare_values_def cell_before_def)
  next
    case (Some a)
    then show ?thesis using one by (cases vb) (simp_all add: cell_before_def, simp add: compare_values_def split: sort_value.split)
  qed
qed

lemma compare_tie: "compare_values collate dir va vb = 0 \<longleftrightarrow> cell_tie collate va vb"
proof -
  have one: "compare_values collate dir (Some a) (Some b) = 0 \<longleftrightarrow> value_tie collate a b" for a b
    by (cases a; cases b; cases dir) (auto simp: compare_values_def sort_mul_def)
  show ?thesis
  proof (cases va)
    case None
    then show ?thesis by (cases vb) (simp_all add: compare_values_def cell_tie_def)
  next
    case (Some a)
    then show ?thesis using one by (cases vb) (simp_all add: cell_tie_def, simp add: compare_values_def split: sort_value.split)
  qed
qed

text \<open>C31: A sorted list has the same rows as before, going up by the column (numbers by size, texts
  by the collation) or down when the direction is, ties in their old order and the rows without a
  value last in both directions; without a sort the rows stay as they are.\<close>

theorem sortRows_correct:
  assumes "collation collate" "same_kind (map (\<lambda>r. vals r key) rows)" "r \<in> set rows"
  shows "sortRows collate rows None vals = rows \<and>
    (let out = sortRows collate rows (Some (key, dir)) vals in
     mset out = mset rows \<and> sorted_wrt (\<lambda>a b. cell_before collate dir (vals a key) (vals b key)) out \<and>
     filter (\<lambda>b. cell_tie collate (vals r key) (vals b key)) out = filter (\<lambda>b. cell_tie collate (vals r key) (vals b key)) rows)"
proof -
  note f = js_sort_facts [OF compare_preorder [OF assms(1,2), of dir]]
  show ?thesis
    using f(1,2) f(3) [OF assms(3)] by (simp add: sortRows_def Let_def compare_before [OF assms(1)] compare_tie)
qed

text \<open>A collation by length, two rows without a value between rows with one.\<close>

lemma sortRows_correct_witness:
  "sortRows (\<lambda>a b. of_int (int (length a) - int (length b))) [(1 :: nat, None), (2, Some (Sort_num 5)), (3, None), (4, Some (Sort_num 7))]
      (Some (''v'', Desc)) (\<lambda>r k. snd r)
    = [(4, Some (Sort_num 7)), (2, Some (Sort_num 5)), (1, None), (3, None)] \<and>
   mset (sortRows (\<lambda>a b. of_int (int (length a) - int (length b))) [(1 :: nat, None), (2, Some (Sort_num 5)), (3, None), (4, Some (Sort_num 7))]
      (Some (''v'', Desc)) (\<lambda>r k. snd r)) = mset [(1 :: nat, None), (2, Some (Sort_num 5)), (3, None), (4, Some (Sort_num 7))]"
proof -
  have "collation (\<lambda>a b. of_int (int (length a) - int (length b)))"
    by (simp add: collation_def)
  moreover have "same_kind (map (\<lambda>r. snd r) [(1 :: nat, None), (2, Some (Sort_num 5)), (3, None), (4, Some (Sort_num 7))])"
    by (simp add: same_kind_def)
  ultimately show ?thesis
    using sortRows_correct [of "\<lambda>a b. of_int (int (length a) - int (length b))" "\<lambda>r k. snd r" "''v''"
        "[(1 :: nat, None), (2, Some (Sort_num 5)), (3, None), (4, Some (Sort_num 7))]" "(1, None)" Desc]
    by (simp add: Let_def sortRows_def js_sort_def compare_values_def sort_mul_def)
qed

section \<open>Pages\<close>

lemma page_count_pos: "1 \<le> page_count n per"
  by (simp add: page_count_def)

lemma page_count_covers: "0 < per \<Longrightarrow> n \<le> page_count n per * per"
proof -
  assume "0 < per"
  then have "of_nat n = (of_nat n / of_nat per) * (of_nat per :: rat)" by simp
  also have "\<dots> \<le> of_int \<lceil>(of_nat n / of_nat per) :: rat\<rceil> * (of_nat per :: rat)" by (intro mult_right_mono) simp_all
  also have "of_int \<lceil>(of_nat n / of_nat per) :: rat\<rceil> = (of_nat (nat \<lceil>(of_nat n / of_nat per) :: rat\<rceil>) :: rat)"
    by (simp add: ceiling_mono)
  finally have "(of_nat n :: rat) \<le> of_nat (nat \<lceil>(of_nat n / of_nat per) :: rat\<rceil> * per)" by simp
  then have "n \<le> nat \<lceil>(of_nat n / of_nat per) :: rat\<rceil> * per" by (simp only: of_nat_le_iff)
  also have "\<dots> \<le> page_count n per * per" by (simp add: page_count_def)
  finally show ?thesis .
qed

lemma page_rows_nat: "1 \<le> p \<Longrightarrow> page_rows rows (of_nat p) per = take per (drop ((p - 1) * per) rows)"
proof -
  assume p: "1 \<le> p"
  have "(of_nat p - 1) * of_nat per = (of_nat ((p - 1) * per) :: rat)" using p by (simp add: of_nat_diff)
  moreover have "of_nat p * of_nat per = (of_nat (p * per) :: rat)" by simp
  ultimately have "page_rows rows (of_nat p) per = take (p * per - (p - 1) * per) (drop ((p - 1) * per) rows)"
    unfolding page_rows_def slice_def by (simp only: floor_of_nat nat_int)
  moreover have "p * per - (p - 1) * per = per" using p by (simp add: diff_mult_distrib [symmetric])
  ultimately show ?thesis by simp
qed

lemma pages_concat: "concat (map (\<lambda>p. take per (drop (p * per) rows)) [0..<k]) = take (k * per) rows"
proof (induction k)
  case (Suc k)
  have "take (k * per) rows @ take per (drop (k * per) rows) = take (k * per + per) rows" by (simp add: take_add)
  then show ?case using Suc by (simp add: add.commute)
qed simp

text \<open>The pages of a list hold every row exactly once, in order: whatever page the URL asks for,
  a page inside the list is shown with at most the page size of rows, and the pages from the
  first to the last are the whole list.\<close>

theorem pages_cover:
  assumes "0 < per"
  shows "(case paginate rows page per of (shown, pageCount, p) \<Rightarrow> length shown \<le> per \<and> 1 \<le> p \<and> p \<le> of_nat pageCount) \<and>
    concat (map (\<lambda>p. fst (paginate rows (Fin (of_nat p)) per)) [1..<Suc (fst (snd (paginate rows page per)))]) = rows"
proof
  let ?k = "page_count (length rows) per"
  have k: "(1 :: rat) \<le> of_nat ?k" using page_count_pos by simp
  then have "1 \<le> clamp_page page ?k \<and> clamp_page page ?k \<le> of_nat ?k"
    by (cases page) (simp_all add: clamp_page_def)
  moreover have "length (page_rows rows p per) \<le> per" for p
  proof -
    have "p * of_nat per = (p - 1) * of_nat per + of_int (int per)" by (simp add: algebra_simps)
    then have f: "\<lfloor>p * of_nat per\<rfloor> = \<lfloor>(p - 1) * of_nat per\<rfloor> + int per" by (simp only: floor_add_int)
    have "nat \<lfloor>p * of_nat per\<rfloor> - nat \<lfloor>(p - 1) * of_nat per\<rfloor> \<le> per" unfolding f by simp
    then show ?thesis by (simp add: page_rows_def slice_def)
  qed
  ultimately show "case paginate rows page per of (shown, pageCount, p) \<Rightarrow> length shown \<le> per \<and> 1 \<le> p \<and> p \<le> of_nat pageCount"
    by (simp add: paginate_def Let_def)
  have each: "fst (paginate rows (Fin (of_nat p)) per) = take per (drop ((p - 1) * per) rows)" if "p \<in> set [1..<Suc ?k]" for p
  proof -
    have "1 \<le> p" "p \<le> ?k" using that by auto
    then have "min (max 1 (of_nat p)) (of_nat ?k) = (of_nat p :: rat)" by simp
    then show ?thesis using page_rows_nat [OF \<open>1 \<le> p\<close>] by (simp add: paginate_def Let_def clamp_page_def)
  qed
  have "map (\<lambda>p. take per (drop ((p - 1) * per) rows)) [1..<Suc ?k] = map (\<lambda>p. take per (drop (p * per) rows)) [0..<?k]"
    unfolding One_nat_def map_Suc_upt [symmetric] map_map by (simp add: o_def)
  moreover have "take (?k * per) rows = rows" using page_count_covers [OF assms] by simp
  ultimately have "concat (map (\<lambda>p. take per (drop ((p - 1) * per) rows)) [1..<Suc ?k]) = rows" by (simp only: pages_concat)
  moreover have "fst (snd (paginate rows page per)) = ?k" by (simp add: paginate_def Let_def)
  moreover have "map (\<lambda>p. fst (paginate rows (Fin (of_nat p)) per)) [1..<Suc ?k] =
      map (\<lambda>p. take per (drop ((p - 1) * per) rows)) [1..<Suc ?k]"
    by (rule map_cong [OF refl each])
  ultimately show "concat (map (\<lambda>p. fst (paginate rows (Fin (of_nat p)) per)) [1..<Suc (fst (snd (paginate rows page per)))]) = rows"
    by (simp only:)
qed

lemma pages_cover_witness:
  "concat (map (\<lambda>p. fst (paginate [1 .. 60 :: int] (Fin (of_nat p)) 25))
      [1..<Suc (fst (snd (paginate [1 .. 60 :: int] PosInf 25)))]) = [1 .. 60]"
  using pages_cover [of 25 "[1 .. 60]" PosInf] by simp

text \<open>The pager of a server feed asks for its own page, not the clamped one: after the feed has
  shrunk it says the last page while it shows the rows of a page that is not there.\<close>

lemma shrunk_feed_empty:
  "useServerPager (\<lambda>offset limit. Some (take limit (drop offset [1 :: nat ..< 31]), 30)) \<lparr>pa_page = 3, pa_pageSize = 25\<rparr> = ([], 2, 2)"
proof -
  have "\<lceil>(30 :: rat) / 25\<rceil> = 2" by (simp add: ceiling_unique)
  then have "page_count 30 25 = 2" by (simp add: page_count_def)
  then show ?thesis by (simp add: useServerPager_def clampPage_def Let_def)
qed

section \<open>The numbered pager\<close>

text \<open>The numbered pager always offers the first page, the last, the current one and its
  neighbours; its numbers ascend, a gap always stands for at least one page, and with more than
  seven pages it has exactly seven slots, so the buttons never move.\<close>

theorem page_items_stable:
  assumes "1 \<le> page" "page \<le> pageCount"
  shows "let items = pageItems page pageCount; shown = somes items in
    length items = min 7 pageCount \<and> sorted_wrt (<) shown \<and> hd items = Some 1 \<and> last items = Some pageCount \<and>
    {1, page, pageCount} \<union> {p \<in> {page - 1, page + 1}. 1 \<le> p \<and> p \<le> pageCount} \<subseteq> set shown \<and>
    set shown \<subseteq> {1..pageCount} \<and> (list_ex (\<lambda>i. i = None) items \<longleftrightarrow> 7 < pageCount)"
proof -
  consider (few) "pageCount \<le> 7" | (start) "7 < pageCount" "page \<le> 4" | (end_) "7 < pageCount" "4 < page" "pageCount - 3 \<le> page"
    | (mid) "7 < pageCount" "4 < page" "page < pageCount - 3" by linarith
  then show ?thesis
  proof cases
    case few
    then have i: "pageItems page pageCount = map Some [1..<Suc pageCount]" by (simp add: pageItems_def page_range_def)
    have "sorted_wrt (<) [1..<Suc pageCount]" by (rule sorted_wrt_upt)
    then show ?thesis using assms few unfolding i somes_map_Some Let_def
      by (auto simp: hd_map last_map list_ex_iff simp del: upt_Suc)
  next
    case start
    then have "pageItems page pageCount = [Some 1, Some 2, Some 3, Some 4, Some 5, None, Some pageCount]"
      by (simp add: pageItems_def page_range_def upt_rec)
    then show ?thesis using assms start by (auto simp: Let_def)
  next
    case end_
    obtain n where n: "pageCount = n + 4" using end_ that [of "pageCount - 4"] by simp
    have "page \<in> {n + 1, n + 2, n + 3, n + 4}" using assms end_ n by auto
    moreover have "pageItems page pageCount = [Some 1, None, Some n, Some (n + 1), Some (n + 2), Some (n + 3), Some (n + 4)]"
      using end_ by (simp add: pageItems_def page_range_def n upt_rec)
    ultimately show ?thesis using end_ n by (elim insertE) (simp_all add: Let_def, auto)
  next
    case mid
    then have "pageItems page pageCount = [Some 1, None, Some (page - 1), Some page, Some (page + 1), None, Some pageCount]"
      by (simp add: pageItems_def)
    then show ?thesis using assms mid by (auto simp: Let_def)
  qed
qed

lemma page_items_stable_witness:
  "pageItems 5 9 = [Some 1, None, Some 4, Some 5, Some 6, None, Some 9] \<and> length (pageItems 5 9) = 7"
  using page_items_stable [of 5 9] by (simp add: pageItems_def Let_def)

section \<open>The peek and the selection\<close>

text \<open>Walking the peek visits the shown rows one by one and stops at the ends.\<close>

lemma peek_next_walks:
  assumes "q_get ps ''edit'' = None" "distinct keys" "[] \<notin> set keys" "Suc i < length keys" "peek_index keys ps = Some i"
  shows "case peek_next keys ps of None \<Rightarrow> False | Some ps' \<Rightarrow> peek_index keys ps' = Some (Suc i)"
proof -
  have ne: "keys ! Suc i \<noteq> []" using assms(3,4) nth_mem by metis
  have "find_index (\<lambda>k. k = keys ! Suc i) keys = Some (Suc i)"
  proof (cases "find_index (\<lambda>k. k = keys ! Suc i) keys")
    case None
    then show ?thesis using assms(4) by (auto simp: find_index_None)
  next
    case (Some j)
    from find_index_Some [OF this] have "j < length keys" "keys ! j = keys ! Suc i" by simp_all
    then show ?thesis using Some assms(2,4) by (simp add: nth_eq_iff_index_eq)
  qed
  then show ?thesis using assms ne by (simp add: peek_next_def peek_move_def setPeek_def peek_index_def peek_id_def)
qed

lemma toggleAll_shown: "toggleAll keys sel = (if all_selected keys sel then sel - set keys else sel \<union> set keys)"
proof -
  have "foldl (\<lambda>s k. s - {k}) s ks = s - set ks" "foldl (\<lambda>s k. insert k s) s ks = s \<union> set ks" for ks :: "string list" and s
    by (induction ks arbitrary: s) auto
  then show ?thesis by (simp add: toggleAll_def)
qed

text \<open>Ticking the header twice selects nothing of what is shown, and never touches the rows that a
  filter hides.\<close>

lemma toggleAll_twice:
  "keys \<noteq> [] \<Longrightarrow> \<not> all_selected keys sel \<Longrightarrow> toggleAll keys (toggleAll keys sel) = sel - set keys"
  by (auto simp: toggleAll_shown all_selected_def list_all_iff)

end
