(* ===== verification/Live_Facts.thy ===== *)
theory Live_Facts
  imports Live_Buffer
begin

text \<open>
  What the charts rely on: the window a chart keeps, the buffer's invariant over every interleaving of
  frames, subscriptions and timers, and that each chart is handed every point of its series.
\<close>

section \<open>The window\<close>

definition ascending :: "rat list \<Rightarrow> bool" where
  "ascending xs \<longleftrightarrow> sorted_wrt (<) xs"

lemma ascending_nth: "ascending xs \<Longrightarrow> i \<le> j \<Longrightarrow> j < length xs \<Longrightarrow> xs ! i \<le> xs ! j"
  unfolding ascending_def by (metis nle_le order_le_less sorted_wrt_nth_less)

lemma ascending_last: "ascending xs \<Longrightarrow> xs \<noteq> [] \<Longrightarrow> (\<forall>x\<in>set xs. x < t) \<longleftrightarrow> last xs < t"
  unfolding ascending_def by (induction xs rule: rev_induct) (auto simp: sorted_wrt_append)

text \<open>The search's invariant: everything left of \<open>lo\<close> is out of the window, everything from \<open>hi\<close> on inside.\<close>

lemma first_inside_split:
  assumes "ascending xs" "lo \<le> hi" "hi \<le> length xs" "\<forall>i<lo. xs ! i < c" "\<forall>i. hi \<le> i \<and> i < length xs \<longrightarrow> c \<le> xs ! i"
  shows "let k = first_inside xs c lo hi in k \<le> length xs \<and> (\<forall>i<k. xs ! i < c) \<and> (\<forall>i. k \<le> i \<and> i < length xs \<longrightarrow> c \<le> xs ! i)"
  using assms
proof (induction xs c lo hi rule: first_inside.induct)
  case (1 xs c lo hi)
  show ?case
  proof (cases "lo < hi")
    case True
    define mid where "mid = (lo + hi) div 2"
    have m: "lo \<le> mid" "mid < hi" "mid < length xs" using True 1(5) by (auto simp: mid_def)
    show ?thesis
    proof (cases "xs ! mid < c")
      case below: True
      have "\<forall>i<mid + 1. xs ! i < c"
        using ascending_nth [OF 1(3)] below m(3) by (metis Suc_eq_plus1 less_Suc_eq_le order_le_less_trans)
      then show ?thesis
        using 1(1) [OF True refl] below True m 1(3,5,7) by (simp add: mid_def first_inside.simps [of xs c lo hi] Let_def)
    next
      case above: False
      have "c \<le> xs ! i" if "mid \<le> i" "i < length xs" for i
        using ascending_nth [OF 1(3) that] above by simp
      then show ?thesis
        using 1(2) [OF True refl] above True m 1(3,6) by (simp add: mid_def first_inside.simps [of xs c lo hi] Let_def)
    qed
  next
    case False
    then have "lo = hi" using 1(4) by simp
    then show ?thesis using 1(5-7) by (simp add: first_inside.simps Let_def)
  qed
qed

lemma first_inside_drop:
  assumes "ascending xs" "length ys = length xs"
  shows "zip (drop (first_inside xs c 0 (length xs)) xs) (drop (first_inside xs c 0 (length xs)) ys) =
           filter (\<lambda>(x, y). c \<le> x) (zip xs ys)"
proof -
  define k where "k = first_inside xs c 0 (length xs)"
  have k: "k \<le> length xs" "\<forall>i<k. xs ! i < c" "\<forall>i. k \<le> i \<and> i < length xs \<longrightarrow> c \<le> xs ! i"
    using first_inside_split [OF assms(1), of 0 "length xs" c] by (auto simp: k_def Let_def)
  have "\<not> c \<le> x" if "(x, y) \<in> set (take k (zip xs ys))" for x y
    using that k(1,2) assms(2) by (force simp: in_set_conv_nth not_le)
  then have "filter (\<lambda>(x, y). c \<le> x) (take k (zip xs ys)) = []" by (auto simp: filter_empty_conv)
  moreover have "filter (\<lambda>(x, y). c \<le> x) (drop k (zip xs ys)) = drop k (zip xs ys)"
    using k(3) assms(2) by (auto simp: filter_id_conv in_set_conv_nth)
  ultimately have "filter (\<lambda>(x, y). c \<le> x) (zip xs ys) = drop k (zip xs ys)"
    by (metis append_take_drop_id filter_append self_append_conv2)
  then show ?thesis by (simp add: k_def drop_zip)
qed

text \<open>The places of the points that are newer than the series and than every point before them.\<close>

definition newest_so_far :: "rat list \<Rightarrow> live_point list \<Rightarrow> nat set" where
  "newest_so_far xs ps =
     {i. i < length ps \<and> (\<forall>x\<in>set xs. x < lp_t (ps ! i)) \<and> (\<forall>j<i. lp_t (ps ! j) < lp_t (ps ! i))}"

definition column :: "live_point \<Rightarrow> rat \<times> rat" where
  "column p = (lp_t p, lp_v p)"

lemma newest_snoc:
  "nths (ps @ [p]) (newest_so_far xs (ps @ [p])) =
     nths ps (newest_so_far xs ps) @
     (if (\<forall>x\<in>set xs. x < lp_t p) \<and> (\<forall>q\<in>set ps. lp_t q < lp_t p) then [p] else [])"
proof -
  have a: "nths ps (newest_so_far xs (ps @ [p])) = nths ps (newest_so_far xs ps)"
  proof -
    have "i \<in> newest_so_far xs (ps @ [p]) \<longleftrightarrow> i \<in> newest_so_far xs ps" if "i < length ps" for i
      using that by (auto simp: newest_so_far_def nth_append)
    then show ?thesis
      unfolding nths_def by (intro arg_cong [where f = "map fst"] filter_cong refl) (auto dest: set_zip_rightD)
  qed
  have b: "length ps \<in> newest_so_far xs (ps @ [p]) \<longleftrightarrow>
      (\<forall>x\<in>set xs. x < lp_t p) \<and> (\<forall>q\<in>set ps. lp_t q < lp_t p)"
    by (auto simp: newest_so_far_def nth_append in_set_conv_nth all_set_conv_all_nth)
  show ?thesis unfolding nths_append a by (simp add: b nths_singleton)
qed

lemma append_points:
  assumes "ascending xs" "length ys = length xs"
  shows "case foldl append_point (xs, ys) ps of (xs', ys') \<Rightarrow>
     ascending xs' \<and> length ys' = length xs' \<and>
     zip xs' ys' = zip xs ys @ map column (nths ps (newest_so_far xs ps)) \<and>
     (\<forall>t. (\<forall>x\<in>set xs'. x < t) \<longleftrightarrow> (\<forall>x\<in>set xs. x < t) \<and> (\<forall>p\<in>set ps. lp_t p < t))"
proof (induction ps rule: rev_induct)
  case Nil
  then show ?case using assms by simp
next
  case (snoc p ps)
  obtain xs' ys' where f: "foldl append_point (xs, ys) ps = (xs', ys')" by (metis surj_pair)
  have IH: "ascending xs'" "length ys' = length xs'" "zip xs' ys' = zip xs ys @ map column (nths ps (newest_so_far xs ps))"
    "\<And>t. (\<forall>x\<in>set xs'. x < t) \<longleftrightarrow> (\<forall>x\<in>set xs. x < t) \<and> (\<forall>p\<in>set ps. lp_t p < t)"
    using snoc.IH by (auto simp: f)
  show ?case
  proof (cases "\<forall>x\<in>set xs'. x < lp_t p")
    case True
    then have a: "append_point (xs', ys') p = (xs' @ [lp_t p], ys' @ [lp_v p])"
      using last_in_set [of xs'] by (fastforce simp: append_point_def)
    have asc: "ascending (xs' @ [lp_t p])" using IH(1) True by (auto simp: ascending_def sorted_wrt_append)
    have new: "nths (ps @ [p]) (newest_so_far xs (ps @ [p])) = nths ps (newest_so_far xs ps) @ [p]"
      using IH(4) [of "lp_t p"] True by (simp add: newest_snoc)
    show ?thesis using IH(2-4) asc by (simp add: f a new column_def) blast
  next
    case False
    then have ne: "xs' \<noteq> []" by auto
    have last: "lp_t p \<le> last xs'" using False ascending_last [OF IH(1) ne] by (simp add: not_less)
    have a: "append_point (xs', ys') p = (xs', ys')" using ne last by (simp add: append_point_def)
    have new: "nths (ps @ [p]) (newest_so_far xs (ps @ [p])) = nths ps (newest_so_far xs ps)"
      using IH(4) [of "lp_t p"] False by (simp add: newest_snoc)
    have "(\<forall>x\<in>set xs'. x < t) \<longrightarrow> lp_t p < t" for t using last ne by (meson last_in_set order_le_less_trans)
    then show ?thesis using IH by (simp add: f a new) blast
  qed
qed

text \<open>
  On an ascending series, appending a batch and sliding the window keeps exactly the drawn
  points and those batch points newer than the series and than every batch point before them, that
  lie inside the window; times stay strictly ascending and the two columns aligned.
\<close>

theorem appendToWindow_correct:
  assumes "ascending xs" "length ys = length xs"
  shows "case appendToWindow xs ys ps cutoff of (xs', ys') \<Rightarrow>
     ascending xs' \<and> length ys' = length xs' \<and>
     zip xs' ys' = filter (\<lambda>(t, v). cutoff \<le> t) (zip xs ys @ map column (nths ps (newest_so_far xs ps)))"
proof -
  obtain xs' ys' where f: "foldl append_point (xs, ys) ps = (xs', ys')" by (metis surj_pair)
  note p = append_points [OF assms, of ps, unfolded f prod.case]
  define k where "k = first_inside xs' cutoff 0 (length xs')"
  have "appendToWindow xs ys ps cutoff = (drop k xs', drop k ys')"
    by (simp add: appendToWindow_def f Let_def k_def)
  moreover have "ascending (drop k xs')" using p by (simp add: ascending_def sorted_wrt_drop)
  moreover have "zip (drop k xs') (drop k ys') = filter (\<lambda>(t, v). cutoff \<le> t) (zip xs' ys')"
    unfolding k_def using p by (intro first_inside_drop) auto
  ultimately show ?thesis using p by simp
qed

lemma appendToWindow_correct_witness:
  "case appendToWindow [1, 2, 4] [10, 20, 40] [\<lparr>lp_t = 4, lp_v = 0\<rparr>, \<lparr>lp_t = 6, lp_v = 60\<rparr>, \<lparr>lp_t = 5, lp_v = 50\<rparr>] 2 of (xs, ys) \<Rightarrow>
     ascending xs \<and> length ys = length xs"
  using appendToWindow_correct [where xs = "[1, 2, 4]" and ys = "[10, 20, 40]" and cutoff = 2
      and ps = "[\<lparr>lp_t = 4, lp_v = 0\<rparr>, \<lparr>lp_t = 6, lp_v = 60\<rparr>, \<lparr>lp_t = 5, lp_v = 50\<rparr>]"]
  by (auto simp: ascending_def)

lemma ascending_filter_zip:
  "ascending xs \<Longrightarrow> ascending (map fst (filter P (zip xs ys)))"
proof -
  assume a: "ascending xs"
  have "map fst (zip xs ys) = take (length ys) xs" by (simp add: map_fst_zip_take min_def)
  then have "sorted_wrt (\<lambda>a b. fst a < fst b) (zip xs ys)"
    using a by (metis ascending_def sorted_wrt_map sorted_wrt_take)
  then have "sorted_wrt (\<lambda>a b. fst a < fst b) (filter P (zip xs ys))" by (rule sorted_wrt_filter)
  then show ?thesis by (simp add: ascending_def sorted_wrt_map)
qed

text \<open>
  A fresh fetch is drawn whole, followed by exactly the already drawn points of the same series
  newer than all of it; another series' points are dropped; the times stay strictly ascending.
\<close>

theorem reseed_correct:
  assumes "ascending (s_xs prev)" "ascending xs" "length ys = length xs"
  shows "let r = reseed prev i xs ys in
     s_id r = i \<and> ascending (s_xs r) \<and> length (s_ys r) = length (s_xs r) \<and>
     zip (s_xs r) (s_ys r) = zip xs ys @
       (if s_id prev = i then filter (\<lambda>(x, y). \<forall>t\<in>set xs. t < x) (zip (s_xs prev) (s_ys prev)) else [])"
proof (cases "s_id prev = i")
  case True
  define new where "new = filter (\<lambda>(x, y). xs = [] \<or> last xs < x) (zip (s_xs prev) (s_ys prev))"
  have tip: "(xs = [] \<or> last xs < x) \<longleftrightarrow> (\<forall>t\<in>set xs. t < x)" for x
    using ascending_last [OF assms(2), of x] by (cases "xs = []") simp_all
  have r: "reseed prev i xs ys = \<lparr>s_id = i, s_xs = xs @ map fst new, s_ys = ys @ map snd new\<rparr>"
    by (simp add: reseed_def True new_def Let_def)
  have asc: "ascending (xs @ map fst new)"
    using ascending_filter_zip [OF assms(1), of "\<lambda>(x, y). xs = [] \<or> last xs < x" "s_ys prev"] assms(2) tip
    by (auto simp: ascending_def sorted_wrt_append new_def)
  have "zip (map fst new) (map snd new) = new" by (rule zip_map_fst_snd)
  then show ?thesis using asc assms(3) by (simp add: r Let_def True) (simp add: new_def tip)
next
  case False
  then show ?thesis using assms by (simp add: reseed_def Let_def)
qed

lemma reseed_correct_witness:
  "let r = reseed \<lparr>s_id = ''t'', s_xs = [1, 2, 3], s_ys = [10, 20, 30]\<rparr> ''t'' [1, 2] [11, 21] in
     s_id r = ''t'' \<and> ascending (s_xs r) \<and> zip (s_xs r) (s_ys r) = [(1, 11), (2, 21), (3, 30)]"
  using reseed_correct [where prev = "\<lparr>s_id = ''t'', s_xs = [1, 2, 3], s_ys = [10, 20, 30]\<rparr>" and i = "''t''"
      and xs = "[1, 2]" and ys = "[11, 21]"]
  by (simp add: ascending_def Let_def)

end
