(* ===== verification/Live_Delivery.thy ===== *)
theory Live_Delivery
  imports Live_Facts
begin

text \<open>
  The buffer as a state machine: any interleaving of frames, subscriptions and timers keeps its
  bookkeeping, nothing pending is ever left without a timer, and a chart is handed every point of
  its series. The queue interface a chart relies on is a locale, interpreted on the buffer.
\<close>

section \<open>Steps\<close>

text \<open>The page is hidden or not at each step; only the runtime runs a timer, and only one it holds.\<close>

inductive lb_step :: "live_buffer \<Rightarrow> live_buffer \<Rightarrow> bool" where
  frame: "lb_step b (push hidden d m v t b)"
| subscribe: "lb_step b (fst (subscribeSeries d m l b))"
| leave: "lb_step b (unsubscribe h b)"
| went_hidden: "lb_step b (clear b)"
| handler: "lb_step b (setLatestHandler some b)"
| timer: "0 < lb_timers b \<Longrightarrow> lb_step b (fst (timer_fires hidden b))"

inductive lb_reachable :: "live_buffer \<Rightarrow> bool" where
  start: "lb_reachable new_buffer"
| step: "lb_reachable b \<Longrightarrow> lb_step b b' \<Longrightarrow> lb_reachable b'"

definition buffer_ok :: "live_buffer \<Rightarrow> bool" where
  "buffer_ok b \<longleftrightarrow>
     lb_timers b = (if lb_scheduled b then 1 else 0) \<and>
     (lb_latest b \<noteq> [] \<or> lb_series b \<noteq> [] \<longrightarrow> lb_scheduled b) \<and>
     distinct (map fst (lb_latest b)) \<and> distinct (map fst (lb_series b)) \<and> distinct (map fst (lb_listeners b)) \<and>
     fst ` set (lb_series b) \<subseteq> fst ` set (lb_listeners b)"

lemmas buffer_defs = push_def subscribeSeries_def unsubscribe_def clear_def setLatestHandler_def timer_fires_def flush_def

lemma keys_set: "fst ` set (dict_set k v d) = insert k (fst ` set d)"
  by (simp add: dom_update)

lemma keys_delete: "fst ` set (AList.delete k d) = fst ` set d - {k}"
proof -
  have "set (map fst (AList.delete k d)) = set (map fst d) - {k}" unfolding delete_keys by auto
  then show ?thesis by simp
qed

lemma lb_step_ok: "lb_step b b' \<Longrightarrow> buffer_ok b \<Longrightarrow> buffer_ok b'"
proof (induction rule: lb_step.induct)
  case (frame b hidden d m v t)
  then show ?case
    by (auto simp: buffer_ok_def push_def put_latest_def put_point_def Let_def keys_set distinct_update intro: rev_image_eqI)
next
  case (subscribe b d m l)
  then show ?case
    by (auto simp: buffer_ok_def subscribeSeries_def Let_def keys_set distinct_update split: option.splits)
next
  case (leave b h)
  then show ?case
    by (auto simp: buffer_ok_def unsubscribe_def Let_def keys_delete distinct_delete)
next
  case (timer b hidden)
  then show ?case by (auto simp: buffer_ok_def timer_fires_def flush_def clear_def Let_def)
qed (auto simp: buffer_ok_def clear_def setLatestHandler_def)

lemma lb_reachable_ok: "lb_reachable b \<Longrightarrow> buffer_ok b"
proof (induction rule: lb_reachable.induct)
  case start
  show ?case by (simp add: buffer_ok_def new_buffer_def)
next
  case (step b b')
  then show ?case by (blast intro: lb_step_ok)
qed

text \<open>
  C37: however frames, subscriptions, the page's visibility and timers interleave, at most one flush is
  scheduled, one is scheduled whenever anything is pending, and running it leaves nothing pending.
\<close>

theorem pending_is_flushed:
  assumes "lb_reachable b"
  shows "lb_timers b \<le> 1 \<and> (lb_latest b \<noteq> [] \<or> lb_series b \<noteq> [] \<longrightarrow> lb_timers b = 1) \<and>
         (\<forall>hidden. let b' = fst (timer_fires hidden b) in lb_latest b' = [] \<and> lb_series b' = [] \<and> \<not> lb_scheduled b')"
  using lb_reachable_ok [OF assms] by (auto simp: buffer_ok_def timer_fires_def flush_def clear_def Let_def)

lemma pending_is_flushed_witness:
  "lb_timers (push False ''d'' ''m'' 1 2 new_buffer) = 1 \<and> lb_latest (push False ''d'' ''m'' 1 2 new_buffer) \<noteq> []"
proof -
  have n: "lb_latest (push False ''d'' ''m'' 1 2 new_buffer) \<noteq> []"
    by (simp add: push_def new_buffer_def put_latest_def Let_def)
  have "lb_reachable (push False ''d'' ''m'' 1 2 new_buffer)"
    by (rule lb_reachable.step [OF lb_reachable.start lb_step.frame])
  from pending_is_flushed [OF this] n show ?thesis by blast
qed

section \<open>The queue a chart relies on\<close>

text \<open>
  \<open>enq\<close> is what a frame does to the pending points, \<open>watched\<close> says somebody draws the key's series.
  A client lemma: pending points accumulate in arrival order.
\<close>

locale point_queue =
  fixes enq :: "'k \<Rightarrow> 'p \<Rightarrow> 's \<Rightarrow> 's"
    and pending :: "'s \<Rightarrow> 'k \<Rightarrow> 'p list"
    and watched :: "'s \<Rightarrow> 'k \<Rightarrow> bool"
    and ok :: "'k \<Rightarrow> bool"
  assumes watched_enq: "ok k \<Longrightarrow> ok k' \<Longrightarrow> watched (enq k p s) k' \<longleftrightarrow> watched s k'"
    and pending_enq: "ok k \<Longrightarrow> ok k' \<Longrightarrow>
          pending (enq k p s) k' = (if k = k' \<and> watched s k' then pending s k' @ [p] else pending s k')"
begin

fun enq_all :: "('k \<times> 'p) list \<Rightarrow> 's \<Rightarrow> 's" where
  "enq_all [] s = s"
| "enq_all ((k, p) # kps) s = enq_all kps (enq k p s)"

definition points_for :: "'k \<Rightarrow> ('k \<times> 'p) list \<Rightarrow> 'p list" where
  "points_for k kps = map snd (filter (\<lambda>kp. fst kp = k) kps)"

lemma pending_enq_all:
  assumes "\<forall>kp\<in>set kps. ok (fst kp)" "ok k" "watched s k"
  shows "pending (enq_all kps s) k = pending s k @ points_for k kps \<and> watched (enq_all kps s) k"
  using assms
proof (induction kps arbitrary: s)
  case Nil
  then show ?case by (simp add: points_for_def)
next
  case (Cons kp kps)
  obtain k' p where kp: "kp = (k', p)" by (metis surj_pair)
  have o: "ok k'" "ok k" "watched s k" "\<forall>kp\<in>set kps. ok (fst kp)" using Cons.prems by (simp_all add: kp)
  have "watched (enq k' p s) k" using watched_enq [OF o(1,2)] o(3) by simp
  from Cons.IH [OF o(4,2) this] show ?case
    using pending_enq [OF o(1,2)] o(3) by (auto simp: kp points_for_def)
qed

end

text \<open>Ids are UUIDs and topic segments: no NUL, so the joined key is unambiguous.\<close>

definition nul_free :: "string \<times> string \<Rightarrow> bool" where
  "nul_free k \<longleftrightarrow> CHR 0x00 \<notin> set (fst k) \<and> CHR 0x00 \<notin> set (snd k)"

lemma seriesKey_inj:
  assumes "nul_free k" "nul_free k'" "seriesKey (fst k) (snd k) = seriesKey (fst k') (snd k')"
  shows "k = k'"
proof -
  have sp: "split_on CHR 0x00 (seriesKey (fst k) (snd k)) = [fst k, snd k]" if n: "nul_free k" for k
  proof -
    have f: "CHR 0x00 \<notin> set (fst k)" "CHR 0x00 \<notin> set (snd k)" using n unfolding nul_free_def by blast+
    have "split_on CHR 0x00 (fst k @ CHR 0x00 # snd k) = fst k # split_on CHR 0x00 (snd k)"
      by (rule split_on_append_sep [OF f(1)])
    also have "split_on CHR 0x00 (snd k) = [snd k]" by (rule split_on_no_sep [OF f(2)])
    finally show ?thesis unfolding seriesKey_def .
  qed
  have "[fst k, snd k] = [fst k', snd k']" 
    by (rule trans [OF sp [OF assms(1), symmetric] trans [OF arg_cong [OF assms(3), of "split_on CHR 0x00"] sp [OF assms(2)]]])
  then have "fst k = fst k'" "snd k = snd k'" by (simp_all only: list.inject)
  then show ?thesis by (rule prod_eqI)
qed

definition push_point :: "string \<times> string \<Rightarrow> live_point \<Rightarrow> live_buffer \<Rightarrow> live_buffer" where
  "push_point k p b = push False (fst k) (snd k) (lp_v p) (lp_t p) b"

definition pending_points :: "live_buffer \<Rightarrow> string \<times> string \<Rightarrow> live_point list" where
  "pending_points b k = (case dict_get (lb_series b) (seriesKey (fst k) (snd k)) of Some ps \<Rightarrow> ps | None \<Rightarrow> [])"

definition is_watched :: "live_buffer \<Rightarrow> string \<times> string \<Rightarrow> bool" where
  "is_watched b k \<longleftrightarrow> dict_has (lb_listeners b) (seriesKey (fst k) (snd k))"

interpretation lb: point_queue push_point pending_points is_watched nul_free
proof unfold_locales
  fix k k' :: "string \<times> string" and p b
  show "is_watched (push_point k p b) k' \<longleftrightarrow> is_watched b k'"
    by (simp add: is_watched_def push_point_def push_def Let_def)
  assume "nul_free k" "nul_free k'"
  then have e: "seriesKey (fst k) (snd k) = seriesKey (fst k') (snd k') \<longleftrightarrow> k = k'" using seriesKey_inj by blast
  show "pending_points (push_point k p b) k' =
      (if k = k' \<and> is_watched b k' then pending_points b k' @ [p] else pending_points b k')"
  proof (cases "k = k'")
    case True
    then show ?thesis
      by (cases "dict_get (lb_series b) (seriesKey (fst k) (snd k))")
        (simp_all add: is_watched_def pending_points_def push_point_def push_def put_point_def Let_def)
  next
    case False
    then show ?thesis using e
      by (simp add: is_watched_def pending_points_def push_point_def push_def put_point_def Let_def)
  qed
qed

section \<open>Delivery\<close>

fun push_all :: "((string \<times> string) \<times> live_point) list \<Rightarrow> live_buffer \<Rightarrow> live_buffer" where
  "push_all [] b = b"
| "push_all ((k, p) # kps) b = push_all kps (push_point k p b)"

lemma push_all_enq: "push_all kps b = lb.enq_all kps b"
  by (induction kps b rule: push_all.induct) simp_all

lemma push_all_frame:
  "lb_listeners (push_all kps b) = lb_listeners b \<and> lb_sets (push_all kps b) = lb_sets b"
  by (induction kps b rule: push_all.induct) (simp_all add: push_point_def push_def Let_def)

lemma push_point_ok: "buffer_ok b \<Longrightarrow> buffer_ok (push_point k p b)"
  unfolding push_point_def by (rule lb_step_ok [OF lb_step.frame])

lemma push_all_ok: "buffer_ok b \<Longrightarrow> buffer_ok (push_all kps b)"
  by (induction kps b rule: push_all.induct) (simp_all add: push_point_ok)

lemma listeners_of_timers [simp]: "listeners_of (b\<lparr>lb_timers := n\<rparr>) key = listeners_of b key"
  by (simp add: listeners_of_def set_of_def split: option.split)

lemma listeners_of_push [simp]: "listeners_of (push_all kps b) key = listeners_of b key"
  by (simp add: listeners_of_def set_of_def push_all_frame split: option.split)

lemma push_all_filled:
  "\<forall>k. dict_get (lb_series b) k \<noteq> Some [] \<Longrightarrow> dict_get (lb_series (push_all kps b)) k' \<noteq> Some []"
proof (induction kps b arbitrary: k' rule: push_all.induct)
  case (2 k p kps b)
  have "dict_get (lb_series (push_point k p b)) k'' \<noteq> Some []" for k''
    using 2(2) by (auto simp: push_point_def push_def put_point_def Let_def)
  then show ?case using 2(1) by simp
qed simp

definition handed :: "flush_out \<Rightarrow> nat \<Rightarrow> string \<Rightarrow> live_point list list" where
  "handed out l key = map (\<lambda>(l', key', ps). ps) (filter (\<lambda>(l', key', ps). l' = l \<and> key' = key) (fo_points out))"

lemma handed_series:
  assumes "distinct (map fst (lb_series b))" "distinct (listeners_of b key)" "l \<in> set (listeners_of b key)"
  shows "handed (snd (timer_fires False b)) l key =
           (case dict_get (lb_series b) key of Some ps \<Rightarrow> [ps] | None \<Rightarrow> [])"
proof -
  have one: "distinct ls \<Longrightarrow> l \<in> set ls \<Longrightarrow> filter (\<lambda>x. x = l) ls = [l]" for ls :: "nat list"
    by (induction ls) (auto simp: filter_empty_conv)
  have calls: "map (\<lambda>(l', key', ps). ps) (filter (\<lambda>(l', key', ps). l' = l \<and> key' = key) (map (\<lambda>l. (l, k, ps)) ls)) =
      (if k = key then map (\<lambda>_. ps) (filter (\<lambda>x. x = l) ls) else [])" for k ps and ls :: "nat list"
    by (induction ls) auto
  have "map (\<lambda>(l', key', ps). ps) (filter (\<lambda>(l', key', ps). l' = l \<and> key' = key)
      (concat (map (\<lambda>(k, ps). map (\<lambda>l. (l, k, ps)) (listeners_of b k)) ser))) =
      (case dict_get ser key of Some ps \<Rightarrow> [ps] | None \<Rightarrow> [])" if "distinct (map fst ser)" for ser
    using that
  proof (induction ser)
    case (Cons kp ser)
    obtain k ps where kp: "kp = (k, ps)" by (metis surj_pair)
    have "dict_get ser k = None" using Cons.prems by (simp add: kp map_of_eq_None_iff)
    then have rest: "k = key \<Longrightarrow> dict_get ser key = None" by simp
    have IH: "map (\<lambda>(l', key', ps). ps) (filter (\<lambda>(l', key', ps). l' = l \<and> key' = key)
      (concat (map (\<lambda>(k, ps). map (\<lambda>l. (l, k, ps)) (listeners_of b k)) ser))) =
      (case dict_get ser key of Some ps \<Rightarrow> [ps] | None \<Rightarrow> [])" using Cons by simp
    show ?case
      unfolding kp list.map concat.simps prod.case filter_append map_append calls IH
      using rest one [OF assms(2,3)] by (cases "k = key") simp_all
  qed simp
  then show ?thesis using assms(1) 
    by (simp add: handed_def timer_fires_def flush_def Let_def listeners_of_timers)
qed

text \<open>
  C13: from a reachable buffer with nothing pending, a chart listening to a series is handed, at the
  flush, exactly the points of that series that arrived since, in arrival order and in one call, and
  nothing when none arrived: no point of a visible page is lost, whatever other series received.
\<close>

theorem chart_gets_every_point:
  assumes "lb_reachable b" "lb_series b = []" "distinct (listeners_of b (seriesKey d m))"
    and "l \<in> set (listeners_of b (seriesKey d m))" "nul_free (d, m)" "\<forall>kp\<in>set kps. nul_free (fst kp)"
  shows "handed (snd (timer_fires False (push_all kps b))) l (seriesKey d m) =
           (let ps = map snd (filter (\<lambda>kp. fst kp = (d, m)) kps) in if ps = [] then [] else [ps])"
proof -
  let ?b = "push_all kps b"
  have w: "is_watched b (d, m)"
    using assms(4) by (cases "dict_get (lb_listeners b) (seriesKey d m)") (simp_all add: is_watched_def listeners_of_def)
  have p: "pending_points ?b (d, m) = map snd (filter (\<lambda>kp. fst kp = (d, m)) kps)"
    using lb.pending_enq_all [OF assms(6,5) w] assms(2)
    by (simp add: push_all_enq lb.points_for_def pending_points_def)
  have ok: "distinct (map fst (lb_series ?b))"
    using push_all_ok [OF lb_reachable_ok [OF assms(1)]] by (simp add: buffer_ok_def)
  have h: "handed (snd (timer_fires False ?b)) l (seriesKey d m) =
      (case dict_get (lb_series ?b) (seriesKey d m) of Some ps \<Rightarrow> [ps] | None \<Rightarrow> [])"
    using handed_series [OF ok] assms(3,4) by simp
  have f: "dict_get (lb_series ?b) (seriesKey d m) \<noteq> Some []"
    using push_all_filled [of b] assms(2) by simp
  show ?thesis
  proof (cases "dict_get (lb_series ?b) (seriesKey d m)")
    case None
    then show ?thesis using h p by (simp add: pending_points_def Let_def)
  next
    case (Some ps)
    then show ?thesis using h f p [symmetric] by (simp add: pending_points_def Let_def)
  qed
qed

definition demo_buffer :: live_buffer where
  "demo_buffer = fst (subscribeSeries ''d1'' ''temp'' 7 new_buffer)"

lemma chart_gets_every_point_witness:
  "handed (snd (timer_fires False (push_all [((''d1'', ''temp''), \<lparr>lp_t = 1, lp_v = 20\<rparr>), ((''d1'', ''hum''), \<lparr>lp_t = 1, lp_v = 50\<rparr>),
      ((''d1'', ''temp''), \<lparr>lp_t = 2, lp_v = 21\<rparr>)] demo_buffer))) 7 (seriesKey ''d1'' ''temp'') =
     [[\<lparr>lp_t = 1, lp_v = 20\<rparr>, \<lparr>lp_t = 2, lp_v = 21\<rparr>]]"
proof -
  have r: "lb_reachable demo_buffer"
    unfolding demo_buffer_def by (rule lb_reachable.step [OF lb_reachable.start lb_step.subscribe])
  have l: "listeners_of demo_buffer (seriesKey ''d1'' ''temp'') = [7]" "lb_series demo_buffer = []"
    by (simp_all add: demo_buffer_def subscribeSeries_def new_buffer_def listeners_of_def set_of_def Let_def)
  have n: "nul_free (''d1'', ''temp'')" "nul_free (''d1'', ''hum'')" by (simp_all add: nul_free_def)
  show ?thesis
    by (subst chart_gets_every_point [OF r]) (simp_all add: l n)
qed

end
