(* ===== verification/Template_Check.thy ===== *)
theory Template_Check
  imports Template_Draft "HOL-Library.List_Lexorder" "HOL-Library.Char_ord"
begin

text \<open>
  The template editor's validation (template-draft.ts: \<open>validateTemplate\<close>, \<open>brokenUsages\<close>,
  \<open>matchingTemplate\<close>, \<open>unfedRows\<close>), and what a draft without errors sends: keys that are one topic
  segment each and differ.
\<close>

section \<open>Keys\<close>

text \<open>\<open>/^[A-Za-z0-9][A-Za-z0-9_-]{0,63}$/\<close>\<close>

definition key_head :: "char \<Rightarrow> bool" where
  "key_head c \<longleftrightarrow> is_upper c \<or> is_lower c \<or> is_digit c"

definition key_char :: "char \<Rightarrow> bool" where
  "key_char c \<longleftrightarrow> key_head c \<or> c = CHR ''_'' \<or> c = CHR ''-''"

definition KEY_PATTERN :: "string \<Rightarrow> bool" where
  "KEY_PATTERN s \<longleftrightarrow> s \<noteq> [] \<and> key_head (hd s) \<and> length (tl s) \<le> 63 \<and> list_all key_char (tl s)"

definition RESERVED_METRIC_KEYS :: "string list" where
  "RESERVED_METRIC_KEYS = [''status'', ''config'']"

datatype row_kind = Metrics | Actuators

definition row_kind_name :: "row_kind \<Rightarrow> string" where
  "row_kind_name k = (case k of Metrics \<Rightarrow> ''metrics'' | Actuators \<Rightarrow> ''actuators'')"

definition kind_one :: "row_kind \<Rightarrow> string" where
  "kind_one k = (case k of Metrics \<Rightarrow> ''metric'' | Actuators \<Rightarrow> ''actuator'')"

text \<open>What \<open>checkKeys\<close> reads of a row, and \<open>d[kind]\<close> as such rows.\<close>

record key_row =
  kw_uid :: string
  kw_name :: string
  kw_key :: string
  kw_orig :: "string option"

fun rows_of :: "template_draft \<Rightarrow> row_kind \<Rightarrow> key_row list" where
  "rows_of d Metrics = map (\<lambda>m. \<lparr>kw_uid = md_uid m, kw_name = md_name m, kw_key = md_key m, kw_orig = md_orig_key m\<rparr>) (td_metrics d)"
| "rows_of d Actuators = map (\<lambda>a. \<lparr>kw_uid = ad_uid a, kw_name = ad_name a, kw_key = ad_key a, kw_orig = ad_orig_key a\<rparr>) (td_actuators d)"

section \<open>Usage\<close>

record key_usage =
  ku_rules :: nat
  ku_widgets :: nat

record usage =
  us_metrics :: "key_usage dict"
  us_actuators :: "key_usage dict"

definition usage_of :: "usage option \<Rightarrow> row_kind \<Rightarrow> string \<Rightarrow> key_usage option" where
  "usage_of u kind key =
     Option.bind u (\<lambda>x. dict_get (case kind of Metrics \<Rightarrow> us_metrics x | Actuators \<Rightarrow> us_actuators x) key)"

definition plural :: "nat \<Rightarrow> string \<Rightarrow> string" where
  "plural n w = nat_text n @ '' '' @ w @ (if n = 1 then '''' else ''s'')"

definition usageText :: "key_usage option \<Rightarrow> string" where
  "usageText u =
     (case u of None \<Rightarrow> ''''
      | Some k \<Rightarrow> if ku_rules k = 0 \<and> ku_widgets k = 0 then ''''
          else join '' and '' ((if ku_rules k \<noteq> 0 then [plural (ku_rules k) ''rule''] else []) @
                              (if ku_widgets k \<noteq> 0 then [plural (ku_widgets k) ''dashboard widget''] else [])))"

section \<open>Validation\<close>

definition row_path :: "row_kind \<Rightarrow> nat \<Rightarrow> string \<Rightarrow> string" where
  "row_path kind i fld = row_kind_name kind @ ''.'' @ nat_text i @ ''.'' @ fld"

definition name_error :: "string \<Rightarrow> string list \<Rightarrow> string option" where
  "name_error name others =
     (if name = [] then Some ''Give the template a name.''
      else if list_ex (\<lambda>n. lower_case (trim n) = lower_case name) others then Some ''Another template already has this name.''
      else None)"

text \<open>\<open>seen\<close> maps a lower-cased key to the first row that has it.\<close>

definition key_error :: "row_kind \<Rightarrow> key_row list \<Rightarrow> (string \<times> nat) list \<Rightarrow> string \<Rightarrow> string option \<Rightarrow> string option" where
  "key_error kind rows seen key orig =
     (if key = [] then Some (''Enter a key. It'' @ [CHR 0x27] @ ''s filled from the name until you edit it.'')
      else if Some key \<noteq> orig \<and> \<not> KEY_PATTERN key
      then Some ''Use letters, digits, - and _ only (no spaces, / + # or a leading $). The key becomes an MQTT topic segment.''
      else if kind = Metrics \<and> lower_case key \<in> set RESERVED_METRIC_KEYS
      then Some (quote_mark key @ '' is reserved by the device contract ('' @ ellipsis @ ''/'' @ lower_case key @ '' topic).'')
      else case dict_get seen (lower_case key) of
        Some j \<Rightarrow> Some (''Already used by '' @ kind_one kind @ '' '' @
                     quote_mark (or_else (kw_name (rows ! j)) (kw_key (rows ! j))) @ ''.'')
      | None \<Rightarrow> None)"

record key_check =
  kc_seen :: "(string \<times> nat) list"
  kc_errors :: messages
  kc_warnings :: messages

definition check_key :: "row_kind \<Rightarrow> key_row list \<Rightarrow> usage option \<Rightarrow> key_check \<Rightarrow> nat \<times> key_row \<Rightarrow> key_check" where
  "check_key kind rows usage st ir =
     (case ir of (i, row) \<Rightarrow>
       (let key = trim (kw_key row);
            e1 = put (row_path kind i ''name'') (if trim (kw_name row) = [] then Some ''Enter a name.'' else None) (kc_errors st);
            e2 = put (row_path kind i ''key'') (key_error kind rows (kc_seen st) key (kw_orig row)) e1;
            seen = (if key \<noteq> [] \<and> \<not> dict_has (kc_seen st) (lower_case key) then dict_set (lower_case key) i (kc_seen st) else kc_seen st);
            warn = (case kw_orig row of
                None \<Rightarrow> kc_warnings st
              | Some orig \<Rightarrow>
                  if orig \<noteq> [] \<and> key \<noteq> orig \<and> \<not> dict_has e2 (row_path kind i ''key'') then
                    (let u = usageText (usage_of usage kind orig) in
                     if u = [] then kc_warnings st
                     else dict_set (row_path kind i ''key'')
                       (''Renaming from '' @ quote_mark orig @ '' disconnects '' @ u @ ''. History stays under the old key.'') (kc_warnings st))
                  else kc_warnings st)
        in \<lparr>kc_seen = seen, kc_errors = e2, kc_warnings = warn\<rparr>))"

definition checkKeys :: "template_draft \<Rightarrow> usage option \<Rightarrow> row_kind \<Rightarrow> messages \<times> messages \<Rightarrow> messages \<times> messages" where
  "checkKeys d usage kind ew =
     (let st = foldl (check_key kind (rows_of d kind) usage) \<lparr>kc_seen = [], kc_errors = fst ew, kc_warnings = snd ew\<rparr>
                 (indexed (rows_of d kind))
      in (kc_errors st, kc_warnings st))"

text \<open>\<open>/^(10|[0-9])$/\<close>\<close>

definition decimals_text :: "string \<Rightarrow> bool" where
  "decimals_text s \<longleftrightarrow> s = ''10'' \<or> (\<exists>c\<in>set s. s = [c] \<and> is_digit c)"

definition max_error :: "metric_draft \<Rightarrow> string option" where
  "max_error m =
     (let lo = num (md_min m); hi = num (md_max m) in
      if trim (md_max m) \<noteq> [] \<and> hi = Some NaN then Some ''Enter a number.''
      else case (lo, hi) of
        (Some l, Some h) \<Rightarrow> if l \<noteq> NaN \<and> js_le h l then Some (''Must be greater than min ('' @ md_min m @ '').'') else None
      | _ \<Rightarrow> None)"

definition check_metric :: "messages \<Rightarrow> nat \<times> metric_draft \<Rightarrow> messages" where
  "check_metric errors im =
     (case im of (i, m) \<Rightarrow>
       (let e1 = (if md_data_type m = FloatD then
              put (row_path Metrics i ''max'') (max_error m)
               (put (row_path Metrics i ''min'') (if trim (md_min m) \<noteq> [] \<and> num (md_min m) = Some NaN then Some ''Enter a number.'' else None)
                (put (row_path Metrics i ''decimals'')
                  (if md_decimals m \<noteq> [] \<and> \<not> decimals_text (trim (md_decimals m)) then Some ''Enter a whole number from 0 to 10.'' else None)
                  errors))
            else errors);
            e2 = put (row_path Metrics i ''interval'')
              (if md_publish m \<noteq> On_change \<and> trim (md_interval m) \<noteq> [] \<and> \<not> js_ge (to_number (md_interval m)) (Fin 1)
               then Some ''At least 1 second.'' else None) e1
        in put (row_path Metrics i ''deadband'')
             (if md_publish m = On_change \<and> trim (md_deadband m) \<noteq> [] \<and> \<not> js_ge (to_number (md_deadband m)) (Fin 0)
              then Some ''Enter 0 or more.'' else None) e2))"

definition off_error :: "actuator_entry \<Rightarrow> string option" where
  "off_error a =
     (if trim (ad_off a) = [] then Some ''Enter the value sent for Off.''
      else if trim (ad_on a) = trim (ad_off a) then Some ''On and Off must send different values.'' else None)"

definition check_actuator :: "messages \<Rightarrow> nat \<times> actuator_entry \<Rightarrow> messages" where
  "check_actuator errors ia =
     (case ia of (i, a) \<Rightarrow>
       (let e1 = (if ad_value_type a = BoolV then
              put (row_path Actuators i ''off'') (off_error a)
               (put (row_path Actuators i ''on'') (if trim (ad_on a) = [] then Some ''Enter the value sent for On.'' else None) errors)
            else errors)
        in put (row_path Actuators i ''allowed'')
             (if ad_value_type a = StringV \<and> trim (ad_allowed a) = [] then Some ''List the values it accepts, separated by commas.'' else None) e1))"

definition validateTemplate ::
    "template_draft \<Rightarrow> string list \<Rightarrow> usage option \<Rightarrow> hardware_catalog option \<Rightarrow> messages \<times> messages" where
  "validateTemplate d otherNames usage catalog =
     (case keyedRows (td_metrics d) (td_actuators d) of (mrows, arows) \<Rightarrow>
       (case validateHardware (td_hardware d) mrows arows catalog of (e0, w0) \<Rightarrow>
         (let e1 = put ''general.name'' (name_error (trim (td_name d)) otherNames) e0;
              ew = checkKeys d usage Actuators (checkKeys d usage Metrics (e1, w0));
              e2 = foldl check_metric (fst ew) (indexed (td_metrics d));
              e3 = foldl check_actuator e2 (indexed (td_actuators d))
          in (e3, snd ew))))"

section \<open>Broken usages, matching templates, rows without a wire\<close>

definition broken_usage :: "template_draft \<Rightarrow> usage \<Rightarrow> row_kind \<Rightarrow> key_row \<Rightarrow> string option" where
  "broken_usage d usage kind row =
     (case kw_orig row of
        None \<Rightarrow> None
      | Some orig \<Rightarrow>
          if orig = [] then None
          else (let u = usageText (usage_of (Some usage) kind orig) in
            if u = [] then None
            else case List.find (\<lambda>r. kw_uid r = kw_uid row) (rows_of d kind) of
              None \<Rightarrow> Some (''Removing '' @ kind_one kind @ '' '' @ quote_mark orig @ '' disconnects '' @ u @ ''.'')
            | Some now \<Rightarrow>
                if trim (kw_key now) \<noteq> orig
                then Some (''Renaming '' @ quote_mark orig @ '' '' @ arrow @ '' '' @ quote_mark (trim (kw_key now)) @ '' disconnects '' @ u @ ''.'')
                else None))"

definition brokenUsages :: "template_draft \<Rightarrow> template_draft option \<Rightarrow> usage option \<Rightarrow> string list" where
  "brokenUsages d original usage =
     (case (original, usage) of
        (Some o', Some u) \<Rightarrow>
          somes (concat (map (\<lambda>kind. map (broken_usage d u kind) (rows_of o' kind)) [Metrics, Actuators]))
      | _ \<Rightarrow> [])"

text \<open>\<open>.map((r) => r.key ?? "").sort().join(",")\<close>, the parts likewise.\<close>

definition sorted_keys :: "string option list \<Rightarrow> string" where
  "sorted_keys ks = join '','' (sort (map (\<lambda>k. or_default k '''') ks))"

definition parts_text :: "hardware_config option \<Rightarrow> string" where
  "parts_text h =
     (case h of None \<Rightarrow> ''''
      | Some c \<Rightarrow> hw_board c @ ''|'' @ join '','' (sort (map hb_driver (default_nil (hw_inputs c) @ default_nil (hw_outputs c)))))"

definition matchingTemplate :: "template_draft \<Rightarrow> catalog_entry list \<Rightarrow> driver_spec list option \<Rightarrow> catalog_entry option" where
  "matchingTemplate d entries drivers =
     (let req = templateToRequest d drivers in
      List.find (\<lambda>e. ce_active e \<and> ce_runs_on e = ce_runs_on req \<and>
          sorted_keys (map sm_key (ce_metrics e)) = sorted_keys (map sm_key (ce_metrics req)) \<and>
          sorted_keys (map sa_key (ce_actuators e)) = sorted_keys (map sa_key (ce_actuators req)) \<and>
          parts_text (ce_hardware e) = parts_text (ce_hardware req)) entries)"

text \<open>The ids a side's channels point at.\<close>

definition linked :: "hardware_draft option \<Rightarrow> side \<Rightarrow> string list" where
  "linked h s =
     (case h of None \<Rightarrow> []
      | Some hw \<Rightarrow> filter (\<lambda>r. r \<noteq> []) (concat (map (\<lambda>b. map snd (bd_channels b)) (bindings hw s))))"

definition side_of_kind :: "row_kind \<Rightarrow> side" where
  "side_of_kind k = (case k of Metrics \<Rightarrow> Inputs | Actuators \<Rightarrow> Outputs)"

definition unfedRows :: "template_draft \<Rightarrow> template_draft \<Rightarrow> (row_kind \<times> key_row) list" where
  "unfedRows prev nxt =
     concat (map (\<lambda>kind.
       let before = linked (td_hardware prev) (side_of_kind kind); after = linked (td_hardware nxt) (side_of_kind kind) in
       map (\<lambda>row. (kind, row)) (filter (\<lambda>row. kw_uid row \<in> set before \<and> kw_uid row \<notin> set after) (rows_of prev kind)))
       [Metrics, Actuators])"

section \<open>What a draft without errors sends\<close>

definition low_key :: "key_row \<Rightarrow> string" where
  "low_key r = lower_case (trim (kw_key r))"

definition row_ok :: "row_kind \<Rightarrow> key_row \<Rightarrow> bool" where
  "row_ok kind r \<longleftrightarrow>
     trim (kw_name r) \<noteq> [] \<and> trim (kw_key r) \<noteq> [] \<and> (Some (trim (kw_key r)) = kw_orig r \<or> KEY_PATTERN (trim (kw_key r))) \<and>
     (kind = Metrics \<longrightarrow> low_key r \<notin> set RESERVED_METRIC_KEYS)"

lemma check_key_Nil:
  assumes "kc_errors (check_key kind rows usage st (i, r)) = []"
  shows "kc_errors st = [] \<and> row_ok kind r \<and> dict_get (kc_seen st) (low_key r) = None \<and>
    kc_seen (check_key kind rows usage st (i, r)) = dict_set (low_key r) i (kc_seen st)"
proof -
  define e1 where "e1 = put (row_path kind i ''name'') (if trim (kw_name r) = [] then Some ''Enter a name.'' else None) (kc_errors st)"
  have "put (row_path kind i ''key'') (key_error kind rows (kc_seen st) (trim (kw_key r)) (kw_orig r)) e1 = []"
    using assms by (simp add: check_key_def Let_def e1_def)
  then have e: "e1 = []" "key_error kind rows (kc_seen st) (trim (kw_key r)) (kw_orig r) = None" using put_Nil by blast+
  then have n: "kc_errors st = []" "trim (kw_name r) \<noteq> []" using put_Nil [OF e(1) [unfolded e1_def]] by (simp_all split: if_splits)
  have k: "trim (kw_key r) \<noteq> []" "Some (trim (kw_key r)) = kw_orig r \<or> KEY_PATTERN (trim (kw_key r))"
    "kind = Metrics \<longrightarrow> low_key r \<notin> set RESERVED_METRIC_KEYS" "dict_get (kc_seen st) (low_key r) = None"
    using e(2) by (simp_all add: key_error_def low_key_def split: if_splits option.splits)
  have "kc_seen (check_key kind rows usage st (i, r)) = dict_set (low_key r) i (kc_seen st)"
    using k(1,4) by (simp add: check_key_def Let_def low_key_def)
  then show ?thesis using n k by (simp add: row_ok_def)
qed

lemma check_keys_Nil:
  "kc_errors (foldl (check_key kind rows usage) st irs) = [] \<Longrightarrow>
   kc_errors st = [] \<and> list_all (row_ok kind) (map snd irs) \<and> distinct (map low_key (map snd irs)) \<and>
   (\<forall>r\<in>set (map snd irs). dict_get (kc_seen st) (low_key r) = None)"
proof (induction irs arbitrary: st)
  case (Cons ir irs)
  obtain i r where ir: "ir = (i, r)" by fastforce
  let ?st = "check_key kind rows usage st (i, r)"
  have IH: "kc_errors ?st = []" "list_all (row_ok kind) (map snd irs)" "distinct (map low_key (map snd irs))"
    "\<forall>x\<in>set (map snd irs). dict_get (kc_seen ?st) (low_key x) = None"
    using Cons.IH [of ?st] Cons.prems by (simp_all add: ir comp_def)
  note one = check_key_Nil [OF IH(1)]
  have "\<forall>x\<in>set (map snd irs). low_key x \<noteq> low_key r \<and> dict_get (kc_seen st) (low_key x) = None"
    using IH(4) one by (auto split: if_splits)
  then show ?case using one IH(2,3) by (auto simp: ir comp_def)
qed simp

lemma checkKeys_Nil:
  assumes "fst (checkKeys d usage kind ew) = []"
  shows "fst ew = [] \<and> list_all (row_ok kind) (rows_of d kind) \<and> distinct (map low_key (rows_of d kind))"
proof -
  show ?thesis using assms check_keys_Nil
    [of kind "rows_of d kind" usage "\<lparr>kc_seen = [], kc_errors = fst ew, kc_warnings = snd ew\<rparr>" "indexed (rows_of d kind)"]
    by (simp add: checkKeys_def Let_def del: map_map)
qed

definition range_ok :: "saved_metric \<Rightarrow> bool" where
  "range_ok m \<longleftrightarrow> sm_min m \<noteq> Some NaN \<and> sm_max m \<noteq> Some NaN \<and>
     (case (sm_min m, sm_max m) of (Some l, Some h) \<Rightarrow> js_lt l h | _ \<Rightarrow> True)"

definition rate_ok :: "saved_metric \<Rightarrow> bool" where
  "rate_ok m \<longleftrightarrow>
     (case sm_interval m of None \<Rightarrow> True | Some n \<Rightarrow> js_ge n (Fin 1)) \<and> (case sm_deadband m of None \<Rightarrow> True | Some n \<Rightarrow> js_ge n (Fin 0))"

lemma js_lt_or_ge: "a \<noteq> NaN \<Longrightarrow> b \<noteq> NaN \<Longrightarrow> \<not> js_le b a \<Longrightarrow> js_lt a b"
  by (cases a; cases b) (auto simp: js_le_def js_eq_def)

lemma num_blank: "trim s = [] \<Longrightarrow> num s = None"
  by (simp add: num_def)

lemma check_metric_Nil:
  assumes "check_metric errors (i, m) = []"
  shows "errors = [] \<and> range_ok (metric_out m) \<and> rate_ok (metric_out m)"
proof -
  define e1 where "e1 = (if md_data_type m = FloatD then
              put (row_path Metrics i ''max'') (max_error m)
               (put (row_path Metrics i ''min'') (if trim (md_min m) \<noteq> [] \<and> num (md_min m) = Some NaN then Some ''Enter a number.'' else None)
                (put (row_path Metrics i ''decimals'')
                  (if md_decimals m \<noteq> [] \<and> \<not> decimals_text (trim (md_decimals m)) then Some ''Enter a whole number from 0 to 10.'' else None)
                  errors))
            else errors)"
  note e = assms [unfolded check_metric_def prod.case Let_def, folded e1_def]
  from put_Nil [OF e] have r1: "md_publish m = On_change \<Longrightarrow> trim (md_deadband m) \<noteq> [] \<Longrightarrow> js_ge (to_number (md_deadband m)) (Fin 0)"
    by (auto split: if_splits)
  from put_Nil [OF conjunct1 [OF put_Nil [OF e]]]
  have r2: "md_publish m \<noteq> On_change \<Longrightarrow> trim (md_interval m) \<noteq> [] \<Longrightarrow> js_ge (to_number (md_interval m)) (Fin 1)" and e1: "e1 = []"
    by (auto split: if_splits)
  have rate: "rate_ok (metric_out m)" using r1 r2 by (auto simp: rate_ok_def metric_out_def Let_def num_def)
  show ?thesis
  proof (cases "md_data_type m = FloatD")
    case False
    then show ?thesis using e1 rate by (cases "md_data_type m") (auto simp: e1_def range_ok_def metric_out_def Let_def)
  next
    case True
    note e2 = e1 [unfolded e1_def if_P [OF True]]
    have mx: "max_error m = None" using put_Nil [OF e2] by simp
    note e3 = conjunct1 [OF put_Nil [OF e2]]
    have mn: "trim (md_min m) \<noteq> [] \<Longrightarrow> num (md_min m) \<noteq> Some NaN" using put_Nil [OF e3] by (auto split: if_splits)
    have er: "errors = []" using put_Nil [OF conjunct1 [OF put_Nil [OF e3]]] by simp
    have nn: "num (md_min m) \<noteq> Some NaN" "num (md_max m) \<noteq> Some NaN"
      using mn mx num_blank by (fastforce simp: max_error_def Let_def split: if_splits)+
    have "case (num (md_min m), num (md_max m)) of (Some l, Some h) \<Rightarrow> js_lt l h | _ \<Rightarrow> True"
      using mx nn by (auto simp: max_error_def Let_def intro: js_lt_or_ge split: if_splits option.splits)
    then show ?thesis using er nn rate True by (simp add: range_ok_def metric_out_def Let_def)
  qed
qed

definition switch_ok :: "saved_actuator \<Rightarrow> bool" where
  "switch_ok a \<longleftrightarrow> (sa_value_type a = Some BoolV \<longrightarrow>
     (case (sa_on a, sa_off a) of (Some x, Some y) \<Rightarrow> param_text x \<noteq> param_text y | _ \<Rightarrow> False))"

lemma scalar_text: "trim s \<noteq> [] \<Longrightarrow> \<exists>v. scalar s saved = Some v \<and> param_text v = s"
  by (auto simp: scalar_def split: option.splits)

lemma check_actuator_Nil:
  assumes "check_actuator errors (i, a) = []"
  shows "errors = [] \<and> switch_ok (actuator_out a)"
proof (cases "ad_value_type a = BoolV")
  case False
  then show ?thesis using assms by (auto simp: check_actuator_def Let_def switch_ok_def actuator_out_def dest: put_Nil)
next
  case True
  note e = assms [unfolded check_actuator_def prod.case Let_def if_P [OF True]]
  note e1 = conjunct1 [OF put_Nil [OF e]]
  note e2 = conjunct1 [OF put_Nil [OF e1]]
  have on: "trim (ad_on a) \<noteq> []" "errors = []" using put_Nil [OF e2] by (auto split: if_splits)
  have off: "trim (ad_off a) \<noteq> []" "trim (ad_on a) \<noteq> trim (ad_off a)"
    using put_Nil [OF e1] by (auto simp: off_error_def split: if_splits)
  obtain x y where "scalar (ad_on a) (ad_saved_on a) = Some x" "param_text x = ad_on a"
    "scalar (ad_off a) (ad_saved_off a) = Some y" "param_text y = ad_off a"
    using scalar_text on(1) off(1) by metis
  then show ?thesis using True on off by (auto simp: switch_ok_def actuator_out_def)
qed

lemma foldl_Nil:
  assumes "\<And>e x. f e x = [] \<Longrightarrow> e = [] \<and> P (snd x)" "foldl f e xs = []"
  shows "e = [] \<and> list_all P (map snd xs)"
  using assms(2)
proof (induction xs arbitrary: e)
  case (Cons x xs)
  then have "f e x = [] \<and> list_all P (map snd xs)" by simp
  then show ?case using assms(1) [of e x] by simp
qed simp

lemma check_actuator_one: "check_actuator e x = [] \<Longrightarrow> e = [] \<and> switch_ok (actuator_out (snd x))"
  using check_actuator_Nil [of e "fst x" "snd x"] by simp

lemma check_metric_one: "check_metric e x = [] \<Longrightarrow> e = [] \<and> range_ok (metric_out (snd x)) \<and> rate_ok (metric_out (snd x))"
  using check_metric_Nil [of e "fst x" "snd x"] by simp

text \<open>The rows of the request.\<close>

definition sent_metric :: "saved_metric \<Rightarrow> bool" where
  "sent_metric m \<longleftrightarrow> sm_name m \<noteq> [] \<and> range_ok m \<and> rate_ok m \<and>
     (case sm_key m of None \<Rightarrow> False | Some k \<Rightarrow> k \<noteq> [] \<and> lower_case k \<notin> set RESERVED_METRIC_KEYS)"

definition sent_actuator :: "saved_actuator \<Rightarrow> bool" where
  "sent_actuator a \<longleftrightarrow> sa_name a \<noteq> [] \<and> switch_ok a \<and> sa_key a \<noteq> None \<and> sa_key a \<noteq> Some []"

text \<open>A key that is new or was edited is one topic segment.\<close>

definition edited_keys_ok :: "template_draft \<Rightarrow> bool" where
  "edited_keys_ok d \<longleftrightarrow>
     (\<forall>kind. list_all (\<lambda>r. Some (trim (kw_key r)) = kw_orig r \<or> KEY_PATTERN (trim (kw_key r))) (rows_of d kind))"

text \<open>
  C18: a template whose validation lists no error is sent with a name no other template has; with metrics
  and actuators that have names and keys, the keys of each kind different whatever their case, no metric
  key reserved, and every new or edited key one topic segment; with minimum below maximum, an interval of
  at least one second and a deadband of at least zero, never NaN; and with an On value that differs from
  the Off value. Its wiring has no error either.
\<close>

theorem valid_template_sends:
  fixes drivers :: "driver_spec list option"
  assumes "fst (validateTemplate d others usage catalog) = []"
  defines "r \<equiv> templateToRequest d drivers"
  shows "ce_name r \<noteq> [] \<and> lower_case (ce_name r) \<notin> set (map (\<lambda>n. lower_case (trim n)) others) \<and>
    list_all sent_metric (ce_metrics r) \<and> distinct (map (map_option lower_case \<circ> sm_key) (ce_metrics r)) \<and>
    list_all sent_actuator (ce_actuators r) \<and> distinct (map (map_option lower_case \<circ> sa_key) (ce_actuators r)) \<and>
    edited_keys_ok d \<and> fst (validateHardware (td_hardware d) (map metric_row (td_metrics d)) (map actuator_row (td_actuators d)) catalog) = []"
proof -
  obtain e0 w0 where h: "validateHardware (td_hardware d) (map metric_row (td_metrics d)) (map actuator_row (td_actuators d)) catalog = (e0, w0)"
    by fastforce
  define e1 where "e1 = put ''general.name'' (name_error (trim (td_name d)) others) e0"
  define em where "em = checkKeys d usage Metrics (e1, w0)"
  define ea where "ea = checkKeys d usage Actuators em"
  have "foldl check_actuator (foldl check_metric (fst ea) (indexed (td_metrics d))) (indexed (td_actuators d)) = []"
    using assms(1) by (simp add: validateTemplate_def keyedRows_def h e1_def em_def ea_def Let_def)
  note folded = foldl_Nil [where P = "\<lambda>x. switch_ok (actuator_out x)", OF check_actuator_one this, unfolded map_snd_indexed]
  note folded' = foldl_Nil [where P = "\<lambda>x. range_ok (metric_out x) \<and> rate_ok (metric_out x)", OF check_metric_one conjunct1 [OF folded], unfolded map_snd_indexed]
  have ka: "fst em = []" "list_all (row_ok Actuators) (rows_of d Actuators)" "distinct (map low_key (rows_of d Actuators))"
    using checkKeys_Nil [of d usage Actuators em] folded' by (simp_all add: ea_def)
  have km: "e1 = []" "list_all (row_ok Metrics) (rows_of d Metrics)" "distinct (map low_key (rows_of d Metrics))"
    using checkKeys_Nil [of d usage Metrics "(e1, w0)"] ka(1) by (simp_all add: em_def)
  have n: "e0 = []" "name_error (trim (td_name d)) others = None" using put_Nil [OF km(1) [unfolded e1_def]] by simp_all
  have name: "trim (td_name d) \<noteq> []" "lower_case (trim (td_name d)) \<notin> set (map (\<lambda>n. lower_case (trim n)) others)"
    using n(2) by (auto simp: name_error_def list_ex_iff split: if_splits)
  have ms: "list_all (\<lambda>x. sent_metric (metric_out x)) (td_metrics d)"
    using folded' km(2) by (auto simp: list_all_iff row_ok_def low_key_def sent_metric_def metric_out_def non_blank_def Let_def)
  have as: "list_all (\<lambda>x. sent_actuator (actuator_out x)) (td_actuators d)"
    using folded ka(2) by (auto simp: list_all_iff row_ok_def sent_actuator_def actuator_out_def non_blank_def)
  have dm: "distinct (map (map_option lower_case \<circ> sm_key) (map metric_out (td_metrics d)))"
  proof -
    have "map (map_option lower_case \<circ> sm_key) (map metric_out (td_metrics d)) = map Some (map low_key (rows_of d Metrics))"
      using km(2) by (auto simp: list_all_iff row_ok_def low_key_def metric_out_def non_blank_def Let_def)
    then show ?thesis using km(3) by (simp add: distinct_map del: map_map)
  qed
  have da: "distinct (map (map_option lower_case \<circ> sa_key) (map actuator_out (td_actuators d)))"
  proof -
    have "map (map_option lower_case \<circ> sa_key) (map actuator_out (td_actuators d)) = map Some (map low_key (rows_of d Actuators))"
      using ka(2) by (auto simp: list_all_iff row_ok_def low_key_def actuator_out_def non_blank_def)
    then show ?thesis using ka(3) by (simp add: distinct_map del: map_map)
  qed
  have "list_all (\<lambda>r. Some (trim (kw_key r)) = kw_orig r \<or> KEY_PATTERN (trim (kw_key r))) (rows_of d kind)" for kind
    using km(2) ka(2) by (cases kind) (auto simp: list_all_iff row_ok_def)
  then have "edited_keys_ok d" by (simp add: edited_keys_ok_def)
  then show ?thesis using name ms as dm da h n(1)
    by (simp add: r_def templateToRequest_def keyedRows_def list_all_iff)
qed

definition demo_template :: template_draft where
  "demo_template =
     \<lparr>td_name = ''Node'', td_enabled = True, td_runs_on = Own_code,
      td_metrics = [(blankMetric 1)\<lparr>md_name := ''Heat'', md_key := ''heat'', md_decimals := '''', md_interval := ''''\<rparr>],
      td_actuators = [(blankActuator 2)\<lparr>ad_name := ''Mode'', ad_key := ''mode'', ad_value_type := StringV, ad_allowed := '',''\<rparr>],
      td_hardware = None\<rparr>"

lemma demo_trims: "trim ''Node'' = ''Node''" "trim ''Heat'' = ''Heat''" "trim ''heat'' = ''heat''" "trim ''Mode'' = ''Mode''"
  "trim ''mode'' = ''mode''" "trim '','' = '',''"
  by (simp_all add: trim_id is_space_def)

lemma demo_keys: "KEY_PATTERN ''heat''" "KEY_PATTERN ''mode''" "lower_case ''heat'' = ''heat''" "lower_case ''mode'' = ''mode''"
  by (simp_all add: KEY_PATTERN_def key_head_def key_char_def is_lower_def is_upper_def is_digit_def char_code_def lower_case_def lower_char_def)

lemma demo_template_valid: "fst (validateTemplate demo_template [] None None) = []"
  by (simp add: validateTemplate_def demo_template_def blankMetric_def blankActuator_def keyedRows_def validateHardware_def name_error_def
      put_def checkKeys_def check_key_def key_error_def demo_trims demo_keys RESERVED_METRIC_KEYS_def check_metric_def max_error_def
      num_def decimals_text_def check_actuator_def Let_def)

lemma valid_template_sends_witness:
  "ce_name (templateToRequest demo_template None) \<noteq> [] \<and> list_all sent_metric (ce_metrics (templateToRequest demo_template None))"
  using valid_template_sends [OF demo_template_valid, of None] by simp

text \<open>
  A list of allowed values made of commas passes the validation, and the actuator is sent with none.
\<close>

lemma commas_pass: "sa_allowed (ce_actuators (templateToRequest demo_template None) ! 0) = None"
  by (simp add: templateToRequest_def keyedRows_def demo_template_def blankMetric_def blankActuator_def actuator_out_def allowed_out_def
      allowed_texts_def non_empty_def Let_def)

end
