(* ===== verification/Template_Parts.thy ===== *)
theory Template_Parts
  imports Template_Check
begin

text \<open>
  Keeping a template's rows in step with its parts (template-draft.ts: \<open>reconcileParts\<close>, \<open>keepReading\<close>
  and their helpers). A row's snapshot is its JSON text. The counter of row ids is threaded: \<open>seq\<close> is the
  last number drawn.
\<close>

section \<open>Snapshots\<close>

definition json_opt :: "string option \<Rightarrow> json" where
  "json_opt s = (case s of None \<Rightarrow> JNull | Some x \<Rightarrow> JStr x)"

fun scalar_json :: "param_value \<Rightarrow> json" where
  "scalar_json (PNum n) = JNum n"
| "scalar_json (PBool b) = JBool b"
| "scalar_json (PStr s) = JStr s"

definition publish_text :: "publish_mode \<Rightarrow> string" where
  "publish_text p = (case p of Periodic \<Rightarrow> ''periodic'' | On_change \<Rightarrow> ''on_change'' | Streaming \<Rightarrow> ''streaming'')"

definition metric_json :: "metric_draft \<Rightarrow> json" where
  "metric_json m = JObj
     [(''uid'', JStr (md_uid m)), (''name'', JStr (md_name m)), (''key'', JStr (md_key m)), (''keyAuto'', JBool (md_key_auto m)),
      (''origKey'', json_opt (md_orig_key m)), (''data_type'', JStr (data_type_text (md_data_type m))), (''unit'', json_opt (md_unit m)),
      (''decimals'', JStr (md_decimals m)), (''min'', JStr (md_min m)), (''max'', JStr (md_max m)),
      (''publish'', JStr (publish_text (md_publish m))), (''interval'', JStr (md_interval m)), (''deadband'', JStr (md_deadband m))]"

definition actuator_json :: "actuator_entry \<Rightarrow> json" where
  "actuator_json a = JObj
     [(''uid'', JStr (ad_uid a)), (''name'', JStr (ad_name a)), (''key'', JStr (ad_key a)), (''keyAuto'', JBool (ad_key_auto a)),
      (''origKey'', json_opt (ad_orig_key a)), (''value_type'', JStr (value_type_name (ad_value_type a))), (''on'', JStr (ad_on a)),
      (''off'', JStr (ad_off a)), (''allowed'', JStr (ad_allowed a)),
      (''saved'', JObj [(''on'', (case ad_saved_on a of None \<Rightarrow> JNull | Some v \<Rightarrow> scalar_json v)),
                      (''off'', (case ad_saved_off a of None \<Rightarrow> JNull | Some v \<Rightarrow> scalar_json v)),
                      (''allowed'', (case ad_saved_allowed a of None \<Rightarrow> JNull | Some vs \<Rightarrow> JArr (map scalar_json vs)))])]"

definition snapshot_m :: "metric_draft \<Rightarrow> string" where "snapshot_m m = stringify [] (metric_json m)"
definition snapshot_a :: "actuator_entry \<Rightarrow> string" where "snapshot_a a = stringify [] (actuator_json a)"

section \<open>What a channel proposes\<close>

definition UNIT_SYMBOLS :: "string list" where
  "UNIT_SYMBOLS = map un_symbol (concat (map uc_units UNIT_CATEGORIES))"

text \<open>
  \<open>/^(.*?)\s*\(([^)]*)\)\s*$/\<close>: \<open>bracketed\<close> is what follows the lazy group, which grows one character at
  a time (never over a line break).
\<close>

definition bracketed :: "string \<Rightarrow> string option" where
  "bracketed s =
     (case dropWhile is_space s of
        [] \<Rightarrow> None
      | c # t \<Rightarrow>
          if c = CHR ''('' then
            (case dropWhile (\<lambda>x. x \<noteq> CHR '')'') t of
               [] \<Rightarrow> None
             | _ # rest \<Rightarrow> if list_all is_space rest then Some (takeWhile (\<lambda>x. x \<noteq> CHR '')'') t) else None)
          else None)"

fun label_match :: "string \<Rightarrow> string \<Rightarrow> (string \<times> string) option" where
  "label_match pre s =
     (case bracketed s of
        Some u \<Rightarrow> Some (rev pre, u)
      | None \<Rightarrow> (case s of [] \<Rightarrow> None | c # cs \<Rightarrow> if c = CHR 0x0A \<or> c = CHR 0x0D then None else label_match (c # pre) cs))"

text \<open>\<open>s.split(" / ")[0]\<close>\<close>

fun before_slash :: "string \<Rightarrow> string" where
  "before_slash [] = []"
| "before_slash (c # cs) = (if starts_with (c # cs) '' / '' then [] else c # before_slash cs)"

record proposed_row =
  pp_name :: string
  pp_key :: string
  pp_unit :: "string option"

definition proposal :: "driver_spec \<Rightarrow> channel_spec \<Rightarrow> proposed_row" where
  "proposal spec ch =
     (let m = label_match [] (ch_label ch);
          lone = (ch_key ch = ''value'' \<and> length (ds_channels spec) = 1);
          part = trim (before_slash (ds_label spec));
          name = (if lone then part else trim (case m of Some p \<Rightarrow> fst p | None \<Rightarrow> ch_label ch));
          u = (case m of Some p \<Rightarrow> if trim (snd p) \<in> set UNIT_SYMBOLS then Some (trim (snd p)) else None | None \<Rightarrow> None)
      in \<lparr>pp_name = name, pp_key = (if lone then slugify part '''' else ch_key ch), pp_unit = u\<rparr>)"

section \<open>A free key\<close>

definition numbered_key :: "string \<Rightarrow> nat \<Rightarrow> string" where
  "numbered_key base n = base @ ''_'' @ nat_text n"

lemma numbered_key_inj: "inj (numbered_key base)"
  by (auto simp: inj_def numbered_key_def)

lemma finite_taken: "finite {m. n \<le> m \<and> numbered_key base m \<in> set used}"
  by (rule finite_subset [OF _ finite_vimageI [OF finite_set numbered_key_inj]]) auto

function free_from :: "string \<Rightarrow> string list \<Rightarrow> nat \<Rightarrow> string" where
  "free_from base used n =
     (if numbered_key base n \<in> set used then free_from base used (Suc n) else numbered_key base n)"
  by pat_completeness auto
termination
proof (relation "measure (\<lambda>(base, used, n). card {m. n \<le> m \<and> numbered_key base m \<in> set used})", goal_cases)
  case (2 base used n)
  have "{m. Suc n \<le> m \<and> numbered_key base m \<in> set used} \<subset> {m. n \<le> m \<and> numbered_key base m \<in> set used}"
    using 2 by (auto simp: Suc_le_eq)
  then show ?case using psubset_card_mono [OF finite_taken] by simp
qed simp

declare free_from.simps [simp del]

definition freeKey :: "string \<Rightarrow> string list \<Rightarrow> string" where
  "freeKey base used =
     (let taken = used @ RESERVED_METRIC_KEYS in if base \<in> set taken then free_from base taken 2 else base)"

lemma free_from_free: "free_from base used n \<notin> set used"
proof (induction base used n rule: free_from.induct)
  case (1 base used n)
  then show ?case by (subst free_from.simps) simp
qed

lemma freeKey_free: "freeKey base used \<notin> set used \<and> freeKey base used \<notin> set RESERVED_METRIC_KEYS"
  using free_from_free [of base "used @ RESERVED_METRIC_KEYS" 2] by (simp add: freeKey_def Let_def)

section \<open>The row of a channel\<close>

record row_state =
  rs_metrics :: "metric_draft list"
  rs_actuators :: "actuator_entry list"
  rs_seq :: nat

datatype created = No_row | New_metric metric_draft | New_actuator actuator_entry

definition new_name :: "proposed_row \<Rightarrow> string \<Rightarrow> string" where
  "new_name p key = (if key = pp_key p then pp_name p else pp_name p @ '' '' @ drop (length (pp_key p) + 1) key)"

definition rowForChannel :: "side \<Rightarrow> driver_spec \<Rightarrow> channel_spec \<Rightarrow> row_state \<Rightarrow> (string \<Rightarrow> bool) \<Rightarrow> string \<times> created" where
  "rowForChannel kind spec ch rows busy =
     (let p = proposal spec ch; n = Suc (rs_seq rows) in
      case kind of
        Inputs \<Rightarrow>
          (let t = or_default (ch_data_type ch) FloatD in
           case List.find (\<lambda>r. trim (md_key r) = pp_key p \<and> md_data_type r = t \<and> \<not> busy (md_uid r)) (rs_metrics rows) of
             Some r \<Rightarrow> (md_uid r, No_row)
           | None \<Rightarrow>
               (let key = freeKey (pp_key p) (map (\<lambda>r. trim (md_key r)) (rs_metrics rows)) in
                (row_uid n, New_metric ((blankMetric n)\<lparr>md_name := new_name p key, md_key := key, md_key_auto := False,
                                          md_data_type := t, md_unit := pp_unit p\<rparr>))))
      | Outputs \<Rightarrow>
          (let t = or_default (ch_value_type ch) BoolV in
           case List.find (\<lambda>r. trim (ad_key r) = pp_key p \<and> ad_value_type r = t \<and> \<not> busy (ad_uid r)) (rs_actuators rows) of
             Some r \<Rightarrow> (ad_uid r, No_row)
           | None \<Rightarrow>
               (let key = freeKey (pp_key p) (map (\<lambda>r. trim (ad_key r)) (rs_actuators rows));
                    base = (blankActuator n)\<lparr>ad_name := new_name p key, ad_key := key, ad_key_auto := False, ad_value_type := t\<rparr>
                in (row_uid n, New_actuator (if t = BoolV then base else base\<lparr>ad_on := '''', ad_off := ''''\<rparr>)))))"

definition add_row :: "created \<Rightarrow> row_state \<Rightarrow> row_state" where
  "add_row c rows =
     (case c of
        No_row \<Rightarrow> rows
      | New_metric m \<Rightarrow> rows\<lparr>rs_metrics := rs_metrics rows @ [m], rs_seq := Suc (rs_seq rows)\<rparr>
      | New_actuator a \<Rightarrow> rows\<lparr>rs_actuators := rs_actuators rows @ [a], rs_seq := Suc (rs_seq rows)\<rparr>)"

definition note_row :: "created \<Rightarrow> string dict \<Rightarrow> string dict" where
  "note_row c proposed =
     (case c of
        No_row \<Rightarrow> proposed
      | New_metric m \<Rightarrow> dict_set (md_uid m) (snapshot_m m) proposed
      | New_actuator a \<Rightarrow> dict_set (ad_uid a) (snapshot_a a) proposed)"

section \<open>Replacing a part\<close>

definition link_fits :: "side \<Rightarrow> driver_spec \<Rightarrow> metric_draft list \<Rightarrow> actuator_entry list \<Rightarrow> channel_spec \<Rightarrow> string \<Rightarrow> bool" where
  "link_fits kind spec metrics actuators ch uid =
     (case kind of
        Inputs \<Rightarrow> (case List.find (\<lambda>r. md_uid r = uid) metrics of
            None \<Rightarrow> False
          | Some row \<Rightarrow> pp_unit (proposal spec ch) \<noteq> None \<and> md_unit row = pp_unit (proposal spec ch) \<and>
              md_data_type row = or_default (ch_data_type ch) FloatD)
      | Outputs \<Rightarrow> (case List.find (\<lambda>r. ad_uid r = uid) actuators of
            None \<Rightarrow> False
          | Some row \<Rightarrow> ad_value_type row = or_default (ch_value_type ch) BoolV))"

definition same_key_link :: "binding_draft \<Rightarrow> string dict \<times> string list \<Rightarrow> channel_spec \<Rightarrow> string dict \<times> string list" where
  "same_key_link old st ch =
     (case dict_get (bd_channels old) (ch_key ch) of
        Some ref \<Rightarrow> if ref \<noteq> [] \<and> ref \<in> set (snd st) then (dict_set (ch_key ch) ref (fst st), remove1 ref (snd st)) else st
      | None \<Rightarrow> st)"

definition fitting_link :: "(channel_spec \<Rightarrow> string \<Rightarrow> bool) \<Rightarrow> string dict \<times> string list \<Rightarrow> channel_spec \<Rightarrow> string dict \<times> string list" where
  "fitting_link ok st ch =
     (if dict_has (fst st) (ch_key ch) then st
      else case List.find (ok ch) (snd st) of
        Some ref \<Rightarrow> (dict_set (ch_key ch) ref (fst st), remove1 ref (snd st))
      | None \<Rightarrow> st)"

definition carryLinks :: "side \<Rightarrow> binding_draft \<Rightarrow> driver_spec \<Rightarrow> metric_draft list \<Rightarrow> actuator_entry list \<Rightarrow> string dict" where
  "carryLinks kind old spec metrics actuators =
     (let free = nub (filter (\<lambda>r. r \<noteq> []) (map snd (bd_channels old)));
          st = foldl (same_key_link old) ([], free) (ds_channels spec)
      in fst (foldl (fitting_link (link_fits kind spec metrics actuators)) st (ds_channels spec)))"

section \<open>Reconciling\<close>

definition by_uid :: "binding_draft list \<Rightarrow> binding_draft dict" where
  "by_uid bs = from_entries (map (\<lambda>b. (bd_uid b, b)) bs)"

definition same_driver :: "binding_draft dict \<Rightarrow> binding_draft \<Rightarrow> bool" where
  "same_driver others b = (case dict_get others (bd_uid b) of None \<Rightarrow> False | Some o' \<Rightarrow> bd_driver o' = bd_driver b)"

text \<open>\<open>metrics.find(uid) ?? actuators.find(uid)\<close>, and whether it is as proposed.\<close>

definition untouched :: "metric_draft list \<Rightarrow> actuator_entry list \<Rightarrow> string \<times> string \<Rightarrow> bool" where
  "untouched metrics actuators p =
     (case List.find (\<lambda>r. md_uid r = fst p) metrics of
        Some m \<Rightarrow> snapshot_m m = snd p
      | None \<Rightarrow> (case List.find (\<lambda>r. ad_uid r = fst p) actuators of Some a \<Rightarrow> snapshot_a a = snd p | None \<Rightarrow> False))"

definition dropped_by :: "metric_draft list \<Rightarrow> actuator_entry list \<Rightarrow> binding_draft dict \<Rightarrow> binding_draft \<Rightarrow> string list" where
  "dropped_by metrics actuators nxt old =
     (if same_driver nxt old then [] else map fst (filter (untouched metrics actuators) (or_default (bd_proposed old) [])))"

definition carried_links :: "side \<Rightarrow> template_draft \<Rightarrow> binding_draft dict \<Rightarrow> hardware_draft \<Rightarrow> driver_spec list \<Rightarrow> (string \<times> string dict) list" where
  "carried_links kind prev before nxt drivers =
     somes (map (\<lambda>b. case dict_get before (bd_uid b) of
          None \<Rightarrow> None
        | Some old \<Rightarrow> if bd_driver old = bd_driver b then None
            else map_option (\<lambda>spec. (bd_uid b, carryLinks kind old spec (td_metrics prev) (td_actuators prev))) (findDriver drivers (bd_driver b)))
       (bindings nxt kind))"

definition without :: "hardware_draft \<Rightarrow> side \<Rightarrow> string \<Rightarrow> hardware_draft" where
  "without h kind uid =
     (case kind of Inputs \<Rightarrow> h\<lparr>hd_inputs := filter (\<lambda>x. bd_uid x \<noteq> uid) (hd_inputs h)\<rparr>
      | Outputs \<Rightarrow> h\<lparr>hd_outputs := filter (\<lambda>x. bd_uid x \<noteq> uid) (hd_outputs h)\<rparr>)"

definition propose_channel :: "side \<Rightarrow> driver_spec \<Rightarrow> string dict \<Rightarrow> string dict \<times> string dict \<times> row_state \<Rightarrow> channel_spec \<Rightarrow>
    string dict \<times> string dict \<times> row_state" where
  "propose_channel kind spec taken st ch =
     (case st of (channels, proposed, rows) \<Rightarrow>
        if \<not> (dict_get channels (ch_key ch) = None \<or> dict_get channels (ch_key ch) = Some []) then st
        else if ch_common ch = Some False then (dict_set (ch_key ch) '''' channels, proposed, rows)
        else (case rowForChannel kind spec ch rows (\<lambda>u. dict_has taken u \<or> u \<in> set (map snd channels)) of
                (uid, c) \<Rightarrow> (dict_set (ch_key ch) uid channels, note_row c proposed, add_row c rows)))"

definition propose_binding :: "side \<Rightarrow> hardware_draft \<Rightarrow> driver_spec list \<Rightarrow> binding_draft dict \<Rightarrow> (string \<times> string dict) list \<Rightarrow>
    string list \<Rightarrow> binding_draft list \<times> row_state \<Rightarrow> binding_draft \<Rightarrow> binding_draft list \<times> row_state" where
  "propose_binding kind nxt drivers before carried dropping st b =
     (if same_driver before b
      then (fst st @ [b\<lparr>bd_channels := map (\<lambda>(ch, ref). (ch, if ref \<in> set dropping then '''' else ref)) (bd_channels b)\<rparr>], snd st)
      else case findDriver drivers (bd_driver b) of
        None \<Rightarrow> (fst st @ [b\<lparr>bd_proposed := None\<rparr>], snd st)
      | Some spec \<Rightarrow>
          (let channels = or_default (dict_get carried (bd_uid b)) [];
               noted = or_default (Option.bind (dict_get before (bd_uid b)) bd_proposed) [];
               proposed = filter (\<lambda>(uid, snap). uid \<in> set (map snd channels)) noted
           in case foldl (propose_channel kind spec (takenTargets (without nxt kind (bd_uid b)) kind)) (channels, proposed, snd st)
                     (ds_channels spec) of
                (chs, props, rows) \<Rightarrow> (fst st @ [b\<lparr>bd_channels := chs, bd_proposed := Some props\<rparr>], rows)))"

definition reconcile_with :: "template_draft \<Rightarrow> hardware_draft \<Rightarrow> driver_spec list \<Rightarrow> nat \<Rightarrow> template_draft \<times> nat" where
  "reconcile_with prev nxt drivers seq =
     (let olds = (case td_hardware prev of None \<Rightarrow> [] | Some h \<Rightarrow> all_bindings h);
          before = by_uid olds;
          nextByUid = by_uid (all_bindings nxt);
          gone = concat (map (dropped_by (td_metrics prev) (td_actuators prev) nextByUid) (map snd before));
          carried = from_entries (carried_links Inputs prev before nxt drivers @ carried_links Outputs prev before nxt drivers);
          stillLinked = concat (map (\<lambda>b. if same_driver before b then map snd (bd_channels b) else []) (all_bindings nxt)) @
            concat (map (\<lambda>(u, c). map snd c) carried);
          dropping = filter (\<lambda>u. u \<notin> set stillLinked) gone;
          rows = \<lparr>rs_metrics = filter (\<lambda>r. md_uid r \<notin> set dropping) (td_metrics prev),
                  rs_actuators = filter (\<lambda>r. ad_uid r \<notin> set dropping) (td_actuators prev), rs_seq = seq\<rparr>;
          step = (\<lambda>kind. propose_binding kind nxt drivers before carried dropping)
      in case foldl (step Inputs) ([], rows) (hd_inputs nxt) of
           (inputs, rows1) \<Rightarrow> (case foldl (step Outputs) ([], rows1) (hd_outputs nxt) of
             (outputs, rows2) \<Rightarrow>
               (prev\<lparr>td_metrics := rs_metrics rows2, td_actuators := rs_actuators rows2,
                     td_hardware := Some (nxt\<lparr>hd_inputs := inputs, hd_outputs := outputs\<rparr>)\<rparr>, rs_seq rows2)))"

definition reconcileParts :: "template_draft \<Rightarrow> hardware_draft option \<Rightarrow> hardware_catalog option \<Rightarrow> nat \<Rightarrow> template_draft \<times> nat" where
  "reconcileParts prev nxt catalog seq =
     (case catalog of
        None \<Rightarrow> (prev\<lparr>td_hardware := nxt\<rparr>, seq)
      | Some c \<Rightarrow>
          (case nxt of
             Some h \<Rightarrow> reconcile_with prev h (hc_drivers c) seq
           | None \<Rightarrow>
               (case td_hardware prev of
                  None \<Rightarrow> (prev, seq)
                | Some h \<Rightarrow> (case reconcile_with prev (h\<lparr>hd_inputs := [], hd_outputs := []\<rparr>) (hc_drivers c) seq of
                    (d, n) \<Rightarrow> (d\<lparr>td_hardware := None\<rparr>, n)))))"

section \<open>Which readings to keep\<close>

definition with_channel :: "template_draft \<Rightarrow> hardware_draft \<Rightarrow> binding_draft \<Rightarrow> string \<Rightarrow> string \<Rightarrow> string dict option \<Rightarrow> template_draft" where
  "with_channel d h b channel ref proposed =
     d\<lparr>td_hardware := Some (h\<lparr>hd_inputs := map (\<lambda>x. if bd_uid x = bd_uid b
          then x\<lparr>bd_channels := dict_set channel ref (bd_channels x), bd_proposed := proposed\<rparr> else x) (hd_inputs h)\<rparr>)\<rparr>"

definition keep_on :: "template_draft \<Rightarrow> hardware_draft \<Rightarrow> binding_draft \<Rightarrow> driver_spec \<Rightarrow> channel_spec \<Rightarrow> nat \<Rightarrow> template_draft \<times> nat" where
  "keep_on d h b spec ch seq =
     (let taken = takenTargets h Inputs;
          rows = \<lparr>rs_metrics = td_metrics d, rs_actuators = td_actuators d, rs_seq = seq\<rparr> in
      case rowForChannel Inputs spec ch rows (dict_has taken) of
        (uid, New_metric m) \<Rightarrow>
          ((with_channel d h b (ch_key ch) uid (Some (dict_set uid (snapshot_m m) (or_default (bd_proposed b) []))))
             \<lparr>td_metrics := td_metrics d @ [m]\<rparr>, Suc seq)
      | (uid, _) \<Rightarrow> (with_channel d h b (ch_key ch) uid (bd_proposed b), seq))"

definition keep_off :: "template_draft \<Rightarrow> hardware_draft \<Rightarrow> binding_draft \<Rightarrow> string \<Rightarrow> string \<Rightarrow> template_draft" where
  "keep_off d h b channel ref =
     (let untouched = (case List.find (\<lambda>r. md_uid r = ref) (td_metrics d) of
              None \<Rightarrow> False
            | Some row \<Rightarrow> Option.bind (bd_proposed b) (\<lambda>p. dict_get p ref) = Some (snapshot_m row));
          fedElsewhere = list_ex (\<lambda>x. bd_uid x \<noteq> bd_uid b \<and> ref \<in> set (map snd (bd_channels x))) (hd_inputs h);
          proposed = filter (\<lambda>(uid, snap). uid \<noteq> ref) (or_default (bd_proposed b) []);
          nxt = with_channel d h b channel '''' (if untouched then Some proposed else bd_proposed b)
      in if untouched \<and> \<not> fedElsewhere then nxt\<lparr>td_metrics := filter (\<lambda>r. md_uid r \<noteq> ref) (td_metrics d)\<rparr> else nxt)"

definition keepReading :: "template_draft \<Rightarrow> string \<Rightarrow> string \<Rightarrow> bool \<Rightarrow> hardware_catalog option \<Rightarrow> nat \<Rightarrow> template_draft \<times> nat" where
  "keepReading d bindingUid channel keep catalog seq =
     (case td_hardware d of
        None \<Rightarrow> (d, seq)
      | Some h \<Rightarrow>
          (case List.find (\<lambda>x. bd_uid x = bindingUid) (hd_inputs h) of
             None \<Rightarrow> (d, seq)
           | Some b \<Rightarrow>
               (case cat_driver catalog (bd_driver b) of
                  None \<Rightarrow> (d, seq)
                | Some spec \<Rightarrow>
                    (case List.find (\<lambda>c. ch_key c = channel) (ds_channels spec) of
                       None \<Rightarrow> (d, seq)
                     | Some ch \<Rightarrow>
                         (let ref = or_default (dict_get (bd_channels b) channel) '''' in
                          if keep then (if ref \<noteq> [] then (d, seq) else keep_on d h b spec ch seq)
                          else if ref = [] then (d, seq) else (keep_off d h b channel ref, seq))))))"

end
