(* ===== verification/Parts_Facts.thy ===== *)
theory Parts_Facts
  imports Template_Parts "HOL-Library.Sublist"
begin

text \<open>What reconciling a template with its parts keeps: the author's rows, and links that lead somewhere.\<close>

section \<open>Rows only grow\<close>

fun uids_of :: "side \<Rightarrow> row_state \<Rightarrow> string set" where
  "uids_of Inputs rows = md_uid ` set (rs_metrics rows)"
| "uids_of Outputs rows = ad_uid ` set (rs_actuators rows)"

text \<open>
  Keys drawn one after the other: none is in use when it is drawn, the keys drawn before it included
  (as \<open>trim\<close> leaves them), and none is reserved.
\<close>

fun fresh_keys :: "string list \<Rightarrow> string list \<Rightarrow> bool" where
  "fresh_keys used [] \<longleftrightarrow> True"
| "fresh_keys used (k # ks) \<longleftrightarrow> k \<notin> set used \<and> k \<notin> set RESERVED_METRIC_KEYS \<and> fresh_keys (used @ [trim k]) ks"

lemma fresh_keys_append: "fresh_keys used (ks @ ks') \<longleftrightarrow> fresh_keys used ks \<and> fresh_keys (used @ map trim ks) ks'"
  by (induction ks arbitrary: used) auto

lemma fresh_keys_unused: "fresh_keys used ks \<Longrightarrow> k \<in> set ks \<Longrightarrow> k \<notin> set used"
  by (induction ks arbitrary: used) (simp, fastforce)

lemma fresh_keys_distinct: "fresh_keys used ks \<Longrightarrow> list_all (\<lambda>k. trim k = k) ks \<Longrightarrow> distinct ks"
proof (induction ks arbitrary: used)
  case (Cons k ks)
  then have "fresh_keys (used @ [trim k]) ks" "trim k = k" "distinct ks" by auto
  then show ?case using fresh_keys_unused [of "used @ [trim k]" ks k] by auto
qed simp

definition metric_keys :: "metric_draft list \<Rightarrow> string list" where
  "metric_keys ms = map (\<lambda>m. trim (md_key m)) ms"

definition actuator_keys :: "actuator_entry list \<Rightarrow> string list" where
  "actuator_keys as = map (\<lambda>a. trim (ad_key a)) as"

text \<open>\<open>rows'\<close> has the rows of \<open>rows\<close>, then new ones with new numbers and fresh keys.\<close>

definition extends :: "row_state \<Rightarrow> row_state \<Rightarrow> bool" where
  "extends rows rows' \<longleftrightarrow>
     (\<exists>ms as. rs_metrics rows' = rs_metrics rows @ ms \<and> rs_actuators rows' = rs_actuators rows @ as \<and>
        rs_seq rows \<le> rs_seq rows' \<and>
        set (map md_uid ms @ map ad_uid as) \<subseteq> row_uid ` {rs_seq rows<..rs_seq rows'} \<and>
        fresh_keys (metric_keys (rs_metrics rows)) (map md_key ms) \<and>
        fresh_keys (actuator_keys (rs_actuators rows)) (map ad_key as))"

lemma extends_refl: "extends rows rows"
  by (simp add: extends_def)

lemma extends_trans:
  assumes "extends r1 r2" "extends r2 r3"
  shows "extends r1 r3"
proof -
  obtain ms as where 1: "rs_metrics r2 = rs_metrics r1 @ ms" "rs_actuators r2 = rs_actuators r1 @ as" "rs_seq r1 \<le> rs_seq r2"
    "set (map md_uid ms @ map ad_uid as) \<subseteq> row_uid ` {rs_seq r1<..rs_seq r2}"
    "fresh_keys (metric_keys (rs_metrics r1)) (map md_key ms)" "fresh_keys (actuator_keys (rs_actuators r1)) (map ad_key as)"
    using assms(1) unfolding extends_def by blast
  obtain ms' as' where 2: "rs_metrics r3 = rs_metrics r2 @ ms'" "rs_actuators r3 = rs_actuators r2 @ as'" "rs_seq r2 \<le> rs_seq r3"
    "set (map md_uid ms' @ map ad_uid as') \<subseteq> row_uid ` {rs_seq r2<..rs_seq r3}"
    "fresh_keys (metric_keys (rs_metrics r2)) (map md_key ms')" "fresh_keys (actuator_keys (rs_actuators r2)) (map ad_key as')"
    using assms(2) unfolding extends_def by blast
  have w: "row_uid ` {rs_seq r1<..rs_seq r2} \<subseteq> row_uid ` {rs_seq r1<..rs_seq r3}"
    "row_uid ` {rs_seq r2<..rs_seq r3} \<subseteq> row_uid ` {rs_seq r1<..rs_seq r3}" using 1(3) 2(3) by auto
  have "fresh_keys (metric_keys (rs_metrics r1)) (map md_key (ms @ ms'))"
    "fresh_keys (actuator_keys (rs_actuators r1)) (map ad_key (as @ as'))"
    using 1(1,2,5,6) 2(5,6) by (simp_all add: fresh_keys_append metric_keys_def actuator_keys_def comp_def)
  moreover have "set (map md_uid (ms @ ms') @ map ad_uid (as @ as')) \<subseteq> row_uid ` {rs_seq r1<..rs_seq r3}"
    using order_trans [OF 1(4) w(1)] order_trans [OF 2(4) w(2)] by auto
  ultimately show ?thesis unfolding extends_def using 1(1-3) 2(1-3)
    by (intro exI [of _ "ms @ ms'"] exI [of _ "as @ as'"]) simp
qed


lemma add_metric:
  assumes "md_uid m = row_uid (Suc (rs_seq rows))" "fresh_keys (metric_keys (rs_metrics rows)) [md_key m]"
  shows "extends rows (add_row (New_metric m) rows)"
  unfolding extends_def add_row_def using assms
  by (intro exI [of _ "[m]"] exI [of _ "[]"]) simp

lemma add_actuator:
  assumes "ad_uid a = row_uid (Suc (rs_seq rows))" "fresh_keys (actuator_keys (rs_actuators rows)) [ad_key a]"
  shows "extends rows (add_row (New_actuator a) rows)"
  unfolding extends_def add_row_def using assms
  by (intro exI [of _ "[]"] exI [of _ "[a]"]) simp

lemma freeKey_fresh: "fresh_keys used [freeKey base used]"
  using freeKey_free by simp

lemma rowForChannel_row:
  assumes "rowForChannel kind spec ch rows busy = (uid, c)"
  shows "extends rows (add_row c rows) \<and> uid \<in> uids_of kind (add_row c rows)"
proof (cases kind)
  case Inputs
  let ?p = "proposal spec ch" and ?t = "or_default (ch_data_type ch) FloatD"
  let ?k = "freeKey (pp_key ?p) (map (\<lambda>r. trim (md_key r)) (rs_metrics rows))"
  show ?thesis
  proof (cases "List.find (\<lambda>r. trim (md_key r) = pp_key ?p \<and> md_data_type r = ?t \<and> \<not> busy (md_uid r)) (rs_metrics rows)")
    case (Some r)
    then have "c = No_row" "uid = md_uid r" "r \<in> set (rs_metrics rows)"
      using assms Inputs find_Some_iff [OF Some] by (auto simp: rowForChannel_def Let_def)
    then show ?thesis using Inputs by (simp add: add_row_def extends_refl)
  next
    case None
    let ?m = "(blankMetric (Suc (rs_seq rows)))\<lparr>md_name := new_name ?p ?k, md_key := ?k, md_key_auto := False, md_data_type := ?t, md_unit := pp_unit ?p\<rparr>"
    have c: "c = New_metric ?m" "uid = row_uid (Suc (rs_seq rows))"
      using assms Inputs None by (auto simp: rowForChannel_def Let_def)
    have "extends rows (add_row c rows)" unfolding c(1)
      by (rule add_metric) (use freeKey_fresh [of "metric_keys (rs_metrics rows)"] in \<open>simp_all add: blankMetric_def metric_keys_def\<close>)
    then show ?thesis using c Inputs by (simp add: add_row_def blankMetric_def)
  qed
next
  case Outputs
  let ?p = "proposal spec ch" and ?t = "or_default (ch_value_type ch) BoolV"
  let ?k = "freeKey (pp_key ?p) (map (\<lambda>r. trim (ad_key r)) (rs_actuators rows))"
  show ?thesis
  proof (cases "List.find (\<lambda>r. trim (ad_key r) = pp_key ?p \<and> ad_value_type r = ?t \<and> \<not> busy (ad_uid r)) (rs_actuators rows)")
    case (Some r)
    then have "c = No_row" "uid = ad_uid r" "r \<in> set (rs_actuators rows)"
      using assms Outputs find_Some_iff [OF Some] by (auto simp: rowForChannel_def Let_def)
    then show ?thesis using Outputs by (simp add: add_row_def extends_refl)
  next
    case None
    obtain a where a: "c = New_actuator a" "uid = row_uid (Suc (rs_seq rows))" "ad_uid a = row_uid (Suc (rs_seq rows))" "ad_key a = ?k"
      using assms Outputs None by (auto simp: rowForChannel_def blankActuator_def Let_def)
    have "extends rows (add_row c rows)" unfolding a(1) 
      by (rule add_actuator) (use a freeKey_fresh [of "actuator_keys (rs_actuators rows)"] in \<open>simp_all add: actuator_keys_def\<close>)
    then show ?thesis using a Outputs by (simp add: add_row_def)
  qed
qed

section \<open>Links\<close>







section \<open>Bindings\<close>





lemma propose_binding_rows:
  "extends (snd st) (snd (propose_binding kind nxt drivers before carried dropping st b))"
proof (cases "same_driver before b \<or> findDriver drivers (bd_driver b) = None")
  case True
  then show ?thesis by (auto simp: propose_binding_def extends_refl)
next
  case False
  then obtain spec where spec: "findDriver drivers (bd_driver b) = Some spec" by auto
  let ?c = "or_default (dict_get carried (bd_uid b)) []"
  let ?p = "filter (\<lambda>(uid, snap). uid \<in> set (map snd ?c)) (or_default (Option.bind (dict_get before (bd_uid b)) bd_proposed) [])"
  have grow: "foldl (propose_channel kind spec taken) (c, p, r) chs = (c', p', r') \<Longrightarrow> extends r r'" for taken c p r chs c' p' r'
  proof (induction chs arbitrary: c p r)
    case (Cons ch chs)
    obtain c1 p1 r1 where st: "propose_channel kind spec taken (c, p, r) ch = (c1, p1, r1)" by (metis prod_cases3)
    have "extends r r1"
      using st rowForChannel_row [of kind spec ch r] extends_refl
      by (fastforce simp: propose_channel_def split: if_splits prod.splits)
    then show ?case using Cons st extends_trans by fastforce
  qed (simp add: extends_refl)
  obtain c' p' r' where st: "foldl (propose_channel kind spec (takenTargets (without nxt kind (bd_uid b)) kind)) (?c, ?p, snd st) (ds_channels spec) = (c', p', r')"
    by (metis prod_cases3)
  show ?thesis using False spec st grow [OF st] by (simp add: propose_binding_def Let_def)
qed



lemma propose_bindings_rows:
  "extends (snd st) (snd (foldl (propose_binding kind nxt drivers before carried dropping) st todo))"
proof (induction todo arbitrary: st)
  case (Cons b todo)
  show ?case using extends_trans [OF propose_binding_rows Cons.IH] by simp
qed (simp add: extends_refl)

section \<open>Carried links\<close>







lemma from_entries_get: "dict_get (from_entries kvs) k = Some v \<Longrightarrow> (k, v) \<in> set kvs"
proof -
  have "dict_get (foldl (\<lambda>d (k, v). dict_set k v d) d kvs) k = Some v \<Longrightarrow> (k, v) \<in> set kvs \<or> dict_get d k = Some v" for d
  proof (induction kvs arbitrary: d)
    case (Cons kv kvs)
    obtain a b where kv: "kv = (a, b)" by fastforce
    show ?case using Cons.IH [of "dict_set a b d"] Cons.prems by (auto simp: kv split: if_splits)
  qed simp
  then show "dict_get (from_entries kvs) k = Some v \<Longrightarrow> (k, v) \<in> set kvs" unfolding from_entries_def by fastforce
qed

lemma by_uid_get: "dict_get (by_uid bs) u = Some b \<Longrightarrow> b \<in> set bs \<and> bd_uid b = u"
  using from_entries_get [of "map (\<lambda>b. (bd_uid b, b)) bs" u b] by (auto simp: by_uid_def)

section \<open>The whole step\<close>



text \<open>The parts of \<open>reconcile_with\<close> by name.\<close>

definition olds_of :: "template_draft \<Rightarrow> binding_draft list" where
  "olds_of prev = (case td_hardware prev of None \<Rightarrow> [] | Some h \<Rightarrow> all_bindings h)"

definition gone_ids :: "template_draft \<Rightarrow> hardware_draft \<Rightarrow> string list" where
  "gone_ids prev nxt =
     concat (map (dropped_by (td_metrics prev) (td_actuators prev) (by_uid (all_bindings nxt))) (map snd (by_uid (olds_of prev))))"

definition carried_of :: "template_draft \<Rightarrow> hardware_draft \<Rightarrow> driver_spec list \<Rightarrow> (string \<times> string dict) list" where
  "carried_of prev nxt drivers =
     from_entries (carried_links Inputs prev (by_uid (olds_of prev)) nxt drivers @ carried_links Outputs prev (by_uid (olds_of prev)) nxt drivers)"

definition still_linked :: "template_draft \<Rightarrow> hardware_draft \<Rightarrow> driver_spec list \<Rightarrow> string list" where
  "still_linked prev nxt drivers =
     concat (map (\<lambda>b. if same_driver (by_uid (olds_of prev)) b then map snd (bd_channels b) else []) (all_bindings nxt)) @
     concat (map (\<lambda>(u, c). map snd c) (carried_of prev nxt drivers))"

definition dropping_of :: "template_draft \<Rightarrow> hardware_draft \<Rightarrow> driver_spec list \<Rightarrow> string list" where
  "dropping_of prev nxt drivers = filter (\<lambda>u. u \<notin> set (still_linked prev nxt drivers)) (gone_ids prev nxt)"

definition rows_left :: "template_draft \<Rightarrow> hardware_draft \<Rightarrow> driver_spec list \<Rightarrow> nat \<Rightarrow> row_state" where
  "rows_left prev nxt drivers seq =
     \<lparr>rs_metrics = filter (\<lambda>r. md_uid r \<notin> set (dropping_of prev nxt drivers)) (td_metrics prev),
      rs_actuators = filter (\<lambda>r. ad_uid r \<notin> set (dropping_of prev nxt drivers)) (td_actuators prev), rs_seq = seq\<rparr>"

definition propose_side :: "template_draft \<Rightarrow> hardware_draft \<Rightarrow> driver_spec list \<Rightarrow> side \<Rightarrow> row_state \<Rightarrow> binding_draft list \<times> row_state" where
  "propose_side prev nxt drivers kind rows =
     foldl (propose_binding kind nxt drivers (by_uid (olds_of prev)) (carried_of prev nxt drivers) (dropping_of prev nxt drivers))
       ([], rows) (bindings nxt kind)"

lemma reconcile_parts:
  assumes "reconcile_with prev nxt drivers seq = (d, n)"
  obtains inputs rows1 outputs rows2 where
    "propose_side prev nxt drivers Inputs (rows_left prev nxt drivers seq) = (inputs, rows1)"
    "propose_side prev nxt drivers Outputs rows1 = (outputs, rows2)" "n = rs_seq rows2"
    "d = prev\<lparr>td_metrics := rs_metrics rows2, td_actuators := rs_actuators rows2,
             td_hardware := Some (nxt\<lparr>hd_inputs := inputs, hd_outputs := outputs\<rparr>)\<rparr>"
proof -
  obtain inputs rows1 where 1: "propose_side prev nxt drivers Inputs (rows_left prev nxt drivers seq) = (inputs, rows1)" by fastforce
  obtain outputs rows2 where 2: "propose_side prev nxt drivers Outputs rows1 = (outputs, rows2)" by fastforce
  have "reconcile_with prev nxt drivers seq =
    (prev\<lparr>td_metrics := rs_metrics rows2, td_actuators := rs_actuators rows2,
          td_hardware := Some (nxt\<lparr>hd_inputs := inputs, hd_outputs := outputs\<rparr>)\<rparr>, rs_seq rows2)"
    using 1 2 unfolding reconcile_with_def Let_def propose_side_def rows_left_def dropping_of_def still_linked_def carried_of_def
      gone_ids_def olds_of_def by simp
  then show thesis using that [OF 1 2] assms by simp
qed

lemma propose_side_rows: "propose_side prev nxt drivers kind rows = (bs, rows') \<Longrightarrow> extends rows rows'"
  using propose_bindings_rows [of "([], rows)"] unfolding propose_side_def by (metis snd_conv)

lemma reconcile_rows:
  assumes "reconcile_with prev nxt drivers seq = (d, n)"
  shows "extends (rows_left prev nxt drivers seq) \<lparr>rs_metrics = td_metrics d, rs_actuators = td_actuators d, rs_seq = n\<rparr>"
proof -
  obtain inputs rows1 outputs rows2 where
    r: "propose_side prev nxt drivers Inputs (rows_left prev nxt drivers seq) = (inputs, rows1)"
    "propose_side prev nxt drivers Outputs rows1 = (outputs, rows2)" "n = rs_seq rows2"
    "d = prev\<lparr>td_metrics := rs_metrics rows2, td_actuators := rs_actuators rows2,
             td_hardware := Some (nxt\<lparr>hd_inputs := inputs, hd_outputs := outputs\<rparr>)\<rparr>"
    using reconcile_parts [OF assms] by blast
  have "extends (rows_left prev nxt drivers seq) rows2" using extends_trans propose_side_rows r(1,2) by blast
  then show ?thesis by (simp add: r(3,4) extends_def)
qed

section \<open>Rows are the author's\<close>

lemma from_entries_set: "set (from_entries kvs) \<subseteq> set kvs"
proof -
  have one: "set (dict_set k v d) \<subseteq> insert (k, v) (set d)" for k v and d :: "(string \<times> 'a) list" by (induction d) auto
  have "set (foldl (\<lambda>d (k, v). dict_set k v d) d kvs) \<subseteq> set d \<union> set kvs" for d
  proof (induction kvs arbitrary: d)
    case (Cons kv kvs)
    obtain k v where kv: "kv = (k, v)" by fastforce
    show ?case using Cons.IH [of "dict_set k v d"] one [of k v d] by (auto simp: kv)
  qed simp
  from this [of "[]"] show ?thesis by (simp add: from_entries_def)
qed

text \<open>A proposal of a part that is gone or has another driver.\<close>

definition lost_proposal :: "template_draft \<Rightarrow> binding_draft list \<Rightarrow> string \<Rightarrow> string \<Rightarrow> bool" where
  "lost_proposal prev after uid snap \<longleftrightarrow>
     list_ex (\<lambda>old. \<not> same_driver (by_uid after) old \<and> (uid, snap) \<in> set (or_default (bd_proposed old) [])) (olds_of prev)"

definition ids_ok :: "template_draft \<Rightarrow> nat \<Rightarrow> bool" where
  "ids_ok d seq \<longleftrightarrow>
     distinct (map md_uid (td_metrics d) @ map ad_uid (td_actuators d)) \<and>
     set (map md_uid (td_metrics d) @ map ad_uid (td_actuators d)) \<inter> row_uid ` {seq<..} = {}"

lemma gone_ids_mem:
  assumes "uid \<in> set (gone_ids prev nxt)"
  shows "\<exists>snap. untouched (td_metrics prev) (td_actuators prev) (uid, snap) \<and> lost_proposal prev (all_bindings nxt) uid snap"
proof -
  obtain old snap where o: "old \<in> snd ` set (by_uid (olds_of prev))" "\<not> same_driver (by_uid (all_bindings nxt)) old"
    "(uid, snap) \<in> set (or_default (bd_proposed old) [])" "untouched (td_metrics prev) (td_actuators prev) (uid, snap)"
    using assms by (fastforce simp: gone_ids_def dropped_by_def split: if_splits)
  have "old \<in> set (olds_of prev)" using o(1) from_entries_set [of "map (\<lambda>b. (bd_uid b, b)) (olds_of prev)"] by (auto simp: by_uid_def)
  then show ?thesis using o by (auto simp: lost_proposal_def list_ex_iff)
qed

lemma find_by_id: "distinct (map f xs) \<Longrightarrow> x \<in> set xs \<Longrightarrow> List.find (\<lambda>r. f r = f x) xs = Some x"
  by (induction xs) auto

lemma untouched_metric:
  "distinct (map md_uid ms) \<Longrightarrow> m \<in> set ms \<Longrightarrow> untouched ms as (md_uid m, snap) \<Longrightarrow> snap = snapshot_m m"
  using find_by_id [of md_uid ms m] by (simp add: untouched_def)

lemma untouched_actuator:
  assumes "distinct (map md_uid ms @ map ad_uid as)" "a \<in> set as" "untouched ms as (ad_uid a, snap)"
  shows "snap = snapshot_a a"
proof -
  have "List.find (\<lambda>r. md_uid r = ad_uid a) ms = None" using assms(1,2) by (auto simp: find_None_iff')
  then show ?thesis using assms find_by_id [of ad_uid as a] by (simp add: untouched_def)
qed

definition rows_kept :: "template_draft \<Rightarrow> binding_draft list \<Rightarrow> template_draft \<Rightarrow> bool" where
  "rows_kept prev after d \<longleftrightarrow>
     (\<forall>m\<in>set (td_metrics prev). m \<in> set (td_metrics d) \<or> lost_proposal prev after (md_uid m) (snapshot_m m)) \<and>
     (\<forall>a\<in>set (td_actuators prev). a \<in> set (td_actuators d) \<or> lost_proposal prev after (ad_uid a) (snapshot_a a))"

text \<open>
  The rows that stay come first, in their order, and the new ones after them; every new row's key is
  fresh: no row that stays has it, no new row before it, and it is not reserved.
\<close>

definition new_keys_free :: "template_draft \<Rightarrow> template_draft \<Rightarrow> bool" where
  "new_keys_free prev d \<longleftrightarrow>
     (\<exists>old_ms ms old_as as.
        td_metrics d = old_ms @ ms \<and> subseq old_ms (td_metrics prev) \<and> set ms \<inter> set (td_metrics prev) = {} \<and>
        fresh_keys (metric_keys old_ms) (map md_key ms) \<and>
        td_actuators d = old_as @ as \<and> subseq old_as (td_actuators prev) \<and> set as \<inter> set (td_actuators prev) = {} \<and>
        fresh_keys (actuator_keys old_as) (map ad_key as))"

lemma reconcile_with_rows:
  assumes "reconcile_with prev nxt drivers seq = (d, n)" "ids_ok prev seq"
  shows "rows_kept prev (all_bindings nxt) d \<and> new_keys_free prev d"
proof -
  let ?left = "rows_left prev nxt drivers seq" and ?D = "set (dropping_of prev nxt drivers)"
  obtain ms as where e: "td_metrics d = rs_metrics ?left @ ms" "td_actuators d = rs_actuators ?left @ as"
    "set (map md_uid ms @ map ad_uid as) \<subseteq> row_uid ` {seq<..n}"
    "fresh_keys (metric_keys (rs_metrics ?left)) (map md_key ms)" "fresh_keys (actuator_keys (rs_actuators ?left)) (map ad_key as)"
    using reconcile_rows [OF assms(1)] by (auto simp: extends_def rows_left_def)
  have dist: "distinct (map md_uid (td_metrics prev) @ map ad_uid (td_actuators prev))" using assms(2) by (simp add: ids_ok_def)
  have lost: "\<exists>snap. untouched (td_metrics prev) (td_actuators prev) (uid, snap) \<and> lost_proposal prev (all_bindings nxt) uid snap" if "uid \<in> ?D" for uid
    using that gone_ids_mem by (auto simp: dropping_of_def)
  have "rows_kept prev (all_bindings nxt) d"
    unfolding rows_kept_def
  proof (intro conjI ballI)
    fix m assume m: "m \<in> set (td_metrics prev)"
    show "m \<in> set (td_metrics d) \<or> lost_proposal prev (all_bindings nxt) (md_uid m) (snapshot_m m)"
      using m lost [of "md_uid m"] untouched_metric [OF _ m] dist by (auto simp: e(1) rows_left_def)
  next
    fix a assume a: "a \<in> set (td_actuators prev)"
    show "a \<in> set (td_actuators d) \<or> lost_proposal prev (all_bindings nxt) (ad_uid a) (snapshot_a a)"
      using a lost [of "ad_uid a"] untouched_actuator [OF dist a] by (auto simp: e(2) rows_left_def)
  qed
  moreover have new: "u \<notin> set (map md_uid (td_metrics prev) @ map ad_uid (td_actuators prev))"
    if "u \<in> set (map md_uid ms @ map ad_uid as)" for u
  proof -
    have "u \<in> row_uid ` {seq<..n}" using e(3) that by blast
    then have "u \<in> row_uid ` {seq<..}" by auto
    then show ?thesis using assms(2) unfolding ids_ok_def by auto
  qed
  have "set ms \<inter> set (td_metrics prev) = {}" "set as \<inter> set (td_actuators prev) = {}" using new by auto
  then have "new_keys_free prev d" unfolding new_keys_free_def
    using e(1,2,4,5)
    by (intro exI [of _ "rs_metrics ?left"] exI [of _ ms] exI [of _ "rs_actuators ?left"] exI [of _ as]) (simp add: rows_left_def)
  ultimately show ?thesis by blast
qed

definition bindings_after :: "hardware_draft option \<Rightarrow> binding_draft list" where
  "bindings_after h = (case h of None \<Rightarrow> [] | Some x \<Rightarrow> all_bindings x)"

text \<open>
  C10: whatever happens to the parts, a row the author made or edited stays: a metric or actuator leaves the
  template only when it is, to the letter, what a part proposed that is now gone or has another driver. The
  rows that stay keep their order and the proposed ones follow them; a proposed row never takes a reserved
  key, the key of a row that stays, nor the key of a row proposed before it in the same step. Keys are
  compared letter by letter, as \<open>freeKey\<close> does.
\<close>

theorem reconcile_keeps_rows:
  assumes "reconcileParts prev nxt (Some catalog) seq = (d, n)" "ids_ok prev seq"
  shows "rows_kept prev (bindings_after nxt) d \<and> new_keys_free prev d"
proof (cases nxt)
  case (Some h)
  then show ?thesis using assms reconcile_with_rows by (simp add: reconcileParts_def bindings_after_def)
next
  case None
  show ?thesis
  proof (cases "td_hardware prev")
    case N: None
    then have "d = prev" using assms None by (simp add: reconcileParts_def)
    moreover have "new_keys_free prev prev"
      unfolding new_keys_free_def
      by (intro exI [of _ "td_metrics prev"] exI [of _ "td_actuators prev"] exI [of _ "[]"]) simp
    ultimately show ?thesis by (simp add: rows_kept_def)
  next
    case (Some h)
    obtain d1 n1 where r: "reconcile_with prev (h\<lparr>hd_inputs := [], hd_outputs := []\<rparr>) (hc_drivers catalog) seq = (d1, n1)" by fastforce
    then have "d = d1\<lparr>td_hardware := None\<rparr>" using assms(1) None Some by (simp add: reconcileParts_def)
    then show ?thesis using reconcile_with_rows [OF r assms(2)] None
      by (simp add: bindings_after_def all_bindings_def rows_kept_def new_keys_free_def)
  qed
qed

section \<open>Links lead somewhere\<close>










section \<open>A relay is added\<close>

definition relay_binding :: binding_draft where
  "relay_binding = \<lparr>bd_uid = ''b1'', bd_driver = ''relay'', bd_pins = [(''pin'', Some 23)], bd_params = [], bd_channels = [(''value'', '''')],
     bd_proposed = None\<rparr>"

definition relay_wiring :: hardware_draft where
  "relay_wiring = \<lparr>hd_board = ''esp32'', hd_i2c = None, hd_inputs = [], hd_outputs = [relay_binding]\<rparr>"

definition bare_template :: template_draft where
  "bare_template = blankTemplate Generic_firmware 0"

text \<open>
  A template whose author has an actuator \<open>relay\<close> of another type, and a proposed one that its part
  leaves behind; two relays come in the place of that part.
\<close>

definition old_relay :: actuator_entry where
  "old_relay = (blankActuator 2)\<lparr>ad_name := ''Relay 2'', ad_key := ''relay_2'', ad_key_auto := False\<rparr>"

definition used_template :: template_draft where
  "used_template = bare_template\<lparr>
     td_actuators := [(blankActuator 1)\<lparr>ad_name := ''Mode'', ad_key := ''relay'', ad_value_type := StringV\<rparr>, old_relay],
     td_hardware := Some (relay_wiring\<lparr>hd_outputs := [relay_binding\<lparr>bd_uid := ''b0'', bd_channels := [(''value'', row_uid 2)],
       bd_proposed := Some [(row_uid 2, snapshot_a old_relay)]\<rparr>]\<rparr>)\<rparr>"

definition two_relays :: hardware_draft where
  "two_relays = relay_wiring\<lparr>hd_outputs := [relay_binding, relay_binding\<lparr>bd_uid := ''b2'', bd_pins := [(''pin'', Some 22)]\<rparr>]\<rparr>"

lemma used_ids: "ids_ok used_template 2"
  by (auto simp: ids_ok_def used_template_def bare_template_def blankTemplate_def old_relay_def blankActuator_def row_uid_def)

lemma reconcile_keeps_rows_witness:
  "case reconcileParts used_template (Some two_relays) (Some demo_catalog) 2 of
     (d, n) \<Rightarrow> rows_kept used_template (all_bindings two_relays) d \<and> new_keys_free used_template d"
proof -
  obtain d n where r: "reconcileParts used_template (Some two_relays) (Some demo_catalog) 2 = (d, n)" by fastforce
  then show ?thesis using reconcile_keeps_rows [OF r used_ids] r by (simp add: bindings_after_def)
qed

text \<open>There the old proposal goes with its part, the author's row stays, and the two relays bring one row each.\<close>

lemma two_relays_rows:
  "case reconcileParts used_template (Some two_relays) (Some demo_catalog) 2 of
     (d, n) \<Rightarrow> map ad_key (td_actuators d) = [''relay'', ''relay_2'', ''relay_3''] \<and> n = 4"
  by code_simp

text \<open>
  \<open>validateTemplate\<close> compares keys without their case, \<open>freeKey\<close> does not: a part can propose a key
  the editor then refuses.
\<close>

lemma proposed_key_case:
  "freeKey ''temperature'' [''Temperature''] = ''temperature'' \<and> lower_case ''Temperature'' = lower_case ''temperature''"
  by code_simp


end
