(* ===== verification/Phone_Session.thy ===== *)
theory Phone_Session imports Session Api_Client begin

text \<open>
  The signed-in session of the phone app (\<open>mobile/src/auth\<close>: \<open>session.ts\<close>, \<open>storage.ts\<close>, \<open>AuthProvider.tsx\<close>)
  and its requests (\<open>mobile/src/hooks/useApi.ts\<close>).  Storage is asynchronous here, so a refresh, a
  sign-in and a sign-out are calls that stop at every \<open>await\<close>: a call is its kind and what it awaits,
  and \<open>resume\<close> runs it from one \<open>await\<close> to the next; the API's outcome is an argument.  Where
  the secure store rejects instead of answering, \<open>store_fails\<close> runs on.  Three fields are for the
  proofs: the refresh tokens ever issued, those a refresh was answered for, and those that stayed
  stored because the store failed while their successor was on its way.  Proofs are in \<open>Phone_Facts\<close>.
\<close>

section \<open>session.ts\<close>

definition member_of :: "membership list \<Rightarrow> string option \<Rightarrow> bool" where
  "member_of ms i = (case i of None \<Rightarrow> False | Some t \<Rightarrow> t \<noteq> [] \<and> t \<in> mb_tenant ` set ms)"

definition pickTenant :: "membership list \<Rightarrow> string option \<Rightarrow> string option \<Rightarrow> string option" where
  "pickTenant ms requested remembered =
     (if member_of ms requested then requested else if member_of ms remembered then remembered
      else case ms of [] \<Rightarrow> None | m # _ \<Rightarrow> Some (mb_tenant m))"

definition DELAYS_MS :: "nat list" where "DELAYS_MS = [500, 1500, 3000]"

definition rejected :: "outcome \<Rightarrow> bool" where
  "rejected r = (case r of Http_error st \<Rightarrow> st = 401 \<or> st = 403 | _ \<Rightarrow> False)"

definition signInError :: "outcome \<Rightarrow> string" where
  "signInError r =
     (case r of
        Http_error st \<Rightarrow>
          if st = 401 then ''That email and password don'' @ [CHR 0x27] @ ''t match. Check both and try again.''
          else ''Couldn'' @ [CHR 0x27] @ ''t sign in right now. Try again in a moment.''
      | _ \<Rightarrow> ''Can'' @ [CHR 0x27] @ ''t reach IO Driven. Check your connection and try again.'')"

definition phone_safeNext :: "string option \<Rightarrow> string option" where
  "phone_safeNext nxt =
     (case nxt of None \<Rightarrow> None
      | Some p \<Rightarrow> if starts_with p ''/'' \<and> \<not> starts_with p ''//'' then Some p else None)"

section \<open>AuthProvider.tsx\<close>

datatype call_kind = Refreshing nat | Signing_in | Signing_out

datatype await =
    Reads_token | Calls "string option" | Reads_tenant token_pair | Writes_token token_pair "string option"
  | Writes_tenant token_pair string | Clears_token | Clears_tenant | Sleeps

record phone_session =
  ph_token :: "string option"
  ph_tenant :: "string option"
  ph_state :: auth_state
  ph_calls :: "(nat \<times> call_kind \<times> await) list"
  ph_inFlight :: "nat option"
  ph_count :: nat
  ph_issued :: "string list"
  ph_used :: "string list"
  ph_lost :: "string list"

definition signedOut :: auth_state where
  "signedOut = \<lparr>au_access = None, au_memberships = [], au_tenant = None, au_status = Unauthenticated\<rparr>"

definition filled :: "string option \<Rightarrow> bool" where
  "filled x \<longleftrightarrow> x \<noteq> None \<and> x \<noteq> Some []"

definition signed_in :: "token_pair \<Rightarrow> string option \<Rightarrow> auth_state" where
  "signed_in d t =
     \<lparr>au_access = Some (tp_access d), au_memberships = tp_memberships d, au_tenant = t, au_status = Authenticated\<rparr>"

text \<open>\<open>applySession\<close> and \<open>clearSession\<close> from one \<open>await\<close> to the next; None where they are done.\<close>

fun applies :: "await \<Rightarrow> phone_session \<Rightarrow> phone_session \<times> await option" where
  "applies (Reads_tenant d) s = (s, Some (Writes_token d (pickTenant (tp_memberships d) None (ph_tenant s))))"
| "applies (Writes_token d t) s =
     (if filled t then (s\<lparr>ph_token := Some (tp_refresh d)\<rparr>, Some (Writes_tenant d (the t)))
      else (s\<lparr>ph_token := Some (tp_refresh d), ph_state := signed_in d t\<rparr>, None))"
| "applies (Writes_tenant d t) s = (s\<lparr>ph_tenant := Some t, ph_state := signed_in d (Some t)\<rparr>, None)"
| "applies Clears_token s = (s\<lparr>ph_token := None\<rparr>, Some Clears_tenant)"
| "applies Clears_tenant s = (s\<lparr>ph_tenant := None, ph_state := signedOut\<rparr>, None)"
| "applies w s = (s, None)"

text \<open>The tokens an answer brings and uses up.\<close>

definition rotates :: "string option \<Rightarrow> outcome \<Rightarrow> phone_session \<Rightarrow> phone_session" where
  "rotates t out s =
     (case out of Answer d \<Rightarrow>
        s\<lparr>ph_issued := tp_refresh d # ph_issued s,
          ph_used := (case t of None \<Rightarrow> ph_used s | Some u \<Rightarrow> u # ph_used s)\<rparr>
      | _ \<Rightarrow> s)"

text \<open>The \<open>catch\<close> of a refresh for what is no rejection: another attempt after a pause, or the end.\<close>

definition tries_again :: "nat \<Rightarrow> phone_session \<Rightarrow> phone_session \<times> (call_kind \<times> await) option" where
  "tries_again n s =
     (if length DELAYS_MS \<le> n
      then (s\<lparr>ph_state := (if filled (au_access (ph_state s)) then ph_state s else signedOut)\<rparr>, None)
      else (s, Some (Refreshing n, Sleeps)))"

fun resume :: "call_kind \<Rightarrow> await \<Rightarrow> outcome \<Rightarrow> phone_session \<Rightarrow> phone_session \<times> (call_kind \<times> await) option" where
  "resume (Refreshing n) Reads_token out s =
     (if filled (ph_token s) then (s, Some (Refreshing n, Calls (ph_token s))) else (s\<lparr>ph_state := signedOut\<rparr>, None))"
| "resume (Refreshing n) (Calls t) out s =
     (case out of
        Answer d \<Rightarrow> (rotates t out s, Some (Refreshing n, Reads_tenant d))
      | _ \<Rightarrow> if rejected out then (s, Some (Refreshing n, Clears_token)) else tries_again n s)"
| "resume (Refreshing n) Sleeps out s = (s, Some (Refreshing (Suc n), Reads_token))"
| "resume Signing_in (Calls t) out s =
     (case out of Answer d \<Rightarrow> (rotates None out s, Some (Signing_in, Reads_tenant d)) | _ \<Rightarrow> (s, None))"
| "resume Signing_out Reads_token out s =
     (if filled (ph_token s) then (s, Some (Signing_out, Calls (ph_token s))) else (s, Some (Signing_out, Clears_token)))"
| "resume Signing_out (Calls t) out s = (s, Some (Signing_out, Clears_token))"
| "resume k w out s = (case applies w s of (s', None) \<Rightarrow> (s', None) | (s', Some w') \<Rightarrow> (s', Some (k, w')))"

text \<open>
  The secure store rejects.  Inside \<open>applySession\<close> of a refresh the loop's \<open>catch\<close> takes it (it is no
  rejection of the API's); everywhere else it ends the call, which throws, with the state as it was.
\<close>

definition stores :: "await \<Rightarrow> bool" where
  "stores w \<longleftrightarrow> (case w of Calls t \<Rightarrow> False | Sleeps \<Rightarrow> False | _ \<Rightarrow> True)"

definition keeps_old :: "phone_session \<Rightarrow> phone_session" where
  "keeps_old s =
     (case ph_token s of None \<Rightarrow> s
      | Some u \<Rightarrow> if u \<in> set (ph_used s) then s\<lparr>ph_lost := u # ph_lost s\<rparr> else s)"

fun store_fails :: "call_kind \<Rightarrow> await \<Rightarrow> phone_session \<Rightarrow> phone_session \<times> (call_kind \<times> await) option" where
  "store_fails (Refreshing n) (Reads_tenant d) s = tries_again n (keeps_old s)"
| "store_fails (Refreshing n) (Writes_token d t) s = tries_again n (keeps_old s)"
| "store_fails (Refreshing n) (Writes_tenant d t) s = tries_again n s"
| "store_fails k w s = (s, None)"

definition begins :: "call_kind \<Rightarrow> await \<Rightarrow> phone_session \<Rightarrow> phone_session" where
  "begins k w s = s\<lparr>ph_calls := (ph_count s, k, w) # ph_calls s, ph_count := Suc (ph_count s)\<rparr>"

text \<open>A refresh asked for while one is in flight shares it.\<close>

definition refresh_phone :: "phone_session \<Rightarrow> phone_session" where
  "refresh_phone s =
     (case ph_inFlight s of Some i \<Rightarrow> s
      | None \<Rightarrow> (begins (Refreshing 0) Reads_token s)\<lparr>ph_inFlight := Some (ph_count s)\<rparr>)"

definition login :: "phone_session \<Rightarrow> phone_session" where
  "login s = begins Signing_in (Calls None) s"

definition logout_phone :: "phone_session \<Rightarrow> phone_session" where
  "logout_phone s = begins Signing_out Reads_token s"

definition chooseTenant :: "string \<Rightarrow> phone_session \<Rightarrow> phone_session" where
  "chooseTenant t s = s\<lparr>ph_tenant := Some t, ph_state := (ph_state s)\<lparr>au_tenant := Some t\<rparr>\<rparr>"

definition currentMembership :: "auth_state \<Rightarrow> membership option" where
  "currentMembership a = List.find (\<lambda>m. Some (mb_tenant m) = au_tenant a) (au_memberships a)"

definition put_call :: "nat \<Rightarrow> (call_kind \<times> await) option \<Rightarrow> phone_session \<Rightarrow> phone_session" where
  "put_call i nxt s =
     (case nxt of
        Some (k, w) \<Rightarrow> s\<lparr>ph_calls := map (\<lambda>(j, c). if j = i then (j, k, w) else (j, c)) (ph_calls s)\<rparr>
      | None \<Rightarrow>
          s\<lparr>ph_calls := filter (\<lambda>(j, c). j \<noteq> i) (ph_calls s),
            ph_inFlight := (if ph_inFlight s = Some i then None else ph_inFlight s)\<rparr>)"

definition call_fails :: "nat \<Rightarrow> call_kind \<Rightarrow> await \<Rightarrow> phone_session \<Rightarrow> phone_session" where
  "call_fails i k w s = (case store_fails k w s of (s', nxt) \<Rightarrow> put_call i nxt s')"

definition call_resumes :: "nat \<Rightarrow> call_kind \<Rightarrow> await \<Rightarrow> outcome \<Rightarrow> phone_session \<Rightarrow> phone_session" where
  "call_resumes i k w out s = (case resume k w out s of (s', nxt) \<Rightarrow> put_call i nxt s')"

text \<open>A launch resumes the stored session.\<close>

definition launch :: "string option \<Rightarrow> string option \<Rightarrow> string list \<Rightarrow> string list \<Rightarrow> phone_session" where
  "launch token tenant issued used =
     refresh_phone
       \<lparr>ph_token = token, ph_tenant = tenant, ph_state = signedOut\<lparr>au_status := Loading\<rparr>, ph_calls = [], ph_inFlight = None,
        ph_count = 0, ph_issued = issued, ph_used = used, ph_lost = []\<rparr>"

text \<open>Every refresh token the API hands out is new; \<open>b\<close> says whether the secure store may fail.\<close>

definition fresh_answer :: "outcome \<Rightarrow> phone_session \<Rightarrow> bool" where
  "fresh_answer out s \<longleftrightarrow> (case out of Answer d \<Rightarrow> tp_refresh d \<notin> set (ph_issued s) | _ \<Rightarrow> True)"

inductive phone_runs :: "bool \<Rightarrow> phone_session \<Rightarrow> phone_session \<Rightarrow> bool" for b s where
  here: "phone_runs b s s"
| refresh: "phone_runs b s t \<Longrightarrow> phone_runs b s (refresh_phone t)"
| login: "phone_runs b s t \<Longrightarrow> phone_runs b s (login t)"
| logout: "phone_runs b s t \<Longrightarrow> phone_runs b s (logout_phone t)"
| choose: "phone_runs b s t \<Longrightarrow> phone_runs b s (chooseTenant w t)"
| choose_fails: "phone_runs b s t \<Longrightarrow> b \<Longrightarrow> phone_runs b s ((chooseTenant w t)\<lparr>ph_tenant := ph_tenant t\<rparr>)"
| fails: "phone_runs b s t \<Longrightarrow> b \<Longrightarrow> (i, k, w) \<in> set (ph_calls t) \<Longrightarrow> stores w \<Longrightarrow> phone_runs b s (call_fails i k w t)"
| resumes: "phone_runs b s t \<Longrightarrow> (i, k, w) \<in> set (ph_calls t) \<Longrightarrow> fresh_answer out t \<Longrightarrow> phone_runs b s (call_resumes i k w out t)"

section \<open>useApi.ts\<close>

text \<open>The cached reads a write asks for again; the request's one retry is \<open>withRetry\<close> of the web.\<close>

definition revalidated :: "string \<Rightarrow> bool" where
  "revalidated key \<longleftrightarrow> \<not> contains key ''/data?metric='' \<and> \<not> ends_with key ''/latest''"

end
