(* ===== verification/Phone_Facts.thy ===== *)
theory Phone_Facts imports Phone_Session begin

text \<open>
  The phone's session under interleaving: one refresh runs at a time, no call presents a token that
  was rotated away unless the secure store failed to take its successor, and every call ends; and what
  such a failure, a sign-out during a refresh, or the end of the app in the middle of one leave behind.
\<close>

section \<open>Calls that interleave\<close>

text \<open>The new token a call holds and has not written yet, and the token a refresh presents.\<close>

definition carries :: "await \<Rightarrow> string option" where
  "carries w = (case w of Reads_tenant d \<Rightarrow> Some (tp_refresh d) | Writes_token d t \<Rightarrow> Some (tp_refresh d) | _ \<Rightarrow> None)"

fun refreshing :: "call_kind \<Rightarrow> bool" where
  "refreshing (Refreshing n) = True"
| "refreshing k = False"

definition presents :: "call_kind \<Rightarrow> await \<Rightarrow> string option" where
  "presents k w = (if refreshing k then (case w of Calls t \<Rightarrow> t | _ \<Rightarrow> None) else None)"

type_synonym running = "nat \<Rightarrow> (call_kind \<times> await) option"

definition hand :: "running \<Rightarrow> nat \<Rightarrow> string option" where
  "hand c i = (case c i of None \<Rightarrow> None | Some (k, w) \<Rightarrow> carries w)"

definition shown :: "running \<Rightarrow> nat \<Rightarrow> string option" where
  "shown c i = (case c i of None \<Rightarrow> None | Some (k, w) \<Rightarrow> presents k w)"

definition refreshes :: "running \<Rightarrow> nat \<Rightarrow> bool" where
  "refreshes c i = (case c i of None \<Rightarrow> False | Some (k, w) \<Rightarrow> refreshing k)"

text \<open>
  Tokens in hands \<open>h\<close> and shown \<open>q\<close>, which calls refresh \<open>r\<close>, the stored token, those issued and used: a
  token in a hand is new, in one hand and nowhere else; a shown one is not used; a stored one is used
  only while a refresh holds its successor.
\<close>

definition fresh_ok ::
    "(nat \<Rightarrow> string option) \<Rightarrow> (nat \<Rightarrow> string option) \<Rightarrow> string option \<Rightarrow> string set \<Rightarrow> string set \<Rightarrow> bool" where
  "fresh_ok h q tok iss us \<longleftrightarrow>
     us \<subseteq> iss \<and> (\<forall>u. tok = Some u \<longrightarrow> u \<in> iss) \<and>
     (\<forall>i u. h i = Some u \<longrightarrow> u \<in> iss \<and> u \<notin> us \<and> tok \<noteq> Some u) \<and>
     (\<forall>i j u. h i = Some u \<longrightarrow> q j \<noteq> Some u) \<and>
     (\<forall>i j u. h i = Some u \<longrightarrow> h j = Some u \<longrightarrow> i = j) \<and>
     (\<forall>i u. q i = Some u \<longrightarrow> u \<in> iss \<and> u \<notin> us)"

definition succeeded :: "(nat \<Rightarrow> string option) \<Rightarrow> (nat \<Rightarrow> bool) \<Rightarrow> string option \<Rightarrow> string set \<Rightarrow> bool" where
  "succeeded h r tok us \<longleftrightarrow> (\<forall>u. tok = Some u \<longrightarrow> u \<in> us \<longrightarrow> (\<exists>i. r i \<and> h i \<noteq> None))"

definition tokens_ok ::
    "(nat \<Rightarrow> string option) \<Rightarrow> (nat \<Rightarrow> string option) \<Rightarrow> (nat \<Rightarrow> bool) \<Rightarrow> string option \<Rightarrow> string set \<Rightarrow> string set \<Rightarrow> bool" where
  "tokens_ok h q r tok iss us \<longleftrightarrow> fresh_ok h q tok iss us \<and> (\<forall>i. q i \<noteq> None \<longrightarrow> r i) \<and> succeeded h r tok us"

lemma fresh_same: "fresh_ok h q tok iss us \<Longrightarrow> tok' = tok \<or> tok' = None \<Longrightarrow> fresh_ok h (q(i := None)) tok' iss us"
  unfolding fresh_ok_def by (auto split: if_splits)

lemma succeeded_other:
  assumes "succeeded h r tok us" "h i = None" "tok' = tok \<or> tok' = None"
  shows "succeeded h (r(i := b)) tok' us"
proof -
  have "j \<noteq> i" if "h j \<noteq> None" for j using assms(2) that by auto
  then show ?thesis using assms(1,3) unfolding succeeded_def by (metis fun_upd_other option.distinct(1))
qed

lemma tokens_same:
  assumes "tokens_ok h q r tok iss us" "tok' = tok \<or> tok' = None"
  shows "tokens_ok h (q(i := None)) r tok' iss us"
proof -
  have "succeeded h r tok' us" using assms unfolding tokens_ok_def succeeded_def by auto
  then show ?thesis using assms fresh_same [OF _ assms(2)] by (simp add: tokens_ok_def)
qed

lemma tokens_starts:
  assumes "tokens_ok h q r tok iss us" "h i = None" "q i = None"
  shows "tokens_ok h q (r(i := b)) tok iss us"
  using assms succeeded_other [of h r tok us i tok b] by (auto simp: tokens_ok_def)

lemma tokens_ends:
  assumes "tokens_ok h q r tok iss us" "h i = None" "tok' = tok \<or> tok' = None"
  shows "tokens_ok h (q(i := None)) (r(i := False)) tok' iss us"
  using assms(1) succeeded_other [of h r tok us i tok' False] assms(2,3) fresh_same [of h q tok iss us tok' i]
  by (simp add: tokens_ok_def)

lemma tokens_written:
  assumes "tokens_ok h q r tok iss us" "h i = Some u"
  shows "tokens_ok (h(i := None)) (q(i := None)) (r(i := b)) (Some u) iss us"
proof -
  have f: "fresh_ok h q tok iss us" "\<And>i. q i \<noteq> None \<Longrightarrow> r i" using assms(1) by (simp_all add: tokens_ok_def)
  have u: "u \<notin> us" "u \<in> iss" using f(1) assms(2) unfolding fresh_ok_def by blast+
  have "h j \<noteq> Some u" if "j \<noteq> i" for j using f(1) assms(2) that unfolding fresh_ok_def by blast
  then have "fresh_ok (h(i := None)) (q(i := None)) (Some u) iss us"
    using f(1) u unfolding fresh_ok_def by (auto split: if_splits)
  then show ?thesis using f(2) u(1) by (simp add: tokens_ok_def succeeded_def)
qed

lemma tokens_shown:
  assumes "tokens_ok h q r (Some u) iss us" "h i = None" "r i" "\<And>j. r j \<Longrightarrow> j = i"
  shows "tokens_ok h (q(i := Some u)) r (Some u) iss us"
proof -
  have f: "fresh_ok h q (Some u) iss us" "succeeded h r (Some u) us" "\<And>i. q i \<noteq> None \<Longrightarrow> r i" using assms(1) by (simp_all add: tokens_ok_def)
  have "u \<notin> us" using f(2) assms(2,4) unfolding succeeded_def by force
  then have "fresh_ok h (q(i := Some u)) (Some u) iss us" using f(1) unfolding fresh_ok_def by (auto split: if_splits)
  then show ?thesis using f assms(3) by (simp add: tokens_ok_def)
qed

lemma tokens_new:
  assumes "tokens_ok h q r tok iss us" "h i = None" "v \<notin> iss"
  shows "tokens_ok (h(i := Some v)) q r tok (insert v iss) us"
proof -
  have f: "fresh_ok h q tok iss us" "succeeded h r tok us" using assms(1) by (simp_all add: tokens_ok_def)
  have "v \<notin> us" "tok \<noteq> Some v" "\<And>j. h j \<noteq> Some v" "\<And>j. q j \<noteq> Some v" using f(1) assms(3) unfolding fresh_ok_def by blast+
  then have "fresh_ok (h(i := Some v)) q tok (insert v iss) us" using f(1) unfolding fresh_ok_def by (auto split: if_splits)
  moreover have "succeeded (h(i := Some v)) r tok us" using f(2) unfolding succeeded_def by (metis fun_upd_other fun_upd_same option.distinct(1))
  ultimately show ?thesis using assms(1) by (simp add: tokens_ok_def)
qed

lemma tokens_used:
  assumes "tokens_ok h q r tok iss us" "h i \<noteq> None" "r i" "\<And>j. r j \<Longrightarrow> j = i" "q i = Some u"
  shows "tokens_ok h (q(i := None)) r tok iss (insert u us)"
proof -
  have f: "fresh_ok h q tok iss us" "\<And>i. q i \<noteq> None \<Longrightarrow> r i" using assms(1) by (simp_all add: tokens_ok_def)
  have "u \<in> iss" "\<And>j. h j \<noteq> Some u" using f(1) assms(5) unfolding fresh_ok_def by blast+
  moreover have "q j = None" if "j \<noteq> i" for j using f(2) assms(4) that by (cases "q j") auto
  ultimately have "fresh_ok h (q(i := None)) tok iss (insert u us)"
    using f(1) unfolding fresh_ok_def by (auto split: if_splits)
  moreover have "succeeded h r tok (insert u us)" using assms(2,3) unfolding succeeded_def by blast
  ultimately show ?thesis using f(2) by (simp add: tokens_ok_def)
qed

text \<open>A hand that lets go: of a sign-in, or of a refresh whose stored token then no longer counts.\<close>

lemma fresh_dropped:
  assumes "fresh_ok h q tok iss us" "us' \<subseteq> us"
  shows "fresh_ok (h(i := None)) (q(i := None)) tok iss us'"
  using assms unfolding fresh_ok_def by (auto split: if_splits)

lemma tokens_dropped:
  assumes "tokens_ok h q r tok iss us" "\<not> r i"
  shows "tokens_ok (h(i := None)) (q(i := None)) (r(i := False)) tok iss us"
proof -
  have "succeeded (h(i := None)) (r(i := False)) tok us"
    using assms unfolding tokens_ok_def succeeded_def by (metis fun_upd_other)
  then show ?thesis using assms fresh_dropped [of h q tok iss us us i] by (simp add: tokens_ok_def)
qed

lemma tokens_lost:
  assumes "tokens_ok h q r tok iss us" "us' = us - set_option tok"
  shows "tokens_ok (h(i := None)) (q(i := None)) (r(i := b)) tok iss us'"
proof -
  have "succeeded (h(i := None)) (r(i := b)) tok us'" using assms(2) by (auto simp: succeeded_def)
  then show ?thesis using assms fresh_dropped [of h q tok iss us us' i] by (auto simp: tokens_ok_def)
qed

section \<open>The invariant of the session\<close>

definition live_used :: "phone_session \<Rightarrow> string set" where
  "live_used s = set (ph_used s) - set (ph_lost s)"

lemma live_used_same [simp]:
  "live_used (s\<lparr>ph_token := a\<rparr>) = live_used s" "live_used (s\<lparr>ph_tenant := b\<rparr>) = live_used s"
  "live_used (s\<lparr>ph_state := e\<rparr>) = live_used s" "live_used (s\<lparr>ph_calls := f\<rparr>) = live_used s"
  "live_used (s\<lparr>ph_inFlight := g\<rparr>) = live_used s" "live_used (s\<lparr>ph_count := n\<rparr>) = live_used s"
  by (simp_all add: live_used_def)

text \<open>What the running calls say of hands, shown tokens and refreshing calls, as the calls change.\<close>

lemma put_views:
  "hand (c(i \<mapsto> (k, w))) = (hand c)(i := carries w)" "shown (c(i \<mapsto> (k, w))) = (shown c)(i := presents k w)"
  "refreshes (c(i \<mapsto> (k, w))) = (refreshes c)(i := refreshing k)"
  "hand (c(i := None)) = (hand c)(i := None)" "shown (c(i := None)) = (shown c)(i := None)"
  "refreshes (c(i := None)) = (refreshes c)(i := False)"
  by (auto simp: hand_def shown_def refreshes_def fun_eq_iff)

definition session_ok :: "running \<Rightarrow> phone_session \<Rightarrow> bool" where
  "session_ok c s \<longleftrightarrow>
     (\<forall>i. ph_inFlight s = Some i \<longleftrightarrow> refreshes c i) \<and>
     tokens_ok (hand c) (shown c) (refreshes c) (ph_token s) (set (ph_issued s)) (live_used s)"

definition phone_ok :: "phone_session \<Rightarrow> bool" where
  "phone_ok s \<longleftrightarrow>
     distinct (map fst (ph_calls s)) \<and> (\<forall>i\<in>fst ` set (ph_calls s). i < ph_count s) \<and> session_ok (map_of (ph_calls s)) s"

lemma put_call_map:
  "distinct (map fst cs) \<Longrightarrow> i \<in> fst ` set cs \<Longrightarrow>
     map_of (map (\<lambda>(j, c). if j = i then (j, k, w) else (j, c)) cs) = (map_of cs)(i \<mapsto> (k, w))"
proof (induction cs)
  case (Cons x cs)
  obtain j c where x: "x = (j, c)" by (cases x)
  show ?case
  proof (cases "j = i")
    case True
    then have "i \<notin> fst ` set cs" using Cons.prems by (simp add: x)
    then have "map (\<lambda>(j, c). if j = i then (j, k, w) else (j, c)) cs = cs" by (intro map_idI) (auto simp: image_iff)
    then show ?thesis using True by (simp add: x fun_eq_iff)
  next
    case False
    then show ?thesis using Cons by (auto simp: x fun_upd_twist)
  qed
qed simp

lemma drop_call_map: "map_of (filter (\<lambda>(j, c). j \<noteq> i) cs) = (map_of cs)(i := None)"
proof (induction cs)
  case (Cons x cs)
  then show ?case by (cases x) (auto simp: fun_upd_twist)
qed simp

lemma put_call_keys: "map fst (map (\<lambda>(j, c). if j = i then (j, k, w) else (j, c)) cs) = map fst cs"
  by (induction cs) auto

text \<open>A call that goes on or ends keeps the rest in order when the views do.\<close>

lemma phone_ok_put:
  assumes "phone_ok s" "(i, k, w) \<in> set (ph_calls s)" "ph_calls s' = ph_calls s" "ph_count s' = ph_count s"
    "session_ok (case nxt of None \<Rightarrow> (map_of (ph_calls s))(i := None) | Some x \<Rightarrow> (map_of (ph_calls s))(i \<mapsto> x)) (put_call i nxt s')"
  shows "phone_ok (put_call i nxt s')"
proof (cases nxt)
  case None
  then show ?thesis using assms
    by (auto simp: phone_ok_def put_call_def drop_call_map distinct_map_filter)
next
  case (Some x)
  obtain k' w' where x: "x = (k', w')" by (cases x)
  have mem: "i \<in> fst ` set (ph_calls s)" using assms(2) by force
  define cs where "cs = map (\<lambda>(j, c). if j = i then (j, k', w') else (j, c)) (ph_calls s)"
  have keys: "map fst cs = map fst (ph_calls s)" unfolding cs_def by (rule put_call_keys)
  have "ph_calls (put_call i nxt s') = cs" using assms(3) by (simp add: put_call_def Some x cs_def)
  moreover have "map_of cs = (map_of (ph_calls s))(i \<mapsto> (k', w'))"
    unfolding cs_def using assms(1) by (intro put_call_map mem) (simp add: phone_ok_def)
  moreover have "fst ` set cs = fst ` set (ph_calls s)" using arg_cong [OF keys, of set] by (simp only: set_map)
  moreover have "ph_count (put_call i nxt s') = ph_count s" using assms(4) by (simp add: put_call_def Some x)
  ultimately show ?thesis using assms(1,5) keys unfolding phone_ok_def by (simp only: Some x option.case) blast
qed

lemma put_call_fields [simp]:
  "ph_token (put_call i x s) = ph_token s" "ph_issued (put_call i x s) = ph_issued s" "ph_used (put_call i x s) = ph_used s"
  "ph_lost (put_call i x s) = ph_lost s" "live_used (put_call i x s) = live_used s"
  "ph_count (put_call i x s) = ph_count s" "ph_state (put_call i x s) = ph_state s" "ph_tenant (put_call i x s) = ph_tenant s"
  "ph_inFlight (put_call i (Some y) s) = ph_inFlight s"
  "ph_inFlight (put_call i None s) = (if ph_inFlight s = Some i then None else ph_inFlight s)"
  by (auto simp: put_call_def live_used_def split: option.splits prod.splits)

lemma seen:
  assumes "c i = Some (k, w)"
  shows "hand c i = carries w" "shown c i = presents k w" "refreshes c i = refreshing k"
    "(hand c)(i := carries w) = hand c" "(refreshes c)(i := refreshing k) = refreshes c"
  using assms by (auto simp: hand_def shown_def refreshes_def fun_eq_iff)

lemma one_refresh:
  assumes "session_ok c s" "c i = Some (k, w)" "refreshing k" "refreshes c j"
  shows "j = i"
proof -
  have "ph_inFlight s = Some i" "ph_inFlight s = Some j" using assms by (auto simp: session_ok_def refreshes_def)
  then show ?thesis by simp
qed

lemma goes_on:
  assumes "session_ok c s" "c i = Some (k, w)" "refreshing k' = refreshing k" "carries w' = carries w" "presents k' w' = None"
    "ph_inFlight s' = ph_inFlight s" "ph_token s' = ph_token s \<or> ph_token s' = None" "ph_issued s' = ph_issued s" "live_used s' = live_used s"
  shows "session_ok (c(i \<mapsto> (k', w'))) (put_call i (Some (k', w')) s')"
proof -
  note v = seen [of c i, OF assms(2)]
  have "tokens_ok (hand c) ((shown c)(i := None)) (refreshes c) (ph_token s') (set (ph_issued s)) (live_used s)"
    by (rule tokens_same [OF _ assms(7)]) (use assms(1) in \<open>simp add: session_ok_def\<close>)
  then show ?thesis using assms(1,6,8,9) v by (simp add: session_ok_def put_views assms(3-5))
qed

lemma writes_on:
  assumes "session_ok c s" "c i = Some (k, w)" "refreshing k' = refreshing k" "carries w = Some u" "carries w' = None" "presents k' w' = None"
    "ph_inFlight s' = ph_inFlight s" "ph_token s' = Some u" "ph_issued s' = ph_issued s" "live_used s' = live_used s"
  shows "session_ok (c(i \<mapsto> (k', w'))) (put_call i (Some (k', w')) s')"
proof -
  note v = seen [of c i, OF assms(2)]
  have "tokens_ok ((hand c)(i := None)) ((shown c)(i := None)) ((refreshes c)(i := refreshing k)) (Some u) (set (ph_issued s)) (live_used s)"
    using assms(1,4) v(1) by (intro tokens_written [where tok = "ph_token s" and u = u]) (simp_all add: session_ok_def)
  then show ?thesis using assms(1,7-10) v by (simp add: session_ok_def put_views assms(3,5,6))
qed

lemma ends:
  assumes "session_ok c s" "c i = Some (k, w)" "ph_inFlight s' = ph_inFlight s" "ph_issued s' = ph_issued s" "live_used s' = live_used s"
    "carries w = None \<and> (ph_token s' = ph_token s \<or> ph_token s' = None) \<or> carries w \<noteq> None \<and> ph_token s' = carries w"
  shows "session_ok (c(i := None)) (put_call i None s')"
proof -
  note v = seen [of c i, OF assms(2)]
  have "tokens_ok ((hand c)(i := None)) ((shown c)(i := None)) ((refreshes c)(i := False)) (ph_token s') (set (ph_issued s)) (live_used s)"
  proof (cases "carries w")
    case None
    then have "(hand c)(i := None) = hand c" using v(4) by simp
    then show ?thesis using tokens_ends [of "hand c" "shown c" "refreshes c" "ph_token s" "set (ph_issued s)" "live_used s" i "ph_token s'"]
        assms(1,6) None v(1) by (simp add: session_ok_def)
  next
    case (Some u)
    then show ?thesis using tokens_written [of "hand c" "shown c" "refreshes c" "ph_token s" "set (ph_issued s)" "live_used s" i u False]
        assms(1,6) v(1) by (simp add: session_ok_def)
  qed
  moreover have "ph_inFlight (put_call i None s') = Some j \<longleftrightarrow> refreshes (c(i := None)) j" for j
  proof -
    have "ph_inFlight s = Some i \<longleftrightarrow> refreshes c i" "ph_inFlight s = Some j \<longleftrightarrow> refreshes c j" using assms(1) by (simp_all add: session_ok_def)
    then show ?thesis by (cases "j = i") (auto simp: put_views assms(3))
  qed
  ultimately show ?thesis unfolding session_ok_def by (simp add: put_views(4-6) assms(4,5) del: put_call_fields(10))
qed

lemma shows_on:
  assumes "session_ok c s" "c i = Some (k, w)" "refreshing k" "refreshing k'" "carries w = None" "ph_token s = Some u"
  shows "session_ok (c(i \<mapsto> (k', Calls (Some u)))) (put_call i (Some (k', Calls (Some u))) s)"
proof -
  note v = seen [of c i, OF assms(2)]
  have "tokens_ok (hand c) ((shown c)(i := Some u)) (refreshes c) (Some u) (set (ph_issued s)) (live_used s)"
  proof (rule tokens_shown)
    show "tokens_ok (hand c) (shown c) (refreshes c) (Some u) (set (ph_issued s)) (live_used s)"
      using assms(1,6) by (simp add: session_ok_def)
    show "hand c i = None" "refreshes c i" using v(1,3) assms(3,5) by simp_all
    show "j = i" if "refreshes c j" for j using one_refresh [OF assms(1-3) that] .
  qed
  moreover have "carries (Calls (Some u)) = None" "presents k' (Calls (Some u)) = Some u" using assms(4) by (simp_all add: carries_def presents_def)
  ultimately show ?thesis using assms(1,3-6) v by (simp add: session_ok_def put_views)
qed

lemma answer_on:
  assumes "session_ok c s" "c i = Some (k, Calls t)" "refreshing k' = refreshing k" "tp_refresh d \<notin> set (ph_issued s)"
  shows "session_ok (c(i \<mapsto> (k', Reads_tenant d)))
    (put_call i (Some (k', Reads_tenant d)) (rotates (if refreshing k then t else None) (Answer d) s))"
proof -
  note v = seen [of c i, OF assms(2)]
  let ?h = "(hand c)(i := Some (tp_refresh d))" and ?iss = "insert (tp_refresh d) (set (ph_issued s))"
  have new: "tokens_ok ?h (shown c) (refreshes c) (ph_token s) ?iss (live_used s)"
    using assms(1,4) v(1) by (intro tokens_new) (simp_all add: session_ok_def carries_def)
  have "tokens_ok ?h ((shown c)(i := None)) (refreshes c) (ph_token s) ?iss
      (live_used (rotates (if refreshing k then t else None) (Answer d) s))"
  proof (cases "refreshing k \<and> t \<noteq> None \<and> the t \<notin> set (ph_lost s)")
    case True
    then obtain u where t: "t = Some u" by auto
    have "tokens_ok ?h ((shown c)(i := None)) (refreshes c) (ph_token s) ?iss (insert u (live_used s))"
    proof (rule tokens_used [OF new])
      show "?h i \<noteq> None" by simp
      show "refreshes c i" "shown c i = Some u" using v(2,3) True t by (simp_all add: presents_def)
      show "j = i" if "refreshes c j" for j using one_refresh [OF assms(1,2) _ that] True by simp
    qed
    then show ?thesis using True t by (simp add: rotates_def live_used_def insert_Diff_if)
  next
    case False
    then have "live_used (rotates (if refreshing k then t else None) (Answer d) s) = live_used s"
      by (cases t) (auto simp: rotates_def live_used_def)
    then show ?thesis using tokens_same [OF new, of "ph_token s"] by simp
  qed
  moreover have "carries (Reads_tenant d) = Some (tp_refresh d)" "presents k' (Reads_tenant d) = None" by (simp_all add: carries_def presents_def)
  ultimately show ?thesis using assms(1,3) v by (cases "refreshing k"; simp add: session_ok_def put_views; simp add: rotates_def)
qed

definition step_ok :: "running \<Rightarrow> nat \<Rightarrow> phone_session \<times> (call_kind \<times> await) option \<Rightarrow> bool" where
  "step_ok c i r = (case r of (s', None) \<Rightarrow> session_ok (c(i := None)) (put_call i None s') | (s', Some x) \<Rightarrow> session_ok (c(i \<mapsto> x)) (put_call i (Some x) s'))"

lemmas await_views = carries_def presents_def

lemma applies_ok:
  assumes "session_ok c s" "c i = Some (k, w)"
  shows "step_ok c i (case applies w s of (s', None) \<Rightarrow> (s', None) | (s', Some w') \<Rightarrow> (s', Some (k, w')))"
proof (cases w)
  case (Reads_tenant d)
  show ?thesis using goes_on [OF assms] by (simp add: Reads_tenant step_ok_def await_views)
next
  case (Writes_token d t)
  have "carries w = Some (tp_refresh d)" by (simp add: Writes_token carries_def)
  note wr = writes_on [OF assms _ this] and en = ends [OF assms]
  show ?thesis using wr en by (cases "filled t") (simp_all add: Writes_token step_ok_def await_views)
next
  case Clears_token
  show ?thesis using goes_on [OF assms] by (simp add: Clears_token step_ok_def await_views)
qed (use ends [OF assms] in \<open>simp_all add: step_ok_def await_views\<close>)

lemma again_ok:
  assumes "session_ok c s" "c i = Some (Refreshing n, w)" "carries w = None"
  shows "step_ok c i (tries_again n s)"
proof (cases "length DELAYS_MS \<le> n")
  case True
  then show ?thesis using ends [OF assms(1,2)] assms(3) by (simp add: tries_again_def step_ok_def)
next
  case False
  then show ?thesis using goes_on [OF assms(1,2)] assms(3) by (simp add: tries_again_def step_ok_def await_views)
qed

lemma resume_ok:
  assumes "session_ok c s" "c i = Some (k, w)" "fresh_answer out s"
  shows "step_ok c i (resume k w out s)"
proof -
  note go = goes_on [OF assms(1,2)] and en = ends [OF assms(1,2)] and ap = applies_ok [OF assms(1,2)]
  have read: "step_ok c i (resume (Refreshing n) Reads_token out s)" if "k = Refreshing n" "w = Reads_token" for n
  proof (cases "filled (ph_token s)")
    case True
    then obtain u where "ph_token s = Some u" by (auto simp: filled_def)
    then show ?thesis using True shows_on [OF assms(1,2), of "Refreshing n" u] that by (simp add: step_ok_def carries_def)
  next
    case False
    then show ?thesis using en that by (simp add: step_ok_def carries_def)
  qed
  have call: "step_ok c i (resume (Refreshing n) (Calls t) out s)" if "k = Refreshing n" "w = Calls t" for n t
  proof (cases out)
    case (Answer d)
    then show ?thesis using answer_on [OF assms(1), of i k t "Refreshing n" d] assms(2,3) that by (simp add: step_ok_def fresh_answer_def)
  next
    case (Http_error st)
    then show ?thesis using go again_ok [OF assms(1), of i n w] assms(2) that
      by (cases "rejected out") (simp_all add: step_ok_def await_views)
  next
    case No_answer
    then show ?thesis using again_ok [OF assms(1), of i n w] assms(2) that by (simp add: rejected_def await_views)
  qed
  have log: "step_ok c i (resume Signing_in (Calls t) out s)" if "k = Signing_in" "w = Calls t" for t
  proof (cases out)
    case (Answer d)
    then show ?thesis using answer_on [OF assms(1), of i k t Signing_in d] assms(2,3) that by (simp add: step_ok_def fresh_answer_def)
  qed (use en that in \<open>simp_all add: step_ok_def await_views\<close>)
  show ?thesis
    by (cases "(k, w, out, s)" rule: resume.cases) (use read call log go en ap in \<open>simp_all add: step_ok_def await_views\<close>)
qed

text \<open>The store fails.\<close>

lemma keeps_old_fields [simp]:
  "ph_token (keeps_old s) = ph_token s" "ph_issued (keeps_old s) = ph_issued s" "ph_inFlight (keeps_old s) = ph_inFlight s"
  "ph_calls (keeps_old s) = ph_calls s" "ph_count (keeps_old s) = ph_count s" "ph_used (keeps_old s) = ph_used s"
  "live_used (keeps_old s) = live_used s - set_option (ph_token s)"
  by (auto simp: keeps_old_def live_used_def split: option.splits)

lemma drops:
  assumes "session_ok c s" "c i = Some (k, w)" "\<not> refreshing k"
  shows "session_ok (c(i := None)) (put_call i None s)"
proof -
  note v = seen [of c i, OF assms(2)]
  have "tokens_ok ((hand c)(i := None)) ((shown c)(i := None)) ((refreshes c)(i := False)) (ph_token s) (set (ph_issued s)) (live_used s)"
    using assms(1,3) v(3) by (intro tokens_dropped) (simp_all add: session_ok_def)
  moreover have "ph_inFlight (put_call i None s) = Some j \<longleftrightarrow> refreshes (c(i := None)) j" for j
  proof -
    have "ph_inFlight s = Some i \<longleftrightarrow> refreshes c i" "ph_inFlight s = Some j \<longleftrightarrow> refreshes c j" using assms(1) by (simp_all add: session_ok_def)
    then show ?thesis by (cases "j = i") (auto simp: put_views)
  qed
  ultimately show ?thesis unfolding session_ok_def by (simp add: put_views(4-6) del: put_call_fields(10))
qed

lemma loses:
  assumes "session_ok c s" "c i = Some (Refreshing n, w)"
  shows "step_ok c i (tries_again n (keeps_old s))"
proof -
  note v = seen [of c i, OF assms(2)]
  have tok: "tokens_ok ((hand c)(i := None)) ((shown c)(i := None)) ((refreshes c)(i := b)) (ph_token s) (set (ph_issued s))
      (live_used (keeps_old s))" for b
    using assms(1) by (intro tokens_lost [of "hand c" "shown c" "refreshes c"]) (simp_all add: session_ok_def)
  have fly: "ph_inFlight s = Some j \<longleftrightarrow> refreshes c j" for j using assms(1) by (simp add: session_ok_def)
  have "(refreshes c)(i := True) = refreshes c" using v(5) by simp
  then have "session_ok (c(i \<mapsto> (Refreshing n, Sleeps))) (put_call i (Some (Refreshing n, Sleeps)) (keeps_old s))"
    using tok [of True] fly by (simp add: session_ok_def put_views await_views)
  moreover have "session_ok (c(i := None)) (put_call i None ((keeps_old s)\<lparr>ph_state := a\<rparr>))" for a
  proof -
    have "ph_inFlight (put_call i None ((keeps_old s)\<lparr>ph_state := a\<rparr>)) = Some j \<longleftrightarrow> refreshes (c(i := None)) j" for j
      using fly [of i] fly [of j] v(3) by (cases "j = i") (auto simp: put_views)
    then show ?thesis using tok [of False] unfolding session_ok_def by (simp add: put_views(4-6) del: put_call_fields(10))
  qed
  ultimately show ?thesis by (simp add: tries_again_def step_ok_def)
qed

lemma store_fails_ok:
  assumes "session_ok c s" "c i = Some (k, w)" "stores w"
  shows "step_ok c i (store_fails k w s)"
proof -
  note go = goes_on [OF assms(1,2)] and en = ends [OF assms(1,2)] and dr = drops [OF assms(1,2)]
  have lost: "step_ok c i (tries_again n (keeps_old s))" if "k = Refreshing n" for n
    using loses [OF assms(1), of i n w] assms(2) that by simp
  have again: "step_ok c i (tries_again n s)" if "k = Refreshing n" "carries w = None" for n
    using again_ok [OF assms(1), of i n w] assms(2) that by simp
  show ?thesis
    by (cases "(k, w, s)" rule: store_fails.cases)
       (use lost again en dr assms(3) in \<open>simp_all add: step_ok_def await_views stores_def\<close>)
qed

section \<open>Runs\<close>

lemma store_fails_fields:
  "ph_calls (fst (store_fails k w s)) = ph_calls s \<and> ph_count (fst (store_fails k w s)) = ph_count s"
  by (cases "(k, w, s)" rule: store_fails.cases) (simp_all add: tries_again_def)

lemma applies_fields:
  "ph_calls (fst (applies w s)) = ph_calls s" "ph_count (fst (applies w s)) = ph_count s"
  by (cases w; simp add: Let_def)+

lemma resume_fields:
  "ph_calls (fst (resume k w out s)) = ph_calls s \<and> ph_count (fst (resume k w out s)) = ph_count s"
proof -
  have ap: "ph_calls (fst (case applies w s of (s', None) \<Rightarrow> (s', None) | (s', Some w') \<Rightarrow> (s', Some (k, w')))) = ph_calls s \<and>
      ph_count (fst (case applies w s of (s', None) \<Rightarrow> (s', None) | (s', Some w') \<Rightarrow> (s', Some (k, w')))) = ph_count s"
    for k w using applies_fields [of w s] by (auto split: prod.split option.split)
  show ?thesis
    by (cases "(k, w, out, s)" rule: resume.cases) (use ap in \<open>auto simp: rotates_def tries_again_def split: outcome.split option.split\<close>)
qed

lemma free_id: "phone_ok s \<Longrightarrow> map_of (ph_calls s) (ph_count s) = None"
  by (auto simp: phone_ok_def map_of_eq_None_iff)

lemma begins_ok:
  assumes "phone_ok s" "\<not> refreshing k" "carries w = None"
  shows "phone_ok (begins k w s)"
proof -
  let ?c = "map_of (ph_calls s)" and ?n = "ph_count s"
  have n: "?c ?n = None" by (rule free_id [OF assms(1)])
  have "hand ?c ?n = None" "shown ?c ?n = None" "\<not> refreshes ?c ?n" using n by (simp_all add: hand_def shown_def refreshes_def)
  then have same: "(hand ?c)(?n := None) = hand ?c" "(shown ?c)(?n := None) = shown ?c" "(refreshes ?c)(?n := False) = refreshes ?c"
    by (auto simp: fun_eq_iff)
  have "session_ok (?c(?n \<mapsto> (k, w))) (begins k w s)"
    using assms same by (simp add: session_ok_def put_views begins_def phone_ok_def presents_def)
  then show ?thesis using assms(1) by (auto simp: phone_ok_def begins_def)
qed

lemma refresh_ok_phone:
  assumes "phone_ok s"
  shows "phone_ok (refresh_phone s)"
proof (cases "ph_inFlight s")
  case None
  let ?c = "map_of (ph_calls s)" and ?n = "ph_count s"
  have n: "?c ?n = None" by (rule free_id [OF assms])
  then have v: "hand ?c ?n = None" "shown ?c ?n = None" by (simp_all add: hand_def shown_def)
  have no: "\<not> refreshes ?c j" for j using assms None by (simp add: phone_ok_def session_ok_def)
  have same: "(hand ?c)(?n := None) = hand ?c" "(shown ?c)(?n := None) = shown ?c" using v by (auto simp: fun_eq_iff)
  have "tokens_ok (hand ?c) (shown ?c) ((refreshes ?c)(?n := True)) (ph_token s) (set (ph_issued s)) (live_used s)"
    using assms v by (intro tokens_starts) (simp_all add: phone_ok_def session_ok_def)
  then have "session_ok (?c(?n \<mapsto> (Refreshing 0, Reads_token))) (refresh_phone s)"
    using None no same by (auto simp: session_ok_def put_views refresh_phone_def begins_def await_views)
  then show ?thesis using assms None by (auto simp: phone_ok_def refresh_phone_def begins_def)
qed (simp add: refresh_phone_def assms)

lemma call_resumes_ok:
  assumes "phone_ok s" "(i, k, w) \<in> set (ph_calls s)" "fresh_answer out s"
  shows "phone_ok (call_resumes i k w out s)"
proof -
  obtain s' nxt where r: "resume k w out s = (s', nxt)" by (cases "resume k w out s")
  have c: "map_of (ph_calls s) i = Some (k, w)" using assms(1,2) by (simp add: phone_ok_def)
  have "step_ok (map_of (ph_calls s)) i (s', nxt)" using resume_ok [of "map_of (ph_calls s)" s i k w out] c assms(1,3) r by (simp add: phone_ok_def)
  then have "session_ok (case nxt of None \<Rightarrow> (map_of (ph_calls s))(i := None) | Some x \<Rightarrow> (map_of (ph_calls s))(i \<mapsto> x)) (put_call i nxt s')"
    by (cases nxt) (simp_all add: step_ok_def)
  moreover have "ph_calls s' = ph_calls s" "ph_count s' = ph_count s" using resume_fields [of k w out s] r by simp_all
  ultimately show ?thesis using phone_ok_put [OF assms(1,2)] r by (simp add: call_resumes_def)
qed

lemma call_fails_ok:
  assumes "phone_ok s" "(i, k, w) \<in> set (ph_calls s)" "stores w"
  shows "phone_ok (call_fails i k w s)"
proof -
  obtain s' nxt where r: "store_fails k w s = (s', nxt)" by (cases "store_fails k w s")
  have c: "map_of (ph_calls s) i = Some (k, w)" using assms(1,2) by (simp add: phone_ok_def)
  have "step_ok (map_of (ph_calls s)) i (s', nxt)"
    using store_fails_ok [of "map_of (ph_calls s)" s i k w] c assms(1,3) r by (simp add: phone_ok_def)
  then have "session_ok (case nxt of None \<Rightarrow> (map_of (ph_calls s))(i := None) | Some x \<Rightarrow> (map_of (ph_calls s))(i \<mapsto> x)) (put_call i nxt s')"
    by (cases nxt) (simp_all add: step_ok_def)
  moreover have "ph_calls s' = ph_calls s" "ph_count s' = ph_count s" using store_fails_fields [of k w s] r by simp_all
  ultimately show ?thesis using phone_ok_put [OF assms(1,2)] r by (simp add: call_fails_def)
qed

lemma choose_ok: "phone_ok s \<Longrightarrow> phone_ok (chooseTenant t s)" "phone_ok s \<Longrightarrow> phone_ok ((chooseTenant t s)\<lparr>ph_tenant := u\<rparr>)"
  by (simp_all add: phone_ok_def session_ok_def chooseTenant_def)

lemma runs_ok: "phone_runs b s t \<Longrightarrow> phone_ok s \<Longrightarrow> phone_ok t"
  by (induction rule: phone_runs.induct)
     (simp_all add: refresh_ok_phone choose_ok call_resumes_ok call_fails_ok begins_ok login_def logout_phone_def carries_def)

lemma launch_ok:
  assumes "set used \<subseteq> set issued" "\<And>t. token = Some t \<Longrightarrow> t \<in> set issued \<and> t \<notin> set used"
  shows "phone_ok (launch token tenant issued used)"
  unfolding launch_def using assms
  by (intro refresh_ok_phone)
     (auto simp: phone_ok_def session_ok_def tokens_ok_def fresh_ok_def succeeded_def hand_def shown_def refreshes_def live_used_def)

text \<open>The tokens the store left behind are used ones, and there are none while it answers.\<close>

definition lost_ok :: "bool \<Rightarrow> phone_session \<Rightarrow> bool" where
  "lost_ok b s \<longleftrightarrow> set (ph_lost s) \<subseteq> (if b then set (ph_used s) else {})"

lemma lost_fields:
  "ph_lost (fst (applies w s)) = ph_lost s" "ph_used (fst (applies w s)) = ph_used s"
  "ph_lost (fst (tries_again n s)) = ph_lost s" "ph_used (fst (tries_again n s)) = ph_used s"
  by (cases w; simp add: Let_def tries_again_def)+

lemma lost_resumes:
  "ph_lost (fst (resume k w out s)) = ph_lost s \<and> set (ph_used s) \<subseteq> set (ph_used (fst (resume k w out s)))"
proof -
  have ap: "ph_lost (fst (case applies w s of (s', None) \<Rightarrow> (s', None) | (s', Some w') \<Rightarrow> (s', Some (k, w')))) = ph_lost s \<and>
      ph_used (fst (case applies w s of (s', None) \<Rightarrow> (s', None) | (s', Some w') \<Rightarrow> (s', Some (k, w')))) = ph_used s"
    for k w using lost_fields(1,2) [of w s] by (auto split: prod.split option.split)
  show ?thesis
    by (cases "(k, w, out, s)" rule: resume.cases)
       (use ap in \<open>auto simp: rotates_def lost_fields split: outcome.split option.split\<close>)
qed

lemma lost_fails:
  "set (ph_lost (fst (store_fails k w s))) \<subseteq> set (ph_lost s) \<union> set (ph_used s) \<and> ph_used (fst (store_fails k w s)) = ph_used s"
  by (cases "(k, w, s)" rule: store_fails.cases) (auto simp: lost_fields keeps_old_def split: option.splits)

lemma lost_runs: "phone_runs b s t \<Longrightarrow> lost_ok b s \<Longrightarrow> lost_ok b t"
proof (induction rule: phone_runs.induct)
  case (fails t i k w)
  then show ?case using lost_fails [of k w t] by (auto simp: lost_ok_def call_fails_def split: prod.split) blast
next
  case (resumes t i k w out)
  then show ?case using lost_resumes [of k w out t] by (auto simp: lost_ok_def call_resumes_def split: prod.split if_splits) blast
qed (simp_all add: lost_ok_def refresh_phone_def login_def logout_phone_def begins_def chooseTenant_def split: option.split if_splits)

text \<open>
  C19: from a launch on, in any interleaving of refreshes, sign-ins, sign-outs and their awaited
  answers, where the secure store may reject any of its calls (\<open>b\<close>) or never does, one refresh runs at
  a time, the one in flight; no refresh presents a token it or an earlier one was answered for, and
  whenever no refresh runs the stored token is none of those, except a token that stayed stored
  because the store failed while its successor was being stored; without such failures there is none.
\<close>

theorem phone_refresh_safe:
  assumes "phone_runs b (launch token tenant issued used) s" "set used \<subseteq> set issued"
    "case token of None \<Rightarrow> True | Some t \<Rightarrow> t \<in> set issued \<and> t \<notin> set used"
  shows "distinct (map fst (ph_calls s)) \<and> list_all (\<lambda>(i, k, w). refreshing k \<longleftrightarrow> ph_inFlight s = Some i) (ph_calls s) \<and>
    list_all (\<lambda>(i, k, w). case presents k w of None \<Rightarrow> True | Some u \<Rightarrow> u \<notin> set (ph_used s) - set (ph_lost s)) (ph_calls s) \<and>
    (if ph_inFlight s = None then (case ph_token s of None \<Rightarrow> True | Some u \<Rightarrow> u \<notin> set (ph_used s) - set (ph_lost s)) else True) \<and>
    set (ph_lost s) \<subseteq> (if b then set (ph_used s) else {})"
proof -
  let ?c = "map_of (ph_calls s)"
  have "\<And>t. token = Some t \<Longrightarrow> t \<in> set issued \<and> t \<notin> set used" using assms(3) by simp
  then have ok: "phone_ok s" by (rule runs_ok [OF assms(1) launch_ok [OF assms(2)]])
  then have d: "distinct (map fst (ph_calls s))" and so: "session_ok ?c s" by (simp_all add: phone_ok_def)
  have each: "(refreshing k \<longleftrightarrow> ph_inFlight s = Some i) \<and> presents k w \<notin> Some ` live_used s"
    if "(i, k, w) \<in> set (ph_calls s)" for i k w
  proof -
    have c: "?c i = Some (k, w)" using d that by simp
    then have "refreshes ?c i = refreshing k" "shown ?c i = presents k w" by (simp_all add: seen)
    moreover have "ph_inFlight s = Some i \<longleftrightarrow> refreshes ?c i" using so by (simp add: session_ok_def)
    moreover have "u \<notin> live_used s" if "shown ?c i = Some u" for u
      using so that unfolding session_ok_def tokens_ok_def fresh_ok_def by blast
    ultimately show ?thesis by auto
  qed
  then have "list_all (\<lambda>(i, k, w). refreshing k \<longleftrightarrow> ph_inFlight s = Some i) (ph_calls s)"
    "list_all (\<lambda>(i, k, w). case presents k w of None \<Rightarrow> True | Some u \<Rightarrow> u \<notin> live_used s) (ph_calls s)"
    by (fastforce simp: list_all_iff split: option.split)+
  moreover have "u \<notin> live_used s" if "ph_inFlight s = None" "ph_token s = Some u" for u
  proof -
    have "\<not> refreshes ?c i" for i using so that(1) by (simp add: session_ok_def)
    then show ?thesis using so that(2) unfolding session_ok_def tokens_ok_def succeeded_def by blast
  qed
  moreover have "lost_ok b s" by (rule lost_runs [OF assms(1)]) (simp add: lost_ok_def launch_def refresh_phone_def begins_def)
  ultimately show ?thesis using d unfolding live_used_def lost_ok_def by (simp split: option.split)
qed

text \<open>The phone at work on given answers.\<close>

datatype phone_act = Do_refresh | Do_login | Do_logout | Do_resume nat outcome | Do_fails nat

fun phone_acts :: "phone_act \<Rightarrow> phone_session \<Rightarrow> phone_session" where
  "phone_acts Do_refresh s = refresh_phone s"
| "phone_acts Do_login s = login s"
| "phone_acts Do_logout s = logout_phone s"
| "phone_acts (Do_resume i out) s = (case map_of (ph_calls s) i of None \<Rightarrow> s | Some (k, w) \<Rightarrow> call_resumes i k w out s)"
| "phone_acts (Do_fails i) s = (case map_of (ph_calls s) i of None \<Rightarrow> s | Some (k, w) \<Rightarrow> if stores w then call_fails i k w s else s)"

fun act_fresh :: "phone_act \<Rightarrow> phone_session \<Rightarrow> bool" where
  "act_fresh (Do_resume i out) s = fresh_answer out s"
| "act_fresh a s = True"

fun acts_fresh :: "phone_act list \<Rightarrow> phone_session \<Rightarrow> bool" where
  "acts_fresh [] s = True"
| "acts_fresh (a # as) s = (act_fresh a s \<and> acts_fresh as (phone_acts a s))"

lemma act_runs: "phone_runs True s t \<Longrightarrow> act_fresh a t \<Longrightarrow> phone_runs True s (phone_acts a t)"
proof (cases a)
  case (Do_resume i out)
  assume "phone_runs True s t" "act_fresh a t"
  then show ?thesis
    by (cases "map_of (ph_calls t) i") (auto simp: Do_resume intro: phone_runs.resumes dest: map_of_SomeD)
next
  case (Do_fails i)
  assume "phone_runs True s t"
  then show ?thesis
    using phone_runs.fails [of True s t i, OF _ TrueI map_of_SomeD]
    by (cases "map_of (ph_calls t) i") (simp_all add: Do_fails split: prod.split)
qed (auto intro: phone_runs.intros)

lemma acts_run: "phone_runs True s t \<Longrightarrow> acts_fresh as t \<Longrightarrow> phone_runs True s (fold phone_acts as t)"
  by (induction as arbitrary: t) (auto intro: act_runs)

definition demo_pair :: "string \<Rightarrow> token_pair" where
  "demo_pair r = \<lparr>tp_access = ''access'', tp_refresh = r, tp_memberships = [\<lparr>mb_tenant = ''farm'', mb_role = ''owner''\<rparr>]\<rparr>"

definition demo_launch :: phone_session where "demo_launch = launch (Some ''one'') None [''one''] []"

definition to_signed_in :: "phone_act list" where
  "to_signed_in = [Do_resume 0 No_answer, Do_resume 0 (Answer (demo_pair ''two'')), Do_resume 0 No_answer, Do_resume 0 No_answer, Do_resume 0 No_answer]"

lemma to_signed_in_facts:
  "acts_fresh to_signed_in demo_launch"
  "ph_state (fold phone_acts to_signed_in demo_launch) = signed_in (demo_pair ''two'') (Some ''farm'')"
  by code_simp+

text \<open>
  The new token cannot be written: the refresh tries again with the old one, which it was answered
  for, and on a rejection of it signs out; a read that fails at the launch leaves it loading.
\<close>

definition store_full :: "phone_act list" where
  "store_full = take 3 to_signed_in @ [Do_fails 0, Do_resume 0 No_answer, Do_resume 0 No_answer]"

lemma store_full_presents_used:
  "acts_fresh store_full demo_launch"
  "(let s = fold phone_acts store_full demo_launch in
    ph_calls s = [(0, Refreshing 1, Calls (Some ''one''))] \<and> ph_used s = [''one''] \<and> ph_lost s = [''one''])"
  "(let s = fold phone_acts (store_full @ [Do_resume 0 (Http_error 401), Do_resume 0 No_answer, Do_resume 0 No_answer]) demo_launch in
    ph_state s = signedOut \<and> ph_token s = None \<and> ph_calls s = [])"
  by code_simp+

lemma unreadable_launch_loads:
  "(let s = phone_acts (Do_fails 0) demo_launch in au_status (ph_state s) = Loading \<and> ph_calls s = [] \<and> ph_inFlight s = None)"
  by code_simp

lemma phone_refresh_safe_witness:
  "(case ph_token (fold phone_acts to_signed_in demo_launch) of None \<Rightarrow> True
     | Some u \<Rightarrow> u \<notin> set (ph_used (fold phone_acts to_signed_in demo_launch)) - set (ph_lost (fold phone_acts to_signed_in demo_launch))) \<and>
   set (ph_lost (fold phone_acts store_full demo_launch)) \<subseteq> set (ph_used (fold phone_acts store_full demo_launch))"
proof -
  have "phone_runs True demo_launch (fold phone_acts to_signed_in demo_launch)"
    "phone_runs True demo_launch (fold phone_acts store_full demo_launch)"
    by (rule acts_run [OF phone_runs.here], rule to_signed_in_facts(1) store_full_presents_used(1))+
  moreover have "ph_inFlight (fold phone_acts to_signed_in demo_launch) = None" by code_simp
  ultimately show ?thesis
    using phone_refresh_safe [of True "Some ''one''" None "[''one'']" "[]"] unfolding demo_launch_def by simp
qed

text \<open>
  A sign-out while a refresh is at the API: the session is cleared, then the refresh's answer signs in
  again and stores its token.
\<close>

definition sign_out_race :: "phone_act list" where
  "sign_out_race =
     to_signed_in @
     [Do_refresh, Do_resume 1 No_answer, Do_logout, Do_resume 2 No_answer, Do_resume 2 No_answer, Do_resume 2 No_answer, Do_resume 2 No_answer]"

lemma sign_out_undone:
  "acts_fresh (sign_out_race @ [Do_resume 1 (Answer (demo_pair ''three''))]) demo_launch"
  "(let s = fold phone_acts sign_out_race demo_launch in
    ph_state s = signedOut \<and> ph_token s = None \<and> map fst (ph_calls s) = [1])"
  "(let s = fold phone_acts (sign_out_race @ [Do_resume 1 (Answer (demo_pair ''three'')), Do_resume 1 No_answer, Do_resume 1 No_answer, Do_resume 1 No_answer]) demo_launch in
    ph_state s = signed_in (demo_pair ''three'') (Some ''farm'') \<and> ph_token s = Some ''three'' \<and> ph_calls s = [])"
  by code_simp+

text \<open>The app ended between the answer and the write: the next launch presents the rotated token.\<close>

lemma killed_presents_used:
  "(let s = fold phone_acts (take 2 to_signed_in) demo_launch;
        t = phone_acts (Do_resume 0 No_answer) (launch (ph_token s) (ph_tenant s) (ph_issued s) (ph_used s))
    in ph_calls t = [(0, Refreshing 0, Calls (Some ''one''))] \<and> ''one'' \<in> set (ph_used t))"
  by code_simp

section \<open>Every call ends\<close>

definition within_retries :: "call_kind \<Rightarrow> await \<Rightarrow> bool" where
  "within_retries k w = (case k of Refreshing n \<Rightarrow> if w = Sleeps then n < 3 else n \<le> 3 | _ \<Rightarrow> True)"

definition awaits_left :: "call_kind \<Rightarrow> await \<Rightarrow> nat" where
  "awaits_left k w =
     (case k of Refreshing n \<Rightarrow> 6 * (3 - n) | _ \<Rightarrow> 0) +
     (case w of Reads_token \<Rightarrow> 6 | Calls t \<Rightarrow> 5 | Reads_tenant d \<Rightarrow> 4 | Writes_token d t \<Rightarrow> 3 | Writes_tenant d t \<Rightarrow> 2
      | Clears_token \<Rightarrow> 2 | Clears_tenant \<Rightarrow> 1 | Sleeps \<Rightarrow> 1)"

definition nearer :: "call_kind \<Rightarrow> await \<Rightarrow> (call_kind \<times> await) option \<Rightarrow> bool" where
  "nearer k w nxt \<longleftrightarrow>
     (case nxt of None \<Rightarrow> True
      | Some (k', w') \<Rightarrow> within_retries k' w' \<and> awaits_left k' w' < awaits_left k w \<and> awaits_left k w \<le> 24)"

lemma again_nearer:
  assumes "n \<le> 3" "2 \<le> awaits_left (Refreshing n) w - 6 * (3 - n)"
  shows "nearer (Refreshing n) w (snd (tries_again n s))"
  using assms by (cases w) (auto simp: nearer_def tries_again_def within_retries_def awaits_left_def DELAYS_MS_def)

text \<open>
  C34: every answer brings a call nearer to its end, and so does every call of the secure store that
  fails: a refresh ends after at most 24 of them, four presentations of the token included, and so do
  a sign-in and a sign-out.
\<close>

theorem every_call_ends:
  assumes "within_retries k w"
  shows "(case snd (resume k w out s) of None \<Rightarrow> True
      | Some (k', w') \<Rightarrow> within_retries k' w' \<and> awaits_left k' w' < awaits_left k w \<and> awaits_left k w \<le> 24) \<and>
    (case snd (store_fails k w s) of None \<Rightarrow> True
      | Some (k', w') \<Rightarrow> within_retries k' w' \<and> awaits_left k' w' < awaits_left k w \<and> awaits_left k w \<le> 24)"
proof -
  have ap: "nearer k w (snd (case applies w s of (s', None) \<Rightarrow> (s', None) | (s', Some w') \<Rightarrow> (s', Some (k, w'))))"
    by (cases w; cases k) (use assms in \<open>auto simp: nearer_def within_retries_def awaits_left_def\<close>)
  have "nearer k w (snd (resume k w out s))"
    by (cases "(k, w, out, s)" rule: resume.cases)
       (use assms ap again_nearer in \<open>auto simp: nearer_def within_retries_def awaits_left_def DELAYS_MS_def split: outcome.split\<close>)
  moreover have "nearer k w (snd (store_fails k w s))"
    by (cases "(k, w, s)" rule: store_fails.cases)
       (use assms again_nearer in \<open>simp_all add: within_retries_def awaits_left_def nearer_def\<close>)
  ultimately show ?thesis unfolding nearer_def ..
qed

lemma every_call_ends_witness:
  "case snd (resume (Refreshing 0) Reads_token No_answer demo_launch) of None \<Rightarrow> True
    | Some (k', w') \<Rightarrow> within_retries k' w' \<and> awaits_left k' w' < awaits_left (Refreshing 0) Reads_token \<and>
        awaits_left (Refreshing 0) Reads_token \<le> 24"
  by (rule conjunct1 [OF every_call_ends]) (simp add: within_retries_def)

end
