(* ===== verification/Rule_Draft.thy ===== *)
theory Rule_Draft imports Rule_Tree begin

text \<open>
  \<open>rule-draft.ts\<close> between the API and the draft: \<open>draftFromRule\<close> (None where it would throw
  on a null inside a condition), \<open>draftToRequest\<close> (None where \<open>JSON.parse\<close> throws),
  \<open>validateDraft\<close> and the questions the editors ask.  Values the API leaves open
  (\<open>Record<string, unknown>\<close>) are JSON.
\<close>

section \<open>From the API\<close>

definition str :: "json option \<Rightarrow> string \<Rightarrow> string" where
  "str v fallback = (case as_str v of Some s \<Rightarrow> s | None \<Rightarrow> fallback)"

definition has_type :: "json \<Rightarrow> string \<Rightarrow> bool" where
  "has_type a t \<longleftrightarrow> field a ''type'' = Some (JStr t)"

definition contactFromLeaf :: "string \<Rightarrow> condition_leaf \<Rightarrow> contact_draft" where
  "contactFromLeaf i leaf =
    (let base = (emptyContact i (case l_device_id leaf of Some s \<Rightarrow> s | None \<Rightarrow> ''''))
           \<lparr>c_metric := l_metric leaf, c_operator := l_operator leaf,
            c_hysteresis := (case l_hysteresis leaf of Some h \<Rightarrow> h | None \<Rightarrow> Fin 0)\<rparr> in
     case l_rhs leaf of None \<Rightarrow> base
     | Some (Range lo hi) \<Rightarrow> base\<lparr>c_low := lo, c_high := hi\<rparr>
     | Some (ValueSet vs) \<Rightarrow> base\<lparr>c_setText := join '', '' (map number_text vs)\<rparr>
     | Some (MetricRhs dev m) \<Rightarrow> base\<lparr>c_rhsKind := MetricK, c_rhsDeviceId := dev, c_rhsMetric := m\<rparr>
     | Some (Static v) \<Rightarrow> base\<lparr>c_value := v\<rparr>)"

fun nodeFromCondition :: "(nat \<Rightarrow> string) \<Rightarrow> nat \<Rightarrow> condition \<Rightarrow> (draft_node \<times> nat) option"
and nodesFromConditions :: "(nat \<Rightarrow> string) \<Rightarrow> nat \<Rightarrow> condition list \<Rightarrow> (draft_node list \<times> nat) option" where
  "nodeFromCondition gen k CNull = None"
| "nodeFromCondition gen k (CLeaf leaf) =
     (let (i, k1) = newId gen k in Some (Contact (contactFromLeaf i leaf), k1))"
| "nodeFromCondition gen k (CGroup op preds) =
     (let (i, k1) = newId gen k in
      case nodesFromConditions gen k1 preds of None \<Rightarrow> None
      | Some (cs, k2) \<Rightarrow> Some (Group i op cs, k2))"
| "nodesFromConditions gen k [] = Some ([], k)"
| "nodesFromConditions gen k (p # ps) =
     (case nodeFromCondition gen k p of None \<Rightarrow> None
      | Some (c, k1) \<Rightarrow>
          (case nodesFromConditions gen k1 ps of None \<Rightarrow> None | Some (cs, k2) \<Rightarrow> Some (c # cs, k2)))"

definition valueKindOf :: "json option \<Rightarrow> value_kind" where
  "valueKindOf v = (case v of Some (JNum n) \<Rightarrow> NumberK | Some (JStr s) \<Rightarrow> TextK | _ \<Rightarrow> BooleanK)"

definition actionFromApi :: "(nat \<Rightarrow> string) \<Rightarrow> nat \<Rightarrow> json \<Rightarrow> action_draft option \<times> nat" where
  "actionFromApi gen k a =
    (let (i, k1) = newId gen k; value = field a ''value'' in
     case (if has_type a ''actuator_command'' then as_str (field a ''actuator'') else None) of
       Some actuator \<Rightarrow>
         (let (j, k2) = newId gen k1 in
          (Some (Actuator ((emptyActuator j (str (field a ''device_id'') ''''))
             \<lparr>a_id := i, a_actuator := actuator, a_valueKind := valueKindOf value,
              a_bool := (value \<noteq> Some (JBool False)),
              a_num := (case value of Some (JNum n) \<Rightarrow> n | _ \<Rightarrow> Fin 0),
              a_text := (case value of Some (JStr s) \<Rightarrow> s | _ \<Rightarrow> '''')\<rparr>)), k2))
     | None \<Rightarrow>
         (if has_type a ''email'' then
            (let to = (case as_arr (field a ''to'') of Some xs \<Rightarrow> map json_string xs | None \<Rightarrow> []) in
             (Some (Email \<lparr>e_id = i, e_to = join '', '' to, e_subject = str (field a ''subject'') '''',
                     e_body = str (field a ''body'') ''''\<rparr>), k1))
          else if has_type a ''webhook'' then
            (Some (Webhook \<lparr>h_id = i, h_url = str (field a ''url'') '''',
                     h_body = (if truthy (field a ''body'') then stringify ''  '' (the (field a ''body''))
                               else [CHR 0x7B, CHR 0x7D])\<rparr>), k1)
          else if has_type a ''notification'' then
            (Some (Notification \<lparr>n_id = i, n_message = str (field a ''message'') ''''\<rparr>), k1)
          else (None, k1)))"

definition channels_of :: "json \<Rightarrow> json list" where
  "channels_of raw = (case as_arr (field raw ''channels'') of Some xs \<Rightarrow> xs | None \<Rightarrow> [])"

text \<open>The loop over \<open>rule.actions\<close>: the drafts, the actions passed through, the ids drawn.\<close>

fun actions_in :: "(nat \<Rightarrow> string) \<Rightarrow> nat \<Rightarrow> string \<Rightarrow> json list \<Rightarrow> action_draft list \<times> json list \<times> nat" where
  "actions_in gen k name [] = ([], [], k)"
| "actions_in gen k name (raw # raws) =
     (case actionFromApi gen k raw of
        (None, k1) \<Rightarrow> (let (acts, kept, k2) = actions_in gen k1 name raws in (acts, raw # kept, k2))
      | (Some parsed, k1) \<Rightarrow>
          (let (mail, k2) = (case parsed of Notification n \<Rightarrow>
                 if JStr ''email'' \<in> set (channels_of raw)
                 then (let (i, k') = newId gen k1 in
                       ([Email \<lparr>e_id = i, e_to = '''', e_subject = ''['' @ name @ ''] alert'', e_body = n_message n\<rparr>], k'))
                 else ([], k1) | _ \<Rightarrow> ([], k1));
               (acts, kept, k3) = actions_in gen k2 name raws
           in (parsed # mail @ acts, kept, k3)))"

text \<open>The loop over \<open>rule.clear_actions\<close>: its state and one turn.\<close>

record clear_state =
  s_actions :: "action_draft list"
  s_kept :: "json list"
  s_notify :: bool
  s_message :: string

definition owns :: "json \<Rightarrow> action_draft \<Rightarrow> bool" where
  "owns raw a =
     (case a of Actuator d \<Rightarrow>
        \<not> a_revertOnClear d \<and> field raw ''actuator'' = Some (JStr (a_actuator d)) \<and>
        a_deviceId d = str (field raw ''device_id'') ''''
      | _ \<Rightarrow> False)"

definition take_clear :: "json option \<Rightarrow> action_draft \<Rightarrow> action_draft" where
  "take_clear v a =
     (case a of Actuator d \<Rightarrow>
        Actuator (case v of
            Some (JBool b) \<Rightarrow> d\<lparr>a_revertOnClear := True, a_clearBool := Some b\<rparr>
          | Some (JNum n) \<Rightarrow> d\<lparr>a_revertOnClear := True, a_clearNum := n\<rparr>
          | Some (JStr s) \<Rightarrow> d\<lparr>a_revertOnClear := True, a_clearText := s\<rparr>
          | _ \<Rightarrow> d\<lparr>a_revertOnClear := True\<rparr>)
      | _ \<Rightarrow> a)"

definition clear_in :: "clear_state \<Rightarrow> json \<Rightarrow> clear_state" where
  "clear_in s raw =
     (case (if has_type raw ''actuator_command'' then find_index (owns raw) (s_actions s) else None) of
        Some i \<Rightarrow> s\<lparr>s_actions := (s_actions s)[i := take_clear (field raw ''value'') (s_actions s ! i)]\<rparr>
      | None \<Rightarrow>
          if has_type raw ''notification'' \<and> \<not> s_notify s \<and> JStr ''email'' \<notin> set (channels_of raw)
          then s\<lparr>s_notify := True, s_message := str (field raw ''message'') ''''\<rparr>
          else s\<lparr>s_kept := s_kept s @ [raw]\<rparr>)"

definition trigger_of :: "string \<Rightarrow> trigger_type" where
  "trigger_of s =
     (if s = ''metric'' then MetricT else if s = ''schedule'' then ScheduleT
      else if s = ''manual'' then ManualT else if s = ''device_status'' then DeviceStatusT else OtherT s)"

definition trigger_name :: "trigger_type \<Rightarrow> string" where
  "trigger_name t = (case t of MetricT \<Rightarrow> ''metric'' | ScheduleT \<Rightarrow> ''schedule'' | ManualT \<Rightarrow> ''manual''
     | DeviceStatusT \<Rightarrow> ''device_status'' | OtherT s \<Rightarrow> s)"

definition default_num :: "jsnum option \<Rightarrow> jsnum" where
  "default_num v = (case v of Some n \<Rightarrow> n | None \<Rightarrow> Fin 0)"

definition condition_in :: "(nat \<Rightarrow> string) \<Rightarrow> nat \<Rightarrow> condition option \<Rightarrow> (draft_node option \<times> nat) option" where
  "condition_in gen k c =
     (case c of None \<Rightarrow> Some (None, k)
      | Some CNull \<Rightarrow> Some (None, k)
      | Some cond \<Rightarrow> map_option (\<lambda>(n, k'). (Some n, k')) (nodeFromCondition gen k cond))"

definition draftFromRule :: "(nat \<Rightarrow> string) \<Rightarrow> nat \<Rightarrow> rule_response \<Rightarrow> (rule_draft \<times> nat) option" where
  "draftFromRule gen k rule =
    (let trigger = (case r_trigger rule of Some t \<Rightarrow> t | None \<Rightarrow> JObj []);
         policy = r_policy rule;
         strategy = (case p_strategy policy of Some s \<Rightarrow> s | None \<Rightarrow> ''edge'');
         (acts, kept, k1) = actions_in gen k (r_name rule) (r_actions rule);
         clear = foldl clear_in \<lparr>s_actions = acts, s_kept = [], s_notify = False, s_message = ''''\<rparr>
                   (case r_clear_actions rule of Some xs \<Rightarrow> xs | None \<Rightarrow> [])
     in
     case condition_in gen k1 (r_condition rule) of None \<Rightarrow> None
     | Some (cond, k2) \<Rightarrow> Some
      (\<lparr>d_name = r_name rule, d_enabled = r_enabled rule,
        d_when = \<lparr>w_type = trigger_of (str (field trigger ''type'') ''metric''),
                  w_cron = str (field trigger ''cron'') ''0 8 * * *'',
                  w_timezone = str (field trigger ''timezone'') ''UTC'',
                  w_statusDeviceId = str (field trigger ''device_id'') '''',
                  w_transition = (if field trigger ''transition'' = Some (JStr ''connected'') then Connected else Disconnected)\<rparr>,
        d_condition = cond,
        d_behaviour = (if strategy = ''edge'' then Rearm else if strategy = ''latch'' then Latch else OtherB),
        d_forDuration = default_num (p_for_duration policy),
        d_cooldown = default_num (p_cooldown policy),
        d_clearDelay = default_num (p_clear_for_duration policy),
        d_actions = s_actions clear, d_clearNotify = s_notify clear, d_clearMessage = s_message clear,
        d_preserved = \<lparr>v_strategy = Some strategy, v_resetCondition = p_reset_condition policy,
                       v_clearActions = s_kept clear, v_actions = kept\<rparr>\<rparr>, k2))"

section \<open>To the API\<close>

definition set_values :: "string \<Rightarrow> jsnum list" where
  "set_values s = filter (\<lambda>n. n \<noteq> NaN) (map to_number (non_empty (map trim (split_on CHR '','' s))))"

definition buildRhs :: "contact_draft \<Rightarrow> rhs_spec option" where
  "buildRhs c =
     (case operator_arity (c_operator c) of
        None_ar \<Rightarrow> None
      | Range_ar \<Rightarrow> Some (Range (c_low c) (c_high c))
      | Set_ar \<Rightarrow> Some (ValueSet (set_values (c_setText c)))
      | One_ar \<Rightarrow> Some (if c_rhsKind c = MetricK then MetricRhs (c_rhsDeviceId c) (c_rhsMetric c) else Static (c_value c)))"

definition leafFromContact :: "contact_draft \<Rightarrow> condition_leaf" where
  "leafFromContact c =
     \<lparr>l_device_id = Some (c_deviceId c), l_metric = c_metric c, l_operator = c_operator c, l_rhs = buildRhs c,
      l_hysteresis = Some (if c_operator c \<in> set HYSTERESIS_OPERATORS then c_hysteresis c else Fin 0)\<rparr>"

function conditionFromNode :: "draft_node option \<Rightarrow> condition" where
  "conditionFromNode t =
     (case normalize t of None \<Rightarrow> CNull
      | Some (Contact c) \<Rightarrow> CLeaf (leafFromContact c)
      | Some (Group i op cs) \<Rightarrow> CGroup op (map (\<lambda>c. conditionFromNode (Some c)) cs))"
  by pat_completeness auto

lemma subseq_length: "subseq xs ys \<Longrightarrow> length xs \<le> length ys"
  by (induction rule: list_emb.induct) auto

text \<open>The recursion ends: a child of the normalised tree has fewer nodes than the tree.\<close>

termination conditionFromNode
proof (relation "measure (\<lambda>t. length (ids_opt t))", simp)
  fix t n i op cs c
  assume "normalize t = Some n" "n = Group i op cs" "c \<in> set cs"
  then have "length (i # concat (map node_ids cs)) \<le> length (ids_opt t)"
    using subseq_length [OF subseq_normalize [of t]] by (simp add: ids_opt_def)
  moreover have "length (node_ids c) \<le> length (concat (map node_ids cs))"
    using \<open>c \<in> set cs\<close> by (induction cs) auto
  ultimately show "(Some c, t) \<in> measure (\<lambda>t. length (ids_opt t))" by (simp add: ids_opt_def)
qed

declare conditionFromNode.simps [simp del]

definition actuatorValue :: "actuator_draft \<Rightarrow> json" where
  "actuatorValue a = (case a_valueKind a of BooleanK \<Rightarrow> JBool (a_bool a) | NumberK \<Rightarrow> JNum (a_num a) | TextK \<Rightarrow> JStr (a_text a))"

definition actuatorClearValue :: "actuator_draft \<Rightarrow> json" where
  "actuatorClearValue a =
     (case a_valueKind a of
        BooleanK \<Rightarrow> JBool (case a_clearBool a of Some b \<Rightarrow> b | None \<Rightarrow> \<not> a_bool a)
      | NumberK \<Rightarrow> JNum (a_clearNum a)
      | TextK \<Rightarrow> JStr (a_clearText a))"

definition recipient_sep :: "char \<Rightarrow> bool" where
  "recipient_sep c \<longleftrightarrow> c = CHR '','' \<or> c = CHR '';'' \<or> is_space c"

definition parseRecipients :: "string \<Rightarrow> string list" where
  "parseRecipients to = non_empty (map trim (split_runs recipient_sep to))"

definition braces :: string where "braces = [CHR 0x7B, CHR 0x7D]"

fun actionToApi :: "action_draft \<Rightarrow> json option" where
  "actionToApi (Actuator a) = Some (JObj
     [(''type'', JStr ''actuator_command''), (''device_id'', JStr (a_deviceId a)),
      (''actuator'', JStr (trim (a_actuator a))), (''value'', actuatorValue a)])"
| "actionToApi (Email a) = Some (JObj
     [(''type'', JStr ''email''), (''to'', JArr (map JStr (parseRecipients (e_to a)))),
      (''subject'', JStr (trim (e_subject a))), (''body'', JStr (trim (e_body a)))])"
| "actionToApi (Webhook a) =
     map_option (\<lambda>body. JObj [(''type'', JStr ''webhook''), (''url'', JStr (trim (h_url a))), (''body'', body)])
       (json_parse (or_else (trim (h_body a)) braces))"
| "actionToApi (Notification a) = Some (JObj
     [(''type'', JStr ''notification''), (''message'', JStr (trim (n_message a))), (''channels'', JArr [JStr ''platform''])])"

definition strategyFor :: "rule_draft \<Rightarrow> string" where
  "strategyFor draft =
     (if \<not> isReadingRule draft then ''edge''
      else case d_behaviour draft of Latch \<Rightarrow> ''latch''
      | OtherB \<Rightarrow> (case v_strategy (d_preserved draft) of Some s \<Rightarrow> s | None \<Rightarrow> ''edge'')
      | Rearm \<Rightarrow> ''edge'')"

record rule_request =
  q_name :: "string option"
  q_trigger :: json
  q_condition :: condition
  q_policy :: execution_policy
  q_actions :: "json list"
  q_clear_actions :: "json list"
  q_enabled :: bool

fun set_field :: "string \<Rightarrow> json \<Rightarrow> json \<Rightarrow> json" where
  "set_field k v (JObj kvs) = JObj (dict_set k v kvs)"
| "set_field k v j = j"

fun all_some :: "'a option list \<Rightarrow> 'a list option" where
  "all_some [] = Some []"
| "all_some (x # xs) = (case x of None \<Rightarrow> None | Some y \<Rightarrow> map_option (Cons y) (all_some xs))"

definition trigger_out :: "when_draft \<Rightarrow> json" where
  "trigger_out w =
     (case w_type w of
        ScheduleT \<Rightarrow> JObj [(''type'', JStr ''schedule''), (''cron'', JStr (trim (w_cron w))),
                          (''timezone'', JStr (or_else (trim (w_timezone w)) ''UTC''))]
      | DeviceStatusT \<Rightarrow> JObj [(''type'', JStr ''device_status''), (''device_id'', JStr (w_statusDeviceId w)),
                          (''transition'', JStr (if w_transition w = Connected then ''connected'' else ''disconnected''))]
      | t \<Rightarrow> JObj [(''type'', JStr (trigger_name t))])"

text \<open>The clear commands of the actions that turn back, in the order of the actions.\<close>

definition reverts :: "action_draft list \<Rightarrow> actuator_draft list" where
  "reverts acts = somes (map (\<lambda>a. case a of Actuator d \<Rightarrow> if a_revertOnClear d then Some d else None | _ \<Rightarrow> None) acts)"

definition clear_command :: "actuator_draft \<Rightarrow> json" where
  "clear_command d = set_field ''value'' (actuatorClearValue d) (the (actionToApi (Actuator d)))"

definition clear_out :: "rule_draft \<Rightarrow> json list" where
  "clear_out draft =
     (if canClear draft then
        map clear_command (reverts (d_actions draft)) @
        (if d_clearNotify draft \<and> trim (d_clearMessage draft) \<noteq> [] then
           [JObj [(''type'', JStr ''notification''), (''message'', JStr (trim (d_clearMessage draft))),
                  (''channels'', JArr [JStr ''platform''])]] else []) @
        v_clearActions (d_preserved draft)
      else [])"

definition draftToRequest :: "rule_draft \<Rightarrow> rule_request option" where
  "draftToRequest draft =
    (let strategy = strategyFor draft;
         keepsResetTree = (strategy = ''latch'' \<or> strategy = ''reset_condition'')
     in
     case all_some (map actionToApi (d_actions draft)) of None \<Rightarrow> None
     | Some acts \<Rightarrow> Some
       \<lparr>q_name = (if trim (d_name draft) = [] then None else Some (trim (d_name draft))),
        q_trigger = trigger_out (d_when draft),
        q_condition = conditionFromNode (d_condition draft),
        q_policy =
          \<lparr>p_strategy = Some strategy,
           p_for_duration = Some (if isReadingRule draft then d_forDuration draft else Fin 0),
           p_cooldown = Some (d_cooldown draft),
           p_reset_condition = (if keepsResetTree then v_resetCondition (d_preserved draft) else None),
           p_clear_for_duration = Some (if canClear draft then d_clearDelay draft else Fin 0)\<rparr>,
        q_actions = acts @ v_actions (d_preserved draft),
        q_clear_actions = clear_out draft,
        q_enabled = d_enabled draft\<rparr>)"

section \<open>Validation\<close>

text \<open>\<open>/^[^@\s]+@[^@\s]+\.[^@\s]+$/\<close>.\<close>

definition email_shape :: "string \<Rightarrow> bool" where
  "email_shape s =
     (list_all (\<lambda>c. \<not> is_space c) s \<and>
      (case split_on CHR ''@'' s of
         [l, d] \<Rightarrow> l \<noteq> [] \<and> CHR ''.'' \<in> set (butlast (tl d))
       | _ \<Rightarrow> False))"

definition contactProblem :: "contact_draft \<Rightarrow> string option" where
  "contactProblem c =
     (if c_deviceId c = [] \<or> trim (c_metric c) = [] then Some ''Every condition needs a device and a metric.''
      else if c_rhsKind c = MetricK \<and> dict_get OPERATOR_ARITY (c_operator c) = Some One_ar \<and>
              (c_rhsDeviceId c = [] \<or> c_rhsMetric c = [])
      then Some ''A device comparison needs both a device and a metric.'' else None)"

fun actionProblem :: "action_draft \<Rightarrow> string option" where
  "actionProblem (Actuator a) =
     (if a_deviceId a \<noteq> [] \<and> trim (a_actuator a) \<noteq> [] then None else Some ''An actuator action needs a device and an actuator.'')"
| "actionProblem (Email a) =
     (case List.find (\<lambda>r. \<not> email_shape r) (parseRecipients (e_to a)) of
        Some bad \<Rightarrow> Some ([CHR 0x22] @ bad @ [CHR 0x22] @ '' doesn'' @ [CHR 0x27] @ ''t look like an email address.'')
      | None \<Rightarrow> if trim (e_subject a) \<noteq> [] \<and> trim (e_body a) \<noteq> [] then None
                else Some ''An email needs a subject and a message.'')"
| "actionProblem (Webhook a) =
     (if trim (h_url a) = [] then Some ''A webhook needs a URL.''
      else case json_parse (or_else (trim (h_body a)) braces) of Some v \<Rightarrow> None
      | None \<Rightarrow> Some (''The webhook body isn'' @ [CHR 0x27] @ ''t valid JSON.''))"
| "actionProblem (Notification a) =
     (if trim (n_message a) \<noteq> [] then None else Some ''A notification needs a message.'')"

definition no_actions :: "rule_draft \<Rightarrow> bool" where
  "no_actions draft \<longleftrightarrow> d_actions draft = [] \<and> v_actions (d_preserved draft) = []"

definition validateDraft :: "rule_draft \<Rightarrow> string option" where
  "validateDraft draft =
    (let w = d_when draft in
     if w_type w = ScheduleT \<and> trim (w_cron w) = [] then Some ''A scheduled rule needs a cron expression.''
     else if w_type w = DeviceStatusT \<and> w_statusDeviceId w = [] then Some ''Pick the device to watch.''
     else if d_condition draft = None \<and> w_type w = MetricT
     then Some ''A rule that runs on each reading needs at least one condition.''
     else case first_some contactProblem (contacts_opt (d_condition draft)) of Some p \<Rightarrow> Some p
     | None \<Rightarrow>
         if no_actions draft then Some ''Add at least one action.''
         else case first_some actionProblem (d_actions draft) of Some p \<Rightarrow> Some p
         | None \<Rightarrow>
             if canClear draft \<and> d_clearNotify draft \<and> trim (d_clearMessage draft) = []
             then Some ''The clear notification needs a message.'' else None)"

definition bare_threshold :: "contact_draft \<Rightarrow> bool" where
  "bare_threshold c \<longleftrightarrow> c_operator c \<in> set HYSTERESIS_OPERATORS \<and> \<not> js_gt (c_hysteresis c) (Fin 0)"

definition flappingRisk :: "rule_draft \<Rightarrow> bool" where
  "flappingRisk draft \<longleftrightarrow>
     canClear draft \<and> js_eq (d_clearDelay draft) (Fin 0) \<and>
     (\<exists>a\<in>set (d_actions draft). case a of Actuator d \<Rightarrow> a_revertOnClear d | _ \<Rightarrow> False) \<and>
     (\<exists>c\<in>set (contacts_opt (d_condition draft)). bare_threshold c)"

section \<open>The condition that is sent\<close>

fun cond_of :: "draft_node \<Rightarrow> condition" where
  "cond_of (Contact c) = CLeaf (leafFromContact c)"
| "cond_of (Group i op cs) = CGroup op (map cond_of cs)"

lemma conditionFromNode_normal: "normal n \<Longrightarrow> conditionFromNode (Some n) = cond_of n"
proof (induction n)
  case (Contact c)
  then show ?case by (simp add: conditionFromNode.simps [of "Some (Contact c)"] normalize_def)
next
  case (Group i op cs)
  then have "map (\<lambda>c. conditionFromNode (Some c)) cs = map cond_of cs"
    by (auto simp: normal_Group fits_normal)
  then show ?case
    using normal_node_id [OF Group.prems]
    by (simp add: conditionFromNode.simps [of "Some (Group i op cs)"] normalize_def)
qed

lemma conditionFromNode_eq: "conditionFromNode t = (case normalize t of None \<Rightarrow> CNull | Some n \<Rightarrow> cond_of n)"
proof (cases "normalize t")
  case None
  then show ?thesis by (simp add: conditionFromNode.simps [of t])
next
  case (Some n)
  then have "normal n" by (rule normalize_normal)
  then have "normalize (Some n) = Some n" "conditionFromNode (Some n) = cond_of n"
    by (simp_all add: normalize_def normal_node_id conditionFromNode_normal)
  then show ?thesis
    using Some by (simp add: conditionFromNode.simps [of t] conditionFromNode.simps [of "Some n"])
qed

text \<open>A condition the API accepts: no null, no group of fewer than two, no nesting of one operator.\<close>

fun sendable :: "condition \<Rightarrow> bool" where
  "sendable CNull = False"
| "sendable (CLeaf l) = True"
| "sendable (CGroup op ps) =
     (2 \<le> length ps \<and> list_all (\<lambda>p. sendable p \<and> (case p of CGroup op' qs \<Rightarrow> op' \<noteq> op | _ \<Rightarrow> True)) ps)"

fun leaves :: "condition \<Rightarrow> condition_leaf list" where
  "leaves CNull = []"
| "leaves (CLeaf l) = [l]"
| "leaves (CGroup op ps) = concat (map leaves ps)"

lemma sendable_cond_of: "normal n \<Longrightarrow> sendable (cond_of n)"
proof (induction n)
  case (Group i op cs)
  have "sendable (cond_of c) \<and> (case cond_of c of CGroup op' qs \<Rightarrow> op' \<noteq> op | _ \<Rightarrow> True)" if "c \<in> set cs" for c
  proof -
    have f: "fits op c" using Group.prems that by (simp add: normal_Group)
    have "sendable (cond_of c)" using Group.IH [OF that] f fits_normal by blast
    moreover have "case cond_of c of CGroup op' qs \<Rightarrow> op' \<noteq> op | _ \<Rightarrow> True" using f by (cases c) auto
    ultimately show ?thesis by blast
  qed
  with Group.prems show ?case by (simp add: list_all_iff normal_Group)
qed simp

lemma leaves_cond_of: "leaves (cond_of n) = map leafFromContact (contacts n)"
proof (induction n)
  case (Group i op cs)
  then have "concat (map (\<lambda>c. leaves (cond_of c)) cs) = concat (map (\<lambda>c. map leafFromContact (contacts c)) cs)"
    by (metis (no_types, lifting) map_eq_conv)
  then show ?case by (simp add: map_concat comp_def)
qed simp

text \<open>
  \<open>conditionFromNode\<close> sends null exactly for a tree without contacts; any other tree becomes
  a condition with no null in it (the casts of the code are safe), no group of fewer than two and no
  group inside one of its operator, whose leaves are those of the contacts in order.
\<close>

theorem conditionFromNode_clean:
  "(if contacts_opt t = [] then conditionFromNode t = CNull else sendable (conditionFromNode t)) \<and>
   leaves (conditionFromNode t) = map leafFromContact (contacts_opt t)"
proof (cases "normalize t")
  case None
  then show ?thesis using normalize_correct [of t] by (simp add: conditionFromNode_eq)
next
  case (Some n)
  then have n: "normal n \<and> contacts n = contacts_opt t \<and> contacts n \<noteq> []"
    using normalize_correct [of t] by auto
  then have "contacts_opt t \<noteq> []" by metis
  then show ?thesis using Some n by (simp add: conditionFromNode_eq leaves_cond_of sendable_cond_of)
qed

section \<open>A validated draft can be sent\<close>

lemma all_some_total: "(\<And>x. x \<in> set xs \<Longrightarrow> f x \<noteq> None) \<Longrightarrow> \<exists>ys. all_some (map f xs) = Some ys \<and> length ys = length xs"
  by (induction xs) (auto split: option.splits)

lemma actionToApi_total: "actionProblem a = None \<Longrightarrow> actionToApi a \<noteq> None"
  by (cases a) (auto split: if_splits option.splits)

lemma contactProblem_None: "contactProblem c = None \<Longrightarrow> c_deviceId c \<noteq> [] \<and> trim (c_metric c) \<noteq> []"
  by (auto simp: contactProblem_def split: if_splits)

lemma validated:
  assumes "validateDraft draft = None"
  shows "\<And>c. c \<in> set (contacts_opt (d_condition draft)) \<Longrightarrow> contactProblem c = None"
    "\<And>a. a \<in> set (d_actions draft) \<Longrightarrow> actionProblem a = None"
    "\<not> no_actions draft" "isReadingRule draft \<Longrightarrow> d_condition draft \<noteq> None"
  using assms by (auto simp: validateDraft_def Let_def isReadingRule_def first_some_None split: if_splits option.splits)

text \<open>
  C22: a draft that passes \<open>validateDraft\<close> can be sent: \<open>draftToRequest\<close> does not throw, it
  sends at least one action and all of them in order, every leaf of the condition names a device
  and a metric, and a rule that runs on readings sends a condition when its tree is normal.
\<close>

theorem validated_draft_sends:
  assumes "validateDraft draft = None"
  shows "\<exists>q. draftToRequest draft = Some q \<and> q_actions q \<noteq> [] \<and>
           length (q_actions q) = length (d_actions draft) + length (v_actions (d_preserved draft)) \<and>
           (\<forall>l\<in>set (leaves (q_condition q)). l_device_id l \<noteq> Some [] \<and> \<not> blank (l_metric l)) \<and>
           (isReadingRule draft \<and> list_all normal (case d_condition draft of None \<Rightarrow> [] | Some n \<Rightarrow> [n]) \<longrightarrow>
              sendable (q_condition q))"
proof -
  obtain acts where acts: "all_some (map actionToApi (d_actions draft)) = Some acts" "length acts = length (d_actions draft)"
    using all_some_total [of "d_actions draft" actionToApi] validated(2) [OF assms] actionToApi_total by blast
  obtain q where q: "draftToRequest draft = Some q" "q_actions q = acts @ v_actions (d_preserved draft)"
    "q_condition q = conditionFromNode (d_condition draft)"
    by (simp add: draftToRequest_def Let_def acts(1))
  have len: "length (q_actions q) = length (d_actions draft) + length (v_actions (d_preserved draft))"
    using q acts by simp
  then have ne: "q_actions q \<noteq> []" using validated(3) [OF assms] by (auto simp: no_actions_def)
  have lv: "leaves (q_condition q) = map leafFromContact (contacts_opt (d_condition draft))"
    using conditionFromNode_clean [of "d_condition draft"] q(3) by simp
  have lf: "\<forall>l\<in>set (leaves (q_condition q)). l_device_id l \<noteq> Some [] \<and> \<not> blank (l_metric l)"
    using contactProblem_None [OF validated(1) [OF assms]] by (auto simp: lv leafFromContact_def blank_def)
  have "sendable (q_condition q)"
    if r: "isReadingRule draft" and n: "list_all normal (case d_condition draft of None \<Rightarrow> [] | Some n \<Rightarrow> [n])"
  proof -
    obtain n where "d_condition draft = Some n" "normal n" using validated(4) [OF assms r] n by auto
    then show ?thesis using sendable_cond_of by (simp add: q(3) conditionFromNode_normal)
  qed
  with q(1) len ne lf show ?thesis by blast
qed

definition demo_draft :: rule_draft where
  "demo_draft = fst (emptyDraft counted_id 0 ''dev-1'' ''UTC'')
     \<lparr>d_name := '' Fan '', d_condition := Some (Contact ((emptyContact ''c'' ''dev-1'')\<lparr>c_metric := ''temperature'', c_value := Fin 30\<rparr>)),
      d_actions := [Actuator ((emptyActuator ''a'' ''dev-1'')\<lparr>a_actuator := ''fan1''\<rparr>)]\<rparr>"

lemma demo_draft_valid: "validateDraft demo_draft = None"
  by (simp add: demo_draft_def emptyDraft_def newId_def validateDraft_def contacts_opt_def contactProblem_def
      emptyContact_def emptyActuator_def no_actions_def canClear_def trim_id is_space_def Let_def)

lemma validated_draft_sends_witness:
  "\<exists>q. draftToRequest demo_draft = Some q \<and> q_actions q \<noteq> []"
  using validated_draft_sends [OF demo_draft_valid] by blast

end
