(* ===== verification/Recipes.thy ===== *)
theory Recipes imports Rule_Draft Wire "HOL-Library.Multiset" begin

text \<open>
  Rule recipes (\<open>frontend/src/lib/rule-recipes.ts\<close>): the drafts generated from what one device
  can do, and the list of starts shown with or without a device.  Ids come from the supply of
  \<open>Rule_Types.newId\<close>, drawn in the order of the code.  The main lemma is what the recipes' own
  header promises: each one passes the editor's validation as generated and names nothing but
  the device's metrics and switchable actuators.
\<close>

section \<open>Devices and recipes\<close>

record recipe_metric =
  xm_key :: "string option"
  xm_name :: string
  xm_data_type :: "string option"
  xm_unit :: "string option"
  xm_min :: "rat option"
  xm_max :: "rat option"

record recipe_actuator =
  xa_key :: "string option"
  xa_name :: string
  xa_value_type :: "string option"

record recipe_device =
  xd_id :: string
  xd_name :: string
  xd_metrics :: "recipe_metric list"
  xd_actuators :: "recipe_actuator list"

datatype recipe_tag = Switches_hardware | Latches | Sends_email
datatype recipe_icon = Fan_icon | Door_icon | Droplet_icon | Pump_icon | Offline_icon | Clock_icon

record recipe =
  re_id :: string
  re_title :: string
  re_description :: string
  re_icon :: recipe_icon
  re_tags :: "recipe_tag list"
  re_draft :: rule_draft

definition is_numeric :: "recipe_metric \<Rightarrow> bool" where
  "is_numeric m \<longleftrightarrow> xm_data_type m \<noteq> Some ''bool''"

definition is_on_off :: "recipe_metric \<Rightarrow> bool" where
  "is_on_off m \<longleftrightarrow> xm_data_type m = Some ''bool''"

definition switchable :: "recipe_actuator \<Rightarrow> bool" where
  "switchable a \<longleftrightarrow> (case xa_value_type a of None \<Rightarrow> True | Some t \<Rightarrow> t = ''bool'')"

definition part_text :: "string option \<Rightarrow> string \<Rightarrow> string" where
  "part_text key name = lower_case ((case key of Some k \<Rightarrow> k | None \<Rightarrow> []) @ '' '' @ name)"

text \<open>\<open>match(items, /a|b/)\<close>, the alternatives as a list of words.\<close>

definition named_like :: "string list \<Rightarrow> string \<Rightarrow> bool" where
  "named_like ws text \<longleftrightarrow> list_ex (contains text) ws"

definition match_metric :: "recipe_metric list \<Rightarrow> string list \<Rightarrow> recipe_metric option" where
  "match_metric ms ws = List.find (\<lambda>m. named_like ws (part_text (xm_key m) (xm_name m))) ms"

definition match_actuator :: "recipe_actuator list \<Rightarrow> string list \<Rightarrow> recipe_actuator option" where
  "match_actuator xs ws = List.find (\<lambda>a. named_like ws (part_text (xa_key a) (xa_name a))) xs"

abbreviation metric_wire :: "recipe_metric \<Rightarrow> string" where "metric_wire m \<equiv> wireId (xm_name m) (xm_key m)"
abbreviation actuator_wire :: "recipe_actuator \<Rightarrow> string" where "actuator_wire a \<equiv> wireId (xa_name a) (xa_key a)"

definition actuatorAction :: "string \<Rightarrow> recipe_device \<Rightarrow> recipe_actuator \<Rightarrow> bool \<Rightarrow> bool \<Rightarrow> action_draft" where
  "actuatorAction i device a on revert =
     Actuator ((emptyActuator i (xd_id device))\<lparr>a_actuator := actuator_wire a, a_bool := on, a_revertOnClear := revert\<rparr>)"

definition threshold :: "recipe_metric \<Rightarrow> rat \<Rightarrow> rat \<Rightarrow> jsnum" where
  "threshold m fraction fallback =
     (case (xm_min m, xm_max m) of
        (Some lo, Some hi) \<Rightarrow> if lo < hi then Fin (of_int \<lfloor>lo + (hi - lo) * fraction + 1 / 2\<rfloor>) else Fin fallback
      | _ \<Rightarrow> Fin fallback)"

definition unit_text :: "recipe_metric \<Rightarrow> string" where
  "unit_text m = (case xm_unit m of Some u \<Rightarrow> if u = [] then [] else '' '' @ u | None \<Rightarrow> [])"

definition apostrophe :: string where "apostrophe = [CHR 0x27]"

section \<open>recipesFor\<close>

text \<open>\<open>base()\<close> draws two ids; the contact and the action that replace its own draw one each.\<close>

definition reading_draft ::
    "(nat \<Rightarrow> string) \<Rightarrow> nat \<Rightarrow> string \<Rightarrow> string \<Rightarrow> string \<Rightarrow> string \<Rightarrow> jsnum \<Rightarrow> jsnum \<Rightarrow> (string \<Rightarrow> action_draft) \<Rightarrow> string
      \<Rightarrow> rule_draft \<times> nat" where
  "reading_draft gen k device tz metric op limit hyst act name =
     (case emptyDraft gen k device tz of (d, k1) \<Rightarrow>
        case newId gen k1 of (i, k2) \<Rightarrow>
          case newId gen k2 of (j, k3) \<Rightarrow>
            (d\<lparr>d_condition := Some (Contact ((emptyContact i device)\<lparr>c_metric := metric, c_operator := op, c_value := limit, c_hysteresis := hyst\<rparr>)),
               d_actions := [act j], d_name := name\<rparr>, k3))"

definition email_action :: "string \<Rightarrow> string \<Rightarrow> string \<Rightarrow> action_draft" where
  "email_action subject body i = Email \<lparr>e_id = i, e_to = [], e_subject = subject, e_body = body\<rparr>"

definition notify_action :: "string \<Rightarrow> string \<Rightarrow> action_draft" where
  "notify_action message i = Notification \<lparr>n_id = i, n_message = message\<rparr>"

definition hot_recipe :: "(nat \<Rightarrow> string) \<Rightarrow> nat \<Rightarrow> recipe_device \<Rightarrow> string \<Rightarrow> recipe_metric \<Rightarrow> recipe_actuator \<Rightarrow> recipe \<times> nat" where
  "hot_recipe gen k device tz temp fan =
     (let limit = (if named_like [''temp''] (part_text (xm_key temp) (xm_name temp)) then threshold temp (3 / 4) 30 else threshold temp (3 / 4) 50)
      in case reading_draft gen k (xd_id device) tz (metric_wire temp) ''>'' limit DEFAULT_HYSTERESIS
                (\<lambda>i. actuatorAction i device fan True True) (xm_name temp @ '' high '' @ arrow @ '' '' @ xa_name fan @ '' on'') of
        (d, k') \<Rightarrow>
          (\<lparr>re_id = ''too-hot'', re_title = ''Turn on '' @ xa_name fan @ '' when it'' @ apostrophe @ ''s too hot'',
            re_description = ''Above '' @ number_text limit @ unit_text temp @ '' for 10 s, switch '' @ xa_name fan @ '' on; off again once it drops back.'',
            re_icon = Fan_icon, re_tags = [Switches_hardware], re_draft = d\<rparr>, k'))"

definition door_recipe :: "(nat \<Rightarrow> string) \<Rightarrow> nat \<Rightarrow> recipe_device \<Rightarrow> string \<Rightarrow> recipe_metric \<Rightarrow> recipe \<times> nat" where
  "door_recipe gen k device tz door =
     (case reading_draft gen k (xd_id device) tz (metric_wire door) ''=='' (Fin 1) (Fin 0)
             (email_action (xm_name door @ '' left open on '' @ xd_name device)
                (xm_name door @ '' on '' @ xd_name device @ '' has been open for 2 minutes.''))
             (xm_name door @ '' open too long'') of
        (d, k') \<Rightarrow>
          (\<lparr>re_id = ''door-open'', re_title = ''Alert when '' @ lower_case (xm_name door) @ '' stays open'',
            re_description = ''Emails the workspace'' @ apostrophe @ ''s alert recipients after 2 minutes open.'',
            re_icon = Door_icon, re_tags = [Sends_email], re_draft = d\<lparr>d_forDuration := Fin 120\<rparr>\<rparr>, k'))"

definition humidity_recipe :: "(nat \<Rightarrow> string) \<Rightarrow> nat \<Rightarrow> recipe_device \<Rightarrow> string \<Rightarrow> recipe_metric \<Rightarrow> recipe \<times> nat" where
  "humidity_recipe gen k device tz humidity =
     (let limit = threshold humidity (3 / 10) 40
      in case reading_draft gen k (xd_id device) tz (metric_wire humidity) ''<'' limit DEFAULT_HYSTERESIS
                (notify_action (xm_name humidity @ '' on '' @ xd_name device @ '' is below '' @ number_text limit @ ''.''))
                (xm_name humidity @ '' low'') of
        (d, k') \<Rightarrow>
          (\<lparr>re_id = ''humidity-low'', re_title = ''Warn when '' @ lower_case (xm_name humidity) @ '' drops'',
            re_description = ''Below '' @ number_text limit @ unit_text humidity @ '' for 10 s, add a notification.'',
            re_icon = Droplet_icon, re_tags = [], re_draft = d\<rparr>, k'))"

definition tank_recipe :: "(nat \<Rightarrow> string) \<Rightarrow> nat \<Rightarrow> recipe_device \<Rightarrow> string \<Rightarrow> recipe_metric \<Rightarrow> recipe_actuator \<Rightarrow> recipe \<times> nat" where
  "tank_recipe gen k device tz level pump =
     (let limit = threshold level (2 / 10) 20
      in case reading_draft gen k (xd_id device) tz (metric_wire level) ''<'' limit DEFAULT_HYSTERESIS
                (\<lambda>i. actuatorAction i device pump False False) (xm_name level @ '' low '' @ arrow @ '' stop '' @ xa_name pump) of
        (d, k') \<Rightarrow>
          (\<lparr>re_id = ''tank-low'', re_title = ''Stop '' @ xa_name pump @ '' when the tank is low'',
            re_description = ''Below '' @ number_text limit @ unit_text level @ '', switch '' @ xa_name pump @ '' off and keep it off until someone resets the rule.'',
            re_icon = Pump_icon, re_tags = [Switches_hardware, Latches], re_draft = d\<lparr>d_behaviour := Latch\<rparr>\<rparr>, k'))"

text \<open>The recipes without a condition.\<close>

definition trigger_draft ::
    "(nat \<Rightarrow> string) \<Rightarrow> nat \<Rightarrow> string \<Rightarrow> string \<Rightarrow> (when_draft \<Rightarrow> when_draft) \<Rightarrow> (string \<Rightarrow> action_draft) \<Rightarrow> string \<Rightarrow> rule_draft \<times> nat" where
  "trigger_draft gen k device tz f act name =
     (case emptyDraft gen k device tz of (d, k1) \<Rightarrow>
        case newId gen k1 of (j, k2) \<Rightarrow>
          (d\<lparr>d_when := f (d_when d), d_condition := None, d_actions := [act j], d_name := name\<rparr>, k2))"

definition goes_offline :: "string \<Rightarrow> when_draft \<Rightarrow> when_draft" where
  "goes_offline device w = w\<lparr>w_type := DeviceStatusT, w_statusDeviceId := device, w_transition := Disconnected\<rparr>"

definition at_ten :: "string \<Rightarrow> when_draft \<Rightarrow> when_draft" where
  "at_ten tz w = w\<lparr>w_type := ScheduleT, w_cron := ''0 22 * * *'', w_timezone := tz\<rparr>"

definition offline_recipe :: "(nat \<Rightarrow> string) \<Rightarrow> nat \<Rightarrow> recipe_device \<Rightarrow> string \<Rightarrow> recipe \<times> nat" where
  "offline_recipe gen k device tz =
     (case trigger_draft gen k (xd_id device) tz (goes_offline (xd_id device))
             (notify_action (xd_name device @ '' went offline.'')) (xd_name device @ '' offline'') of
        (d, k') \<Rightarrow>
          (\<lparr>re_id = ''offline'', re_title = ''Tell me when this device goes offline'',
            re_description = ''A notification when '' @ xd_name device @ '' disconnects.'',
            re_icon = Offline_icon, re_tags = [], re_draft = d\<lparr>d_cooldown := DEFAULT_COOLDOWN\<rparr>\<rparr>, k'))"

definition schedule_recipe :: "(nat \<Rightarrow> string) \<Rightarrow> nat \<Rightarrow> recipe_device \<Rightarrow> string \<Rightarrow> recipe_actuator \<Rightarrow> recipe \<times> nat" where
  "schedule_recipe gen k device tz a =
     (case trigger_draft gen k (xd_id device) tz (at_ten tz) (\<lambda>i. actuatorAction i device a True False) (xa_name a @ '' on at 22:00'') of
        (d, k') \<Rightarrow>
          (\<lparr>re_id = ''schedule'', re_title = ''Switch something on a schedule'',
            re_description = ''Switch '' @ xa_name a @ '' on every day at 22:00; change the time and days in the editor.'',
            re_icon = Clock_icon, re_tags = [Switches_hardware], re_draft = d\<rparr>, k'))"

definition or_first :: "'a option \<Rightarrow> 'a option \<Rightarrow> 'a option" where
  "or_first a b = (case a of Some x \<Rightarrow> Some x | None \<Rightarrow> b)"

definition head_of :: "'a list \<Rightarrow> 'a option" where
  "head_of xs = (case xs of [] \<Rightarrow> None | x # _ \<Rightarrow> Some x)"

text \<open>One after the other: a recipe that applies is pushed and the supply goes on.\<close>

definition also_make :: "(nat \<Rightarrow> recipe \<times> nat) option \<Rightarrow> recipe list \<times> nat \<Rightarrow> recipe list \<times> nat" where
  "also_make mk out =
     (case mk of None \<Rightarrow> out | Some f \<Rightarrow> (case f (snd out) of (r, k) \<Rightarrow> (fst out @ [r], k)))"

definition recipesFor :: "(nat \<Rightarrow> string) \<Rightarrow> nat \<Rightarrow> recipe_device \<Rightarrow> string \<Rightarrow> recipe list \<times> nat" where
  "recipesFor gen k device tz =
     (let actuators = filter switchable (xd_actuators device);
          numeric = filter is_numeric (xd_metrics device);
          temp = or_first (match_metric numeric [''temp'']) (List.find is_numeric (xd_metrics device));
          fan = or_first (match_actuator actuators [''fan'', ''cool'', ''vent'']) (head_of actuators);
          door = match_metric (filter is_on_off (xd_metrics device)) [''door'', ''open'', ''contact''];
          humidity = match_metric numeric [''hum''];
          level = match_metric numeric [''level'', ''tank''];
          pump = match_actuator actuators [''pump'']
      in also_make (map_option (\<lambda>a k. schedule_recipe gen k device tz a) (head_of actuators))
        (also_make (Some (\<lambda>k. offline_recipe gen k device tz))
        (also_make (case (level, pump) of (Some l, Some p) \<Rightarrow> Some (\<lambda>k. tank_recipe gen k device tz l p) | _ \<Rightarrow> None)
        (also_make (map_option (\<lambda>h k. humidity_recipe gen k device tz h) humidity)
        (also_make (map_option (\<lambda>d k. door_recipe gen k device tz d) door)
        (also_make (case (temp, fan) of (Some t, Some f) \<Rightarrow> Some (\<lambda>k. hot_recipe gen k device tz t f) | _ \<Rightarrow> None)
          ([], k)))))))"

section \<open>recipeStarts\<close>

definition switchOn :: "string \<Rightarrow> bool \<Rightarrow> bool \<Rightarrow> action_draft" where
  "switchOn i on revert = Actuator ((emptyActuator i [])\<lparr>a_bool := on, a_revertOnClear := revert\<rparr>)"

definition generic_offline :: "(nat \<Rightarrow> string) \<Rightarrow> nat \<Rightarrow> string \<Rightarrow> recipe \<times> nat" where
  "generic_offline gen k tz =
     (case trigger_draft gen k [] tz (goes_offline []) (notify_action ''A device went offline.'') ''Device offline'' of
        (d, k') \<Rightarrow>
          (\<lparr>re_id = ''offline'', re_title = ''Tell me when a device goes offline'',
            re_description = ''A notification when the device you pick disconnects.'',
            re_icon = Offline_icon, re_tags = [], re_draft = d\<lparr>d_cooldown := DEFAULT_COOLDOWN\<rparr>\<rparr>, k'))"

definition generic_hot :: "(nat \<Rightarrow> string) \<Rightarrow> nat \<Rightarrow> string \<Rightarrow> recipe \<times> nat" where
  "generic_hot gen k tz =
     (case reading_draft gen k [] tz [] ''>'' (Fin 30) DEFAULT_HYSTERESIS (\<lambda>i. switchOn i True True) (''Too hot '' @ arrow @ '' switch on'') of
        (d, k') \<Rightarrow>
          (\<lparr>re_id = ''too-hot'', re_title = ''Turn something on when it'' @ apostrophe @ ''s too hot'',
            re_description = ''Above a limit for 10 s, switch something on; off again once it drops back.'',
            re_icon = Fan_icon, re_tags = [Switches_hardware], re_draft = d\<rparr>, k'))"

definition generic_door :: "(nat \<Rightarrow> string) \<Rightarrow> nat \<Rightarrow> string \<Rightarrow> recipe \<times> nat" where
  "generic_door gen k tz =
     (case reading_draft gen k [] tz [] ''=='' (Fin 1) (Fin 0) (email_action ''Left open'' ''It has been open for 2 minutes.'') ''Door open too long'' of
        (d, k') \<Rightarrow>
          (\<lparr>re_id = ''door-open'', re_title = ''Alert when a door stays open'',
            re_description = ''Emails the workspace'' @ apostrophe @ ''s alert recipients after 2 minutes open.'',
            re_icon = Door_icon, re_tags = [Sends_email], re_draft = d\<lparr>d_forDuration := Fin 120\<rparr>\<rparr>, k'))"

definition generic_humidity :: "(nat \<Rightarrow> string) \<Rightarrow> nat \<Rightarrow> string \<Rightarrow> recipe \<times> nat" where
  "generic_humidity gen k tz =
     (case reading_draft gen k [] tz [] ''<'' (Fin 40) DEFAULT_HYSTERESIS (notify_action ''Humidity is low.'') ''Humidity low'' of
        (d, k') \<Rightarrow>
          (\<lparr>re_id = ''humidity-low'', re_title = ''Warn when humidity drops'',
            re_description = ''Below a limit for 10 s, add a notification.'',
            re_icon = Droplet_icon, re_tags = [], re_draft = d\<rparr>, k'))"

definition generic_tank :: "(nat \<Rightarrow> string) \<Rightarrow> nat \<Rightarrow> string \<Rightarrow> recipe \<times> nat" where
  "generic_tank gen k tz =
     (case reading_draft gen k [] tz [] ''<'' (Fin 20) DEFAULT_HYSTERESIS (\<lambda>i. switchOn i False False) (''Tank low '' @ arrow @ '' stop pump'') of
        (d, k') \<Rightarrow>
          (\<lparr>re_id = ''tank-low'', re_title = ''Stop the pump when the tank is low'',
            re_description = ''Below a limit, switch the pump off and keep it off until someone resets the rule.'',
            re_icon = Pump_icon, re_tags = [Switches_hardware, Latches], re_draft = d\<lparr>d_behaviour := Latch\<rparr>\<rparr>, k'))"

definition generic_schedule :: "(nat \<Rightarrow> string) \<Rightarrow> nat \<Rightarrow> string \<Rightarrow> recipe \<times> nat" where
  "generic_schedule gen k tz =
     (case trigger_draft gen k [] tz (at_ten tz) (\<lambda>i. switchOn i True False) ''On at 22:00'' of
        (d, k') \<Rightarrow>
          (\<lparr>re_id = ''schedule'', re_title = ''Switch something on a schedule'',
            re_description = ''Every day at 22:00; change the time and days in the editor.'',
            re_icon = Clock_icon, re_tags = [Switches_hardware], re_draft = d\<rparr>, k'))"

definition generic_recipes :: "(nat \<Rightarrow> string) \<Rightarrow> nat \<Rightarrow> string \<Rightarrow> recipe list \<times> nat" where
  "generic_recipes gen k tz =
     also_make (Some (\<lambda>k. generic_schedule gen k tz)) (also_make (Some (\<lambda>k. generic_tank gen k tz))
       (also_make (Some (\<lambda>k. generic_humidity gen k tz)) (also_make (Some (\<lambda>k. generic_door gen k tz))
         (also_make (Some (\<lambda>k. generic_hot gen k tz)) (also_make (Some (\<lambda>k. generic_offline gen k tz)) ([], k))))))"

text \<open>\<open>filled.includes(r)\<close> is identity, so each start carries whether it came from \<open>filled\<close>.\<close>

definition recipeStarts :: "(nat \<Rightarrow> string) \<Rightarrow> nat \<Rightarrow> string \<Rightarrow> recipe_device option \<Rightarrow> recipe list \<times> nat" where
  "recipeStarts gen k tz device =
     (let (filled, k1) = (case device of Some d \<Rightarrow> recipesFor gen k d tz | None \<Rightarrow> ([], k));
          (generic, k2) = generic_recipes gen k1 tz;
          ready = map (\<lambda>g. case List.find (\<lambda>f. re_id f = re_id g) filled of Some f \<Rightarrow> (f, True) | None \<Rightarrow> (g, False)) generic
      in (map fst (filter snd ready) @ map fst (filter (\<lambda>r. \<not> snd r) ready), k2))"

section \<open>Every recipe is ready to save\<close>

definition recipe_fits :: "recipe_device \<Rightarrow> recipe \<Rightarrow> bool" where
  "recipe_fits device r \<longleftrightarrow>
     validateDraft (re_draft r) = None \<and> \<not> flappingRisk (re_draft r) \<and>
     list_all (\<lambda>c. c_deviceId c = xd_id device \<and> c_metric c \<in> set (map metric_wire (xd_metrics device)))
       (contacts_opt (d_condition (re_draft r))) \<and>
     list_all (\<lambda>a. case a of
         Actuator x \<Rightarrow> a_deviceId x = xd_id device \<and> a_valueKind x = BooleanK \<and>
           a_actuator x \<in> set (map actuator_wire (filter switchable (xd_actuators device)))
       | _ \<Rightarrow> True) (d_actions (re_draft r))"

definition names_ok :: "recipe_device \<Rightarrow> bool" where
  "names_ok device \<longleftrightarrow>
     xd_id device \<noteq> [] \<and> list_all (\<lambda>m. trim (metric_wire m) \<noteq> []) (xd_metrics device) \<and>
     list_all (\<lambda>a. trim (actuator_wire a) \<noteq> []) (xd_actuators device)"

lemma trim_nonblank:
  assumes "c \<in> set s" "\<not> is_space c"
  shows "trim s \<noteq> []"
proof
  let ?d = "dropWhile is_space s"
  assume "trim s = []"
  then have "dropWhile is_space (rev ?d) = []" by (simp add: trim_def)
  then have all: "\<forall>x\<in>set ?d. is_space x" by (simp add: dropWhile_eq_Nil_conv)
  moreover have "?d \<noteq> []" using assms by (auto simp: dropWhile_eq_Nil_conv)
  ultimately show False using hd_dropWhile [of is_space s] hd_in_set [of ?d] by blast
qed

lemmas recipe_defs = validateDraft_def flappingRisk_def reading_draft_def trigger_draft_def emptyDraft_def newId_def contacts_opt_def
  emptyContact_def emptyActuator_def actuatorAction_def email_action_def notify_action_def no_actions_def canClear_def
  isReadingRule_def contactProblem_def bare_threshold_def goes_offline_def at_ten_def DEFAULT_HYSTERESIS_def js_eq_def

lemma sent_message: "trim (s @ CHR ''.'' # t) \<noteq> []"
  by (rule trim_nonblank [of "CHR ''.''"]) (auto simp: is_space_def)

lemma names_metric: "names_ok device \<Longrightarrow> m \<in> set (xd_metrics device) \<Longrightarrow> trim (metric_wire m) \<noteq> []"
  by (simp add: names_ok_def list_all_iff)

lemma names_actuator: "names_ok device \<Longrightarrow> a \<in> set (xd_actuators device) \<Longrightarrow> trim (actuator_wire a) \<noteq> []"
  by (simp add: names_ok_def list_all_iff)

lemma hot_fits:
  assumes "names_ok device" "m \<in> set (xd_metrics device)" "a \<in> set (filter switchable (xd_actuators device))"
  shows "recipe_fits device (fst (hot_recipe gen k device tz m a))"
  using assms names_metric [OF assms(1,2)] names_actuator [of device a]
  by (simp add: recipe_fits_def hot_recipe_def Let_def recipe_defs names_ok_def)

lemma tank_fits:
  assumes "names_ok device" "m \<in> set (xd_metrics device)" "a \<in> set (filter switchable (xd_actuators device))"
  shows "recipe_fits device (fst (tank_recipe gen k device tz m a))"
  using assms names_metric [OF assms(1,2)] names_actuator [of device a]
  by (simp add: recipe_fits_def tank_recipe_def Let_def recipe_defs names_ok_def)

lemma humidity_fits:
  assumes "names_ok device" "m \<in> set (xd_metrics device)"
  shows "recipe_fits device (fst (humidity_recipe gen k device tz m))"
  using assms names_metric [OF assms(1,2)] sent_message [of "xm_name m @ '' on '' @ xd_name device @ '' is below '' @ t" "[]" for t]
  by (simp add: recipe_fits_def humidity_recipe_def Let_def recipe_defs names_ok_def)

lemma door_fits:
  assumes "names_ok device" "m \<in> set (xd_metrics device)"
  shows "recipe_fits device (fst (door_recipe gen k device tz m))"
proof -
  have "trim (xm_name m @ '' left open on '' @ xd_name device) \<noteq> []"
    "trim (xm_name m @ '' on '' @ xd_name device @ '' has been open for 2 minutes.'') \<noteq> []"
    by (rule trim_nonblank [of "CHR ''n''"]; simp add: is_space_def)+
  moreover have "parseRecipients [] = []" by code_simp
  ultimately show ?thesis using assms names_metric [OF assms(1,2)]
    by (simp add: recipe_fits_def door_recipe_def recipe_defs names_ok_def HYSTERESIS_OPERATORS_def)
qed

lemma offline_fits:
  assumes "names_ok device"
  shows "recipe_fits device (fst (offline_recipe gen k device tz))"
proof -
  have "trim (xd_name device @ '' went offline.'') \<noteq> []"
    by (rule trim_nonblank [of "CHR ''w''"]; simp add: is_space_def)
  then show ?thesis using assms by (simp add: recipe_fits_def offline_recipe_def recipe_defs names_ok_def)
qed

lemma schedule_fits:
  assumes "names_ok device" "a \<in> set (filter switchable (xd_actuators device))"
  shows "recipe_fits device (fst (schedule_recipe gen k device tz a))"
proof -
  have "trim ''0 22 * * *'' \<noteq> []" by code_simp
  then show ?thesis using assms names_actuator [of device a]
    by (simp add: recipe_fits_def schedule_recipe_def recipe_defs names_ok_def)
qed

lemma also_make_all:
  assumes "list_all P (fst out)" "\<And>f k. mk = Some f \<Longrightarrow> P (fst (f k))"
  shows "list_all P (fst (also_make mk out))"
  using assms by (auto simp: also_make_def split: option.splits prod.splits) (metis fst_conv)

lemma find_in: "List.find p xs = Some x \<Longrightarrow> x \<in> set xs"
  using find_Some_iff by fast

lemma match_metric_in: "match_metric (filter p ms) ws = Some m \<Longrightarrow> m \<in> set ms"
  unfolding match_metric_def by (auto dest: find_in)

lemma match_actuator_in: "match_actuator xs ws = Some a \<Longrightarrow> a \<in> set xs"
  unfolding match_actuator_def by (rule find_in)

lemma head_of_in: "head_of xs = Some x \<Longrightarrow> x \<in> set xs"
  by (auto simp: head_of_def split: list.splits)

lemma or_first_Some: "or_first a b = Some x \<Longrightarrow> a = Some x \<or> b = Some x"
  by (auto simp: or_first_def split: option.splits)

lemma names_metric_blank: "names_ok d \<Longrightarrow> xd_id d \<noteq> []"
  by (simp add: names_ok_def)

text \<open>On a device whose id and wire names are not blank, every recipe generated for it passes
  the editor's validation and its flapping check as generated, reads only metrics of that device
  and commands only its on/off actuators.\<close>

theorem recipes_ready:
  assumes "names_ok device"
  shows "list_all (recipe_fits device) (fst (recipesFor gen k device tz))"
proof -
  let ?as = "filter switchable (xd_actuators device)" and ?ms = "xd_metrics device"
  have temp: "m \<in> set ?ms" if "or_first (match_metric (filter is_numeric ?ms) [''temp'']) (List.find is_numeric ?ms) = Some m" for m
    using or_first_Some [OF that] by (auto dest: match_metric_in find_in)
  have fan: "a \<in> set ?as" if "or_first (match_actuator ?as [''fan'', ''cool'', ''vent'']) (head_of ?as) = Some a" for a
    using or_first_Some [OF that] by (auto dest: match_actuator_in head_of_in simp del: set_filter)
  note fits = hot_fits [OF assms temp fan] door_fits [OF assms match_metric_in] humidity_fits [OF assms match_metric_in]
    tank_fits [OF assms match_metric_in match_actuator_in] offline_fits [OF assms] schedule_fits [OF assms head_of_in]
  show ?thesis
    unfolding recipesFor_def Let_def
    by (intro also_make_all; (auto split: option.splits simp del: set_filter simp flip: fun_upd_def intro: fits)?)
qed

lemma also_make_ids:
  "(\<And>f k. mk = Some f \<Longrightarrow> re_id (fst (f k)) = i) \<Longrightarrow>
   map re_id (fst (also_make mk out)) = map re_id (fst out) @ (if mk = None then [] else [i])"
  by (auto simp: also_make_def split: option.splits prod.splits) (metis fst_conv)

lemma recipe_ids:
  "re_id (fst (hot_recipe gen k d tz m a)) = ''too-hot''" "re_id (fst (door_recipe gen k d tz m)) = ''door-open''"
  "re_id (fst (humidity_recipe gen k d tz m)) = ''humidity-low''" "re_id (fst (tank_recipe gen k d tz m a)) = ''tank-low''"
  "re_id (fst (offline_recipe gen k d tz)) = ''offline''" "re_id (fst (schedule_recipe gen k d tz a)) = ''schedule''"
  by (simp_all add: hot_recipe_def door_recipe_def humidity_recipe_def tank_recipe_def offline_recipe_def schedule_recipe_def
      reading_draft_def trigger_draft_def emptyDraft_def newId_def Let_def)

definition recipe_order :: "string list" where
  "recipe_order = [''offline'', ''too-hot'', ''door-open'', ''humidity-low'', ''tank-low'', ''schedule'']"

lemma generic_ids: "map re_id (fst (generic_recipes gen k tz)) = recipe_order"
  by (simp add: generic_recipes_def also_make_def generic_offline_def generic_hot_def generic_door_def generic_humidity_def
      generic_tank_def generic_schedule_def reading_draft_def trigger_draft_def emptyDraft_def newId_def Let_def recipe_order_def)

lemma sub_mset_distinct:
  assumes "mset xs \<subseteq># mset ys" "distinct ys"
  shows "distinct xs \<and> set xs \<subseteq> set ys"
proof -
  obtain zs where "mset ys = mset xs + mset zs" using assms(1) by (metis ex_mset mset_subset_eq_exists_conv)
  then have "mset ys = mset (xs @ zs)" by simp
  then show ?thesis using assms(2) mset_eq_imp_distinct_iff mset_eq_setD by (metis distinct_append set_append Un_upper1)
qed

lemma recipesFor_ids:
  "distinct (map re_id (fst (recipesFor gen k device tz))) \<and> set (map re_id (fst (recipesFor gen k device tz))) \<subseteq> set recipe_order"
proof -
  obtain hot door hum tank off sched where out: "recipesFor gen k device tz =
      also_make (map_option (\<lambda>a k. schedule_recipe gen k device tz a) sched)
        (also_make (Some (\<lambda>k. offline_recipe gen k device tz))
        (also_make (case tank of (Some l, Some p) \<Rightarrow> Some (\<lambda>k. tank_recipe gen k device tz l p) | _ \<Rightarrow> None)
        (also_make (map_option (\<lambda>h k. humidity_recipe gen k device tz h) hum)
        (also_make (map_option (\<lambda>d k. door_recipe gen k device tz d) door)
        (also_make (case hot of (Some t, Some f) \<Rightarrow> Some (\<lambda>k. hot_recipe gen k device tz t f) | _ \<Rightarrow> None)
          ([], k))))))"
    unfolding recipesFor_def Let_def by blast
  have "mset (map re_id (fst (recipesFor gen k device tz))) \<subseteq># mset recipe_order"
    unfolding out
    by (subst also_make_ids [where i = "''schedule''"], force simp: recipe_ids,
        subst also_make_ids [where i = "''offline''"], force simp: recipe_ids,
        subst also_make_ids [where i = "''tank-low''"], force simp: recipe_ids split: option.splits prod.splits,
        subst also_make_ids [where i = "''humidity-low''"], force simp: recipe_ids,
        subst also_make_ids [where i = "''door-open''"], force simp: recipe_ids,
        subst also_make_ids [where i = "''too-hot''"], force simp: recipe_ids split: option.splits prod.splits)
       (simp add: recipe_order_def subset_mset.add_mono)
  moreover have "distinct recipe_order" by (simp add: recipe_order_def)
  ultimately show ?thesis by (rule sub_mset_distinct)
qed

lemma found_by_id:
  "distinct (map re_id fs) \<Longrightarrow> f \<in> set fs \<Longrightarrow> List.find (\<lambda>x. re_id x = re_id f) fs = Some f"
  by (induction fs) (auto intro: rev_image_eqI)

text \<open>With a device, the starts are one for each of the six recipes, without repeats; those the
  device can run come first, exactly as \<open>recipesFor\<close> filled them, and the others follow.\<close>

theorem recipeStarts_complete:
  "let filled = fst (recipesFor gen k device tz); starts = fst (recipeStarts gen k tz (Some device)) in
   set (take (length filled) starts) = set filled \<and>
   distinct (map re_id starts) \<and> set (map re_id starts) = set recipe_order"
proof -
  define filled where "filled = fst (recipesFor gen k device tz)"
  obtain k1 where k1: "recipesFor gen k device tz = (filled, k1)" by (metis filled_def prod.collapse)
  obtain generic k2 where g: "generic_recipes gen k1 tz = (generic, k2)" by fastforce
  define pick where "pick = (\<lambda>g. case List.find (\<lambda>f. re_id f = re_id g) filled of Some f \<Rightarrow> (f, True) | None \<Rightarrow> (g, False))"
  define ready where "ready = map pick generic"
  have starts: "fst (recipeStarts gen k tz (Some device)) = map fst (filter snd ready) @ map fst (filter (\<lambda>r. \<not> snd r) ready)"
    by (simp add: recipeStarts_def k1 g ready_def pick_def Let_def)
  have ids: "distinct (map re_id filled)" "set (map re_id filled) \<subseteq> set recipe_order" "map re_id generic = recipe_order"
    using recipesFor_ids [of gen k device tz] generic_ids [of gen k1 tz] by (simp_all add: filled_def g)
  have pick_id: "re_id (fst (pick g)) = re_id g" for g
    using find_Some_iff by (fastforce simp: pick_def split: option.splits)
  then have "(re_id \<circ> fst) \<circ> pick = re_id" by (simp add: fun_eq_iff)
  then have ready_ids: "map (re_id \<circ> fst) ready = recipe_order" using ids(3) by (simp only: ready_def map_map)
  have own: "set (map fst (filter snd ready)) = set filled"
  proof (intro equalityI subsetI)
    fix f assume "f \<in> set (map fst (filter snd ready))"
    then show "f \<in> set filled" by (auto simp: ready_def pick_def split: option.splits dest: find_in)
  next
    fix f assume f: "f \<in> set filled"
    then have "re_id f \<in> set (map re_id generic)" using ids(2,3) by auto
    then obtain g where "g \<in> set generic" "re_id g = re_id f" by auto
    then have "g \<in> set generic" "pick g = (f, True)" using found_by_id [OF ids(1) f] by (simp_all add: pick_def)
    then show "f \<in> set (map fst (filter snd ready))" by (force simp: ready_def)
  qed
  have dist: "distinct (map (re_id \<circ> fst) ready)" unfolding ready_ids by (simp add: recipe_order_def)
  then have "distinct (map (re_id \<circ> fst) (filter snd ready))" by (simp add: distinct_map inj_on_def)
  then have "distinct (map fst (filter snd ready))" by (metis distinct_map map_map)
  moreover have "distinct filled" using ids(1) by (simp add: distinct_map)
  ultimately have len: "length (map fst (filter snd ready)) = length filled" using own by (metis distinct_card)
  have "mset (map re_id (fst (recipeStarts gen k tz (Some device)))) = mset (map (re_id \<circ> fst) ready)"
    unfolding starts by (induction ready) auto
  then have "distinct (map re_id (fst (recipeStarts gen k tz (Some device))))"
    "set (map re_id (fst (recipeStarts gen k tz (Some device)))) = set recipe_order"
    using dist ready_ids by (metis mset_eq_imp_distinct_iff) (metis mset_eq_setD ready_ids \<open>mset _ = mset _\<close>)
  moreover have "take (length filled) (fst (recipeStarts gen k tz (Some device))) = map fst (filter snd ready)"
    unfolding starts using len by simp
  ultimately show ?thesis using own by (simp add: Let_def flip: filled_def)
qed

definition demo_bay :: recipe_device where
  "demo_bay =
     \<lparr>xd_id = ''dev1'', xd_name = ''Bay 1'',
      xd_metrics = [\<lparr>xm_key = Some ''temperature'', xm_name = ''Temperature'', xm_data_type = Some ''float'', xm_unit = None,
                     xm_min = Some 0, xm_max = Some 40\<rparr>],
      xd_actuators = [\<lparr>xa_key = Some ''fan1'', xa_name = ''Fan 1'', xa_value_type = Some ''bool''\<rparr>]\<rparr>"

lemma recipes_ready_witness:
  "names_ok demo_bay \<and> list_all (recipe_fits demo_bay) (fst (recipesFor counted_id 0 demo_bay ''UTC''))"
proof -
  have "trim ''temperature'' \<noteq> []" "trim ''fan1'' \<noteq> []"
    by (rule trim_nonblank [of "CHR ''a''"]; simp add: is_space_def)+
  then have n: "names_ok demo_bay" by (simp add: names_ok_def demo_bay_def wireId_def or_else_def)
  then show ?thesis using recipes_ready [OF n, of counted_id 0 "''UTC''"] by simp
qed

end
