(* ===== verification/Rule_Preview.thy ===== *)
theory Rule_Preview imports Rule_Draft Utf16 begin

text \<open>
  \<open>frontend/src/lib/rule-preview.ts\<close>: the safety checks shown while typing (\<open>ruleChecks\<close>),
  the list of problems that drives the section rail and the save gate (\<open>sectionIssues\<close>), and
  the exact messages a draft would send (\<open>wouldSend\<close>).  The lemmas show that the save gate and
  \<open>validateDraft\<close> agree, and that the preview's commands are those of the request.
\<close>

datatype check_id = Conditions_chk | Actions_chk | Hold_chk | Interval_chk | Hysteresis_chk

record check =
  k_id :: check_id
  k_label :: string
  k_ok :: bool
  k_blocking :: bool
  k_detail :: "string option"

definition MIN_HOLD :: jsnum where "MIN_HOLD = Fin 5"
definition MIN_INTERVAL :: jsnum where "MIN_INTERVAL = Fin 30"
definition MAX_NAME :: nat where "MAX_NAME = 200"

definition switchesHardware :: "rule_draft \<Rightarrow> bool" where
  "switchesHardware d \<longleftrightarrow> (\<exists>a\<in>set (d_actions d). case a of Actuator x \<Rightarrow> True | _ \<Rightarrow> False)"

abbreviation leafs :: "rule_draft \<Rightarrow> contact_draft list" where
  "leafs d \<equiv> contacts_opt (d_condition d)"

definition ruleChecks :: "rule_draft \<Rightarrow> check list" where
  "ruleChecks d =
    (let reading = isReadingRule d;
         conditionProblem = (if reading \<and> d_condition d = None
           then Some ''A rule that runs on each reading needs at least one condition.''
           else first_some contactProblem (leafs d));
         actionsProblem = (if no_actions d then Some ''Add at least one action.'' else first_some actionProblem (d_actions d));
         hold = js_ge (d_forDuration d) MIN_HOLD;
         interval = js_ge (d_cooldown d) MIN_INTERVAL;
         bare = filter bare_threshold (leafs d)
     in
     [\<lparr>k_id = Conditions_chk, k_label = ''Conditions complete'', k_ok = (conditionProblem = None), k_blocking = True, k_detail = conditionProblem\<rparr>,
      \<lparr>k_id = Actions_chk, k_label = ''Actions complete'', k_ok = (actionsProblem = None), k_blocking = True, k_detail = actionsProblem\<rparr>] @
     (if reading then
        [\<lparr>k_id = Hold_chk, k_label = ''Hold for at least 5 s'', k_ok = hold, k_blocking = False,
          k_detail = (if hold then None else Some ''A single noisy reading could fire it. Hold the condition for a few seconds first.'')\<rparr>]
      else []) @
     [\<lparr>k_id = Interval_chk, k_label = ''Minimum interval of at least 30 s'', k_ok = interval, k_blocking = False,
       k_detail = (if interval then None else Some ''It could fire again within seconds of the last time.'')\<rparr>] @
     (if reading \<and> switchesHardware d then
        [\<lparr>k_id = Hysteresis_chk, k_label = ''Hysteresis above 0 on thresholds'', k_ok = (bare = []), k_blocking = False,
          k_detail = (if bare = [] then None else
            Some ''A reading hovering at the threshold would toggle the relay. Add a margin it must clear first.'')\<rparr>]
      else []))"

datatype rule_section = When_s | If_s | Then_s | Behaviour_s | Name_s

record section_issue =
  i_section :: rule_section
  i_message :: string
  i_blocking :: bool

abbreviation issue :: "rule_section \<Rightarrow> string \<Rightarrow> bool \<Rightarrow> section_issue" where
  "issue s m b \<equiv> \<lparr>i_section = s, i_message = m, i_blocking = b\<rparr>"

definition issue_if :: "bool \<Rightarrow> rule_section \<Rightarrow> string \<Rightarrow> bool \<Rightarrow> section_issue list" where
  "issue_if c s m b = (if c then [issue s m b] else [])"

definition problems :: "rule_section \<Rightarrow> ('a \<Rightarrow> string option) \<Rightarrow> 'a list \<Rightarrow> section_issue list" where
  "problems s f xs = map (\<lambda>p. issue s p True) (somes (map f xs))"

definition sectionIssues :: "rule_draft \<Rightarrow> section_issue list" where
  "sectionIssues d =
    (let w = d_when d; reading = isReadingRule d in
     issue_if (w_type w = ScheduleT \<and> trim (w_cron w) = []) When_s ''Pick when it runs.'' True @
     issue_if (w_type w = DeviceStatusT \<and> w_statusDeviceId w = []) When_s ''Pick the device to watch.'' True @
     issue_if (reading \<and> d_condition d = None) If_s ''A rule that runs on each reading needs at least one condition.'' True @
     problems If_s contactProblem (leafs d) @
     issue_if (reading \<and> switchesHardware d \<and> (\<exists>c\<in>set (leafs d). bare_threshold c)) If_s
       (''Add hysteresis to the thresholds so a reading hovering at the line doesn'' @ [CHR 0x27] @ ''t toggle the relay.'') False @
     issue_if (no_actions d) Then_s ''Add at least one action.'' True @
     problems Then_s actionProblem (d_actions d) @
     issue_if (reading \<and> js_lt (d_forDuration d) MIN_HOLD) Behaviour_s
       (''Hold for at least 5 s so one noisy reading can'' @ [CHR 0x27] @ ''t fire it.'') False @
     issue_if (js_lt (d_cooldown d) MIN_INTERVAL) Behaviour_s ''Keep at least 30 s between firings.'' False @
     issue_if (canClear d \<and> d_clearNotify d \<and> trim (d_clearMessage d) = []) Behaviour_s ''The clear notification needs a message.'' True @
     issue_if (MAX_NAME < utf16_length (trim (d_name d))) Name_s ''Keep the name to 200 characters.'' True)"

section \<open>What would be sent\<close>

datatype send_kind = Command_snd | Clear_snd | Email_snd | Webhook_snd | Notification_snd

record send =
  x_kind :: send_kind
  x_target :: string
  x_payload :: string

text \<open>\<open>String(v ?? d)\<close>.\<close>

definition text_or :: "json option \<Rightarrow> string \<Rightarrow> string" where
  "text_or v d = (case v of None \<Rightarrow> d | Some JNull \<Rightarrow> d | Some j \<Rightarrow> json_string j)"

definition send_command :: "string \<Rightarrow> (string \<Rightarrow> string option) \<Rightarrow> jsnum \<Rightarrow> send_kind \<Rightarrow> json \<Rightarrow> send" where
  "send_command tenant deviceSlug ttl kind a =
     \<lparr>x_kind = kind,
      x_target = tenant @ ''/'' @ (case deviceSlug (text_or (field a ''device_id'') '''') of Some s \<Rightarrow> s | None \<Rightarrow> ''?'') @
                 ''/cmd/'' @ text_or (field a ''actuator'') ''?'',
      x_payload = stringify [] (JObj ((case field a ''value'' of None \<Rightarrow> [] | Some v \<Rightarrow> [(''value'', v)]) @ [(''ttl'', JNum ttl)]))\<rparr>"

definition send_action :: "string \<Rightarrow> (string \<Rightarrow> string option) \<Rightarrow> jsnum \<Rightarrow> json \<Rightarrow> send list" where
  "send_action tenant deviceSlug ttl a =
     (if has_type a ''actuator_command'' then [send_command tenant deviceSlug ttl Command_snd a]
      else if has_type a ''email'' then
        [\<lparr>x_kind = Email_snd,
          x_target = (case as_arr (field a ''to'') of
              Some (t # ts) \<Rightarrow> join '', '' (array_pieces (t # ts))
            | _ \<Rightarrow> ''the workspace'' @ [CHR 0x27] @ ''s alert recipients''),
          x_payload = text_or (field a ''subject'') ''''\<rparr>]
      else if has_type a ''webhook'' then
        [\<lparr>x_kind = Webhook_snd, x_target = text_or (field a ''url'') '''',
          x_payload = stringify [] (case field a ''body'' of None \<Rightarrow> JObj [] | Some JNull \<Rightarrow> JObj [] | Some b \<Rightarrow> b)\<rparr>]
      else if has_type a ''notification'' then
        [\<lparr>x_kind = Notification_snd, x_target = ''Notifications'', x_payload = text_or (field a ''message'') ''''\<rparr>]
      else [])"

definition send_clear :: "string \<Rightarrow> (string \<Rightarrow> string option) \<Rightarrow> jsnum \<Rightarrow> json \<Rightarrow> send list" where
  "send_clear tenant deviceSlug ttl a =
     (if has_type a ''actuator_command'' then [send_command tenant deviceSlug ttl Clear_snd a]
      else if has_type a ''notification'' then
        [\<lparr>x_kind = Notification_snd, x_target = ''Notifications (on clear)'', x_payload = text_or (field a ''message'') ''''\<rparr>]
      else [])"

definition wouldSend :: "rule_draft \<Rightarrow> string \<Rightarrow> (string \<Rightarrow> string option) \<Rightarrow> jsnum \<Rightarrow> send list" where
  "wouldSend d tenant deviceSlug ttl =
     (case draftToRequest d of None \<Rightarrow> []
      | Some body \<Rightarrow> concat (map (send_action tenant deviceSlug ttl) (q_actions body)) @
                     concat (map (send_clear tenant deviceSlug ttl) (q_clear_actions body)))"

section \<open>The gate and the validator\<close>

text \<open>The issues that stop a save, apart from the name's length (which the validator leaves to the editor).\<close>

definition gate_issues :: "rule_draft \<Rightarrow> section_issue list" where
  "gate_issues d = filter (\<lambda>i. i_blocking i \<and> i_section i \<noteq> Name_s) (sectionIssues d)"

lemma gate_append: "filter P (xs @ ys) = [] \<longleftrightarrow> filter P xs = [] \<and> filter P ys = []"
  by simp

lemma gate_issue_if:
  "filter (\<lambda>i. i_blocking i \<and> i_section i \<noteq> Name_s) (issue_if c s m b) = [] \<longleftrightarrow> \<not> (c \<and> b \<and> s \<noteq> Name_s)"
  by (simp add: issue_if_def)

lemma gate_problems:
  "s \<noteq> Name_s \<Longrightarrow>
   filter (\<lambda>i. i_blocking i \<and> i_section i \<noteq> Name_s) (problems s f xs) = [] \<longleftrightarrow> first_some f xs = None"
  by (induction xs) (auto simp: problems_def split: option.splits)

text \<open>
  The save gate and the validator agree: the sections show no blocking problem (the length
  of the name apart) exactly when \<open>validateDraft\<close> finds none, so whatever passes the gate can be
  sent and nothing the validator accepts is held back.
\<close>

theorem gate_is_validator: "gate_issues d = [] \<longleftrightarrow> validateDraft d = None"
  unfolding gate_issues_def sectionIssues_def Let_def gate_append gate_issue_if
  by (simp add: gate_problems validateDraft_def isReadingRule_def Let_def split: option.splits)

text \<open>The two blocking checks are those of the validator too.\<close>

lemma checks_follow_validator:
  assumes "validateDraft d = None"
  shows "list_all (\<lambda>k. k_blocking k \<longrightarrow> k_ok k) (ruleChecks d)"
proof -
  have "first_some contactProblem (leafs d) = None" "first_some actionProblem (d_actions d) = None"
    "\<not> no_actions d" "\<not> (isReadingRule d \<and> d_condition d = None)"
    using validated [OF assms] by (auto simp: first_some_None)
  then show ?thesis by (simp add: ruleChecks_def Let_def)
qed

section \<open>The commands of the preview\<close>

definition actuators_of :: "rule_draft \<Rightarrow> actuator_draft list" where
  "actuators_of d = somes (map (\<lambda>a. case a of Actuator x \<Rightarrow> Some x | _ \<Rightarrow> None) (d_actions d))"

definition topic :: "string \<Rightarrow> (string \<Rightarrow> string option) \<Rightarrow> actuator_draft \<Rightarrow> string" where
  "topic tenant deviceSlug a =
     tenant @ ''/'' @ (case deviceSlug (a_deviceId a) of Some s \<Rightarrow> s | None \<Rightarrow> ''?'') @ ''/cmd/'' @ trim (a_actuator a)"

lemma send_actuator: "\<exists>p. send_action tenant slug ttl (the (actionToApi (Actuator a))) =
    [\<lparr>x_kind = Command_snd, x_target = topic tenant slug a, x_payload = p\<rparr>]"
  by (simp add: send_action_def send_command_def has_type_def topic_def text_or_def)

lemma send_other:
  "actionToApi a = Some j \<Longrightarrow> (\<And>x. a \<noteq> Actuator x) \<Longrightarrow> s \<in> set (send_action tenant slug ttl j) \<Longrightarrow> x_kind s \<noteq> Command_snd"
  by (cases a) (auto simp: send_action_def has_type_def split: if_splits)

lemma send_clear_kind: "s \<in> set (send_clear tenant slug ttl j) \<Longrightarrow> x_kind s \<noteq> Command_snd"
  by (auto simp: send_clear_def send_command_def split: if_splits)

lemma commands_of_actions:
  "all_some (map actionToApi as) = Some js \<Longrightarrow>
   map x_target (filter (\<lambda>s. x_kind s = Command_snd) (concat (map (send_action tenant slug ttl) js))) =
   map (topic tenant slug) (somes (map (\<lambda>a. case a of Actuator x \<Rightarrow> Some x | _ \<Rightarrow> None) as))"
proof (induction as arbitrary: js)
  case (Cons a as)
  then obtain j js' where j: "actionToApi a = Some j" "all_some (map actionToApi as) = Some js'" "js = j # js'"
    by (auto split: option.splits)
  show ?case
  proof (cases "\<exists>x. a = Actuator x")
    case True
    then obtain x where x: "a = Actuator x" by blast
    obtain p where "send_action tenant slug ttl j = [\<lparr>x_kind = Command_snd, x_target = topic tenant slug x, x_payload = p\<rparr>]"
      using send_actuator [of tenant slug ttl x] j(1) x by auto
    then show ?thesis using Cons.IH [OF j(2)] x j(3) by simp
  next
    case False
    then have "filter (\<lambda>s. x_kind s = Command_snd) (send_action tenant slug ttl j) = []"
      using send_other [OF j(1)] by (auto simp: filter_empty_conv)
    then show ?thesis using Cons.IH [OF j(2)] False j(3) by (cases a) simp_all
  qed
qed simp

text \<open>
  The preview of a valid draft made in the editor shows one command per actuator action, in
  order, on the topic \<open>tenant/device/cmd/actuator\<close> the device listens on.
\<close>

theorem preview_commands:
  assumes "validateDraft d = None" "v_actions (d_preserved d) = []"
  shows "map x_target (filter (\<lambda>s. x_kind s = Command_snd) (wouldSend d tenant slug ttl)) =
         map (topic tenant slug) (actuators_of d)"
proof -
  obtain acts where acts: "all_some (map actionToApi (d_actions d)) = Some acts"
    using all_some_total [of "d_actions d" actionToApi] validated(2) [OF assms(1)] actionToApi_total by blast
  have "filter (\<lambda>s. x_kind s = Command_snd) (concat (map (send_clear tenant slug ttl) js)) = []" for js
    using send_clear_kind by (auto simp: filter_empty_conv)
  then show ?thesis
    using commands_of_actions [OF acts, of tenant slug ttl]
    by (simp add: wouldSend_def draftToRequest_def Let_def acts assms(2) actuators_of_def)
qed

lemma preview_commands_witness:
  "map x_target (filter (\<lambda>s. x_kind s = Command_snd) (wouldSend demo_draft ''acme'' (\<lambda>i. Some ''greenhouse'') (Fin 30))) =
   [''acme/greenhouse/cmd/fan1'']"
proof -
  have "v_actions (d_preserved demo_draft) = []" by (simp add: demo_draft_def emptyDraft_def newId_def)
  from preview_commands [OF demo_draft_valid this]
  have "map x_target (filter (\<lambda>s. x_kind s = Command_snd) (wouldSend demo_draft ''acme'' (\<lambda>i. Some ''greenhouse'') (Fin 30))) =
    map (topic ''acme'' (\<lambda>i. Some ''greenhouse'')) (actuators_of demo_draft)" .
  then show ?thesis
    by (simp add: demo_draft_def emptyDraft_def newId_def actuators_of_def topic_def emptyActuator_def trim_id is_space_def)
qed

end
