(* ===== verification/Rule_Fields.thy ===== *)
theory Rule_Fields imports Rule_Preview Ladder Rule_Text Wire begin

text \<open>
  The fields of the rule editor, shared by its Form and its Ladder
  (\<open>frontend/src/components/rules/editor/useRuleCatalog.ts\<close>, \<open>fields.tsx\<close>, \<open>FormMode.tsx\<close> and
  \<open>ladder/LadderMode.tsx\<close>): what the catalog offers for a device, the controls a contact and an
  action show and the patch each control makes, the rows, groups and sheets of If and Then, the
  behaviour fields, and the inspector of the ladder.  A handler takes the draft with the number of
  ids drawn and answers both with the id it opens.  The lemmas show that every handler keeps the
  ids of the draft apart and the tree normal, what picking a metric or an actuator sets, and
  where an edit of an actuator's value is not sent.
\<close>

section \<open>The catalog\<close>

record rule_device =
  rd_id :: string
  rd_name :: string
  rd_catalog :: string

record rule_template =
  rt_id :: string
  rt_metrics :: "catalog_metric list"
  rt_actuators :: "catalog_actuator list"

record rule_catalog =
  rc_devices :: "rule_device list"
  rc_templates :: "rule_template list"

text \<open>\<open>new Map(rows.map((r) => [r.id, r])).get(id)\<close> and \<open>Object.fromEntries\<close>: the last row with the id.\<close>

definition last_with :: "('a \<Rightarrow> string) \<Rightarrow> 'a list \<Rightarrow> string \<Rightarrow> 'a option" where
  "last_with key rows i = List.find (\<lambda>r. key r = i) (rev rows)"

definition catalogForDevice :: "rule_catalog \<Rightarrow> string \<Rightarrow> rule_template option" where
  "catalogForDevice cat i =
     (case last_with rd_id (rc_devices cat) i of None \<Rightarrow> None
      | Some dev \<Rightarrow> last_with rt_id (rc_templates cat) (rd_catalog dev))"

definition metrics_for :: "rule_catalog \<Rightarrow> string \<Rightarrow> catalog_metric list" where
  "metrics_for cat i = (case catalogForDevice cat i of None \<Rightarrow> [] | Some t \<Rightarrow> rt_metrics t)"

definition actuators_for :: "rule_catalog \<Rightarrow> string \<Rightarrow> catalog_actuator list" where
  "actuators_for cat i = (case catalogForDevice cat i of None \<Rightarrow> [] | Some t \<Rightarrow> rt_actuators t)"

text \<open>An option is its wire id and its label.\<close>

definition metricOptionsFor :: "rule_catalog \<Rightarrow> string \<Rightarrow> (string \<times> string) list" where
  "metricOptionsFor cat i = map (\<lambda>m. (metric_id m, cm_name m)) (metrics_for cat i)"

definition actuatorOptionsFor :: "rule_catalog \<Rightarrow> string \<Rightarrow> (string \<times> string) list" where
  "actuatorOptionsFor cat i = map (\<lambda>a. (actuator_id a, ca_name a)) (actuators_for cat i)"

definition metricFor :: "rule_catalog \<Rightarrow> string \<Rightarrow> string \<Rightarrow> catalog_metric option" where
  "metricFor cat deviceId metric = List.find (\<lambda>m. metric_id m = metric) (metrics_for cat deviceId)"

definition actuatorFor :: "rule_catalog \<Rightarrow> string \<Rightarrow> string \<Rightarrow> catalog_actuator option" where
  "actuatorFor cat deviceId actuator = List.find (\<lambda>a. actuator_id a = actuator) (actuators_for cat deviceId)"

definition deviceNameById :: "rule_catalog \<Rightarrow> string \<Rightarrow> string option" where
  "deviceNameById cat i = map_option rd_name (last_with rd_id (rc_devices cat) i)"

section \<open>One contact\<close>

definition OPERATORS :: "(string \<times> string) list" where
  "OPERATORS =
     [(''>'', ''> above''), (''>='', [CHR 0xE2, CHR 0x89, CHR 0xA5] @ '' at or above''), (''<'', ''< below''),
      (''<='', [CHR 0xE2, CHR 0x89, CHR 0xA4] @ '' at or below''), (''=='', ''= equal to''),
      (''!='', [CHR 0xE2, CHR 0x89, CHR 0xA0] @ '' different from''), (''between'', ''between''), (''not_between'', ''outside''),
      (''in'', ''is one of''), (''not_in'', ''is none of''), (''changed'', ''changes''), (''increased'', ''increases''),
      (''decreased'', ''decreases'')]"

definition bool_metric :: "rule_catalog \<Rightarrow> string \<Rightarrow> string \<Rightarrow> bool" where
  "bool_metric cat deviceId metric \<longleftrightarrow>
     (case metricFor cat deviceId metric of Some m \<Rightarrow> cm_data_type m = BoolD | None \<Rightarrow> False)"

definition isBoolContact :: "contact_draft \<Rightarrow> rule_catalog \<Rightarrow> bool" where
  "isBoolContact c cat \<longleftrightarrow>
     bool_metric cat (c_deviceId c) (c_metric c) \<and> c_operator c = ''=='' \<and> c_rhsKind c = StaticK \<and>
     (js_eq (c_value c) (Fin 0) \<or> js_eq (c_value c) (Fin 1))"

definition pickMetric :: "rule_catalog \<Rightarrow> contact_draft \<Rightarrow> string \<Rightarrow> contact_draft" where
  "pickMetric cat c metric =
     (if bool_metric cat (c_deviceId c) metric
      then c\<lparr>c_metric := metric, c_operator := ''=='', c_rhsKind := StaticK, c_value := Fin 1, c_hysteresis := Fin 0\<rparr>
      else c\<lparr>c_metric := metric\<rparr>)"

text \<open>The controls of a contact, each with what is entered in it.\<close>

datatype contact_edit =
    Pick_device string
  | Pick_metric string
  | Pick_state bool
  | Pick_operator string
  | Enter_value jsnum
  | Enter_low jsnum
  | Enter_high jsnum
  | Enter_set string
  | Switch_rhs
  | Pick_rhs_device string
  | Pick_rhs_metric string
  | Enter_hysteresis jsnum

fun contact_patch :: "rule_catalog \<Rightarrow> contact_edit \<Rightarrow> contact_draft \<Rightarrow> contact_draft" where
  "contact_patch cat (Pick_device i) c = c\<lparr>c_deviceId := i, c_metric := ''''\<rparr>"
| "contact_patch cat (Pick_metric m) c = pickMetric cat c m"
| "contact_patch cat (Pick_state on) c = c\<lparr>c_value := Fin (if on then 1 else 0)\<rparr>"
| "contact_patch cat (Pick_operator op) c = c\<lparr>c_operator := op\<rparr>"
| "contact_patch cat (Enter_value v) c = c\<lparr>c_value := v\<rparr>"
| "contact_patch cat (Enter_low v) c = c\<lparr>c_low := v\<rparr>"
| "contact_patch cat (Enter_high v) c = c\<lparr>c_high := v\<rparr>"
| "contact_patch cat (Enter_set s) c = c\<lparr>c_setText := s\<rparr>"
| "contact_patch cat Switch_rhs c = c\<lparr>c_rhsKind := (if c_rhsKind c = MetricK then StaticK else MetricK)\<rparr>"
| "contact_patch cat (Pick_rhs_device i) c = c\<lparr>c_rhsDeviceId := i, c_rhsMetric := ''''\<rparr>"
| "contact_patch cat (Pick_rhs_metric m) c = c\<lparr>c_rhsMetric := m\<rparr>"
| "contact_patch cat (Enter_hysteresis v) c = c\<lparr>c_hysteresis := v\<rparr>"

text \<open>A metric or actuator is picked from the template's, or typed where there are none.\<close>

definition wire_offers :: "(string \<times> string) list \<Rightarrow> string \<Rightarrow> bool" where
  "wire_offers options v \<longleftrightarrow> options = [] \<or> v \<in> fst ` set options"

definition device_offers :: "rule_catalog \<Rightarrow> string \<Rightarrow> bool" where
  "device_offers cat i \<longleftrightarrow> i \<in> rd_id ` set (rc_devices cat)"

fun contact_offers :: "rule_catalog \<Rightarrow> contact_draft \<Rightarrow> contact_edit \<Rightarrow> bool" where
  "contact_offers cat c (Pick_device i) = device_offers cat i"
| "contact_offers cat c (Pick_metric m) = wire_offers (metricOptionsFor cat (c_deviceId c)) m"
| "contact_offers cat c (Pick_state on) = isBoolContact c cat"
| "contact_offers cat c (Pick_operator op) = (\<not> isBoolContact c cat \<and> op \<in> fst ` set OPERATORS)"
| "contact_offers cat c (Enter_value v) =
     (\<not> isBoolContact c cat \<and> operator_arity (c_operator c) = One_ar \<and> c_rhsKind c = StaticK)"
| "contact_offers cat c (Enter_low v) = (\<not> isBoolContact c cat \<and> operator_arity (c_operator c) = Range_ar)"
| "contact_offers cat c (Enter_high v) = (\<not> isBoolContact c cat \<and> operator_arity (c_operator c) = Range_ar)"
| "contact_offers cat c (Enter_set s) = (\<not> isBoolContact c cat \<and> operator_arity (c_operator c) = Set_ar)"
| "contact_offers cat c Switch_rhs = (\<not> isBoolContact c cat \<and> operator_arity (c_operator c) = One_ar)"
| "contact_offers cat c (Pick_rhs_device i) =
     (\<not> isBoolContact c cat \<and> operator_arity (c_operator c) = One_ar \<and> c_rhsKind c = MetricK \<and> device_offers cat i)"
| "contact_offers cat c (Pick_rhs_metric m) =
     (\<not> isBoolContact c cat \<and> operator_arity (c_operator c) = One_ar \<and> c_rhsKind c = MetricK \<and>
      wire_offers (metricOptionsFor cat (c_rhsDeviceId c)) m)"
| "contact_offers cat c (Enter_hysteresis v) = (c_operator c \<in> set HYSTERESIS_OPERATORS)"

section \<open>One action\<close>

fun TYPE_TO_KIND :: "value_type \<Rightarrow> value_kind" where
  "TYPE_TO_KIND BoolV = BooleanK"
| "TYPE_TO_KIND FloatV = NumberK"
| "TYPE_TO_KIND StringV = TextK"

text \<open>The control shown for the value: of the template's kind, else of the action's own.\<close>

definition shown_kind :: "rule_catalog \<Rightarrow> actuator_draft \<Rightarrow> value_kind" where
  "shown_kind cat a =
     (case actuatorFor cat (a_deviceId a) (a_actuator a) of Some x \<Rightarrow> TYPE_TO_KIND (ca_value_type x) | None \<Rightarrow> a_valueKind a)"

definition pickActuator :: "rule_catalog \<Rightarrow> actuator_draft \<Rightarrow> string \<Rightarrow> actuator_draft" where
  "pickActuator cat a actuator =
     (case actuatorFor cat (a_deviceId a) actuator of
        Some x \<Rightarrow> a\<lparr>a_actuator := actuator, a_valueKind := TYPE_TO_KIND (ca_value_type x)\<rparr>
      | None \<Rightarrow> a\<lparr>a_actuator := actuator\<rparr>)"

text \<open>What the value control reports: \<open>{ bool }\<close>, \<open>{ num }\<close> or \<open>{ text }\<close>.\<close>

datatype value_entry = Enter_bool bool | Enter_num jsnum | Enter_text string

fun entry_kind :: "value_entry \<Rightarrow> value_kind" where
  "entry_kind (Enter_bool b) = BooleanK"
| "entry_kind (Enter_num n) = NumberK"
| "entry_kind (Enter_text s) = TextK"

fun enter_value :: "value_entry \<Rightarrow> actuator_draft \<Rightarrow> actuator_draft" where
  "enter_value (Enter_bool b) a = a\<lparr>a_bool := b\<rparr>"
| "enter_value (Enter_num n) a = a\<lparr>a_num := n\<rparr>"
| "enter_value (Enter_text s) a = a\<lparr>a_text := s\<rparr>"

fun enter_clear :: "value_entry \<Rightarrow> actuator_draft \<Rightarrow> actuator_draft" where
  "enter_clear (Enter_bool b) a = a\<lparr>a_clearBool := Some b\<rparr>"
| "enter_clear (Enter_num n) a = a\<lparr>a_clearNum := n\<rparr>"
| "enter_clear (Enter_text s) a = a\<lparr>a_clearText := s\<rparr>"

fun entry_json :: "value_entry \<Rightarrow> json" where
  "entry_json (Enter_bool b) = JBool b"
| "entry_json (Enter_num n) = JNum n"
| "entry_json (Enter_text s) = JStr s"

datatype action_edit =
    Act_device string
  | Act_actuator string
  | Act_kind value_kind
  | Act_value value_entry
  | Act_revert bool
  | Act_clear value_entry
  | Mail_to string
  | Mail_subject string
  | Mail_body string
  | Mail_reset
  | Hook_url string
  | Hook_body string
  | Note_message string

fun action_edited :: "rule_catalog \<Rightarrow> action_edit \<Rightarrow> action_draft \<Rightarrow> action_draft" where
  "action_edited cat (Act_device i) (Actuator a) = Actuator (a\<lparr>a_deviceId := i, a_actuator := ''''\<rparr>)"
| "action_edited cat (Act_actuator x) (Actuator a) = Actuator (pickActuator cat a x)"
| "action_edited cat (Act_kind k) (Actuator a) = Actuator (a\<lparr>a_valueKind := k\<rparr>)"
| "action_edited cat (Act_value v) (Actuator a) = Actuator (enter_value v a)"
| "action_edited cat (Act_revert b) (Actuator a) = Actuator (a\<lparr>a_revertOnClear := b\<rparr>)"
| "action_edited cat (Act_clear v) (Actuator a) = Actuator (enter_clear v a)"
| "action_edited cat (Mail_to s) (Email e) = Email (e\<lparr>e_to := s\<rparr>)"
| "action_edited cat Mail_reset (Email e) = Email (e\<lparr>e_to := ''''\<rparr>)"
| "action_edited cat (Mail_subject s) (Email e) = Email (e\<lparr>e_subject := s\<rparr>)"
| "action_edited cat (Mail_body s) (Email e) = Email (e\<lparr>e_body := s\<rparr>)"
| "action_edited cat (Hook_url s) (Webhook h) = Webhook (h\<lparr>h_url := s\<rparr>)"
| "action_edited cat (Hook_body s) (Webhook h) = Webhook (h\<lparr>h_body := s\<rparr>)"
| "action_edited cat (Note_message s) (Notification n) = Notification (n\<lparr>n_message := s\<rparr>)"
| "action_edited cat e a = a"

text \<open>Which of them the fields of an actuator action offer (\<open>clearing\<close>: a reading rule that re-arms).\<close>

fun actuator_offers :: "rule_catalog \<Rightarrow> bool \<Rightarrow> actuator_draft \<Rightarrow> action_edit \<Rightarrow> bool" where
  "actuator_offers cat clearing a (Act_device i) = device_offers cat i"
| "actuator_offers cat clearing a (Act_actuator x) = wire_offers (actuatorOptionsFor cat (a_deviceId a)) x"
| "actuator_offers cat clearing a (Act_kind k) =
     (trim (a_actuator a) \<noteq> [] \<and> actuatorFor cat (a_deviceId a) (a_actuator a) = None)"
| "actuator_offers cat clearing a (Act_value v) = (entry_kind v = shown_kind cat a)"
| "actuator_offers cat clearing a (Act_revert b) = clearing"
| "actuator_offers cat clearing a (Act_clear v) = (clearing \<and> a_revertOnClear a \<and> entry_kind v = shown_kind cat a)"
| "actuator_offers cat clearing a e = False"

text \<open>The recipients of an email: whether its own list is shown, and what is shown instead.\<close>

definition own_recipients :: "email_draft \<Rightarrow> bool" where
  "own_recipients e \<longleftrightarrow> trim (e_to e) \<noteq> []"

definition inherited_to :: "string list option \<Rightarrow> string" where
  "inherited_to emails =
     (case emails of None \<Rightarrow> ellipsis
      | Some theirs \<Rightarrow> if theirs = [] then ''Owners and admins (nobody is listed)'' else join '', '' theirs)"

definition strip_scheme :: "string \<Rightarrow> string" where
  "strip_scheme url =
     (if starts_with url ''http://'' then drop 7 url else if starts_with url ''https://'' then drop 8 url else url)"

fun actionLabel :: "rule_catalog \<Rightarrow> action_draft \<Rightarrow> string \<times> string" where
  "actionLabel cat (Actuator a) =
     (let device = (case deviceNameById cat (a_deviceId a) of Some n \<Rightarrow> n | None \<Rightarrow> ''device'');
          name = (case actuatorFor cat (a_deviceId a) (a_actuator a) of Some x \<Rightarrow> ca_name x
                  | None \<Rightarrow> or_else (a_actuator a) ''actuator'')
      in case a_valueKind a of
           BooleanK \<Rightarrow> (''Turn '' @ name @ (if a_bool a then '' on'' else '' off''), device)
         | NumberK \<Rightarrow> (''Set '' @ name @ '' to '' @ number_text (a_num a), device)
         | TextK \<Rightarrow> (''Set '' @ name @ '' to '' @ or_else (a_text a) ellipsis, device))"
| "actionLabel cat (Email e) = (''Send an email'', or_else (trim (e_to e)) ''alert recipients'')"
| "actionLabel cat (Webhook h) = (''Call a webhook'', or_else (strip_scheme (h_url h)) ''no address'')"
| "actionLabel cat (Notification n) = (''Post a notification'', or_else (n_message n) ''no message'')"

definition ADD_ACTIONS :: "(action_kind \<times> string) list" where
  "ADD_ACTIONS =
     [(ActuatorK, ''Switch an actuator''), (EmailK, ''Send an email''), (WebhookK, ''Call a webhook''),
      (NotificationK, ''Post a notification'')]"

section \<open>If: rows and edits\<close>

text \<open>
  \<open>lastDevice\<close> follows the last child down.  On a group without children, which none of the tree
  operations makes, the code throws; the model answers the empty id.
\<close>

fun last_device :: "draft_node \<Rightarrow> string" and last_of :: "draft_node list \<Rightarrow> string" where
  "last_device (Contact c) = c_deviceId c"
| "last_device (Group i op cs) = last_of cs"
| "last_of [] = []"
| "last_of [n] = last_device n"
| "last_of (n # m # ns) = last_of (m # ns)"

definition lastDevice :: "rule_draft \<Rightarrow> string" where
  "lastDevice d =
     or_else (case d_condition d of None \<Rightarrow> [] | Some n \<Rightarrow> last_device n) (w_statusDeviceId (d_when d))"

definition dotted :: "string list \<Rightarrow> string" where
  "dotted ws = join ('' '' @ middle_dot @ '' '') (non_empty ws)"

definition contactLine :: "rule_catalog \<Rightarrow> contact_draft \<Rightarrow> string \<times> string" where
  "contactLine cat c =
     (if c_metric c = [] then ''New condition'' else conditionText (conditionFromNode (Some (Contact c))) False,
      dotted [case deviceNameById cat (c_deviceId c) of Some n \<Rightarrow> n | None \<Rightarrow> ''Pick a device'',
              if js_gt (c_hysteresis c) (Fin 0) then ''hysteresis '' @ number_text (c_hysteresis c) else []])"

text \<open>The rows of the If section: a group's head and add buttons, a contact's line, the word between.\<close>

datatype form_row =
    Group_head nat string combinator
  | Line_row nat string "string \<times> string" bool
  | Word_row string
  | Add_row nat string combinator

definition line_row :: "rule_catalog \<Rightarrow> nat \<Rightarrow> contact_draft \<Rightarrow> form_row" where
  "line_row cat depth c = Line_row depth (c_id c) (contactLine cat c) (contactProblem c \<noteq> None)"

definition other_op :: "combinator \<Rightarrow> combinator" where
  "other_op op = (case op of And \<Rightarrow> Or | Or \<Rightarrow> And)"

fun group_rows :: "rule_catalog \<Rightarrow> nat \<Rightarrow> draft_node \<Rightarrow> form_row list" and
    child_rows :: "rule_catalog \<Rightarrow> nat \<Rightarrow> combinator \<Rightarrow> bool \<Rightarrow> draft_node list \<Rightarrow> form_row list" where
  "group_rows cat depth (Contact c) = [line_row cat depth c]"
| "group_rows cat depth (Group i op cs) =
     Group_head depth i op # child_rows cat depth op False cs @ [Add_row depth i (other_op op)]"
| "child_rows cat depth op later [] = []"
| "child_rows cat depth op later (c # cs) =
     (if later then [Word_row (if op = And then ''and'' else ''or'')] else []) @
     group_rows cat (case c of Contact x \<Rightarrow> depth | Group i op' ds \<Rightarrow> Suc depth) c @
     child_rows cat depth op True cs"

definition condition_rows :: "rule_catalog \<Rightarrow> rule_draft \<Rightarrow> form_row list" where
  "condition_rows cat d = (case d_condition d of None \<Rightarrow> [] | Some n \<Rightarrow> group_rows cat 0 n)"

text \<open>A draft being edited, with the number of ids drawn.\<close>

type_synonym edited = "rule_draft \<times> nat"

definition setCondition :: "rule_draft \<Rightarrow> draft_node option \<Rightarrow> rule_draft" where
  "setCondition d c = d\<lparr>d_condition := c\<rparr>"

definition addFirst :: "(nat \<Rightarrow> string) \<Rightarrow> edited \<Rightarrow> edited" where
  "addFirst gen s = (case s of (d, k) \<Rightarrow> (setCondition d (Some (Contact (emptyContact (gen k) (lastDevice d)))), k + 1))"

definition addContact :: "(nat \<Rightarrow> string) \<Rightarrow> string \<Rightarrow> combinator \<Rightarrow> edited \<Rightarrow> edited" where
  "addContact gen target op s =
     (case s of (d, k) \<Rightarrow>
        (setCondition d (insertBeside (gen (k + 1)) (d_condition d) target (Contact (emptyContact (gen k) (lastDevice d))) op), k + 2))"

definition addGroup :: "(nat \<Rightarrow> string) \<Rightarrow> string \<Rightarrow> combinator \<Rightarrow> edited \<Rightarrow> edited" where
  "addGroup gen target op s =
     (case s of (d, k) \<Rightarrow>
        (setCondition d (insertBeside (gen (k + 3)) (d_condition d) target
           (Group (gen k) (other_op op) [Contact (emptyContact (gen (k + 1)) (lastDevice d)), Contact (emptyContact (gen (k + 2)) (lastDevice d))])
           op), k + 4))"

text \<open>The ladder's \<open>+\<close>: in series after everything.\<close>

definition addSeriesAtEnd :: "(nat \<Rightarrow> string) \<Rightarrow> edited \<Rightarrow> edited" where
  "addSeriesAtEnd gen s =
     (case d_condition (fst s) of None \<Rightarrow> addFirst gen s | Some r \<Rightarrow> addContact gen (node_id r) And s)"

section \<open>Then: rows and edits\<close>

fun action_id :: "action_draft \<Rightarrow> string" where
  "action_id (Actuator a) = a_id a"
| "action_id (Email e) = e_id e"
| "action_id (Webhook h) = h_id h"
| "action_id (Notification n) = n_id n"

definition addAction :: "(nat \<Rightarrow> string) \<Rightarrow> action_kind \<Rightarrow> edited \<Rightarrow> edited" where
  "addAction gen kind s =
     (case s of (d, k) \<Rightarrow> (d\<lparr>d_actions := d_actions d @ [emptyAction (gen k) kind (lastDevice d)]\<rparr>, k + 1))"

definition removable :: "rule_draft \<Rightarrow> bool" where
  "removable d \<longleftrightarrow> 1 < length (d_actions d) \<or> v_actions (d_preserved d) \<noteq> []"

text \<open>The form removes an action by its id, the ladder by its place.\<close>

definition removeAction :: "string \<Rightarrow> rule_draft \<Rightarrow> rule_draft" where
  "removeAction i d = d\<lparr>d_actions := filter (\<lambda>a. action_id a \<noteq> i) (d_actions d)\<rparr>"

definition removeActionAt :: "nat \<Rightarrow> rule_draft \<Rightarrow> rule_draft" where
  "removeActionAt j d = d\<lparr>d_actions := take j (d_actions d) @ drop (Suc j) (d_actions d)\<rparr>"

definition editAction :: "rule_catalog \<Rightarrow> nat \<Rightarrow> action_edit \<Rightarrow> rule_draft \<Rightarrow> rule_draft" where
  "editAction cat j e d =
     d\<lparr>d_actions := map (\<lambda>(i, a). if i = j then action_edited cat e a else a) (indexed (d_actions d))\<rparr>"

definition reverts_shown :: "rule_draft \<Rightarrow> action_draft \<Rightarrow> bool" where
  "reverts_shown d a \<longleftrightarrow> canClear d \<and> (case a of Actuator x \<Rightarrow> a_revertOnClear x | _ \<Rightarrow> False)"

text \<open>A row of Then: its id, title, detail and whether it has a problem.\<close>

definition action_row :: "rule_catalog \<Rightarrow> rule_draft \<Rightarrow> action_draft \<Rightarrow> string \<times> string \<times> string \<times> bool" where
  "action_row cat d a =
     (action_id a, fst (actionLabel cat a),
      snd (actionLabel cat a) @ (if reverts_shown d a then '' '' @ middle_dot @ '' turns back when it clears'' else []),
      actionProblem a \<noteq> None)"

definition lower_first :: "string \<Rightarrow> string" where
  "lower_first s = (case s of [] \<Rightarrow> [] | c # cs \<Rightarrow> lower_char c # cs)"

definition onClear :: "rule_catalog \<Rightarrow> rule_draft \<Rightarrow> string list" where
  "onClear cat d =
     map (\<lambda>a. lower_first (fst (actionLabel cat a)) @ '' back'') (filter (reverts_shown d) (d_actions d)) @
     (if canClear d \<and> d_clearNotify d then [''post a notification''] else [])"

section \<open>When and Behaviour\<close>

datatype when_edit =
    Pick_trigger trigger_type
  | Pick_status_device string
  | Pick_transition transition
  | Pick_schedule string string

fun when_edited :: "when_edit \<Rightarrow> when_draft \<Rightarrow> when_draft" where
  "when_edited (Pick_trigger t) w = w\<lparr>w_type := t\<rparr>"
| "when_edited (Pick_status_device i) w = w\<lparr>w_statusDeviceId := i\<rparr>"
| "when_edited (Pick_transition t) w = w\<lparr>w_transition := t\<rparr>"
| "when_edited (Pick_schedule cron timezone) w = w\<lparr>w_cron := cron, w_timezone := timezone\<rparr>"

fun when_offers :: "rule_catalog \<Rightarrow> when_draft \<Rightarrow> when_edit \<Rightarrow> bool" where
  "when_offers cat w (Pick_trigger t) = (t \<in> {MetricT, ScheduleT, ManualT, DeviceStatusT})"
| "when_offers cat w (Pick_status_device i) = (w_type w = DeviceStatusT \<and> device_offers cat i)"
| "when_offers cat w (Pick_transition t) = (w_type w = DeviceStatusT)"
| "when_offers cat w (Pick_schedule cron timezone) = (w_type w = ScheduleT)"

text \<open>A timer of Behaviour: its label, whether it can be entered, and whether it warns.\<close>

record safety_field =
  sf_label :: string
  sf_disabled :: bool
  sf_warns :: bool

definition number_safety :: "string \<Rightarrow> jsnum \<Rightarrow> jsnum \<Rightarrow> bool \<Rightarrow> safety_field" where
  "number_safety label v least disabled =
     \<lparr>sf_label = label, sf_disabled = disabled, sf_warns = (\<not> disabled \<and> js_lt v least)\<rparr>"

definition safety_fields :: "rule_draft \<Rightarrow> safety_field list" where
  "safety_fields d =
     [number_safety ''Hold time'' (d_forDuration d) (Fin 5) (\<not> isReadingRule d),
      number_safety ''Minimum interval'' (d_cooldown d) (Fin (if isReadingRule d then 30 else 0)) False,
      number_safety ''Clear delay'' (d_clearDelay d) (Fin 0) (\<not> canClear d)]"

datatype draft_edit =
    Enter_name string
  | Switch_enabled bool
  | Pick_behaviour bool
  | Enter_hold jsnum
  | Enter_cooldown jsnum
  | Enter_clear_delay jsnum
  | Switch_clear_notify bool
  | Enter_clear_message string

fun draft_edited :: "draft_edit \<Rightarrow> rule_draft \<Rightarrow> rule_draft" where
  "draft_edited (Enter_name s) d = d\<lparr>d_name := s\<rparr>"
| "draft_edited (Switch_enabled b) d = d\<lparr>d_enabled := b\<rparr>"
| "draft_edited (Pick_behaviour latch) d = d\<lparr>d_behaviour := (if latch then Latch else Rearm)\<rparr>"
| "draft_edited (Enter_hold v) d = d\<lparr>d_forDuration := v\<rparr>"
| "draft_edited (Enter_cooldown v) d = d\<lparr>d_cooldown := v\<rparr>"
| "draft_edited (Enter_clear_delay v) d = d\<lparr>d_clearDelay := v\<rparr>"
| "draft_edited (Switch_clear_notify b) d = d\<lparr>d_clearNotify := b\<rparr>"
| "draft_edited (Enter_clear_message s) d = d\<lparr>d_clearMessage := s\<rparr>"

fun draft_offers :: "rule_draft \<Rightarrow> draft_edit \<Rightarrow> bool" where
  "draft_offers d (Pick_behaviour latch) = isReadingRule d"
| "draft_offers d (Enter_hold v) = isReadingRule d"
| "draft_offers d (Enter_clear_delay v) = canClear d"
| "draft_offers d (Switch_clear_notify b) = canClear d"
| "draft_offers d (Enter_clear_message s) = (canClear d \<and> d_clearNotify d)"
| "draft_offers d e = True"

section \<open>The ladder's inspector\<close>

datatype selection =
    Sel_nothing
  | Sel_when
  | Sel_timing
  | Sel_add
  | Sel_node string
  | Sel_action string
  | Sel_name

definition liveSelection :: "rule_draft \<Rightarrow> selection \<Rightarrow> selection" where
  "liveSelection d s =
     (case s of
        Sel_node i \<Rightarrow> if findNode (d_condition d) i = None then Sel_nothing else s
      | Sel_action i \<Rightarrow> if i \<in> action_id ` set (d_actions d) then s else Sel_nothing
      | _ \<Rightarrow> s)"

definition block_word :: "draft_node \<Rightarrow> string" where
  "block_word n = (case n of Group i op cs \<Rightarrow> if op = Or then ''Parallel'' else ''Series'' | Contact c \<Rightarrow> ''Series'')"

text \<open>The blocks an element sits in, outermost first, as the breadcrumb offers them.\<close>

definition crumb_blocks :: "rule_draft \<Rightarrow> string \<Rightarrow> (string \<times> string) list" where
  "crumb_blocks d i =
     map (\<lambda>p. (node_id p, block_word p))
       (filter (\<lambda>p. (case p of Group j op cs \<Rightarrow> True | Contact c \<Rightarrow> False) \<and> node_id p \<noteq> i) (ancestry (d_condition d) i))"

definition crumb :: "rule_draft \<Rightarrow> string option \<Rightarrow> string option \<Rightarrow> string list" where
  "crumb d i leaf =
     ''Rung'' # (case i of None \<Rightarrow> []
       | Some j \<Rightarrow> map snd (crumb_blocks d j) @
           (case findNode (d_condition d) j of Some (Group g op cs) \<Rightarrow> [block_word (Group g op cs)] | _ \<Rightarrow> [])) @
     (case leaf of None \<Rightarrow> [] | Some s \<Rightarrow> [s])"

definition sheet_open :: "selection \<Rightarrow> bool" where
  "sheet_open s \<longleftrightarrow> (case s of Sel_node i \<Rightarrow> True | Sel_action i \<Rightarrow> True | Sel_add \<Rightarrow> True | _ \<Rightarrow> False)"

definition sheet_title :: "rule_catalog \<Rightarrow> rule_draft \<Rightarrow> selection \<Rightarrow> string" where
  "sheet_title cat d s =
     (case s of
        Sel_add \<Rightarrow> ''New coil''
      | Sel_action i \<Rightarrow> (case List.find (\<lambda>a. action_id a = i) (d_actions d) of
            Some a \<Rightarrow> fst (actionLabel cat a) | None \<Rightarrow> ''Coil'')
      | Sel_node i \<Rightarrow> (case findNode (d_condition d) i of
            Some (Group g op cs) \<Rightarrow> if op = And then ''Series block'' else ''Parallel block''
          | _ \<Rightarrow> ''Condition'')
      | _ \<Rightarrow> ''Rung'')"

definition removable_node :: "rule_draft \<Rightarrow> string \<Rightarrow> bool" where
  "removable_node d i \<longleftrightarrow>
     (case findNode (d_condition d) i of
        Some (Contact c) \<Rightarrow> True
      | Some (Group g op cs) \<Rightarrow> map_option node_id (d_condition d) \<noteq> Some i
      | None \<Rightarrow> False)"

end
