(* ===== verification/Rule_Edits.thy ===== *)
theory Rule_Edits imports Rule_Fields begin

text \<open>
  The edits of the rule editor as one alphabet: every control of When, If, Then and Behaviour and
  of the ladder's inspector, with the condition under which it is on the screen
  (\<open>FormMode.tsx\<close>, \<open>LadderMode.tsx\<close>).  The lemmas show that a session of edits in any mixture of
  the two views keeps the draft sound and what was set through the API, that both views show the
  same contacts in the same order, and when an edited value is the one sent.
\<close>

section \<open>The alphabet\<close>

datatype rule_edit =
    Add_first
  | Add_series
  | Add_contact string combinator
  | Add_group string combinator
  | Remove_node string
  | Edit_contact string contact_edit
  | Change_op string combinator
  | Add_action action_kind
  | Remove_action string
  | Remove_coil nat
  | Edit_action nat action_edit
  | Edit_when when_edit
  | Edit_draft draft_edit

fun apply_edit :: "(nat \<Rightarrow> string) \<Rightarrow> rule_catalog \<Rightarrow> rule_edit \<Rightarrow> edited \<Rightarrow> edited" where
  "apply_edit gen cat Add_first s = addFirst gen s"
| "apply_edit gen cat Add_series s = addSeriesAtEnd gen s"
| "apply_edit gen cat (Add_contact i op) s = addContact gen i op s"
| "apply_edit gen cat (Add_group i op) s = addGroup gen i op s"
| "apply_edit gen cat (Remove_node i) (d, k) = (setCondition d (removeNode (d_condition d) i), k)"
| "apply_edit gen cat (Edit_contact i e) (d, k) = (setCondition d (updateContact (d_condition d) i (contact_patch cat e)), k)"
| "apply_edit gen cat (Change_op i op) (d, k) = (setCondition d (setGroupOp (d_condition d) i op), k)"
| "apply_edit gen cat (Add_action kind) s = addAction gen kind s"
| "apply_edit gen cat (Remove_action i) (d, k) = (removeAction i d, k)"
| "apply_edit gen cat (Remove_coil j) (d, k) = (removeActionAt j d, k)"
| "apply_edit gen cat (Edit_action j e) (d, k) = (editAction cat j e d, k)"
| "apply_edit gen cat (Edit_when e) (d, k) = (d\<lparr>d_when := when_edited e (d_when d)\<rparr>, k)"
| "apply_edit gen cat (Edit_draft e) (d, k) = (draft_edited e d, k)"

fun action_offers :: "rule_catalog \<Rightarrow> bool \<Rightarrow> action_draft \<Rightarrow> action_edit \<Rightarrow> bool" where
  "action_offers cat clearing (Actuator a) e = actuator_offers cat clearing a e"
| "action_offers cat clearing (Email m) e = (case e of Mail_to s \<Rightarrow> True | Mail_subject s \<Rightarrow> True | Mail_body s \<Rightarrow> True | Mail_reset \<Rightarrow> True | _ \<Rightarrow> False)"
| "action_offers cat clearing (Webhook h) e = (case e of Hook_url s \<Rightarrow> True | Hook_body s \<Rightarrow> True | _ \<Rightarrow> False)"
| "action_offers cat clearing (Notification n) e = (case e of Note_message s \<Rightarrow> True | _ \<Rightarrow> False)"

fun edit_offers :: "rule_catalog \<Rightarrow> rule_draft \<Rightarrow> rule_edit \<Rightarrow> bool" where
  "edit_offers cat d Add_first = (d_condition d = None)"
| "edit_offers cat d Add_series = True"
| "edit_offers cat d (Add_contact i op) = (i \<in> set (ids_opt (d_condition d)))"
| "edit_offers cat d (Add_group i op) = (i \<in> set (ids_opt (d_condition d)))"
| "edit_offers cat d (Remove_node i) = removable_node d i"
| "edit_offers cat d (Edit_contact i e) =
     (case findNode (d_condition d) i of Some (Contact c) \<Rightarrow> contact_offers cat c e | _ \<Rightarrow> False)"
| "edit_offers cat d (Change_op i op) = (case findNode (d_condition d) i of Some (Group g gop cs) \<Rightarrow> True | _ \<Rightarrow> False)"
| "edit_offers cat d (Add_action kind) = True"
| "edit_offers cat d (Remove_action i) = (removable d \<and> i \<in> action_id ` set (d_actions d))"
| "edit_offers cat d (Remove_coil j) = (removable d \<and> j < length (d_actions d))"
| "edit_offers cat d (Edit_action j e) = (j < length (d_actions d) \<and> action_offers cat (canClear d) (d_actions d ! j) e)"
| "edit_offers cat d (Edit_when e) = when_offers cat (d_when d) e"
| "edit_offers cat d (Edit_draft e) = draft_offers d e"

inductive draft_step :: "(nat \<Rightarrow> string) \<Rightarrow> rule_catalog \<Rightarrow> edited \<Rightarrow> edited \<Rightarrow> bool" for gen cat where
  "edit_offers cat (fst s) e \<Longrightarrow> draft_step gen cat s (apply_edit gen cat e s)"

inductive_simps draft_step_simps: "draft_step gen cat s s'"

section \<open>Sound drafts\<close>

definition draft_ids :: "rule_draft \<Rightarrow> string list" where
  "draft_ids d = ids_opt (d_condition d) @ map action_id (d_actions d)"

definition sound_draft :: "(nat \<Rightarrow> string) \<Rightarrow> edited \<Rightarrow> bool" where
  "sound_draft gen s \<longleftrightarrow>
     distinct (draft_ids (fst s)) \<and> set (draft_ids (fst s)) \<subseteq> gen ` {..<snd s} \<and>
     (case d_condition (fst s) of None \<Rightarrow> True | Some n \<Rightarrow> normal n)"

lemma sound_draft_tree: "sound_draft gen (d, k) \<Longrightarrow> sound_tree gen (d_condition d, k)"
  by (auto simp: sound_draft_def sound_tree_def draft_ids_def)

text \<open>The ids an edit of the tree leaves are old ones or freshly drawn.\<close>

definition grows :: "(nat \<Rightarrow> string) \<Rightarrow> draft_node option \<times> nat \<Rightarrow> draft_node option \<times> nat \<Rightarrow> bool" where
  "grows gen s s' \<longleftrightarrow> snd s \<le> snd s' \<and> set (ids_opt (fst s')) \<subseteq> set (ids_opt (fst s)) \<union> gen ` {snd s..<snd s'}"

lemma grows_insert:
  assumes "distinct (ids_opt t)" "set (fresh # node_ids added) \<subseteq> gen ` {k..<k'}" "k \<le> k'"
  shows "grows gen (t, k) (insertBeside fresh t target added op, k')"
proof (cases t)
  case None
  then show ?thesis using assms by (auto simp: grows_def insertBeside_def ids_opt_def)
next
  case (Some r)
  show ?thesis
  proof (cases "target \<in> set (node_ids r)")
    case True
    have d: "distinct (node_ids r)" using assms(1) Some by (simp add: ids_opt_def)
    have "set (node_ids (wrap_at fresh op added target r)) = set (fresh # node_ids added @ node_ids r)"
      using mset_wrap_at [OF d True] by (metis set_mset_mset)
    moreover have "set (ids_opt (insertBeside fresh t target added op)) \<subseteq> set (node_ids (wrap_at fresh op added target r))"
      using subseq_distinct_set [OF subseq_normal_node] insertBeside_is_wrap [OF d True] Some by fastforce
    ultimately show ?thesis using assms(2,3) Some by (auto simp: grows_def ids_opt_def [of "Some r"])
  qed (use assms Some in \<open>simp add: grows_def insertBeside_absent\<close>)
qed

lemma grows_subseq: "subseq (ids_opt t') (ids_opt t) \<Longrightarrow> grows gen (t, k) (t', k)"
  using subseq_distinct_set by (fastforce simp: grows_def)

lemma subseq_removeNode: "subseq (ids_opt (removeNode t i)) (ids_opt t)"
proof (cases t)
  case (Some r)
  show ?thesis
    using subseq_order.trans [OF subseq_normalize subseq_prune [of i r]]
    by (auto simp: removeNode_def Some ids_opt_def split: draft_node.splits)
qed (simp add: removeNode_def)

lemma ids_updateContact:
  assumes "\<And>c. c_id (patch c) = c_id c"
  shows "ids_opt (updateContact t i patch) = ids_opt t"
proof (cases t)
  case (Some r)
  have "node_ids (mapNode (\<lambda>n. case n of Contact c \<Rightarrow> if c_id c = i then Some (Contact (patch c)) else None
                               | Group g op cs \<Rightarrow> None) r) = node_ids r"
    by (rule node_ids_mapNode) (auto split: draft_node.splits if_splits simp: assms)
  then show ?thesis by (simp add: Some updateContact_def ids_opt_def)
qed (simp add: updateContact_def)

lemma subseq_setGroupOp: "subseq (ids_opt (setGroupOp t i op)) (ids_opt t)"
proof (cases t)
  case (Some r)
  let ?r = "mapNode (\<lambda>n. case n of Contact c \<Rightarrow> None | Group g gop cs \<Rightarrow> if g = i then Some (Group g op cs) else None) r"
  have "node_ids ?r = node_ids r" by (rule node_ids_mapNode) (auto split: draft_node.splits if_splits)
  then show ?thesis using subseq_normalize [of "Some ?r"] by (simp add: Some setGroupOp_def ids_opt_def)
qed (simp add: setGroupOp_def)

lemma contact_patch_id [simp]: "c_id (contact_patch cat e c) = c_id c"
  by (cases e) (simp_all add: pickMetric_def)

lemma pickActuator_id [simp]: "a_id (pickActuator cat a x) = a_id a"
  by (simp add: pickActuator_def split: option.split)

lemma enter_ids [simp]: "a_id (enter_value v a) = a_id a" "a_id (enter_clear v a) = a_id a"
  by (cases v; simp)+

lemma action_edited_id [simp]: "action_id (action_edited cat e a) = action_id a"
  by (cases e; cases a) simp_all

lemma emptyAction_id [simp]: "action_id (emptyAction i kind dev) = i"
  by (cases kind) (simp_all add: emptyActuator_def)

lemma editAction_ids [simp]: "map action_id (d_actions (editAction cat j e d)) = map action_id (d_actions d)"
proof -
  have "map (\<lambda>(i, a). action_id (if i = j then action_edited cat e a else a)) xs = map (\<lambda>x. action_id (snd x)) xs" for xs
    by (rule map_cong) auto
  then show ?thesis
    by (simp add: editAction_def comp_def case_prod_beta) (metis (no_types, lifting) map_map comp_def map_snd_indexed map_cong)
qed

section \<open>Each kind of edit\<close>

lemma sound_condition:
  assumes "sound_draft gen (d, k)" "inj gen" "sound_tree gen (t', k')" "grows gen (d_condition d, k) (t', k')"
  shows "sound_draft gen (setCondition d t', k')"
proof -
  let ?as = "set (map action_id (d_actions d))"
  have a: "distinct (map action_id (d_actions d))" "?as \<inter> set (ids_opt (d_condition d)) = {}" "?as \<subseteq> gen ` {..<k}"
    using assms(1) by (auto simp: sound_draft_def draft_ids_def)
  have g: "k \<le> k'" "set (ids_opt t') \<subseteq> set (ids_opt (d_condition d)) \<union> gen ` {k..<k'}"
    using assms(4) by (auto simp: grows_def)
  have "gen ` {..<k} \<inter> gen ` {k..<k'} = {}" using assms(2) by (auto simp: inj_eq)
  then have "set (ids_opt t') \<inter> ?as = {}" using a g(2) by blast
  moreover have "?as \<subseteq> gen ` {..<k'}" using a(3) g(1) by (force dest: subsetD)
  ultimately show ?thesis
    using assms(3) a(1) by (simp add: sound_draft_def sound_tree_def draft_ids_def setCondition_def)
qed

lemma sound_edit:
  assumes "sound_draft gen (d, k)" "inj gen" "edit gen (d_condition d, k) (t', k')" "grows gen (d_condition d, k) (t', k')"
  shows "sound_draft gen (setCondition d t', k')"
  using sound_condition [OF assms(1,2) edit_sound [OF assms(3,2) sound_draft_tree [OF assms(1)]] assms(4)] .

lemma draft_tree_ids: "sound_draft gen (d, k) \<Longrightarrow> distinct (ids_opt (d_condition d))"
  by (simp add: sound_draft_def draft_ids_def)

lemma emptyContact_id [simp]: "c_id (emptyContact i dev) = i"
  by (simp add: emptyContact_def)

lemma sound_addContact: "sound_draft gen s \<Longrightarrow> inj gen \<Longrightarrow> sound_draft gen (addContact gen i op s)"
  unfolding addContact_def
  by (cases s) (simp only: prod.case, rule sound_edit, assumption+, rule edit.add_contact, rule grows_insert, auto simp: draft_tree_ids)

lemma sound_addGroup: "sound_draft gen s \<Longrightarrow> inj gen \<Longrightarrow> sound_draft gen (addGroup gen i op s)"
  unfolding addGroup_def
  by (cases s) (simp only: prod.case, rule sound_edit, assumption+, rule edit.add_group, rule grows_insert, auto simp: draft_tree_ids)

lemma sound_addFirst: "sound_draft gen s \<Longrightarrow> inj gen \<Longrightarrow> d_condition (fst s) = None \<Longrightarrow> sound_draft gen (addFirst gen s)"
  unfolding addFirst_def
  by (cases s) (auto intro!: sound_condition simp: sound_tree_def ids_opt_def grows_def emptyContact_def)

lemma sound_actions:
  assumes "sound_draft gen (d, k)" "subseq (map action_id (d_actions d')) (map action_id (d_actions d))" "d_condition d' = d_condition d"
  shows "sound_draft gen (d', k)"
proof -
  have "subseq (draft_ids d') (draft_ids d)" using assms(2,3) by (simp add: draft_ids_def list_emb_append_mono)
  then show ?thesis using subseq_distinct_set [of "draft_ids d'" "draft_ids d"] assms(1,3) by (auto simp: sound_draft_def)
qed

lemma sound_addAction:
  assumes "sound_draft gen (d, k)" "inj gen"
  shows "sound_draft gen (addAction gen kind (d, k))"
proof -
  have "gen k \<notin> gen ` {..<k}" using assms(2) by (auto simp: inj_eq)
  then have "gen k \<notin> set (draft_ids d)" using assms(1) by (auto simp: sound_draft_def)
  then show ?thesis using assms(1) by (auto simp: sound_draft_def draft_ids_def addAction_def lessThan_Suc)
qed

lemma subseq_map_filter: "subseq (map f (filter p xs)) (map f xs)"
  by (rule subseq_map) simp

lemma subseq_drop_one: "subseq (take j xs @ drop (Suc j) xs) xs"
proof -
  have "subseq (take j xs @ drop (Suc j) xs) (take j xs @ drop j xs)"
    by (rule list_emb_append_mono) (auto simp: drop_Suc tl_drop [symmetric] intro: subseq_order.trans [OF _ subseq_order.refl])
  then show ?thesis by simp
qed

lemma draft_edited_keeps [simp]:
  "d_condition (draft_edited e d) = d_condition d" "d_actions (draft_edited e d) = d_actions d"
  "d_preserved (draft_edited e d) = d_preserved d"
  by (cases e; simp)+

lemma sound_same: "sound_draft gen (d, k) \<Longrightarrow> d_condition d' = d_condition d \<Longrightarrow> d_actions d' = d_actions d \<Longrightarrow> sound_draft gen (d', k)"
  by (simp add: sound_draft_def draft_ids_def)

lemma sound_apply:
  assumes "sound_draft gen s" "inj gen" "edit_offers cat (fst s) e"
  shows "sound_draft gen (apply_edit gen cat e s)"
proof -
  obtain d k where s: "s = (d, k)" by (cases s)
  note so = assms(1) [unfolded s]
  show ?thesis
  proof (cases e)
    case Add_series
    then show ?thesis using assms sound_addFirst sound_addContact by (simp add: addSeriesAtEnd_def split: option.split)
  next
    case (Remove_node i)
    then show ?thesis using sound_edit [OF so assms(2) edit.remove grows_subseq [OF subseq_removeNode]] by (simp add: s)
  next
    case (Edit_contact i ce)
    have "edit gen (d_condition d, k) (updateContact (d_condition d) i (contact_patch cat ce), k)"
      by (rule edit.update) simp
    then show ?thesis using Edit_contact sound_edit [OF so assms(2)] by (simp add: s grows_subseq ids_updateContact)
  next
    case (Change_op i op)
    then show ?thesis using sound_edit [OF so assms(2) edit.set_op grows_subseq [OF subseq_setGroupOp]] by (simp add: s)
  next
    case (Remove_action i)
    then show ?thesis using sound_actions [OF so] by (simp add: s removeAction_def subseq_map_filter)
  next
    case (Remove_coil j)
    then show ?thesis using sound_actions [OF so] by (simp add: s removeActionAt_def subseq_map subseq_drop_one flip: map_append)
  next
    case (Edit_action j ae)
    have "sound_draft gen (editAction cat j ae d, k)"
      by (rule sound_actions [OF so]) (simp, simp add: editAction_def)
    then show ?thesis using Edit_action by (simp add: s)
  next
    case (Edit_draft de)
    then show ?thesis using sound_same [OF so] by (simp add: s)
  qed (use assms so sound_addFirst sound_addContact sound_addGroup sound_addAction sound_same in \<open>simp_all add: s\<close>)
qed

lemma addFirst_keeps [simp]:
  "d_actions (fst (addFirst gen s)) = d_actions (fst s)" "d_preserved (fst (addFirst gen s)) = d_preserved (fst s)"
  by (simp_all add: addFirst_def setCondition_def split: prod.split)

lemma addContact_keeps [simp]:
  "d_actions (fst (addContact gen i op s)) = d_actions (fst s)" "d_preserved (fst (addContact gen i op s)) = d_preserved (fst s)"
  by (simp_all add: addContact_def setCondition_def split: prod.split)

lemma addGroup_keeps [simp]:
  "d_actions (fst (addGroup gen i op s)) = d_actions (fst s)" "d_preserved (fst (addGroup gen i op s)) = d_preserved (fst s)"
  by (simp_all add: addGroup_def setCondition_def split: prod.split)

lemma preserved_kept: "d_preserved (fst (apply_edit gen cat e s)) = d_preserved (fst s)"
  by (cases s; cases e)
     (simp_all add: addSeriesAtEnd_def setCondition_def addAction_def removeAction_def removeActionAt_def editAction_def split: option.split)

lemma filter_other_Nil: "filter (\<lambda>a. f a \<noteq> i) xs = [] \<Longrightarrow> distinct (map f xs) \<Longrightarrow> length xs \<le> 1"
  by (cases xs; cases "tl xs") (auto split: if_splits)

lemma actions_kept:
  assumes "sound_draft gen s" "edit_offers cat (fst s) e" "no_actions (fst (apply_edit gen cat e s))"
  shows "no_actions (fst s)"
proof -
  obtain d k where s: "s = (d, k)" by (cases s)
  have di: "distinct (map action_id (d_actions d))" using assms(1) by (simp add: s sound_draft_def draft_ids_def)
  have p: "v_actions (d_preserved d) = []" using assms(3) preserved_kept [of gen cat e s] by (simp add: no_actions_def s)
  show ?thesis
  proof (cases e)
    case (Remove_action i)
    then have "filter (\<lambda>a. action_id a \<noteq> i) (d_actions d) = []" "1 < length (d_actions d)"
      using assms(2,3) p by (auto simp: s no_actions_def removeAction_def removable_def)
    then show ?thesis using filter_other_Nil [OF _ di] by fastforce
  next
    case (Remove_coil j)
    then have "length (take j (d_actions d) @ drop (Suc j) (d_actions d)) = 0" "1 < length (d_actions d)" "j < length (d_actions d)"
      using assms(2,3) p by (auto simp: s no_actions_def removeActionAt_def removable_def)
    then show ?thesis by simp
  next
    case (Edit_action j ae)
    then show ?thesis using assms(3) editAction_ids [of cat j ae d] p by (simp add: s no_actions_def)
  qed (use assms(3) in \<open>auto simp: s no_actions_def addSeriesAtEnd_def setCondition_def addAction_def split: option.splits\<close>)
qed

context id_supply begin

lemma draft_session:
  "(draft_step gen cat)\<^sup>*\<^sup>* s s' \<Longrightarrow> sound_draft gen s \<Longrightarrow>
     sound_draft gen s' \<and> d_preserved (fst s') = d_preserved (fst s) \<and> (no_actions (fst s') \<longrightarrow> no_actions (fst s))"
proof (induction rule: rtranclp_induct)
  case (step s1 s2)
  then show ?case
    by (auto simp: draft_step_simps sound_apply inj_gen preserved_kept dest: actions_kept)
qed simp

end

lemma emptyDraft_sound: "inj gen \<Longrightarrow> sound_draft gen (emptyDraft gen k device timezone)"
  by (simp add: emptyDraft_def newId_def sound_draft_def draft_ids_def ids_opt_def emptyActuator_def inj_eq)

section \<open>Both views show the same contacts\<close>

fun line_ids :: "form_row list \<Rightarrow> string list" where
  "line_ids [] = []"
| "line_ids (Line_row depth i texts problem # rows) = i # line_ids rows"
| "line_ids (r # rows) = line_ids rows"

lemma line_ids_append [simp]: "line_ids (xs @ ys) = line_ids xs @ line_ids ys"
  by (induction xs rule: line_ids.induct) simp_all

lemma line_ids_rows:
  "line_ids (group_rows cat depth n) = map c_id (contacts n)"
  "line_ids (child_rows cat depth op later cs) = map c_id (concat (map contacts cs))"
  by (induction cat depth n and cat depth op later cs rule: group_rows_child_rows.induct) (auto simp: line_row_def)

section \<open>Properties\<close>

text \<open>
  C9: in every session of edits, made in the form or on the ladder in any order, by controls that
  are on the screen, the ids of the draft's nodes and actions stay distinct and drawn from the
  supply and its tree normal; what was set through the API stays as it was, and a rule that has
  something to do never loses its last action.
\<close>

theorem editing_keeps_draft:
  assumes "inj gen" "sound_draft gen s" "(draft_step gen cat)\<^sup>*\<^sup>* s s'"
  shows "sound_draft gen s' \<and> d_preserved (fst s') = d_preserved (fst s) \<and> (\<not> no_actions (fst s) \<longrightarrow> \<not> no_actions (fst s'))"
  using id_supply.draft_session [OF id_supply.intro [OF assms(1)] assms(3,2)] by blast

lemma editing_keeps_draft_witness:
  "sound_draft counted_id (addAction counted_id EmailK (emptyDraft counted_id 0 ''dev'' ''UTC''))"
proof -
  have "draft_step counted_id \<lparr>rc_devices = [], rc_templates = []\<rparr> (emptyDraft counted_id 0 ''dev'' ''UTC'')
      (apply_edit counted_id \<lparr>rc_devices = [], rc_templates = []\<rparr> (Add_action EmailK) (emptyDraft counted_id 0 ''dev'' ''UTC''))"
    by (rule draft_step.intros) simp
  then show ?thesis
    using editing_keeps_draft [OF counted_id_inj emptyDraft_sound [OF counted_id_inj] r_into_rtranclp] by fastforce
qed

text \<open>
  The form and the ladder show the same rule: for a condition without empty groups the rung is
  laid out, and its contacts are those of the form's lines, in the same order.
\<close>

theorem form_and_ladder_agree:
  assumes "d_condition d = Some n" "inhabited n"
  shows "\<exists>out. layoutCondition (d_condition d) = Some out \<and> map y_id (o_contacts out) = line_ids (condition_rows cat d)"
  using ladder_cells [OF assms(2)] by (auto simp: assms(1) condition_rows_def line_ids_rows)

lemma form_and_ladder_agree_witness:
  "\<exists>out. layoutCondition (Some demo_tree) = Some out \<and>
     map y_id (o_contacts out) = line_ids (condition_rows \<lparr>rc_devices = [], rc_templates = []\<rparr> (demo_draft\<lparr>d_condition := Some demo_tree\<rparr>))"
  using form_and_ladder_agree [of "demo_draft\<lparr>d_condition := Some demo_tree\<rparr>" demo_tree "\<lparr>rc_devices = [], rc_templates = []\<rparr>"]
  by (simp add: demo_tree_def demo_contact_def)

section \<open>A value on its way to the request\<close>

lemma map_indexed_below: "k < n \<Longrightarrow> map (\<lambda>(i, a). if i = k then f a else a) (indexed_from n xs) = xs"
  by (induction xs arbitrary: n) auto

lemma map_indexed_update:
  "j < length xs \<Longrightarrow> map (\<lambda>(i, a). if i = n + j then f a else a) (indexed_from n xs) = xs[j := f (xs ! j)]"
proof (induction xs arbitrary: n j)
  case (Cons x xs)
  show ?case
  proof (cases j)
    case 0
    then show ?thesis using map_indexed_below [of n "Suc n" f xs] by simp
  next
    case (Suc k)
    then show ?thesis using Cons.IH [of k "Suc n"] Cons.prems by simp
  qed
qed simp

lemma editAction_at:
  "j < length (d_actions d) \<Longrightarrow>
   editAction cat j e d = d\<lparr>d_actions := (d_actions d)[j := action_edited cat e (d_actions d ! j)]\<rparr>"
  using map_indexed_update [of j "d_actions d" 0 "action_edited cat e"] by (simp add: editAction_def)

lemma all_some_update: "all_some xs = Some ys \<Longrightarrow> all_some (xs[j := Some z]) = Some (ys[j := z])"
proof (induction xs arbitrary: ys j)
  case (Cons x xs)
  then show ?case by (cases j) (auto split: option.splits)
qed simp

lemma all_some_length: "all_some xs = Some ys \<Longrightarrow> length ys = length xs"
  by (induction xs arbitrary: ys) (auto split: option.splits)

lemma map_reverts_update:
  assumes "g b = g a" "a_revertOnClear b = a_revertOnClear a"
  shows "j < length xs \<Longrightarrow> xs ! j = Actuator a \<Longrightarrow> map g (reverts (xs[j := Actuator b])) = map g (reverts xs)"
proof (induction xs arbitrary: j)
  case (Cons x xs)
  then show ?case using assms by (cases j) (auto simp: reverts_def split: option.splits)
qed simp

lemma entered_value: "actuatorValue (enter_value v a) = (if entry_kind v = a_valueKind a then entry_json v else actuatorValue a)"
  by (cases v; cases "a_valueKind a") (auto simp: actuatorValue_def)

lemma entered_same [simp]:
  "a_deviceId (enter_value v a) = a_deviceId a" "a_actuator (enter_value v a) = a_actuator a"
  "a_revertOnClear (enter_value v a) = a_revertOnClear a"
  by (cases v; simp)+

lemma entered_clear:
  "entry_kind v \<noteq> BooleanK \<Longrightarrow> clear_command (enter_value v a) = clear_command a"
  by (cases v) (simp_all add: clear_command_def actuatorClearValue_def split: value_kind.split option.split)

text \<open>
  C38: editing the value of an actuator action changes the request in that action's command only: the
  command is sent with what was entered where the control's kind is the action's, and with the value
  it had where they differ; the rest of the request stays, and so do the commands sent when the
  condition clears unless the entry is an on/off one, whose opposite is their default.  Picking an
  actuator the template has makes the two kinds agree.
\<close>

theorem value_edit_sent:
  fixes v :: value_entry and cat :: rule_catalog
  assumes "draftToRequest d = Some q" "j < length (d_actions d)" "d_actions d ! j = Actuator a"
  defines "d' \<equiv> editAction cat j (Act_value v) d"
  shows "draftToRequest d' =
     Some (q\<lparr>q_actions := (q_actions q)[j := JObj
               [(''type'', JStr ''actuator_command''), (''device_id'', JStr (a_deviceId a)), (''actuator'', JStr (trim (a_actuator a))),
                (''value'', if entry_kind v = a_valueKind a then entry_json v else actuatorValue a)]],
             q_clear_actions := (if entry_kind v = BooleanK then clear_out d' else q_clear_actions q)\<rparr>) \<and>
   (case actuatorFor cat (a_deviceId a) x of
      Some y \<Rightarrow> shown_kind cat (pickActuator cat a x) = a_valueKind (pickActuator cat a x) | None \<Rightarrow> True)"
proof -
  let ?new = "(d_actions d)[j := Actuator (enter_value v a)]"
  have d': "d' = d\<lparr>d_actions := ?new\<rparr>" using assms(2,3) by (simp add: d'_def editAction_at)
  obtain acts where acts: "all_some (map actionToApi (d_actions d)) = Some acts"
    using assms(1) by (auto simp: draftToRequest_def Let_def split: option.splits)
  then have len: "length acts = length (d_actions d)" using all_some_length by fastforce
  let ?command = "JObj [(''type'', JStr ''actuator_command''), (''device_id'', JStr (a_deviceId a)), (''actuator'', JStr (trim (a_actuator a))),
      (''value'', if entry_kind v = a_valueKind a then entry_json v else actuatorValue a)]"
  have "map actionToApi ?new = (map actionToApi (d_actions d))[j := Some ?command]"
    by (simp add: map_update entered_value)
  then have new: "all_some (map actionToApi ?new) = Some (acts[j := ?command])" by (simp only: all_some_update [OF acts])
  have "clear_out d' = clear_out d" if "entry_kind v \<noteq> BooleanK"
    using map_reverts_update [of clear_command "enter_value v a" a j "d_actions d"] entered_clear [OF that] assms(2,3)
    by (simp add: clear_out_def d' canClear_def isReadingRule_def)
  note clear = this
  have same: "strategyFor d' = strategyFor d" "canClear d' = canClear d" "isReadingRule d' = isReadingRule d"
    by (simp_all add: d' strategyFor_def canClear_def isReadingRule_def cong: behaviour.case_cong option.case_cong)
  have keep: "d_name d' = d_name d" "d_when d' = d_when d" "d_condition d' = d_condition d" "d_forDuration d' = d_forDuration d"
    "d_cooldown d' = d_cooldown d" "d_preserved d' = d_preserved d" "d_clearDelay d' = d_clearDelay d" "d_enabled d' = d_enabled d"
    "d_actions d' = ?new"
    by (simp_all add: d')
  have q: "draftToRequest d' = Some (q\<lparr>q_actions := acts[j := ?command] @ v_actions (d_preserved d), q_clear_actions := clear_out d'\<rparr>)"
    "q_actions q = acts @ v_actions (d_preserved d)" "q_clear_actions q = clear_out d"
    using assms(1) unfolding draftToRequest_def Let_def keep same acts new option.case by (simp_all only: option.inject) (drule sym, simp)+
  have "(q_actions q)[j := ?command] = acts[j := ?command] @ v_actions (d_preserved d)"
    using len assms(2) by (simp add: q(2) list_update_append)
  moreover have "clear_out d' = (if entry_kind v = BooleanK then clear_out d' else q_clear_actions q)" using clear q(3) by simp
  ultimately have "draftToRequest d' = Some (q\<lparr>q_actions := (q_actions q)[j := ?command],
      q_clear_actions := (if entry_kind v = BooleanK then clear_out d' else q_clear_actions q)\<rparr>)"
    using q(1) by simp
  then show ?thesis by (auto simp: shown_kind_def pickActuator_def split: option.split)
qed

lemma value_edit_sent_witness:
  "\<exists>q q'. draftToRequest demo_draft = Some q \<and>
     draftToRequest (editAction \<lparr>rc_devices = [], rc_templates = []\<rparr> 0 (Act_value (Enter_bool False)) demo_draft) = Some q' \<and>
     q_actions q' = (q_actions q)[0 := JObj [(''type'', JStr ''actuator_command''), (''device_id'', JStr ''dev-1''),
       (''actuator'', JStr ''fan1''), (''value'', JBool False)]]"
proof -
  let ?a = "(emptyActuator ''a'' ''dev-1'')\<lparr>a_actuator := ''fan1''\<rparr>"
  obtain q where q: "draftToRequest demo_draft = Some q"
    by (simp add: demo_draft_def emptyDraft_def newId_def draftToRequest_def Let_def)
  have "0 < length (d_actions demo_draft)" "d_actions demo_draft ! 0 = Actuator ?a" by (simp_all add: demo_draft_def)
  from value_edit_sent [OF q this] show ?thesis
    using q by (auto simp: emptyActuator_def trim_id is_space_def)
qed

text \<open>
  A rule set through the API with the value 1 on an on/off actuator: the editor shows the on/off
  control, and switching it off sends 1.
\<close>

lemma switched_off_sends_one:
  "let cat = \<lparr>rc_devices = [\<lparr>rd_id = ''d'', rd_name = ''Pump'', rd_catalog = ''t''\<rparr>],
              rc_templates = [\<lparr>rt_id = ''t'', rt_metrics = [],
                rt_actuators = [\<lparr>ca_name = ''Relay'', ca_key = Some ''relay'', ca_value_type = BoolV, ca_allowed = None, ca_on_value = None, ca_off_value = None\<rparr>]\<rparr>]\<rparr>;
       a = (emptyActuator ''a'' ''d'')\<lparr>a_actuator := ''relay'', a_valueKind := valueKindOf (Some (JNum (Fin 1))), a_num := Fin 1\<rparr>
   in actuator_offers cat True a (Act_value (Enter_bool False)) \<and> actuatorValue (enter_value (Enter_bool False) a) = JNum (Fin 1)"
  by (simp add: Let_def shown_kind_def actuatorFor_def actuators_for_def catalogForDevice_def last_with_def valueKindOf_def
      emptyActuator_def actuatorValue_def wireId_def or_else_def)

end
