(* ===== verification/Rule_Page.thy ===== *)
theory Rule_Page imports Rule_Edits begin

text \<open>
  The rule editor (\<open>frontend/src/components/rules/editor/RuleEditor.tsx\<close>): the tabs of a saved rule
  and the wizard of a new one, the problems shown on them, moving between them, the save with its
  confirmation, its request and its reply as steps of their own, the two views and the selection
  on the rung.  \<open>key\<close> is \<open>JSON.stringify\<close> on drafts.  A render's effect (\<open>settle\<close>) follows every
  event.  The lemmas show that the open tab always exists, that only drafts without a blocking
  problem are sent, an enabled rule only after a yes, and that a refused save shows the problem it
  names.
\<close>

section \<open>Tabs\<close>

datatype rule_tab = Basics_tab | When_tab | If_tab | Then_tab | Behaviour_tab | Activity_tab | Review_tab
datatype editor_mode = Form_mode | Ladder_mode

definition TAB_LABEL :: "(rule_tab \<times> string) list" where
  "TAB_LABEL =
     [(Basics_tab, ''Basics''), (When_tab, ''When''), (If_tab, ''If''), (Then_tab, ''Then''), (Behaviour_tab, ''Behaviour''),
      (Activity_tab, ''Activity''), (Review_tab, ''Review'')]"

text \<open>A tab's name in the URL.\<close>

definition tab_names :: "(string \<times> rule_tab) list" where
  "tab_names =
     [(''basics'', Basics_tab), (''when'', When_tab), (''if'', If_tab), (''then'', Then_tab), (''behaviour'', Behaviour_tab),
      (''activity'', Activity_tab), (''review'', Review_tab)]"

definition OLD_TABS :: "(string \<times> rule_tab) list" where
  "OLD_TABS = [(''edit'', If_tab), (''simulate'', If_tab), (''versions'', Activity_tab)]"

text \<open>What the page is given: the saved rule's name and whether it is enabled, and whether it has an Activity tab.\<close>

record page_props =
  pp_existing :: "(string \<times> bool) option"
  pp_activity :: bool

definition wizard :: "page_props \<Rightarrow> bool" where
  "wizard pp \<longleftrightarrow> pp_existing pp = None"

definition page_tabs :: "page_props \<Rightarrow> rule_draft \<Rightarrow> rule_tab list" where
  "page_tabs pp d =
     (if wizard pp then [] else [Basics_tab]) @ [When_tab, If_tab, Then_tab] @
     (if isReadingRule d then [Behaviour_tab] else []) @
     (if wizard pp then [Review_tab] else if pp_activity pp then [Activity_tab] else [])"

definition defaultTab :: "page_props \<Rightarrow> rule_tab" where
  "defaultTab pp = (if wizard pp then When_tab else Basics_tab)"

definition named_tab :: "string \<Rightarrow> rule_tab option" where
  "named_tab raw = (case dict_get OLD_TABS raw of Some t \<Rightarrow> Some t | None \<Rightarrow> dict_get tab_names raw)"

definition url_tab :: "page_props \<Rightarrow> rule_draft \<Rightarrow> string option \<Rightarrow> rule_tab" where
  "url_tab pp d param =
     (if wizard pp then defaultTab pp
      else case named_tab (case param of None \<Rightarrow> [] | Some s \<Rightarrow> s) of
          None \<Rightarrow> defaultTab pp
        | Some t \<Rightarrow> if t = Behaviour_tab \<and> t \<notin> set (page_tabs pp d) then Then_tab
                    else if t \<in> set (page_tabs pp d) then t else defaultTab pp)"

definition tabOf :: "page_props \<Rightarrow> rule_draft \<Rightarrow> rule_section \<Rightarrow> rule_tab" where
  "tabOf pp d s =
     (case s of
        Name_s \<Rightarrow> if wizard pp then Review_tab else Basics_tab
      | Behaviour_s \<Rightarrow> if isReadingRule d then Behaviour_tab else Then_tab
      | When_s \<Rightarrow> When_tab | If_s \<Rightarrow> If_tab | Then_s \<Rightarrow> Then_tab)"

definition QUESTION :: "bool \<Rightarrow> rule_tab \<Rightarrow> string \<times> string" where
  "QUESTION hardware t =
     (case t of
        When_tab \<Rightarrow> (''What starts it?'', ''A reading, a schedule, a person, or a device going online or offline.'')
      | If_tab \<Rightarrow> (''What has to be true?'', ''Add conditions. Combine them with All (and) or Any (or).'')
      | Then_tab \<Rightarrow> (''What should happen?'', ''Switch something, send an email, call a webhook or post a notification.'')
      | Review_tab \<Rightarrow> (''Check and create'', ''Name it, see what it would have done, and create it.'')
      | Behaviour_tab \<Rightarrow> (''How should it behave?'',
          if hardware then ''Re-arm or latch, and the safety timers that stop hardware flapping.''
          else ''Re-arm or latch, and the timers that stop repeat alerts.'')
      | _ \<Rightarrow> ([], []))"

text \<open>The view is remembered in the browser's storage (None: blocked).\<close>

definition MODE_KEY :: string where "MODE_KEY = ''rule-editor-mode''"

definition readMode :: "(string \<Rightarrow> string option) option \<Rightarrow> editor_mode" where
  "readMode store =
     (case store of None \<Rightarrow> Form_mode | Some m \<Rightarrow> if m MODE_KEY = Some ''ladder'' then Ladder_mode else Form_mode)"

definition writeMode :: "editor_mode \<Rightarrow> (string \<Rightarrow> string option) option \<Rightarrow> (string \<Rightarrow> string option) option" where
  "writeMode mode store = map_option (\<lambda>m. m(MODE_KEY \<mapsto> (if mode = Ladder_mode then ''ladder'' else ''form''))) store"

lemma mode_remembered: "readMode (writeMode mode (Some m)) = mode"
  by (cases mode) (simp_all add: readMode_def writeMode_def)

section \<open>State\<close>

text \<open>
  \<open>pg_asking\<close> is the draft the confirmation is about, \<open>pg_flights\<close> the drafts whose requests have no
  reply yet, \<open>pg_sent\<close> all that were sent, \<open>pg_yes\<close> the confirmations given; \<open>pg_url\<close> is the page's
  \<open>?tab=\<close>, \<open>pg_if_open\<close> and \<open>pg_then_open\<close> the rows whose sheets are open.
\<close>

record rule_page =
  pg_edited :: edited
  pg_baseline :: rule_draft
  pg_mode :: editor_mode
  pg_selection :: selection
  pg_tab :: rule_tab
  pg_url :: "string option"
  pg_visited :: "rule_tab list"
  pg_revealAll :: bool
  pg_if_open :: "string option"
  pg_then_open :: "string option"
  pg_error :: "string option"
  pg_submitting :: bool
  pg_asking :: "rule_draft option"
  pg_flights :: "rule_draft list"
  pg_sent :: "rule_draft list"
  pg_yes :: nat

abbreviation pg_draft :: "rule_page \<Rightarrow> rule_draft" where "pg_draft s \<equiv> fst (pg_edited s)"

definition new_page :: "page_props \<Rightarrow> editor_mode \<Rightarrow> string option \<Rightarrow> edited \<Rightarrow> rule_draft \<Rightarrow> rule_page" where
  "new_page pp remembered param start baseline =
     \<lparr>pg_edited = start, pg_baseline = baseline, pg_mode = remembered, pg_selection = Sel_when,
      pg_tab = url_tab pp (fst start) param, pg_url = param, pg_visited = [defaultTab pp], pg_revealAll = False,
      pg_if_open = None, pg_then_open = None, pg_error = None, pg_submitting = False, pg_asking = None, pg_flights = [],
      pg_sent = [], pg_yes = 0\<rparr>"

definition is_dirty :: "(rule_draft \<Rightarrow> string) \<Rightarrow> rule_page \<Rightarrow> bool" where
  "is_dirty key s \<longleftrightarrow> key (pg_draft s) \<noteq> key (pg_baseline s)"

definition blocking :: "rule_draft \<Rightarrow> section_issue list" where
  "blocking d = filter i_blocking (sectionIssues d)"

definition shown_issues :: "page_props \<Rightarrow> rule_page \<Rightarrow> section_issue list" where
  "shown_issues pp s =
     (if wizard pp \<and> \<not> pg_revealAll s
      then filter (\<lambda>i. tabOf pp (pg_draft s) (i_section i) \<in> set (pg_visited s)) (blocking (pg_draft s))
      else blocking (pg_draft s))"

text \<open>The counts on the wizard's steps and on the tabs (blocking, and whether there are others).\<close>

definition step_issues :: "page_props \<Rightarrow> rule_page \<Rightarrow> (rule_tab \<times> nat) list" where
  "step_issues pp s =
     map (\<lambda>t. (t, length (filter (\<lambda>i. tabOf pp (pg_draft s) (i_section i) = t) (shown_issues pp s)))) (page_tabs pp (pg_draft s))"

definition tab_issues :: "page_props \<Rightarrow> rule_page \<Rightarrow> (rule_tab \<times> nat \<times> bool) list" where
  "tab_issues pp s =
     map (\<lambda>t. let its = filter (\<lambda>i. tabOf pp (pg_draft s) (i_section i) = t) (sectionIssues (pg_draft s));
                  bad = length (filter i_blocking its)
              in (t, bad, bad < length its))
       (page_tabs pp (pg_draft s))"

definition stepIndex :: "page_props \<Rightarrow> rule_page \<Rightarrow> nat" where
  "stepIndex pp s = (case find_index (\<lambda>t. t = pg_tab s) (page_tabs pp (pg_draft s)) of Some i \<Rightarrow> i | None \<Rightarrow> 0)"

section \<open>Moving\<close>

definition name_of_tab :: "rule_tab \<Rightarrow> string" where
  "name_of_tab t = (case List.find (\<lambda>(n, t'). t' = t) tab_names of Some (n, t') \<Rightarrow> n | None \<Rightarrow> [])"

definition setTab :: "page_props \<Rightarrow> rule_tab \<Rightarrow> rule_page \<Rightarrow> rule_page" where
  "setTab pp t s =
     s\<lparr>pg_tab := t, pg_visited := (if t \<in> set (pg_visited s) then pg_visited s else pg_visited s @ [t]),
       pg_url := (if wizard pp then pg_url s else if t = defaultTab pp then None else Some (name_of_tab t))\<rparr>"

definition section_selection :: "rule_draft \<Rightarrow> rule_section \<Rightarrow> selection" where
  "section_selection d section =
     (case section of
        When_s \<Rightarrow> Sel_when
      | If_s \<Rightarrow> (case contacts_opt (d_condition d) of [] \<Rightarrow> Sel_nothing | c # cs \<Rightarrow> Sel_node (c_id c))
      | Then_s \<Rightarrow> (case d_actions d of [] \<Rightarrow> Sel_add | a # as \<Rightarrow> Sel_action (action_id a))
      | _ \<Rightarrow> Sel_timing)"

definition goTo :: "page_props \<Rightarrow> rule_section \<Rightarrow> rule_page \<Rightarrow> rule_page" where
  "goTo pp section s =
     (let s1 = setTab pp (tabOf pp (pg_draft s) section) s in
      if section \<noteq> Name_s \<and> pg_mode s = Ladder_mode
      then s1\<lparr>pg_selection := section_selection (pg_draft s) section\<rparr> else s1)"

definition next_step :: "page_props \<Rightarrow> rule_page \<Rightarrow> rule_page" where
  "next_step pp s =
     (if \<exists>i\<in>set (blocking (pg_draft s)). tabOf pp (pg_draft s) (i_section i) = pg_tab s then s
      else setTab pp (page_tabs pp (pg_draft s) ! (stepIndex pp s + 1)) s)"

definition pickOnRung :: "page_props \<Rightarrow> selection \<Rightarrow> rule_page \<Rightarrow> rule_page" where
  "pickOnRung pp sel s =
     (case sel of
        Sel_when \<Rightarrow> setTab pp When_tab (s\<lparr>pg_selection := Sel_nothing\<rparr>)
      | Sel_timing \<Rightarrow> setTab pp (tabOf pp (pg_draft s) Behaviour_s) (s\<lparr>pg_selection := Sel_nothing\<rparr>)
      | _ \<Rightarrow> s\<lparr>pg_selection := sel\<rparr>)"

text \<open>The effect after a render: Behaviour was open and the rule no longer runs on readings.\<close>

definition settle :: "page_props \<Rightarrow> rule_page \<Rightarrow> rule_page" where
  "settle pp s = (if pg_tab s = Behaviour_tab \<and> \<not> isReadingRule (pg_draft s) then setTab pp Then_tab s else s)"

section \<open>Saving\<close>

definition send_draft :: "rule_draft \<Rightarrow> rule_page \<Rightarrow> rule_page" where
  "send_draft d s =
     (case draftToRequest d of
        None \<Rightarrow> s\<lparr>pg_error := Some (''Couldn'' @ [CHR 0x27] @ ''t save this rule.''), pg_submitting := False\<rparr>
      | Some q \<Rightarrow> s\<lparr>pg_submitting := True, pg_flights := pg_flights s @ [d], pg_sent := pg_sent s @ [d]\<rparr>)"

definition save_rule :: "page_props \<Rightarrow> rule_page \<Rightarrow> rule_page" where
  "save_rule pp s =
     (let s1 = s\<lparr>pg_error := None\<rparr>; d = pg_draft s in
      case blocking d of
        i # is \<Rightarrow> goTo pp (i_section i) (s1\<lparr>pg_revealAll := True\<rparr>)
      | [] \<Rightarrow>
          (case validateDraft d of
             Some problem \<Rightarrow> s1\<lparr>pg_error := Some problem\<rparr>
           | None \<Rightarrow>
               (case pp_existing pp of
                  Some (name, True) \<Rightarrow> s1\<lparr>pg_asking := Some d\<rparr>
                | _ \<Rightarrow> send_draft d s1)))"

definition answer_confirm :: "bool \<Rightarrow> rule_page \<Rightarrow> rule_page" where
  "answer_confirm ok s =
     (case pg_asking s of
        None \<Rightarrow> s
      | Some d \<Rightarrow>
          if ok then send_draft d (s\<lparr>pg_asking := None, pg_yes := pg_yes s + 1\<rparr>) else s\<lparr>pg_asking := None\<rparr>)"

definition landed :: "nat \<Rightarrow> 'a list \<Rightarrow> 'a list" where
  "landed j xs = take j xs @ drop (Suc j) xs"

definition save_replied :: "nat \<Rightarrow> string option \<Rightarrow> rule_page \<Rightarrow> rule_page" where
  "save_replied j failure s =
     (let s1 = s\<lparr>pg_flights := landed j (pg_flights s), pg_submitting := False\<rparr> in
      case failure of
        None \<Rightarrow> s1\<lparr>pg_baseline := pg_flights s ! j\<rparr>
      | Some message \<Rightarrow> s1\<lparr>pg_error := Some message\<rparr>)"

text \<open>The toast's detail on a saved rule, from its newest version.\<close>

definition change_detail :: "string list \<Rightarrow> string" where
  "change_detail lines =
     nat_text (length lines) @ '' change'' @ (if length lines = 1 then '''' else ''s'') @ '': '' @ join ''; '' lines"

definition submit_disabled :: "(rule_draft \<Rightarrow> string) \<Rightarrow> page_props \<Rightarrow> rule_page \<Rightarrow> bool" where
  "submit_disabled key pp s \<longleftrightarrow> pg_submitting s \<or> \<not> wizard pp \<and> \<not> is_dirty key s"

definition handleSubmit :: "page_props \<Rightarrow> rule_page \<Rightarrow> rule_page" where
  "handleSubmit pp s = (if wizard pp \<and> pg_tab s \<noteq> Review_tab then next_step pp s else save_rule pp s)"

definition save_bar :: "(rule_draft \<Rightarrow> string) \<Rightarrow> page_props \<Rightarrow> rule_page \<Rightarrow> bool" where
  "save_bar key pp s \<longleftrightarrow>
     pg_tab s \<noteq> Activity_tab \<and>
     (wizard pp \<or> is_dirty key s \<or> pg_submitting s \<or> blocking (pg_draft s) \<noteq> [] \<or> pg_error s \<noteq> None)"

definition save_status :: "(rule_draft \<Rightarrow> string) \<Rightarrow> page_props \<Rightarrow> rule_page \<Rightarrow> string" where
  "save_status key pp s =
     (if pg_submitting s then ''Saving'' @ ellipsis else if wizard pp then ''Not created yet''
      else if is_dirty key s then ''Unsaved changes'' else ''All changes saved'')"

section \<open>Edits\<close>

text \<open>What an edit opens: the sheet of the form's row, or the selection on the rung.\<close>

fun opens_if :: "string \<Rightarrow> string \<Rightarrow> rule_edit \<Rightarrow> string option \<Rightarrow> string option" where
  "opens_if i j Add_first o1 = Some i"
| "opens_if i j (Add_contact t op) o1 = Some i"
| "opens_if i j (Add_group t op) o1 = Some j"
| "opens_if i j (Remove_node n) o1 = None"
| "opens_if i j e o1 = o1"

fun opens_then :: "string \<Rightarrow> rule_edit \<Rightarrow> string option \<Rightarrow> string option" where
  "opens_then i (Add_action kind) o1 = Some i"
| "opens_then i (Remove_action a) o1 = None"
| "opens_then i e o1 = o1"

fun selects :: "string \<Rightarrow> rule_edit \<Rightarrow> selection \<Rightarrow> selection" where
  "selects i Add_series sel = Sel_node i"
| "selects i (Add_contact t op) sel = Sel_node i"
| "selects i (Add_action kind) sel = Sel_action i"
| "selects i (Remove_node n) sel = Sel_nothing"
| "selects i (Remove_coil j) sel = Sel_nothing"
| "selects i e sel = sel"

definition form_edit :: "(nat \<Rightarrow> string) \<Rightarrow> rule_catalog \<Rightarrow> rule_edit \<Rightarrow> rule_page \<Rightarrow> rule_page" where
  "form_edit gen cat e s =
     (let k = snd (pg_edited s) in
      s\<lparr>pg_edited := apply_edit gen cat e (pg_edited s), pg_if_open := opens_if (gen k) (gen (k + 1)) e (pg_if_open s),
        pg_then_open := opens_then (gen k) e (pg_then_open s)\<rparr>)"

definition ladder_edit :: "(nat \<Rightarrow> string) \<Rightarrow> rule_catalog \<Rightarrow> rule_edit \<Rightarrow> rule_page \<Rightarrow> rule_page" where
  "ladder_edit gen cat e s =
     s\<lparr>pg_edited := apply_edit gen cat e (pg_edited s),
       pg_selection := selects (gen (snd (pg_edited s))) e (liveSelection (pg_draft s) (pg_selection s))\<rparr>"

text \<open>The workspace's time zone arrives: a new rule that is not on a schedule takes it.\<close>

definition zoned :: "string \<Rightarrow> rule_draft \<Rightarrow> rule_draft" where
  "zoned timezone d = (if w_type (d_when d) = ScheduleT then d else d\<lparr>d_when := (d_when d)\<lparr>w_timezone := timezone\<rparr>\<rparr>)"

definition got_timezone :: "page_props \<Rightarrow> string \<Rightarrow> rule_page \<Rightarrow> rule_page" where
  "got_timezone pp timezone s =
     (if \<not> wizard pp \<or> timezone = [] then s
      else s\<lparr>pg_edited := (zoned timezone (pg_draft s), snd (pg_edited s)), pg_baseline := zoned timezone (pg_baseline s)\<rparr>)"

section \<open>Steps\<close>

datatype page_event =
    Pick_tab rule_tab
  | Press_back
  | Press_next
  | Press_submit
  | Press_save_key
  | Answer bool
  | Reply nat "string option"
  | Discard
  | Pick_mode editor_mode
  | Pick_element selection
  | Open_full
  | Press_to_fix
  | Form_edit rule_edit
  | Ladder_edit rule_edit
  | Timezone string

fun page_offers :: "(rule_draft \<Rightarrow> string) \<Rightarrow> rule_catalog \<Rightarrow> page_props \<Rightarrow> rule_page \<Rightarrow> page_event \<Rightarrow> bool" where
  "page_offers key cat pp s (Pick_tab t) = (pg_asking s = None \<and> \<not> wizard pp \<and> t \<in> set (page_tabs pp (pg_draft s)))"
| "page_offers key cat pp s Press_back = (wizard pp \<and> 0 < stepIndex pp s)"
| "page_offers key cat pp s Press_next = (wizard pp \<and> stepIndex pp s < length (page_tabs pp (pg_draft s)) - 1)"
| "page_offers key cat pp s Press_submit = (pg_asking s = None \<and> \<not> submit_disabled key pp s)"
| "page_offers key cat pp s Press_save_key = (pg_asking s = None)"
| "page_offers key cat pp s (Answer ok) = (pg_asking s \<noteq> None)"
| "page_offers key cat pp s (Reply j failure) = (j < length (pg_flights s))"
| "page_offers key cat pp s Discard = (pg_asking s = None \<and> \<not> wizard pp \<and> is_dirty key s \<and> \<not> pg_submitting s)"
| "page_offers key cat pp s (Pick_mode m) = (pg_asking s = None)"
| "page_offers key cat pp s (Pick_element sel) = (pg_asking s = None \<and> pg_mode s = Ladder_mode)"
| "page_offers key cat pp s Open_full = (pg_asking s = None)"
| "page_offers key cat pp s Press_to_fix = (pg_asking s = None \<and> shown_issues pp s \<noteq> [])"
| "page_offers key cat pp s (Form_edit e) = (pg_asking s = None \<and> edit_offers cat (pg_draft s) e)"
| "page_offers key cat pp s (Ladder_edit e) = (pg_asking s = None \<and> pg_mode s = Ladder_mode \<and> edit_offers cat (pg_draft s) e)"
| "page_offers key cat pp s (Timezone timezone) = True"

fun page_does :: "(nat \<Rightarrow> string) \<Rightarrow> rule_catalog \<Rightarrow> page_props \<Rightarrow> page_event \<Rightarrow> rule_page \<Rightarrow> rule_page" where
  "page_does gen cat pp (Pick_tab t) s = setTab pp t s"
| "page_does gen cat pp Press_back s = setTab pp (page_tabs pp (pg_draft s) ! (stepIndex pp s - 1)) s"
| "page_does gen cat pp Press_next s = next_step pp s"
| "page_does gen cat pp Press_submit s = handleSubmit pp s"
| "page_does gen cat pp Press_save_key s = save_rule pp s"
| "page_does gen cat pp (Answer ok) s = answer_confirm ok s"
| "page_does gen cat pp (Reply j failure) s = save_replied j failure s"
| "page_does gen cat pp Discard s = s\<lparr>pg_edited := (pg_baseline s, snd (pg_edited s))\<rparr>"
| "page_does gen cat pp (Pick_mode m) s = s\<lparr>pg_mode := m\<rparr>"
| "page_does gen cat pp (Pick_element sel) s = pickOnRung pp sel s"
| "page_does gen cat pp Open_full s = setTab pp If_tab (s\<lparr>pg_mode := Form_mode\<rparr>)"
| "page_does gen cat pp Press_to_fix s = goTo pp (i_section (hd (shown_issues pp s))) s"
| "page_does gen cat pp (Form_edit e) s = form_edit gen cat e s"
| "page_does gen cat pp (Ladder_edit e) s = ladder_edit gen cat e s"
| "page_does gen cat pp (Timezone timezone) s = got_timezone pp timezone s"

inductive page_step ::
  "(nat \<Rightarrow> string) \<Rightarrow> (rule_draft \<Rightarrow> string) \<Rightarrow> rule_catalog \<Rightarrow> page_props \<Rightarrow> rule_page \<Rightarrow> rule_page \<Rightarrow> bool"
  for gen key cat pp where
  "page_offers key cat pp s e \<Longrightarrow> page_step gen key cat pp s (settle pp (page_does gen cat pp e s))"

inductive_simps page_step_simps: "page_step gen key cat pp s s'"

section \<open>The open tab\<close>

lemma find_index_mem: "x \<in> set xs \<Longrightarrow> \<exists>i. find_index (\<lambda>y. y = x) xs = Some i \<and> i < length xs \<and> xs ! i = x"
  by (cases "find_index (\<lambda>y. y = x) xs") (auto simp: find_index_None dest: find_index_Some)

lemma stepIndex_bound: "page_tabs pp (pg_draft s) \<noteq> [] \<Longrightarrow> stepIndex pp s < length (page_tabs pp (pg_draft s))"
  by (auto simp: stepIndex_def split: option.split dest: find_index_Some)

lemma page_tabs_not_Nil [simp]: "page_tabs pp d \<noteq> []"
  by (simp add: page_tabs_def)

lemma fixed_tabs [simp]: "When_tab \<in> set (page_tabs pp d)" "If_tab \<in> set (page_tabs pp d)" "Then_tab \<in> set (page_tabs pp d)"
  by (simp_all add: page_tabs_def)

lemma tabOf_exists [simp]: "tabOf pp d section \<in> set (page_tabs pp d)"
  by (cases "section") (simp_all add: tabOf_def page_tabs_def)

text \<open>Only Behaviour comes and goes with the draft.\<close>

lemma tab_stays: "t \<in> set (page_tabs pp d) \<Longrightarrow> t \<noteq> Behaviour_tab \<Longrightarrow> t \<in> set (page_tabs pp d')"
  by (auto simp: page_tabs_def split: if_splits)

lemma behaviour_tab_iff: "Behaviour_tab \<in> set (page_tabs pp d) \<longleftrightarrow> isReadingRule d"
  by (simp add: page_tabs_def)

lemma review_last: "wizard pp \<Longrightarrow> \<exists>ts. page_tabs pp d = ts @ [Review_tab] \<and> Review_tab \<notin> set ts"
  by (auto simp: page_tabs_def)

lemma next_exists:
  assumes "wizard pp" "pg_tab s \<in> set (page_tabs pp (pg_draft s))" "pg_tab s \<noteq> Review_tab"
  shows "stepIndex pp s + 1 < length (page_tabs pp (pg_draft s))"
proof -
  obtain ts where ts: "page_tabs pp (pg_draft s) = ts @ [Review_tab]" using review_last [OF assms(1)] by blast
  obtain i where i: "find_index (\<lambda>t. t = pg_tab s) (page_tabs pp (pg_draft s)) = Some i" "i < length (page_tabs pp (pg_draft s))"
    "page_tabs pp (pg_draft s) ! i = pg_tab s"
    using find_index_mem [OF assms(2)] by blast
  have "i \<noteq> length ts" using i(3) assms(3) ts by auto
  with i ts show ?thesis by (simp add: stepIndex_def)
qed

lemma setTab_fields [simp]:
  "pg_tab (setTab pp t s) = t" "pg_edited (setTab pp t s) = pg_edited s" "pg_baseline (setTab pp t s) = pg_baseline s"
  "pg_asking (setTab pp t s) = pg_asking s" "pg_flights (setTab pp t s) = pg_flights s" "pg_sent (setTab pp t s) = pg_sent s"
  "pg_yes (setTab pp t s) = pg_yes s" "pg_revealAll (setTab pp t s) = pg_revealAll s" "pg_error (setTab pp t s) = pg_error s"
  "pg_submitting (setTab pp t s) = pg_submitting s" "t \<in> set (pg_visited (setTab pp t s))"
  by (simp_all add: setTab_def)

lemma goTo_fields [simp]:
  "pg_tab (goTo pp x s) = tabOf pp (pg_draft s) x" "pg_edited (goTo pp x s) = pg_edited s" "pg_baseline (goTo pp x s) = pg_baseline s"
  "pg_asking (goTo pp x s) = pg_asking s" "pg_flights (goTo pp x s) = pg_flights s" "pg_sent (goTo pp x s) = pg_sent s"
  "pg_yes (goTo pp x s) = pg_yes s" "pg_revealAll (goTo pp x s) = pg_revealAll s" "pg_error (goTo pp x s) = pg_error s"
  "pg_submitting (goTo pp x s) = pg_submitting s"
  by (simp_all add: goTo_def Let_def)

text \<open>Opening a tab is kept in the URL of a saved rule: a reload opens the same one.\<close>

lemma tab_in_url:
  assumes "\<not> wizard pp" "t \<in> set (page_tabs pp d)"
  shows "url_tab pp d (pg_url (setTab pp t s)) = t"
  using assms
  by (cases t) (simp_all add: url_tab_def setTab_def defaultTab_def name_of_tab_def tab_names_def named_tab_def OLD_TABS_def)

section \<open>The invariant\<close>

text \<open>A draft that may be sent, and that needs a yes first.\<close>

definition passes :: "rule_draft \<Rightarrow> bool" where
  "passes d \<longleftrightarrow> blocking d = [] \<and> validateDraft d = None"

definition asks_first :: "page_props \<Rightarrow> bool" where
  "asks_first pp \<longleftrightarrow> (case pp_existing pp of Some (name, en) \<Rightarrow> en | None \<Rightarrow> False)"

definition data_ok :: "(nat \<Rightarrow> string) \<Rightarrow> page_props \<Rightarrow> rule_page \<Rightarrow> bool" where
  "data_ok gen pp s \<longleftrightarrow>
     sound_draft gen (pg_edited s) \<and>
     (\<forall>d\<in>insert (pg_baseline s) (set (pg_flights s) \<union> set_option (pg_asking s)). sound_draft gen (d, snd (pg_edited s))) \<and>
     (\<forall>d\<in>set (pg_sent s) \<union> set_option (pg_asking s). passes d) \<and>
     (asks_first pp \<longrightarrow> length (pg_sent s) \<le> pg_yes s)"

definition tab_ok :: "page_props \<Rightarrow> rule_page \<Rightarrow> bool" where
  "tab_ok pp s \<longleftrightarrow> pg_tab s \<in> set (page_tabs pp (pg_draft s))"

definition page_ok :: "(nat \<Rightarrow> string) \<Rightarrow> page_props \<Rightarrow> rule_page \<Rightarrow> bool" where
  "page_ok gen pp s \<longleftrightarrow> data_ok gen pp s \<and> tab_ok pp s"

text \<open>Two pages with the same data.\<close>

definition same_data :: "rule_page \<Rightarrow> rule_page \<Rightarrow> bool" where
  "same_data s s' \<longleftrightarrow>
     pg_edited s' = pg_edited s \<and> pg_baseline s' = pg_baseline s \<and> pg_asking s' = pg_asking s \<and>
     pg_flights s' = pg_flights s \<and> pg_sent s' = pg_sent s \<and> pg_yes s' = pg_yes s"

lemma data_same: "same_data s s' \<Longrightarrow> data_ok gen pp s' = data_ok gen pp s"
  by (simp add: same_data_def data_ok_def)

lemma moves_same_data [simp]:
  "same_data s (setTab pp t s)" "same_data s (goTo pp x s)" "same_data s (next_step pp s)" "same_data s (pickOnRung pp sel s)"
  "same_data s (settle pp s)"
  by (simp_all add: same_data_def next_step_def pickOnRung_def settle_def split: selection.split)

lemma settle_tab: "tab_ok pp s \<or> pg_tab s = Behaviour_tab \<Longrightarrow> tab_ok pp (settle pp s)"
  by (auto simp: tab_ok_def settle_def behaviour_tab_iff)

text \<open>An event that leaves the tab alone may only take Behaviour away.\<close>

lemma same_tab_settles: "tab_ok pp s \<Longrightarrow> pg_tab s' = pg_tab s \<Longrightarrow> tab_ok pp (settle pp s')"
  by (rule settle_tab) (auto simp: tab_ok_def dest: tab_stays)

lemma send_data:
  assumes "data_ok gen pp s" "sound_draft gen (d, snd (pg_edited s))" "passes d" "asks_first pp \<Longrightarrow> length (pg_sent s) < pg_yes s"
  shows "data_ok gen pp (send_draft d s)"
  using assms by (auto simp: data_ok_def send_draft_def split: option.split)

lemma send_tab [simp]: "pg_tab (send_draft d s) = pg_tab s"
  by (simp add: send_draft_def split: option.split)

lemma save_cases:
  obtains (refused) i "is" where "blocking (pg_draft s) = i # is" "save_rule pp s = goTo pp (i_section i) (s\<lparr>pg_error := None, pg_revealAll := True\<rparr>)"
  | (invalid) problem where "save_rule pp s = s\<lparr>pg_error := Some problem\<rparr>"
  | (asked) "passes (pg_draft s)" "save_rule pp s = s\<lparr>pg_error := None, pg_asking := Some (pg_draft s)\<rparr>"
  | (sent) "passes (pg_draft s)" "\<not> asks_first pp" "save_rule pp s = send_draft (pg_draft s) (s\<lparr>pg_error := None\<rparr>)"
proof (cases "blocking (pg_draft s)")
  case (Cons i "is")
  then show ?thesis using refused by (simp add: save_rule_def Let_def)
next
  case Nil
  show ?thesis
  proof (cases "validateDraft (pg_draft s)")
    case (Some problem)
    then show ?thesis using invalid Nil by (simp add: save_rule_def Let_def)
  next
    case None
    then have p: "passes (pg_draft s)" using Nil by (simp add: passes_def)
    show ?thesis
    proof (cases "asks_first pp")
      case True
      then obtain name where "pp_existing pp = Some (name, True)" by (auto simp: asks_first_def split: option.splits)
      then show ?thesis using asked p Nil None by (simp add: save_rule_def Let_def)
    next
      case False
      then show ?thesis using sent p Nil None by (auto simp: save_rule_def Let_def asks_first_def split: option.splits bool.splits)
    qed
  qed
qed

lemma save_ok:
  assumes "page_ok gen pp s"
  shows "data_ok gen pp (save_rule pp s) \<and> tab_ok pp (save_rule pp s)"
proof -
  have d: "data_ok gen pp s" and t: "tab_ok pp s" using assms by (simp_all add: page_ok_def)
  have e: "data_ok gen pp (s\<lparr>pg_error := x\<rparr>)" for x using d by (simp add: data_ok_def)
  show ?thesis
  proof (cases rule: save_cases [of s pp])
    case (refused i "is")
    have "same_data s (save_rule pp s)" unfolding refused(2) by (simp add: same_data_def)
    then show ?thesis using data_same d refused(2) by (simp add: tab_ok_def)
  next
    case (sent)
    then show ?thesis using send_data [OF e] d t by (simp add: data_ok_def tab_ok_def send_draft_def split: option.split)
  qed (use d t in \<open>auto simp: data_ok_def tab_ok_def\<close>)
qed

lemma sound_later: "sound_draft gen (d, k) \<Longrightarrow> k \<le> k' \<Longrightarrow> sound_draft gen (d, k')"
  by (auto simp: sound_draft_def dest!: subsetD)

lemma ids_drawn: "snd s \<le> snd (apply_edit gen cat e s)"
  by (cases s; cases e)
     (simp_all add: addFirst_def addContact_def addGroup_def addSeriesAtEnd_def addAction_def split: option.split)

lemma edit_data:
  assumes "data_ok gen pp s" "inj gen" "edit_offers cat (pg_draft s) e" "pg_edited s' = apply_edit gen cat e (pg_edited s)"
    "pg_baseline s' = pg_baseline s" "pg_asking s' = pg_asking s" "pg_flights s' = pg_flights s" "pg_sent s' = pg_sent s" "pg_yes s' = pg_yes s"
  shows "data_ok gen pp s'"
  using assms(1,4-) sound_apply [OF _ assms(2,3)] sound_later [OF _ ids_drawn] by (auto simp: data_ok_def)

lemma zoned_sound: "sound_draft gen (d, k) \<Longrightarrow> sound_draft gen (zoned timezone d, k)"
  by (rule sound_same [where d = d]) (simp_all add: zoned_def)

lemma zoned_trigger [simp]: "isReadingRule (zoned timezone d) = isReadingRule d"
  by (simp add: zoned_def isReadingRule_def)

lemma answer_data: "data_ok gen pp s \<Longrightarrow> data_ok gen pp (answer_confirm ok s)"
proof (cases "pg_asking s")
  case (Some d)
  assume a: "data_ok gen pp s"
  show ?thesis
  proof (cases ok)
    case True
    have "data_ok gen pp (send_draft d (s\<lparr>pg_asking := None, pg_yes := pg_yes s + 1\<rparr>))"
      by (rule send_data) (use a Some in \<open>auto simp: data_ok_def\<close>)
    then show ?thesis by (simp add: answer_confirm_def Some True)
  qed (use a Some in \<open>simp add: answer_confirm_def data_ok_def\<close>)
qed (simp add: answer_confirm_def)

lemma reply_data:
  assumes "data_ok gen pp s" "j < length (pg_flights s)"
  shows "data_ok gen pp (save_replied j failure s)"
proof -
  have "set (landed j (pg_flights s)) \<subseteq> set (pg_flights s)" by (auto simp: landed_def dest: in_set_takeD in_set_dropD)
  moreover have "pg_flights s ! j \<in> set (pg_flights s)" using assms(2) by simp
  ultimately show ?thesis using assms(1) by (auto simp: data_ok_def save_replied_def Let_def split: option.split)
qed

text \<open>The tab after each event.\<close>

lemma event_tab:
  assumes "tab_ok pp s" "page_offers key cat pp s e"
  shows "tab_ok pp (settle pp (page_does gen cat pp e s))"
proof -
  have t: "pg_tab s \<in> set (page_tabs pp (pg_draft s))" using assms(1) by (simp add: tab_ok_def)
  have next_ok: "tab_ok pp (next_step pp s)" if "stepIndex pp s + 1 < length (page_tabs pp (pg_draft s))"
    using that t by (simp add: next_step_def tab_ok_def)
  show ?thesis
  proof (cases e)
    case Press_back
    then have "stepIndex pp s - 1 < length (page_tabs pp (pg_draft s))" using stepIndex_bound [of pp s] by simp
    then have "page_tabs pp (pg_draft s) ! (stepIndex pp s - 1) \<in> set (page_tabs pp (pg_draft s))" by (rule nth_mem)
    then show ?thesis using Press_back by (intro settle_tab) (simp add: tab_ok_def)
  next
    case Press_next
    then have "stepIndex pp s + 1 < length (page_tabs pp (pg_draft s))" using assms(2) by auto
    then show ?thesis using Press_next next_ok by (intro settle_tab) simp
  next
    case Press_submit
    show ?thesis
    proof (cases "wizard pp \<and> pg_tab s \<noteq> Review_tab")
      case True
      then show ?thesis using Press_submit next_ok next_exists [OF _ t] by (intro settle_tab) (simp add: handleSubmit_def)
    next
      case False
      have "tab_ok pp (save_rule pp s)"
        by (cases rule: save_cases [of s pp]) (use assms(1) in \<open>auto simp: tab_ok_def send_draft_def split: option.split\<close>)
      then show ?thesis using Press_submit False by (intro settle_tab) (auto simp: handleSubmit_def)
    qed
  next
    case Press_save_key
    have "tab_ok pp (save_rule pp s)"
      by (cases rule: save_cases [of s pp]) (use assms(1) in \<open>auto simp: tab_ok_def send_draft_def split: option.split\<close>)
    then show ?thesis using Press_save_key by (intro settle_tab) simp
  next
    case (Pick_element sel)
    then show ?thesis using t by (intro settle_tab) (auto simp: pickOnRung_def tab_ok_def split: selection.split)
  next
    case (Pick_tab t)
    then show ?thesis using assms(2) by (intro settle_tab) (simp add: tab_ok_def)
  next
    case Open_full
    then show ?thesis by (intro settle_tab) (simp add: tab_ok_def)
  next
    case Press_to_fix
    then show ?thesis by (intro settle_tab) (simp add: tab_ok_def)
  qed (rule same_tab_settles [OF assms(1)],
       simp add: form_edit_def ladder_edit_def answer_confirm_def save_replied_def got_timezone_def Let_def split: option.split)+
qed

lemma event_data:
  assumes "data_ok gen pp s" "tab_ok pp s" "inj gen" "page_offers key cat pp s e"
  shows "data_ok gen pp (page_does gen cat pp e s)"
proof -
  have sv: "data_ok gen pp (save_rule pp s)" using save_ok [of gen pp s] assms(1,2) by (simp add: page_ok_def)
  show ?thesis
  proof (cases e)
    case (Form_edit re)
    then show ?thesis using assms(4) by (auto intro!: edit_data [OF assms(1,3)] simp: form_edit_def Let_def)
  next
    case (Ladder_edit re)
    then show ?thesis using assms(4) by (auto intro!: edit_data [OF assms(1,3)] simp: ladder_edit_def)
  next
    case (Timezone timezone)
    then show ?thesis using assms(1) zoned_sound by (auto simp: got_timezone_def data_ok_def)
  next
    case Discard
    then show ?thesis using assms(1) by (simp add: data_ok_def)
  next
    case Open_full
    have "same_data s (setTab pp If_tab (s\<lparr>pg_mode := Form_mode\<rparr>))" by (simp add: same_data_def)
    then show ?thesis using Open_full data_same assms(1) by simp
  next
    case (Pick_mode m)
    then show ?thesis using assms(1) by (simp add: data_ok_def)
  qed (use assms sv answer_data reply_data data_same [OF moves_same_data(1)] data_same [OF moves_same_data(2)]
        data_same [OF moves_same_data(3)] data_same [OF moves_same_data(4)] in \<open>auto simp: handleSubmit_def\<close>)
qed

lemma step_keeps: "page_step gen key cat pp s s' \<Longrightarrow> inj gen \<Longrightarrow> page_ok gen pp s \<Longrightarrow> page_ok gen pp s'"
  by (auto simp: page_step_simps page_ok_def event_tab data_same [OF moves_same_data(5)] intro: event_data)

context id_supply begin

lemma page_session: "(page_step gen key cat pp)\<^sup>*\<^sup>* s s' \<Longrightarrow> page_ok gen pp s \<Longrightarrow> page_ok gen pp s'"
  by (induction rule: rtranclp_induct) (auto intro: step_keeps inj_gen)

end

lemma url_tab_exists [simp]: "url_tab pp d param \<in> set (page_tabs pp d)"
  by (auto simp: url_tab_def defaultTab_def split: option.split) (simp_all add: page_tabs_def)

lemma new_page_ok:
  "sound_draft gen start \<Longrightarrow> sound_draft gen (baseline, snd start) \<Longrightarrow> page_ok gen pp (new_page pp m param start baseline)"
  by (simp add: page_ok_def data_ok_def tab_ok_def new_page_def)

section \<open>Properties\<close>

text \<open>
  C16: whatever is pressed, edited, answered or received, in any order, the open tab is one the page
  has; the draft stays sound; every draft that was sent had no blocking problem and passes the
  validator; and over an enabled rule nothing is sent without a yes for it.
\<close>

theorem rule_page_safe:
  assumes "inj gen" "sound_draft gen start" "sound_draft gen (baseline, snd start)"
    "(page_step gen key cat pp)\<^sup>*\<^sup>* (new_page pp m param start baseline) s"
  shows "pg_tab s \<in> set (page_tabs pp (pg_draft s)) \<and> sound_draft gen (pg_edited s) \<and>
         (\<forall>d\<in>set (pg_sent s). blocking d = [] \<and> validateDraft d = None) \<and>
         (case pp_existing pp of Some (name, True) \<Rightarrow> length (pg_sent s) \<le> pg_yes s | _ \<Rightarrow> True)"
proof -
  have "page_ok gen pp s"
    using id_supply.page_session [OF id_supply.intro [OF assms(1)] assms(4) new_page_ok [OF assms(2,3)]] .
  then show ?thesis
    by (auto simp: page_ok_def tab_ok_def data_ok_def passes_def asks_first_def split: option.split bool.split)
qed

definition demo_page :: rule_page where
  "demo_page = new_page \<lparr>pp_existing = None, pp_activity = False\<rparr> Form_mode None
     (emptyDraft counted_id 0 ''dev'' ''UTC'') (fst (emptyDraft counted_id 0 ''dev'' ''UTC''))"

lemma rule_page_safe_witness:
  "let pp = \<lparr>pp_existing = None, pp_activity = False\<rparr> in
   pg_tab (settle pp (save_rule pp demo_page)) \<in> set (page_tabs pp (pg_draft (settle pp (save_rule pp demo_page))))"
proof -
  let ?pp = "\<lparr>pp_existing = None, pp_activity = False\<rparr>" and ?cat = "\<lparr>rc_devices = [], rc_templates = []\<rparr>"
  have "page_step counted_id d_name ?cat ?pp demo_page (settle ?pp (page_does counted_id ?cat ?pp Press_save_key demo_page))"
    by (rule page_step.intros) (simp add: demo_page_def new_page_def)
  then have "(page_step counted_id d_name ?cat ?pp)\<^sup>*\<^sup>* demo_page (settle ?pp (save_rule ?pp demo_page))" by simp
  then show ?thesis
    unfolding Let_def demo_page_def
    using rule_page_safe [OF counted_id_inj emptyDraft_sound [OF counted_id_inj]] emptyDraft_sound [OF counted_id_inj]
    by (metis prod.collapse)
qed

text \<open>
  C27: a refused save names the first problem and takes the author to it: nothing is sent or asked,
  every problem is shown from then on, and the tab that opens is the first problem's, one the page
  has, and stays open after the render.
\<close>

theorem refused_save_shows:
  assumes "blocking (pg_draft s) = i # is"
  shows "pg_sent (save_rule pp s) = pg_sent s \<and> pg_asking (save_rule pp s) = pg_asking s \<and>
         shown_issues pp (save_rule pp s) = i # is \<and>
         pg_tab (save_rule pp s) = tabOf pp (pg_draft s) (i_section i) \<and>
         pg_tab (save_rule pp s) \<in> set (page_tabs pp (pg_draft s)) \<and>
         settle pp (save_rule pp s) = save_rule pp s"
proof -
  have v: "save_rule pp s = goTo pp (i_section i) (s\<lparr>pg_error := None, pg_revealAll := True\<rparr>)"
    using assms by (simp add: save_rule_def Let_def)
  have "tabOf pp (pg_draft s) (i_section i) = Behaviour_tab \<Longrightarrow> isReadingRule (pg_draft s)"
    by (auto simp: tabOf_def split: rule_section.splits if_splits)
  then have "settle pp (save_rule pp s) = save_rule pp s" by (auto simp: v settle_def)
  then show ?thesis using assms by (simp add: v shown_issues_def)
qed

lemma empty_draft_blocked: "\<exists>i is. blocking (pg_draft demo_page) = i # is"
proof -
  have "validateDraft (pg_draft demo_page) \<noteq> None"
    by (simp add: demo_page_def new_page_def emptyDraft_def newId_def validateDraft_def contacts_opt_def contactProblem_def
        emptyContact_def Let_def)
  then have "gate_issues (pg_draft demo_page) \<noteq> []" by (simp add: gate_is_validator)
  then have "blocking (pg_draft demo_page) \<noteq> []" by (auto simp: gate_issues_def blocking_def filter_empty_conv)
  then show ?thesis by (cases "blocking (pg_draft demo_page)") auto
qed

lemma refused_save_shows_witness:
  "pg_sent (save_rule \<lparr>pp_existing = None, pp_activity = False\<rparr> demo_page) = []"
proof -
  obtain i "is" where b: "blocking (pg_draft demo_page) = i # is" using empty_draft_blocked by blast
  show ?thesis
    using refused_save_shows [OF b, of "\<lparr>pp_existing = None, pp_activity = False\<rparr>"] by (simp add: demo_page_def new_page_def)
qed

section \<open>The save key\<close>

text \<open>
  Only Review should create; the save key creates from any step, and twice when pressed twice before
  the reply.
\<close>

lemma save_key_creates:
  assumes "wizard pp" "passes (pg_draft s)"
  shows "\<exists>s1. save_rule pp s = s1 \<and> pg_sent s1 = pg_sent s @ [pg_draft s] \<and> pg_tab s1 = pg_tab s \<and>
           pg_sent (save_rule pp s1) = pg_sent s @ [pg_draft s, pg_draft s]"
proof -
  obtain q where "draftToRequest (pg_draft s) = Some q"
    using assms(2) all_some_total [of "d_actions (pg_draft s)" actionToApi] validated(2) actionToApi_total
    by (fastforce simp: passes_def draftToRequest_def Let_def)
  then show ?thesis
    using assms by (simp add: save_rule_def Let_def passes_def wizard_def send_draft_def)
qed

end
