(* ===== verification/Rung.thy ===== *)
theory Rung imports Rule_Fields begin

text \<open>
  The drawing of a rule as a rung (\<open>frontend/src/components/rules/ladder/LadderRung.tsx\<close>): what is
  written on it, where everything sits, the elements of the horizontal rung with their boxes, the
  vertical rung for narrow screens, the choice between the two and the arrow keys.  Lengths are
  pixels; a text's \<open>length\<close> counts UTF-16 units.  The lemmas show which elements can cover one
  another (the trigger's label and the minimum interval only), that all are inside the drawing when
  that label is, and that both drawings offer the same elements in the same order.
\<close>

section \<open>Texts\<close>

definition CELL_W :: nat where "CELL_W = 176"
definition ROW_H :: nat where "ROW_H = 78"
definition TOP :: nat where "TOP = 34"
definition RAIL_X :: nat where "RAIL_X = 10"
definition LEAD :: nat where "LEAD = 36"
definition TIMER_W :: nat where "TIMER_W = 92"
definition COIL_W :: nat where "COIL_W = 236"
definition CAPTION_H :: nat where "CAPTION_H = 26"

definition clip :: "string \<Rightarrow> nat \<Rightarrow> string" where
  "clip s most = (if most < utf16_length s then utf16_take (most - 1) s @ ellipsis else s)"

definition rowMid :: "nat \<Rightarrow> nat" where
  "rowMid row = TOP + row * ROW_H + ROW_H div 2"

definition triggerLabel :: "rule_draft \<Rightarrow> rule_catalog \<Rightarrow> string" where
  "triggerLabel d cat =
     (let w = d_when d in
      case w_type w of
        ScheduleT \<Rightarrow> [CHR 0xE2, CHR 0x8F, CHR 0xB1] @ '' '' @ w_cron w @
          (if w_timezone w \<noteq> [] \<and> w_timezone w \<noteq> ''UTC'' then '' '' @ w_timezone w else [])
      | ManualT \<Rightarrow> [CHR 0xE2, CHR 0x9C, CHR 0x8B] @ '' Run manually''
      | DeviceStatusT \<Rightarrow> [CHR 0xE2, CHR 0x8F, CHR 0xBB] @ '' '' @
          (case deviceNameById cat (w_statusDeviceId w) of Some n \<Rightarrow> n | None \<Rightarrow> ''device'') @ '' '' @
          (if w_transition w = Connected then ''connects'' else ''disconnects'')
      | _ \<Rightarrow> [CHR 0xE2, CHR 0x9A, CHR 0xA1] @ '' On reading'')"

definition OPERATOR_SYMBOL :: "string dict" where
  "OPERATOR_SYMBOL =
     [(''>'', ''>''), (''>='', [CHR 0xE2, CHR 0x89, CHR 0xA5]), (''<'', ''<''), (''<='', [CHR 0xE2, CHR 0x89, CHR 0xA4]),
      (''=='', ''=''), (''!='', [CHR 0xE2, CHR 0x89, CHR 0xA0]), (''between'', ''in''), (''not_between'', ''outside''),
      (''in'', [CHR 0xE2, CHR 0x88, CHR 0x88]), (''not_in'', [CHR 0xE2, CHR 0x88, CHR 0x89]), (''changed'', ''changes''),
      (''increased'', ''rises''), (''decreased'', ''falls'')]"

definition or_name :: "string option \<Rightarrow> string \<Rightarrow> string" where
  "or_name n d = (case n of Some s \<Rightarrow> s | None \<Rightarrow> d)"

definition rhs_label :: "rule_catalog \<Rightarrow> contact_draft \<Rightarrow> string" where
  "rhs_label cat c =
     (case operator_arity (c_operator c) of
        One_ar \<Rightarrow> if c_rhsKind c = MetricK
                  then or_name (deviceNameById cat (c_rhsDeviceId c)) ''?'' @ ''.'' @ or_else (c_rhsMetric c) ''?''
                  else number_text (c_value c)
      | Range_ar \<Rightarrow> number_text (c_low c) @ en_dash @ number_text (c_high c)
      | Set_ar \<Rightarrow> [CHR 0x7B] @ c_setText c @ [CHR 0x7D]
      | None_ar \<Rightarrow> [])"

text \<open>The two lines on a contact.\<close>

definition contactText :: "contact_draft \<Rightarrow> rule_catalog \<Rightarrow> string \<times> string" where
  "contactText c cat =
     (let metric = or_name (map_option cm_name (metricFor cat (c_deviceId c) (c_metric c))) (or_else (c_metric c) ''metric?'');
          device = or_name (deviceNameById cat (c_deviceId c)) ''device?''
      in if isBoolContact c cat then (metric, device)
         else (trim (metric @ '' '' @ or_name (dict_get OPERATOR_SYMBOL (c_operator c)) (c_operator c) @ '' '' @ rhs_label cat c),
               device))"

definition normally_closed :: "contact_draft \<Rightarrow> rule_catalog \<Rightarrow> bool" where
  "normally_closed c cat \<longleftrightarrow> isBoolContact c cat \<and> js_eq (c_value c) (Fin 0)"

definition latching :: "rule_draft \<Rightarrow> bool" where
  "latching d \<longleftrightarrow> isReadingRule d \<and> d_behaviour d = Latch"

definition coilGlyph :: "action_draft \<Rightarrow> rule_draft \<Rightarrow> string" where
  "coilGlyph a d =
     (if latching d then ''S''
      else case a of
        Actuator x \<Rightarrow> if canClear d \<and> a_revertOnClear x then [] else ''P''
      | Email m \<Rightarrow> [CHR 0xE2, CHR 0x9C, CHR 0x89]
      | Webhook h \<Rightarrow> [CHR 0xE2, CHR 0x87, CHR 0xA2]
      | Notification n \<Rightarrow> ''!'')"

record clear_coil =
  cc_id :: string
  cc_actionId :: "string option"
  cc_title :: string
  cc_detail :: string

text \<open>What an actuator is turned back to; \<open>String(v ?? d)\<close> of the template's on and off values.\<close>

definition back_text :: "rule_catalog \<Rightarrow> actuator_draft \<Rightarrow> string" where
  "back_text cat a =
     (case a_valueKind a of
        BooleanK \<Rightarrow>
          (let on = (case a_clearBool a of Some b \<Rightarrow> b | None \<Rightarrow> \<not> a_bool a) in
           text_or (Option.bind (actuatorFor cat (a_deviceId a) (a_actuator a)) (if on then ca_on_value else ca_off_value))
             (if on then ''ON'' else ''OFF''))
      | NumberK \<Rightarrow> number_text (a_clearNum a)
      | TextK \<Rightarrow> or_else (a_clearText a) ellipsis)"

definition revert_coil :: "rule_catalog \<Rightarrow> action_draft \<Rightarrow> clear_coil option" where
  "revert_coil cat act =
     (case act of
        Actuator a \<Rightarrow>
          if a_revertOnClear a
          then Some \<lparr>cc_id = ''clear-'' @ a_id a, cc_actionId = Some (a_id a),
                     cc_title = or_name (map_option ca_name (actuatorFor cat (a_deviceId a) (a_actuator a))) (or_else (a_actuator a) ''actuator'') @
                                '' = '' @ back_text cat a,
                     cc_detail = or_name (deviceNameById cat (a_deviceId a)) ''device''\<rparr>
          else None
      | _ \<Rightarrow> None)"

definition clearCoils :: "rule_draft \<Rightarrow> rule_catalog \<Rightarrow> clear_coil list" where
  "clearCoils d cat =
     (if \<not> canClear d \<or> d_behaviour d = Latch then []
      else somes (map (revert_coil cat) (d_actions d)) @
           (if d_clearNotify d
            then [\<lparr>cc_id = ''clear-notify'', cc_actionId = None, cc_title = ''Notify'', cc_detail = or_else (d_clearMessage d) ''condition cleared''\<rparr>]
            else []))"

section \<open>Where everything sits\<close>

record geometry =
  g_layout :: ladder_layout
  g_x0 :: nat
  g_condEnd :: nat
  g_plusX :: nat
  g_showTimer :: bool
  g_timerX :: nat
  g_busX :: nat
  g_rows :: nat
  g_coilX :: nat
  g_rightRail :: nat
  g_width :: nat
  g_height :: nat
  g_mainBottom :: nat
  g_clears :: "clear_coil list"
  g_clearTop :: nat
  g_resetTop :: nat

definition geometry_of :: "rule_draft \<Rightarrow> bool \<Rightarrow> rule_catalog \<Rightarrow> ladder_layout \<Rightarrow> geometry" where
  "geometry_of d interactive cat layout =
    (let x0 = RAIL_X + LEAD;
         condEnd = x0 + (if o_width layout = 0 then 24 else o_width layout * CELL_W);
         plusX = (if interactive then condEnd + 22 else condEnd);
         afterPlus = (if interactive then plusX + 22 else condEnd);
         showTimer = (isReadingRule d \<and> js_gt (d_forDuration d) (Fin 0));
         clears = clearCoils d cat;
         timerColumn = (showTimer \<or> clears \<noteq> [] \<and> js_gt (d_clearDelay d) (Fin 0));
         timerX = afterPlus + 8;
         busX = (if timerColumn then timerX + TIMER_W + 20 else afterPlus + 16);
         coilRows = max 1 (length (d_actions d)) + (if interactive then 1 else 0);
         rows = max (o_height layout) coilRows;
         coilX = busX + 40;
         rightRail = coilX + COIL_W;
         mainBottom = TOP + rows * ROW_H + 6;
         clearTop = mainBottom + CAPTION_H;
         clearH = (if clears \<noteq> [] then max 1 (length clears) * ROW_H else 0);
         resetTop = clearTop + clearH + (if clears \<noteq> [] then CAPTION_H else 0);
         resetH = (if latching d then ROW_H else 0)
     in \<lparr>g_layout = layout, g_x0 = x0, g_condEnd = condEnd, g_plusX = plusX, g_showTimer = showTimer, g_timerX = timerX,
         g_busX = busX, g_rows = rows, g_coilX = coilX, g_rightRail = rightRail, g_width = rightRail + RAIL_X,
         g_height = (if latching d then resetTop + resetH else if clears \<noteq> [] then clearTop + clearH else mainBottom) + 6,
         g_mainBottom = mainBottom, g_clears = clears, g_clearTop = clearTop, g_resetTop = resetTop\<rparr>)"

definition rungGeometry :: "rule_draft \<Rightarrow> bool \<Rightarrow> rule_catalog \<Rightarrow> geometry option" where
  "rungGeometry d interactive cat = map_option (geometry_of d interactive cat) (layoutCondition (d_condition d))"

section \<open>The horizontal rung\<close>

datatype rung_part =
    Trigger_part
  | Contact_part string
  | Plus_series
  | Hold_part
  | Interval_part
  | Action_part string
  | Plus_action
  | Clear_delay_part
  | Clear_part "string option"
  | Reset_part

text \<open>What pressing an element selects; the plus after the contacts adds one instead.\<close>

fun part_selects :: "rung_part \<Rightarrow> selection option" where
  "part_selects Trigger_part = Some Sel_when"
| "part_selects (Contact_part i) = Some (Sel_node i)"
| "part_selects Plus_series = None"
| "part_selects Hold_part = Some Sel_timing"
| "part_selects Interval_part = Some Sel_timing"
| "part_selects (Action_part i) = Some (Sel_action i)"
| "part_selects Plus_action = Some Sel_add"
| "part_selects Clear_delay_part = Some Sel_timing"
| "part_selects (Clear_part a) = Some (case a of Some i \<Rightarrow> Sel_action i | None \<Rightarrow> Sel_timing)"
| "part_selects Reset_part = Some Sel_timing"

record box =
  bx_x :: nat
  bx_y :: nat
  bx_w :: nat
  bx_h :: nat

definition coil_box :: "nat \<Rightarrow> nat \<Rightarrow> box" where
  "coil_box x y = \<lparr>bx_x = x - 6, bx_y = y - ROW_H div 2 + 6, bx_w = COIL_W - 4, bx_h = ROW_H - 12\<rparr>"

definition plus_box :: "nat \<Rightarrow> nat \<Rightarrow> box" where
  "plus_box x y = \<lparr>bx_x = x - 12, bx_y = y - 12, bx_w = 24, bx_h = 24\<rparr>"

definition timer_box :: "nat \<Rightarrow> nat \<Rightarrow> box" where
  "timer_box x y = \<lparr>bx_x = x, bx_y = y - 16, bx_w = TIMER_W, bx_h = 32\<rparr>"

definition contact_box :: "nat \<Rightarrow> ladder_contact \<Rightarrow> box" where
  "contact_box x0 p =
     \<lparr>bx_x = x0 + y_x p * CELL_W + 6, bx_y = rowMid (y_y p) - ROW_H div 2 + 4, bx_w = CELL_W - 12, bx_h = ROW_H - 8\<rparr>"

definition drawn_cell :: "rule_draft \<Rightarrow> ladder_contact \<Rightarrow> bool" where
  "drawn_cell d p \<longleftrightarrow> (case findNode (d_condition d) (y_id p) of Some (Contact c) \<Rightarrow> True | _ \<Rightarrow> False)"

definition contact_parts :: "rule_draft \<Rightarrow> geometry \<Rightarrow> (rung_part \<times> box) list" where
  "contact_parts d g =
     map (\<lambda>p. (Contact_part (y_id p), contact_box (g_x0 g) p)) (filter (drawn_cell d) (o_contacts (g_layout g)))"

definition middle_parts :: "rule_draft \<Rightarrow> bool \<Rightarrow> geometry \<Rightarrow> (rung_part \<times> box) list" where
  "middle_parts d interactive g =
     (if interactive then [(Plus_series, plus_box (g_plusX g) (rowMid 0))] else []) @
     (if g_showTimer g then [(Hold_part, timer_box (g_timerX g) (rowMid 0))] else [])"

definition action_parts :: "rule_draft \<Rightarrow> bool \<Rightarrow> geometry \<Rightarrow> (rung_part \<times> box) list" where
  "action_parts d interactive g =
     (if js_gt (d_cooldown d) (Fin 0) \<and> d_actions d \<noteq> []
      then [(Interval_part, \<lparr>bx_x = g_coilX g - 6, bx_y = TOP - 22, bx_w = 150, bx_h = 18\<rparr>)] else []) @
     map (\<lambda>(i, a). (Action_part (action_id a), coil_box (g_coilX g) (rowMid i))) (indexed (d_actions d)) @
     (if interactive then [(Plus_action, plus_box (g_coilX g + 18) (rowMid (length (d_actions d))))] else [])"

definition clear_parts :: "rule_draft \<Rightarrow> geometry \<Rightarrow> (rung_part \<times> box) list" where
  "clear_parts d g =
     (if g_clears g \<noteq> [] \<and> js_gt (d_clearDelay d) (Fin 0)
      then [(Clear_delay_part, timer_box (g_timerX g) (g_clearTop g + ROW_H div 2))] else []) @
     map (\<lambda>(i, c). (Clear_part (cc_actionId c), coil_box (g_coilX g) (g_clearTop g + i * ROW_H + ROW_H div 2)))
       (indexed (g_clears g))"

definition reset_parts :: "rule_draft \<Rightarrow> geometry \<Rightarrow> (rung_part \<times> box) list" where
  "reset_parts d g = (if latching d then [(Reset_part, coil_box (g_coilX g) (g_resetTop g + ROW_H div 2))] else [])"

text \<open>Every element in the order of the document; the first is the trigger, whose label is as wide as its text.\<close>

definition rung_body :: "rule_draft \<Rightarrow> bool \<Rightarrow> geometry \<Rightarrow> (rung_part \<times> box) list" where
  "rung_body d interactive g =
     contact_parts d g @ middle_parts d interactive g @ action_parts d interactive g @ clear_parts d g @ reset_parts d g"

definition trigger_width :: "string \<Rightarrow> rat" where
  "trigger_width label = max 140 (of_nat (utf16_length label) * (74 / 10) + 20)"

text \<open>The label's box in whole pixels: it reaches as far as the last one it touches.\<close>

definition trigger_box :: "string \<Rightarrow> box" where
  "trigger_box label = \<lparr>bx_x = RAIL_X - 4, bx_y = 2, bx_w = nat \<lceil>trigger_width label\<rceil>, bx_h = 24\<rparr>"

definition rung_parts :: "rule_draft \<Rightarrow> bool \<Rightarrow> rule_catalog \<Rightarrow> geometry \<Rightarrow> (rung_part \<times> box) list" where
  "rung_parts d interactive cat g = (Trigger_part, trigger_box (triggerLabel d cat)) # rung_body d interactive g"

section \<open>The vertical rung\<close>

datatype rung_item =
    Caption string
  | Item string string "string option" selection
  | Group_item string
  | Add_series_item
  | Add_action_item

fun node_items :: "rule_catalog \<Rightarrow> draft_node \<Rightarrow> rung_item list" where
  "node_items cat (Contact c) =
     [Item (if normally_closed c cat then ''[/]'' else ''[ ]'') (fst (contactText c cat)) (Some (snd (contactText c cat))) (Sel_node (c_id c))]"
| "node_items cat (Group i op cs) = Group_item (if op = And then ''ALL OF'' else ''ANY OF'') # concat (map (node_items cat) cs)"

text \<open>\<open>label.replace(/^\S+\s/, "")\<close>\<close>

definition after_word :: "string \<Rightarrow> string" where
  "after_word s =
     (let w = takeWhile (\<lambda>c. \<not> is_space c) s; r = dropWhile (\<lambda>c. \<not> is_space c) s in
      if w \<noteq> [] \<and> r \<noteq> [] then tl r else s)"

definition action_item :: "rule_draft \<Rightarrow> rule_catalog \<Rightarrow> action_draft \<Rightarrow> rung_item" where
  "action_item d cat a =
     Item (''('' @ or_else (coilGlyph a d) '' '' @ '')'') (fst (actionLabel cat a)) (Some (snd (actionLabel cat a))) (Sel_action (action_id a))"

definition clear_item :: "clear_coil \<Rightarrow> rung_item" where
  "clear_item c =
     Item (if cc_actionId c = None then ''(!)'' else ''(R)'') (cc_title c) (Some (cc_detail c))
       (case cc_actionId c of Some i \<Rightarrow> Sel_action i | None \<Rightarrow> Sel_timing)"

definition vertical_items :: "rule_draft \<Rightarrow> bool \<Rightarrow> rule_catalog \<Rightarrow> rung_item list" where
  "vertical_items d interactive cat =
     [Caption ''When'', Item [CHR 0xE2, CHR 0x9A, CHR 0xA1] (after_word (triggerLabel d cat)) None Sel_when] @
     (case d_condition d of None \<Rightarrow> [] | Some n \<Rightarrow> Caption ''If'' # node_items cat n) @
     (if interactive then [Add_series_item] else []) @
     (if isReadingRule d \<and> js_gt (d_forDuration d) (Fin 0)
      then [Item ''TON'' (''Hold '' @ number_text (d_forDuration d) @ '' s'') (Some ''the condition must stay true this long'') Sel_timing]
      else []) @
     [Caption (if js_gt (d_cooldown d) (Fin 0) \<and> d_actions d \<noteq> []
               then ''Then '' @ middle_dot @ '' at most every '' @ number_text (d_cooldown d) @ '' s'' else ''Then'')] @
     map (action_item d cat) (d_actions d) @
     (if interactive then [Add_action_item] else []) @
     (if clearCoils d cat \<noteq> []
      then [Caption ''Clear'',
            Item ''[/]'' ''Condition false''
              (if js_gt (d_clearDelay d) (Fin 0) then Some (''for '' @ number_text (d_clearDelay d) @ '' s (clear delay)'') else None) Sel_timing] @
           map clear_item (clearCoils d cat)
      else []) @
     (if latching d
      then [Caption ''Reset'', Item ''(R)'' ''Reset latch, by a person'' (Some ''then it fires again when true'') Sel_timing] else [])"

fun item_selects :: "rung_item \<Rightarrow> selection option" where
  "item_selects (Item glyph title sub sel) = Some sel"
| "item_selects Add_action_item = Some Sel_add"
| "item_selects x = None"

section \<open>Which one, and the keys\<close>

datatype rung_view = Full_rung | Scaled_rung | Vertical_rung

definition responsive :: "bool \<Rightarrow> rat option \<Rightarrow> nat \<Rightarrow> rung_view" where
  "responsive fit room need =
     (case room of
        None \<Rightarrow> Full_rung
      | Some r \<Rightarrow>
          if of_nat need \<le> r then Full_rung
          else if (if fit then 55 / 100 else 8 / 10) \<le> r / of_nat need then Scaled_rung else Vertical_rung)"

datatype move_key = Right_key | Down_key | Left_key | Up_key | Home_key | End_key

text \<open>The element that gets the focus, of \<open>n\<close>; the focused one's place is None where it is none of them.\<close>

definition rovingKeys :: "move_key \<Rightarrow> nat \<Rightarrow> nat option \<Rightarrow> nat option" where
  "rovingKeys key n at_now =
     (if at_now = None \<and> key \<noteq> Home_key \<and> key \<noteq> End_key then None
      else let i = (case at_now of Some i \<Rightarrow> i | None \<Rightarrow> 0);
               to = (case key of
                   Home_key \<Rightarrow> 0
                 | End_key \<Rightarrow> n - 1
                 | Right_key \<Rightarrow> min (i + 1) (n - 1)
                 | Down_key \<Rightarrow> min (i + 1) (n - 1)
                 | _ \<Rightarrow> i - 1)
           in if to < n then Some to else None)"

end
