(* ===== verification/Rule_Words.thy ===== *)
theory Rule_Words imports Rule_Edits Rung Readings begin

text \<open>
  A rule in words: the sentence of a stored rule (\<open>components/rules/RuleSummary.tsx\<close>), the editable
  sentence of a draft with the editors of its phrases (\<open>editor/EditableSentence.tsx\<close>), the
  preview of a draft (\<open>editor/RulePreview.tsx\<close>), a rule's record actions (\<open>useRuleActions.tsx\<close>,
  \<open>lib/rule-cache.ts\<close>), its versions, its firings and the failed deliveries.  Replies of the API
  are arguments.  The lemmas show that an edit of a phrase changes that phrase only and keeps a draft
  sound and valid, and where the words leave something out.
\<close>

section \<open>The sentence of a stored rule\<close>

datatype piece = Plain string | Bold string | Unfilled string

definition value_piece :: "string option \<Rightarrow> string \<Rightarrow> piece" where
  "value_piece placeholder s = (if placeholder = Some s then Unfilled s else Bold s)"

fun piece_text :: "piece \<Rightarrow> string" where
  "piece_text (Plain s) = s"
| "piece_text (Bold s) = s"
| "piece_text (Unfilled s) = s"

definition held :: "string option \<Rightarrow> string" where
  "held placeholder = (case placeholder of Some p \<Rightarrow> p | None \<Rightarrow> [])"

record summary_data =
  su_trigger :: json
  su_condition :: "condition option"
  su_actions :: "json list"
  su_clear_actions :: "json list"
  su_strategy :: "string option"
  su_hold :: "jsnum option"
  su_clear_delay :: "jsnum option"

definition RELEASE_WORDS :: "string dict" where
  "RELEASE_WORDS =
     [(''>'', ''falls to or below''), (''>='', ''drops below''), (''<'', ''reaches or exceeds''), (''<='', ''goes above'')]"

text \<open>\<open>a - b\<close> and \<open>a + b\<close>.\<close>

fun js_plus :: "jsnum \<Rightarrow> jsnum \<Rightarrow> jsnum" where
  "js_plus NaN b = NaN"
| "js_plus a NaN = NaN"
| "js_plus (Fin p) (Fin q) = Fin (p + q)"
| "js_plus (Fin p) b = b"
| "js_plus PosInf NegInf = NaN"
| "js_plus NegInf PosInf = NaN"
| "js_plus a b = a"

fun js_neg :: "jsnum \<Rightarrow> jsnum" where
  "js_neg NaN = NaN"
| "js_neg PosInf = NegInf"
| "js_neg NegInf = PosInf"
| "js_neg (Fin q) = Fin (- q)"

text \<open>\<open>Number(v.toFixed(6))\<close>\<close>

definition six_places :: "jsnum \<Rightarrow> jsnum" where
  "six_places v = (case v of Fin q \<Rightarrow> to_number (toFixed q 6) | _ \<Rightarrow> v)"

definition releasePoint :: "condition option \<Rightarrow> (string \<times> string \<times> jsnum) option" where
  "releasePoint c =
     (case c of
        Some (CLeaf l) \<Rightarrow>
          (case (l_rhs l, dict_get RELEASE_WORDS (l_operator l)) of
             (Some (Static v), Some words) \<Rightarrow>
               let h = (case l_hysteresis l of Some h \<Rightarrow> h | None \<Rightarrow> Fin 0);
                   below = (l_operator l = ''>'' \<or> l_operator l = ''>='')
               in Some (l_metric l, words, six_places (if below then js_plus v (js_neg h) else js_plus v h))
           | _ \<Rightarrow> None)
      | _ \<Rightarrow> None)"

text \<open>\<open>parseAction\<close>: the value of a command may be missing.\<close>

datatype rule_action =
    Command_action string "json option"
  | Notification_action string
  | Webhook_action string json
  | Email_action "string list" string string

definition parseAction :: "json \<Rightarrow> rule_action option" where
  "parseAction a =
     (case (if has_type a ''actuator_command'' then as_str (field a ''actuator'') else None) of
        Some x \<Rightarrow> Some (Command_action x (field a ''value''))
      | None \<Rightarrow>
     (case (if has_type a ''notification'' then as_str (field a ''message'') else None) of
        Some m \<Rightarrow> Some (Notification_action m)
      | None \<Rightarrow>
     (case (if has_type a ''webhook'' then as_str (field a ''url'') else None) of
        Some u \<Rightarrow> Some (Webhook_action u (case field a ''body'' of None \<Rightarrow> JObj [] | Some JNull \<Rightarrow> JObj [] | Some b \<Rightarrow> b))
      | None \<Rightarrow>
     (case (if has_type a ''email'' then as_str (field a ''subject'') else None) of
        Some s \<Rightarrow> Some (Email_action (case as_arr (field a ''to'') of Some xs \<Rightarrow> map json_string xs | None \<Rightarrow> []) s (text_or (field a ''body'') ''''))
      | None \<Rightarrow> None))))"

definition leafPredicates :: "condition option \<Rightarrow> condition_leaf list" where
  "leafPredicates c = (case c of None \<Rightarrow> [] | Some n \<Rightarrow> leaves n)"

definition command_value :: "json option \<Rightarrow> string" where
  "command_value v = (case v of Some (JBool b) \<Rightarrow> if b then ''ON'' else ''OFF'' | _ \<Rightarrow> js_string v)"

definition action_pieces :: "string option \<Rightarrow> rule_action option \<Rightarrow> piece list" where
  "action_pieces placeholder a =
    (let val = value_piece placeholder; fill = (\<lambda>s. value_piece placeholder (or_else s (held placeholder))) in
     case a of
       Some (Command_action x v) \<Rightarrow> [Plain ''turn '', fill x, Plain '' '', val (command_value v)]
     | Some (Notification_action m) \<Rightarrow> [Plain (''send a notification: '' @ left_quote), fill m, Plain right_quote]
     | Some (Webhook_action u b) \<Rightarrow> [Plain ''call the webhook at '', fill u]
     | Some (Email_action to s b) \<Rightarrow> [Plain ''email '', val (if to \<noteq> [] then join '', '' to else ''the alert recipients'')]
     | None \<Rightarrow> [Plain ''do something unrecognized''])"

definition action_list :: "string option \<Rightarrow> json list \<Rightarrow> piece list" where
  "action_list placeholder as =
     (if as = [] then [value_piece placeholder (case placeholder of Some p \<Rightarrow> p | None \<Rightarrow> ''nothing'')]
      else concat (map (\<lambda>(i, a).
        (if i = 0 then [] else [Plain (if i = length as - 1 then '' and '' else '', '')]) @ action_pieces placeholder (parseAction a))
        (indexed as)))"

definition OPERATOR_WORDS :: "string dict" where
  "OPERATOR_WORDS =
     [(''>'', ''goes above''), (''>='', ''reaches or exceeds''), (''<'', ''drops below''), (''<='', ''falls to or below''),
      (''=='', ''equals''), (''!='', ''is different from''), (''between'', ''goes between''), (''not_between'', ''goes outside''),
      (''in'', ''is one of''), (''not_in'', ''is none of''), (''changed'', ''changes''), (''increased'', ''increases''),
      (''decreased'', ''decreases'')]"

definition CHANGE_OPERATORS :: "string list" where
  "CHANGE_OPERATORS = [''changed'', ''increased'', ''decreased'']"

definition rhs_pieces :: "string option \<Rightarrow> (string \<Rightarrow> string option) \<Rightarrow> rhs_spec option \<Rightarrow> piece list" where
  "rhs_pieces placeholder names rhs =
    (let val = value_piece placeholder in
     case rhs of
       None \<Rightarrow> []
     | Some (Static v) \<Rightarrow> [val (number_text v)]
     | Some (Range lo hi) \<Rightarrow> [val (number_text lo), Plain '' and '', val (number_text hi)]
     | Some (ValueSet vs) \<Rightarrow> [val (join '', '' (map number_text vs))]
     | Some (MetricRhs dev metric) \<Rightarrow> [val ((case names dev of Some n \<Rightarrow> n | None \<Rightarrow> dev) @ '' '' @ metric)])"

definition leaf_pieces :: "string option \<Rightarrow> (string \<Rightarrow> string option) \<Rightarrow> condition_leaf \<Rightarrow> piece list" where
  "leaf_pieces placeholder names l =
     [value_piece placeholder (or_else (l_metric l) (held placeholder)),
      Plain ('' '' @ (case dict_get OPERATOR_WORDS (l_operator l) of Some w \<Rightarrow> w | None \<Rightarrow> l_operator l))] @
     (if l_operator l \<in> set CHANGE_OPERATORS then [] else Plain '' '' # rhs_pieces placeholder names (l_rhs l))"

fun condition_pieces :: "string option \<Rightarrow> (string \<Rightarrow> string option) \<Rightarrow> bool \<Rightarrow> condition \<Rightarrow> piece list"
  and predicate_pieces :: "string option \<Rightarrow> (string \<Rightarrow> string option) \<Rightarrow> combinator \<Rightarrow> bool \<Rightarrow> condition list \<Rightarrow> piece list" where
  "condition_pieces placeholder names nested CNull = []"
| "condition_pieces placeholder names nested (CLeaf l) = leaf_pieces placeholder names l"
| "condition_pieces placeholder names nested (CGroup op ps) =
     (if nested then [Plain ''('' ] else []) @ predicate_pieces placeholder names op False ps @ (if nested then [Plain '')''] else [])"
| "predicate_pieces placeholder names op later [] = []"
| "predicate_pieces placeholder names op later (p # ps) =
     (if later then [Plain (if op = And then '' and '' else '' or '')] else []) @
     condition_pieces placeholder names True p @ predicate_pieces placeholder names op True ps"

definition capitalize :: "string \<Rightarrow> string" where
  "capitalize s = (case s of [] \<Rightarrow> [] | c # cs \<Rightarrow> upper_char c # cs)"

definition trigger_pieces :: "string option \<Rightarrow> (string \<Rightarrow> string option) \<Rightarrow> json \<Rightarrow> piece list" where
  "trigger_pieces placeholder names t =
     (if has_type t ''schedule'' then
        [value_piece placeholder (capitalize (cronHuman (text_or (field t ''cron'') ''''))),
         Plain ('' ('' @ tzCity (case as_str (field t ''timezone'') of Some z \<Rightarrow> z | None \<Rightarrow> ''UTC'') @ '')'')]
      else if has_type t ''manual'' then [Plain ''When run manually'']
      else if has_type t ''device_status'' then
        (let i = (case as_str (field t ''device_id'') of Some d \<Rightarrow> d | None \<Rightarrow> []);
             name = or_else (or_else (if i = [] then [] else case names i of Some n \<Rightarrow> n | None \<Rightarrow> []) (held placeholder)) ''a device''
         in [Plain ''When '', value_piece placeholder name,
             Plain (if as_str (field t ''transition'') = Some ''connected'' then '' connects'' else '' disconnects'')])
      else [])"

definition seconds_pieces :: "jsnum \<Rightarrow> piece list" where
  "seconds_pieces v = (if js_gt v (Fin 0) then [Plain '' for '', Bold (number_text v @ ''s'')] else [])"

definition num_or_zero :: "jsnum option \<Rightarrow> jsnum" where
  "num_or_zero v = (case v of Some n \<Rightarrow> n | None \<Rightarrow> Fin 0)"

definition clear_pieces :: "string option \<Rightarrow> summary_data \<Rightarrow> piece list" where
  "clear_pieces placeholder r =
     (if su_clear_actions r = [] then []
      else [Plain ''; when ''] @
        (case releasePoint (su_condition r) of
           Some (metric, words, v) \<Rightarrow> [value_piece placeholder metric, Plain ('' '' @ words @ '' ''), value_piece placeholder (number_text v)]
         | None \<Rightarrow> [Plain (''that'' @ [CHR 0x27] @ ''s no longer true'')]) @
        seconds_pieces (num_or_zero (su_clear_delay r)) @ [Plain '', ''] @ action_list placeholder (su_clear_actions r))"

definition summary_reading :: "summary_data \<Rightarrow> bool" where
  "summary_reading r \<longleftrightarrow> (case field (su_trigger r) ''type'' of None \<Rightarrow> True | Some JNull \<Rightarrow> True | Some t \<Rightarrow> t = JStr ''metric'')"

definition ruleSummary :: "string option \<Rightarrow> (string \<Rightarrow> string option) \<Rightarrow> summary_data \<Rightarrow> piece list" where
  "ruleSummary placeholder names r =
    (let reading = summary_reading r;
         cond = map_option (condition_pieces placeholder names False) (su_condition r)
     in (if reading
         then Plain ''When '' # (case cond of Some c \<Rightarrow> c
                | None \<Rightarrow> [value_piece placeholder (case placeholder of Some p \<Rightarrow> p | None \<Rightarrow> ellipsis)])
         else trigger_pieces placeholder names (su_trigger r) @ (case cond of Some c \<Rightarrow> Plain '', if '' # c | None \<Rightarrow> [])) @
        (if reading then seconds_pieces (num_or_zero (su_hold r)) else []) @
        [Plain '', ''] @ action_list placeholder (su_actions r) @
        (if reading \<and> su_strategy r = Some ''latch'' then [Plain '', then stay latched until reset''] else []) @
        clear_pieces placeholder r @ [Plain ''.''])"

section \<open>The editable sentence\<close>

definition ONE_VALUE_OPS :: "(string \<times> string) list" where
  "ONE_VALUE_OPS = filter (\<lambda>(op, label). dict_get OPERATOR_ARITY op = Some One_ar) OPERATORS"

text \<open>A phrase: words, or a chip with what it opens.\<close>

datatype chip_editor = Edits_contact contact_draft | Edits_actuator actuator_draft | Edits_hold jsnum | Opens_full
datatype phrase = Said string | Chip string chip_editor

fun replaceContact :: "contact_draft \<Rightarrow> draft_node \<Rightarrow> draft_node" where
  "replaceContact new (Contact c) = (if c_id c = c_id new then Contact new else Contact c)"
| "replaceContact new (Group i op cs) = Group i op (map (replaceContact new) cs)"

definition has_arity :: "contact_draft \<Rightarrow> bool" where
  "has_arity c \<longleftrightarrow> dict_get OPERATOR_ARITY (c_operator c) = Some One_ar"

definition simple_contact :: "contact_draft \<Rightarrow> bool" where
  "simple_contact c \<longleftrightarrow> has_arity c \<and> c_rhsKind c = StaticK"

definition contact_label :: "rule_catalog \<Rightarrow> contact_draft \<Rightarrow> string" where
  "contact_label cat c =
     or_name (map_option cm_name (metricFor cat (c_deviceId c) (c_metric c))) (or_else (c_metric c) ''a reading'') @ '' on '' @
     or_name (deviceNameById cat (c_deviceId c)) ''a device'' @ '' '' @ or_name (dict_get OPERATOR_SYMBOL (c_operator c)) (c_operator c) @
     (if has_arity c
      then '' '' @ (if c_rhsKind c = MetricK then ''another reading''
             else number_text (c_value c) @
               (case Option.bind (metricFor cat (c_deviceId c) (c_metric c)) cm_unit of
                  Some u \<Rightarrow> if u = [] then [] else '' '' @ u | None \<Rightarrow> []))
      else [])"

definition contact_phrase :: "rule_catalog \<Rightarrow> contact_draft \<Rightarrow> phrase" where
  "contact_phrase cat c = Chip (contact_label cat c) (if simple_contact c then Edits_contact c else Opens_full)"

fun condition_phrases :: "rule_catalog \<Rightarrow> draft_node \<Rightarrow> phrase list"
  and child_phrases :: "rule_catalog \<Rightarrow> combinator \<Rightarrow> bool \<Rightarrow> draft_node list \<Rightarrow> phrase list" where
  "condition_phrases cat (Contact c) = [contact_phrase cat c]"
| "condition_phrases cat (Group i op cs) = child_phrases cat op False cs"
| "child_phrases cat op later [] = []"
| "child_phrases cat op later (c # cs) =
     (if later then [Said (if op = And then '' and '' else '' or '')] else []) @
     (case c of Group i op' ds \<Rightarrow> [Said ''(''] @ condition_phrases cat c @ [Said '')''] | Contact x \<Rightarrow> condition_phrases cat c) @
     child_phrases cat op True cs"

definition actuator_name :: "rule_catalog \<Rightarrow> actuator_draft \<Rightarrow> string \<Rightarrow> string" where
  "actuator_name cat a fallback =
     or_name (map_option ca_name (actuatorFor cat (a_deviceId a) (a_actuator a))) (or_else (a_actuator a) fallback)"

definition action_phrase :: "rule_catalog \<Rightarrow> action_draft \<Rightarrow> phrase" where
  "action_phrase cat act =
     (case act of
        Actuator a \<Rightarrow>
          Chip (''turn '' @ actuator_name cat a ''an actuator'' @ '' '' @
                (case a_valueKind a of BooleanK \<Rightarrow> if a_bool a then ''on'' else ''off'' | NumberK \<Rightarrow> number_text (a_num a) | TextK \<Rightarrow> a_text a))
            (if a_valueKind a = BooleanK then Edits_actuator a else Opens_full)
      | Email m \<Rightarrow> Said ''send an email''
      | Webhook h \<Rightarrow> Said ''call a webhook''
      | Notification n \<Rightarrow> Said ''add a notification'')"

definition action_phrases :: "rule_catalog \<Rightarrow> action_draft list \<Rightarrow> phrase list" where
  "action_phrases cat as =
     concat (map (\<lambda>(i, a). (if 0 < i then [Said '', ''] else []) @ [action_phrase cat a]) (indexed as))"

definition revert_phrase :: "rule_catalog \<Rightarrow> action_draft \<Rightarrow> string option" where
  "revert_phrase cat act =
     (case act of
        Actuator a \<Rightarrow>
          if a_revertOnClear a
          then Some (''turn '' @ actuator_name cat a ''it'' @ '' back '' @
                 (case a_valueKind a of
                    BooleanK \<Rightarrow> if (case a_clearBool a of Some b \<Rightarrow> b | None \<Rightarrow> \<not> a_bool a) then ''on'' else ''off''
                  | NumberK \<Rightarrow> number_text (a_clearNum a) | TextK \<Rightarrow> a_clearText a))
          else None
      | _ \<Rightarrow> None)"

definition clear_phrase :: "rule_catalog \<Rightarrow> rule_draft \<Rightarrow> string option" where
  "clear_phrase cat d =
    (let reverts = (if canClear d then somes (map (revert_phrase cat) (d_actions d)) else []) @
           (if canClear d \<and> d_clearNotify d \<and> trim (d_clearMessage d) \<noteq> [] then [''add a notification''] else [])
     in if reverts = [] then None
        else Some (''when that'' @ [CHR 0x27] @ ''s no longer true'' @
               (if js_gt (d_clearDelay d) (Fin 0) then '' for '' @ number_text (d_clearDelay d) @ ''s'' else []) @ '', '' @ join '', '' reverts))"

definition when_phrases :: "rule_catalog \<Rightarrow> rule_draft \<Rightarrow> phrase list" where
  "when_phrases cat d =
    (let w = d_when d in
     case w_type w of
       ScheduleT \<Rightarrow> [Chip (cronHuman (w_cron w)) Opens_full]
     | DeviceStatusT \<Rightarrow> [Said (or_name (deviceNameById cat (w_statusDeviceId w)) ''a device'' @
                             (if w_transition w = Connected then '' connects'' else '' disconnects''))]
     | ManualT \<Rightarrow> [Said ''someone runs it'']
     | _ \<Rightarrow> (case d_condition d of None \<Rightarrow> [Said ellipsis] | Some n \<Rightarrow> condition_phrases cat n))"

definition editableSentence :: "rule_catalog \<Rightarrow> rule_draft \<Rightarrow> phrase list" where
  "editableSentence cat d =
     [Said ''When ''] @ when_phrases cat d @
     (if w_type (d_when d) = MetricT then [Said '' for '', Chip (number_text (d_forDuration d) @ '' s'') (Edits_hold (d_forDuration d))] else []) @
     [Said '', ''] @ (if d_actions d \<noteq> [] then action_phrases cat (d_actions d) else [Said ''do nothing yet'']) @
     (case clear_phrase cat d of None \<Rightarrow> [] | Some c \<Rightarrow> [Said (''; '' @ c)]) @ [Said ''.'']"

text \<open>What the editors of the phrases apply.\<close>

datatype sentence_edit =
    Apply_contact contact_draft string string
  | Apply_actuator actuator_draft bool
  | Apply_hold string

definition contact_ok :: "string \<Rightarrow> bool" where
  "contact_ok v \<longleftrightarrow> trim v \<noteq> [] \<and> is_finite (to_number v)"

definition hold_ok :: "string \<Rightarrow> bool" where
  "hold_ok v \<longleftrightarrow> is_integer (to_number v) \<and> js_ge (to_number v) (Fin 0)"

fun sentence_edited :: "sentence_edit \<Rightarrow> rule_draft \<Rightarrow> rule_draft" where
  "sentence_edited (Apply_contact c op v) d =
     (if contact_ok v
      then setCondition d (map_option (replaceContact (c\<lparr>c_operator := op, c_value := to_number v\<rparr>)) (d_condition d)) else d)"
| "sentence_edited (Apply_actuator a on) d =
     d\<lparr>d_actions := map (\<lambda>x. if action_id x = a_id a then Actuator (a\<lparr>a_bool := on\<rparr>) else x) (d_actions d)\<rparr>"
| "sentence_edited (Apply_hold v) d = (if hold_ok v then d\<lparr>d_forDuration := to_number v\<rparr> else d)"

text \<open>The chips of the sentence that open an editor.\<close>

fun sentence_offers :: "rule_catalog \<Rightarrow> rule_draft \<Rightarrow> sentence_edit \<Rightarrow> bool" where
  "sentence_offers cat d (Apply_contact c op v) =
     (Chip (contact_label cat c) (Edits_contact c) \<in> set (editableSentence cat d) \<and> op \<in> fst ` set ONE_VALUE_OPS)"
| "sentence_offers cat d (Apply_actuator a on) =
     (\<exists>x\<in>set (editableSentence cat d). case x of Chip l (Edits_actuator b) \<Rightarrow> b = a | _ \<Rightarrow> False)"
| "sentence_offers cat d (Apply_hold v) =
     (\<exists>x\<in>set (editableSentence cat d). case x of Chip l (Edits_hold n) \<Rightarrow> True | _ \<Rightarrow> False)"

section \<open>The preview\<close>

definition draftBody :: "rule_draft \<Rightarrow> rule_request option" where
  "draftBody d =
     (if validateDraft d \<noteq> None then None
      else map_option (\<lambda>q. q\<lparr>q_name := Some (or_else (case q_name q of Some n \<Rightarrow> n | None \<Rightarrow> []) ''Draft'')\<rparr>) (draftToRequest d))"

text \<open>The strip of 48 half hours; \<open>start\<close> is 24 hours before the render, a time that is no date marks none.\<close>

definition replay_cell :: "int \<Rightarrow> int \<Rightarrow> nat" where
  "replay_cell start t = nat (min 47 (max 0 ((t - start) div 1800000)))"

definition replayCells :: "int \<Rightarrow> int option list \<Rightarrow> bool list" where
  "replayCells start fired =
     foldl (\<lambda>cells t. case t of None \<Rightarrow> cells | Some ms \<Rightarrow> cells[replay_cell start ms := True]) (replicate 48 False) fired"

definition NOISY :: nat where "NOISY = 12"

definition replay_text :: "(string \<Rightarrow> string) \<Rightarrow> string list \<Rightarrow> string" where
  "replay_text hhmm fired =
     (if fired = [] then ''Wouldn'' @ [CHR 0x27] @ ''t have fired in the last 24 hours.''
      else ''Would have fired '' @ nat_text (length fired) @ [CHR 0xC3, CHR 0x97] @ '' at '' @ join '', '' (map hhmm (take 3 fired)) @
           (if 3 < length fired then ellipsis else []))"

text \<open>\<open>a !== b\<close> on a stored value and the draft's.\<close>

definition differs :: "json option \<Rightarrow> json \<Rightarrow> bool" where
  "differs v mine =
     (case (v, mine) of
        (Some (JNum m), JNum n) \<Rightarrow> \<not> js_eq m n
      | (Some (JBool b), JBool c) \<Rightarrow> b \<noteq> c
      | (Some (JStr x), JStr y) \<Rightarrow> x \<noteq> y
      | _ \<Rightarrow> True)"

record other_rule =
  or_rule :: string
  or_actuator :: string
  or_conflict :: bool

definition preview_targets :: "rule_draft \<Rightarrow> actuator_draft list" where
  "preview_targets d =
     somes (map (\<lambda>x. case x of Actuator a \<Rightarrow> if a_deviceId a \<noteq> [] \<and> a_actuator a \<noteq> [] then Some a else None | _ \<Rightarrow> None) (d_actions d))"

definition other_of :: "actuator_draft list \<Rightarrow> stored_rule \<Rightarrow> json \<Rightarrow> other_rule option" where
  "other_of targets r a =
     (if \<not> has_type a ''actuator_command'' then None
      else case List.find (\<lambda>t. field a ''device_id'' = Some (JStr (a_deviceId t)) \<and> field a ''actuator'' = Some (JStr (a_actuator t))) targets of
          None \<Rightarrow> None
        | Some hit \<Rightarrow> Some \<lparr>or_rule = sr_id r, or_actuator = js_string (field a ''actuator''), or_conflict = differs (field a ''value'') (actuatorValue hit)\<rparr>)"

definition other_rules :: "string option \<Rightarrow> stored_rule list \<Rightarrow> rule_draft \<Rightarrow> other_rule list" where
  "other_rules ruleId rules d =
     concat (map (\<lambda>r. somes (map (other_of (preview_targets d) r) (sr_actions r)))
       (filter (\<lambda>r. Some (sr_id r) \<noteq> ruleId \<and> sr_enabled r) rules))"

record signal =
  si_device :: string
  si_metric :: string
  si_label :: string

definition signal_key :: "string \<Rightarrow> string \<Rightarrow> string" where
  "signal_key device metric = device @ ''/'' @ metric"

definition preview_signals :: "rule_catalog \<Rightarrow> rule_draft \<Rightarrow> signal list" where
  "preview_signals cat d =
     map snd (foldl (\<lambda>seen c.
         if c_deviceId c = [] \<or> c_metric c = [] then seen
         else dict_set (signal_key (c_deviceId c) (c_metric c))
           \<lparr>si_device = c_deviceId c, si_metric = c_metric c,
            si_label = or_name (map_option cm_name (metricFor cat (c_deviceId c) (c_metric c))) (c_metric c) @ '' '' @ middle_dot @ '' '' @
                       or_name (deviceNameById cat (c_deviceId c)) ''device''\<rparr> seen)
       [] (contacts_opt (d_condition d)))"

text \<open>The overrides of "Try other values"; the key is split at every slash and its first two pieces are used.\<close>

definition overrides :: "string dict \<Rightarrow> (string \<times> string \<times> jsnum) list" where
  "overrides tries =
     somes (map (\<lambda>(k, v).
        if trim v \<noteq> [] \<and> is_finite (to_number v)
        then (case split_on CHR ''/'' k of device # metric # rest \<Rightarrow> Some (device, metric, to_number v) | _ \<Rightarrow> None)
        else None) tries)"

definition dry_run_text :: "(string \<times> string option \<times> string) list \<Rightarrow> bool \<Rightarrow> string" where
  "dry_run_text unavailable would_fire =
     (if unavailable \<noteq> []
      then ''Can'' @ [CHR 0x27] @ ''t tell now: '' @
           join ''; '' (map (\<lambda>(metric, device, state). metric @ '' on '' @ or_name device ''a device'' @ '' is '' @ state) unavailable) @
           ''. Unknown data never fires.''
      else if would_fire then ''It would fire right now.'' else ''It wouldn'' @ [CHR 0x27] @ ''t fire right now.'')"

section \<open>Record actions, versions and firings\<close>

text \<open>The menu's labels by group.\<close>

datatype menu_place = In_list | In_peek | On_page

definition rule_menu :: "bool \<Rightarrow> menu_place \<Rightarrow> bool \<Rightarrow> bool \<Rightarrow> string list list" where
  "rule_menu canWrite spot latched enabled =
    (let top_items = (case spot of In_list \<Rightarrow> [''Open''] | In_peek \<Rightarrow> [''Copy link''] | On_page \<Rightarrow> []) in
     if \<not> canWrite then (if top_items \<noteq> [] then [top_items] else [])
     else [top_items @ (if spot = On_page then [] else [''Run now'' @ ellipsis]) @
           (if latched then [''Reset latch'' @ ellipsis] else []) @ [''Duplicate'', if enabled then ''Disable'' else ''Enable''],
           [''Delete'' @ ellipsis]])"

text \<open>The copy a duplicate asks for; None where opening or sending the rule throws.\<close>

definition duplicate_request :: "(nat \<Rightarrow> string) \<Rightarrow> nat \<Rightarrow> rule_response \<Rightarrow> rule_request option" where
  "duplicate_request gen k r =
     (case draftFromRule gen k r of None \<Rightarrow> None
      | Some (d, k') \<Rightarrow> map_option (\<lambda>q. q\<lparr>q_name := Some (r_name r @ '' (copy)''), q_enabled := False\<rparr>) (draftToRequest d))"

definition reset_verdict :: "((string list) \<times> bool) option \<Rightarrow> string" where
  "reset_verdict sim =
     (case sim of
        None \<Rightarrow> ''We couldn'' @ [CHR 0x27] @ ''t check the current readings. If the condition still holds, it fires again after its hold time.''
      | Some (unavailable, would_fire) \<Rightarrow>
          if unavailable \<noteq> [] then ''It re-arms now. Some readings are missing or stale, so it can'' @ [CHR 0x27] @ ''t fire until they report.''
          else if would_fire then ''It re-arms now. Its condition is still true, so it fires again after its hold time.''
          else ''It re-arms now. Its condition is false now, so it won'' @ [CHR 0x27] @ ''t fire straight away.'')"

definition spaces_for :: "char \<Rightarrow> string \<Rightarrow> string" where
  "spaces_for x s = map (\<lambda>c. if c = x then CHR '' '' else c) s"

definition ACTION_TYPE_LABELS :: "string dict" where
  "ACTION_TYPE_LABELS =
     [(''actuator_command'', ''Actuator command''), (''webhook'', ''Webhook''), (''notification'', ''In-app notification''),
      (''email'', ''Email''), (''unknown'', ''Unknown'')]"

definition as_num :: "json option \<Rightarrow> jsnum option" where
  "as_num v = (case v of Some (JNum n) \<Rightarrow> Some n | _ \<Rightarrow> None)"

definition detailSummary :: "json option \<Rightarrow> string" where
  "detailSummary detail =
     (case detail of
        None \<Rightarrow> ''No details''
      | Some JNull \<Rightarrow> ''No details''
      | Some d \<Rightarrow>
          (case as_str (field d ''error'') of Some e \<Rightarrow> e
           | None \<Rightarrow> (case as_str (field d ''reason'') of Some r \<Rightarrow> spaces_for CHR ''_'' r
           | None \<Rightarrow> (case as_num (field d ''status_code'') of Some n \<Rightarrow> ''HTTP '' @ number_text n
           | None \<Rightarrow> stringify [] d))))"

definition RETRYABLE :: "string list" where "RETRYABLE = [''webhook'', ''email'']"

definition ACTION_WORD :: "string dict" where
  "ACTION_WORD =
     [(''actuator_command'', ''Command''), (''webhook'', ''Webhook''), (''notification'', ''Notification''), (''email'', ''Email'')]"

definition SOURCE_TAG :: "string dict" where
  "SOURCE_TAG = [(''schedule'', ''Scheduled''), (''manual'', ''Run now'')]"

definition action_outcome :: "string \<Rightarrow> json \<Rightarrow> string" where
  "action_outcome status d =
    (let code = as_num (field d ''status_code'') in
     if status = ''success'' then (case code of Some n \<Rightarrow> ''HTTP '' @ number_text n | None \<Rightarrow> ''sent'')
     else let reason = spaces_for CHR ''_'' (case field d ''error'' of Some e \<Rightarrow> if e = JNull then text_or (field d ''reason'') ''failed'' else json_string e
                                            | None \<Rightarrow> text_or (field d ''reason'') ''failed'')
          in (case code of Some n \<Rightarrow> ''HTTP '' @ number_text n @ '': '' @ reason | None \<Rightarrow> reason))"

text \<open>A version's title and second line; \<open>spot\<close> is its row on the page, newest first.\<close>

definition version_title :: "nat \<Rightarrow> nat \<Rightarrow> nat \<Rightarrow> string" where
  "version_title n spot page = ''Version '' @ nat_text n @ (if spot = 0 \<and> page = 1 then '' '' @ middle_dot @ '' current'' else [])"

definition version_line :: "string option \<Rightarrow> string \<Rightarrow> string list \<Rightarrow> string" where
  "version_line author whn lines = dotted [or_name author ''API key or removed member'', whn, join ''; '' lines]"

definition may_restore :: "bool \<Rightarrow> nat \<Rightarrow> nat \<Rightarrow> bool" where
  "may_restore canRestore spot page \<longleftrightarrow> (0 < spot \<or> 1 < page) \<and> canRestore"

section \<open>Edits of phrases\<close>

lemma replaceContact_update:
  "map_option (replaceContact new) t = updateContact t (c_id new) (\<lambda>c. if c_id c = c_id new then new else c)"
proof -
  have "replaceContact new n = mapNode (\<lambda>n. case n of
        Contact c \<Rightarrow> if c_id c = c_id new then Some (Contact (if c_id c = c_id new then new else c)) else None
      | Group g op cs \<Rightarrow> None) n" for n
    by (induction n) auto
  then show ?thesis by (cases t) (simp_all add: updateContact_def)
qed

lemma contacts_replace: "contacts (replaceContact new n) = map (\<lambda>c. if c_id c = c_id new then new else c) (contacts n)"
proof (induction n)
  case (Group i op cs)
  then have "map (\<lambda>c. contacts (replaceContact new c)) cs = map (\<lambda>c. map (\<lambda>x. if c_id x = c_id new then new else x) (contacts c)) cs" by simp
  then have "concat (map (\<lambda>c. contacts (replaceContact new c)) cs) = concat (map (\<lambda>c. map (\<lambda>x. if c_id x = c_id new then new else x) (contacts c)) cs)"
    by (simp only:)
  then show ?case by (simp add: map_concat comp_def)
qed simp

lemma chips_of_condition:
  "Chip l (Edits_contact c) \<in> set (condition_phrases cat n) \<Longrightarrow> c \<in> set (contacts n) \<and> simple_contact c"
  "Chip l (Edits_contact c) \<in> set (child_phrases cat op later cs) \<Longrightarrow> c \<in> set (concat (map contacts cs)) \<and> simple_contact c"
  by (induction cat n and cat op later cs rule: condition_phrases_child_phrases.induct)
     (auto simp: contact_phrase_def split: if_splits draft_node.splits)

lemma condition_chips_only: "Chip l e \<in> set (condition_phrases cat n) \<Longrightarrow> (\<exists>c. e = Edits_contact c) \<or> e = Opens_full"
  "Chip l e \<in> set (child_phrases cat op later cs) \<Longrightarrow> (\<exists>c. e = Edits_contact c) \<or> e = Opens_full"
  by (induction cat n and cat op later cs rule: condition_phrases_child_phrases.induct)
     (auto simp: contact_phrase_def split: if_splits draft_node.splits)

lemma condition_chip:
  "Chip l e \<in> set (condition_phrases cat n) \<Longrightarrow> e = Opens_full \<or> (\<exists>c\<in>set (contacts n). e = Edits_contact c \<and> simple_contact c)"
  using chips_of_condition(1) condition_chips_only(1) by metis

lemma when_chips:
  "Chip l e \<in> set (when_phrases cat d) \<Longrightarrow>
     e = Opens_full \<or> (\<exists>c\<in>set (contacts_opt (d_condition d)). e = Edits_contact c \<and> simple_contact c)"
  by (cases "w_type (d_when d)"; cases "d_condition d")
     (auto simp: when_phrases_def contacts_opt_def Let_def dest: condition_chip split: if_splits)

lemma action_chip: "Chip l e = action_phrase cat a \<Longrightarrow> e = Opens_full \<or> (\<exists>x. a = Actuator x \<and> e = Edits_actuator x)"
  by (cases a) (auto simp: action_phrase_def split: if_splits)

lemma action_chips:
  assumes "Chip l e \<in> set (action_phrases cat as)"
  shows "e = Opens_full \<or> (\<exists>a. Actuator a \<in> set as \<and> e = Edits_actuator a)"
proof -
  obtain a where "a \<in> set as" "Chip l e = action_phrase cat a"
    using assms by (force simp: action_phrases_def indexed_from_mem simp del: action_phrase_def split: if_splits)
  then show ?thesis using action_chip by metis
qed

lemma sentence_chips:
  assumes "Chip l e \<in> set (editableSentence cat d)"
  shows "e = Opens_full \<or> (\<exists>c\<in>set (contacts_opt (d_condition d)). e = Edits_contact c \<and> simple_contact c) \<or>
         (\<exists>a. Actuator a \<in> set (d_actions d) \<and> e = Edits_actuator a) \<or> e = Edits_hold (d_forDuration d)"
proof -
  have "Chip l e \<in> set (when_phrases cat d) \<or> Chip l e \<in> set (action_phrases cat (d_actions d)) \<or> e = Edits_hold (d_forDuration d)"
    using assms by (simp add: editableSentence_def split: if_splits option.splits) blast+
  then show ?thesis using when_chips [of l e cat d] action_chips [of l e cat "d_actions d"] by blast
qed

lemma sentence_sound:
  assumes "sound_draft gen (d, k)" "inj gen"
  shows "sound_draft gen (sentence_edited e d, k)"
proof (cases e)
  case (Apply_contact c op v)
  let ?new = "c\<lparr>c_operator := op, c_value := to_number v\<rparr>"
  let ?patch = "\<lambda>x. if c_id x = c_id ?new then ?new else x"
  have keep: "c_id (?patch x) = c_id x" for x by simp
  have "edit gen (d_condition d, k) (updateContact (d_condition d) (c_id ?new) ?patch, k)"
    by (rule edit.update) (rule keep)
  moreover have "grows gen (d_condition d, k) (updateContact (d_condition d) (c_id ?new) ?patch, k)"
    by (simp only: grows_subseq ids_updateContact [OF keep] subseq_order.refl)
  ultimately have "sound_draft gen (setCondition d (updateContact (d_condition d) (c_id ?new) ?patch), k)"
    by (rule sound_edit [OF assms])
  then show ?thesis using assms(1) unfolding Apply_contact sentence_edited.simps replaceContact_update by simp
next
  case (Apply_actuator a on)
  have "map action_id (d_actions (sentence_edited e d)) = map action_id (d_actions d)"
    by (simp add: Apply_actuator)
  then have "subseq (map action_id (d_actions (sentence_edited e d))) (map action_id (d_actions d))"
    by (simp only: subseq_order.refl)
  then show ?thesis by (rule sound_actions [OF assms(1)]) (simp add: Apply_actuator)
next
  case (Apply_hold v)
  then show ?thesis using sound_same [OF assms(1)] by simp
qed

text \<open>What the validator reads of a draft.\<close>

lemma validate_by_parts:
  assumes "validateDraft d = None" "d_when d' = d_when d" "d_preserved d' = d_preserved d" "d_behaviour d' = d_behaviour d"
    "d_clearNotify d' = d_clearNotify d" "d_clearMessage d' = d_clearMessage d" "d_condition d' = None \<longleftrightarrow> d_condition d = None"
    "d_actions d' = [] \<longleftrightarrow> d_actions d = []"
    "\<And>c. c \<in> set (contacts_opt (d_condition d')) \<Longrightarrow> contactProblem c = None"
    "\<And>a. a \<in> set (d_actions d') \<Longrightarrow> actionProblem a = None"
  shows "validateDraft d' = None"
proof -
  have "first_some contactProblem (contacts_opt (d_condition d')) = None" "first_some actionProblem (d_actions d') = None"
    using assms(9,10) by (auto simp: first_some_None)
  moreover have "no_actions d' = no_actions d" "canClear d' = canClear d"
    using assms(2-4,8) by (simp_all add: no_actions_def canClear_def isReadingRule_def)
  ultimately show ?thesis
    using assms(1,2,5-7) by (auto simp: validateDraft_def Let_def split: if_splits option.splits)
qed

section \<open>Properties\<close>

text \<open>The draft with the phrase's own change and no other: every contact of the tree mapped in its place.\<close>

fun on_contacts :: "(contact_draft \<Rightarrow> contact_draft) \<Rightarrow> draft_node \<Rightarrow> draft_node" where
  "on_contacts f (Contact c) = Contact (f c)"
| "on_contacts f (Group i op cs) = Group i op (map (on_contacts f) cs)"

fun phrase_changed :: "sentence_edit \<Rightarrow> rule_draft \<Rightarrow> rule_draft" where
  "phrase_changed (Apply_contact c op v) d =
     d\<lparr>d_condition := map_option (on_contacts (\<lambda>x. if contact_ok v \<and> c_id x = c_id c
        then x\<lparr>c_operator := op, c_value := to_number v\<rparr> else x)) (d_condition d)\<rparr>"
| "phrase_changed (Apply_actuator a on) d =
     d\<lparr>d_actions := map (\<lambda>x. case x of
         Actuator b \<Rightarrow> if a_id b = a_id a then Actuator (b\<lparr>a_bool := on\<rparr>) else x
       | _ \<Rightarrow> x) (d_actions d)\<rparr>"
| "phrase_changed (Apply_hold v) d = d\<lparr>d_forDuration := (if hold_ok v then to_number v else d_forDuration d)\<rparr>"

lemma on_contacts_cong: "(\<And>x. x \<in> set (contacts n) \<Longrightarrow> f x = g x) \<Longrightarrow> on_contacts f n = on_contacts g n"
  by (induction n) auto

lemma on_contacts_id: "on_contacts (\<lambda>x. x) n = n"
proof (induction n)
  case (Group i op cs)
  then show ?case by (simp add: map_idI)
qed simp

lemma replaceContact_on: "replaceContact new n = on_contacts (\<lambda>x. if c_id x = c_id new then new else x) n"
  by (induction n) simp_all

lemma contact_phrase_changed:
  assumes "sound_draft gen (d, k)" "c \<in> set (contacts_opt (d_condition d))"
  shows "sentence_edited (Apply_contact c op v) d = phrase_changed (Apply_contact c op v) d"
proof (cases "d_condition d")
  case (Some n)
  have d: "distinct (node_ids n)" and c: "c \<in> set (contacts n)"
    using assms Some by (auto simp: sound_draft_def draft_ids_def ids_opt_def contacts_opt_def)
  have "replaceContact (c\<lparr>c_operator := op, c_value := to_number v\<rparr>) n =
      on_contacts (\<lambda>x. if c_id x = c_id c then x\<lparr>c_operator := op, c_value := to_number v\<rparr> else x) n"
    unfolding replaceContact_on using contact_by_id [OF d _ c] by (intro on_contacts_cong) auto
  then show ?thesis by (simp add: Some setCondition_def on_contacts_id)
qed (use assms(2) in \<open>simp add: contacts_opt_def\<close>)

lemma action_by_id: "distinct (map action_id as) \<Longrightarrow> x \<in> set as \<Longrightarrow> y \<in> set as \<Longrightarrow> action_id x = action_id y \<Longrightarrow> x = y"
  by (metis distinct_map inj_onD)

lemma actuator_phrase_changed:
  assumes "sound_draft gen (d, k)" "Actuator a \<in> set (d_actions d)"
  shows "sentence_edited (Apply_actuator a on) d = phrase_changed (Apply_actuator a on) d"
proof -
  have dist: "distinct (map action_id (d_actions d))" using assms(1) by (auto simp: sound_draft_def draft_ids_def)
  have "(if action_id x = a_id a then Actuator (a\<lparr>a_bool := on\<rparr>) else x) =
      (case x of Actuator b \<Rightarrow> if a_id b = a_id a then Actuator (b\<lparr>a_bool := on\<rparr>) else x | _ \<Rightarrow> x)" if "x \<in> set (d_actions d)" for x
    using action_by_id [OF dist that assms(2)] by (cases x) auto
  then show ?thesis by simp
qed

text \<open>
  C36: an edit made in the sentence changes what its phrase says and nothing else: applied through a
  chip that is there, it keeps a valid draft valid and a sound one sound, and the draft afterwards is
  the one before with just that contact's operator and value, that actuator's switch or the hold
  replaced (a value that is no number, a hold that is no whole number of seconds change nothing):
  the groups, the other contacts, actions and fields, the name and the intervals are as they were.
\<close>

theorem sentence_edits_keep:
  assumes "validateDraft d = None" "sound_draft gen (d, k)" "inj gen" "sentence_offers cat d e"
  shows "validateDraft (sentence_edited e d) = None \<and> sound_draft gen (sentence_edited e d, k) \<and>
         sentence_edited e d = phrase_changed e d"
proof -
  have so: "sound_draft gen (sentence_edited e d, k)" using sentence_sound [OF assms(2,3)] .
  show ?thesis
  proof (cases e)
    case (Apply_contact c op v)
    let ?new = "c\<lparr>c_operator := op, c_value := to_number v\<rparr>"
    have cs: "contacts_opt (d_condition (sentence_edited e d)) =
        map (\<lambda>x. if contact_ok v \<and> c_id x = c_id c then ?new else x) (contacts_opt (d_condition d))"
      by (cases "d_condition d") (simp_all add: Apply_contact setCondition_def contacts_opt_def contacts_replace)
    have c: "c \<in> set (contacts_opt (d_condition d))" "simple_contact c"
      using assms(4) sentence_chips [of "contact_label cat c" "Edits_contact c" cat d] by (auto simp: Apply_contact)
    then have "contactProblem ?new = None"
      using validated(1) [OF assms(1) c(1)] by (auto simp: contactProblem_def simple_contact_def split: if_splits)
    then have "validateDraft (sentence_edited e d) = None"
      using validated [OF assms(1)] cs
      by (intro validate_by_parts [OF assms(1)]) (auto simp: Apply_contact setCondition_def split: if_splits)
    then show ?thesis using so contact_phrase_changed [OF assms(2) c(1)] by (simp only: Apply_contact)
  next
    case (Apply_actuator a on)
    then obtain x where "x \<in> set (editableSentence cat d)" "case x of Chip l (Edits_actuator b) \<Rightarrow> b = a | _ \<Rightarrow> False"
      using assms(4) by auto
    moreover from this(2) obtain l where "x = Chip l (Edits_actuator a)"
      by (auto split: phrase.split_asm chip_editor.split_asm)
    ultimately have a: "Actuator a \<in> set (d_actions d)" using sentence_chips by blast
    then have "actionProblem (Actuator (a\<lparr>a_bool := on\<rparr>)) = None" using validated(2) [OF assms(1)] by force
    then have "validateDraft (sentence_edited e d) = None"
      using validated [OF assms(1)]
      by (intro validate_by_parts [OF assms(1)]) (auto simp: Apply_actuator)
    then show ?thesis using so actuator_phrase_changed [OF assms(2) a] by (simp only: Apply_actuator)
  next
    case (Apply_hold v)
    have "validateDraft (sentence_edited e d) = None"
      using validated [OF assms(1)] by (intro validate_by_parts [OF assms(1)]) (auto simp: Apply_hold split: if_splits)
    then show ?thesis using so by (simp add: Apply_hold)
  qed
qed

definition ready_draft :: rule_draft where
  "ready_draft = fst (emptyDraft counted_id 0 ''dev-1'' ''UTC'')
     \<lparr>d_name := ''Fan'', d_condition := Some (Contact ((emptyContact (counted_id 0) ''dev-1'')\<lparr>c_metric := ''temperature'', c_value := Fin 30\<rparr>)),
      d_actions := [Actuator ((emptyActuator (counted_id 1) ''dev-1'')\<lparr>a_actuator := ''fan1''\<rparr>)]\<rparr>"

lemma ready_draft_valid: "validateDraft ready_draft = None"
  by (simp add: ready_draft_def emptyDraft_def newId_def validateDraft_def contacts_opt_def contactProblem_def
      emptyContact_def emptyActuator_def no_actions_def canClear_def trim_id is_space_def Let_def)

lemma ready_draft_sound: "sound_draft counted_id (ready_draft, 2)"
  by (simp add: ready_draft_def sound_draft_def draft_ids_def ids_opt_def emptyContact_def emptyActuator_def inj_eq [OF counted_id_inj])

lemma sentence_edits_keep_witness:
  "validateDraft (sentence_edited (Apply_hold ''30'') ready_draft) = None"
proof -
  have "sentence_offers \<lparr>rc_devices = [], rc_templates = []\<rparr> ready_draft (Apply_hold ''30'')"
    by (simp add: ready_draft_def editableSentence_def emptyDraft_def newId_def)
  from sentence_edits_keep [OF ready_draft_valid ready_draft_sound counted_id_inj this] show ?thesis by blast
qed

text \<open>
  An empty hold is taken as zero: \<open>Number("")\<close> is 0, a non-negative integer.
\<close>

lemma empty_hold_taken: "hold_ok [] \<and> hold_ok ''  ''"
  by code_simp

text \<open>
  The sentence of a scheduled draft is the same whatever its condition.
\<close>

lemma scheduled_sentence_condition:
  "w_type (d_when d) = ScheduleT \<Longrightarrow> editableSentence cat (d\<lparr>d_condition := c\<rparr>) = editableSentence cat d"
  by (simp add: editableSentence_def when_phrases_def clear_phrase_def canClear_def isReadingRule_def Let_def)

end
