(* ===== verification/Rung_Facts.thy ===== *)
theory Rung_Facts imports Rung begin

text \<open>
  What the drawing of a rung guarantees (\<open>Rung\<close>): elements apart and inside the drawing, the same
  elements on the horizontal and the vertical rung, the arrow keys on an element; and the
  trigger's label, which can cover the minimum interval.
\<close>

section \<open>Boxes\<close>

definition clear_of :: "box \<Rightarrow> box \<Rightarrow> bool" where
  "clear_of b c \<longleftrightarrow>
     bx_x b + bx_w b \<le> bx_x c \<or> bx_x c + bx_w c \<le> bx_x b \<or> bx_y b + bx_h b \<le> bx_y c \<or> bx_y c + bx_h c \<le> bx_y b"

definition spaced :: "(rung_part \<times> box) list \<Rightarrow> bool" where
  "spaced ps \<longleftrightarrow> sorted_wrt clear_of (map snd ps)"

definition in_area :: "nat \<Rightarrow> nat \<Rightarrow> nat \<Rightarrow> nat \<Rightarrow> (rung_part \<times> box) list \<Rightarrow> bool" where
  "in_area xa xb ya yb ps \<longleftrightarrow>
     (\<forall>b\<in>snd ` set ps. xa \<le> bx_x b \<and> bx_x b + bx_w b \<le> xb \<and> ya \<le> bx_y b \<and> bx_y b + bx_h b \<le> yb)"

lemma area_mono: "in_area xa xb ya yb ps \<Longrightarrow> xa' \<le> xa \<Longrightarrow> xb \<le> xb' \<Longrightarrow> ya' \<le> ya \<Longrightarrow> yb \<le> yb' \<Longrightarrow> in_area xa' xb' ya' yb' ps"
  unfolding in_area_def by (meson le_trans)

lemma area_append [simp]: "in_area xa xb ya yb (ps @ qs) \<longleftrightarrow> in_area xa xb ya yb ps \<and> in_area xa xb ya yb qs"
  by (auto simp: in_area_def)

lemma area_Nil [simp]: "in_area xa xb ya yb []"
  by (simp add: in_area_def)

lemma spaced_Nil [simp]: "spaced []"
  by (simp add: spaced_def)

lemma spaced_append:
  assumes "spaced ps" "spaced qs" "in_area xa xb ya yb ps" "in_area xa' xb' ya' yb' qs" "xb \<le> xa' \<or> yb \<le> ya'"
  shows "spaced (ps @ qs)"
proof -
  have "clear_of b c" if "b \<in> snd ` set ps" "c \<in> snd ` set qs" for b c
  proof -
    have "bx_x b + bx_w b \<le> xb" "bx_y b + bx_h b \<le> yb" "xa' \<le> bx_x c" "ya' \<le> bx_y c"
      using assms(3,4) that by (auto simp: in_area_def)
    then show ?thesis using assms(5) unfolding clear_of_def by linarith
  qed
  then show ?thesis using assms(1,2) by (auto simp: spaced_def sorted_wrt_append)
qed

text \<open>A column of coils, one row under another.\<close>

lemma coils_spaced:
  "spaced (map (\<lambda>(i, a). (f a, coil_box x (y + i * ROW_H + ROW_H div 2))) (indexed_from k as))"
proof (induction "as" arbitrary: k)
  case (Cons a as)
  have "clear_of (coil_box x (y + k * ROW_H + ROW_H div 2)) (coil_box x (y + i * ROW_H + ROW_H div 2))" if "Suc k \<le> i" for i
    using that by (simp add: clear_of_def coil_box_def ROW_H_def COIL_W_def)
  then show ?case using Cons [of "Suc k"] by (auto simp: spaced_def indexed_from_mem)
qed simp

lemma coils_area:
  assumes "6 \<le> x"
  shows "in_area (x - 6) (x + 226) (y + 6) (y + length as * ROW_H)
     (map (\<lambda>(i, a). (f a, coil_box x (y + i * ROW_H + ROW_H div 2))) (indexed as))"
proof -
  have "y + i * 78 + 72 \<le> y + length as * 78" if "i < length as" for i
    using that mult_le_mono1 [of "Suc i" "length as" 78] by simp
  then show ?thesis using assms
    by (auto simp: in_area_def coil_box_def ROW_H_def COIL_W_def indexed_from_mem)
qed

section \<open>The parts of the rung\<close>

lemmas sizes = CELL_W_def ROW_H_def TOP_def RAIL_X_def LEAD_def TIMER_W_def COIL_W_def CAPTION_H_def

lemmas geometry_simps = geometry_of_def Let_def sizes

lemma contact_boxes_apart: "cell p \<noteq> cell q \<Longrightarrow> clear_of (contact_box x0 p) (contact_box x0 q)"
proof -
  assume "cell p \<noteq> cell q"
  then consider "y_x p < y_x q" | "y_x q < y_x p" | "y_y p < y_y q" | "y_y q < y_y p"
    by (auto simp: cell_def) linarith+
  then show ?thesis
  proof cases
    case 1
    then show ?thesis using mult_le_mono1 [of "Suc (y_x p)" "y_x q" 176] by (simp add: clear_of_def contact_box_def sizes)
  next
    case 2
    then show ?thesis using mult_le_mono1 [of "Suc (y_x q)" "y_x p" 176] by (simp add: clear_of_def contact_box_def sizes)
  next
    case 3
    then show ?thesis using mult_le_mono1 [of "Suc (y_y p)" "y_y q" 78] by (simp add: clear_of_def contact_box_def rowMid_def sizes)
  next
    case 4
    then show ?thesis using mult_le_mono1 [of "Suc (y_y q)" "y_y p" 78] by (simp add: clear_of_def contact_box_def rowMid_def sizes)
  qed
qed

lemma distinct_sorted_wrt: "distinct (map f xs) \<Longrightarrow> sorted_wrt (\<lambda>p q. f p \<noteq> f q) xs"
  by (induction xs) (auto simp: image_iff)

lemma contacts_ok:
  assumes "in_box 0 (o_width out) 0 (o_height out) (o_contacts out)" "g = geometry_of d interactive cat out"
  shows "spaced (contact_parts d g) \<and> in_area 0 (g_condEnd g) TOP (TOP + g_rows g * ROW_H) (contact_parts d g)"
proof
  let ?ps = "filter (drawn_cell d) (o_contacts out)"
  have di: "distinct (map cell ?ps)" using assms(1) by (auto simp: in_box_def distinct_map_filter)
  have "sorted_wrt (\<lambda>p q. cell p \<noteq> cell q) ?ps" using di by (rule distinct_sorted_wrt)
  then have "sorted_wrt (\<lambda>p q. clear_of (contact_box (g_x0 g) p) (contact_box (g_x0 g) q)) ?ps"
    by (rule sorted_wrt_mono_rel [rotated]) (simp add: contact_boxes_apart)
  then show "spaced (contact_parts d g)"
    by (simp add: spaced_def contact_parts_def sorted_wrt_map assms(2) geometry_of_def Let_def comp_def)
  have b: "y_x p * 176 + 170 \<le> o_width out * 176" "y_y p * 78 + 74 \<le> g_rows g * 78" "0 < o_width out"
    if "p \<in> set (o_contacts out)" for p
  proof -
    have "y_x p < o_width out" "y_y p < o_height out" using assms(1) that by (auto simp: in_box_def)
    moreover have "o_height out \<le> g_rows g" by (simp add: assms(2) geometry_of_def Let_def)
    ultimately have "Suc (y_x p) \<le> o_width out" "Suc (y_y p) \<le> g_rows g" by linarith+
    then show "y_x p * 176 + 170 \<le> o_width out * 176" "y_y p * 78 + 74 \<le> g_rows g * 78" "0 < o_width out"
      using mult_le_mono1 [of "Suc (y_x p)" "o_width out" 176] mult_le_mono1 [of "Suc (y_y p)" "g_rows g" 78] by simp_all
  qed
  have e: "g_condEnd g = g_x0 g + (if o_width out = 0 then 24 else o_width out * 176)" "g_layout g = out"
    by (simp_all add: assms(2) geometry_simps)
  show "in_area 0 (g_condEnd g) TOP (TOP + g_rows g * ROW_H) (contact_parts d g)"
    using b by (fastforce simp: in_area_def contact_parts_def e contact_box_def rowMid_def sizes)
qed

lemma rows_positive: "g = geometry_of d interactive cat out \<Longrightarrow> 1 \<le> g_rows g"
  by (simp add: geometry_of_def Let_def)

lemma middle_ok:
  assumes "g = geometry_of d interactive cat out"
  shows "spaced (middle_parts d interactive g) \<and> in_area (g_condEnd g) (g_busX g) TOP (TOP + g_rows g * ROW_H) (middle_parts d interactive g)"
proof -
  have r: "78 \<le> g_rows g * 78" using rows_positive [OF assms] by simp
  have x: "g_showTimer g \<Longrightarrow> g_busX g = g_timerX g + 112" "g_timerX g = g_condEnd g + (if interactive then 52 else 8)"
    "interactive \<Longrightarrow> g_plusX g = g_condEnd g + 22" "g_condEnd g + (if interactive then 60 else 16) \<le> g_busX g"
    by (simp_all add: assms geometry_simps)
  show ?thesis using r x
    by (auto simp: middle_parts_def spaced_def in_area_def clear_of_def plus_box_def timer_box_def rowMid_def sizes)
qed

lemma actions_ok:
  assumes "g = geometry_of d interactive cat out"
  shows "spaced (action_parts d interactive g) \<and> in_area (g_busX g) (g_coilX g + 226) 12 (TOP + g_rows g * ROW_H) (action_parts d interactive g)"
proof -
  let ?n = "length (d_actions d)"
  let ?coils = "map (\<lambda>(i, a). (Action_part (action_id a), coil_box (g_coilX g) (rowMid i))) (indexed (d_actions d))"
  let ?int = "if js_gt (d_cooldown d) (Fin 0) \<and> d_actions d \<noteq> []
      then [(Interval_part, \<lparr>bx_x = g_coilX g - 6, bx_y = TOP - 22, bx_w = 150, bx_h = 18\<rparr>)] else []"
  let ?plus = "if interactive then [(Plus_action, plus_box (g_coilX g + 18) (rowMid ?n))] else []"
  have c: "g_coilX g = g_busX g + 40" "?n + (if interactive then 1 else 0) \<le> g_rows g"
    by (simp_all add: assms geometry_simps)
  have h: "?n * 78 + (if interactive then 78 else 0) \<le> g_rows g * 78"
    using mult_le_mono1 [OF c(2), of 78] by (simp split: if_splits)
  have coils: "spaced ?coils" "in_area (g_coilX g - 6) (g_coilX g + 226) (TOP + 6) (TOP + ?n * ROW_H) ?coils"
    using coils_spaced [of "\<lambda>a. Action_part (action_id a)" "g_coilX g" TOP 0] coils_area [of "g_coilX g" TOP "d_actions d" "\<lambda>a. Action_part (action_id a)"] c(1)
    by (simp_all add: rowMid_def)
  have int: "spaced ?int" "in_area (g_busX g) (g_coilX g + 226) 12 30 ?int"
    by (simp_all add: spaced_def in_area_def c(1) sizes)
  have plus: "spaced ?plus" "in_area (g_busX g) (g_coilX g + 226) (TOP + ?n * ROW_H) (TOP + g_rows g * ROW_H) ?plus"
    using h by (simp_all add: spaced_def in_area_def c(1) plus_box_def rowMid_def sizes split: if_splits)
  have cp: "spaced (?coils @ ?plus)" by (rule spaced_append [OF coils(1) plus(1) coils(2) plus(2)]) simp
  have rp: "in_area (g_busX g) (g_coilX g + 226) TOP (TOP + g_rows g * ROW_H) (?coils @ ?plus)"
    unfolding area_append
    by (intro conjI area_mono [OF coils(2)] area_mono [OF plus(2)]) (use h c(1) in \<open>simp_all add: sizes split: if_splits\<close>)
  have "spaced (?int @ ?coils @ ?plus)" by (rule spaced_append [OF int(1) cp int(2) rp]) (simp add: TOP_def)
  moreover have "in_area (g_busX g) (g_coilX g + 226) 12 (TOP + g_rows g * ROW_H) (?int @ ?coils @ ?plus)"
    using area_mono [OF int(2)] area_mono [OF rp] by (simp add: sizes)
  ultimately show ?thesis by (simp add: action_parts_def)
qed

lemma latching_no_clears: "latching d \<Longrightarrow> clearCoils d cat = []"
  by (simp add: latching_def clearCoils_def)

lemma clears_ok:
  assumes "g = geometry_of d interactive cat out"
  shows "spaced (clear_parts d g) \<and> in_area 0 (g_coilX g + 226) (g_mainBottom g) (g_height g) (clear_parts d g)"
proof (cases "g_clears g = []")
  case False
  let ?n = "length (g_clears g)"
  let ?coils = "map (\<lambda>(i, c). (Clear_part (cc_actionId c), coil_box (g_coilX g) (g_clearTop g + i * ROW_H + ROW_H div 2))) (indexed (g_clears g))"
  let ?delay = "if g_clears g \<noteq> [] \<and> js_gt (d_clearDelay d) (Fin 0)
      then [(Clear_delay_part, timer_box (g_timerX g) (g_clearTop g + ROW_H div 2))] else []"
  have cl: "g_clears g = clearCoils d cat" by (simp add: assms geometry_simps)
  then have nl: "\<not> latching d" using False latching_no_clears by auto
  have c: "g_coilX g = g_busX g + 40" "g_clearTop g = g_mainBottom g + 26" "1 \<le> ?n"
    "js_gt (d_clearDelay d) (Fin 0) \<Longrightarrow> g_busX g = g_timerX g + 112" "g_height g = g_clearTop g + ?n * 78 + 6"
    using False nl by (simp_all add: assms geometry_simps Suc_le_eq max_def)
  have coils: "spaced ?coils" "in_area (g_coilX g - 6) (g_coilX g + 226) (g_clearTop g + 6) (g_clearTop g + ?n * ROW_H) ?coils"
    using coils_spaced [of "\<lambda>c. Clear_part (cc_actionId c)" "g_coilX g" "g_clearTop g" 0 "g_clears g"]
      coils_area [of "g_coilX g" "g_clearTop g" "g_clears g" "\<lambda>c. Clear_part (cc_actionId c)"] c(1)
    by simp_all
  have delay: "spaced ?delay" "in_area 0 (g_busX g) (g_clearTop g) (g_clearTop g + 78) ?delay"
    using c by (auto simp: spaced_def in_area_def timer_box_def sizes)
  have "spaced (?delay @ ?coils)" by (rule spaced_append [OF delay(1) coils(1) delay(2) coils(2)]) (use c(1) in simp)
  moreover have "in_area 0 (g_coilX g + 226) (g_mainBottom g) (g_height g) (?delay @ ?coils)"
    using area_mono [OF delay(2)] area_mono [OF coils(2)] c(1-3,5) by (simp add: sizes)
  ultimately show ?thesis by (simp add: clear_parts_def)
qed (simp add: clear_parts_def)

lemma reset_ok:
  assumes "g = geometry_of d interactive cat out"
  shows "spaced (reset_parts d g) \<and> in_area 0 (g_coilX g + 226) (g_mainBottom g) (g_height g) (reset_parts d g) \<and>
         (reset_parts d g = [] \<or> clear_parts d g = [])"
proof (cases "latching d")
  case True
  then have cl: "g_clears g = []" by (simp add: assms geometry_of_def Let_def latching_no_clears)
  have "g_resetTop g = g_mainBottom g + 26" "g_height g = g_resetTop g + 84" "g_coilX g = g_busX g + 40"
    using True by (simp_all add: assms geometry_simps latching_no_clears)
  then show ?thesis using cl True by (simp add: reset_parts_def clear_parts_def spaced_def in_area_def coil_box_def sizes)
qed (simp add: reset_parts_def)

lemma rung_body_ok:
  assumes "in_box 0 (o_width out) 0 (o_height out) (o_contacts out)" "g = geometry_of d interactive cat out"
  shows "spaced (rung_body d interactive g) \<and> in_area 0 (g_width g) 0 (g_height g) (rung_body d interactive g)"
proof -
  let ?bottom = "TOP + g_rows g * ROW_H" and ?right = "g_coilX g + 226"
  note c = contacts_ok [OF assms] and m = middle_ok [OF assms(2)] and a = actions_ok [OF assms(2)]
    and k = clears_ok [OF assms(2)] and r = reset_ok [OF assms(2)]
  have g: "g_condEnd g \<le> g_busX g" "g_coilX g = g_busX g + 40" "g_mainBottom g = ?bottom + 6" "g_width g = g_coilX g + 246"
    "g_mainBottom g \<le> g_height g"
    by (simp_all add: assms(2) geometry_simps)
  have s5: "spaced (clear_parts d g @ reset_parts d g)" using k r by auto
  have r5: "in_area 0 ?right (g_mainBottom g) (g_height g) (clear_parts d g @ reset_parts d g)" using k r by simp
  have ra: "in_area (g_busX g) ?right 0 ?bottom (action_parts d interactive g)" using a by (blast intro: area_mono)
  have s45: "spaced (action_parts d interactive g @ clear_parts d g @ reset_parts d g)"
    using spaced_append [OF _ s5 ra r5] a g(3) by simp
  have rl: "in_area 0 (g_busX g) 0 ?bottom (contact_parts d g @ middle_parts d interactive g)"
    using c m g(1) by (auto intro: area_mono)
  have sl: "spaced (contact_parts d g @ middle_parts d interactive g)"
    using spaced_append [of "contact_parts d g" "middle_parts d interactive g"] c m by blast
  have s: "spaced ((contact_parts d g @ middle_parts d interactive g) @ action_parts d interactive g)"
    using spaced_append [OF sl _ rl ra] a by simp
  have rla: "in_area 0 ?right 0 ?bottom ((contact_parts d g @ middle_parts d interactive g) @ action_parts d interactive g)"
    using area_mono [OF rl, of 0 ?right 0 ?bottom] area_mono [OF ra, of 0 ?right 0 ?bottom] g(2) by (simp only: area_append)
  have "spaced (((contact_parts d g @ middle_parts d interactive g) @ action_parts d interactive g) @ clear_parts d g @ reset_parts d g)"
    by (rule spaced_append [OF s s5 rla r5]) (use g(3) in simp)
  moreover have "in_area 0 (g_width g) 0 (g_height g)
      (((contact_parts d g @ middle_parts d interactive g) @ action_parts d interactive g) @ clear_parts d g @ reset_parts d g)"
    unfolding area_append [of _ _ _ _ "(contact_parts d g @ middle_parts d interactive g) @ action_parts d interactive g"]
    using area_mono [OF rla, of 0 "g_width g" 0 "g_height g"] area_mono [OF r5, of 0 "g_width g" 0 "g_height g"] g(3-5) by simp
  ultimately show ?thesis by (simp add: rung_body_def)
qed

text \<open>The trigger's label: above everything but the minimum interval.\<close>

definition label_end :: "rule_draft \<Rightarrow> rule_catalog \<Rightarrow> nat" where
  "label_end d cat = bx_x (trigger_box (triggerLabel d cat)) + bx_w (trigger_box (triggerLabel d cat))"

definition has_interval :: "rule_draft \<Rightarrow> bool" where
  "has_interval d \<longleftrightarrow> js_gt (d_cooldown d) (Fin 0) \<and> d_actions d \<noteq> []"

lemma below_label:
  assumes "in_box 0 (o_width out) 0 (o_height out) (o_contacts out)" "g = geometry_of d interactive cat out"
    and "(p, b) \<in> set (rung_body d interactive g)" "p \<noteq> Interval_part"
  shows "26 \<le> bx_y b"
proof -
  note c = contacts_ok [OF assms(1,2)] and m = middle_ok [OF assms(2)] and k = clears_ok [OF assms(2)] and r = reset_ok [OF assms(2)]
  have bottom: "26 \<le> g_mainBottom g" by (simp add: assms(2) geometry_simps)
  have act: "26 \<le> bx_y b" if "(p, b) \<in> set (action_parts d interactive g)"
    using that assms(4) by (auto simp: action_parts_def coil_box_def plus_box_def rowMid_def sizes split: if_splits)
  have low: "ya \<le> bx_y b" if "in_area xa xb ya yb ps" "(p, b) \<in> set ps" for xa xb ya yb ps
    using that unfolding in_area_def by force
  from assms(3) consider "(p, b) \<in> set (contact_parts d g)" | "(p, b) \<in> set (middle_parts d interactive g)"
    | "(p, b) \<in> set (action_parts d interactive g)" | "(p, b) \<in> set (clear_parts d g)" | "(p, b) \<in> set (reset_parts d g)"
    by (auto simp: rung_body_def)
  then show ?thesis
  proof cases
    case 1
    from low [OF c [THEN conjunct2] this] show ?thesis by (simp add: TOP_def)
  next
    case 2
    from low [OF m [THEN conjunct2] this] show ?thesis by (simp add: TOP_def)
  next
    case 3
    then show ?thesis by (rule act)
  next
    case 4
    from low [OF k [THEN conjunct2] this] bottom show ?thesis by simp
  next
    case 5
    from low [OF r [THEN conjunct2, THEN conjunct1] this] bottom show ?thesis by simp
  qed
qed

lemma interval_box:
  "(Interval_part, b) \<in> set (rung_body d interactive g) \<longleftrightarrow>
   has_interval d \<and> b = \<lparr>bx_x = g_coilX g - 6, bx_y = TOP - 22, bx_w = 150, bx_h = 18\<rparr>"
  by (auto simp: rung_body_def has_interval_def contact_parts_def middle_parts_def action_parts_def clear_parts_def reset_parts_def)

lemma label_clear_of:
  assumes "in_box 0 (o_width out) 0 (o_height out) (o_contacts out)" "g = geometry_of d interactive cat out"
    and "(p, b) \<in> set (rung_body d interactive g)"
  shows "clear_of (trigger_box (triggerLabel d cat)) b \<longleftrightarrow> p \<noteq> Interval_part \<or> label_end d cat \<le> g_coilX g - 6"
proof (cases "p = Interval_part")
  case True
  then have "b = \<lparr>bx_x = g_coilX g - 6, bx_y = TOP - 22, bx_w = 150, bx_h = 18\<rparr>" using assms(3) interval_box by blast
  then show ?thesis using True by (simp add: clear_of_def label_end_def trigger_box_def sizes)
next
  case False
  then show ?thesis using below_label [OF assms(1,2,3)] by (simp add: clear_of_def trigger_box_def)
qed

section \<open>Both drawings offer the same\<close>

definition pressed :: "selection option list \<Rightarrow> selection list" where
  "pressed xs = filter (\<lambda>x. x \<noteq> Sel_timing) (somes xs)"

lemma pressed_append [simp]: "pressed (xs @ ys) = pressed xs @ pressed ys"
  by (simp add: pressed_def somes_append)

lemma pressed_Cons [simp]:
  "pressed [] = []" "pressed (None # xs) = pressed xs" "pressed (Some x # xs) = (if x = Sel_timing then pressed xs else x # pressed xs)"
  by (simp_all add: pressed_def)

lemma node_items_pressed: "pressed (map item_selects (node_items cat n)) = map (\<lambda>c. Sel_node (c_id c)) (contacts n)"
proof (induction n)
  case (Group i op cs)
  then show ?case by (induction cs) auto
qed simp

lemma pressed_map_Some: "(\<And>x. x \<in> set xs \<Longrightarrow> f x \<noteq> Sel_timing) \<Longrightarrow> pressed (map (\<lambda>x. Some (f x)) xs) = map f xs"
  by (induction xs) auto

lemma indexed_map: "map (\<lambda>x. f (snd x)) (indexed_from k xs) = map f xs"
  by (induction xs arbitrary: k) auto

lemma clears_pressed:
  "pressed (map (part_selects \<circ> fst) (clear_parts d g)) = pressed (map item_selects (map clear_item (g_clears g)))"
  using indexed_map [of "\<lambda>c. part_selects (Clear_part (cc_actionId c))" 0 "g_clears g"]
  by (simp add: clear_parts_def clear_item_def comp_def case_prod_beta)

lemma actions_pressed:
  "pressed (map (part_selects \<circ> fst) (action_parts d interactive g)) =
   map (\<lambda>a. Sel_action (action_id a)) (d_actions d) @ (if interactive then [Sel_add] else [])"
  using indexed_map [of "\<lambda>a. Some (Sel_action (action_id a))" 0 "d_actions d"]
    pressed_map_Some [of "d_actions d" "\<lambda>a. Sel_action (action_id a)"]
  by (simp add: action_parts_def comp_def case_prod_beta)

lemma filter_drawn:
  assumes "map y_id ps = map c_id cs" "\<And>c. c \<in> set cs \<Longrightarrow> findNode (d_condition d) (c_id c) = Some (Contact c)"
  shows "map y_id (filter (drawn_cell d) ps) = map c_id cs"
  using assms
proof (induction ps arbitrary: cs)
  case (Cons p ps)
  then obtain c cs' where "cs = c # cs'" "y_id p = c_id c" "map y_id ps = map c_id cs'" by (cases cs) auto
  with Cons show ?case by (auto simp: drawn_cell_def)
qed simp

section \<open>Properties\<close>

text \<open>
  C33: for a condition without empty groups the rung is laid out, in the editor and in the overview; no
  two of its elements (contacts, plus signs, timers, the minimum interval, coils of the three rungs)
  cover one another and all of them are inside the drawing. The trigger's label covers none of them
  but the minimum interval, and that one exactly when the text reaches into it; it is inside the
  drawing exactly when it ends before the right edge.
\<close>

theorem rung_fits:
  assumes "case d_condition d of None \<Rightarrow> True | Some n \<Rightarrow> inhabited n"
  shows "\<exists>g. rungGeometry d interactive cat = Some g \<and>
    spaced (rung_body d interactive g) \<and> in_area 0 (g_width g) 0 (g_height g) (rung_body d interactive g) \<and>
    list_all (\<lambda>(p, b). p = Interval_part \<or> clear_of (trigger_box (triggerLabel d cat)) b) (rung_body d interactive g) \<and>
    (spaced (rung_parts d interactive cat g) \<longleftrightarrow> (if has_interval d then label_end d cat \<le> g_coilX g - 6 else True)) \<and>
    (in_area 0 (g_width g) 0 (g_height g) (rung_parts d interactive cat g) \<longleftrightarrow> label_end d cat \<le> g_width g)"
proof -
  obtain out where out: "layoutCondition (d_condition d) = Some out" "in_box 0 (o_width out) 0 (o_height out) (o_contacts out)"
  proof (cases "d_condition d")
    case None
    then show ?thesis using that by (simp add: layoutCondition_def empty_layout_def)
  next
    case (Some n)
    then show ?thesis using that ladder_cells [of n] assms by auto
  qed
  let ?g = "geometry_of d interactive cat out"
  note ok = rung_body_ok [OF out(2) refl, of d interactive cat]
  note label = label_clear_of [OF out(2) refl, where d = d and interactive = interactive and cat = cat]
  have interval: "has_interval d \<longleftrightarrow> (\<exists>b. (Interval_part, b) \<in> set (rung_body d interactive ?g))"
    by (simp add: interval_box)
  have "list_all (\<lambda>(p, b). p = Interval_part \<or> clear_of (trigger_box (triggerLabel d cat)) b) (rung_body d interactive ?g)"
    using label by (auto simp: list_all_iff)
  moreover have "spaced (rung_parts d interactive cat ?g) \<longleftrightarrow>
      (\<forall>(p, b)\<in>set (rung_body d interactive ?g). clear_of (trigger_box (triggerLabel d cat)) b)"
    using ok by (auto simp: spaced_def rung_parts_def)
  then have "spaced (rung_parts d interactive cat ?g) \<longleftrightarrow> (if has_interval d then label_end d cat \<le> g_coilX ?g - 6 else True)"
    unfolding interval using label by (auto split: prod.splits)
  moreover have "26 \<le> g_height ?g" by (simp add: geometry_simps)
  then have "in_area 0 (g_width ?g) 0 (g_height ?g) (rung_parts d interactive cat ?g) \<longleftrightarrow> label_end d cat \<le> g_width ?g"
    using ok by (simp add: in_area_def rung_parts_def label_end_def) (simp add: trigger_box_def)
  ultimately show ?thesis using ok out(1) by (simp add: rungGeometry_def)
qed

lemma rung_fits_witness:
  "\<exists>g. rungGeometry (demo_draft\<lparr>d_condition := Some demo_tree\<rparr>) True \<lparr>rc_devices = [], rc_templates = []\<rparr> = Some g \<and>
     spaced (rung_body (demo_draft\<lparr>d_condition := Some demo_tree\<rparr>) True g)"
  using rung_fits [of "demo_draft\<lparr>d_condition := Some demo_tree\<rparr>" True "\<lparr>rc_devices = [], rc_templates = []\<rparr>"]
  by (auto simp: demo_tree_def demo_contact_def)

text \<open>
  The rung offers the same on a wide and on a narrow screen: for a sound draft the contacts, the
  actions, the added action and the actions turned back are the same in both drawings, in the same
  order (the timers clear_of, which the vertical one words differently).
\<close>

theorem drawings_agree:
  assumes "sound_tree gen (d_condition d, k)" "case d_condition d of None \<Rightarrow> True | Some n \<Rightarrow> inhabited n"
  shows "\<exists>g. rungGeometry d interactive cat = Some g \<and>
           pressed (map (part_selects \<circ> fst) (rung_parts d interactive cat g)) =
           pressed (map item_selects (vertical_items d interactive cat))"
proof -
  obtain out where out: "layoutCondition (d_condition d) = Some out" "map y_id (o_contacts out) = map c_id (contacts_opt (d_condition d))"
  proof (cases "d_condition d")
    case None
    then show ?thesis using that by (simp add: layoutCondition_def empty_layout_def contacts_opt_def)
  next
    case (Some n)
    then show ?thesis using that ladder_cells [of n] assms(2) by (auto simp: contacts_opt_def)
  qed
  let ?g = "geometry_of d interactive cat out"
  have "findNode (d_condition d) (c_id c) = Some (Contact c)" if "c \<in> set (contacts_opt (d_condition d))" for c
    using assms(1) that find_contact
    by (auto simp: contacts_opt_def findNode_def sound_tree_def ids_opt_def split: option.splits)
  then have ids: "map y_id (filter (drawn_cell d) (o_contacts out)) = map c_id (contacts_opt (d_condition d))"
    by (rule filter_drawn [OF out(2)])
  have "map (part_selects \<circ> fst) (contact_parts d ?g) = map (\<lambda>i. Some (Sel_node i)) (map y_id (filter (drawn_cell d) (o_contacts out)))"
    by (simp add: contact_parts_def geometry_of_def Let_def)
  then have c: "pressed (map (part_selects \<circ> fst) (contact_parts d ?g)) = map (\<lambda>c. Sel_node (c_id c)) (contacts_opt (d_condition d))"
    unfolding ids using pressed_map_Some [of "contacts_opt (d_condition d)" "\<lambda>c. Sel_node (c_id c)"] by (simp add: comp_def)
  have m: "pressed (map (part_selects \<circ> fst) (middle_parts d interactive ?g)) = []" by (simp add: middle_parts_def)
  have r: "pressed (map (part_selects \<circ> fst) (reset_parts d ?g)) = []" by (simp add: reset_parts_def)
  have k: "g_clears ?g = clearCoils d cat" by (simp add: geometry_of_def Let_def)
  have a: "pressed (map item_selects (map (action_item d cat) (d_actions d))) = map (\<lambda>a. Sel_action (action_id a)) (d_actions d)"
    using pressed_map_Some [of "d_actions d" "\<lambda>a. Sel_action (action_id a)"] by (simp add: comp_def action_item_def)
  have n: "pressed (map item_selects (case d_condition d of None \<Rightarrow> [] | Some n \<Rightarrow> Caption ''If'' # node_items cat n)) =
      map (\<lambda>c. Sel_node (c_id c)) (contacts_opt (d_condition d))"
    by (simp add: contacts_opt_def node_items_pressed split: option.split)
  have "Sel_when # pressed (map (part_selects \<circ> fst) (rung_body d interactive ?g)) =
        pressed (map item_selects (vertical_items d interactive cat))"
    unfolding rung_body_def vertical_items_def map_append pressed_append c m r n a actions_pressed clears_pressed k
    by simp
  then show ?thesis using out(1) by (simp add: rungGeometry_def rung_parts_def)
qed

lemma drawings_agree_witness:
  "\<exists>g. rungGeometry (fst (emptyDraft counted_id 0 ''dev'' ''UTC'')) True \<lparr>rc_devices = [], rc_templates = []\<rparr> = Some g"
  using drawings_agree [of counted_id "fst (emptyDraft counted_id 0 ''dev'' ''UTC'')" 1 True "\<lparr>rc_devices = [], rc_templates = []\<rparr>"]
  by (auto simp: emptyDraft_def newId_def sound_tree_def ids_opt_def emptyContact_def)

text \<open>An arrow key moves the focus to an element there is, by one at most, and stops at the ends.\<close>

lemma roving_stays: "i < n \<Longrightarrow> \<exists>j. rovingKeys key n (Some i) = Some j \<and> j < n \<and> (key \<in> {Home_key, End_key} \<or> j \<le> i + 1 \<and> i \<le> j + 1)"
  by (cases key) (auto simp: rovingKeys_def Let_def)

section \<open>The trigger's label\<close>

text \<open>
  A rule that someone runs, with a minimum interval and no condition: in the overview its label ends
  26 pixels after the minimum interval begins, at the same height.
\<close>

lemma trigger_covers_interval:
  "let d = (fst (emptyDraft counted_id 0 ''dev'' ''UTC''))\<lparr>d_condition := None,
             d_when := \<lparr>w_type = ManualT, w_cron = [], w_timezone = [], w_statusDeviceId = [], w_transition = Connected\<rparr>\<rparr>;
       cat = \<lparr>rc_devices = [], rc_templates = []\<rparr>
   in case rungGeometry d False cat of
        None \<Rightarrow> False
      | Some g \<Rightarrow> (case action_parts d False g of
            (Interval_part, b) # ps \<Rightarrow> of_nat (bx_x b) < of_nat (RAIL_X - 4) + trigger_width (triggerLabel d cat) \<and> bx_y b < 2 + 24 \<and> 2 < bx_y b + bx_h b
          | _ \<Rightarrow> False)"
  by (simp add: Let_def emptyDraft_def newId_def rungGeometry_def layoutCondition_def empty_layout_def geometry_simps
      isReadingRule_def clearCoils_def canClear_def action_parts_def DEFAULT_COOLDOWN_def trigger_width_def max_def)

end
