(* ===== verification/Screen_Facts.thy ===== *)
theory Screen_Facts imports Live_Screen begin

text \<open>
  The live screen under any interleaving of frames, flushes, fetches, reconnects and visibility
  changes: the types of the cached data and the buffer's pending readings are kept, and a flush
  leaves, for every metric, the newer of the cached reading and the one the buffer held.
\<close>

section \<open>Steps\<close>

definition is_device_id :: "string \<Rightarrow> bool" where
  "is_device_id d \<longleftrightarrow> length d = 36 \<and> CHR ''/'' \<notin> set d"

text \<open>Milliseconds that \<open>toISOString\<close> prints with a year of four digits.\<close>

definition time_ok :: "rat \<Rightarrow> bool" where
  "time_ok t \<longleftrightarrow> 0 \<le> t \<and> t < 253402300800"

definition message_ok :: "rt_message \<Rightarrow> bool" where
  "message_ok m \<longleftrightarrow>
     (case rm_device_id m of None \<Rightarrow> True | Some d \<Rightarrow> d = [] \<or> is_device_id d) \<and>
     (case rm_time m of None \<Rightarrow> True | Some t \<Rightarrow> time_ok t)"

text \<open>What the API answers under a key: rows, one per metric, for a device's latest readings, the
  device itself under its own key, and other data elsewhere.\<close>

definition typed_at :: "string \<Rightarrow> cached \<Rightarrow> bool" where
  "typed_at key data =
     (case data of
        Rows rows \<Rightarrow> (\<exists>d. is_device_id d \<and> key = latestKey d) \<and> distinct (map tl_metric rows)
      | Device dv \<Rightarrow> (\<exists>d. is_device_id d \<and> key = deviceKey d)
      | Other_data \<Rightarrow> \<not> (\<exists>d. is_device_id d \<and> (key = latestKey d \<or> key = deviceKey d)))"

inductive sc_step :: "screen \<Rightarrow> screen \<Rightarrow> bool" where
  frame: "message_ok m \<Longrightarrow> time_ok now \<Longrightarrow> sc_step s (onMessage now m s)"
| status: "sc_step s (onStatusChange st s)"
| visibility: "sc_step s (onVisibilityChange hidden s)"
| timer: "0 < lb_timers (sc_buffer s) \<Longrightarrow> sc_step s (buffer_timer s)"
| mount: "sc_step s (useRealtime_mount s)"
| unmount: "sc_step s (useRealtime_unmount s)"
| chart: "sc_step s (s\<lparr>sc_buffer := fst (subscribeSeries d m l (sc_buffer s))\<rparr>)"
| chart_gone: "sc_step s (s\<lparr>sc_buffer := unsubscribe h (sc_buffer s)\<rparr>)"
| fetched: "typed_at key data \<Longrightarrow> sc_step s (s\<lparr>sc_cache := (sc_cache s)(key \<mapsto> data)\<rparr>)"

definition first_screen :: "bool \<Rightarrow> screen" where
  "first_screen hidden =
     \<lparr>sc_buffer = new_buffer, sc_cache = (\<lambda>key. None), sc_refetches = [], sc_emitted = [], sc_status = Connecting,
      sc_dropped = False, sc_hidden = hidden, sc_crashed = False\<rparr>"

inductive sc_reachable :: "screen \<Rightarrow> bool" where
  start: "sc_reachable (first_screen hidden)"
| step: "sc_reachable s \<Longrightarrow> sc_step s s' \<Longrightarrow> sc_reachable s'"

section \<open>Keys\<close>

lemma latestKey_inj [simp]: "latestKey d = latestKey d' \<longleftrightarrow> d = d'"
  by (simp add: latestKey_def)

lemma deviceKey_inj [simp]: "deviceKey d = deviceKey d' \<longleftrightarrow> d = d'"
  by (simp add: deviceKey_def)

lemma device_not_latest: "is_device_id d \<Longrightarrow> deviceKey d \<noteq> latestKey d'"
  by (auto simp: deviceKey_def latestKey_def is_device_id_def)

lemma latest_not_device: "is_device_id d \<Longrightarrow> latestKey d' \<noteq> deviceKey d"
  using device_not_latest by metis

lemmas key_simps = device_not_latest latest_not_device

lemma typed_latest:
  "typed_at (latestKey d) c \<Longrightarrow> is_device_id d \<Longrightarrow> \<exists>rows. c = Rows rows \<and> distinct (map tl_metric rows)"
  by (cases c) (auto simp: typed_at_def key_simps)

lemma typed_device: "typed_at (deviceKey d) c \<Longrightarrow> is_device_id d \<Longrightarrow> \<exists>dv. c = Device dv"
  by (cases c) (auto simp: typed_at_def key_simps)

section \<open>One merge\<close>

lemma row_of_map_other:
  "m \<noteq> k \<Longrightarrow> tl_metric new = k \<Longrightarrow> row_of (map (\<lambda>r. if tl_metric r = k then new else r) rows) m = row_of rows m"
  by (induction rows) (auto simp: row_of_def)

lemma row_of_map_same:
  "row_of rows k \<noteq> None \<Longrightarrow> tl_metric new = k \<Longrightarrow> row_of (map (\<lambda>r. if tl_metric r = k then new else r) rows) k = Some new"
  by (induction rows) (auto simp: row_of_def split: if_splits)

lemma row_of_append: "row_of (rows @ [new]) m = (case row_of rows m of Some r \<Rightarrow> Some r | None \<Rightarrow> if tl_metric new = m then Some new else None)"
  by (induction rows) (auto simp: row_of_def)

lemma row_of_None: "row_of rows m = None \<longleftrightarrow> m \<notin> set (map tl_metric rows)"
  by (auto simp: row_of_def find_None_iff')

lemma row_of_merge:
  "row_of (mergeLatest k v txt rows) m =
     (if m \<noteq> k then row_of rows m
      else case row_of rows k of
        None \<Rightarrow> Some \<lparr>tl_metric = k, tl_value = v, tl_time = txt\<rparr>
      | Some e \<Rightarrow> Some (if isNewer txt (tl_time e) then \<lparr>tl_metric = k, tl_value = v, tl_time = txt\<rparr> else e))"
  by (auto simp: mergeLatest_def Let_def row_of_append row_of_map_other row_of_map_same split: option.splits)

lemma metrics_merge:
  "map tl_metric (mergeLatest k v txt rows) =
     map tl_metric rows @ (if k \<in> set (map tl_metric rows) then [] else [k])"
  using row_of_None [of rows k]
  by (auto simp: mergeLatest_def Let_def split: option.splits)

definition reading_row :: "latest_reading \<Rightarrow> latest_row" where
  "reading_row r = \<lparr>tl_metric = lr_metric r, tl_value = lr_value r, tl_time = iso_of (lr_t r)\<rparr>"

lemma metrics_merges:
  "distinct (map lr_metric readings) \<Longrightarrow>
   map tl_metric (foldl merge_reading rows readings) =
     map tl_metric rows @ filter (\<lambda>m. m \<notin> set (map tl_metric rows)) (map lr_metric readings)"
proof (induction readings arbitrary: rows)
  case (Cons r rs)
  have "filter (\<lambda>m. m \<notin> A \<and> m \<noteq> lr_metric r) (map lr_metric rs) = filter (\<lambda>m. m \<notin> A) (map lr_metric rs)" for A
    using Cons.prems by (intro filter_cong) (auto intro: rev_image_eqI)
  moreover have "map tl_metric (merge_reading rows r) =
      map tl_metric rows @ (if lr_metric r \<in> set (map tl_metric rows) then [] else [lr_metric r])"
    by (simp add: merge_reading_def metrics_merge)
  ultimately show ?case using Cons.IH [of "merge_reading rows r"] Cons.prems
    by (simp del: set_map add: insert_absorb)
qed simp

lemma row_of_merges_other:
  "m \<notin> set (map lr_metric readings) \<Longrightarrow> row_of (foldl merge_reading rows readings) m = row_of rows m"
  by (induction readings arbitrary: rows) (auto simp: merge_reading_def row_of_merge)

lemma row_of_merges:
  "distinct (map lr_metric readings) \<Longrightarrow> r \<in> set readings \<Longrightarrow>
   row_of (foldl merge_reading rows readings) (lr_metric r) =
     (case row_of rows (lr_metric r) of
        None \<Rightarrow> Some (reading_row r)
      | Some e \<Rightarrow> Some (if isNewer (iso_of (lr_t r)) (tl_time e) then reading_row r else e))"
proof (induction readings arbitrary: rows)
  case (Cons x xs)
  show ?case
  proof (cases "r = x")
    case True
    then show ?thesis using Cons.prems
      by (simp add: row_of_merges_other merge_reading_def [of rows x] row_of_merge reading_row_def split: option.split)
  next
    case False
    then have "lr_metric r \<noteq> lr_metric x" using Cons.prems by (auto intro: rev_image_eqI)
    then show ?thesis using Cons False
      by (simp add: merge_reading_def [of rows x] row_of_merge)
  qed
qed simp

lemma isNewer_iso:
  assumes "time_ok t"
  shows "isNewer (iso_of t) old \<longleftrightarrow> old = [] \<or> js_lt (date_time old) (Fin (of_int \<lfloor>t * 1000\<rfloor>))"
proof -
  define z where "z = \<lfloor>t * 1000\<rfloor>"
  have "0 \<le> z" "z < 253402300800000"
    using assms by (auto simp: time_ok_def floor_less_iff z_def)
  then have "nat \<lfloor>t * 1000\<rfloor> < 253402300800000" "(of_nat (nat \<lfloor>t * 1000\<rfloor>) :: rat) = of_int \<lfloor>t * 1000\<rfloor>"
    unfolding z_def [symmetric] by simp_all
  then show ?thesis by (simp add: isNewer_def iso_of_def)
qed

section \<open>The batch a flush hands out\<close>

definition latest_ok :: "latest_reading dict dict \<Rightarrow> bool" where
  "latest_ok latest \<longleftrightarrow>
     distinct (map fst latest) \<and>
     list_all (\<lambda>(d, per). is_device_id d \<and> per \<noteq> [] \<and> distinct (map fst per) \<and>
       list_all (\<lambda>(m, r). lr_metric r = m \<and> time_ok (lr_t r)) per) latest"

lemma dict_set_mem: "p \<in> set (dict_set k v d) \<Longrightarrow> p = (k, v) \<or> p \<in> set d"
  by (induction d) (auto split: if_splits)

lemma dict_get_mem: "dict_get d k = Some v \<Longrightarrow> (k, v) \<in> set d"
  by (rule map_of_SomeD)

lemma put_latest_ok:
  assumes "latest_ok latest" "is_device_id d" "time_ok t"
  shows "latest_ok (put_latest d m v t latest)"
proof -
  let ?r = "\<lparr>lr_metric = m, lr_value = v, lr_t = t\<rparr>"
  define per where "per = (case dict_get latest d of Some per \<Rightarrow> per | None \<Rightarrow> [])"
  define fresh where "fresh = (case dict_get per m of None \<Rightarrow> True | Some current \<Rightarrow> lr_t current \<le> t)"
  define per' where "per' = (if fresh then dict_set m ?r per else per)"
  have p: "put_latest d m v t latest = dict_set d per' latest"
    by (simp add: put_latest_def per_def fresh_def per'_def Let_def)
  have per: "distinct (map fst per)" "list_all (\<lambda>(m, r). lr_metric r = m \<and> time_ok (lr_t r)) per"
    using assms(1) by (auto simp: per_def latest_ok_def list_all_iff dest!: dict_get_mem split: option.splits)
  have ne: "per' \<noteq> []"
  proof (cases fresh)
    case True
    then have "dict_get per' m = Some ?r" by (simp add: per'_def)
    then show ?thesis by auto
  next
    case False
    then show ?thesis by (auto simp: per'_def fresh_def split: option.splits)
  qed
  have "distinct (map fst per')" using per(1) by (simp add: per'_def distinct_update)
  moreover have "list_all (\<lambda>(m, r). lr_metric r = m \<and> time_ok (lr_t r)) per'"
    using per(2) assms(3) by (auto simp: per'_def list_all_iff dest!: dict_set_mem)
  ultimately show ?thesis unfolding p
    using assms(1,2) ne by (auto simp: latest_ok_def list_all_iff distinct_update dest!: dict_set_mem)
qed

definition batch_ok :: "latest_batch \<Rightarrow> bool" where
  "batch_ok batch \<longleftrightarrow>
     distinct (map fst batch) \<and>
     list_all (\<lambda>(d, rs). is_device_id d \<and> rs \<noteq> [] \<and> distinct (map lr_metric rs) \<and> list_all (\<lambda>r. time_ok (lr_t r)) rs) batch"

lemma latest_batch_ok:
  assumes "latest_ok latest"
  shows "batch_ok (map (\<lambda>(d, per). (d, map snd per)) latest)"
proof -
  have main: "is_device_id d \<and> map snd per \<noteq> [] \<and> distinct (map lr_metric (map snd per)) \<and>
      list_all (\<lambda>r. time_ok (lr_t r)) (map snd per)" if "(d, per) \<in> set latest" for d per
  proof -
    have p: "is_device_id d" "per \<noteq> []" "distinct (map fst per)" "list_all (\<lambda>(m, r). lr_metric r = m \<and> time_ok (lr_t r)) per"
      using assms that by (auto simp: latest_ok_def list_all_iff)
    have "map lr_metric (map snd per) = map fst per" using p(4) by (induction per) auto
    then have "distinct (map lr_metric (map snd per))" by (simp only: p(3))
    then show ?thesis using p by (auto simp: list_all_iff simp del: map_map)
  qed
  have "map fst (map (\<lambda>(d, per). (d, map snd per)) latest) = map fst latest" by auto
  then have "distinct (map fst (map (\<lambda>(d, per). (d, map snd per)) latest))"
    using assms unfolding latest_ok_def by (simp only:)
  moreover have "list_all (\<lambda>(d, rs). is_device_id d \<and> rs \<noteq> [] \<and> distinct (map lr_metric rs) \<and> list_all (\<lambda>r. time_ok (lr_t r)) rs)
      (map (\<lambda>(d, per). (d, map snd per)) latest)"
    unfolding list_all_iff [where xs = "map (\<lambda>(d, per). (d, map snd per)) latest"] set_map ball_simps
    using main by (auto simp del: map_map)
  ultimately show ?thesis unfolding batch_ok_def by blast
qed

section \<open>A flush, key by key\<close>

lemma apply_device_batch_other:
  "key \<noteq> latestKey (fst e) \<Longrightarrow> key \<noteq> deviceKey (fst e) \<Longrightarrow> sc_cache (apply_device_batch s e) key = sc_cache s key"
  by (cases e) (auto simp: apply_device_batch_def mutate_rows_def mutate_device_def Let_def split: option.splits cached.splits)

lemma applyLatest_other:
  "(\<And>d rs. (d, rs) \<in> set batch \<Longrightarrow> key \<noteq> latestKey d \<and> key \<noteq> deviceKey d) \<Longrightarrow>
   sc_cache (applyLatest batch s) key = sc_cache s key"
proof (induction batch arbitrary: s)
  case (Cons e es)
  obtain d rs where e: "e = (d, rs)" by fastforce
  have "sc_cache (applyLatest es (apply_device_batch s e)) key = sc_cache (apply_device_batch s e) key"
    using Cons.prems by (intro Cons.IH) auto
  also have "\<dots> = sc_cache s key" using Cons.prems [of d rs] by (intro apply_device_batch_other) (auto simp: e)
  finally show ?case by (simp add: applyLatest_def)
qed (simp add: applyLatest_def)

lemma apply_device_batch_own:
  assumes "is_device_id d"
  shows "sc_cache s (latestKey d) = Some (Rows rows) \<Longrightarrow>
           sc_cache (apply_device_batch s (d, rs)) (latestKey d) = Some (Rows (foldl merge_reading rows rs))"
    and "sc_cache s (deviceKey d) = Some (Device dv) \<Longrightarrow>
           sc_cache (apply_device_batch s (d, rs)) (deviceKey d) = Some (Device (markOnline (iso_of (newest_t rs)) dv))"
  using assms key_simps [OF assms]
  by (auto simp: apply_device_batch_def mutate_rows_def mutate_device_def hasData_def Let_def split: option.splits cached.splits)

lemma applyLatest_own:
  assumes "distinct (map fst batch)" "\<And>d rs. (d, rs) \<in> set batch \<Longrightarrow> is_device_id d" "(d, rs) \<in> set batch"
  shows "sc_cache s (latestKey d) = Some (Rows rows) \<Longrightarrow>
           sc_cache (applyLatest batch s) (latestKey d) = Some (Rows (foldl merge_reading rows rs))"
    and "sc_cache s (deviceKey d) = Some (Device dv) \<Longrightarrow>
           sc_cache (applyLatest batch s) (deviceKey d) = Some (Device (markOnline (iso_of (newest_t rs)) dv))"
proof -
  obtain as bs where b: "batch = as @ (d, rs) # bs" using assms(3) by (meson split_list)
  have id: "is_device_id d" using assms(2,3) by blast
  have off: "e \<noteq> d \<and> is_device_id e" if "(e, x) \<in> set as \<union> set bs" for e x
  proof -
    have "e \<in> fst ` set as \<union> fst ` set bs" using that by force
    moreover have "(e, x) \<in> set batch" using that by (auto simp: b)
    ultimately show ?thesis using assms(1) assms(2) [of e x] by (auto simp: b)
  qed
  have eq: "applyLatest batch s = applyLatest bs (apply_device_batch (applyLatest as s) (d, rs))"
    by (simp add: b applyLatest_def)
  have skip: "sc_cache (applyLatest es t) (latestKey d) = sc_cache t (latestKey d)"
    "sc_cache (applyLatest es t) (deviceKey d) = sc_cache t (deviceKey d)" if "set es \<subseteq> set as \<union> set bs" for es t
    using that off id key_simps by (auto intro!: applyLatest_other) (metis UnE off subsetD)+
  show "sc_cache s (latestKey d) = Some (Rows rows) \<Longrightarrow>
      sc_cache (applyLatest batch s) (latestKey d) = Some (Rows (foldl merge_reading rows rs))"
    unfolding eq using skip(1) apply_device_batch_own(1) [OF id] by simp
  show "sc_cache s (deviceKey d) = Some (Device dv) \<Longrightarrow>
      sc_cache (applyLatest batch s) (deviceKey d) = Some (Device (markOnline (iso_of (newest_t rs)) dv))"
    unfolding eq using skip(2) apply_device_batch_own(2) [OF id] by simp
qed

section \<open>Invariants of the screen\<close>

definition typed_cache :: "(string \<Rightarrow> cached option) \<Rightarrow> bool" where
  "typed_cache c \<longleftrightarrow> (\<forall>key data. c key = Some data \<longrightarrow> typed_at key data)"

definition screen_ok :: "screen \<Rightarrow> bool" where
  "screen_ok s \<longleftrightarrow> typed_cache (sc_cache s) \<and> latest_ok (lb_latest (sc_buffer s)) \<and> \<not> sc_crashed s"

lemma metrics_merges_distinct:
  "distinct (map lr_metric rs) \<Longrightarrow> distinct (map tl_metric rows) \<Longrightarrow> distinct (map tl_metric (foldl merge_reading rows rs))"
  by (simp add: metrics_merges del: set_map) auto

lemma typed_Rows: "is_device_id d \<Longrightarrow> typed_at (latestKey d) (Rows rows) \<longleftrightarrow> distinct (map tl_metric rows)"
  by (auto simp: typed_at_def)

lemma typed_Device: "is_device_id d \<Longrightarrow> typed_at (deviceKey d) (Device dv)"
  by (auto simp: typed_at_def)

lemma mutate_rows_ok:
  assumes "typed_cache (sc_cache s)" "is_device_id d" "\<not> sc_crashed s"
    "\<And>rows. distinct (map tl_metric rows) \<Longrightarrow> distinct (map tl_metric (f rows))"
  shows "typed_cache (sc_cache (mutate_rows (latestKey d) f s)) \<and> \<not> sc_crashed (mutate_rows (latestKey d) f s)"
proof (cases "sc_cache s (latestKey d)")
  case None
  then show ?thesis using assms by (simp add: mutate_rows_def)
next
  case (Some c)
  then obtain rows where r: "c = Rows rows" "distinct (map tl_metric rows)"
    using typed_latest [of d c] assms(1,2) unfolding typed_cache_def by blast
  show ?thesis using assms(1,3) assms(4) [OF r(2)] Some
    by (simp add: mutate_rows_def r(1) typed_cache_def typed_Rows [OF assms(2)])
qed

lemma mutate_device_ok:
  assumes "typed_cache (sc_cache s)" "is_device_id d" "\<not> sc_crashed s"
  shows "typed_cache (sc_cache (mutate_device (deviceKey d) f s)) \<and> \<not> sc_crashed (mutate_device (deviceKey d) f s)"
proof (cases "sc_cache s (deviceKey d)")
  case None
  then show ?thesis using assms by (simp add: mutate_device_def)
next
  case (Some c)
  then obtain dv where "c = Device dv"
    using typed_device [of d c] assms(1,2) unfolding typed_cache_def by blast
  then show ?thesis using assms Some
    by (simp add: mutate_device_def typed_cache_def typed_Device [OF assms(2)])
qed

lemma mutate_buffer [simp]:
  "sc_buffer (mutate_rows k f s) = sc_buffer s" "sc_buffer (mutate_device k g s) = sc_buffer s"
  by (auto simp: mutate_rows_def mutate_device_def split: option.splits cached.splits)

lemma apply_device_batch_ok:
  assumes "screen_ok s" "is_device_id d" "distinct (map lr_metric rs)"
  shows "screen_ok (apply_device_batch s (d, rs)) \<and> sc_buffer (apply_device_batch s (d, rs)) = sc_buffer s"
proof -
  define s1 where "s1 = (if hasData s (latestKey d) then mutate_rows (latestKey d) (\<lambda>current. foldl merge_reading current rs) s else s)"
  have s1: "typed_cache (sc_cache s1) \<and> \<not> sc_crashed s1" "sc_buffer s1 = sc_buffer s"
    using mutate_rows_ok [of s d "\<lambda>current. foldl merge_reading current rs"] assms metrics_merges_distinct [OF assms(3)]
    by (auto simp: s1_def screen_ok_def)
  then show ?thesis
    using mutate_device_ok [of s1 d "markOnline (iso_of (newest_t rs))"] assms(1,2)
    by (simp add: apply_device_batch_def screen_ok_def Let_def flip: s1_def)
qed

lemma applyLatest_ok: "screen_ok s \<Longrightarrow> batch_ok batch \<Longrightarrow> screen_ok (applyLatest batch s) \<and> sc_buffer (applyLatest batch s) = sc_buffer s"
proof (induction batch arbitrary: s)
  case (Cons e es)
  obtain d rs where e: "e = (d, rs)" by fastforce
  have "screen_ok (apply_device_batch s e)" "sc_buffer (apply_device_batch s e) = sc_buffer s"
    using apply_device_batch_ok [of s d rs] Cons.prems by (auto simp: e batch_ok_def)
  moreover have "batch_ok es" using Cons.prems(2) by (simp add: batch_ok_def)
  ultimately show ?case using Cons.IH [of "apply_device_batch s e"] by (simp add: applyLatest_def)
qed (simp add: applyLatest_def)

lemma ask_fields [simp]:
  "sc_cache (ask r s) = sc_cache s" "sc_buffer (ask r s) = sc_buffer s" "sc_crashed (ask r s) = sc_crashed s"
  by (simp_all add: ask_def)

lemma push_latest_ok: "latest_ok (lb_latest b) \<Longrightarrow> is_device_id d \<Longrightarrow> time_ok t \<Longrightarrow> latest_ok (lb_latest (push hidden d m v t b))"
  by (simp add: push_def Let_def put_latest_ok)

lemma onMessage_ok:
  assumes "screen_ok s" "message_ok m" "time_ok now"
  shows "screen_ok (onMessage now m s)"
proof -
  have d: "some_id (rm_device_id m) \<Longrightarrow> is_device_id (the (rm_device_id m))"
    using assms(2) by (auto simp: message_ok_def some_id_def split: option.splits)
  have t: "time_ok (case rm_time m of Some t \<Rightarrow> t | None \<Rightarrow> now)"
    using assms(2,3) by (auto simp: message_ok_def split: option.splits)
  let ?s = "s\<lparr>sc_emitted := sc_emitted s @ [m]\<rparr>"
  show ?thesis
    unfolding onMessage_def Let_def revalidateFeed_def
    using assms(1) d push_latest_ok [OF _ d t] mutate_device_ok [of "ask (Refetch ATTENTION_KEY) ?s" "the (rm_device_id m)"]
    by (auto simp: screen_ok_def)
qed

lemma timer_latest: "lb_latest (fst (timer_fires hidden b)) = []"
  by (simp add: timer_fires_def flush_def clear_def Let_def)

lemma timer_batch: "latest_ok (lb_latest b) \<Longrightarrow> fo_batch (snd (timer_fires hidden b)) = Some batch \<Longrightarrow> batch_ok batch"
  using latest_batch_ok [of "lb_latest b"] by (auto simp: timer_fires_def flush_def Let_def split: if_splits)

lemma latest_ok_Nil [simp]: "latest_ok []"
  by (simp add: latest_ok_def)

lemma buffer_timer_ok:
  assumes "screen_ok s"
  shows "screen_ok (buffer_timer s)"
proof -
  obtain b out where f: "timer_fires (sc_hidden s) (sc_buffer s) = (b, out)" by fastforce
  have ok: "screen_ok (s\<lparr>sc_buffer := b\<rparr>)"
    using assms timer_latest [of "sc_hidden s" "sc_buffer s"] by (simp add: screen_ok_def f)
  have "batch_ok batch" if "fo_batch out = Some batch" for batch
    using timer_batch [of "sc_buffer s" "sc_hidden s"] assms that by (simp add: screen_ok_def f)
  then show ?thesis using ok applyLatest_ok [OF ok] by (auto simp: buffer_timer_def f Let_def split: option.splits)
qed

lemma chart_latest [simp]:
  "lb_latest (fst (subscribeSeries d m l b)) = lb_latest b" "lb_latest (unsubscribe h b) = lb_latest b"
  by (auto simp: subscribeSeries_def unsubscribe_def Let_def split: option.splits)

lemma sc_step_ok: "sc_step s s' \<Longrightarrow> screen_ok s \<Longrightarrow> screen_ok s'"
proof (induction rule: sc_step.induct)
  case (frame m now s)
  then show ?case by (intro onMessage_ok)
next
  case (timer s)
  then show ?case by (intro buffer_timer_ok)
qed (auto simp: screen_ok_def typed_cache_def onStatusChange_def onVisibilityChange_def catchUpDevices_def clear_def Let_def
    useRealtime_mount_def useRealtime_unmount_def setLatestHandler_def)

lemma sc_reachable_ok: "sc_reachable s \<Longrightarrow> screen_ok s"
proof (induction rule: sc_reachable.induct)
  case (start hidden)
  show ?case by (simp add: first_screen_def screen_ok_def typed_cache_def new_buffer_def)
qed (rule sc_step_ok)

section \<open>What the screen shows\<close>

lemma timer_batch_own:
  assumes "lb_onLatest b" "dict_get (lb_latest b) d = Some per"
  shows "\<exists>batch. fo_batch (snd (timer_fires False b)) = Some batch \<and> (d, map snd per) \<in> set batch"
proof -
  have "(d, per) \<in> set (lb_latest b)" using assms(2) by (rule dict_get_mem)
  then show ?thesis using assms(1) by (auto simp: timer_fires_def flush_def Let_def intro!: rev_image_eqI)
qed

lemma flush_applies:
  assumes ok: "screen_ok s" and vis: "\<not> sc_hidden s" and on: "lb_onLatest (sc_buffer s)"
    and pend: "dict_get (lb_latest (sc_buffer s)) d = Some per"
  shows "is_device_id d" "distinct (map lr_metric (map snd per))" "\<And>r. r \<in> set (map snd per) \<Longrightarrow> time_ok (lr_t r)"
    and "sc_cache s (latestKey d) = Some (Rows rows) \<Longrightarrow>
           sc_cache (buffer_timer s) (latestKey d) = Some (Rows (foldl merge_reading rows (map snd per)))"
    and "sc_cache s (deviceKey d) = Some (Device dv) \<Longrightarrow>
           sc_cache (buffer_timer s) (deviceKey d) = Some (Device (markOnline (iso_of (newest_t (map snd per))) dv))"
proof -
  obtain b out where f: "timer_fires (sc_hidden s) (sc_buffer s) = (b, out)" by fastforce
  obtain batch where o: "fo_batch out = Some batch" "(d, map snd per) \<in> set batch"
    using timer_batch_own [OF on pend] vis f by auto
  have "batch_ok batch"
    using timer_batch [of "sc_buffer s" "sc_hidden s" batch] ok o(1) by (simp add: screen_ok_def f)
  then have b: "distinct (map fst batch)" "\<And>d rs. (d, rs) \<in> set batch \<Longrightarrow> is_device_id d \<and> distinct (map lr_metric rs) \<and> list_all (\<lambda>r. time_ok (lr_t r)) rs"
    by (auto simp: batch_ok_def list_all_iff)
  have eq: "buffer_timer s = applyLatest batch (s\<lparr>sc_buffer := b\<rparr>)" by (simp add: buffer_timer_def f o(1) Let_def)
  show "is_device_id d" "distinct (map lr_metric (map snd per))" "\<And>r. r \<in> set (map snd per) \<Longrightarrow> time_ok (lr_t r)"
    using b(2) [OF o(2)] by (auto simp: list_all_iff)
  show "sc_cache s (latestKey d) = Some (Rows rows) \<Longrightarrow>
      sc_cache (buffer_timer s) (latestKey d) = Some (Rows (foldl merge_reading rows (map snd per)))"
    unfolding eq using applyLatest_own(1) [OF b(1) _ o(2), of "s\<lparr>sc_buffer := b\<rparr>"] b(2) by simp
  show "sc_cache s (deviceKey d) = Some (Device dv) \<Longrightarrow>
      sc_cache (buffer_timer s) (deviceKey d) = Some (Device (markOnline (iso_of (newest_t (map snd per))) dv))"
    unfolding eq using applyLatest_own(2) [OF b(1) _ o(2), of "s\<lparr>sc_buffer := b\<rparr>"] b(2) by simp
qed

text \<open>C15: Whatever frames, flushes, fetches and visibility changes came before, the live updates
  never throw in a cache updater, the latest readings of a device stay a list of rows with one
  row per metric under their key, and the device stays a device under its own.\<close>

theorem live_screen_typed:
  assumes "sc_reachable s" "is_device_id d"
  shows "\<not> sc_crashed s \<and>
    (case sc_cache s (latestKey d) of None \<Rightarrow> True | Some (Rows rows) \<Rightarrow> distinct (map tl_metric rows) | Some _ \<Rightarrow> False) \<and>
    (case sc_cache s (deviceKey d) of None \<Rightarrow> True | Some (Device dv) \<Rightarrow> True | Some _ \<Rightarrow> False)"
  using sc_reachable_ok [OF assms(1)] typed_latest [OF _ assms(2)] typed_device [OF _ assms(2)]
  by (fastforce simp: screen_ok_def typed_cache_def split: option.splits cached.splits)

text \<open>When the flush runs on a visible page, each metric with a buffered reading shows in the
  cached rows of its device the newer of the cached reading and the buffered one, compared to the
  millisecond; metrics without one keep their row, and the rows keep their places, new ones at
  the end.\<close>

theorem flush_shows_newest:
  assumes "sc_reachable s" "\<not> sc_hidden s" "lb_onLatest (sc_buffer s)"
    "dict_get (lb_latest (sc_buffer s)) d = Some per" "(m, r) \<in> set per" "sc_cache s (latestKey d) = Some (Rows rows)"
  shows "case sc_cache (buffer_timer s) (latestKey d) of
     Some (Rows rows') \<Rightarrow>
       row_of rows' (lr_metric r) =
         Some (case row_of rows (lr_metric r) of
             None \<Rightarrow> reading_row r
           | Some old \<Rightarrow> if tl_time old = [] \<or> js_lt (date_time (tl_time old)) (Fin (of_int \<lfloor>lr_t r * 1000\<rfloor>))
                         then reading_row r else old) \<and>
       take (length rows) (map tl_metric rows') = map tl_metric rows \<and>
       (k \<in> lr_metric ` set (map snd per) \<or> row_of rows' k = row_of rows k)
   | _ \<Rightarrow> False"
proof -
  note f = flush_applies [OF sc_reachable_ok [OF assms(1)] assms(2,3,4)]
  have r: "r \<in> set (map snd per)" using assms(5) by force
  have "row_of (foldl merge_reading rows (map snd per)) k = row_of rows k" if "k \<notin> lr_metric ` set (map snd per)"
    using that by (intro row_of_merges_other) (simp add: image_image)
  then show ?thesis
    using row_of_merges [OF f(2) r, of rows] metrics_merges [OF f(2), of rows] isNewer_iso [OF f(3) [OF r]]
    unfolding f(4) [OF assms(6)] by (auto split: option.splits)
qed

text \<open>A health frame sets the cached device to exactly what it says. But a reading that was
  buffered before it marks the device online again at the next flush, even when the frame said
  that it went offline.\<close>

theorem stale_reading_revives_device:
  assumes "sc_reachable s" "\<not> sc_hidden s" "lb_onLatest (sc_buffer s)"
    "dict_get (lb_latest (sc_buffer s)) d = Some per" "d \<noteq> []" "sc_cache s (deviceKey d) = Some (Device dv)"
    "rm_type msg = ''device_health''" "rm_device_id msg = Some d" "rm_online msg = Some online"
  shows "let s1 = onMessage now msg s; s2 = buffer_timer s1 in
     sc_cache s1 (deviceKey d) = Some (Device (dv\<lparr>dv_connection_state := (if online then ''online'' else ''offline''),
       dv_rssi := rm_rssi msg, dv_battery_pct := rm_battery_pct msg, dv_uptime_s := rm_uptime_s msg,
       dv_fw_version := rm_fw_version msg\<rparr>)) \<and>
     (case sc_cache s2 (deviceKey d) of Some (Device dv') \<Rightarrow> dv_connection_state dv' = ''online'' | _ \<Rightarrow> False)"
proof -
  let ?s1 = "onMessage now msg s"
  have ok: "screen_ok s" by (rule sc_reachable_ok [OF assms(1)])
  have id: "is_device_id d" by (rule flush_applies(1) [OF ok assms(2,3,4)])
  have s1: "sc_cache ?s1 = (sc_cache s)(deviceKey d \<mapsto> Device (applyDeviceHealth (health_of msg online) dv))"
    "sc_buffer ?s1 = sc_buffer s" "sc_hidden ?s1 = sc_hidden s" "sc_crashed ?s1 = sc_crashed s"
    using assms(5-9) by (simp_all add: onMessage_def some_id_def hasData_def mutate_device_def ask_def)
  have ok1: "screen_ok ?s1" using ok typed_Device [OF id] by (simp add: screen_ok_def s1 typed_cache_def)
  have "sc_cache (buffer_timer ?s1) (deviceKey d) =
      Some (Device (markOnline (iso_of (newest_t (map snd per))) (applyDeviceHealth (health_of msg online) dv)))"
    using flush_applies(5) [OF ok1, of d per "applyDeviceHealth (health_of msg online) dv"] assms(2,3,4) by (simp add: s1)
  then show ?thesis by (simp add: Let_def s1 applyDeviceHealth_def health_of_def markOnline_def)
qed

section \<open>A screen with a device, one reading cached and one buffered\<close>

definition demo_id :: string where "demo_id = ''00000000-0000-4000-8000-000000000001''"

definition demo_frame :: rt_message where
  "demo_frame =
     \<lparr>rm_type = ''telemetry'', rm_device_id = Some demo_id, rm_metric = Some ''t'', rm_value = Some 21, rm_time = Some 1,
      rm_online = None, rm_rssi = None, rm_battery_pct = None, rm_uptime_s = None, rm_fw_version = None, rm_rule_id = None\<rparr>"

definition demo_rows :: "latest_row list" where
  "demo_rows = [\<lparr>tl_metric = ''t'', tl_value = 20, tl_time = ''''\<rparr>]"

definition demo_device :: device_row where
  "demo_device =
     \<lparr>dv_id = demo_id, dv_connection_state = ''online'', dv_last_seen_at = None, dv_rssi = None, dv_battery_pct = None,
      dv_uptime_s = None, dv_fw_version = None\<rparr>"

definition demo_cached :: screen where
  "demo_cached =
     (let s0 = useRealtime_mount (first_screen False);
          s1 = s0\<lparr>sc_cache := (sc_cache s0)(latestKey demo_id \<mapsto> Rows demo_rows)\<rparr>
      in s1\<lparr>sc_cache := (sc_cache s1)(deviceKey demo_id \<mapsto> Device demo_device)\<rparr>)"

definition demo_screen :: screen where
  "demo_screen = onMessage 0 demo_frame demo_cached"

lemma demo_is_id: "is_device_id demo_id"
  by (simp add: is_device_id_def demo_id_def)

lemma demo_screen_keys: "latestKey demo_id \<noteq> deviceKey demo_id"
  using key_simps [OF demo_is_id] by metis

lemma demo_reachable: "sc_reachable demo_screen"
proof -
  let ?s0 = "useRealtime_mount (first_screen False)"
  let ?s1 = "?s0\<lparr>sc_cache := (sc_cache ?s0)(latestKey demo_id \<mapsto> Rows demo_rows)\<rparr>"
  let ?s2 = "?s1\<lparr>sc_cache := (sc_cache ?s1)(deviceKey demo_id \<mapsto> Device demo_device)\<rparr>"
  have "sc_reachable ?s0" by (rule sc_reachable.step [OF sc_reachable.start sc_step.mount])
  moreover have "typed_at (latestKey demo_id) (Rows demo_rows)"
    by (simp add: typed_Rows [OF demo_is_id] demo_rows_def)
  ultimately have "sc_reachable ?s1" by (metis sc_reachable.step sc_step.fetched)
  then have "sc_reachable ?s2" using typed_Device [OF demo_is_id] by (metis sc_reachable.step sc_step.fetched)
  then have "sc_reachable demo_cached" by (simp add: demo_cached_def Let_def)
  moreover have "message_ok demo_frame" "time_ok 0"
    using demo_is_id by (simp_all add: message_ok_def demo_frame_def time_ok_def)
  ultimately show ?thesis unfolding demo_screen_def by (metis sc_reachable.step sc_step.frame)
qed

lemma demo_fields:
  "sc_cache demo_screen (latestKey demo_id) = Some (Rows demo_rows)"
  "sc_cache demo_screen (deviceKey demo_id) = Some (Device demo_device)"
  "\<not> sc_hidden demo_screen" "lb_onLatest (sc_buffer demo_screen)"
  "dict_get (lb_latest (sc_buffer demo_screen)) demo_id = Some [(''t'', \<lparr>lr_metric = ''t'', lr_value = 21, lr_t = 1\<rparr>)]"
  using demo_screen_keys
  by (simp_all add: demo_screen_def demo_cached_def demo_frame_def onMessage_def some_id_def demo_id_def Let_def push_def put_latest_def
      useRealtime_mount_def first_screen_def setLatestHandler_def new_buffer_def)

lemma live_screen_typed_witness: "\<not> sc_crashed demo_screen \<and> is_device_id demo_id"
  using live_screen_typed [OF demo_reachable demo_is_id] demo_is_id by simp

lemma flush_shows_newest_witness:
  "case sc_cache (buffer_timer demo_screen) (latestKey demo_id) of
     Some (Rows rows') \<Rightarrow> row_of rows' ''t'' = Some \<lparr>tl_metric = ''t'', tl_value = 21, tl_time = iso_of 1\<rparr>
   | _ \<Rightarrow> False"
proof -
  have "row_of demo_rows ''t'' = Some \<lparr>tl_metric = ''t'', tl_value = 20, tl_time = ''''\<rparr>"
    by (simp add: demo_rows_def row_of_def)
  then show ?thesis
    using flush_shows_newest [OF demo_reachable demo_fields(3,4,5) _ demo_fields(1), of "''t''" "\<lparr>lr_metric = ''t'', lr_value = 21, lr_t = 1\<rparr>" "[]"]
    by (auto simp: reading_row_def split: option.splits cached.splits)
qed

lemma stale_reading_revives_device_witness:
  "let off = demo_frame\<lparr>rm_type := ''device_health'', rm_online := Some False\<rparr>;
       s1 = onMessage 2 off demo_screen; s2 = buffer_timer s1
   in (case sc_cache s1 (deviceKey demo_id) of Some (Device dv) \<Rightarrow> dv_connection_state dv = ''offline'' | _ \<Rightarrow> False) \<and>
      (case sc_cache s2 (deviceKey demo_id) of Some (Device dv) \<Rightarrow> dv_connection_state dv = ''online'' | _ \<Rightarrow> False)"
  using stale_reading_revives_device [OF demo_reachable demo_fields(3,4,5) _ demo_fields(2),
      of "demo_frame\<lparr>rm_type := ''device_health'', rm_online := Some False\<rparr>" False 2]
  by (simp add: demo_frame_def Let_def) (simp add: demo_id_def)

end
