(* ===== verification/Sketch_Facts.thy ===== *)
theory Sketch_Facts imports Sketch begin

text \<open>
  What the generated sketch guarantees: user text stays inside the C string literal or the comment
  it is put into and reads back as it was typed, and the C names of a sketch are distinct for
  wire ids made of lower-case letters, digits and dashes.
\<close>

section \<open>User text in a C literal\<close>

text \<open>A C compiler reading a string literal, from behind its opening quote: the text and the rest.
  A line break ends the literal, which is an error; only the escapes the sketch uses are known.\<close>

fun c_string :: "string \<Rightarrow> (string \<times> string) option" where
  "c_string [] = None"
| "c_string [c] = (if c = CHR 0x22 then Some ([], []) else None)"
| "c_string (c # d # cs) =
     (if c = CHR 0x22 then Some ([], d # cs)
      else if c = CHR 0x5C then
        (if d = CHR 0x22 \<or> d = CHR 0x5C then map_option (\<lambda>(s, r). (d # s, r)) (c_string cs) else None)
      else if line_break c then None
      else map_option (\<lambda>(s, r). (c # s, r)) (c_string (d # cs)))"

definition c_esc :: "char \<Rightarrow> string" where
  "c_esc c = (if c = CHR 0x22 then [CHR 0x5C, CHR 0x22] else if c = CHR 0x5C then [CHR 0x5C, CHR 0x5C] else [c])"

lemma replaced_chars:
  "replace_char CHR 0x22 (bs @ dq) (replace_char CHR 0x5C (bs @ bs) s) = concat (map c_esc s)"
  by (induction s) (auto simp: replace_char_def c_esc_def bs_def dq_def)

lemma c_esc_break: "line_break (hd (c_esc c)) \<longleftrightarrow> line_break c" "c_esc c \<noteq> []"
  by (auto simp: c_esc_def line_break_def)

lemma one_line_append: "list_all (\<lambda>c. \<not> line_break c) p \<Longrightarrow> one_line (p @ r) = p @ one_line r"
  by (induction p) auto

lemma one_line_esc: "one_line (concat (map c_esc s)) = concat (map c_esc (one_line s))"
proof (induction s)
  case (Cons c s)
  let ?r = "concat (map c_esc s)"
  have ne: "?r \<noteq> [] \<longleftrightarrow> s \<noteq> []" using c_esc_break(2) by (cases s) auto
  have hd: "s \<noteq> [] \<Longrightarrow> line_break (hd ?r) \<longleftrightarrow> line_break (hd s)"
    using c_esc_break by (cases s) (auto simp: hd_append)
  show ?case
  proof (cases "line_break c")
    case True
    then have e: "c_esc c = [c]" "c_esc CHR '' '' = '' ''" by (auto simp: c_esc_def line_break_def)
    show ?thesis
    proof (cases "s \<noteq> [] \<and> line_break (hd s)")
      case t: True
      then have "one_line (c # ?r) = one_line ?r" using True ne hd by simp
      then show ?thesis using t True Cons.IH by (simp add: e)
    next
      case f: False
      then have "one_line (c # ?r) = CHR '' '' # one_line ?r" using True ne hd by auto
      then show ?thesis using f True Cons.IH by (simp add: e)
    qed
  next
    case False
    then have "list_all (\<lambda>c. \<not> line_break c) (c_esc c)" by (auto simp: c_esc_def line_break_def)
    then show ?thesis using False Cons.IH by (simp add: one_line_append)
  qed
qed simp

lemma one_line_flat: "list_all (\<lambda>c. \<not> line_break c) (one_line s)"
  by (induction s) (auto simp: line_break_def)

lemma c_string_escaped: "list_all (\<lambda>c. \<not> line_break c) t \<Longrightarrow> c_string (concat (map c_esc t) @ CHR 0x22 # rest) = Some (t, rest)"
proof (induction t)
  case Nil
  show ?case by (cases rest) auto
next
  case (Cons c t)
  obtain d ds where r: "concat (map c_esc t) @ CHR 0x22 # rest = d # ds" by (cases "concat (map c_esc t)") auto
  have ih: "c_string (d # ds) = Some (t, rest)" using Cons r by simp
  have lb: "\<not> line_break c" using Cons.prems by simp
  show ?case
  proof -
    have e: "c_esc CHR 0x22 = [CHR 0x5C, CHR 0x22]" "c_esc CHR 0x5C = [CHR 0x5C, CHR 0x5C]" by (simp_all add: c_esc_def)
    consider "c = CHR 0x22" | "c = CHR 0x5C" | "c \<noteq> CHR 0x22" "c \<noteq> CHR 0x5C" by blast
    then show ?thesis
    proof cases
      case 3
      then have "c_esc c = [c]" by (simp add: c_esc_def)
      then show ?thesis using ih lb 3 by (simp add: r)
    qed (use ih in \<open>simp_all add: e r\<close>)
  qed
qed

text \<open>C26: Text put into a C string literal of the sketch ends exactly at the closing quote and reads
  back as the text with each run of line breaks made one space; it contains no line break, so it
  cannot end a comment line either.\<close>

theorem cText_stays_inside:
  "c_string (cText s @ dq @ rest) = Some (one_line s, rest) \<and> list_all (\<lambda>c. \<not> line_break c) (cText s)"
proof -
  have c: "cText s = concat (map c_esc (one_line s))"
    by (simp add: cText_def replaced_chars one_line_esc)
  have "list_all (\<lambda>c. \<not> line_break c) (cText s)"
    unfolding cText_def by (rule one_line_flat)
  then show ?thesis using c_string_escaped [OF one_line_flat, of s rest] by (simp add: c dq_def)
qed

section \<open>C names\<close>

definition slug_like :: "string \<Rightarrow> bool" where
  "slug_like s \<longleftrightarrow> list_all (\<lambda>c. slug_char c \<or> c = CHR ''-'') s"

definition const_char :: "char \<Rightarrow> char" where
  "const_char c = upper_char (if identifier_char c then c else CHR ''_'')"

lemma pin_const_chars: "pin_const (toIdentifier s) = map const_char s @ ''_PIN''"
  by (simp add: pin_const_def toIdentifier_def const_char_def)

lemma char_code_inj: "char_code c = char_code d \<longleftrightarrow> c = d"
  by (simp add: char_code_def)

lemma char_code_small: "char_code c < 256"
  by (simp add: char_code_def)

lemma char_code_of: "n < 256 \<Longrightarrow> char_code (char_of n) = n"
  by (simp add: char_code_def)

lemma const_char_code:
  "slug_char c \<or> c = CHR ''-'' \<Longrightarrow>
   char_code (const_char c) = (if is_lower c then char_code c - 32 else if is_digit c then char_code c else 95)"
proof -
  assume "slug_char c \<or> c = CHR ''-''"
  then consider "is_lower c" | "is_digit c" "\<not> is_lower c" | "c = CHR ''-''"
    unfolding slug_char_def by blast
  then show ?thesis
  proof cases
    case 1
    then have "char_code c - 32 < 256" using char_code_small [of c] by simp
    then show ?thesis using 1 by (simp add: const_char_def identifier_char_def upper_char_def char_code_of)
  next
    case 2
    then show ?thesis by (simp add: const_char_def identifier_char_def upper_char_def)
  next
    case 3
    show ?thesis unfolding 3 by code_simp
  qed
qed

lemma const_char_inj:
  assumes "slug_char c \<or> c = CHR ''-''" "slug_char d \<or> d = CHR ''-''" "const_char c = const_char d"
  shows "c = d"
proof -
  have "char_code (const_char c) = char_code (const_char d)" using assms(3) by simp
  moreover have "char_code CHR ''-'' = 45" by (simp add: char_code_def)
  ultimately have "char_code c = char_code d"
    using assms(1,2) unfolding const_char_code [OF assms(1)] const_char_code [OF assms(2)]
    by (auto simp: slug_char_def is_lower_def is_digit_def split: if_splits)
  then show ?thesis by (simp add: char_code_inj)
qed

lemma const_inj: "slug_like s \<Longrightarrow> slug_like t \<Longrightarrow> pin_const (toIdentifier s) = pin_const (toIdentifier t) \<longleftrightarrow> s = t"
proof -
  assume s: "slug_like s" "slug_like t"
  have "map const_char s = map const_char t \<Longrightarrow> s = t"
    using s const_char_inj
  proof (induction s t rule: list_induct2')
    case (4 x xs y ys)
    then show ?case by (auto simp: slug_like_def)
  qed auto
  then show ?thesis by (auto simp: pin_const_chars)
qed

lemma ident_inj: "slug_like s \<Longrightarrow> slug_like t \<Longrightarrow> toIdentifier s = toIdentifier t \<Longrightarrow> s = t"
  using const_inj by metis

text \<open>The names of the GPIO constants, with the reset button's, and of the actuators' functions.\<close>

definition pin_names :: "sketch_info \<Rightarrow> string list" where
  "pin_names i =
     ''RESET_PIN'' # map mr_pinConst (filter mr_isBool (metricRows i)) @
     map ar_pinConst (filter (\<lambda>r. ar_pin r \<noteq> None) (actuatorRows i))"

definition wire_ids :: "sketch_info \<Rightarrow> string list" where
  "wire_ids i = map metric_id (metrics_of i) @ map actuator_id (sk_actuators i)"

lemma distinct_map_on:
  assumes "distinct xs" "\<And>x y. x \<in> set xs \<Longrightarrow> y \<in> set xs \<Longrightarrow> g x = g y \<Longrightarrow> x = y"
  shows "distinct (map g xs)"
  unfolding distinct_map using assms(1) inj_onI [OF assms(2), of "set xs"] by simp

text \<open>C40: When the wire ids of a device's metrics and actuators are distinct, made of lower-case
  letters, digits and dashes, and none is \<open>reset\<close>, the sketch defines each GPIO constant once,
  with the reset button's among them, and each actuator's functions and topics once.\<close>

theorem sketch_names_distinct:
  assumes "distinct (wire_ids i)" "list_all slug_like (wire_ids i)" "''reset'' \<notin> set (wire_ids i)"
  shows "distinct (pin_names i) \<and> distinct (map ar_id (actuatorRows i))"
proof -
  let ?ms = "filter (\<lambda>m. cm_data_type m = BoolD) (metrics_of i)"
  let ?as = "filter (\<lambda>a. ca_value_type a \<noteq> StringV) (sk_actuators i)"
  let ?ids = "map metric_id ?ms @ map actuator_id ?as"
  have sub: "set ?ids \<subseteq> set (wire_ids i)" by (auto simp: wire_ids_def)
  have d: "distinct ?ids"
  proof -
    have p: "distinct (map metric_id (metrics_of i))" "distinct (map actuator_id (sk_actuators i))"
      "set (map metric_id (metrics_of i)) \<inter> set (map actuator_id (sk_actuators i)) = {}"
      using assms(1) by (simp_all only: wire_ids_def distinct_append)
    have "set (map metric_id ?ms) \<subseteq> set (map metric_id (metrics_of i))"
      "set (map actuator_id ?as) \<subseteq> set (map actuator_id (sk_actuators i))" by auto
    then have "set (map metric_id ?ms) \<inter> set (map actuator_id ?as) = {}"
      using p(3) by (meson disjoint_iff subsetD)
    then show ?thesis using distinct_map_filter [OF p(1)] distinct_map_filter [OF p(2)] by (simp only: distinct_append)
  qed
  have names: "pin_names i = map (\<lambda>s. pin_const (toIdentifier s)) (''reset'' # ?ids)"
  proof -
    have "pin_const (toIdentifier ''reset'') = ''RESET_PIN''" by code_simp
    moreover have "map mr_pinConst (filter mr_isBool (metricRows i)) = map (\<lambda>s. pin_const (toIdentifier s)) (map metric_id ?ms)"
      unfolding metricRows_def by (simp add: filter_map o_def Let_def)
    moreover have "(\<lambda>a. ca_value_type a = StringV \<longrightarrow> False) = (\<lambda>a. ca_value_type a \<noteq> StringV)" by simp
    then have "map ar_pinConst (filter (\<lambda>r. ar_pin r \<noteq> None) (actuatorRows i)) = map (\<lambda>s. pin_const (toIdentifier s)) (map actuator_id ?as)"
      unfolding actuatorRows_def by (simp add: filter_map o_def Let_def if_distrib cong: if_cong)
    ultimately show ?thesis by (simp add: pin_names_def)
  qed
  have "slug_like ''reset''" by code_simp
  then have slug: "slug_like s" if "s \<in> set (''reset'' # ?ids)" for s
    using that sub assms(2) by (auto simp: list_all_iff)
  have "distinct (''reset'' # ?ids)" using d sub assms(3) by auto
  then have "distinct (pin_names i)"
    unfolding names
  proof (rule distinct_map_on)
    fix x y assume "x \<in> set (''reset'' # ?ids)" "y \<in> set (''reset'' # ?ids)" "pin_const (toIdentifier x) = pin_const (toIdentifier y)"
    then show "x = y" using const_inj [OF slug slug] by simp
  qed
  moreover have "distinct (map ar_id (actuatorRows i))"
  proof -
    have rows: "map ar_id (actuatorRows i) = map toIdentifier (map actuator_id (sk_actuators i))"
      by (simp add: actuatorRows_def Let_def)
    have own: "distinct (map actuator_id (sk_actuators i))" using assms(1) by (simp add: wire_ids_def)
    have slug2: "slug_like s" if "s \<in> set (map actuator_id (sk_actuators i))" for s
      using that assms(2) unfolding wire_ids_def list_all_iff by simp
    from own have "distinct (map toIdentifier (map actuator_id (sk_actuators i)))"
    proof (rule distinct_map_on)
      fix x y assume "x \<in> set (map actuator_id (sk_actuators i))" "y \<in> set (map actuator_id (sk_actuators i))" "toIdentifier x = toIdentifier y"
      then show "x = y" by (rule ident_inj [OF slug2 slug2])
    qed
    then show ?thesis unfolding rows .
  qed
  ultimately show ?thesis by simp
qed

text \<open>Keys the template editor accepts can still clash in C: a dash and an underscore become the same
  name, and an on/off metric called \<open>reset\<close> redefines the reset button's constant.\<close>

lemma dash_and_underscore_clash: "toIdentifier ''bay-1'' = toIdentifier ''bay_1''"
  by code_simp

lemma reset_metric_clash: "pin_const (toIdentifier ''reset'') = ''RESET_PIN''"
  by code_simp

lemma leading_digit_constant: "pin_const (toIdentifier ''1st'') = ''1ST_PIN''"
  by code_simp

definition demo_sketch :: sketch_info where
  "demo_sketch =
     \<lparr>sk_tenantSlug = ''acme'', sk_deviceSlug = ''bay-1'', sk_deviceName = ''Bay 1'', sk_board = None, sk_host = ''localhost'', sk_tls = False,
      sk_metrics = [\<lparr>cm_name = ''Door'', cm_key = Some ''door'', cm_unit = None, cm_data_type = BoolD, cm_decimals = None, cm_min = None,
                     cm_max = None, cm_publish = On_change, cm_interval = None, cm_deadband = None\<rparr>],
      sk_actuators = [\<lparr>ca_name = ''Fan'', ca_key = Some ''fan-1'', ca_value_type = BoolV, ca_allowed = None, ca_on_value = None, ca_off_value = None\<rparr>],
      sk_credential = None, sk_wifi = None, sk_prov = None, sk_pins = []\<rparr>"

lemma sketch_names_distinct_witness:
  "wire_ids demo_sketch = [''door'', ''fan-1''] \<and> distinct (pin_names demo_sketch)"
proof -
  have w: "wire_ids demo_sketch = [''door'', ''fan-1'']"
    by (simp add: wire_ids_def metrics_of_def demo_sketch_def wireId_def or_else_def)
  moreover have "list_all slug_like [''door'', ''fan-1'']" by code_simp
  ultimately show ?thesis using sketch_names_distinct [of demo_sketch] by simp
qed

end
