(* ===== verification/Srp.thy ===== *)
theory Srp
  imports Json
begin

text \<open>
  The salt and verifier of provisioning Security 2 (frontend/src/lib/srp6a.ts): big numbers to bytes and
  back through hexadecimal text, modular exponentiation by squaring, and the SRP6a verifier. SHA-512 and
  the random bytes are parameters; a bigint is a natural number, a Uint8Array a list of bytes.
\<close>

type_synonym octets = "nat list"

section \<open>The group\<close>

text \<open>RFC 5054's 3072-bit prime; the source's twelve lines are one numeral here.\<close>

definition N :: nat where
  "N = 0xffffffffffffffffc90fdaa22168c234c4c6628b80dc1cd129024e088a67cc74020bbea63b139b22514a08798e3404ddef9519b3cd3a431b302b0a6df25f14374fe1356d6d51c245e485b576625e7ec6f44c42e9a637ed6b0bff5cb6f406b7edee386bfb5a899fa5ae9f24117c4b1fe649286651ece45b3dc2007cb8a163bf0598da48361c55d39a69163fa8fd24cf5f83655d23dca3ad961c62f356208552bb9ed529077096966d670c354e4abc9804f1746c08ca18217c32905e462e36ce3be39e772c180e86039b2783a2ec07a28fb5c55df06f4c52c9de2bcbf6955817183995497cea956ae515d2261898fa051015728e5a8aaac42dad33170d04507a33a85521abdf1cba64ecfb850458dbef0a8aea71575d060c7db3970f85a6e1e4c7abf5ae8cdb0933d71e8c94e04a25619dcee3d2261ad2ee6bf12ffa06d98a0864d87602733ec86a64521f2b18177b200cbbe117577a615d6c770988c0bad946e208e24fa074e5ab3143db5bfce0fd108e4b82d120a93ad2caffffffffffffffff"

definition G :: nat where "G = 5"
definition SALT_LEN :: nat where "SALT_LEN = 16"

section \<open>Numbers and bytes\<close>

text \<open>\<open>n.toString(16)\<close> and \<open>padStart(2, "0")\<close>.\<close>

fun hex_text :: "nat \<Rightarrow> string" where
  "hex_text n = (if n < 16 then [hex_digit n] else hex_text (n div 16) @ [hex_digit (n mod 16)])"

declare hex_text.simps [simp del]

definition two_digits :: "nat \<Rightarrow> string" where
  "two_digits x = (let h = hex_text x in if length h < 2 then CHR ''0'' # h else h)"

text \<open>\<open>BigInt("0x" + h)\<close> and \<open>parseInt(h, 16)\<close> of hexadecimal digits; a text that is none does not occur.\<close>

definition of_hex :: "string \<Rightarrow> nat" where
  "of_hex h = (case based_val 16 0 h of Some n \<Rightarrow> n | None \<Rightarrow> 0)"

definition toBig :: "octets \<Rightarrow> nat" where
  "toBig b = of_hex (or_else (concat (map two_digits b)) ''0'')"

text \<open>\<open>hex.match(/../g)\<close>\<close>

fun pairs :: "string \<Rightarrow> string list" where
  "pairs (a # b # cs) = [a, b] # pairs cs"
| "pairs _ = []"

definition toBytes :: "nat \<Rightarrow> octets" where
  "toBytes n = (let h = hex_text n; hex = (if odd (length h) then CHR ''0'' # h else h) in map of_hex (pairs hex))"

section \<open>Modular exponentiation\<close>

function mod_pow_from :: "nat \<Rightarrow> nat \<Rightarrow> nat \<Rightarrow> nat \<Rightarrow> nat" where
  "mod_pow_from result b e m =
     (if 0 < e
      then mod_pow_from (if odd e then result * b mod m else result) (b * b mod m) (e div 2) m
      else result)"
  by pat_completeness auto
termination by (relation "measure (\<lambda>(result, b, e, m). e)") auto

declare mod_pow_from.simps [simp del]

definition modPow :: "nat \<Rightarrow> nat \<Rightarrow> nat \<Rightarrow> nat" where
  "modPow base expo m = mod_pow_from 1 (base mod m) expo m"

section \<open>Credentials\<close>

text \<open>\<open>random\<close> are the bytes getRandomValues gave.\<close>

definition randomSalt :: "octets \<Rightarrow> octets" where
  "randomSalt random = (if random ! 0 = 0 then random[0 := 1] else random)"

definition encode_utf8 :: "string \<Rightarrow> octets" where
  "encode_utf8 s = map char_code s"

definition sha512 :: "(octets \<Rightarrow> octets) \<Rightarrow> octets list \<Rightarrow> octets" where
  "sha512 digest parts = digest (concat parts)"

definition sec2Credentials :: "(octets \<Rightarrow> octets) \<Rightarrow> string \<Rightarrow> string \<Rightarrow> octets \<Rightarrow> octets \<times> octets" where
  "sec2Credentials digest username password salt =
     (let inner = sha512 digest [encode_utf8 username, encode_utf8 '':'', encode_utf8 password];
          x = toBig (sha512 digest [salt, inner])
      in (salt, toBytes (modPow G x N)))"

section \<open>The squaring loop is the power\<close>

lemma mod_pow_from_eq: "mod_pow_from result b e m mod m = result * b ^ e mod m"
proof (induction result b e m rule: mod_pow_from.induct)
  case (1 result b e m)
  show ?case
  proof (cases "e = 0")
    case True
    then show ?thesis by (simp add: mod_pow_from.simps)
  next
    case False
    define r where "r = (if odd e then result * b mod m else result)"
    have "mod_pow_from result b e m mod m = r * (b * b mod m) ^ (e div 2) mod m"
      using 1 False by (simp add: mod_pow_from.simps [of result b e] r_def)
    also have "\<dots> = r * (b * b) ^ (e div 2) mod m" by (metis mod_mult_right_eq power_mod)
    also have "\<dots> = result * b ^ e mod m"
    proof (cases "odd e")
      case True
      have "b ^ e = b * (b * b) ^ (e div 2)"
        using True by (metis odd_two_times_div_two_succ power_Suc power2_eq_square power_mult Suc_eq_plus1)
      then show ?thesis using True by (simp add: r_def mult.assoc mod_mult_left_eq)
    next
      case even: False
      have "b ^ e = (b * b) ^ (e div 2)" using even by (metis dvd_mult_div_cancel power2_eq_square power_mult)
      then show ?thesis using even by (simp add: r_def)
    qed
    finally show ?thesis .
  qed
qed

lemma mod_pow_from_less: "result < m \<Longrightarrow> mod_pow_from result b e m < m"
proof (induction result b e m rule: mod_pow_from.induct)
  case (1 result b e m)
  then show ?case by (subst mod_pow_from.simps) auto
qed

lemma modPow_eq: "1 < m \<Longrightarrow> modPow base expo m = base ^ expo mod m"
  using mod_pow_from_less [of 1 m "base mod m" expo] mod_pow_from_eq [of 1 "base mod m" expo m]
  by (simp add: modPow_def power_mod)

section \<open>Bytes and numbers agree\<close>

text \<open>The big-endian value of bytes.\<close>

definition be_value :: "octets \<Rightarrow> nat" where
  "be_value b = foldl (\<lambda>a x. 256 * a + x) 0 b"

lemma based_val_append:
  "based_val r a (xs @ ys) = (case based_val r a xs of None \<Rightarrow> None | Some n \<Rightarrow> based_val r n ys)"
  by (induction xs arbitrary: a) (auto split: option.splits)

lemma hex_text_val: "based_val 16 0 (hex_text n) = Some n"
proof (induction n rule: hex_text.induct)
  case (1 n)
  show ?case
  proof (cases "n < 16")
    case True
    then show ?thesis by (simp add: hex_text.simps [of n] hex_digit_val)
  next
    case False
    then show ?thesis using 1 by (simp add: hex_text.simps [of n] hex_digit_val based_val_append)
  qed
qed

definition hex_string :: "string \<Rightarrow> bool" where
  "hex_string s \<longleftrightarrow> (\<forall>c\<in>set s. \<exists>d<16. hex_val c = Some d)"

lemma hex_string_simps [simp]: "hex_string []" "hex_string (c # s) \<longleftrightarrow> (\<exists>d<16. hex_val c = Some d) \<and> hex_string s"
  by (auto simp: hex_string_def)

lemma hex_string_append [simp]: "hex_string (s @ t) \<longleftrightarrow> hex_string s \<and> hex_string t"
  by (auto simp: hex_string_def)

lemma hex_text_string: "hex_string (hex_text n)"
proof (induction n rule: hex_text.induct)
  case (1 n)
  then show ?case by (subst hex_text.simps) (auto simp: hex_digit_val)
qed

lemma zero_hex: "hex_val CHR ''0'' = Some 0"
  using hex_digit_val [of 0] by (simp add: hex_digit_def)

lemma pairs_value:
  "hex_string s \<Longrightarrow> even (length s) \<Longrightarrow>
   based_val 16 a s = Some (foldl (\<lambda>a x. 256 * a + x) a (map of_hex (pairs s))) \<and>
   list_all (\<lambda>x. x < 256) (map of_hex (pairs s)) \<and> length (pairs s) = length s div 2"
proof (induction s arbitrary: a rule: pairs.induct)
  case (1 c d s)
  from 1(2) obtain x y where h: "hex_val c = Some x" "hex_val d = Some y" "x < 16" "y < 16" "hex_string s" by auto
  then have v: "of_hex [c, d] = 16 * x + y" by (simp add: of_hex_def)
  have e: "16 * (16 * a + x) + y = 256 * a + (16 * x + y)" by simp
  note e' = arg_cong [where f = "\<lambda>z. based_val 16 z s", OF e]
  have "based_val 16 a (c # d # s) = based_val 16 (256 * a + (16 * x + y)) s" using h e' by simp
  then show ?case using 1(1) [of "256 * a + (16 * x + y)"] 1(3) h v by simp
qed simp_all

lemma toBytes_facts: "be_value (toBytes n) = n \<and> list_all (\<lambda>x. x < 256) (toBytes n) \<and> length (toBytes n) = (length (hex_text n) + 1) div 2"
proof -
  define h where "h = (if odd (length (hex_text n)) then CHR ''0'' # hex_text n else hex_text n)"
  have s: "hex_string h" "even (length h)" using hex_text_string [of n] zero_hex by (auto simp: h_def)
  have v: "based_val 16 0 h = Some n" using hex_text_val [of n] zero_hex by (simp add: h_def)
  have l: "length h div 2 = (length (hex_text n) + 1) div 2" by (simp add: h_def)
  have b: "toBytes n = map of_hex (pairs h)" by (simp add: toBytes_def Let_def h_def)
  have "n = be_value (map of_hex (pairs h))" using pairs_value [OF s, of 0] v by (simp add: be_value_def)
  then show ?thesis using pairs_value [OF s, of 0] l unfolding b by (metis length_map)
qed

lemma two_digits_byte: "x < 256 \<Longrightarrow> two_digits x = [hex_digit (x div 16), hex_digit (x mod 16)]"
proof -
  assume x: "x < 256"
  then have "x div 16 < 16" by (simp add: div_less_iff_less_mult)
  then show ?thesis
    by (simp add: two_digits_def Let_def hex_text.simps [of x] hex_text.simps [of "x div 16"] hex_digit_def)
qed

lemma two_digits_value:
  "list_all (\<lambda>x. x < 256) b \<Longrightarrow> based_val 16 a (concat (map two_digits b)) = Some (foldl (\<lambda>a x. 256 * a + x) a b)"
proof (induction b arbitrary: a)
  case (Cons x b)
  then have "x div 16 < 16" "x mod 16 < 16" by (simp_all add: div_less_iff_less_mult)
  moreover have "16 * (16 * a + x div 16) + x mod 16 = 256 * a + x" by simp
  then have "based_val 16 (16 * (16 * a + x div 16) + x mod 16) cs = based_val 16 (256 * a + x) cs" for cs by (rule arg_cong)
  ultimately show ?case using Cons by (simp add: two_digits_byte hex_digit_val add.commute)
qed simp

lemma toBig_eq: "list_all (\<lambda>x. x < 256) b \<Longrightarrow> toBig b = be_value b"
proof (cases b)
  case Nil
  then show ?thesis by (simp add: toBig_def of_hex_def or_else_def be_value_def zero_hex)
next
  case (Cons x xs)
  assume b: "list_all (\<lambda>x. x < 256) b"
  then have "concat (map two_digits b) \<noteq> []" using Cons by (simp add: two_digits_byte)
  then show ?thesis using two_digits_value [OF b, of 0]
    unfolding toBig_def of_hex_def or_else_def be_value_def by (simp only: if_False option.case)
qed

lemma hex_text_length: "0 < k \<Longrightarrow> n < 16 ^ k \<Longrightarrow> length (hex_text n) \<le> k"
proof (induction n arbitrary: k rule: hex_text.induct)
  case (1 n)
  show ?case
  proof (cases "n < 16")
    case True
    then show ?thesis using 1(2) by (simp add: hex_text.simps [of n])
  next
    case False
    then obtain i where i: "k = Suc i" "0 < i" using 1(2,3) by (cases k; cases "k - 1") auto
    then have "n div 16 < 16 ^ i" using 1(3) by (simp add: div_less_iff_less_mult mult.commute)
    then show ?thesis using 1(1) [OF False i(2)] False i by (simp add: hex_text.simps [of n])
  qed
qed

lemma toBytes_length: "0 < k \<Longrightarrow> n < 256 ^ k \<Longrightarrow> length (toBytes n) \<le> k"
proof -
  assume k: "0 < k" "n < 256 ^ k"
  have "(256::nat) ^ k = 16 ^ (2 * k)" by (simp add: power_mult)
  then have "length (hex_text n) \<le> 2 * k" using k by (intro hex_text_length) simp_all
  then show ?thesis using toBytes_facts [of n] by linarith
qed

lemma N_size: "1 < N \<and> N < 256 ^ 384"
  by (simp add: N_def)

text \<open>
  C28: the verifier's bytes are the big-endian number 5 to the power x modulo the 3072-bit prime, x the
  hash of the salt and of the hash of \<open>username:password\<close>; it fits the board's 384 bytes, reading it back
  gives the same number, and the salt is passed on unchanged.
\<close>

theorem srp_verifier:
  "case sec2Credentials digest username password salt of (s, v) \<Rightarrow>
     s = salt \<and>
     be_value v = 5 ^ toBig (digest (salt @ digest (encode_utf8 (username @ '':'' @ password)))) mod N \<and>
     toBig v = be_value v \<and> list_all (\<lambda>x. x < 256) v \<and> length v \<le> 384"
proof -
  define x where "x = toBig (digest (salt @ digest (encode_utf8 (username @ '':'' @ password))))"
  have r: "sec2Credentials digest username password salt = (salt, toBytes (modPow G x N))"
    by (simp add: sec2Credentials_def sha512_def encode_utf8_def x_def Let_def)
  have m: "modPow G x N = 5 ^ x mod N" using modPow_eq [of N G x] N_size by (simp add: G_def)
  then have "modPow G x N < 256 ^ 384" using N_size by (metis less_trans mod_less_divisor zero_less_one less_trans)
  then have "length (toBytes (modPow G x N)) \<le> 384" by (rule toBytes_length [rotated]) simp
  then show ?thesis using toBytes_facts [of "modPow G x N"] toBig_eq [of "toBytes (modPow G x N)"] m
    by (simp add: r x_def)
qed

text \<open>A random salt never starts with a zero byte.\<close>

lemma randomSalt_head: "random \<noteq> [] \<Longrightarrow> randomSalt random ! 0 \<noteq> 0 \<and> length (randomSalt random) = length random"
  by (simp add: randomSalt_def)

end
