(* ===== verification/Template_Facts.thy ===== *)
theory Template_Facts
  imports Template_Draft
begin

text \<open>Opening a saved template and saving it unchanged: what comes back, field by field.\<close>

section \<open>Fields\<close>














section \<open>Rows\<close>








section \<open>The wiring's rows\<close>







section \<open>The template\<close>






text \<open>A value with a comma in it does not survive an edit of its list: it comes back as two.\<close>

lemma comma_value_split: "allowed_out ''a,b'' (Some [PStr ''a,b'']) = Some [PStr ''a'', PStr ''b'']"
proof -
  have "allowed_texts ''a,b'' = [''a'', ''b'']"
    by (simp add: allowed_texts_def non_empty_def trim_id is_space_def)
  then show ?thesis by (simp add: allowed_out_def Let_def)
qed

end
