(* ===== verification/Wifi_Setup.thy ===== *)
theory Wifi_Setup imports Rung Readings List_Facts Dashboards begin

text \<open>
  Setting up a board's Wi-Fi from the phone (\<open>mobile/src/provisioning\<close>, the screens \<open>scan.tsx\<close> and
  \<open>wifi.tsx\<close> of \<open>mobile/src/app/(app)/devices\<close>): the scanner, the devices a provisioning QR can belong
  to, the networks a board reports, the words for a failure, and the Wi-Fi screen as a state machine.
  The provisioning library, the permission dialog, the clock and the loaded devices are the
  environment: each reply is an event.  An awaited call is an element of \<open>ws_waiting\<close>; a board's
  secure session is a number, open from the library's reply until the app disconnects it.  Proofs are in \<open>Wifi_Facts\<close>.
\<close>

section \<open>scan.tsx\<close>

datatype scan_goes = To_device string | To_wifi provisioning_qr

record scanner =
  sn_handled :: bool
  sn_lastUnknown :: string
  sn_unknown :: bool
  sn_goes :: "scan_goes list"

definition new_scanner :: scanner where
  "new_scanner = \<lparr>sn_handled = False, sn_lastUnknown = [], sn_unknown = False, sn_goes = []\<rparr>"

definition onScanned :: "string \<Rightarrow> scanner \<Rightarrow> scanner" where
  "onScanned txt s =
     (if sn_handled s then s
      else case deviceIdFromLink txt of
        Some i \<Rightarrow> s\<lparr>sn_handled := True, sn_goes := sn_goes s @ [To_device i]\<rparr>
      | None \<Rightarrow>
          (case parseProvisioningQr txt of
             Some qr \<Rightarrow> s\<lparr>sn_handled := True, sn_goes := sn_goes s @ [To_wifi qr]\<rparr>
           | None \<Rightarrow> if txt \<noteq> sn_lastUnknown s then s\<lparr>sn_lastUnknown := txt, sn_unknown := True\<rparr> else s))"

section \<open>scanned.ts and ble.ts\<close>

record phone_device =
  pd_id :: string
  pd_name :: string

definition devicesForQr :: "(string \<Rightarrow> string) \<Rightarrow> phone_device list \<Rightarrow> provisioning_qr \<Rightarrow> phone_device list" where
  "devicesForQr ascii devices qr =
     (let byId = (case pq_username qr of None \<Rightarrow> [] | Some u \<Rightarrow> if u = [] then [] else filter (\<lambda>d. pd_id d = u) devices)
      in if byId \<noteq> [] then byId else filter (\<lambda>d. provName ascii (pd_name d) = pq_name qr) devices)"

datatype platform = Android nat | Other_os

definition wanted_permissions :: "nat \<Rightarrow> string list" where
  "wanted_permissions version = (if 31 \<le> version then [''BLUETOOTH_SCAN'', ''BLUETOOTH_CONNECT''] else [''ACCESS_FINE_LOCATION''])"

definition requestBlePermissions :: "platform \<Rightarrow> (string \<Rightarrow> bool) \<Rightarrow> bool" where
  "requestBlePermissions os granted = (case os of Android v \<Rightarrow> list_all granted (wanted_permissions v) | Other_os \<Rightarrow> True)"

datatype esp_security = Secure2 | Secure | Unsecure

record board_request =
  br_name :: string
  br_security :: esp_security
  br_pop :: string
  br_username :: "string option"

definition connectBoard :: "provisioning_qr \<Rightarrow> board_request" where
  "connectBoard qr =
     \<lparr>br_name = pq_name qr,
      br_security = (case pq_security qr of Sec2 \<Rightarrow> Secure2 | Sec1 \<Rightarrow> Secure | Sec0 \<Rightarrow> Unsecure),
      br_pop = pq_pop qr, br_username = pq_username qr\<rparr>"

section \<open>wifi.ts\<close>

record access_point =
  ap_ssid :: string
  ap_rssi :: int
  ap_auth :: nat

record wifi_network =
  wn_ssid :: string
  wn_rssi :: int
  wn_open :: bool

definition network_of :: "access_point \<Rightarrow> wifi_network" where
  "network_of n = \<lparr>wn_ssid = ap_ssid n, wn_rssi = ap_rssi n, wn_open = (ap_auth n = 0)\<rparr>"

definition keep_best :: "wifi_network dict \<Rightarrow> access_point \<Rightarrow> wifi_network dict" where
  "keep_best best n =
     (if ap_ssid n = [] then best
      else case dict_get best (ap_ssid n) of
        Some prev \<Rightarrow> if wn_rssi prev < ap_rssi n then dict_set (ap_ssid n) (network_of n) best else best
      | None \<Rightarrow> dict_set (ap_ssid n) (network_of n) best)"

definition networksFrom :: "access_point list \<Rightarrow> wifi_network list" where
  "networksFrom aps = js_sort (\<lambda>a b. of_int (wn_rssi b - wn_rssi a)) (map snd (foldl keep_best [] aps))"

definition signalLabel :: "int \<Rightarrow> string" where
  "signalLabel rssi =
     (if - 60 \<le> rssi then ''Strong'' else if - 72 \<le> rssi then ''Good'' else if - 82 \<le> rssi then ''Weak'' else ''Very weak'')"

datatype setup_step = Permission_step | Connect_step | Scan_step | Provision_step

text \<open>\<open>/word/i.test(message)\<close> for a lower-case word.\<close>

definition mentions :: "string \<Rightarrow> string \<Rightarrow> bool" where
  "mentions message w = contains (lower_case message) w"

datatype failure = Needs_bluetooth | Wrong_password | No_such_network | Not_nearby | Qr_refused | No_list | Lost_connection

definition explainFailure :: "setup_step \<Rightarrow> string \<Rightarrow> failure" where
  "explainFailure step message =
     (if step = Permission_step \<or> mentions message ''permission'' then Needs_bluetooth
      else if mentions message ''auth_failed'' \<or> mentions message ''auth'' then Wrong_password
      else if mentions message ''network_not_found'' then No_such_network
      else if step = Connect_step \<and> (mentions message ''not found'' \<or> mentions message ''scan'') then Not_nearby
      else if step = Connect_step then Qr_refused
      else if step = Scan_step then No_list
      else Lost_connection)"

definition failure_title :: "failure \<Rightarrow> string" where
  "failure_title f =
     (case f of
        Needs_bluetooth \<Rightarrow> ''IO Driven needs Bluetooth access''
      | Wrong_password \<Rightarrow> ''The Wi-Fi password is wrong''
      | No_such_network \<Rightarrow> ''The board couldn'' @ [CHR 0x27] @ ''t find that network''
      | Not_nearby \<Rightarrow> ''The board isn'' @ [CHR 0x27] @ ''t nearby or isn'' @ [CHR 0x27] @ ''t waiting for Wi-Fi''
      | Qr_refused \<Rightarrow> ''The board didn'' @ [CHR 0x27] @ ''t accept this QR''
      | No_list \<Rightarrow> ''Couldn'' @ [CHR 0x27] @ ''t list Wi-Fi networks''
      | Lost_connection \<Rightarrow> ''The board lost the connection'')"

definition failure_detail :: "failure \<Rightarrow> string" where
  "failure_detail f =
     (case f of
        Needs_bluetooth \<Rightarrow> ''Allow Nearby devices (or Location on older Android) for IO Driven in the phone'' @ [CHR 0x27] @ ''s Settings, then try again.''
      | Wrong_password \<Rightarrow> ''Check it, including capitals, and send it again.''
      | No_such_network \<Rightarrow> ''The board only joins 2.4 GHz Wi-Fi. Check the network'' @ [CHR 0x27] @ ''s name, move the board closer to the router, or pick another network.''
      | Not_nearby \<Rightarrow> ''Keep the phone within a few metres and turn Bluetooth on. If the board already has Wi-Fi, hold its BOOT button (or, with a generated sketch on an ESP32, the button on GPIO 19) for 5 seconds while it runs, then try again.''
      | Qr_refused \<Rightarrow> ''The QR is probably from an older credential. Scan the QR printed with the board'' @ [CHR 0x27] @ ''s current sketch or firmware.''
      | No_list \<Rightarrow> ''Try again, or type the network'' @ [CHR 0x27] @ ''s name under Other network.''
      | Lost_connection \<Rightarrow> ''Keep the phone close to the board and try again.'')"

section \<open>The Wi-Fi screen\<close>

datatype retry = Retry_connect | Retry_scan | Retry_form string bool "wifi_network list"

datatype wifi_phase =
    Working setup_step string
  | Networks "wifi_network list"
  | Password string bool "wifi_network list"
  | Joined string int
  | Failed setup_step failure retry

text \<open>The calls an \<open>await\<close> waits for.\<close>

datatype awaited = Permission_call | Connect_call | Scan_call | Provision_call string string "wifi_network list"

record wifi_screen =
  ws_qr :: "provisioning_qr option"
  ws_devices :: "phone_device list option"
  ws_chosen :: "string option"
  ws_phase :: wifi_phase
  ws_board :: "nat option"
  ws_started :: bool
  ws_left :: bool
  ws_waiting :: "awaited list"
  ws_open :: "nat list"
  ws_sessions :: nat
  ws_sent :: "(nat \<times> string \<times> string) list"

definition new_wifi_screen :: "provisioning_qr option \<Rightarrow> wifi_screen" where
  "new_wifi_screen qr =
     \<lparr>ws_qr = qr, ws_devices = None, ws_chosen = None,
      ws_phase = Working Permission_step (''Checking Bluetooth access'' @ ellipsis),
      ws_board = None, ws_started = False, ws_left = False, ws_waiting = [], ws_open = [], ws_sessions = 0, ws_sent = []\<rparr>"

definition qr_matches :: "(string \<Rightarrow> string) \<Rightarrow> wifi_screen \<Rightarrow> phone_device list" where
  "qr_matches ascii s = (case (ws_qr s, ws_devices s) of (Some qr, Some ds) \<Rightarrow> devicesForQr ascii ds qr | _ \<Rightarrow> [])"

definition setup_device :: "(string \<Rightarrow> string) \<Rightarrow> wifi_screen \<Rightarrow> phone_device option" where
  "setup_device ascii s =
     (let ms = qr_matches ascii s;
          i = (case ws_chosen s of Some c \<Rightarrow> Some c | None \<Rightarrow> (case ms of [d] \<Rightarrow> Some (pd_id d) | _ \<Rightarrow> None))
      in List.find (\<lambda>d. Some (pd_id d) = i) ms)"

definition needsPick :: "(string \<Rightarrow> string) \<Rightarrow> wifi_screen \<Rightarrow> bool" where
  "needsPick ascii s \<longleftrightarrow> 1 < length (qr_matches ascii s) \<and> (ws_chosen s = None \<or> ws_chosen s = Some [])"

text \<open>After leaving, setting the phase does nothing.\<close>

definition setPhase :: "wifi_phase \<Rightarrow> wifi_screen \<Rightarrow> wifi_screen" where
  "setPhase p s = (if ws_left s then s else s\<lparr>ws_phase := p\<rparr>)"

definition waits :: "awaited \<Rightarrow> wifi_screen \<Rightarrow> wifi_screen" where
  "waits c s = s\<lparr>ws_waiting := c # ws_waiting s\<rparr>"

definition got :: "awaited \<Rightarrow> wifi_screen \<Rightarrow> wifi_screen" where
  "got c s = s\<lparr>ws_waiting := remove1 c (ws_waiting s)\<rparr>"

definition disconnect :: "wifi_screen \<Rightarrow> wifi_screen" where
  "disconnect s = (case ws_board s of None \<Rightarrow> s | Some b \<Rightarrow> s\<lparr>ws_open := removeAll b (ws_open s)\<rparr>)"

definition fail :: "setup_step \<Rightarrow> string \<Rightarrow> retry \<Rightarrow> wifi_screen \<Rightarrow> wifi_screen" where
  "fail step message r = setPhase (Failed step (explainFailure step message) r)"

definition scanNetworks :: "wifi_screen \<Rightarrow> wifi_screen" where
  "scanNetworks s =
     (if ws_board s = None then s
      else waits Scan_call (setPhase (Working Scan_step (''Asking the board for nearby Wi-Fi'' @ ellipsis)) s))"

definition wifi_connect :: "wifi_screen \<Rightarrow> wifi_screen" where
  "wifi_connect s =
     (if ws_qr s = None then s
      else waits Permission_call (setPhase (Working Permission_step (''Checking Bluetooth access'' @ ellipsis)) s))"

text \<open>The permission call answers or rejects; a rejection is caught by nothing.\<close>

definition connect_permitted :: "bool option \<Rightarrow> wifi_screen \<Rightarrow> wifi_screen" where
  "connect_permitted answer s =
     (case answer of
        None \<Rightarrow> s
      | Some False \<Rightarrow> fail Permission_step ''permission'' Retry_connect s
      | Some True \<Rightarrow>
          waits Connect_call (disconnect
            (setPhase (Working Connect_step (''Looking for '' @ (case ws_qr s of Some qr \<Rightarrow> pq_name qr | None \<Rightarrow> []) @ '' over Bluetooth'' @ ellipsis)) s)))"

definition connect_replied :: "string option \<Rightarrow> wifi_screen \<Rightarrow> wifi_screen" where
  "connect_replied err s =
     (case err of
        Some message \<Rightarrow> fail Connect_step message Retry_connect s
      | None \<Rightarrow>
          scanNetworks (s\<lparr>ws_board := Some (ws_sessions s), ws_open := ws_sessions s # ws_open s, ws_sessions := Suc (ws_sessions s)\<rparr>))"

definition scan_replied :: "string + access_point list \<Rightarrow> wifi_screen \<Rightarrow> wifi_screen" where
  "scan_replied r s =
     (case r of
        Inl message \<Rightarrow> fail Scan_step message Retry_scan s
      | Inr aps \<Rightarrow> setPhase (Networks (networksFrom aps)) s)"

definition wifi_send :: "string \<Rightarrow> string \<Rightarrow> wifi_network list \<Rightarrow> wifi_screen \<Rightarrow> wifi_screen" where
  "wifi_send ssid password networks s =
     (case ws_board s of None \<Rightarrow> s
      | Some b \<Rightarrow>
          waits (Provision_call ssid password networks)
            (setPhase (Working Provision_step (''Sending '' @ ssid @ '' to the board'' @ ellipsis)) s)
              \<lparr>ws_sent := (b, ssid, password) # ws_sent s\<rparr>)"

definition provision_replied :: "string \<Rightarrow> string \<Rightarrow> wifi_network list \<Rightarrow> string option \<Rightarrow> int \<Rightarrow> wifi_screen \<Rightarrow> wifi_screen" where
  "provision_replied ssid password networks err now s =
     (case err of
        None \<Rightarrow> setPhase (Joined ssid now) s
      | Some message \<Rightarrow> fail Provision_step message (Retry_form ssid (password = []) networks) s)"

definition do_retry :: "retry \<Rightarrow> wifi_screen \<Rightarrow> wifi_screen" where
  "do_retry r s =
     (case r of Retry_connect \<Rightarrow> wifi_connect s | Retry_scan \<Rightarrow> scanNetworks s
      | Retry_form ssid opn networks \<Rightarrow> setPhase (Password ssid opn networks) s)"

text \<open>The effect that starts once.\<close>

definition start_effect :: "(string \<Rightarrow> string) \<Rightarrow> wifi_screen \<Rightarrow> wifi_screen" where
  "start_effect ascii s =
     (if ws_qr s = None \<or> ws_devices s = None \<or> ws_started s \<or> needsPick ascii s then s
      else wifi_connect (s\<lparr>ws_started := True\<rparr>))"

text \<open>The password form: what \<open>submit\<close> says, or what it sends.\<close>

definition form_submit :: "string \<Rightarrow> bool \<Rightarrow> string \<Rightarrow> string + (string \<times> string)" where
  "form_submit ssid opn password =
     (if trim ssid = [] then Inl (''Enter the network'' @ [CHR 0x27] @ ''s name.'')
      else if \<not> opn \<and> 0 < utf16_length password \<and> utf16_length password < 8 then Inl ''Wi-Fi passwords are at least 8 characters.''
      else Inr (trim ssid, if opn then [] else password))"

text \<open>The name is typed only for "Other network", the password only where the form asks for one.\<close>

definition press_join :: "string \<Rightarrow> string \<Rightarrow> wifi_screen \<Rightarrow> wifi_screen" where
  "press_join typed password s =
     (case ws_phase s of
        Password initial opn networks \<Rightarrow>
          (case form_submit (if initial \<noteq> [] then initial else typed) opn (if opn then [] else password) of
             Inl problem \<Rightarrow> s
           | Inr (ssid, pw) \<Rightarrow> wifi_send ssid pw networks s)
      | _ \<Rightarrow> s)"

definition leave :: "wifi_screen \<Rightarrow> wifi_screen" where
  "leave s = (disconnect s)\<lparr>ws_left := True\<rparr>"

section \<open>Events\<close>

datatype wifi_event =
    Devices_loaded "phone_device list"
  | Choose string
  | Permission_reply "bool option"
  | Connect_reply "string option"
  | Scan_reply "string + access_point list"
  | Provision_reply string string "wifi_network list" "string option" int
  | Pick wifi_network
  | Pick_other
  | Rescan
  | Join string string
  | Another_network
  | Try_again
  | Leave

fun wifi_does :: "(string \<Rightarrow> string) \<Rightarrow> wifi_event \<Rightarrow> wifi_screen \<Rightarrow> wifi_screen" where
  "wifi_does ascii (Devices_loaded ds) s = start_effect ascii (s\<lparr>ws_devices := Some ds\<rparr>)"
| "wifi_does ascii (Choose i) s = start_effect ascii (s\<lparr>ws_chosen := Some i\<rparr>)"
| "wifi_does ascii (Permission_reply a) s = connect_permitted a (got Permission_call s)"
| "wifi_does ascii (Connect_reply e) s = connect_replied e (got Connect_call s)"
| "wifi_does ascii (Scan_reply r) s = scan_replied r (got Scan_call s)"
| "wifi_does ascii (Provision_reply ssid pw ns e now) s = provision_replied ssid pw ns e now (got (Provision_call ssid pw ns) s)"
| "wifi_does ascii (Pick n) s = (case ws_phase s of Networks ns \<Rightarrow> setPhase (Password (wn_ssid n) (wn_open n) ns) s | _ \<Rightarrow> s)"
| "wifi_does ascii Pick_other s = (case ws_phase s of Networks ns \<Rightarrow> setPhase (Password [] False ns) s | _ \<Rightarrow> s)"
| "wifi_does ascii Rescan s = scanNetworks s"
| "wifi_does ascii (Join typed pw) s = press_join typed pw s"
| "wifi_does ascii Another_network s = (case ws_phase s of Password i opn ns \<Rightarrow> setPhase (Networks ns) s | _ \<Rightarrow> s)"
| "wifi_does ascii Try_again s = (case ws_phase s of Failed st f r \<Rightarrow> do_retry r s | _ \<Rightarrow> s)"
| "wifi_does ascii Leave s = leave s"

text \<open>What the screen offers and what can be answered.\<close>

fun wifi_offers :: "(string \<Rightarrow> string) \<Rightarrow> wifi_screen \<Rightarrow> wifi_event \<Rightarrow> bool" where
  "wifi_offers ascii s (Devices_loaded ds) = (\<not> ws_left s)"
| "wifi_offers ascii s (Choose i) = (\<not> ws_left s \<and> needsPick ascii s \<and> i \<in> pd_id ` set (qr_matches ascii s))"
| "wifi_offers ascii s (Permission_reply a) = (Permission_call \<in> set (ws_waiting s))"
| "wifi_offers ascii s (Connect_reply e) = (Connect_call \<in> set (ws_waiting s))"
| "wifi_offers ascii s (Scan_reply r) = (Scan_call \<in> set (ws_waiting s))"
| "wifi_offers ascii s (Provision_reply ssid pw ns e now) = (Provision_call ssid pw ns \<in> set (ws_waiting s))"
| "wifi_offers ascii s (Pick n) = (\<not> ws_left s \<and> (case ws_phase s of Networks ns \<Rightarrow> n \<in> set ns | _ \<Rightarrow> False))"
| "wifi_offers ascii s Pick_other = (\<not> ws_left s \<and> (case ws_phase s of Networks ns \<Rightarrow> True | _ \<Rightarrow> False))"
| "wifi_offers ascii s Rescan = (\<not> ws_left s \<and> (case ws_phase s of Networks ns \<Rightarrow> True | _ \<Rightarrow> False))"
| "wifi_offers ascii s (Join typed pw) = (\<not> ws_left s \<and> (case ws_phase s of Password i opn ns \<Rightarrow> True | _ \<Rightarrow> False))"
| "wifi_offers ascii s Another_network = (\<not> ws_left s \<and> (case ws_phase s of Password i opn ns \<Rightarrow> True | _ \<Rightarrow> False))"
| "wifi_offers ascii s Try_again = (\<not> ws_left s \<and> (case ws_phase s of Failed st f r \<Rightarrow> True | _ \<Rightarrow> False))"
| "wifi_offers ascii s Leave = (\<not> ws_left s)"

inductive wifi_reaches :: "(string \<Rightarrow> string) \<Rightarrow> wifi_screen \<Rightarrow> wifi_screen \<Rightarrow> bool" for ascii s where
  here: "wifi_reaches ascii s s"
| event: "wifi_reaches ascii s t \<Longrightarrow> wifi_offers ascii t e \<Longrightarrow> wifi_reaches ascii s (wifi_does ascii e t)"

text \<open>After joining: the first message since, with 5 s for the clocks, or 90 s without one.\<close>

definition ONLINE_WAIT_MS :: nat where "ONLINE_WAIT_MS = 90000"

definition board_online :: "string option \<Rightarrow> int \<Rightarrow> bool" where
  "board_online last_seen since =
     (case last_seen of None \<Rightarrow> False | Some t \<Rightarrow> js_ge (date_time t) (Fin (of_int since - 5000)))"

datatype joined_view = Joined_only | Is_online | Not_reached | Waiting_online

definition joinedView :: "bool \<Rightarrow> string option \<Rightarrow> int \<Rightarrow> nat \<Rightarrow> joined_view" where
  "joinedView known last_seen since elapsed_ms =
     (if \<not> known then Joined_only
      else if board_online last_seen since then Is_online
      else if ONLINE_WAIT_MS \<le> elapsed_ms then Not_reached
      else Waiting_online)"

end
