(* ===== verification/Wifi_Facts.thy ===== *)
theory Wifi_Facts imports Wifi_Setup begin

text \<open>
  What the Wi-Fi set-up guarantees: the list of networks; which call may be awaited in which phase,
  that the board is only spoken to over the one session that is open, what is sent to it; and what
  leaving the screen closes, and when it does not.
\<close>

section \<open>The networks listed\<close>

text \<open>What the fold has kept after some access points.\<close>

definition best_entry :: "access_point list \<Rightarrow> string \<Rightarrow> wifi_network \<Rightarrow> bool" where
  "best_entry aps k n \<longleftrightarrow>
     wn_ssid n = k \<and> n \<in> network_of ` set aps \<and> list_all (\<lambda>a. ap_rssi a \<le> wn_rssi n) (filter (\<lambda>a. ap_ssid a = k) aps)"

definition best_of :: "access_point list \<Rightarrow> wifi_network dict \<Rightarrow> bool" where
  "best_of aps best \<longleftrightarrow>
     distinct (map fst best) \<and> fst ` set best = ap_ssid ` set aps - {[]} \<and> (\<forall>k n. (k, n) \<in> set best \<longrightarrow> best_entry aps k n)"

lemma set_update_distinct:
  "distinct (map fst d) \<Longrightarrow> set (dict_set k v d) = insert (k, v) {x \<in> set d. fst x \<noteq> k}"
proof (induction d)
  case (Cons x d)
  then show ?case by (cases x) (auto simp: image_iff)
qed simp

lemma best_entry_kept: "best_entry aps k m \<Longrightarrow> ap_ssid n \<noteq> k \<or> ap_rssi n \<le> wn_rssi m \<Longrightarrow> best_entry (aps @ [n]) k m"
  by (auto simp: best_entry_def)

lemma best_entry_new:
  "(\<And>a. a \<in> set aps \<Longrightarrow> ap_ssid a = ap_ssid n \<Longrightarrow> ap_rssi a \<le> ap_rssi n) \<Longrightarrow> best_entry (aps @ [n]) (ap_ssid n) (network_of n)"
  by (auto simp: best_entry_def network_of_def list_all_iff)

lemma best_of_update:
  assumes "best_of aps best" "ap_ssid n \<noteq> []" "\<And>a. a \<in> set aps \<Longrightarrow> ap_ssid a = ap_ssid n \<Longrightarrow> ap_rssi a \<le> ap_rssi n"
  shows "best_of (aps @ [n]) (dict_set (ap_ssid n) (network_of n) best)"
proof -
  have d: "distinct (map fst best)" and names: "fst ` set best = ap_ssid ` set aps - {[]}"
    and each: "\<And>k m. (k, m) \<in> set best \<Longrightarrow> best_entry aps k m" using assms(1) by (simp_all add: best_of_def)
  let ?new = "dict_set (ap_ssid n) (network_of n) best"
  have "fst ` set ?new = insert (ap_ssid n) (fst ` set best)" by (simp add: dom_update)
  also have "\<dots> = ap_ssid ` set (aps @ [n]) - {[]}" unfolding names using assms(2) by auto
  finally have "fst ` set ?new = ap_ssid ` set (aps @ [n]) - {[]}" .
  moreover have "best_entry (aps @ [n]) k m" if "(k, m) \<in> set ?new" for k m
    using that d each best_entry_new [of aps n, OF assms(3)] best_entry_kept by (auto simp: set_update_distinct)
  ultimately show ?thesis using d by (simp add: best_of_def distinct_update)
qed

lemma keep_best_ok:
  assumes "best_of aps best"
  shows "best_of (aps @ [n]) (keep_best best n)"
proof -
  have names: "fst ` set best = ap_ssid ` set aps - {[]}" and each: "\<And>k m. (k, m) \<in> set best \<Longrightarrow> best_entry aps k m"
    and d: "distinct (map fst best)" using assms by (simp_all add: best_of_def)
  have keep: "best_of (aps @ [n]) best"
    if "ap_ssid n = [] \<or> ap_ssid n \<in> ap_ssid ` set aps" and low: "\<And>m. (ap_ssid n, m) \<in> set best \<Longrightarrow> ap_rssi n \<le> wn_rssi m"
  proof -
    have "ap_ssid ` set (aps @ [n]) - {[]} = ap_ssid ` set aps - {[]}" using that(1) by auto
    moreover have "best_entry (aps @ [n]) k m" if "(k, m) \<in> set best" for k m
      using best_entry_kept [OF each [OF that], of n] low [of m] that by auto
    ultimately show ?thesis using d names by (simp add: best_of_def)
  qed
  consider "ap_ssid n = []" | "ap_ssid n \<noteq> []" "dict_get best (ap_ssid n) = None" |
    prev where "ap_ssid n \<noteq> []" "dict_get best (ap_ssid n) = Some prev" by (cases "dict_get best (ap_ssid n)") auto
  then show ?thesis
  proof cases
    case 1
    have "(ap_ssid n, m) \<notin> set best" for m using 1 names imageI [of "(ap_ssid n, m)" "set best" fst] by auto
    then show ?thesis using 1 keep by (simp add: keep_best_def)
  next
    case 2
    then have "ap_ssid n \<notin> fst ` set best" by (simp add: map_of_eq_None_iff)
    then have "ap_ssid a \<noteq> ap_ssid n" if "a \<in> set aps" for a using names 2(1) imageI [OF that, of ap_ssid] by auto
    then show ?thesis using best_of_update [OF assms 2(1)] 2 by (auto simp: keep_best_def)
  next
    case 3
    then have prev: "(ap_ssid n, prev) \<in> set best" by (simp add: map_of_SomeD)
    then have le: "\<And>a. a \<in> set aps \<Longrightarrow> ap_ssid a = ap_ssid n \<Longrightarrow> ap_rssi a \<le> wn_rssi prev"
      using each by (auto simp: best_entry_def list_all_iff)
    show ?thesis
    proof (cases "wn_rssi prev < ap_rssi n")
      case True
      then have "\<And>a. a \<in> set aps \<Longrightarrow> ap_ssid a = ap_ssid n \<Longrightarrow> ap_rssi a \<le> ap_rssi n" using le by fastforce
      from best_of_update [OF assms 3(1) this] show ?thesis using True 3 by (simp add: keep_best_def)
    next
      case False
      have "ap_rssi n \<le> wn_rssi m" if "(ap_ssid n, m) \<in> set best" for m
        using eq_key_imp_eq_value [OF d that prev] False by simp
      moreover have "ap_ssid n \<in> ap_ssid ` set aps" using names imageI [OF prev, of fst] by simp
      ultimately show ?thesis using keep False 3 by (simp add: keep_best_def)
    qed
  qed
qed

lemma best_of_fold: "best_of aps (foldl keep_best [] aps)"
proof (induction aps rule: rev_induct)
  case Nil
  then show ?case by (simp add: best_of_def)
next
  case (snoc n aps)
  then show ?case using keep_best_ok by simp
qed

text \<open>
  The list of networks has one row per visible name, the strongest access point of that name,
  strongest first, and none for hidden ones.
\<close>

theorem networksFrom_correct:
  "distinct (map wn_ssid (networksFrom aps)) \<and> wn_ssid ` set (networksFrom aps) = ap_ssid ` set aps - {[]} \<and>
   sorted_wrt (\<lambda>a b. wn_rssi b \<le> wn_rssi a) (networksFrom aps) \<and>
   list_all (\<lambda>n. n \<in> network_of ` set aps \<and>
       list_all (\<lambda>a. ap_rssi a \<le> wn_rssi n) (filter (\<lambda>a. ap_ssid a = wn_ssid n) aps)) (networksFrom aps)"
proof -
  let ?best = "foldl keep_best [] aps" and ?cmp = "\<lambda>a b. rat_of_int (wn_rssi b - wn_rssi a)"
  have b: "best_of aps ?best" by (rule best_of_fold)
  have "preorder_on_rows ?cmp (set (map snd ?best))"
    by (auto simp: preorder_on_rows_def)
  note f = js_sort_facts(1,2) [OF this]
  have names: "map wn_ssid (map snd ?best) = map fst ?best"
    using b by (auto simp: best_of_def best_entry_def)
  have "mset (map wn_ssid (networksFrom aps)) = mset (map fst ?best)"
    unfolding networksFrom_def names [symmetric] by (simp only: mset_map f(1))
  then have "distinct (map wn_ssid (networksFrom aps))"
    using b unfolding best_of_def by (metis mset_eq_imp_distinct_iff)
  moreover have m: "set (networksFrom aps) = snd ` set ?best"
    unfolding networksFrom_def by (simp only: mset_eq_setD [OF f(1)] list.set_map)
  moreover have "wn_ssid ` snd ` set ?best = fst ` set ?best" using arg_cong [OF names, of set] by (simp add: image_image)
  moreover have "sorted_wrt (\<lambda>a b. wn_rssi b \<le> wn_rssi a) (networksFrom aps)"
    using f(2) unfolding networksFrom_def by (rule sorted_wrt_mono_rel [rotated]) simp
  ultimately show ?thesis using b by (auto simp: best_of_def best_entry_def list_all_iff)
qed

section \<open>Runs of the Wi-Fi screen\<close>

definition session_open :: "wifi_screen \<Rightarrow> bool" where
  "session_open s \<longleftrightarrow> ws_board s \<noteq> None \<and> ws_open s = [the (ws_board s)]"

lemma setPhase_fields [simp]:
  "ws_qr (setPhase p s) = ws_qr s" "ws_devices (setPhase p s) = ws_devices s" "ws_chosen (setPhase p s) = ws_chosen s"
  "ws_board (setPhase p s) = ws_board s" "ws_started (setPhase p s) = ws_started s" "ws_left (setPhase p s) = ws_left s"
  "ws_waiting (setPhase p s) = ws_waiting s" "ws_open (setPhase p s) = ws_open s" "ws_sessions (setPhase p s) = ws_sessions s"
  "ws_sent (setPhase p s) = ws_sent s" "ws_phase (setPhase p s) = (if ws_left s then ws_phase s else p)"
  by (simp_all add: setPhase_def)

lemma waits_fields [simp]:
  "ws_qr (waits c s) = ws_qr s" "ws_phase (waits c s) = ws_phase s" "ws_board (waits c s) = ws_board s"
  "ws_started (waits c s) = ws_started s" "ws_left (waits c s) = ws_left s" "ws_waiting (waits c s) = c # ws_waiting s"
  "ws_open (waits c s) = ws_open s" "ws_sessions (waits c s) = ws_sessions s" "ws_sent (waits c s) = ws_sent s"
  by (simp_all add: waits_def)

lemma got_fields [simp]:
  "ws_qr (got c s) = ws_qr s" "ws_phase (got c s) = ws_phase s" "ws_board (got c s) = ws_board s"
  "ws_started (got c s) = ws_started s" "ws_left (got c s) = ws_left s" "ws_waiting (got c s) = remove1 c (ws_waiting s)"
  "ws_open (got c s) = ws_open s" "ws_sessions (got c s) = ws_sessions s" "ws_sent (got c s) = ws_sent s"
  by (simp_all add: got_def)

lemma disconnect_fields [simp]:
  "ws_qr (disconnect s) = ws_qr s" "ws_phase (disconnect s) = ws_phase s" "ws_board (disconnect s) = ws_board s"
  "ws_started (disconnect s) = ws_started s" "ws_left (disconnect s) = ws_left s" "ws_waiting (disconnect s) = ws_waiting s"
  "ws_sessions (disconnect s) = ws_sessions s" "ws_sent (disconnect s) = ws_sent s"
  by (simp_all add: disconnect_def split: option.split)

lemma disconnect_closes: "ws_open s = [] \<or> session_open s \<Longrightarrow> ws_open (disconnect s) = []"
  by (auto simp: disconnect_def session_open_def split: option.split)

definition retry_of :: "setup_step \<Rightarrow> retry \<Rightarrow> bool" where
  "retry_of st r \<longleftrightarrow>
     (case r of Retry_connect \<Rightarrow> st = Permission_step \<or> st = Connect_step | Retry_scan \<Rightarrow> st = Scan_step
      | Retry_form i opn ns \<Rightarrow> st = Provision_step)"

text \<open>What is awaited in a phase, and whether the phase needs the board's session.\<close>

fun joining :: "awaited list \<Rightarrow> bool" where
  "joining [Provision_call i pw ns] = True"
| "joining w = False"

fun phase_fits :: "wifi_phase \<Rightarrow> awaited list \<Rightarrow> bool \<Rightarrow> bool" where
  "phase_fits (Working Permission_step l) w opn = (w = [] \<or> w = [Permission_call])"
| "phase_fits (Working Connect_step l) w opn = (w = [Connect_call])"
| "phase_fits (Working Scan_step l) w opn = (w = [Scan_call] \<and> opn)"
| "phase_fits (Working Provision_step l) w opn = (joining w \<and> opn)"
| "phase_fits (Failed st f r) w opn = (w = [] \<and> retry_of st r \<and> (r = Retry_connect \<or> opn))"
| "phase_fits (Networks ns) w opn = (w = [] \<and> opn)"
| "phase_fits (Password i o1 ns) w opn = (w = [] \<and> opn)"
| "phase_fits (Joined i t) w opn = (w = [] \<and> opn)"

definition sent_ok :: "nat \<times> string \<times> string \<Rightarrow> bool" where
  "sent_ok m = (case m of (b, ssid, pw) \<Rightarrow> ssid \<noteq> [] \<and> trim ssid = ssid \<and> (utf16_length pw = 0 \<or> 8 \<le> utf16_length pw))"

definition wifi_ok :: "wifi_screen \<Rightarrow> bool" where
  "wifi_ok s \<longleftrightarrow>
     length (ws_waiting s) \<le> 1 \<and> (ws_open s = [] \<or> session_open s) \<and> (\<forall>b\<in>set (ws_open s). b < ws_sessions s) \<and>
     (Connect_call \<in> set (ws_waiting s) \<longrightarrow> ws_open s = []) \<and> list_all sent_ok (ws_sent s) \<and> (ws_left s \<or> phase_fits (ws_phase s) (ws_waiting s) (session_open s)) \<and>
     (\<not> ws_started s \<longrightarrow> ws_waiting s = [] \<and> ws_open s = [] \<and> (\<exists>l. ws_phase s = Working Permission_step l))"

lemmas screen_defs = fail_def scanNetworks_def wifi_connect_def session_open_def

lemma wifi_ok_new: "wifi_ok (new_wifi_screen qr)"
  by (simp add: wifi_ok_def new_wifi_screen_def)

lemma single_waiting: "length (ws_waiting s) \<le> 1 \<Longrightarrow> c \<in> set (ws_waiting s) \<Longrightarrow> ws_waiting s = [c]"
  by (cases "ws_waiting s") auto

lemma ok_connect:
  "wifi_ok s \<Longrightarrow> ws_waiting s = [] \<Longrightarrow> ws_started s \<Longrightarrow> wifi_ok (wifi_connect s)"
  by (auto simp: wifi_ok_def screen_defs)

lemma ok_scan:
  "wifi_ok s \<Longrightarrow> ws_waiting s = [] \<Longrightarrow> ws_started s \<Longrightarrow> session_open s \<Longrightarrow> wifi_ok (scanNetworks s)"
  by (auto simp: wifi_ok_def screen_defs split: option.splits)

lemma ok_start: "wifi_ok s \<Longrightarrow> wifi_ok (start_effect ascii s)"
  by (auto simp: wifi_ok_def screen_defs start_effect_def split: option.splits)

lemma ok_devices: "wifi_ok s \<Longrightarrow> wifi_ok (s\<lparr>ws_devices := d\<rparr>) \<and> wifi_ok (s\<lparr>ws_chosen := c\<rparr>)"
  by (simp add: wifi_ok_def session_open_def)

text \<open>What a handler needs of a screen in a phase of its own.\<close>

lemma phase_fitted: "wifi_ok s \<Longrightarrow> \<not> ws_left s \<Longrightarrow> phase_fits (ws_phase s) (ws_waiting s) (session_open s)"
  by (simp add: wifi_ok_def)

lemma started_out_of_start:
  "wifi_ok s \<Longrightarrow> \<not> (\<exists>l. ws_phase s = Working Permission_step l) \<or> ws_waiting s \<noteq> [] \<Longrightarrow> ws_started s"
  by (auto simp: wifi_ok_def)

lemma fits_call:
  "phase_fits p [Permission_call] opn \<Longrightarrow> \<exists>l. p = Working Permission_step l"
  "phase_fits p [Connect_call] opn \<Longrightarrow> \<exists>l. p = Working Connect_step l"
  "phase_fits p [Scan_call] opn \<Longrightarrow> \<exists>l. p = Working Scan_step l"
  "phase_fits p [Provision_call i pw ns] opn \<Longrightarrow> \<exists>l. p = Working Provision_step l"
  by (cases "(p, [Permission_call], opn)" rule: phase_fits.cases; simp)+

lemma ok_send:
  assumes "wifi_ok s" "ws_waiting s = []" "ws_started s" "session_open s" "sent_ok (0, ssid, pw)"
  shows "wifi_ok (wifi_send ssid pw ns s)"
  using assms by (auto simp: wifi_ok_def session_open_def wifi_send_def sent_ok_def split: option.splits)

lemma form_sends: "form_submit ssid opn pw = Inr (i, p) \<Longrightarrow> sent_ok (0, i, p)"
  by (auto simp: form_submit_def sent_ok_def utf16_length_def split: if_splits)

lemma ok_join:
  assumes "wifi_ok s" "\<not> ws_left s"
  shows "wifi_ok (press_join typed pw s)"
proof (cases "ws_phase s")
  case (Password initial opn ns)
  have w: "ws_waiting s = []" "session_open s" using phase_fitted [OF assms] by (simp_all add: Password)
  have st: "ws_started s" using started_out_of_start [OF assms(1)] by (simp add: Password)
  show ?thesis
  proof (cases "form_submit (if initial \<noteq> [] then initial else typed) opn (if opn then [] else pw)")
    case (Inl problem)
    then show ?thesis using assms(1) by (simp add: press_join_def Password)
  next
    case (Inr sent)
    obtain i p where "sent = (i, p)" by (cases sent)
    with Inr show ?thesis using ok_send [OF assms(1) w(1) st w(2) form_sends] by (simp add: press_join_def Password)
  qed
qed (simp_all add: press_join_def assms)

lemma ok_retry:
  assumes "wifi_ok s" "\<not> ws_left s" "ws_phase s = Failed st f r"
  shows "wifi_ok (do_retry r s)"
proof -
  have w: "ws_waiting s = []" "r = Retry_connect \<or> session_open s" using phase_fitted [OF assms(1,2)] by (simp_all add: assms(3))
  have st: "ws_started s" using started_out_of_start [OF assms(1)] by (simp add: assms(3))
  show ?thesis
  proof (cases r)
    case Retry_connect
    then show ?thesis using ok_connect [OF assms(1) w(1) st] by (simp add: do_retry_def)
  next
    case Retry_scan
    then show ?thesis using ok_scan [OF assms(1) w(1) st] w(2) by (simp add: do_retry_def)
  next
    case (Retry_form i opn ns)
    then show ?thesis using assms(1,2) w st by (simp add: do_retry_def wifi_ok_def session_open_def)
  qed
qed

lemma ok_permission:
  assumes "wifi_ok s" "Permission_call \<in> set (ws_waiting s)"
  shows "wifi_ok (connect_permitted a (got Permission_call s))"
proof -
  have w: "ws_waiting s = [Permission_call]" using assms by (auto simp: wifi_ok_def intro: single_waiting)
  have st: "ws_started s" using started_out_of_start [OF assms(1)] w by simp
  have ph: "ws_left s \<or> (\<exists>l. ws_phase s = Working Permission_step l)"
    using assms(1) w fits_call(1) by (auto simp: wifi_ok_def)
  consider "a = None" | "a = Some False" | "a = Some True" by (cases a) auto
  then show ?thesis
  proof cases
    case 1
    then show ?thesis using assms(1) w st ph by (auto simp: wifi_ok_def connect_permitted_def session_open_def)
  next
    case 2
    then show ?thesis using assms(1) w st by (auto simp: wifi_ok_def connect_permitted_def fail_def session_open_def retry_of_def)
  next
    case 3
    then show ?thesis using assms(1) w st
      by (auto simp: wifi_ok_def connect_permitted_def disconnect_closes session_open_def)
  qed
qed

lemma ok_connected:
  assumes "wifi_ok s" "Connect_call \<in> set (ws_waiting s)"
  shows "wifi_ok (connect_replied e (got Connect_call s))"
proof -
  have w: "ws_waiting s = [Connect_call]" using assms by (auto simp: wifi_ok_def intro: single_waiting)
  have st: "ws_started s" using started_out_of_start [OF assms(1)] w by simp
  have "ws_open s = []" using assms(1) w by (simp add: wifi_ok_def)
  then show ?thesis using assms(1) w st
    by (cases e) (auto simp: wifi_ok_def connect_replied_def fail_def scanNetworks_def session_open_def retry_of_def)
qed

lemma ok_scanned:
  assumes "wifi_ok s" "Scan_call \<in> set (ws_waiting s)"
  shows "wifi_ok (scan_replied r (got Scan_call s))"
proof -
  have w: "ws_waiting s = [Scan_call]" using assms by (auto simp: wifi_ok_def intro: single_waiting)
  have st: "ws_started s" using started_out_of_start [OF assms(1)] w by simp
  have "ws_left s \<or> (\<exists>l. ws_phase s = Working Scan_step l)" using assms(1) w fits_call(3) by (auto simp: wifi_ok_def)
  then have "ws_left s \<or> session_open s" using assms(1) by (auto simp: wifi_ok_def)
  then show ?thesis using assms(1) w st
    by (cases r) (auto simp: wifi_ok_def scan_replied_def fail_def session_open_def retry_of_def)
qed

lemma ok_provisioned:
  assumes "wifi_ok s" "Provision_call i pw ns \<in> set (ws_waiting s)"
  shows "wifi_ok (provision_replied i pw ns e now (got (Provision_call i pw ns) s))"
proof -
  have w: "ws_waiting s = [Provision_call i pw ns]" using assms by (auto simp: wifi_ok_def intro: single_waiting)
  have st: "ws_started s" using started_out_of_start [OF assms(1)] w by simp
  have "ws_left s \<or> (\<exists>l. ws_phase s = Working Provision_step l)" using assms(1) w fits_call(4) by (auto simp: wifi_ok_def)
  then have "ws_left s \<or> session_open s" using assms(1) by (auto simp: wifi_ok_def)
  then show ?thesis using assms(1) w st
    by (cases e) (auto simp: wifi_ok_def provision_replied_def fail_def session_open_def retry_of_def)
qed

lemma wifi_ok_does:
  assumes "wifi_ok s" "wifi_offers ascii s e"
  shows "wifi_ok (wifi_does ascii e s)"
proof -
  have ph: "phase_fits (ws_phase s) (ws_waiting s) (session_open s)" if "\<not> ws_left s" using phase_fitted [OF assms(1) that] .
  have st: "ws_started s" if "ws_phase s = Networks ns \<or> ws_phase s = Password i opn ns" for i opn ns
    using started_out_of_start [OF assms(1)] that by auto
  show ?thesis
  proof (cases e)
    case (Pick n)
    then show ?thesis using assms ph st by (auto simp: wifi_ok_def session_open_def split: wifi_phase.splits)
  next
    case Pick_other
    then show ?thesis using assms ph st by (auto simp: wifi_ok_def session_open_def split: wifi_phase.splits)
  next
    case Another_network
    then show ?thesis using assms ph st by (auto simp: wifi_ok_def session_open_def split: wifi_phase.splits)
  next
    case Rescan
    then obtain ns where ns: "\<not> ws_left s" "ws_phase s = Networks ns" using assms(2) by (auto split: wifi_phase.splits)
    then show ?thesis using ok_scan [OF assms(1)] ph st Rescan by simp
  next
    case Try_again
    then obtain stp f r where "\<not> ws_left s" "ws_phase s = Failed stp f r" using assms(2) by (auto split: wifi_phase.splits)
    then show ?thesis using ok_retry [OF assms(1)] Try_again by simp
  next
    case Leave
    then show ?thesis using assms(1) by (auto simp: leave_def wifi_ok_def disconnect_closes)
  qed (use assms ok_start ok_devices ok_permission ok_connected ok_scanned ok_provisioned ok_join in auto)
qed

lemma wifi_ok_reached: "wifi_reaches ascii s t \<Longrightarrow> wifi_ok s \<Longrightarrow> wifi_ok t"
  by (induction rule: wifi_reaches.induct) (simp_all add: wifi_ok_does)

section \<open>Properties of the Wi-Fi screen\<close>

text \<open>
  C20: whatever is pressed and answered in whatever order, at most one call is awaited and it is the
  one the phase names, the board is asked for networks and sent a network only over the one session
  the app holds open, networks, form and success are only shown over an open session, and every
  network sent has a name without spaces around it and no password of one to seven characters.
\<close>

theorem wifi_setup_safe:
  assumes "wifi_reaches ascii (new_wifi_screen qr) s"
  shows "length (ws_waiting s) \<le> 1 \<and> length (ws_open s) \<le> 1 \<and>
    list_all (\<lambda>(b, ssid, pw). ssid \<noteq> [] \<and> trim ssid = ssid \<and> \<not> (0 < utf16_length pw \<and> utf16_length pw < 8)) (ws_sent s) \<and>
    (if ws_left s then True
     else case ws_phase s of
       Working Permission_step l \<Rightarrow> set (ws_waiting s) \<subseteq> {Permission_call}
     | Working Connect_step l \<Rightarrow> ws_waiting s = [Connect_call] \<and> ws_open s = []
     | Working Scan_step l \<Rightarrow> ws_waiting s = [Scan_call] \<and> session_open s
     | Working Provision_step l \<Rightarrow> joining (ws_waiting s) \<and> session_open s
     | Failed st f r \<Rightarrow> ws_waiting s = [] \<and> retry_of st r \<and> (if r = Retry_connect then True else session_open s)
     | _ \<Rightarrow> ws_waiting s = [] \<and> session_open s)"
proof -
  have ok: "wifi_ok s" by (rule wifi_ok_reached [OF assms wifi_ok_new])
  have "list_all (\<lambda>(b, ssid, pw). ssid \<noteq> [] \<and> trim ssid = ssid \<and> \<not> (0 < utf16_length pw \<and> utf16_length pw < 8)) (ws_sent s)"
    using ok by (fastforce simp: wifi_ok_def sent_ok_def list_all_iff)
  moreover have "length (ws_open s) \<le> 1" using ok by (auto simp: wifi_ok_def session_open_def)
  moreover have "if ws_left s then True
     else case ws_phase s of
       Working Permission_step l \<Rightarrow> set (ws_waiting s) \<subseteq> {Permission_call}
     | Working Connect_step l \<Rightarrow> ws_waiting s = [Connect_call] \<and> ws_open s = []
     | Working Scan_step l \<Rightarrow> ws_waiting s = [Scan_call] \<and> session_open s
     | Working Provision_step l \<Rightarrow> joining (ws_waiting s) \<and> session_open s
     | Failed st f r \<Rightarrow> ws_waiting s = [] \<and> retry_of st r \<and> (if r = Retry_connect then True else session_open s)
     | _ \<Rightarrow> ws_waiting s = [] \<and> session_open s"
    using ok by (auto simp: wifi_ok_def split: wifi_phase.split setup_step.split)
  ultimately show ?thesis using ok by (simp add: wifi_ok_def)
qed

definition demo_qr :: provisioning_qr where
  "demo_qr = \<lparr>pq_name = ''Pump'', pq_pop = ''secret'', pq_username = None, pq_security = Sec1\<rparr>"

definition shed :: access_point where "shed = \<lparr>ap_ssid = ''Shed'', ap_rssi = - 61, ap_auth = 3\<rparr>"

text \<open>The screen after some events from its start.\<close>

definition run_wifi :: "wifi_event list \<Rightarrow> wifi_screen" where
  "run_wifi es = fold (wifi_does id) es (new_wifi_screen (Some demo_qr))"

fun all_offered :: "wifi_screen \<Rightarrow> wifi_event list \<Rightarrow> bool" where
  "all_offered s [] = True"
| "all_offered s (e # es) = (wifi_offers id s e \<and> all_offered (wifi_does id e s) es)"

lemma run_from: "wifi_reaches id s t \<Longrightarrow> all_offered t es \<Longrightarrow> wifi_reaches id s (fold (wifi_does id) es t)"
  by (induction es arbitrary: t) (auto intro: wifi_reaches.event)

lemma run_reaches: "all_offered (new_wifi_screen (Some demo_qr)) es \<Longrightarrow> wifi_reaches id (new_wifi_screen (Some demo_qr)) (run_wifi es)"
  unfolding run_wifi_def by (rule run_from [OF wifi_reaches.here])

definition to_form :: "wifi_event list" where
  "to_form =
     [Devices_loaded [], Permission_reply (Some True), Connect_reply None, Scan_reply (Inr [shed]),
      Pick \<lparr>wn_ssid = ''Shed'', wn_rssi = - 61, wn_open = False\<rparr>]"

lemma to_form_runs:
  "all_offered (new_wifi_screen (Some demo_qr)) to_form"
  "ws_phase (run_wifi to_form) = Password ''Shed'' False [\<lparr>wn_ssid = ''Shed'', wn_rssi = - 61, wn_open = False\<rparr>]"
  by code_simp+

lemma wifi_setup_safe_witness: "length (ws_waiting (run_wifi to_form)) \<le> 1 \<and> length (ws_open (run_wifi to_form)) \<le> 1"
  using wifi_setup_safe [OF run_reaches [OF to_form_runs(1)]] by simp

text \<open>After leaving with no session being set up, nothing opens one.\<close>

definition quiet :: "wifi_screen \<Rightarrow> bool" where
  "quiet s \<longleftrightarrow> ws_left s \<and> ws_open s = [] \<and> Permission_call \<notin> set (ws_waiting s) \<and> Connect_call \<notin> set (ws_waiting s)"

lemma quiet_does:
  assumes "quiet s" "wifi_offers ascii s e"
  shows "quiet (wifi_does ascii e s)"
proof (cases e)
  case (Scan_reply r)
  then show ?thesis using assms
    by (cases r) (auto simp: quiet_def scan_replied_def fail_def dest: notin_set_remove1 [THEN notE, rotated])
next
  case (Provision_reply i pw ns r now)
  then show ?thesis using assms
    by (cases r) (auto simp: quiet_def provision_replied_def fail_def dest: notin_set_remove1 [THEN notE, rotated])
qed (use assms in \<open>auto simp: quiet_def\<close>)

lemma quiet_reached: "wifi_reaches ascii s t \<Longrightarrow> quiet s \<Longrightarrow> quiet t"
  by (induction rule: wifi_reaches.induct) (simp_all add: quiet_does)

text \<open>
  C35: leaving the screen while no permission is asked for and no board is being connected closes the
  session with the board, and no answer that comes later opens one.
\<close>

theorem leaving_disconnects:
  assumes "wifi_reaches ascii (new_wifi_screen qr) s" "Permission_call \<notin> set (ws_waiting s)" "Connect_call \<notin> set (ws_waiting s)"
    "wifi_reaches ascii (wifi_does ascii Leave s) t"
  shows "ws_left t \<and> ws_open t = []"
proof -
  have "wifi_ok s" by (rule wifi_ok_reached [OF assms(1) wifi_ok_new])
  then have "quiet (wifi_does ascii Leave s)" using assms(2,3) by (simp add: quiet_def leave_def wifi_ok_def disconnect_closes)
  from quiet_reached [OF assms(4) this] show ?thesis by (simp add: quiet_def)
qed

lemma leaving_disconnects_witness:
  "ws_left (wifi_does id Leave (run_wifi to_form)) \<and> ws_open (wifi_does id Leave (run_wifi to_form)) = []"
proof -
  have "ws_waiting (run_wifi to_form) = []" by code_simp
  then show ?thesis using leaving_disconnects [OF run_reaches [OF to_form_runs(1)] _ _ wifi_reaches.here] by simp
qed

text \<open>
  Left while the board is being connected, the screen never closes the session that opens: nothing is
  awaited any more and the session is still open.
\<close>

lemma leaving_leaks:
  "all_offered (new_wifi_screen (Some demo_qr)) [Devices_loaded [], Permission_reply (Some True), Leave, Connect_reply None, Scan_reply (Inr [shed])]"
  "(let s = run_wifi [Devices_loaded [], Permission_reply (Some True), Leave, Connect_reply None, Scan_reply (Inr [shed])]
    in ws_left s \<and> ws_waiting s = [] \<and> ws_open s = [0])"
  by code_simp+

text \<open>
  A secured network sent without a password and refused is asked for again as an open one: the form
  has no password field.  A chosen network's name is sent without the spaces around it.
\<close>

lemma empty_password_reopens:
  "(let ns = [\<lparr>wn_ssid = ''Shed'', wn_rssi = - 61, wn_open = False\<rparr>];
        es = to_form @ [Join [] [], Provision_reply ''Shed'' [] ns (Some ''AUTH_FAILED'') 0, Try_again]
    in all_offered (new_wifi_screen (Some demo_qr)) es \<and> ws_phase (run_wifi es) = Password ''Shed'' True ns)"
  by code_simp

lemma spaces_dropped: "form_submit '' Guest'' True [] = Inr (''Guest'', [])"
  by code_simp

end
