(* ===== verification/Spec2Isabelle.thy ===== *)
theory Spec2Isabelle
  imports Access Api_Client Boards Calendar Chart Chart_Series Config_Blob Connect Connect_Facts Controls Dashboards Device_Config Flasher Hardware_Check Hardware_Draft Hardware_Safety Install_Facts Js_Number Json Ladder List_Facts Lists Live_Buffer Live_Delivery Live_Facts Live_Screen Next_Runs Parts_Facts Phone_Facts Phone_Session Prelude Readings Realtime Recipes Record_Editor Rule_Draft Rule_Edits Rule_Fields Rule_Page Rule_Preview Rule_Text Rule_Tree Rule_Types Rule_Words Rung Rung_Facts Schedule Schedule_Facts Screen_Facts Session Sketch Sketch_Facts Srp Template_Check Template_Draft Template_Facts Template_Parts Units Utf16 Wifi_Facts Wifi_Setup Wire
begin

text \<open>
  A model of the program logic of the IoT SaaS front end: the web app (\<open>src/frontend/src\<close>) and the
  package it shares with the phone app (\<open>src/packages/shared/src\<close>), with the parts of the board's
  firmware (\<open>src/firmware/src\<close>) that read what the web app writes.

  The program.  A person describes a device by a template (metrics, actuators and the wiring of a
  board), connects a board to the broker, watches its readings live and lets rules command it.
  Templates, wirings and rules are edited as drafts, checked in the browser and saved through the
  API.  Connecting builds a config and flashes it over USB, or generates an Arduino sketch.  Readings
  come over a socket into a buffer, which feeds the charts at once and the cached data of the screen
  a few times a second.

  Conventions.  A JavaScript string is the list of the bytes of its UTF-8 form (\<open>Utf16\<close> counts its UTF-16
  units where the code's limits do); case and white space are the ASCII ones.  Numbers are exact rationals with NaN and the infinities (\<open>Js_Number\<close>), so the
  rounding of a double to 53 bits is outside the model; counts and pins are \<open>nat\<close>.  Words keep their
  width where bytes matter (\<open>Config_Blob\<close>, \<open>Srp\<close>).  An object or Map with its insertion order is a list
  of pairs (\<open>dict_get\<close>, \<open>dict_set\<close>); keys that look like integers, which JavaScript sorts first, do not
  occur in the ones modelled.  A throw is a value of a sum or an option.  What an asynchronous handler
  does is one step up to each await and one after it, so steps of others may come between.

  Parts and theories.
  - Shared: \<open>Prelude\<close> (strings, dictionaries, lists), \<open>Utf16\<close>, \<open>Js_Number\<close>, \<open>Json\<close> (\<open>JSON.stringify\<close> and \<open>parse\<close>, with
    the interface \<open>json_codec\<close> that both layouts implement), \<open>Calendar\<close> (days, dates and ISO texts,
    for the years 1970 to 9999).
  - Rules (\<open>frontend/src/lib/rule-draft.ts\<close>, \<open>rule-preview.ts\<close>, \<open>ladder-layout.ts\<close>, \<open>rule-recipes.ts\<close>,
    \<open>rule-text.ts\<close>): \<open>Rule_Types\<close> the drafts and their ids, \<open>Rule_Tree\<close> every operation on a condition tree
    and the edits of both editors as a step relation, \<open>Rule_Draft\<close> opening, request and validation,
    \<open>Rule_Preview\<close> the checks, \<open>Ladder\<close> the grid, \<open>Recipes\<close> and \<open>Rule_Text\<close> the starting points and the wording.
  - The rule editor (\<open>components/rules/editor\<close>, \<open>components/rules/ladder\<close>): \<open>Rule_Fields\<close> the controls, rows and
    sheets of both views and what each changes, \<open>Rule_Edits\<close> all of them as one alphabet, \<open>Rule_Page\<close> the tabs,
    the wizard and the save, \<open>Rung\<close> and \<open>Rung_Facts\<close> the drawing of a rung,
    \<open>Rule_Words\<close> a rule as a sentence, the sentence that edits a draft, and the values of its preview.
  - The phone app (\<open>mobile/src\<close>): \<open>Wifi_Setup\<close> and \<open>Wifi_Facts\<close> the QR scanner, the network list and the Wi-Fi
    screen as a state machine over the provisioning library's replies, \<open>Phone_Session\<close> and \<open>Phone_Facts\<close> its session, with
    every \<open>await\<close> of a refresh, a sign-in and a sign-out as a step that others may come between, where
    the secure store answers or rejects.
  - Schedules (\<open>lib/schedule.ts\<close>, \<open>ui/SchedulePicker.tsx\<close>, \<open>lib/timezones.ts\<close>): \<open>Schedule\<close>, \<open>Next_Runs\<close>,
    \<open>Schedule_Facts\<close>.
  - Wiring (\<open>lib/hardware\<close>, \<open>lib/firmware-sketch.ts\<close>): \<open>Boards\<close> the chips and pins, \<open>Hardware_Draft\<close> and
    \<open>Hardware_Check\<close> all of \<open>hardware-draft.ts\<close>, \<open>Hardware_Safety\<close> what they guarantee; \<open>Sketch\<close> the whole
    generated Arduino program as text, \<open>Sketch_Facts\<close>; \<open>Srp\<close> the SRP6a verifier.
  - Installing: \<open>Device_Config\<close> (\<open>device-config.ts\<close> and the board's \<open>loadConfig\<close>), \<open>Config_Blob\<close> (\<open>config-blob.ts\<close>
    and the board's reader), \<open>Install_Facts\<close> from the form to the running board, \<open>Flasher\<close> (\<open>flasher.ts\<close>),
    \<open>Connect\<close> and \<open>Connect_Facts\<close> (\<open>components/devices/connect\<close>) the five steps a person goes through.
  - Templates (\<open>lib/template-draft.ts\<close>): \<open>Template_Draft\<close>, \<open>Template_Check\<close>, \<open>Template_Parts\<close>,
    \<open>Template_Facts\<close>, \<open>Parts_Facts\<close>; \<open>Wire\<close> the names on the wire and the provisioning QR; \<open>Units\<close>.
  - Live data: \<open>Realtime\<close> (\<open>shared/realtime.ts\<close>) the connection, \<open>Live_Buffer\<close> (\<open>lib/live-buffer.ts\<close>) with
    \<open>Live_Facts\<close> and \<open>Live_Delivery\<close>, \<open>Live_Screen\<close> (\<open>shared/live-telemetry.ts\<close>, \<open>hooks/useRealtime.ts\<close>) with
    \<open>Screen_Facts\<close>, \<open>Chart\<close> and \<open>Chart_Series\<close> (\<open>chart-decimate.ts\<close>, \<open>chart-range.ts\<close>, \<open>bool-series.ts\<close>),
    \<open>Readings\<close> (how readings, ages and statuses are worded), \<open>Controls\<close> (commanding an actuator).
  - Around them: \<open>Session\<close> (\<open>auth-context.tsx\<close>), \<open>Access\<close> (\<open>permissions.ts\<close>), \<open>Api_Client\<close>, \<open>Lists\<close> with
    \<open>List_Facts\<close> (\<open>components/list\<close>), \<open>Record_Editor\<close> (\<open>components/editor\<close>), \<open>Dashboards\<close>.

  How state and operations correspond.  A component's state is a record with a field per variable of
  the code (a React state, a ref, a Map of a class, a closure's variable), and each method, handler
  or effect is a function on it with the source's name where Isabelle allows it.  Where the order of
  calls matters, an inductive relation has one rule per handler under the condition the code offers
  it with: \<open>edit\<close>, \<open>draft_step\<close> and \<open>page_step\<close> for the rule editor, \<open>ed_step\<close> for the record editor, the steps of the buffer in
  \<open>Live_Delivery\<close>, of the screen in \<open>Screen_Facts\<close>, of the connection in \<open>Realtime\<close> and \<open>cf_step\<close> for the
  Connect flow.

  What the lemmas show.
  - A wiring that validates uses no GPIO, I2C address or row twice and only pins that suit; a move
    to another board keeps or replaces each pin of each role; saving what was opened gives it back
    (\<open>Hardware_Safety\<close>), also for a whole template (\<open>Template_Facts\<close>).
  - The config typed in is the config the board runs with, through the bytes of the partition and
    its checksum (\<open>Install_Facts\<close>, \<open>Connect_Facts\<close>); a flash is reported done only when its last
    write and restart succeeded (\<open>Flasher\<close>); the QR and the label's link are read back.
  - Edits in either view keep a rule's draft sound, whatever their order, and only a draft without a
    problem is sent, an enabled rule's after a yes (\<open>Rule_Edits\<close>, \<open>Rule_Page\<close>); what validates is sent as
    drafted (\<open>Rule_Draft\<close>, \<open>Template_Check\<close>); an edit of
    a value or of the sentence changes its place in the draft and nothing else (\<open>Rule_Edits\<close>,
    \<open>Rule_Words\<close>); recipes are ready to save.  Elements of a rung do not cover one another, but the
    label of its trigger can cover the minimum interval (\<open>Rung_Facts\<close>).
  - A cron's next runs are exactly its matching minutes (\<open>Next_Runs\<close>); the picker reads back what it wrote.
  - No reading is lost between socket and chart, nothing pending is left without a timer, the cache
    keeps its types and the newer reading (\<open>Live_Delivery\<close>, \<open>Screen_Facts\<close>); decimation keeps the extremes.
  - One live connection at a time, a refresh ends signed in or out (\<open>Realtime\<close>, \<open>Session\<close>), on the
    phone one at a time and never with a token it knows to be used, unless the store failed (\<open>Phone_Facts\<close>); sending a
    command ends (\<open>Controls\<close>); a list's URL implements its state and sorting follows the column and is stable (\<open>List_Facts\<close>).
  - Lemmas that show the code not doing what its comments say are the findings of the manifest, e.g.
    \<open>clock_ahead_polls_out\<close>, \<open>ack_of_the_other_test\<close>, \<open>bus_part_not_checked\<close>, \<open>shrunk_feed_empty\<close>.

  Interfaces.  \<open>json_codec\<close> (a printer and a parser that undoes it), \<open>point_queue\<close> (what a chart asks of
  the buffer) and \<open>id_supply\<close> (fresh row ids) are locales; their interpretations are on the model's
  own printer, buffer and counter.

  Bounds.  \<open>nextRuns\<close> scans 400 days as the code does, and a cron that matches none of them has no
  runs.  The JSON parser takes twice the length of the text plus one as fuel, and every call that recurses consumes some.  A refresh
  makes at most four calls, a flash at most one attempt per link speed, a send at most 15 polls
  (12 seconds of waiting), decimation draws at most two points per bucket and the two ends.

  Parameters, each an argument of the definitions that use it: \<open>Intl\<close> and \<open>localeCompare\<close>,
  \<open>normalize("NFD")\<close>, SHA-512 and random bytes, \<open>fetch\<close> and the replies of the API, the WebSocket, esptool-js
  and Web Serial (what each attempt meets), SWR (its cache and refetches), ArduinoJson and mbedtls base64,
  and the key \<open>JSON.stringify\<close> gives a draft.

  Not modelled.  The backend (Python) and the firmware's drivers and provisioning (C++), beyond its
  config loader; the API's generated types beyond the records used; markup, styles, focus and
  animation of the React components, whose state and handlers are modelled where they decide
  something; the marketing pages; the design prototypes under \<open>src/docs\<close>, which no build includes;
  uPlot, Next's router and the phone's native modules, which are third party; end-to-end tests.
\<close>

end
